(* ===== verification/Prelude.thy ===== *)
theory Prelude
  imports Complex_Main "HOL-Library.AList" "HOL-Library.Char_ord" "HOL-Library.List_Lexorder"
    "HOL-Library.Product_Lexorder"
begin

text \<open>
  Shared layer of the development.

  \<^item> The exceptions of the modelled code as the datatype \<open>py_error\<close>.
  \<^item> Computations of a Python method: \<open>('s, 'a) py\<close> takes the state and returns a value or
    a raised exception, together with the state reached. A raise keeps the writes done before it,
    as an exception does in Python.
  \<^item> Dictionaries as association lists in insertion order (\<open>dget\<close>, \<open>dput\<close>).
  \<^item> The string helpers the code uses: \<open>str.strip\<close>, decimal \<open>str(int)\<close>.
  \<^item> \<open>evolves R m\<close>: every run of \<open>m\<close>, raising or not, relates its start and end state by
    \<open>R\<close>. The locale \<open>step_order\<close> gives the rules that carry such facts through whole methods.
\<close>

named_theorems py_simps \<open>unfolding the computation combinators\<close>
named_theorems evolve_rules \<open>compositional rules for state-evolution facts\<close>

section \<open>Exceptions\<close>

datatype py_error =
    KeyError string
  | ValueError string
  | RuntimeError string
  | ValidationError
  | ProductConsistencyError string
  | ProductVersionConflict string
  | DependencyEdgeSuperseded string
  | DependencyResultInconsistent string
  | DependencyOperationPending string
  | OperationClaimConflict string
  | OperationConsistencyError string
  | IdempotencyConflict string
  | IdempotencyPending string
  | AttributeError string
  | TypeError string
  | Conflict string
  | Expired string
  | PolicyDenied string
  | PermissionError string
  | IndexError string
  | HTTPException int string
  | NotFoundError string
  | AssertionError

section \<open>Computations with state and exceptions\<close>

type_synonym ('s, 'a) py = "'s \<Rightarrow> (py_error + 'a) \<times> 's"

definition ret :: "'a \<Rightarrow> ('s, 'a) py" where
  "ret x = (\<lambda>s. (Inr x, s))"

definition raise :: "py_error \<Rightarrow> ('s, 'a) py" where
  "raise e = (\<lambda>s. (Inl e, s))"

definition bindp :: "('s, 'a) py \<Rightarrow> ('a \<Rightarrow> ('s, 'b) py) \<Rightarrow> ('s, 'b) py" where
  "bindp m f = (\<lambda>s. case m s of (Inl e, s') \<Rightarrow> (Inl e, s') | (Inr x, s') \<Rightarrow> f x s')"

definition seqp :: "('s, 'a) py \<Rightarrow> ('s, 'b) py \<Rightarrow> ('s, 'b) py" where
  "seqp m k = bindp m (\<lambda>_. k)"

text \<open>\<open>try\<close>: the handler sees every exception and raises again the ones it does not catch.\<close>

definition trycatch :: "('s, 'a) py \<Rightarrow> (py_error \<Rightarrow> ('s, 'a) py) \<Rightarrow> ('s, 'a) py" where
  "trycatch m h = (\<lambda>s. case m s of (Inl e, s') \<Rightarrow> h e s' | (Inr x, s') \<Rightarrow> (Inr x, s'))"

text \<open>\<open>raise_if b e\<close> is the statement \<open>if b: raise e\<close>.\<close>

definition raise_if :: "bool \<Rightarrow> py_error \<Rightarrow> ('s, unit) py" where
  "raise_if b e = (if b then raise e else ret ())"

definition reads :: "('s \<Rightarrow> 'a) \<Rightarrow> ('s, 'a) py" where
  "reads f = (\<lambda>s. (Inr (f s), s))"

definition writes :: "('s \<Rightarrow> 's) \<Rightarrow> ('s, unit) py" where
  "writes g = (\<lambda>s. (Inr (), g s))"

fun forp :: "('a \<Rightarrow> ('s, unit) py) \<Rightarrow> 'a list \<Rightarrow> ('s, unit) py" where
  "forp body [] = ret ()"
| "forp body (x # xs) = seqp (body x) (forp body xs)"

lemma ret_apply [simp, py_simps]: "ret x s = (Inr x, s)"
  by (simp add: ret_def)

lemma raise_apply [simp, py_simps]: "raise e s = (Inl e, s)"
  by (simp add: raise_def)

lemma reads_apply [simp, py_simps]: "reads f s = (Inr (f s), s)"
  by (simp add: reads_def)

lemma writes_apply [simp, py_simps]: "writes g s = (Inr (), g s)"
  by (simp add: writes_def)

lemma raise_if_apply [simp, py_simps]: "raise_if b e s = (if b then (Inl e, s) else (Inr (), s))"
  by (simp add: raise_if_def)

lemma bindp_apply [py_simps]:
  "bindp m f s = (case m s of (Inl e, s') \<Rightarrow> (Inl e, s') | (Inr x, s') \<Rightarrow> f x s')"
  by (simp add: bindp_def)

lemma seqp_apply [py_simps]:
  "seqp m k s = (case m s of (Inl e, s') \<Rightarrow> (Inl e, s') | (Inr _, s') \<Rightarrow> k s')"
  by (simp add: seqp_def bindp_def split: prod.split sum.split)

lemma trycatch_apply [py_simps]:
  "trycatch m h s = (case m s of (Inl e, s') \<Rightarrow> h e s' | (Inr x, s') \<Rightarrow> (Inr x, s'))"
  by (simp add: trycatch_def)

lemma bindp_ret [simp]: "bindp (ret x) f = f x"
  by (rule ext) (simp add: bindp_def)

lemma bindp_raise [simp]: "bindp (raise e) f = raise e"
  by (rule ext) (simp add: bindp_def)

lemma seqp_ret [simp]: "seqp (ret x) k = k"
  by (rule ext) (simp add: seqp_def)

lemma bindp_assoc: "bindp (bindp m f) g = bindp m (\<lambda>x. bindp (f x) g)"
  by (rule ext) (simp add: bindp_def split: prod.split sum.split)

lemma bindp_InrE:
  assumes "bindp m f s = (Inr y, s')"
  obtains x s1 where "m s = (Inr x, s1)" and "f x s1 = (Inr y, s')"
  using assms by (auto simp: bindp_def split: prod.splits sum.splits)

lemma seqp_InrE:
  assumes "seqp m k s = (Inr y, s')"
  obtains x s1 where "m s = (Inr x, s1)" and "k s1 = (Inr y, s')"
  using assms by (auto simp: seqp_apply split: prod.splits sum.splits)

lemma forp_append: "forp body (xs @ ys) = seqp (forp body xs) (forp body ys)"
  by (induction xs) (auto simp: fun_eq_iff seqp_apply split: prod.split sum.split)

section \<open>State-evolution facts\<close>

definition evolves :: "('s \<Rightarrow> 's \<Rightarrow> bool) \<Rightarrow> ('s, 'a) py \<Rightarrow> bool" where
  "evolves R m \<longleftrightarrow> (\<forall>s. R s (snd (m s)))"

lemma evolvesI: "(\<And>s. R s (snd (m s))) \<Longrightarrow> evolves R m"
  by (simp add: evolves_def)

lemma evolvesD: "evolves R m \<Longrightarrow> m s = (r, s') \<Longrightarrow> R s s'"
  unfolding evolves_def by (metis snd_conv)

lemma evolves_mono: "evolves R m \<Longrightarrow> (\<And>s s'. R s s' \<Longrightarrow> Q s s') \<Longrightarrow> evolves Q m"
  by (simp add: evolves_def)

lemma evolves_conj: "evolves R m \<Longrightarrow> evolves Q m \<Longrightarrow> evolves (\<lambda>s s'. R s s' \<and> Q s s') m"
  by (simp add: evolves_def)

lemma evolves_writes: "(\<And>s. R s (g s)) \<Longrightarrow> evolves R (writes g)"
  by (simp add: evolves_def)

lemma evolves_snd: "evolves R m \<Longrightarrow> R s (snd (m s))"
  by (simp add: evolves_def)

text \<open>\<open>yields P m\<close>: whatever value a run of \<open>m\<close> returns satisfies \<open>P\<close>.\<close>

definition yields :: "('a \<Rightarrow> bool) \<Rightarrow> ('s, 'a) py \<Rightarrow> bool" where
  "yields P m \<longleftrightarrow> (\<forall>s x s'. m s = (Inr x, s') \<longrightarrow> P x)"

lemma yieldsD: "yields P m \<Longrightarrow> m s = (Inr x, s') \<Longrightarrow> P x"
  unfolding yields_def by blast

lemma yields_ret: "P x \<Longrightarrow> yields P (ret x)"
  by (simp add: yields_def)

lemma yields_raise: "yields P (raise e)"
  by (simp add: yields_def)

lemma yields_bindp: "yields Q m \<Longrightarrow> (\<And>x. Q x \<Longrightarrow> yields P (f x)) \<Longrightarrow> yields P (bindp m f)"
  unfolding yields_def by (meson bindp_InrE)

lemma yields_bindp_any: "(\<And>x. yields P (f x)) \<Longrightarrow> yields P (bindp m f)"
  unfolding yields_def by (meson bindp_InrE)

lemma yields_seqp: "yields P k \<Longrightarrow> yields P (seqp m k)"
  unfolding seqp_def by (rule yields_bindp_any)

lemma yields_if: "(b \<Longrightarrow> yields P m) \<Longrightarrow> (\<not> b \<Longrightarrow> yields P k) \<Longrightarrow> yields P (if b then m else k)"
  by simp

lemmas yield_rules = yields_ret yields_raise yields_seqp yields_if

text \<open>
  A reflexive and transitive relation on states is carried through every combinator, so a fact
  about each primitive write becomes a fact about a whole method.
\<close>

locale step_order =
  fixes R :: "'s \<Rightarrow> 's \<Rightarrow> bool"
  assumes step_refl: "R s s"
    and step_trans: "R s t \<Longrightarrow> R t u \<Longrightarrow> R s u"
begin

lemma evolves_ret [evolve_rules]: "evolves R (ret x)"
  by (simp add: evolves_def step_refl)

lemma evolves_raise [evolve_rules]: "evolves R (raise e)"
  by (simp add: evolves_def step_refl)

lemma evolves_raise_if [evolve_rules]: "evolves R (raise_if b e)"
  by (simp add: evolves_def step_refl)

lemma evolves_reads [evolve_rules]: "evolves R (reads f)"
  by (simp add: evolves_def step_refl)

lemma evolves_bindp [evolve_rules]:
  assumes "evolves R m" and "\<And>x. evolves R (f x)"
  shows "evolves R (bindp m f)"
proof (rule evolvesI)
  fix s
  obtain r s1 where ms: "m s = (r, s1)" by fastforce
  with assms(1) have "R s s1" by (rule evolvesD)
  moreover have "R s1 (snd (f x s1))" for x
    using assms(2) by (simp add: evolves_def)
  ultimately show "R s (snd (bindp m f s))"
    by (auto simp: bindp_def ms split: sum.split intro: step_trans)
qed

lemma evolves_bindp_yields:
  assumes "evolves R m" and "yields P m" and "\<And>x. P x \<Longrightarrow> evolves R (f x)"
  shows "evolves R (bindp m f)"
proof (rule evolvesI)
  fix s
  obtain r s1 where ms: "m s = (r, s1)" by fastforce
  with assms(1) have R: "R s s1" by (rule evolvesD)
  show "R s (snd (bindp m f s))"
  proof (cases r)
    case (Inl e)
    with ms R show ?thesis by (simp add: bindp_def)
  next
    case (Inr x)
    with ms assms(2) have "P x" by (auto dest: yieldsD)
    with assms(3) have "R s1 (snd (f x s1))" by (simp add: evolves_def)
    with ms Inr R show ?thesis by (auto simp: bindp_def intro: step_trans)
  qed
qed

lemma evolves_seqp [evolve_rules]:
  "evolves R m \<Longrightarrow> evolves R k \<Longrightarrow> evolves R (seqp m k)"
  unfolding seqp_def by (intro evolves_bindp)

lemma evolves_trycatch [evolve_rules]:
  assumes "evolves R m" and "\<And>e. evolves R (h e)"
  shows "evolves R (trycatch m h)"
proof (rule evolvesI)
  fix s
  obtain r s1 where ms: "m s = (r, s1)" by fastforce
  with assms(1) have "R s s1" by (rule evolvesD)
  moreover have "R s1 (snd (h e s1))" for e
    using assms(2) by (simp add: evolves_def)
  ultimately show "R s (snd (trycatch m h s))"
    by (auto simp: trycatch_def ms split: sum.split intro: step_trans)
qed

lemma evolves_forp [evolve_rules]:
  "(\<And>x. evolves R (body x)) \<Longrightarrow> evolves R (forp body xs)"
  by (induction xs) (auto intro: evolves_ret evolves_seqp)

lemma evolves_if [evolve_rules]:
  "(b \<Longrightarrow> evolves R m) \<Longrightarrow> (\<not> b \<Longrightarrow> evolves R k) \<Longrightarrow> evolves R (if b then m else k)"
  by simp

lemma evolves_option [evolve_rules]:
  "(x = None \<Longrightarrow> evolves R m) \<Longrightarrow> (\<And>y. x = Some y \<Longrightarrow> evolves R (f y)) \<Longrightarrow>
   evolves R (case x of None \<Rightarrow> m | Some y \<Rightarrow> f y)"
  by (cases x) simp_all

lemma evolves_prod [evolve_rules]:
  "(\<And>a b. evolves R (f a b)) \<Longrightarrow> evolves R (case p of (a, b) \<Rightarrow> f a b)"
  by (cases p) simp

lemma evolves_sum [evolve_rules]:
  "(\<And>a. x = Inl a \<Longrightarrow> evolves R (f a)) \<Longrightarrow> (\<And>b. x = Inr b \<Longrightarrow> evolves R (g b)) \<Longrightarrow>
   evolves R (case x of Inl a \<Rightarrow> f a | Inr b \<Rightarrow> g b)"
  by (cases x) simp_all

lemma evolves_list [evolve_rules]:
  "evolves R m \<Longrightarrow> (\<And>y ys. evolves R (f y ys)) \<Longrightarrow> evolves R (case xs of [] \<Rightarrow> m | y # ys \<Rightarrow> f y ys)"
  by (cases xs) simp_all

lemma evolves_let [evolve_rules]: "(\<And>x. evolves R (f x)) \<Longrightarrow> evolves R (Let v f)"
  by (simp add: Let_def)

text \<open>The same at one state, where what is known of that state matters.\<close>

lemma at_bindp:
  assumes "R s (snd (m s))" and "\<And>x s'. m s = (Inr x, s') \<Longrightarrow> R s s' \<Longrightarrow> R s' (snd (f x s'))"
  shows "R s (snd (bindp m f s))"
proof (cases "m s")
  case (Pair r s')
  then show ?thesis
    using assms(1) assms(2) [of _ s'] by (cases r) (auto simp: bindp_def intro: step_trans)
qed

lemma at_seqp:
  "R s (snd (m s)) \<Longrightarrow> (\<And>x s'. m s = (Inr x, s') \<Longrightarrow> R s s' \<Longrightarrow> R s' (snd (k s'))) \<Longrightarrow> R s (snd (seqp m k s))"
  unfolding seqp_def by (rule at_bindp)

lemma at_trycatch:
  assumes "R s (snd (m s))" and "\<And>e s'. R s s' \<Longrightarrow> R s' (snd (h e s'))"
  shows "R s (snd (trycatch m h s))"
proof (cases "m s")
  case (Pair r s')
  then show ?thesis
    using assms(1) assms(2) [of s'] by (cases r) (auto simp: trycatch_def intro: step_trans)
qed

end

text \<open>
  A store is what a state holds under each key. Under \<open>store_evolve get P\<close> no entry disappears
  and an entry only changes along \<open>P\<close>; \<open>store_evolve get (=)\<close> is an append-only store.
\<close>

definition store_evolve :: "('s \<Rightarrow> 'k \<Rightarrow> 'v option) \<Rightarrow> ('v \<Rightarrow> 'v \<Rightarrow> bool) \<Rightarrow> 's \<Rightarrow> 's \<Rightarrow> bool" where
  "store_evolve get P s s' \<longleftrightarrow> (\<forall>k v. get s k = Some v \<longrightarrow> (\<exists>v'. get s' k = Some v' \<and> P v v'))"

lemma store_evolveD:
  assumes "store_evolve get P s s'" and "get s k = Some v"
  obtains v' where "get s' k = Some v'" and "P v v'"
  using assms unfolding store_evolve_def by blast

lemma store_evolve_mono:
  "store_evolve get P s s' \<Longrightarrow> (\<And>v v'. P v v' \<Longrightarrow> Q v v') \<Longrightarrow> store_evolve get Q s s'"
  unfolding store_evolve_def by blast

lemma store_evolve_eqD: "store_evolve get (=) s s' \<Longrightarrow> get s k = Some v \<Longrightarrow> get s' k = Some v"
  unfolding store_evolve_def by blast

locale store_order =
  fixes get :: "'s \<Rightarrow> 'k \<Rightarrow> 'v option" and P :: "'v \<Rightarrow> 'v \<Rightarrow> bool"
  assumes entry_refl: "P v v"
    and entry_trans: "P u v \<Longrightarrow> P v w \<Longrightarrow> P u w"
begin

lemma frame: "get s' = get s \<Longrightarrow> store_evolve get P s s'"
  by (simp add: store_evolve_def entry_refl)

lemma put:
  "get s' = (get s)(k \<mapsto> v') \<Longrightarrow> (\<And>v. get s k = Some v \<Longrightarrow> P v v') \<Longrightarrow> store_evolve get P s s'"
  by (auto simp: store_evolve_def entry_refl)

lemma chain:
  assumes "store_evolve get P s t" and "store_evolve get P t u"
  shows "store_evolve get P s u"
  unfolding store_evolve_def
proof (intro allI impI)
  fix k v assume "get s k = Some v"
  with assms(1) obtain v1 where v1: "get t k = Some v1" "P v v1" by (rule store_evolveD)
  from assms(2) v1(1) obtain v2 where "get u k = Some v2" "P v1 v2" by (rule store_evolveD)
  with v1(2) show "\<exists>v'. get u k = Some v' \<and> P v v'" by (blast intro: entry_trans)
qed

end

sublocale store_order \<subseteq> step_order "store_evolve get P"
  by unfold_locales (blast intro: frame chain)+

section \<open>Dictionaries\<close>

text \<open>
  A Python dictionary iterates in insertion order; assigning to a present key keeps its place.
  That is \<open>AList.update\<close>.
\<close>

abbreviation dget :: "('k \<times> 'v) list \<Rightarrow> 'k \<Rightarrow> 'v option" where
  "dget \<equiv> map_of"

abbreviation dput :: "'k \<Rightarrow> 'v \<Rightarrow> ('k \<times> 'v) list \<Rightarrow> ('k \<times> 'v) list" where
  "dput \<equiv> AList.update"

abbreviation dvals :: "('k \<times> 'v) list \<Rightarrow> 'v list" where
  "dvals \<equiv> map snd"

lemma dget_dput [simp]: "dget (dput k v d) k' = (if k' = k then Some v else dget d k')"
  by (simp add: update_conv)

lemma dget_dput_fun: "dget (dput k v d) = (dget d)(k \<mapsto> v)"
  by (rule ext) simp

lemma dput_same: "dget d k = Some v \<Longrightarrow> dput k v d = d"
  by (induction d) auto

lemma dput_keys: "fst ` set (dput k v d) = insert k (fst ` set d)"
  by (induction d) auto

lemma set_dput_subset: "set (dput k v d) \<subseteq> insert (k, v) (set d)"
  by (induction d) auto

lemma dput_mem: "(k, v) \<in> set (dput k v d)"
  by (induction d) auto

lemma dput_fresh: "k \<notin> fst ` set d \<Longrightarrow> dput k v d = d @ [(k, v)]"
  by (induction d) auto

lemma distinct_dput: "distinct (map fst d) \<Longrightarrow> distinct (map fst (dput k v d))"
  by (rule distinct_update)

lemma distinct_dget: "distinct (map fst d) \<Longrightarrow> (k, v) \<in> set d \<longleftrightarrow> dget d k = Some v"
  by (rule iffI) (auto dest: map_of_SomeD)

section \<open>Sorting\<close>

text \<open>
  Python's \<open>sorted\<close> is stable, as \<open>sort_key\<close> is; with \<open>reverse=True\<close> equal keys keep their
  order as well.
\<close>

definition sorted_reverse :: "('a \<Rightarrow> 'k::linorder) \<Rightarrow> 'a list \<Rightarrow> 'a list" where
  "sorted_reverse key xs = rev (sort_key key (rev xs))"

lemma set_sorted_reverse [simp]: "set (sorted_reverse key xs) = set xs"
  by (simp add: sorted_reverse_def)

lemma length_sorted_reverse [simp]: "length (sorted_reverse key xs) = length xs"
  by (simp add: sorted_reverse_def)

text \<open>The slice \<open>xs[:n]\<close>; a negative bound counts from the end.\<close>

definition slice_to :: "int \<Rightarrow> 'a list \<Rightarrow> 'a list" where
  "slice_to n xs = (if 0 \<le> n then take (nat n) xs else take (length xs - nat (- n)) xs)"

lemma set_slice_to_subset: "set (slice_to n xs) \<subseteq> set xs"
  by (auto simp: slice_to_def dest: in_set_takeD)

lemma length_slice_to: "0 \<le> n \<Longrightarrow> length (slice_to n xs) = min (nat n) (length xs)"
  by (simp add: slice_to_def)

text \<open>\<open>max(xs, key=key)\<close> of a non-empty list: the first element with the greatest key.\<close>

fun max_by :: "('a \<Rightarrow> 'k::linorder) \<Rightarrow> 'a \<Rightarrow> 'a list \<Rightarrow> 'a" where
  "max_by key best [] = best"
| "max_by key best (x # xs) = max_by key (if key best < key x then x else best) xs"

lemma max_by_in: "max_by key x xs \<in> set (x # xs)"
  by (induction xs arbitrary: x) (auto split: if_splits)

lemma max_by_ge: "y \<in> set (x # xs) \<Longrightarrow> key y \<le> key (max_by key x xs)"
proof (induction xs arbitrary: x y)
  case (Cons z zs)
  let ?b = "if key x < key z then z else x"
  have b: "key ?b \<le> key (max_by key ?b zs)" by (rule Cons.IH) simp
  show ?case
  proof (cases "y \<in> set zs")
    case True
    then show ?thesis using Cons.IH [of y ?b] by simp
  next
    case False
    with Cons.prems have "key y \<le> key ?b" by auto
    with b show ?thesis by simp
  qed
qed simp

section \<open>Strings\<close>

lemma byte_bound [simp]: "(of_char c :: nat) < 256"
  by (metis of_char_mod_256 mod_less_divisor zero_less_numeral)

text \<open>The ASCII and Latin-1 characters that \<open>str.isspace\<close> accepts.\<close>

definition is_space :: "char \<Rightarrow> bool" where
  "is_space c \<longleftrightarrow>
     of_char c \<in> {9 :: nat, 10, 11, 12, 13, 28, 29, 30, 31, 32, 133, 160}"

definition strip :: "string \<Rightarrow> string" where
  "strip s = rev (dropWhile is_space (rev (dropWhile is_space s)))"

fun nat_str :: "nat \<Rightarrow> string" where
  "nat_str n = (if n < 10 then [char_of (48 + n)] else nat_str (n div 10) @ [char_of (48 + n mod 10)])"

declare nat_str.simps [simp del]

definition int_str :: "int \<Rightarrow> string" where
  "int_str i = (if i < 0 then CHR ''-'' # nat_str (nat (- i)) else nat_str (nat i))"

text \<open>
  The decimal literals of \<open>int(s)\<close>, without underscores: digits behind an optional sign.
\<close>

definition digit_value :: "char \<Rightarrow> nat option" where
  "digit_value c = (let n = (of_char c :: nat) in if 48 \<le> n \<and> n \<le> 57 then Some (n - 48) else None)"

fun parse_digits :: "nat \<Rightarrow> string \<Rightarrow> nat option" where
  "parse_digits acc [] = Some acc"
| "parse_digits acc (c # cs) = (case digit_value c of None \<Rightarrow> None | Some d \<Rightarrow> parse_digits (10 * acc + d) cs)"

definition parse_int :: "string \<Rightarrow> int option" where
  "parse_int s = (case strip s of
      [] \<Rightarrow> None
    | c # cs \<Rightarrow>
        if c = CHR ''-'' then (if cs = [] then None else map_option (\<lambda>n. - int n) (parse_digits 0 cs))
        else if c = CHR ''+'' then (if cs = [] then None else map_option int (parse_digits 0 cs))
        else map_option int (parse_digits 0 (c # cs)))"

text \<open>\<open>a or b\<close> on optional strings: an empty string is false.\<close>

definition por :: "string option \<Rightarrow> string option \<Rightarrow> string option" where
  "por a b = (case a of Some (c # cs) \<Rightarrow> Some (c # cs) | _ \<Rightarrow> b)"

definition por_else :: "string option \<Rightarrow> string \<Rightarrow> string" where
  "por_else a b = (case a of Some (c # cs) \<Rightarrow> c # cs | _ \<Rightarrow> b)"

text \<open>\<open>not s.strip()\<close>.\<close>

definition blank :: "string \<Rightarrow> bool" where
  "blank s \<longleftrightarrow> strip s = []"

lemma strip_no_lead: "strip s = c # cs \<Longrightarrow> \<not> is_space c"
proof -
  assume "strip s = c # cs"
  define t where "t = dropWhile is_space s"
  have "rev (dropWhile is_space (rev t)) = c # cs"
    using \<open>strip s = c # cs\<close> by (simp add: strip_def t_def)
  moreover obtain u where "t = rev (dropWhile is_space (rev t)) @ u"
    by (metis rev_append rev_rev_ident takeWhile_dropWhile_id)
  ultimately obtain w where "t = c # w"
    by (metis append_Cons)
  then show ?thesis
    unfolding t_def by (metis hd_dropWhile list.sel(1) list.simps(3))
qed

section \<open>Letters\<close>

text \<open>\<open>str.lower\<close> on one Latin-1 character.\<close>

definition lower_char :: "char \<Rightarrow> char" where
  "lower_char c = (let n = of_char c :: nat in
     if 65 \<le> n \<and> n \<le> 90 \<or> 192 \<le> n \<and> n \<le> 222 \<and> n \<noteq> 215 then char_of (n + 32) else c)"

section \<open>Sequences without repetition\<close>

text \<open>\<open>sorted(set(xs))\<close>.\<close>

definition sorted_set :: "'a::linorder list \<Rightarrow> 'a list" where
  "sorted_set xs = sort (remdups xs)"

lemma set_sorted_set [simp]: "set (sorted_set xs) = set xs"
  by (simp add: sorted_set_def)

lemma sorted_sorted_set [simp]: "sorted (sorted_set xs)"
  by (simp add: sorted_set_def)

lemma distinct_sorted_set [simp]: "distinct (sorted_set xs)"
  by (simp add: sorted_set_def)

lemma length_sorted_set: "length (sorted_set xs) = card (set xs)"
  by (metis distinct_card distinct_sorted_set set_sorted_set)

end
