(* ===== verification/Floats.thy ===== *)
theory Floats
  imports Prelude
begin

text \<open>
  Python's \<open>float\<close>: a finite IEEE double is the rational it denotes, and every operation rounds the exact
  result to the nearest double, ties to even (\<open>fl\<close>). The exponent is bounded below as for subnormal
  numbers; results too large for a double do not occur in the modelled code. \<open>round(x, n)\<close> rounds
  the exact value of \<open>x\<close> to \<open>n\<close> decimals, ties to even, and returns the nearest double.

  \<open>fl_mono\<close>: rounding keeps the order, so a comparison between two computed values follows from the
  comparison of the exact ones. \<open>fl_close\<close>, \<open>fsum_close\<close>, \<open>round_to_close\<close>: how far a result is from the exact one.
\<close>

definition round_even :: "rat \<Rightarrow> int" where
  "round_even x = (let n = \<lfloor>x\<rfloor>; d = x - of_int n in
     if d < 1 / 2 then n else if 1 / 2 < d then n + 1 else if even n then n else n + 1)"

fun log2_nat :: "nat \<Rightarrow> nat" where
  "log2_nat n = (if n < 2 then 0 else Suc (log2_nat (n div 2)))"

declare log2_nat.simps [simp del]

text \<open>The exponent of the binade of a positive number: \<open>2 powi expo x \<le> x < 2 powi (expo x + 1)\<close>.\<close>

definition expo :: "rat \<Rightarrow> int" where
  "expo x = (if 1 \<le> x then int (log2_nat (nat \<lfloor>x\<rfloor>))
     else let k = log2_nat (nat \<lfloor>1 / x\<rfloor>) in if 1 / x = 2 ^ k then - int k else - int k - 1)"

definition ulp_expo :: "rat \<Rightarrow> int" where
  "ulp_expo x = max (- 1074) (expo \<bar>x\<bar> - 52)"

definition fl :: "rat \<Rightarrow> rat" where
  "fl x = (if x = 0 then 0 else of_int (round_even (x / 2 powi ulp_expo x)) * 2 powi ulp_expo x)"

definition round_to :: "rat \<Rightarrow> nat \<Rightarrow> rat" where
  "round_to x n = fl (of_int (round_even (x * 10 ^ n)) / 10 ^ n)"

text \<open>\<open>sum\<close> of floats adds from the left, as in the interpreter of the images (3.11).\<close>

definition fsum :: "rat list \<Rightarrow> rat" where
  "fsum xs = foldl (\<lambda>a x. fl (a + x)) 0 xs"

section \<open>Rounding to an integer\<close>

lemma round_even_of_int [simp]: "round_even (of_int n) = n"
  by (simp add: round_even_def)

lemma round_even_minus: "round_even (- x) = - round_even x"
proof (cases "x = of_int \<lfloor>x\<rfloor>")
  case True
  then show ?thesis by (metis of_int_minus round_even_of_int)
next
  case False
  then have f: "\<lfloor>- x\<rfloor> = - \<lfloor>x\<rfloor> - 1"
  proof -
    from False have "of_int \<lfloor>x\<rfloor> < x" using of_int_floor_le [of x] by linarith
    moreover have "x < of_int \<lfloor>x\<rfloor> + 1" by (rule floor_correct [THEN conjunct2, of x, simplified])
    ultimately show ?thesis by (intro floor_unique) simp_all
  qed
  show ?thesis
    by (auto simp: round_even_def Let_def f)
qed

lemma round_even_mono:
  assumes "x \<le> y"
  shows "round_even x \<le> round_even y"
proof (cases "\<lfloor>x\<rfloor> = \<lfloor>y\<rfloor>")
  case True
  with assms show ?thesis by (simp add: round_even_def Let_def)
next
  case False
  with assms have "\<lfloor>x\<rfloor> + 1 \<le> \<lfloor>y\<rfloor>"
    by (metis add_le_same_cancel1 floor_mono linorder_not_le not_less order_less_le zless_imp_add1_zle)
  moreover have "round_even x \<le> \<lfloor>x\<rfloor> + 1" and "\<lfloor>y\<rfloor> \<le> round_even y"
    by (auto simp: round_even_def Let_def)
  ultimately show ?thesis by linarith
qed

section \<open>Binades\<close>

lemma log2_nat_bounds: "0 < n \<Longrightarrow> 2 ^ log2_nat n \<le> n \<and> n < 2 ^ Suc (log2_nat n)"
proof (induction n rule: log2_nat.induct)
  case (1 n)
  show ?case
  proof (cases "n < 2")
    case True
    with 1 show ?thesis by (simp add: log2_nat.simps)
  next
    case False
    with 1 have "2 ^ log2_nat (n div 2) \<le> n div 2 \<and> n div 2 < 2 ^ Suc (log2_nat (n div 2))" by simp
    with False show ?thesis by (subst (1 2) log2_nat.simps) auto
  qed
qed

lemma log2_floor:
  assumes "1 \<le> (x :: rat)"
  shows "2 ^ log2_nat (nat \<lfloor>x\<rfloor>) \<le> x" and "x < 2 ^ Suc (log2_nat (nat \<lfloor>x\<rfloor>))"
proof -
  let ?n = "nat \<lfloor>x\<rfloor>" and ?k = "log2_nat (nat \<lfloor>x\<rfloor>)"
  from assms have n: "rat_of_nat ?n = of_int \<lfloor>x\<rfloor>" and pos: "0 < ?n" by auto
  have "2 ^ ?k \<le> ?n" and "?n + 1 \<le> 2 ^ Suc ?k" using log2_nat_bounds [OF pos] by auto
  then have "(of_nat (2 ^ ?k) :: rat) \<le> of_nat ?n" and "of_nat (?n + 1) \<le> (of_nat (2 ^ Suc ?k) :: rat)"
    unfolding of_nat_le_iff by simp_all
  then have "(2 :: rat) ^ ?k \<le> of_int \<lfloor>x\<rfloor>" and "of_int \<lfloor>x\<rfloor> + 1 \<le> (2 :: rat) ^ Suc ?k"
    by (simp_all only: of_nat_power of_nat_numeral of_nat_add of_nat_1 n)
  then show "2 ^ ?k \<le> x" and "x < 2 ^ Suc ?k"
    using of_int_floor_le [of x] floor_correct [of x] by linarith+
qed

lemma expo_bounds:
  assumes "0 < x"
  shows "2 powi expo x \<le> x" and "x < 2 powi (expo x + 1)"
proof -
  consider "1 \<le> x" | "x < 1" by linarith
  then have "2 powi expo x \<le> x \<and> x < 2 powi (expo x + 1)"
  proof cases
    case 1
    with log2_floor [OF 1] show ?thesis
      by (simp add: expo_def power_int_add)
  next
    case 2
    let ?k = "log2_nat (nat \<lfloor>1 / x\<rfloor>)"
    from 2 assms have "1 \<le> 1 / x" by simp
    note k = log2_floor [OF this]
    have x: "x * (1 / x) = 1" using assms by simp
    from k(1) assms have le: "2 ^ ?k * x \<le> 1" by (simp add: pos_le_divide_eq)
    from k(2) assms have lt: "1 < 2 ^ Suc ?k * x" by (simp add: pos_divide_less_eq)
    have e: "expo x = (if 1 / x = 2 ^ ?k then - int ?k else - int ?k - 1)"
      using 2 by (simp add: expo_def Let_def)
    show ?thesis
    proof (cases "1 / x = 2 ^ ?k")
      case True
      then have "x = 1 / 2 ^ ?k" by (metis div_by_1 divide_divide_eq_right mult_1)
      with True e have "expo x = - int ?k" and "x = 2 powi (- int ?k)"
        by (simp_all add: power_int_minus divide_inverse)
      then show ?thesis
        by (metis (no_types) one_less_numeral_iff order_refl power_int_strict_increasing semiring_norm(76) zless_add1_eq)
    next
      case False
      with le assms have "2 ^ ?k * x < 1"
        by (metis less_le mult.commute nonzero_eq_divide_eq order_less_irrefl)
      moreover from False have "expo x = - int ?k - 1" using e by simp
      ultimately show ?thesis using lt
        by (simp add: power_int_minus power_int_add power_int_diff inverse_eq_divide pos_divide_le_eq pos_less_divide_eq mult.commute mult.left_commute)
    qed
  qed
  then show "2 powi expo x \<le> x" and "x < 2 powi (expo x + 1)" by auto
qed

lemma powi_less_cancel: "(2 :: rat) powi a < 2 powi b \<Longrightarrow> a < b"
  by (metis not_less one_le_numeral power_int_increasing)

lemma expo_mono: "0 < x \<Longrightarrow> x \<le> y \<Longrightarrow> expo x \<le> expo y"
proof -
  assume x: "0 < x" and le: "x \<le> y"
  from expo_bounds(1) [OF x] le expo_bounds(2) [of y] x have "(2 :: rat) powi expo x < 2 powi (expo y + 1)"
    by linarith
  then show ?thesis using powi_less_cancel [of "expo x" "expo y + 1"] by simp
qed

section \<open>Rounding to a double\<close>

lemma fl_0 [simp]: "fl 0 = 0"
  by (simp add: fl_def)

lemma fl_minus: "fl (- x) = - fl x"
  by (simp add: fl_def ulp_expo_def round_even_minus)

lemma two_powi_pos [simp]: "0 < (2 :: rat) powi e"
  by (simp add: zero_less_power_int)

lemma fl_le_power:
  assumes "0 < x" and "x \<le> 2 powi e" and "ulp_expo x \<le> e"
  shows "fl x \<le> 2 powi e"
proof -
  let ?u = "ulp_expo x"
  have split: "(2 :: rat) powi e = of_int (2 ^ nat (e - ?u)) * 2 powi ?u"
    using assms(3) by (simp add: power_int_add [symmetric] flip: power_int_of_nat)
  from assms(2) have "x / 2 powi ?u \<le> of_int (2 ^ nat (e - ?u))"
    by (simp add: pos_divide_le_eq split)
  then have "round_even (x / 2 powi ?u) \<le> 2 ^ nat (e - ?u)"
    using round_even_mono round_even_of_int by metis
  then have "of_int (round_even (x / 2 powi ?u)) * (2 :: rat) powi ?u \<le> of_int (2 ^ nat (e - ?u)) * 2 powi ?u"
    by (intro mult_right_mono) (simp_all only: of_int_le_iff two_powi_pos order_less_imp_le)
  with assms(1) split show ?thesis by (simp add: fl_def)
qed

lemma power_le_fl:
  assumes "0 < y" and "- 1074 \<le> expo y - 52"
  shows "2 powi expo y \<le> fl y"
proof -
  let ?u = "ulp_expo y"
  from assms have u: "?u = expo y - 52" by (simp add: ulp_expo_def)
  have split: "(2 :: rat) powi expo y = of_int (2 ^ 52) * 2 powi ?u"
    by (simp add: u power_int_diff)
  with expo_bounds(1) [OF assms(1)] have "of_int (2 ^ 52) \<le> y / 2 powi ?u"
    by (simp add: pos_le_divide_eq)
  then have "2 ^ 52 \<le> round_even (y / 2 powi ?u)"
    using round_even_mono round_even_of_int by metis
  then have "of_int (2 ^ 52) * (2 :: rat) powi ?u \<le> of_int (round_even (y / 2 powi ?u)) * 2 powi ?u"
    by (intro mult_right_mono) (simp_all only: of_int_le_iff two_powi_pos order_less_imp_le)
  with assms(1) split show ?thesis by (simp add: fl_def)
qed

lemma fl_mono_pos:
  assumes "0 < x" and "x \<le> y"
  shows "fl x \<le> fl y"
proof (cases "ulp_expo x = ulp_expo y")
  case True
  with assms show ?thesis
    by (auto simp: fl_def intro!: mult_right_mono round_even_mono divide_right_mono)
next
  case False
  from assms have y: "0 < y" by simp
  from expo_mono [OF assms] False assms have lt: "expo x < expo y" and ge: "- 1074 < expo y - 52"
    by (auto simp: ulp_expo_def max_def split: if_splits)
  have "x \<le> 2 powi (expo x + 1)" using expo_bounds(2) [OF assms(1)] by simp
  also from lt have "(2 :: rat) powi (expo x + 1) \<le> 2 powi expo y" by (intro power_int_increasing) auto
  finally have "fl x \<le> 2 powi expo y"
    using assms(1) lt ge by (intro fl_le_power) (auto simp: ulp_expo_def)
  also have "\<dots> \<le> fl y" using y ge by (intro power_le_fl) auto
  finally show ?thesis .
qed

lemma fl_nonneg: "0 \<le> x \<Longrightarrow> 0 \<le> fl x"
proof -
  assume "0 \<le> x"
  then have "0 \<le> x / 2 powi ulp_expo x" by simp
  then have "0 \<le> round_even (x / 2 powi ulp_expo x)"
    using round_even_mono round_even_of_int by (metis of_int_0)
  then show ?thesis by (simp add: fl_def)
qed

lemma fl_mono: "x \<le> y \<Longrightarrow> fl x \<le> fl y"
proof -
  assume le: "x \<le> y"
  consider "0 < x" | "x \<le> 0" "0 \<le> y" | "y < 0" by linarith
  then show ?thesis
  proof cases
    case 1
    from this le show ?thesis by (rule fl_mono_pos)
  next
    case 2
    then show ?thesis using fl_nonneg [of y] fl_nonneg [of "- x"] by (simp add: fl_minus)
  next
    case 3
    with le have "fl (- y) \<le> fl (- x)" by (intro fl_mono_pos) auto
    then show ?thesis by (simp add: fl_minus)
  qed
qed

text \<open>Integers below \<open>2 ^ 53\<close> are doubles.\<close>

lemma fl_nat:
  assumes "n < 2 ^ 53"
  shows "fl (of_nat n) = of_nat n"
proof (cases "n = 0")
  case False
  let ?x = "of_nat n :: rat"
  from False have x: "0 < ?x" and x1: "1 \<le> ?x" by auto
  have e: "expo ?x = int (log2_nat n)" using x1 by (simp add: expo_def)
  have "log2_nat n \<le> 52"
  proof (rule ccontr)
    assume "\<not> log2_nat n \<le> 52"
    then have "(2 :: nat) ^ 53 \<le> 2 ^ log2_nat n" by (intro power_increasing) auto
    with log2_nat_bounds [of n] False assms show False by simp
  qed
  then have "ulp_expo ?x \<le> 0" by (simp add: ulp_expo_def e)
  then obtain k where k: "ulp_expo ?x = - int k" by (metis add.inverse_inverse neg_0_le_iff_le nonneg_int_cases)
  have "?x / 2 powi ulp_expo ?x = of_int (int n * 2 ^ k)" by (simp add: k power_int_minus divide_inverse)
  then have "round_even (?x / 2 powi ulp_expo ?x) = int n * 2 ^ k" by (metis round_even_of_int)
  with x show ?thesis by (simp add: fl_def k power_int_minus)
qed simp

lemma fl_int: "\<bar>n\<bar> < 2 ^ 53 \<Longrightarrow> fl (of_int n) = of_int n"
proof (cases "0 \<le> n")
  case True
  assume "\<bar>n\<bar> < 2 ^ 53"
  with True have "fl (of_nat (nat n)) = of_nat (nat n)" by (intro fl_nat) auto
  with True show ?thesis by simp
next
  case False
  assume "\<bar>n\<bar> < 2 ^ 53"
  with False have "fl (of_nat (nat (- n))) = of_nat (nat (- n))" by (intro fl_nat) auto
  with False show ?thesis using fl_minus [of "of_int n"] by simp
qed

section \<open>Errors\<close>

lemma round_even_near: "\<bar>of_int (round_even x) - x\<bar> \<le> 1 / 2"
  using of_int_floor_le [of x] floor_correct [of x] by (auto simp: round_even_def Let_def)

text \<open>The error of one rounding, coarsely, for values up to 128.\<close>

lemma fl_close:
  assumes "\<bar>x\<bar> \<le> 128"
  shows "\<bar>fl x - x\<bar> \<le> 1 / 1000000000"
proof (cases "x = 0")
  case False
  let ?p = "2 powi ulp_expo x :: rat"
  have "2 powi expo \<bar>x\<bar> \<le> \<bar>x\<bar>" using False by (intro expo_bounds) simp
  with assms have "(2 :: rat) powi expo \<bar>x\<bar> < 2 powi 8" by simp
  then have "expo \<bar>x\<bar> < 8" by (rule powi_less_cancel)
  then have "ulp_expo x \<le> - 45" by (simp add: ulp_expo_def)
  then have "?p \<le> 2 powi (- 45)" by (intro power_int_increasing) simp_all
  moreover have "fl x - x = (of_int (round_even (x / ?p)) - x / ?p) * ?p"
    using False by (simp add: fl_def left_diff_distrib)
  then have "\<bar>fl x - x\<bar> \<le> 1 / 2 * ?p"
    using round_even_near [of "x / ?p"] by (simp add: abs_mult mult_right_mono)
  moreover have "(2 :: rat) powi (- 45) \<le> 1 / 1000000000" by (simp add: power_int_minus)
  ultimately show ?thesis by linarith
qed simp

lemma round_to_close:
  assumes "\<bar>x\<bar> \<le> 127"
  shows "\<bar>round_to x 2 - x\<bar> \<le> 51 / 10000"
proof -
  define y where "y = (of_int (round_even (x * 10 ^ 2)) / 10 ^ 2 :: rat)"
  have "\<bar>of_int (round_even (x * 100)) - x * 100\<bar> \<le> 1 / 2" by (rule round_even_near)
  then have y: "\<bar>y - x\<bar> \<le> 1 / 200" by (simp add: y_def abs_le_iff field_simps)
  with assms have "\<bar>y\<bar> \<le> 128" by linarith
  then have "\<bar>fl y - y\<bar> \<le> 1 / 1000000000" by (rule fl_close)
  moreover have "round_to x 2 = fl y" by (simp add: round_to_def y_def)
  ultimately show ?thesis using y by linarith
qed

lemma fsum_close:
  assumes "\<forall>x \<in> set xs. \<bar>x\<bar> \<le> 2" and "length xs \<le> 30"
  shows "\<bar>fsum xs - sum_list xs\<bar> \<le> of_nat (length xs) / 1000000000"
  using assms
proof (induction xs rule: rev_induct)
  case Nil
  then show ?case by (simp add: fsum_def)
next
  case (snoc x xs)
  have sum: "\<bar>sum_list xs\<bar> \<le> 2 * of_nat (length xs)" using snoc.prems(1)
    by (induction xs) (auto simp: abs_le_iff intro: order_trans)
  have ih: "\<bar>fsum xs - sum_list xs\<bar> \<le> of_nat (length xs) / 1000000000" using snoc by simp
  have len: "of_nat (length xs) \<le> (29 :: rat)" using snoc.prems(2) by simp
  have x: "\<bar>x\<bar> \<le> 2" using snoc.prems(1) by simp
  have "\<bar>fsum xs + x\<bar> \<le> 128" using ih sum len x by linarith
  then have "\<bar>fl (fsum xs + x) - (fsum xs + x)\<bar> \<le> 1 / 1000000000" by (rule fl_close)
  moreover have "fsum (xs @ [x]) = fl (fsum xs + x)" by (simp add: fsum_def)
  moreover have "of_nat (length (xs @ [x])) / 1000000000 = of_nat (length xs) / 1000000000 + (1 / 1000000000 :: rat)"
    by (simp add: add_divide_distrib)
  moreover have "sum_list (xs @ [x]) = sum_list xs + x" by simp
  ultimately show ?case using ih by linarith
qed

lemma sum_list_close:
  fixes f g :: "'a \<Rightarrow> rat"
  assumes "\<And>x. x \<in> set xs \<Longrightarrow> \<bar>f x - g x\<bar> \<le> e"
  shows "\<bar>sum_list (map f xs) - sum_list (map g xs)\<bar> \<le> of_nat (length xs) * e"
  using assms
proof (induction xs)
  case (Cons x xs)
  then have "\<bar>f x - g x\<bar> \<le> e" and "\<bar>sum_list (map f xs) - sum_list (map g xs)\<bar> \<le> of_nat (length xs) * e" by simp_all
  then show ?case by (simp add: abs_le_iff distrib_right)
qed simp

end
