(* ===== verification/Json.thy ===== *)
theory Json
  imports Prelude
begin

text \<open>
  The JSON text the cursors sign: \<open>json.dumps(v, sort_keys=True, separators=(",", ":"), ensure_ascii=True)\<close>
  and \<open>json.loads\<close>, on the values without floats: null, booleans, integers, Latin-1 strings, lists and
  dictionaries with distinct string keys. The reader skips the blanks JSON allows, knows every escape,
  keeps the last of equal keys and rejects trailing text; a literal with a fraction or an exponent and
  an escape beyond Latin-1 are outside the model and read as an error.

  \<open>loads_dumps\<close>: reading what was written gives the value with its dictionaries in key order.
\<close>

datatype json =
    JNull
  | JBool bool
  | JInt int
  | JStr string
  | JList "json list"
  | JDict "(string \<times> json) list"

section \<open>Writing\<close>

definition hex_digit :: "nat \<Rightarrow> char" where
  "hex_digit n = (if n < 10 then char_of (48 + n) else char_of (87 + n))"

definition escape_char :: "char \<Rightarrow> string" where
  "escape_char c = (let n = of_char c :: nat in
      if n = 34 then [CHR 0x5C, CHR 0x22]
      else if n = 92 then [CHR 0x5C, CHR 0x5C]
      else if n = 10 then [CHR 0x5C, CHR ''n'']
      else if n = 13 then [CHR 0x5C, CHR ''r'']
      else if n = 9 then [CHR 0x5C, CHR ''t'']
      else if n = 12 then [CHR 0x5C, CHR ''f'']
      else if n = 8 then [CHR 0x5C, CHR ''b'']
      else if 32 \<le> n \<and> n \<le> 126 then [c]
      else [CHR 0x5C, CHR ''u'', CHR ''0'', CHR ''0'', hex_digit (n div 16), hex_digit (n mod 16)])"

definition quote :: "string \<Rightarrow> string" where
  "quote s = CHR 0x22 # concat (map escape_char s) @ [CHR 0x22]"

fun join :: "string list \<Rightarrow> string" where
  "join [] = []"
| "join [x] = x"
| "join (x # y # ys) = x @ CHR '','' # join (y # ys)"

fun print_json :: "json \<Rightarrow> string" where
  "print_json JNull = ''null''"
| "print_json (JBool b) = (if b then ''true'' else ''false'')"
| "print_json (JInt i) = int_str i"
| "print_json (JStr s) = quote s"
| "print_json (JList vs) = CHR ''['' # join (map print_json vs) @ '']''"
| "print_json (JDict kvs) = CHR ''{'' # join (map (\<lambda>(k, v). quote k @ CHR '':'' # print_json v) kvs) @ ''}''"

text \<open>\<open>sort_keys=True\<close>: the items of every dictionary in the order of their keys.\<close>

fun sort_keys :: "json \<Rightarrow> json" where
  "sort_keys (JList vs) = JList (map sort_keys vs)"
| "sort_keys (JDict kvs) = JDict (sort_key fst (map (\<lambda>(k, v). (k, sort_keys v)) kvs))"
| "sort_keys v = v"

definition dumps :: "json \<Rightarrow> string" where
  "dumps v = print_json (sort_keys v)"

section \<open>Reading\<close>

definition json_blank :: "char \<Rightarrow> bool" where
  "json_blank c \<longleftrightarrow> of_char c \<in> {32 :: nat, 9, 10, 13}"

abbreviation skip_blank :: "string \<Rightarrow> string" where
  "skip_blank s \<equiv> dropWhile json_blank s"

definition hex_value :: "char \<Rightarrow> nat option" where
  "hex_value c = (let n = of_char c in
      if 48 \<le> n \<and> n \<le> 57 then Some (n - 48)
      else if 97 \<le> n \<and> n \<le> 102 then Some (n - 87)
      else if 65 \<le> n \<and> n \<le> 70 then Some (n - 55) else None)"

definition hex4 :: "char \<Rightarrow> char \<Rightarrow> char \<Rightarrow> char \<Rightarrow> nat option" where
  "hex4 a b c d = (case (hex_value a, hex_value b, hex_value c, hex_value d) of
      (Some w, Some x, Some y, Some z) \<Rightarrow> Some (((w * 16 + x) * 16 + y) * 16 + z) | _ \<Rightarrow> None)"

definition simple_escape :: "char \<Rightarrow> char option" where
  "simple_escape c = (let n = of_char c :: nat in
      if n = 34 \<or> n = 92 \<or> n = 47 then Some c
      else if n = 110 then Some (char_of (10 :: nat)) else if n = 114 then Some (char_of (13 :: nat))
      else if n = 116 then Some (char_of (9 :: nat)) else if n = 102 then Some (char_of (12 :: nat))
      else if n = 98 then Some (char_of (8 :: nat)) else None)"

fun parse_str :: "string \<Rightarrow> (string \<times> string) option" where
  "parse_str [] = None"
| "parse_str (c # cs) =
     (if c = CHR 0x22 then Some ([], cs)
      else if c = CHR 0x5C then (case cs of
          [] \<Rightarrow> None
        | e # es \<Rightarrow>
            if e = CHR ''u'' then (case es of
                w # x # y # z # rest \<Rightarrow> (case hex4 w x y z of
                    None \<Rightarrow> None
                  | Some n \<Rightarrow> if n < 256 then map_option (apfst ((#) (char_of n))) (parse_str rest) else None)
              | _ \<Rightarrow> None)
            else (case simple_escape e of
                None \<Rightarrow> None | Some x \<Rightarrow> map_option (apfst ((#) x)) (parse_str es)))
      else if of_char c < (32 :: nat) then None
      else map_option (apfst ((#) c)) (parse_str cs))"

definition is_digit :: "char \<Rightarrow> bool" where
  "is_digit c \<longleftrightarrow> digit_value c \<noteq> None"

text \<open>The integer part takes one zero, or all digits; a fraction or exponent behind it makes a float.\<close>

definition parse_nat :: "string \<Rightarrow> (nat \<times> string) option" where
  "parse_nat s = (case s of
      [] \<Rightarrow> None
    | c # cs \<Rightarrow>
        if c = CHR ''0'' then Some (0, cs)
        else if is_digit c then map_option (\<lambda>n. (n, dropWhile is_digit s)) (parse_digits 0 (takeWhile is_digit s))
        else None)"

definition float_tail :: "string \<Rightarrow> bool" where
  "float_tail s = (case s of [] \<Rightarrow> False | c # _ \<Rightarrow> c = CHR ''.'' \<or> c = CHR ''e'' \<or> c = CHR ''E'')"

definition parse_number :: "string \<Rightarrow> (json \<times> string) option" where
  "parse_number s =
     Option.bind (if s \<noteq> [] \<and> hd s = CHR ''-'' then map_option (apfst (\<lambda>n. - int n)) (parse_nat (tl s))
                  else map_option (apfst int) (parse_nat s))
       (\<lambda>(i, rest). if float_tail rest then None else Some (JInt i, rest))"

definition dict_of :: "(string \<times> json) list \<Rightarrow> (string \<times> json) list" where
  "dict_of kvs = fold (\<lambda>(k, v). dput k v) kvs []"

fun parse_value :: "nat \<Rightarrow> string \<Rightarrow> (json \<times> string) option"
  and parse_items :: "nat \<Rightarrow> string \<Rightarrow> (json list \<times> string) option"
  and parse_members :: "nat \<Rightarrow> string \<Rightarrow> ((string \<times> json) list \<times> string) option"
where
  "parse_value 0 s = None"
| "parse_value (Suc n) s = (case s of
      [] \<Rightarrow> None
    | c # cs \<Rightarrow>
        if c = CHR 0x22 then map_option (apfst JStr) (parse_str cs)
        else if c = CHR ''['' then (case skip_blank cs of
            [] \<Rightarrow> None
          | d # ds \<Rightarrow> if d = CHR '']'' then Some (JList [], ds)
                      else map_option (apfst JList) (parse_items n (d # ds)))
        else if c = CHR ''{'' then (case skip_blank cs of
            [] \<Rightarrow> None
          | d # ds \<Rightarrow> if d = CHR ''}'' then Some (JDict [], ds)
                      else map_option (apfst (\<lambda>kvs. JDict (dict_of kvs))) (parse_members n (d # ds)))
        else if take 4 s = ''null'' then Some (JNull, drop 4 s)
        else if take 4 s = ''true'' then Some (JBool True, drop 4 s)
        else if take 5 s = ''false'' then Some (JBool False, drop 5 s)
        else parse_number s)"
| "parse_items 0 s = None"
| "parse_items (Suc n) s =
     Option.bind (parse_value n s) (\<lambda>(v, r). case skip_blank r of
         [] \<Rightarrow> None
       | c # cs \<Rightarrow>
           if c = CHR '']'' then Some ([v], cs)
           else if c = CHR '','' then map_option (apfst ((#) v)) (parse_items n (skip_blank cs))
           else None)"
| "parse_members 0 s = None"
| "parse_members (Suc n) s = (case s of
      [] \<Rightarrow> None
    | q # qs \<Rightarrow>
        if q \<noteq> CHR 0x22 then None
        else Option.bind (parse_str qs) (\<lambda>(k, r). case skip_blank r of
            [] \<Rightarrow> None
          | c # cs \<Rightarrow>
              if c \<noteq> CHR '':'' then None
              else Option.bind (parse_value n (skip_blank cs)) (\<lambda>(v, r'). case skip_blank r' of
                  [] \<Rightarrow> None
                | d # ds \<Rightarrow>
                    if d = CHR ''}'' then Some ([(k, v)], ds)
                    else if d = CHR '','' then map_option (apfst ((#) (k, v))) (parse_members n (skip_blank ds))
                    else None)))"

definition loads :: "string \<Rightarrow> json option" where
  "loads s = (case parse_value (Suc (length s)) (skip_blank s) of
      None \<Rightarrow> None
    | Some (v, r) \<Rightarrow> if skip_blank r = [] then Some v else None)"

section \<open>Strings and numbers\<close>

lemma hex_value_digit: "n < 16 \<Longrightarrow> hex_value (hex_digit n) = Some n"
  by (auto simp: hex_value_def hex_digit_def Let_def)

lemma char_cases:
  "of_char c = (34 :: nat) \<longleftrightarrow> c = CHR 0x22" "of_char c = (92 :: nat) \<longleftrightarrow> c = CHR 0x5C"
  "of_char c = (10 :: nat) \<longleftrightarrow> c = CHR 0x0A" "of_char c = (13 :: nat) \<longleftrightarrow> c = CHR 0x0D"
  "of_char c = (9 :: nat) \<longleftrightarrow> c = CHR 0x09" "of_char c = (12 :: nat) \<longleftrightarrow> c = CHR 0x0C"
  "of_char c = (8 :: nat) \<longleftrightarrow> c = CHR 0x08"
  by (auto simp: of_char_eq_iff [symmetric, where ?'a = nat] simp del: of_char_eq_iff)

lemma char_literals:
  "char_of (10 :: nat) = CHR 0x0A" "char_of (13 :: nat) = CHR 0x0D" "char_of (9 :: nat) = CHR 0x09"
  "char_of (12 :: nat) = CHR 0x0C" "char_of (8 :: nat) = CHR 0x08"
  by (simp_all add: char_of_def bit_0)

lemma parse_str_escape: "parse_str (escape_char c @ s) = map_option (apfst ((#) c)) (parse_str s)"
proof -
  have d: "(of_char c :: nat) div 16 < 16" using byte_bound [of c] by (simp add: less_mult_imp_div_less)
  have "hex4 (CHR ''0'') (CHR ''0'') (hex_digit (of_char c div 16)) (hex_digit (of_char c mod 16)) = Some (of_char c)"
    using d by (simp add: hex4_def hex_value_digit) (simp add: hex_value_def)
  then show ?thesis
    by (auto simp: escape_char_def Let_def char_cases simple_escape_def char_literals)
qed

lemma parse_str_quote: "parse_str (concat (map escape_char s) @ CHR 0x22 # rest) = Some (s, rest)"
  by (induction s) (simp_all add: parse_str_escape)

lemma digit_value_digit: "n < 10 \<Longrightarrow> digit_value (char_of (48 + n)) = Some n"
  by (simp add: digit_value_def Let_def)

lemma parse_digits_append:
  "parse_digits acc (xs @ ys) = Option.bind (parse_digits acc xs) (\<lambda>n. parse_digits n ys)"
  by (induction xs arbitrary: acc) (auto split: option.split)

lemma parse_digits_nat_str: "parse_digits 0 (nat_str n) = Some n"
proof (induction n rule: nat_str.induct)
  case (1 n)
  then show ?case
    by (subst nat_str.simps) (simp add: parse_digits_append digit_value_digit)
qed

lemma nat_str_digits: "c \<in> set (nat_str n) \<Longrightarrow> is_digit c"
proof (induction n rule: nat_str.induct)
  case (1 n)
  from "1.prems" consider "n < 10" "c = char_of (48 + n)" | "\<not> n < 10" "c \<in> set (nat_str (n div 10))" | "c = char_of (48 + n mod 10)"
    by (subst (asm) nat_str.simps) (auto split: if_splits)
  then show ?case by cases (use "1.IH" in \<open>simp_all add: is_digit_def digit_value_digit\<close>)
qed

lemma nat_str_nonempty [simp]: "nat_str n \<noteq> []"
  by (subst nat_str.simps) simp

lemma nat_str_head: "hd (nat_str n) = CHR ''0'' \<longleftrightarrow> n = 0"
proof (induction n rule: nat_str.induct)
  case (1 n)
  show ?case
  proof (cases "n < 10")
    case True
    then have "nat_str n = [char_of (48 + n)]" by (subst nat_str.simps) simp
    moreover have "char_of (48 + n) = CHR ''0'' \<longleftrightarrow> n = 0"
    proof
      assume "char_of (48 + n) = CHR ''0''"
      then have "(of_char (char_of (48 + n) :: char) :: nat) = of_char (CHR ''0'')" by simp
      with True show "n = 0" by simp
    qed (simp add: char_of_def bit_0)
    ultimately show ?thesis by simp
  next
    case False
    then have "nat_str n = nat_str (n div 10) @ [char_of (48 + n mod 10)]" by (subst nat_str.simps) simp
    with 1 False show ?thesis by (simp add: div_eq_0_iff)
  qed
qed

text \<open>What may follow a value: nothing, or a delimiter.\<close>

definition ends_value :: "string \<Rightarrow> bool" where
  "ends_value s \<longleftrightarrow> s = [] \<or> hd s \<in> {CHR '','', CHR '']'', CHR ''}''}"

lemma ends_value_no_digit: "ends_value s \<Longrightarrow> takeWhile is_digit s = [] \<and> dropWhile is_digit s = s \<and> \<not> float_tail s"
  by (cases s) (auto simp: ends_value_def is_digit_def digit_value_def float_tail_def Let_def)

lemma parse_nat_str:
  assumes "ends_value rest"
  shows "parse_nat (nat_str n @ rest) = Some (n, rest)"
proof (cases "n = 0")
  case True
  then have "nat_str n = ''0''" by (subst nat_str.simps) (simp add: char_of_def bit_0)
  with True show ?thesis by (simp add: parse_nat_def)
next
  case False
  obtain c cs where c: "nat_str n = c # cs" by (cases "nat_str n") auto
  have digits: "\<forall>x \<in> set (nat_str n). is_digit x" by (blast intro: nat_str_digits)
  have "c \<noteq> CHR ''0''" "is_digit c" using nat_str_head [of n] False c digits by auto
  moreover have "takeWhile is_digit (nat_str n @ rest) = nat_str n" "dropWhile is_digit (nat_str n @ rest) = rest"
    using digits ends_value_no_digit [OF assms] by (auto simp: takeWhile_append dropWhile_append)
  moreover have "parse_nat (nat_str n @ rest) = (if c = CHR ''0'' then Some (0, cs @ rest)
      else if is_digit c then map_option (\<lambda>m. (m, dropWhile is_digit (nat_str n @ rest)))
        (parse_digits 0 (takeWhile is_digit (nat_str n @ rest))) else None)"
    by (simp add: parse_nat_def c)
  ultimately show ?thesis by (simp only: parse_digits_nat_str) simp
qed

lemma parse_number_int: "ends_value rest \<Longrightarrow> parse_number (int_str i @ rest) = Some (JInt i, rest)"
proof -
  assume r: "ends_value rest"
  have "hd (nat_str n @ rest) \<noteq> CHR ''-''" for n
    using nat_str_digits [of "hd (nat_str n)" n] by (auto simp: is_digit_def digit_value_def Let_def)
  then show ?thesis
    using r by (auto simp: parse_number_def int_str_def parse_nat_str ends_value_no_digit)
qed

section \<open>Values\<close>

fun json_ok :: "json \<Rightarrow> bool" where
  "json_ok (JList vs) = list_all json_ok vs"
| "json_ok (JDict kvs) = (distinct (map fst kvs) \<and> list_all (\<lambda>(k, v). json_ok v) kvs)"
| "json_ok _ = True"

definition starts_value :: "string \<Rightarrow> bool" where
  "starts_value s \<longleftrightarrow> s \<noteq> [] \<and> \<not> json_blank (hd s) \<and> hd s \<notin> {CHR '']'', CHR ''}''}"

lemma digit_starts: "is_digit c \<Longrightarrow> \<not> json_blank c \<and> c \<noteq> CHR '']'' \<and> c \<noteq> CHR ''}''"
  by (auto simp: is_digit_def digit_value_def json_blank_def Let_def split: if_splits)

lemma print_starts: "starts_value (print_json v @ r)"
proof (cases v)
  case (JInt i)
  have "starts_value (nat_str n @ r)" for n
    using digit_starts [OF nat_str_digits [OF hd_in_set [OF nat_str_nonempty]], of n] by (simp add: starts_value_def)
  then show ?thesis by (auto simp: JInt int_str_def starts_value_def json_blank_def)
qed (auto simp: starts_value_def json_blank_def quote_def)

lemma starts_skip: "starts_value s \<Longrightarrow> skip_blank s = s"
  by (cases s) (auto simp: starts_value_def)

lemma ends_skip: "ends_value s \<Longrightarrow> skip_blank s = s"
  by (cases s) (auto simp: ends_value_def json_blank_def)

lemma quote_starts: "starts_value (quote k @ r)"
  by (auto simp: starts_value_def json_blank_def quote_def)

lemma join_Cons: "join (x # xs) = x @ (if xs = [] then [] else CHR '','' # join xs)"
  by (cases xs) simp_all

text \<open>\<open>reads_back v\<close>: the reader finds \<open>v\<close> in front of whatever may follow it, with enough fuel.\<close>

definition reads_back :: "json \<Rightarrow> bool" where
  "reads_back v \<longleftrightarrow> (\<forall>n rest. length (print_json v) < n \<longrightarrow> ends_value rest \<longrightarrow>
     parse_value n (print_json v @ rest) = Some (v, rest))"

lemma reads_backD:
  "reads_back v \<Longrightarrow> length (print_json v) < n \<Longrightarrow> ends_value rest \<Longrightarrow> parse_value n (print_json v @ rest) = Some (v, rest)"
  by (simp add: reads_back_def)

lemma items_read_back:
  assumes "\<forall>v \<in> set vs. reads_back v" and "vs \<noteq> []" and "length (join (map print_json vs)) + 1 < n"
  shows "parse_items n (join (map print_json vs) @ CHR '']'' # rest) = Some (vs, rest)"
  using assms
proof (induction vs arbitrary: n)
  case (Cons v vs)
  then obtain m where n: "n = Suc m" by (cases n) auto
  let ?r = "(if vs = [] then [] else CHR '','' # join (map print_json vs)) @ CHR '']'' # rest"
  have len: "length (print_json v) < m" using Cons.prems(3) by (simp add: n join_Cons)
  have ends: "ends_value ?r" by (simp add: ends_value_def)
  have head: "parse_value m (print_json v @ ?r) = Some (v, ?r)"
    using Cons.prems(1) len ends by (simp add: reads_back_def)
  show ?case
  proof (cases "vs = []")
    case True
    with head ends show ?thesis by (simp add: n join_Cons ends_skip json_blank_def)
  next
    case False
    have "starts_value (join (map print_json vs) @ CHR '']'' # rest)"
      using False by (cases vs) (simp_all add: join_Cons print_starts)
    moreover have "parse_items m (join (map print_json vs) @ CHR '']'' # rest) = Some (vs, rest)"
      using Cons.prems False by (intro Cons.IH) (auto simp: n join_Cons)
    ultimately show ?thesis using head False by (simp add: n join_Cons json_blank_def starts_skip)
  qed
qed simp

abbreviation print_member :: "string \<times> json \<Rightarrow> string" where
  "print_member \<equiv> \<lambda>(k, v). quote k @ CHR '':'' # print_json v"

lemma quote_read_back:
  "parse_members (Suc m) (quote k @ CHR '':'' # print_json v @ r) =
     Option.bind (parse_value m (print_json v @ r)) (\<lambda>(v, r'). case skip_blank r' of
         [] \<Rightarrow> None
       | d # ds \<Rightarrow>
           if d = CHR ''}'' then Some ([(k, v)], ds)
           else if d = CHR '','' then map_option (apfst ((#) (k, v))) (parse_members m (skip_blank ds))
           else None)"
  by (simp add: quote_def parse_str_quote json_blank_def starts_skip [OF print_starts])

lemma members_read_back:
  assumes "\<forall>kv \<in> set kvs. reads_back (snd kv)" and "kvs \<noteq> []" and "length (join (map print_member kvs)) + 1 < n"
  shows "parse_members n (join (map print_member kvs) @ CHR ''}'' # rest) = Some (kvs, rest)"
  using assms
proof (induction kvs arbitrary: n)
  case (Cons kv kvs)
  obtain k v where kv: "kv = (k, v)" by fastforce
  from Cons.prems obtain m where n: "n = Suc m" by (cases n) auto
  let ?r = "(if kvs = [] then [] else CHR '','' # join (map print_member kvs)) @ CHR ''}'' # rest"
  have len: "length (print_json v) < m" using Cons.prems(3) by (simp add: n kv join_Cons)
  have ends: "ends_value ?r" by (simp add: ends_value_def)
  have head: "parse_value m (print_json v @ ?r) = Some (v, ?r)"
    using Cons.prems(1) len ends by (simp add: reads_back_def kv)
  have eq: "join (map print_member (kv # kvs)) @ CHR ''}'' # rest = quote k @ CHR '':'' # print_json v @ ?r"
    by (simp add: kv join_Cons)
  show ?case
  proof (cases "kvs = []")
    case True
    with head show ?thesis unfolding eq n quote_read_back by (simp add: kv json_blank_def)
  next
    case False
    have "starts_value (join (map print_member kvs) @ CHR ''}'' # rest)"
      using False by (cases kvs) (auto simp: join_Cons quote_starts)
    moreover have "parse_members m (join (map print_member kvs) @ CHR ''}'' # rest) = Some (kvs, rest)"
      using Cons.prems False by (intro Cons.IH) (auto simp: n kv join_Cons)
    ultimately show ?thesis using head False unfolding eq n quote_read_back
      by (simp add: kv json_blank_def starts_skip)
  qed
qed simp

lemma dict_of_distinct: "distinct (map fst kvs) \<Longrightarrow> dict_of kvs = kvs"
proof -
  have "fold (\<lambda>(k, v). dput k v) kvs d = d @ kvs"
    if "distinct (map fst kvs)" "fst ` set d \<inter> fst ` set kvs = {}" for d
    using that
  proof (induction kvs arbitrary: d)
    case (Cons kv kvs)
    have new: "k \<notin> fst ` set e \<Longrightarrow> dput k v e = e @ [(k, v)]" for k v and e :: "(string \<times> json) list"
      by (induction e) auto
    obtain k v where kv: "kv = (k, v)" by fastforce
    with Cons.IH [of "d @ [kv]"] Cons.prems show ?case by (auto simp: new)
  qed simp
  then show "distinct (map fst kvs) \<Longrightarrow> ?thesis" by (simp add: dict_of_def)
qed

lemma scalar_reads_back:
  assumes "\<And>m rest. ends_value rest \<Longrightarrow> parse_value (Suc m) (print_json v @ rest) = Some (v, rest)"
  shows "reads_back v"
  unfolding reads_back_def
proof (intro allI impI)
  fix n rest assume "length (print_json v) < n" "ends_value rest"
  with assms [of rest] show "parse_value n (print_json v @ rest) = Some (v, rest)" by (cases n) simp_all
qed

lemma int_str_parts:
  obtains c cs where "int_str i = c # cs" and "c = CHR ''-'' \<or> is_digit c"
proof -
  have "int_str i \<noteq> []" "hd (int_str i) = CHR ''-'' \<or> is_digit (hd (int_str i))"
    using nat_str_digits [OF hd_in_set, of "nat i"] by (simp_all add: int_str_def)
  then show thesis by (intro that [of "hd (int_str i)" "tl (int_str i)"]) simp_all
qed

lemma parse_value_number:
  assumes "c = CHR ''-'' \<or> is_digit c"
  shows "parse_value (Suc m) (c # cs) = parse_number (c # cs)"
proof -
  have "c \<notin> {CHR 0x22, CHR ''['', CHR ''{'', CHR ''n'', CHR ''t'', CHR ''f''}"
    using assms by (auto simp: is_digit_def digit_value_def Let_def)
  then show ?thesis by simp
qed

lemma int_reads_back: "reads_back (JInt i)"
proof (rule scalar_reads_back)
  fix m rest assume "ends_value rest"
  obtain c cs where c: "int_str i = c # cs" "c = CHR ''-'' \<or> is_digit c" by (rule int_str_parts)
  have "parse_value (Suc m) (int_str i @ rest) = parse_number (int_str i @ rest)"
    unfolding c(1) append_Cons using c(2) by (rule parse_value_number)
  with \<open>ends_value rest\<close> show "parse_value (Suc m) (print_json (JInt i) @ rest) = Some (JInt i, rest)"
    by (simp add: parse_number_int)
qed

lemma scalars_read_back: "reads_back JNull" "reads_back (JBool b)" "reads_back (JStr s)"
  by (rule scalar_reads_back, simp add: quote_def parse_str_quote)+

lemma json_reads_back: "json_ok v \<Longrightarrow> reads_back v"
proof (induction v rule: json_ok.induct)
  case (1 vs)
  show ?case
    unfolding reads_back_def
  proof (intro allI impI)
    fix n rest assume n: "length (print_json (JList vs)) < n"
    then obtain m where m: "n = Suc m" by (cases n) auto
    show "parse_value n (print_json (JList vs) @ rest) = Some (JList vs, rest)"
    proof (cases "vs = []")
      case False
      have "starts_value (join (map print_json vs) @ CHR '']'' # rest)"
        using False by (cases vs) (simp_all add: join_Cons print_starts)
      moreover have "parse_items m (join (map print_json vs) @ CHR '']'' # rest) = Some (vs, rest)"
        using 1 False n by (intro items_read_back) (auto simp: m list_all_iff)
      ultimately show ?thesis
        by (cases "join (map print_json vs) @ CHR '']'' # rest") (auto simp: m starts_value_def)
    qed (simp add: m json_blank_def)
  qed
next
  case (2 kvs)
  show ?case
    unfolding reads_back_def
  proof (intro allI impI)
    fix n rest assume n: "length (print_json (JDict kvs)) < n"
    then obtain m where m: "n = Suc m" by (cases n) auto
    show "parse_value n (print_json (JDict kvs) @ rest) = Some (JDict kvs, rest)"
    proof (cases "kvs = []")
      case False
      have "starts_value (join (map print_member kvs) @ CHR ''}'' # rest)"
        using False by (cases kvs) (auto simp: join_Cons quote_starts)
      moreover have "parse_members m (join (map print_member kvs) @ CHR ''}'' # rest) = Some (kvs, rest)"
        using 2 False n by (intro members_read_back) (auto simp: m list_all_iff)
      ultimately show ?thesis using 2
        by (cases "join (map print_member kvs) @ CHR ''}'' # rest") (auto simp: m starts_value_def dict_of_distinct)
    qed (simp add: m json_blank_def)
  qed
qed (simp_all add: scalars_read_back int_reads_back)

lemma distinct_map_sort: "distinct (map f (sort_key g xs)) \<longleftrightarrow> distinct (map f xs)"
  by (simp add: distinct_map)

lemma sort_keys_ok: "json_ok v \<Longrightarrow> json_ok (sort_keys v)"
proof (induction v rule: sort_keys.induct)
  case (2 kvs)
  have keys: "map fst (map (\<lambda>(k, v). (k, sort_keys v)) kvs) = map fst kvs" by (simp add: comp_def case_prod_beta)
  have "distinct (map fst (sort_key fst (map (\<lambda>(k, v). (k, sort_keys v)) kvs)))"
    unfolding distinct_map_sort keys using 2 by simp
  with 2 show ?case by (auto simp: list_all_iff)
qed (simp_all add: list_all_iff)

lemma loads_dumps:
  assumes "json_ok v"
  shows "loads (dumps v) = Some (sort_keys v)"
proof -
  have "reads_back (sort_keys v)" using assms by (intro json_reads_back sort_keys_ok)
  then have "parse_value (Suc (length (dumps v))) (dumps v @ []) = Some (sort_keys v, [])"
    unfolding dumps_def by (rule reads_backD) (simp_all add: ends_value_def)
  moreover have "skip_blank (dumps v) = dumps v"
    using starts_skip [OF print_starts [of "sort_keys v" "[]"]] by (simp add: dumps_def)
  ultimately show ?thesis by (simp add: loads_def del: parse_value.simps)
qed

end
