(* ===== verification/PyValues.thy ===== *)
theory PyValues
  imports Floats Json
begin

text \<open>
  The values of an event document and what Python does with them: truth, equality, \<open>str\<close> and \<open>repr\<close>, the
  conversions \<open>int\<close>, \<open>float\<close> and \<open>len\<close>. A document comes from JSON, so its values are null, booleans,
  integers, finite floats, strings (Latin-1, as everywhere in the development), lists and dictionaries.
  The shortest decimal form of a float and the float a string denotes are parameters (\<open>py_floats\<close>).
\<close>

datatype pvalue =
    VNone
  | VBool bool
  | VInt int
  | VFloat rat
  | VStr string
  | VList "pvalue list"
  | VDict "(string \<times> pvalue) list"

type_synonym vdict = "(string \<times> pvalue) list"

record py_floats =
  pf_repr :: "rat \<Rightarrow> string"
  pf_parse :: "string \<Rightarrow> rat option"

section \<open>Truth and equality\<close>

fun py_truthy :: "pvalue \<Rightarrow> bool" where
  "py_truthy VNone = False"
| "py_truthy (VBool b) = b"
| "py_truthy (VInt i) = (i \<noteq> 0)"
| "py_truthy (VFloat r) = (r \<noteq> 0)"
| "py_truthy (VStr s) = (s \<noteq> [])"
| "py_truthy (VList vs) = (vs \<noteq> [])"
| "py_truthy (VDict kvs) = (kvs \<noteq> [])"

text \<open>\<open>a or b\<close>, and \<open>d.get(k)\<close>.\<close>

definition vor :: "pvalue \<Rightarrow> pvalue \<Rightarrow> pvalue" where
  "vor a b = (if py_truthy a then a else b)"

definition vget :: "vdict \<Rightarrow> string \<Rightarrow> pvalue" where
  "vget d k = (case dget d k of None \<Rightarrow> VNone | Some v \<Rightarrow> v)"

text \<open>
  \<open>a == b\<close>: numbers compare by their value across types, dictionaries without regard to order. Two values are
  equal exactly when their normal forms are.
\<close>

fun vnorm :: "pvalue \<Rightarrow> pvalue" where
  "vnorm (VBool b) = VFloat (if b then 1 else 0)"
| "vnorm (VInt i) = VFloat (of_int i)"
| "vnorm (VList vs) = VList (map vnorm vs)"
| "vnorm (VDict kvs) = VDict (sort_key fst (map (\<lambda>(k, v). (k, vnorm v)) kvs))"
| "vnorm v = v"

definition veq :: "pvalue \<Rightarrow> pvalue \<Rightarrow> bool" where
  "veq a b \<longleftrightarrow> vnorm a = vnorm b"

section \<open>Text\<close>

definition hex_escape :: "char \<Rightarrow> string" where
  "hex_escape c = (let n = of_char c :: nat in [CHR 0x5C, CHR ''x'', hex_digit (n div 16), hex_digit (n mod 16)])"

definition repr_char :: "char \<Rightarrow> char \<Rightarrow> string" where
  "repr_char q c = (let n = of_char c :: nat in
      if c = q \<or> n = 92 then [CHR 0x5C, c]
      else if n = 10 then [CHR 0x5C, CHR ''n'']
      else if n = 13 then [CHR 0x5C, CHR ''r'']
      else if n = 9 then [CHR 0x5C, CHR ''t'']
      else if n < 32 \<or> 127 \<le> n \<and> n \<le> 160 \<or> n = 173 then hex_escape c
      else [c])"

definition repr_str :: "string \<Rightarrow> string" where
  "repr_str s = (let q = (if CHR 0x27 \<in> set s \<and> CHR 0x22 \<notin> set s then CHR 0x22 else CHR 0x27)
     in q # concat (map (repr_char q) s) @ [q])"

fun comma_join :: "string list \<Rightarrow> string" where
  "comma_join [] = []"
| "comma_join [x] = x"
| "comma_join (x # y # ys) = x @ '', '' @ comma_join (y # ys)"

fun repr_value :: "py_floats \<Rightarrow> pvalue \<Rightarrow> string" where
  "repr_value pf VNone = ''None''"
| "repr_value pf (VBool b) = (if b then ''True'' else ''False'')"
| "repr_value pf (VInt i) = int_str i"
| "repr_value pf (VFloat r) = pf_repr pf r"
| "repr_value pf (VStr s) = repr_str s"
| "repr_value pf (VList vs) = ''['' @ comma_join (map (repr_value pf) vs) @ '']''"
| "repr_value pf (VDict kvs) = ''{'' @ comma_join (map (\<lambda>(k, v). repr_str k @ '': '' @ repr_value pf v) kvs) @ ''}''"

definition py_str :: "py_floats \<Rightarrow> pvalue \<Rightarrow> string" where
  "py_str pf v = (case v of VStr s \<Rightarrow> s | _ \<Rightarrow> repr_value pf v)"

section \<open>Conversions\<close>

definition trunc_rat :: "rat \<Rightarrow> int" where
  "trunc_rat r = (if 0 \<le> r then \<lfloor>r\<rfloor> else \<lceil>r\<rceil>)"

definition int_value :: "pvalue \<Rightarrow> py_error + int" where
  "int_value v = (case v of
      VBool b \<Rightarrow> Inr (if b then 1 else 0)
    | VInt i \<Rightarrow> Inr i
    | VFloat r \<Rightarrow> Inr (trunc_rat r)
    | VStr s \<Rightarrow> (case parse_int s of Some i \<Rightarrow> Inr i | None \<Rightarrow> Inl (ValueError ''invalid literal for int()''))
    | _ \<Rightarrow> Inl (TypeError ''int() argument''))"

definition float_value :: "py_floats \<Rightarrow> pvalue \<Rightarrow> py_error + rat" where
  "float_value pf v = (case v of
      VBool b \<Rightarrow> Inr (if b then 1 else 0)
    | VInt i \<Rightarrow> Inr (fl (of_int i))
    | VFloat r \<Rightarrow> Inr r
    | VStr s \<Rightarrow> (case pf_parse pf s of Some r \<Rightarrow> Inr r | None \<Rightarrow> Inl (ValueError ''could not convert string to float''))
    | _ \<Rightarrow> Inl (TypeError ''float() argument''))"

definition len_value :: "pvalue \<Rightarrow> py_error + int" where
  "len_value v = (case v of
      VStr s \<Rightarrow> Inr (int (length s))
    | VList vs \<Rightarrow> Inr (int (length vs))
    | VDict kvs \<Rightarrow> Inr (int (length kvs))
    | _ \<Rightarrow> Inl (TypeError ''object has no len()''))"

text \<open>\<open>int(dt.timestamp())\<close> of an instant in microseconds.\<close>

definition epoch_seconds :: "int \<Rightarrow> int" where
  "epoch_seconds t = trunc_rat (fl (of_int t / 1000000))"

section \<open>Validation of a field\<close>

text \<open>
  What the field types of a pydantic model accept of such values; None stands for the validation error.
\<close>

definition string_field :: "pvalue \<Rightarrow> string option" where
  "string_field v = (case v of VStr s \<Rightarrow> Some s | _ \<Rightarrow> None)"

definition opt_string_field :: "pvalue \<Rightarrow> string option option" where
  "opt_string_field v = (case v of VStr s \<Rightarrow> Some (Some s) | VNone \<Rightarrow> Some None | _ \<Rightarrow> None)"

definition dict_field :: "pvalue \<Rightarrow> vdict option" where
  "dict_field v = (case v of VDict d \<Rightarrow> Some d | _ \<Rightarrow> None)"

fun all_some :: "'a option list \<Rightarrow> 'a list option" where
  "all_some [] = Some []"
| "all_some (None # xs) = None"
| "all_some (Some x # xs) = map_option (Cons x) (all_some xs)"

definition str_list_field :: "pvalue \<Rightarrow> string list option" where
  "str_list_field v = (case v of VList vs \<Rightarrow> all_some (map string_field vs) | _ \<Rightarrow> None)"

definition dict_list_field :: "pvalue \<Rightarrow> vdict list option" where
  "dict_list_field v = (case v of VList vs \<Rightarrow> all_some (map dict_field vs) | _ \<Rightarrow> None)"

end
