(* ===== verification/IncidentModel.thy ===== *)
theory IncidentModel
  imports PyValues
begin

text \<open>
  Findings and incidents (\<open>packages/domain_model/incident.py\<close>) and the pure parts of the incident manager:
  \<open>normalizer.py\<close>, \<open>deduplication.py\<close>, \<open>correlator.py\<close>, \<open>severity.py\<close>, \<open>lifecycle.py\<close> and the merge decision of
  \<open>service.py\<close>. The records hold the fields this code reads or writes; the other fields of the classes keep
  their defaults. Instants are microseconds and carry a time zone.

  \<open>im_env\<close> is what the code takes from outside: the digest, the float texts, the parser of time stamps of
  pydantic, the clock.
\<close>

section \<open>Domain model\<close>

datatype finding_type =
    FtSchemaChange | FtFreshnessBreach | FtDataQualityFailure | FtScannerFailure | FtSourceUnavailable
  | FtProfileAnomaly | FtLineageImpactWarning | FtJobFailure | FtJobSlaBreach | FtStreamLag
  | FtStreamRetentionRisk | FtStreamReplicationFailure | FtConnectorFailure | FtBreakingSchemaChange
  | FtPathwayLatency | FtMonitorAnomaly | FtDeploymentRegression | FtCollectorFailure | FtSecurityPolicyViolation | FtUnknown

fun finding_type_str :: "finding_type \<Rightarrow> string" where
  "finding_type_str FtSchemaChange = ''schema_change''"
| "finding_type_str FtFreshnessBreach = ''freshness_breach''"
| "finding_type_str FtDataQualityFailure = ''data_quality_failure''"
| "finding_type_str FtScannerFailure = ''scanner_failure''"
| "finding_type_str FtSourceUnavailable = ''source_unavailable''"
| "finding_type_str FtProfileAnomaly = ''profile_anomaly''"
| "finding_type_str FtLineageImpactWarning = ''lineage_impact_warning''"
| "finding_type_str FtJobFailure = ''job_failure''"
| "finding_type_str FtJobSlaBreach = ''job_sla_breach''"
| "finding_type_str FtStreamLag = ''stream_lag''"
| "finding_type_str FtStreamRetentionRisk = ''stream_retention_risk''"
| "finding_type_str FtStreamReplicationFailure = ''stream_replication_failure''"
| "finding_type_str FtConnectorFailure = ''connector_failure''"
| "finding_type_str FtBreakingSchemaChange = ''breaking_schema_change''"
| "finding_type_str FtPathwayLatency = ''pathway_latency''"
| "finding_type_str FtMonitorAnomaly = ''monitor_anomaly''"
| "finding_type_str FtDeploymentRegression = ''deployment_regression''"
| "finding_type_str FtCollectorFailure = ''collector_failure''"
| "finding_type_str FtSecurityPolicyViolation = ''security_policy_violation''"
| "finding_type_str FtUnknown = ''unknown''"

datatype signal_type =
    SgPostgresSchemaChange | SgFreshnessMeasurement | SgQualityResult | SgScannerError
  | SgSourceConnectionFailure | SgOpenlineageRunFailure | SgMonitorAnomaly

fun signal_type_str :: "signal_type \<Rightarrow> string" where
  "signal_type_str SgPostgresSchemaChange = ''postgres_schema_change''"
| "signal_type_str SgFreshnessMeasurement = ''freshness_measurement''"
| "signal_type_str SgQualityResult = ''quality_result''"
| "signal_type_str SgScannerError = ''scanner_error''"
| "signal_type_str SgSourceConnectionFailure = ''source_connection_failure''"
| "signal_type_str SgOpenlineageRunFailure = ''openlineage_run_failure''"
| "signal_type_str SgMonitorAnomaly = ''monitor_anomaly''"

datatype severity = SvLow | SvMedium | SvHigh | SvCritical

fun severity_str :: "severity \<Rightarrow> string" where
  "severity_str SvLow = ''low''"
| "severity_str SvMedium = ''medium''"
| "severity_str SvHigh = ''high''"
| "severity_str SvCritical = ''critical''"

definition severity_of :: "pvalue \<Rightarrow> severity option" where
  "severity_of v =
     (if v = VStr ''low'' then Some SvLow
      else if v = VStr ''medium'' then Some SvMedium
      else if v = VStr ''high'' then Some SvHigh
      else if v = VStr ''critical'' then Some SvCritical
      else None)"

datatype incident_state =
    IsOpen | IsAcknowledged | IsInvestigating | IsMitigating | IsWaitingForApproval | IsMonitoringRecovery
  | IsResolved | IsSuppressed | IsClosed | IsReopened

fun incident_state_str :: "incident_state \<Rightarrow> string" where
  "incident_state_str IsOpen = ''open''"
| "incident_state_str IsAcknowledged = ''acknowledged''"
| "incident_state_str IsInvestigating = ''investigating''"
| "incident_state_str IsMitigating = ''mitigating''"
| "incident_state_str IsWaitingForApproval = ''waiting_for_approval''"
| "incident_state_str IsMonitoringRecovery = ''monitoring_recovery''"
| "incident_state_str IsResolved = ''resolved''"
| "incident_state_str IsSuppressed = ''suppressed''"
| "incident_state_str IsClosed = ''closed''"
| "incident_state_str IsReopened = ''reopened''"

record finding =
  fn_id :: string
  fn_tenant_id :: string
  fn_environment :: string
  fn_finding_type :: finding_type
  fn_signal_type :: signal_type
  fn_source_event_id :: string
  fn_source_event_version :: string
  fn_asset_id :: string
  fn_source_id :: "string option"
  fn_scanner_id :: "string option"
  fn_monitor_id :: "string option"
  fn_policy_id :: "string option"
  fn_title :: string
  fn_summary :: string
  fn_observed_value :: vdict
  fn_expected_value :: vdict
  fn_severity :: severity
  fn_confidence :: rat
  fn_evidence :: "vdict list"
  fn_owner_team :: "string option"
  fn_business_service :: "string option"
  fn_downstream_impact :: "string list"
  fn_downstream_asset_count :: int
  fn_trace_id :: "string option"
  fn_correlation_id :: "string option"
  fn_first_observed_at :: int
  fn_last_observed_at :: int
  fn_status :: string
  fn_recovery_signal :: bool

record incident =
  in_id :: string
  in_tenant_id :: string
  in_environment :: string
  in_title :: string
  in_incident_state :: incident_state
  in_severity :: severity
  in_deduplication_key :: string
  in_correlation_key :: "string option"
  in_finding_ids :: "string list"
  in_affected_assets :: "string list"
  in_impact_summary :: "string option"
  in_severity_factors :: vdict
  in_occurrence_count :: int
  in_most_recent_evidence :: "vdict list"
  in_owner_team :: "string option"
  in_business_service :: "string option"
  in_opened_at :: "int option"
  in_first_observed_at :: "int option"
  in_last_observed_at :: "int option"
  in_acknowledged_at :: "int option"
  in_resolved_at :: "int option"
  in_closed_at :: "int option"
  in_reopened_at :: "int option"
  in_resolution_reason :: "string option"
  in_state_reason :: "string option"
  in_primary_resource :: "string option"
  in_data_product_ids :: "string list"
  in_business_services :: "string list"
  in_updated_at :: int
  in_seq_no :: "int option"
  in_primary_term :: "int option"

record im_env =
  ie_digest :: "string \<Rightarrow> string"
  ie_floats :: py_floats
  ie_parse_time :: "pvalue \<Rightarrow> int option"
  ie_clock :: "nat \<Rightarrow> int"
  ie_time_str :: "int \<Rightarrow> string"
  ie_isoformat :: "int \<Rightarrow> string"
  ie_policy_hash :: string

definition deterministic_id :: "im_env \<Rightarrow> string \<Rightarrow> string list \<Rightarrow> string" where
  "deterministic_id env prefix parts = prefix @ ''-'' @ take 24 (ie_digest env (print_json (JList (map JStr parts))))"

section \<open>Normalisation of an event\<close>

definition type_map :: "string \<Rightarrow> (finding_type \<times> signal_type) option" where
  "type_map = map_of
     [(''schema_change'', (FtSchemaChange, SgPostgresSchemaChange)),
      (''freshness'', (FtFreshnessBreach, SgFreshnessMeasurement)),
      (''quality_result'', (FtDataQualityFailure, SgQualityResult)),
      (''scanner_error'', (FtScannerFailure, SgScannerError)),
      (''source_unavailable'', (FtSourceUnavailable, SgSourceConnectionFailure)),
      (''openlineage_run_failure'', (FtScannerFailure, SgOpenlineageRunFailure)),
      (''profile_anomaly'', (FtProfileAnomaly, SgMonitorAnomaly))]"

definition kind_of :: "vdict \<Rightarrow> py_error + finding_type \<times> signal_type" where
  "kind_of event = (case vor (vor (vget event ''event_type'') (vget event ''type'')) (VStr ''quality_result'') of
      VStr s \<Rightarrow> Inr (case type_map s of Some ts \<Rightarrow> ts | None \<Rightarrow> (FtDataQualityFailure, SgQualityResult))
    | VList vs \<Rightarrow> Inl (TypeError ''unhashable type'')
    | VDict d \<Rightarrow> Inl (TypeError ''unhashable type'')
    | _ \<Rightarrow> Inr (FtDataQualityFailure, SgQualityResult))"

text \<open>\<open>event.get(k, default)\<close>.\<close>

definition vget_default :: "vdict \<Rightarrow> string \<Rightarrow> pvalue \<Rightarrow> pvalue" where
  "vget_default d k v = (case dget d k of None \<Rightarrow> v | Some x \<Rightarrow> x)"

definition observed_of :: "vdict \<Rightarrow> pvalue" where
  "observed_of event = vor (vget event ''observed_value'')
     (VDict (List.map_filter (\<lambda>k. map_option (Pair k) (dget event k)) [''status'', ''score'', ''error'']))"

definition asset_of :: "py_floats \<Rightarrow> vdict \<Rightarrow> string" where
  "asset_of pf event = py_str pf (vor (vget event ''asset_id'') (vor (vget event ''table'')
     (vor (vget event ''dataset'') (VStr ''unknown''))))"

definition source_event_of :: "py_floats \<Rightarrow> vdict \<Rightarrow> string" where
  "source_event_of pf event = py_str pf (vor (vget event ''id'') (vor (vget event ''event_id'') (vget event ''run_id'')))"

definition title_of :: "py_floats \<Rightarrow> finding_type \<Rightarrow> vdict \<Rightarrow> pvalue" where
  "title_of pf ft event = vor (vget event ''title'')
     (VStr (finding_type_str ft @ '' on '' @ py_str pf (vget_default event ''asset_id'' (VStr ''asset''))))"

definition asset_count_of :: "vdict \<Rightarrow> py_error + int" where
  "asset_count_of event = (case len_value (vget_default event ''downstream_impact'' (VList [])) of
      Inl e \<Rightarrow> Inl e
    | Inr n \<Rightarrow> int_value (vget_default event ''downstream_asset_count'' (VInt n)))"

text \<open>
  \<open>Finding(...)\<close>: the validation of its fields and the identifier \<open>model_post_init\<close> derives.
\<close>

definition finding_id :: "im_env \<Rightarrow> finding \<Rightarrow> string" where
  "finding_id env f = deterministic_id env ''finding''
     [fn_tenant_id f, fn_environment f, fn_asset_id f, finding_type_str (fn_finding_type f),
      signal_type_str (fn_signal_type f), fn_source_event_id f, fn_source_event_version f]"

definition finding_of ::
  "im_env \<Rightarrow> string \<Rightarrow> vdict \<Rightarrow> finding_type \<Rightarrow> signal_type \<Rightarrow> severity \<Rightarrow> rat \<Rightarrow> int \<Rightarrow> int \<Rightarrow> finding option" where
  "finding_of env tenant event ft st sev conf count now =
     (case (string_field (vget_default event ''environment'' (VStr ''default'')),
            opt_string_field (vget event ''source_id''), opt_string_field (vget event ''scanner_id''),
            opt_string_field (vget event ''monitor_id''), opt_string_field (vget event ''policy_id'')) of
        (Some environment, Some source_id, Some scanner_id, Some monitor_id, Some policy_id) \<Rightarrow>
     (case (string_field (title_of (ie_floats env) ft event),
            string_field (vor (vor (vget event ''summary'') (vget event ''message'')) (VStr ''DataObs normalized finding'')),
            dict_field (observed_of event), dict_field (vor (vget event ''expected_value'') (VDict []))) of
        (Some title, Some summary, Some observed, Some expected) \<Rightarrow>
     (case (dict_list_field (vget_default event ''evidence'' (VList [])),
            opt_string_field (vget event ''owner_team''), opt_string_field (vget event ''business_service''),
            str_list_field (vget_default event ''downstream_impact'' (VList [])),
            opt_string_field (vor (vget event ''trace_id'') (vget event ''otel_trace_id'')),
            opt_string_field (vget event ''correlation_id'')) of
        (Some evidence, Some owner, Some service, Some impact, Some trace, Some correlation) \<Rightarrow>
          if 0 \<le> conf \<and> conf \<le> 1 then
            let f = \<lparr>fn_id = [], fn_tenant_id = tenant, fn_environment = environment, fn_finding_type = ft,
              fn_signal_type = st, fn_source_event_id = source_event_of (ie_floats env) event,
              fn_source_event_version =
                py_str (ie_floats env) (vget_default event ''schema_version'' (VStr ''v1'')),
              fn_asset_id = asset_of (ie_floats env) event, fn_source_id = source_id, fn_scanner_id = scanner_id,
              fn_monitor_id = monitor_id, fn_policy_id = policy_id, fn_title = title, fn_summary = summary,
              fn_observed_value = observed, fn_expected_value = expected, fn_severity = sev, fn_confidence = conf,
              fn_evidence = evidence, fn_owner_team = owner, fn_business_service = service,
              fn_downstream_impact = impact, fn_downstream_asset_count = count, fn_trace_id = trace,
              fn_correlation_id = correlation, fn_first_observed_at = now, fn_last_observed_at = now,
              fn_status = (if py_truthy (vget event ''recovery_signal'') then ''recovered'' else ''active''),
              fn_recovery_signal = py_truthy (vget_default event ''recovery_signal'' (VBool False))\<rparr>
            in Some (f\<lparr>fn_id := finding_id env f\<rparr>)
          else None
      | _ \<Rightarrow> None) | _ \<Rightarrow> None) | _ \<Rightarrow> None)"

text \<open>
  \<open>normalize_event\<close> with the instant \<open>datetime.now\<close> would give; the clock counts only for an event without
  a time stamp.
\<close>

definition normalize_event :: "im_env \<Rightarrow> int \<Rightarrow> vdict \<Rightarrow> string \<Rightarrow> py_error + finding" where
  "normalize_event env clock event tenant =
     (if vget_default event ''tenant_id'' (VStr tenant) \<noteq> VStr tenant
      then Inl (ValueError ''cross-tenant finding event rejected'')
      else case kind_of event of Inl e \<Rightarrow> Inl e | Inr (ft, st) \<Rightarrow>
     (case severity_of (vget_default event ''severity'' (VStr ''medium'')) of
        None \<Rightarrow> Inl (ValueError ''not a valid Severity'') | Some sev \<Rightarrow>
     (case float_value (ie_floats env) (vget_default event ''confidence'' (VFloat 1)) of
        Inl e \<Rightarrow> Inl e | Inr conf \<Rightarrow>
     (case asset_count_of event of Inl e \<Rightarrow> Inl e | Inr count \<Rightarrow>
     (let stamp = vor (vget event ''@timestamp'') (vget event ''observed_at'') in
      case (if py_truthy stamp then ie_parse_time env stamp else Some clock) of
        None \<Rightarrow> Inl ValidationError | Some now \<Rightarrow>
     (case finding_of env tenant event ft st sev conf count now of
        None \<Rightarrow> Inl ValidationError | Some f \<Rightarrow> Inr f))))))"

section \<open>Keys\<close>

definition time_bucket :: "int \<Rightarrow> int \<Rightarrow> string" where
  "time_bucket t minutes = (let epoch = epoch_seconds t in int_str (epoch - epoch mod (minutes * 60)))"

definition deduplication_key :: "im_env \<Rightarrow> finding \<Rightarrow> int \<Rightarrow> string" where
  "deduplication_key env f bucket_minutes = deterministic_id env ''dedup''
     [fn_tenant_id f, fn_environment f, fn_asset_id f, finding_type_str (fn_finding_type f),
      por_else (por (fn_monitor_id f) (fn_policy_id f)) ''none'', time_bucket (fn_first_observed_at f) bucket_minutes]"

definition correlation_key :: "im_env \<Rightarrow> finding \<Rightarrow> string" where
  "correlation_key env f = deterministic_id env ''corr''
     [fn_tenant_id f, fn_environment f, por_else (fn_source_id f) ''source'', fn_asset_id f,
      por_else (fn_correlation_id f) ''none'']"

definition incident_id :: "im_env \<Rightarrow> string \<Rightarrow> string \<Rightarrow> string" where
  "incident_id env tenant dedup = deterministic_id env ''incident'' [tenant, dedup]"

section \<open>Severity\<close>

fun severity_weight :: "severity \<Rightarrow> rat" where
  "severity_weight SvLow = 10"
| "severity_weight SvMedium = 30"
| "severity_weight SvHigh = 60"
| "severity_weight SvCritical = 90"

definition downstream_bonus :: "int \<Rightarrow> int" where
  "downstream_bonus count = min (count * 2) 20"

definition recurrence_bonus :: "int \<Rightarrow> int" where
  "recurrence_bonus n = min (max (n - 1) 0 * 3) 15"

definition confidence_adjustment :: "rat \<Rightarrow> rat" where
  "confidence_adjustment c = fl (fl (c - 1) * 20)"

definition severity_score :: "finding \<Rightarrow> int \<Rightarrow> rat" where
  "severity_score f recurrence =
     (let score = severity_weight (fn_severity f);
          score = (if fn_environment f \<in> {''prod'', ''production''} then fl (score + 10) else score);
          score = fl (score + fl (of_int (downstream_bonus (fn_downstream_asset_count f))));
          score = fl (score + fl (of_int (recurrence_bonus recurrence)))
      in fl (score + confidence_adjustment (fn_confidence f)))"

definition severity_level :: "rat \<Rightarrow> severity" where
  "severity_level score =
     (if 85 \<le> score then SvCritical else if 60 \<le> score then SvHigh
      else if 30 \<le> score then SvMedium else SvLow)"

definition calculate_severity :: "finding \<Rightarrow> int \<Rightarrow> severity \<times> vdict" where
  "calculate_severity f recurrence =
     (severity_level (severity_score f recurrence),
      [(''finding_severity'', VStr (severity_str (fn_severity f))),
       (''base_score'', VFloat (severity_weight (fn_severity f)))] @
      (if fn_environment f \<in> {''prod'', ''production''} then [(''production_environment'', VInt 10)] else []) @
      [(''downstream_impact'', VInt (downstream_bonus (fn_downstream_asset_count f))),
       (''recurrence'', VInt (recurrence_bonus recurrence)),
       (''confidence_adjustment'', VFloat (round_to (confidence_adjustment (fn_confidence f)) 2)),
       (''total_score'', VFloat (round_to (severity_score f recurrence) 2))])"

section \<open>Lifecycle\<close>

fun legal_transitions :: "incident_state \<Rightarrow> incident_state set" where
  "legal_transitions IsOpen = {IsAcknowledged, IsResolved, IsSuppressed}"
| "legal_transitions IsAcknowledged = {IsInvestigating, IsResolved, IsSuppressed}"
| "legal_transitions IsInvestigating = {IsMitigating, IsWaitingForApproval, IsMonitoringRecovery, IsSuppressed}"
| "legal_transitions IsMitigating = {IsWaitingForApproval, IsMonitoringRecovery, IsInvestigating}"
| "legal_transitions IsWaitingForApproval = {IsMitigating, IsInvestigating}"
| "legal_transitions IsMonitoringRecovery = {IsResolved, IsInvestigating}"
| "legal_transitions IsResolved = {IsClosed, IsReopened}"
| "legal_transitions IsReopened = {IsInvestigating, IsAcknowledged}"
| "legal_transitions IsSuppressed = {IsOpen, IsReopened}"
| "legal_transitions IsClosed = {IsReopened}"

definition reason_required :: "incident_state set" where
  "reason_required = {IsSuppressed, IsResolved, IsClosed, IsReopened}"

definition has_reason :: "string option \<Rightarrow> bool" where
  "has_reason r \<longleftrightarrow> (case r of None \<Rightarrow> False | Some s \<Rightarrow> \<not> blank s)"

definition transition :: "int \<Rightarrow> incident \<Rightarrow> incident_state \<Rightarrow> string option \<Rightarrow> py_error + incident" where
  "transition now i state reason =
     (if state \<notin> legal_transitions (in_incident_state i)
      then Inl (ValueError (''illegal incident transition: '' @ incident_state_str (in_incident_state i) @ '' -> '' @
             incident_state_str state))
      else if state \<in> reason_required \<and> \<not> has_reason reason
      then Inl (ValueError (''reason is required for transition to '' @ incident_state_str state))
      else Inr
        (let i1 = i\<lparr>in_incident_state := state, in_state_reason := reason, in_updated_at := now\<rparr>;
             i2 = (if state = IsAcknowledged then i1\<lparr>in_acknowledged_at := Some now\<rparr> else i1);
             i3 = (if state = IsResolved then i2\<lparr>in_resolved_at := Some now, in_resolution_reason := reason\<rparr> else i2);
             i4 = (if state = IsClosed then i3\<lparr>in_closed_at := Some now\<rparr> else i3)
         in if state = IsReopened
            then i4\<lparr>in_reopened_at := Some now, in_resolved_at := None, in_closed_at := None\<rparr> else i4))"

section \<open>Merging a finding into an incident\<close>

record merge_decision =
  md_incident :: incident
  md_changed :: bool
  md_reason :: string
  md_occurrence_added :: bool

definition same_evidence :: "vdict list \<Rightarrow> vdict list \<Rightarrow> bool" where
  "same_evidence a b \<longleftrightarrow> map (vnorm \<circ> VDict) a = map (vnorm \<circ> VDict) b"

text \<open>\<open>str(sorted(evidence, key=str))\<close>.\<close>

definition evidence_text :: "py_floats \<Rightarrow> vdict list \<Rightarrow> string" where
  "evidence_text pf evs = repr_value pf (VList (sort_key (py_str pf) (map VDict evs)))"

definition is_newer :: "incident \<Rightarrow> finding \<Rightarrow> bool" where
  "is_newer i f \<longleftrightarrow> (case in_last_observed_at i of None \<Rightarrow> True | Some t \<Rightarrow> t < fn_last_observed_at f)"

definition merged_assets :: "incident \<Rightarrow> finding \<Rightarrow> string list" where
  "merged_assets i f = sorted_set (in_affected_assets i @ [fn_asset_id f] @ fn_downstream_impact f)"

definition merged_occurrence :: "incident \<Rightarrow> finding \<Rightarrow> incident" where
  "merged_occurrence i f =
     (if fn_id f \<notin> set (in_finding_ids i)
      then i\<lparr>in_finding_ids := sorted_set (in_finding_ids i @ [fn_id f]),
             in_occurrence_count := in_occurrence_count i + 1\<rparr>
      else i)\<lparr>in_affected_assets := merged_assets i f\<rparr>"

text \<open>The observation part: the projected incident and whether it changed.\<close>

definition merged_observation :: "im_env \<Rightarrow> incident \<Rightarrow> finding \<Rightarrow> incident \<times> bool" where
  "merged_observation env m f =
     (if is_newer m f
      then (m\<lparr>in_last_observed_at := Some (fn_last_observed_at f), in_most_recent_evidence := fn_evidence f,
              in_impact_summary := Some (fn_summary f), in_owner_team := por (fn_owner_team f) (in_owner_team m),
              in_business_service := por (fn_business_service f) (in_business_service m)\<rparr>, True)
      else if fn_evidence f \<noteq> [] \<and> in_most_recent_evidence m = []
      then (m\<lparr>in_most_recent_evidence := fn_evidence f\<rparr>, True)
      else if in_last_observed_at m = Some (fn_last_observed_at f) \<and>
              \<not> same_evidence (fn_evidence f) (in_most_recent_evidence m) \<and>
              evidence_text (ie_floats env) (in_most_recent_evidence m) < evidence_text (ie_floats env) (fn_evidence f)
      then (m\<lparr>in_most_recent_evidence := fn_evidence f\<rparr>, True)
      else (m, False))"

definition decide_finding_merge :: "im_env \<Rightarrow> incident \<Rightarrow> finding \<Rightarrow> merge_decision" where
  "decide_finding_merge env i f =
     (let is_new = (fn_id f \<notin> set (in_finding_ids i));
          newer = is_newer i f;
          assets_changed = (merged_assets i f \<noteq> in_affected_assets i);
          (m1, projection_changed) = merged_observation env (merged_occurrence i f) f;
          m2 = (if is_new \<or> newer \<or> projection_changed
                then let (sev, factors) = calculate_severity f (in_occurrence_count m1)
                     in m1\<lparr>in_severity := sev, in_severity_factors := factors\<rparr>
                else m1)
      in if is_new then \<lparr>md_incident = m2, md_changed = True, md_reason = ''new_occurrence'', md_occurrence_added = True\<rparr>
         else if newer then \<lparr>md_incident = m2, md_changed = True, md_reason = ''newer_replay'', md_occurrence_added = False\<rparr>
         else if assets_changed \<or> projection_changed
         then \<lparr>md_incident = m2, md_changed = True, md_reason = ''projection_enrichment'', md_occurrence_added = False\<rparr>
         else \<lparr>md_incident = i, md_changed = False,
                md_reason = (case in_last_observed_at m2 of
                    None \<Rightarrow> ''exact_replay''
                  | Some t \<Rightarrow> if fn_last_observed_at f < t then ''stale_replay'' else ''exact_replay''),
                md_occurrence_added = False\<rparr>)"

definition merge_finding :: "im_env \<Rightarrow> incident \<Rightarrow> finding \<Rightarrow> incident" where
  "merge_finding env i f = md_incident (decide_finding_merge env i f)"

end
