(* ===== verification/IncidentMerge.thy ===== *)
theory IncidentMerge
  imports IncidentModel
begin

text \<open>
  What merging findings, scoring severity and moving through the lifecycle keep of an incident.

  \<^item> \<open>incident_ok\<close>: the occurrence count is the number of findings, the finding identifiers are strictly
    sorted and not empty, a state that needs a reason has one, a resolved or closed incident says when.
  \<^item> \<open>progress\<close>: the order every write of an incident follows: identity and scope stay, findings and assets
    only grow, the last observation only moves forward.
  \<^item> \<open>severity_mono\<close>, \<open>severity_bounds\<close>: the score through rounding.
\<close>

section \<open>Severity\<close>

fun severity_rank :: "severity \<Rightarrow> nat" where
  "severity_rank SvLow = 0"
| "severity_rank SvMedium = 1"
| "severity_rank SvHigh = 2"
| "severity_rank SvCritical = 3"

instantiation severity :: linorder
begin

definition less_eq_severity :: "severity \<Rightarrow> severity \<Rightarrow> bool" where
  "less_eq_severity a b \<longleftrightarrow> severity_rank a \<le> severity_rank b"

definition less_severity :: "severity \<Rightarrow> severity \<Rightarrow> bool" where
  "less_severity a b \<longleftrightarrow> severity_rank a < severity_rank b"

instance
proof
  fix a b c :: severity
  show "a < b \<longleftrightarrow> a \<le> b \<and> \<not> b \<le> a" by (auto simp: less_eq_severity_def less_severity_def)
  show "a \<le> a" by (simp add: less_eq_severity_def)
  show "a \<le> b \<Longrightarrow> b \<le> c \<Longrightarrow> a \<le> c" by (simp add: less_eq_severity_def)
  show "a \<le> b \<Longrightarrow> b \<le> a \<Longrightarrow> a = b" by (cases a; cases b) (simp_all add: less_eq_severity_def)
  show "a \<le> b \<or> b \<le> a" by (auto simp: less_eq_severity_def)
qed

end

lemma severity_level_mono: "x \<le> y \<Longrightarrow> severity_level x \<le> severity_level y"
  by (auto simp: severity_level_def less_eq_severity_def)

lemma recurrence_bonus_range: "0 \<le> recurrence_bonus n" "recurrence_bonus n \<le> 15"
  by (auto simp: recurrence_bonus_def)

lemma recurrence_bonus_mono: "m \<le> n \<Longrightarrow> recurrence_bonus m \<le> recurrence_bonus n"
  by (auto simp: recurrence_bonus_def min_def max_def)

lemma severity_score_mono: "m \<le> n \<Longrightarrow> severity_score f m \<le> severity_score f n"
  unfolding severity_score_def Let_def
  by (intro fl_mono add_mono order_refl) (simp_all add: recurrence_bonus_mono)

lemma severity_mono: "m \<le> n \<Longrightarrow> fst (calculate_severity f m) \<le> fst (calculate_severity f n)"
  unfolding calculate_severity_def fst_conv by (intro severity_level_mono severity_score_mono)

lemma fl_small: "\<bar>n\<bar> \<le> 1000 \<Longrightarrow> fl (of_int n) = of_int n"
  by (rule fl_int) simp

lemma confidence_range:
  assumes "0 \<le> c" and "c \<le> 1"
  shows "- 20 \<le> confidence_adjustment c" and "confidence_adjustment c \<le> 0"
proof -
  have "fl (of_int (- 1)) \<le> fl (c - 1)" and "fl (c - 1) \<le> fl 0"
    using assms by (intro fl_mono, simp)+
  then have lo: "- 1 \<le> fl (c - 1)" and hi: "fl (c - 1) \<le> 0" by (simp_all add: fl_small [of "- 1", simplified])
  then have "fl (of_int (- 20)) \<le> fl (fl (c - 1) * 20)" and "fl (fl (c - 1) * 20) \<le> fl 0"
    by (intro fl_mono, simp)+
  then show "- 20 \<le> confidence_adjustment c" and "confidence_adjustment c \<le> 0"
    by (simp_all add: confidence_adjustment_def fl_small [of "- 20", simplified])
qed

text \<open>The integer part of the score: base weight, production, downstream and recurrence.\<close>

definition exact_score :: "finding \<Rightarrow> int \<Rightarrow> int" where
  "exact_score f n = (case fn_severity f of SvLow \<Rightarrow> 10 | SvMedium \<Rightarrow> 30 | SvHigh \<Rightarrow> 60 | SvCritical \<Rightarrow> 90) +
     (if fn_environment f \<in> {''prod'', ''production''} then 10 else 0) +
     downstream_bonus (fn_downstream_asset_count f) + recurrence_bonus n"

lemma score_exact:
  assumes "0 \<le> fn_downstream_asset_count f"
  shows "severity_score f n = fl (of_int (exact_score f n) + confidence_adjustment (fn_confidence f))"
proof -
  define w where "w = (case fn_severity f of SvLow \<Rightarrow> 10 | SvMedium \<Rightarrow> 30 | SvHigh \<Rightarrow> 60 | SvCritical \<Rightarrow> (90 :: int))"
  define b where "b = (if fn_environment f \<in> {''prod'', ''production''} then 10 else (0 :: int))"
  define d where "d = downstream_bonus (fn_downstream_asset_count f)"
  define r where "r = recurrence_bonus n"
  have w: "severity_weight (fn_severity f) = of_int w" "0 \<le> w" "w \<le> 90"
    unfolding w_def by (cases "fn_severity f"; simp)+
  have b: "0 \<le> b" "b \<le> 10" by (auto simp: b_def)
  have d: "0 \<le> d" "d \<le> 20" using assms by (auto simp: d_def downstream_bonus_def)
  have r: "0 \<le> r" "r \<le> 15" by (simp_all add: r_def recurrence_bonus_range)
  have s1: "(if fn_environment f \<in> {''prod'', ''production''} then fl (of_int w + 10) else of_int w) = of_int (w + b)"
    using fl_small [of "w + 10"] w by (simp add: b_def)
  have s2: "fl (of_int (w + b) + fl (of_int d)) = of_int (w + b + d)"
    using fl_small [of "w + b + d"] fl_small [of d] w b d by simp
  have s3: "fl (of_int (w + b + d) + fl (of_int r)) = of_int (w + b + d + r)"
    using fl_small [of "w + b + d + r"] fl_small [of r] w b d r by simp
  have "exact_score f n = w + b + d + r"
    by (simp add: exact_score_def w_def b_def d_def r_def)
  then show ?thesis
    unfolding severity_score_def Let_def w(1) d_def [symmetric] r_def [symmetric] s1 s2 s3 by simp
qed

lemma severity_bounds:
  assumes "0 \<le> fn_downstream_asset_count f" and "0 \<le> fn_confidence f" and "fn_confidence f \<le> 1"
  shows "fn_severity f = SvCritical \<Longrightarrow> SvHigh \<le> severity_level (severity_score f n)"
    and "fn_severity f = SvLow \<Longrightarrow> severity_level (severity_score f n) \<le> SvMedium"
proof -
  note c = confidence_range [OF assms(2,3)]
  have d: "0 \<le> downstream_bonus (fn_downstream_asset_count f)" "downstream_bonus (fn_downstream_asset_count f) \<le> 20"
    using assms(1) by (auto simp: downstream_bonus_def)
  show "SvHigh \<le> severity_level (severity_score f n)" if "fn_severity f = SvCritical"
  proof -
    have "90 \<le> exact_score f n"
      using that d recurrence_bonus_range [of n] by (auto simp: exact_score_def)
    then have "fl (of_int 70) \<le> severity_score f n"
      unfolding score_exact [OF assms(1)] using c by (intro fl_mono) simp
    then show ?thesis using fl_small [of 70] by (simp add: severity_level_def less_eq_severity_def)
  qed
  show "severity_level (severity_score f n) \<le> SvMedium" if "fn_severity f = SvLow"
  proof -
    have "exact_score f n \<le> 55"
      using that d recurrence_bonus_range [of n] by (auto simp: exact_score_def)
    then have "severity_score f n \<le> fl (of_int 55)"
      unfolding score_exact [OF assms(1)] using c by (intro fl_mono) simp
    then show ?thesis using fl_small [of 55] by (simp add: severity_level_def less_eq_severity_def)
  qed
qed

section \<open>Well-formed incidents\<close>

definition incident_ok :: "incident \<Rightarrow> bool" where
  "incident_ok i \<longleftrightarrow>
     in_occurrence_count i = int (length (in_finding_ids i)) \<and> in_finding_ids i \<noteq> [] \<and>
     sorted (in_finding_ids i) \<and> distinct (in_finding_ids i) \<and>
     (in_incident_state i \<in> reason_required \<longrightarrow> has_reason (in_state_reason i)) \<and>
     (in_incident_state i = IsResolved \<longrightarrow> in_resolved_at i \<noteq> None \<and> in_resolution_reason i = in_state_reason i) \<and>
     (in_incident_state i = IsClosed \<longrightarrow> in_closed_at i \<noteq> None) \<and>
     (in_incident_state i = IsReopened \<longrightarrow> in_resolved_at i = None \<and> in_closed_at i = None \<and> in_reopened_at i \<noteq> None)"

definition in_scope :: "incident \<Rightarrow> string \<times> string \<times> string \<times> string" where
  "in_scope i = (in_id i, in_tenant_id i, in_environment i, in_deduplication_key i)"

definition progress :: "incident \<Rightarrow> incident \<Rightarrow> bool" where
  "progress i j \<longleftrightarrow> in_scope j = in_scope i \<and>
     set (in_finding_ids i) \<subseteq> set (in_finding_ids j) \<and> set (in_affected_assets i) \<subseteq> set (in_affected_assets j) \<and>
     (\<forall>t. in_last_observed_at i = Some t \<longrightarrow> (\<exists>u \<ge> t. in_last_observed_at j = Some u))"

lemma progress_refl [simp]: "progress i i"
  by (simp add: progress_def)

lemma progress_trans: "progress i j \<Longrightarrow> progress j k \<Longrightarrow> progress i k"
  unfolding progress_def by (metis order_trans)

lemmas merge_defs = merged_occurrence_def merged_observation_def decide_finding_merge_def

lemma observation_fields:
  "in_scope (fst (merged_observation env m f)) = in_scope m"
  "in_finding_ids (fst (merged_observation env m f)) = in_finding_ids m"
  "in_occurrence_count (fst (merged_observation env m f)) = in_occurrence_count m"
  "in_affected_assets (fst (merged_observation env m f)) = in_affected_assets m"
  "in_incident_state (fst (merged_observation env m f)) = in_incident_state m"
  "in_state_reason (fst (merged_observation env m f)) = in_state_reason m"
  "in_resolved_at (fst (merged_observation env m f)) = in_resolved_at m"
  "in_closed_at (fst (merged_observation env m f)) = in_closed_at m"
  "in_reopened_at (fst (merged_observation env m f)) = in_reopened_at m"
  "in_resolution_reason (fst (merged_observation env m f)) = in_resolution_reason m"
  "in_seq_no (fst (merged_observation env m f)) = in_seq_no m"
  "in_primary_term (fst (merged_observation env m f)) = in_primary_term m"
  "in_last_observed_at (fst (merged_observation env m f)) =
     (if is_newer m f then Some (fn_last_observed_at f) else in_last_observed_at m)"
  by (auto simp: merged_observation_def in_scope_def)

lemma occurrence_fields [simp]:
  "in_scope (merged_occurrence i f) = in_scope i"
  "in_affected_assets (merged_occurrence i f) = merged_assets i f"
  "in_incident_state (merged_occurrence i f) = in_incident_state i"
  "in_state_reason (merged_occurrence i f) = in_state_reason i"
  "in_resolved_at (merged_occurrence i f) = in_resolved_at i"
  "in_closed_at (merged_occurrence i f) = in_closed_at i"
  "in_reopened_at (merged_occurrence i f) = in_reopened_at i"
  "in_resolution_reason (merged_occurrence i f) = in_resolution_reason i"
  "in_seq_no (merged_occurrence i f) = in_seq_no i"
  "in_primary_term (merged_occurrence i f) = in_primary_term i"
  "in_last_observed_at (merged_occurrence i f) = in_last_observed_at i"
  "in_most_recent_evidence (merged_occurrence i f) = in_most_recent_evidence i"
  "in_impact_summary (merged_occurrence i f) = in_impact_summary i"
  "in_owner_team (merged_occurrence i f) = in_owner_team i"
  "in_business_service (merged_occurrence i f) = in_business_service i"
  by (simp_all add: merged_occurrence_def in_scope_def)

lemma newer_occurrence [simp]: "is_newer (merged_occurrence i f) g = is_newer i g"
  by (simp add: is_newer_def)

text \<open>The projected incident before its severity is scored.\<close>

definition merged :: "im_env \<Rightarrow> incident \<Rightarrow> finding \<Rightarrow> incident" where
  "merged env i f = fst (merged_observation env (merged_occurrence i f) f)"

lemma merged_fields [simp]:
  "in_scope (merged env i f) = in_scope i"
  "in_affected_assets (merged env i f) = merged_assets i f"
  "in_incident_state (merged env i f) = in_incident_state i"
  "in_state_reason (merged env i f) = in_state_reason i"
  "in_resolved_at (merged env i f) = in_resolved_at i"
  "in_closed_at (merged env i f) = in_closed_at i"
  "in_reopened_at (merged env i f) = in_reopened_at i"
  "in_resolution_reason (merged env i f) = in_resolution_reason i"
  "in_seq_no (merged env i f) = in_seq_no i"
  "in_primary_term (merged env i f) = in_primary_term i"
  "in_last_observed_at (merged env i f) =
     (if is_newer i f then Some (fn_last_observed_at f) else in_last_observed_at i)"
  by (simp_all add: merged_def observation_fields)

lemma merged_occurrences:
  "in_finding_ids (merged env i f) =
     (if fn_id f \<in> set (in_finding_ids i) then in_finding_ids i else sorted_set (in_finding_ids i @ [fn_id f]))"
  "in_occurrence_count (merged env i f) =
     in_occurrence_count i + (if fn_id f \<in> set (in_finding_ids i) then 0 else 1)"
  by (simp_all add: merged_def observation_fields merged_occurrence_def)

lemma decide_cases:
  obtains (same) "md_incident (decide_finding_merge env i f) = i" and "\<not> md_changed (decide_finding_merge env i f)"
      and "fn_id f \<in> set (in_finding_ids i)" and "\<not> is_newer i f" and "merged_assets i f = in_affected_assets i"
      and "\<not> snd (merged_observation env (merged_occurrence i f) f)"
  | (new) sev factors where "md_changed (decide_finding_merge env i f)"
      and "md_incident (decide_finding_merge env i f) = (merged env i f)\<lparr>in_severity := sev, in_severity_factors := factors\<rparr>"
proof (cases "md_changed (decide_finding_merge env i f)")
  case False
  then show ?thesis
    by (intro same) (auto simp: decide_finding_merge_def Let_def case_prod_beta split: if_splits)
next
  case True
  let ?m = "merged env i f"
  have "md_incident (decide_finding_merge env i f) = ?m\<lparr>in_severity := in_severity ?m, in_severity_factors := in_severity_factors ?m\<rparr> \<or>
      (\<exists>sev factors. md_incident (decide_finding_merge env i f) = ?m\<lparr>in_severity := sev, in_severity_factors := factors\<rparr>)"
    using True by (auto simp: decide_finding_merge_def Let_def case_prod_beta merged_def split: if_splits)
  with new [OF True] show ?thesis by blast
qed

lemma scope_severity [simp]: "in_scope (i\<lparr>in_severity := sev, in_severity_factors := factors\<rparr>) = in_scope i"
  by (simp add: in_scope_def)

lemma merged_ok:
  assumes "incident_ok i"
  shows "incident_ok (merged env i f)"
proof -
  have "length (sorted_set (in_finding_ids i @ [fn_id f])) = Suc (length (in_finding_ids i))"
    if "fn_id f \<notin> set (in_finding_ids i)"
    using that assms by (simp add: length_sorted_set incident_ok_def distinct_card)
  moreover have "sorted_set (in_finding_ids i @ [fn_id f]) \<noteq> []"
    by (metis append_is_Nil_conv list.distinct(1) set_empty set_sorted_set)
  ultimately show ?thesis using assms by (simp add: incident_ok_def merged_occurrences)
qed

lemma merge_ok: "incident_ok i \<Longrightarrow> incident_ok (md_incident (decide_finding_merge env i f))"
proof (cases rule: decide_cases [of env i f])
  case (new sev factors)
  assume "incident_ok i"
  from merged_ok [OF this, of env f] new show ?thesis by (simp add: incident_ok_def)
qed simp

lemma merged_progress: "progress i (merged env i f)"
  by (auto simp: progress_def merged_occurrences merged_assets_def is_newer_def)

lemma merge_progress: "progress i (md_incident (decide_finding_merge env i f))"
proof (cases rule: decide_cases [of env i f])
  case (new sev factors)
  with merged_progress [of i env f] show ?thesis by (simp add: progress_def)
qed simp

lemma merge_keeps:
  "in_incident_state (md_incident (decide_finding_merge env i f)) = in_incident_state i"
  "in_seq_no (md_incident (decide_finding_merge env i f)) = in_seq_no i"
  "in_primary_term (md_incident (decide_finding_merge env i f)) = in_primary_term i"
  "fn_id f \<in> set (in_finding_ids (md_incident (decide_finding_merge env i f)))"
  by (cases rule: decide_cases [of env i f]; simp add: merged_occurrences)+

section \<open>Replays\<close>

lemma merged_again:
  assumes "f' = f" and "j = (merged env i f)\<lparr>in_severity := sev, in_severity_factors := factors\<rparr>"
  shows "fn_id f' \<in> set (in_finding_ids j)" and "\<not> is_newer j f'" and "merged_assets j f' = in_affected_assets j"
    and "\<not> snd (merged_observation env (merged_occurrence j f') f')"
proof -
  show "fn_id f' \<in> set (in_finding_ids j)" and "\<not> is_newer j f'"
    by (auto simp: assms merged_occurrences is_newer_def)
  then have ids: "merged_occurrence j f' = j\<lparr>in_affected_assets := merged_assets j f'\<rparr>"
    by (simp add: merged_occurrence_def)
  show "merged_assets j f' = in_affected_assets j"
    by (simp add: assms merged_assets_def sorted_set_def sort_key_id_if_sorted) 
      (rule sorted_distinct_set_unique; auto)
  show "\<not> snd (merged_observation env (merged_occurrence j f') f')"
    using \<open>\<not> is_newer j f'\<close> unfolding assms
    by (auto simp: merged_observation_def merged_def same_evidence_def split: if_splits)
qed

lemma decide_unchanged:
  assumes "fn_id f \<in> set (in_finding_ids i)" and "\<not> is_newer i f" and "merged_assets i f = in_affected_assets i"
    and "\<not> snd (merged_observation env (merged_occurrence i f) f)"
  shows "\<not> md_changed (decide_finding_merge env i f)" and "md_incident (decide_finding_merge env i f) = i"
  using assms by (simp_all add: decide_finding_merge_def Let_def case_prod_beta)

lemma transition_cases:
  assumes "transition now i state reason = Inr j"
  shows "state \<in> legal_transitions (in_incident_state i)" and "state \<in> reason_required \<Longrightarrow> has_reason reason"
    and "in_incident_state j = state" and "in_state_reason j = reason" and "in_scope j = in_scope i"
    and "in_finding_ids j = in_finding_ids i" and "in_occurrence_count j = in_occurrence_count i"
    and "in_affected_assets j = in_affected_assets i" and "in_last_observed_at j = in_last_observed_at i"
    and "in_seq_no j = in_seq_no i" and "in_primary_term j = in_primary_term i"
    and "state = IsResolved \<Longrightarrow> in_resolved_at j = Some now \<and> in_resolution_reason j = reason"
    and "state = IsClosed \<Longrightarrow> in_closed_at j = Some now"
    and "state = IsReopened \<Longrightarrow> in_resolved_at j = None \<and> in_closed_at j = None \<and> in_reopened_at j = Some now"
  using assms by (auto simp: transition_def Let_def in_scope_def reason_required_def split: if_splits)

lemma transition_ok: "incident_ok i \<Longrightarrow> transition now i state reason = Inr j \<Longrightarrow> incident_ok j"
  using transition_cases [of now i state reason j] by (auto simp: incident_ok_def)

lemma transition_progress: "transition now i state reason = Inr j \<Longrightarrow> progress i j"
  using transition_cases [of now i state reason j] by (auto simp: progress_def)

end
