(* ===== verification/FloodControl.thy ===== *)
theory FloodControl
  imports Floats
begin

text \<open>
  \<open>services/incident_manager/flood_control\<close>: the windows of an event storm and the decision whether one more
  event of a group of incidents notifies, escalates or is coalesced.

  \<open>flood_event\<close>, \<open>flood_window\<close>, \<open>flood_decision\<close> and \<open>flood_policy\<close> are the dataclasses of
  \<open>contracts.py\<close> and \<open>policy.py\<close>; \<open>evaluate_flood\<close> is the function of \<open>evaluator.py\<close>, split at its
  paragraphs. Instants are microseconds, rates are doubles (theory \<open>Floats\<close>).
\<close>

section \<open>Contracts\<close>

datatype flood_state = FsNormal | FsElevated | FsFlooding | FsRecovering | FsClosed

fun flood_state_str :: "flood_state \<Rightarrow> string" where
  "flood_state_str FsNormal = ''normal''"
| "flood_state_str FsElevated = ''elevated''"
| "flood_state_str FsFlooding = ''flooding''"
| "flood_state_str FsRecovering = ''recovering''"
| "flood_state_str FsClosed = ''closed''"

record flood_event =
  fe_event_id :: string
  fe_occurred_at :: int
  fe_incident_id :: string
  fe_asset_id :: "string option"
  fe_source :: "string option"
  fe_severity :: string
  fe_data_loss_risk :: bool
  fe_business_services :: "string list"
  fe_data_products :: "string list"
  fe_region :: "string option"
  fe_account :: "string option"
  fe_cluster :: "string option"
  fe_failure_family :: "string option"
  fe_retention_loss_risk :: bool
  fe_business_impact_confirmed :: bool
  fe_representative_valid :: bool

record flood_window =
  fw_flood_id :: string
  fw_tenant_id :: string
  fw_environment :: string
  fw_group_id :: string
  fw_state :: flood_state
  fw_events :: "(string \<times> flood_event) list"
  fw_suppressed_notification_count :: int
  fw_last_transition_at :: "int option"

text \<open>\<open>FloodWindow(flood_id, tenant_id, environment, group_id)\<close> with its defaults.\<close>

definition new_window :: "string \<Rightarrow> string \<Rightarrow> string \<Rightarrow> string \<Rightarrow> flood_window" where
  "new_window flood_id tenant env group_id = \<lparr>fw_flood_id = flood_id, fw_tenant_id = tenant,
     fw_environment = env, fw_group_id = group_id, fw_state = FsNormal, fw_events = [],
     fw_suppressed_notification_count = 0, fw_last_transition_at = None\<rparr>"

record flood_decision =
  fd_prior_state :: flood_state
  fd_new_state :: flood_state
  fd_notification_decision :: string
  fd_reason_codes :: "string list"
  fd_observed :: "(string \<times> rat) list"
  fd_thresholds :: "(string \<times> rat) list"
  fd_window_start :: int
  fd_window_end :: int
  fd_policy_version :: string
  fd_evidence_references :: "string list"

record flood_policy =
  fp_version :: string
  fp_observation_seconds :: int
  fp_elevated_count :: int
  fp_flooding_count :: int
  fp_event_rate_per_minute :: rat
  fp_unique_asset_threshold :: int
  fp_unique_source_threshold :: int
  fp_quiet_period_seconds :: int
  fp_hysteresis_count :: int
  fp_maximum_events :: int

definition v1_flood_policy :: flood_policy where
  "v1_flood_policy = \<lparr>fp_version = ''v1'', fp_observation_seconds = 300, fp_elevated_count = 10,
     fp_flooding_count = 25, fp_event_rate_per_minute = 10, fp_unique_asset_threshold = 10,
     fp_unique_source_threshold = 5, fp_quiet_period_seconds = 600, fp_hysteresis_count = 5,
     fp_maximum_events = 1000\<rparr>"

section \<open>The decision\<close>

text \<open>\<open>if s\<close> on an optional string, and the members of a generator kept by it.\<close>

definition given :: "string option \<Rightarrow> bool" where
  "given s \<longleftrightarrow> s \<noteq> None \<and> s \<noteq> Some []"

fun given_values :: "string option list \<Rightarrow> string list" where
  "given_values [] = []"
| "given_values (None # xs) = given_values xs"
| "given_values (Some v # xs) = (if v = [] then given_values xs else v # given_values xs)"

definition event_order :: "flood_event \<Rightarrow> int \<times> string" where
  "event_order e = (fe_occurred_at e, fe_event_id e)"

text \<open>\<open>xs[-n:]\<close>, which is the whole list for \<open>n = 0\<close>.\<close>

definition slice_last :: "int \<Rightarrow> 'a list \<Rightarrow> 'a list" where
  "slice_last n xs = (if 0 < n then drop (length xs - nat n) xs else drop (nat (- n)) xs)"

definition set_default :: "flood_event \<Rightarrow> (string \<times> flood_event) list \<Rightarrow> (string \<times> flood_event) list" where
  "set_default e evs = (if dget evs (fe_event_id e) = None then dput (fe_event_id e) e evs else evs)"

definition retained_events :: "flood_policy \<Rightarrow> (string \<times> flood_event) list \<Rightarrow> (string \<times> flood_event) list" where
  "retained_events p evs =
     (if fp_maximum_events p < int (length evs)
      then fold (\<lambda>e d. dput (fe_event_id e) e d)
             (slice_last (fp_maximum_events p) (sort_key event_order (dvals evs))) []
      else evs)"

definition flag :: "bool \<Rightarrow> string \<Rightarrow> string list" where
  "flag b code = (if b then [code] else [])"

definition opt_single :: "string option \<Rightarrow> string list" where
  "opt_single s = given_values [s]"

definition adds_new :: "string list \<Rightarrow> string list \<Rightarrow> bool" where
  "adds_new incoming previous \<longleftrightarrow> incoming \<noteq> [] \<and> \<not> set incoming \<subseteq> set (filter (\<lambda>v. v \<noteq> []) previous)"

definition bypass_reasons :: "flood_event list \<Rightarrow> flood_event \<Rightarrow> string list" where
  "bypass_reasons existing e =
     flag (fe_severity e = ''critical'') ''critical_severity'' @
     flag (fe_data_loss_risk e) ''suspected_data_loss'' @
     flag (fe_retention_loss_risk e) ''imminent_retention_loss'' @
     flag (fe_business_impact_confirmed e) ''confirmed_business_impact'' @
     flag (\<not> fe_representative_valid e) ''invalid_representative_incident'' @
     flag (adds_new (fe_data_products e) (concat (map fe_data_products existing))) ''new_critical_data_product'' @
     flag (adds_new (fe_business_services e) (concat (map fe_business_services existing)))
       ''new_critical_business_service'' @
     flag (adds_new (opt_single (fe_region e)) (given_values (map fe_region existing))) ''new_region'' @
     flag (adds_new (opt_single (fe_account e)) (given_values (map fe_account existing))) ''new_account'' @
     flag (adds_new (opt_single (fe_cluster e)) (given_values (map fe_cluster existing))) ''new_cluster'' @
     flag (adds_new (opt_single (fe_failure_family e)) (given_values (map fe_failure_family existing)))
       ''new_failure_family'' @
     flag (given (fe_asset_id e) \<and> given_values (map fe_asset_id existing) \<noteq> [] \<and>
           the (fe_asset_id e) \<notin> set (given_values (map fe_asset_id existing)))
       ''materially_expanded_asset_scope''"

definition event_rate :: "flood_policy \<Rightarrow> nat \<Rightarrow> rat" where
  "event_rate p count =
     fl (of_nat count / max (fl (of_int (fp_observation_seconds p) / 60)) (fl (1 / 60)))"

text \<open>
  The state after the event and the reason for it, from the state before, the counts of the observation
  window and the quiet time the caller may pass.
\<close>

definition next_flood_state ::
  "flood_policy \<Rightarrow> flood_state \<Rightarrow> int option \<Rightarrow> int option \<Rightarrow> nat \<Rightarrow> rat \<Rightarrow> nat \<Rightarrow> nat \<Rightarrow> flood_state \<times> string" where
  "next_flood_state p prior since quiet_at count rate assets sources =
     (if fp_flooding_count p \<le> int count \<or> fp_event_rate_per_minute p \<le> rate \<or>
         fp_unique_asset_threshold p \<le> int assets
      then (FsFlooding, ''flood_threshold_reached'')
      else if fp_elevated_count p \<le> int count \<or> fp_unique_source_threshold p \<le> int sources
      then (FsElevated, ''elevated_threshold_reached'')
      else if prior = FsFlooding \<or> prior = FsElevated then (FsRecovering, ''below_threshold_recovering'')
      else if prior = FsRecovering \<and> fp_hysteresis_count p < int count then (FsRecovering, ''hysteresis_hold'')
      else if prior = FsRecovering \<and>
              (case (quiet_at, since) of (Some q, Some t) \<Rightarrow> t + fp_quiet_period_seconds p * 1000000 \<le> q | _ \<Rightarrow> False)
      then (FsClosed, ''quiet_period_closed'')
      else (FsNormal, ''below_threshold''))"

definition window_end :: "(string \<times> flood_event) list \<Rightarrow> int" where
  "window_end evs = Max (fe_occurred_at ` set (dvals evs))"

definition window_start :: "flood_policy \<Rightarrow> (string \<times> flood_event) list \<Rightarrow> int" where
  "window_start p evs = window_end evs - fp_observation_seconds p * 1000000"

definition active_events :: "flood_policy \<Rightarrow> (string \<times> flood_event) list \<Rightarrow> flood_event list" where
  "active_events p evs = sort_key event_order
     (filter (\<lambda>x. window_start p evs \<le> fe_occurred_at x \<and> fe_occurred_at x \<le> window_end evs) (dvals evs))"

definition evaluate_flood ::
  "flood_window \<Rightarrow> flood_event \<Rightarrow> flood_policy \<Rightarrow> int option \<Rightarrow> flood_decision \<times> flood_window" where
  "evaluate_flood w e p quiet_at =
     (let prior = fw_state w;
          replay = dget (fw_events w) (fe_event_id e) \<noteq> None;
          existing = dvals (fw_events w);
          evs = set_default e (fw_events w);
          end_at = window_end evs;
          start_at = window_start p evs;
          active = active_events p evs;
          count = length active;
          assets = card (set (given_values (map fe_asset_id active)));
          sources = card (set (given_values (map fe_source active)));
          rate = event_rate p count;
          bypass = bypass_reasons existing e;
          (state, reason) = next_flood_state p prior (fw_last_transition_at w) quiet_at count rate assets sources;
          coalesced = (state = FsFlooding \<and> bypass = [] \<and> \<not> replay)
      in (\<lparr>fd_prior_state = prior, fd_new_state = state,
           fd_notification_decision =
             (if coalesced then ''coalesce'' else if bypass \<noteq> [] then ''escalate'' else ''notify''),
           fd_reason_codes = bypass @ [reason],
           fd_observed = [(''count'', of_nat count), (''rate_per_minute'', rate),
             (''unique_assets'', of_nat assets), (''unique_sources'', of_nat sources)],
           fd_thresholds = [(''elevated_count'', of_int (fp_elevated_count p)),
             (''flooding_count'', of_int (fp_flooding_count p)),
             (''rate_per_minute'', fp_event_rate_per_minute p),
             (''unique_assets'', of_int (fp_unique_asset_threshold p))],
           fd_window_start = start_at, fd_window_end = end_at, fd_policy_version = fp_version p,
           fd_evidence_references = map fe_event_id (slice_last 50 active)\<rparr>,
          w\<lparr>fw_state := state, fw_events := retained_events p evs,
            fw_suppressed_notification_count :=
              fw_suppressed_notification_count w + (if coalesced then 1 else 0),
            fw_last_transition_at := (if state \<noteq> prior then Some end_at else fw_last_transition_at w)\<rparr>))"

section \<open>What a decision says\<close>

lemma given_values_mem [simp]: "v \<in> set (given_values xs) \<longleftrightarrow> Some v \<in> set xs \<and> v \<noteq> []"
  by (induction xs rule: given_values.induct) auto

lemma flag_empty [simp]: "flag b code = [] \<longleftrightarrow> \<not> b"
  by (simp add: flag_def)

lemma evaluate_fields:
  "fd_notification_decision (fst (evaluate_flood w e p q)) =
      (if fd_new_state (fst (evaluate_flood w e p q)) = FsFlooding \<and> bypass_reasons (dvals (fw_events w)) e = [] \<and>
          dget (fw_events w) (fe_event_id e) = None then ''coalesce''
       else if bypass_reasons (dvals (fw_events w)) e \<noteq> [] then ''escalate'' else ''notify'')"
  "fw_state (snd (evaluate_flood w e p q)) = fd_new_state (fst (evaluate_flood w e p q))"
  "fw_events (snd (evaluate_flood w e p q)) = retained_events p (set_default e (fw_events w))"
  "fw_suppressed_notification_count (snd (evaluate_flood w e p q)) = fw_suppressed_notification_count w +
      (if fd_new_state (fst (evaluate_flood w e p q)) = FsFlooding \<and> bypass_reasons (dvals (fw_events w)) e = [] \<and>
          dget (fw_events w) (fe_event_id e) = None then 1 else 0)"
  by (simp_all add: evaluate_flood_def Let_def case_prod_beta)

lemma evaluate_notification:
  assumes "evaluate_flood w e p q = (d, w')"
  shows "fd_notification_decision d =
      (if fd_new_state d = FsFlooding \<and> bypass_reasons (dvals (fw_events w)) e = [] \<and>
          dget (fw_events w) (fe_event_id e) = None then ''coalesce''
       else if bypass_reasons (dvals (fw_events w)) e \<noteq> [] then ''escalate'' else ''notify'')"
  using evaluate_fields(1) [of w e p q] by (simp add: assms)

lemma evaluate_window:
  assumes "evaluate_flood w e p q = (d, w')"
  shows "fw_state w' = fd_new_state d"
    and "fw_events w' = retained_events p (set_default e (fw_events w))"
    and "fw_suppressed_notification_count w' =
      fw_suppressed_notification_count w + (if fd_notification_decision d = ''coalesce'' then 1 else 0)"
  using evaluate_fields [of w e p q] by (auto simp: assms)

text \<open>An event that brings nothing the earlier events of the window did not bring.\<close>

definition brings_nothing_new :: "flood_event list \<Rightarrow> flood_event \<Rightarrow> bool" where
  "brings_nothing_new known e \<longleftrightarrow>
     (\<forall>v \<in> set (fe_data_products e). \<exists>x \<in> set known. v \<in> set (fe_data_products x)) \<and>
     (\<forall>v \<in> set (fe_business_services e). \<exists>x \<in> set known. v \<in> set (fe_business_services x)) \<and>
     (given (fe_region e) \<longrightarrow> (\<exists>x \<in> set known. fe_region x = fe_region e)) \<and>
     (given (fe_account e) \<longrightarrow> (\<exists>x \<in> set known. fe_account x = fe_account e)) \<and>
     (given (fe_cluster e) \<longrightarrow> (\<exists>x \<in> set known. fe_cluster x = fe_cluster e)) \<and>
     (given (fe_failure_family e) \<longrightarrow> (\<exists>x \<in> set known. fe_failure_family x = fe_failure_family e)) \<and>
     (given (fe_asset_id e) \<longrightarrow>
        (\<exists>x \<in> set known. fe_asset_id x = fe_asset_id e) \<or> \<not> (\<exists>x \<in> set known. given (fe_asset_id x)))"

lemma not_adds_new: "\<not> adds_new xs ys \<Longrightarrow> v \<in> set xs \<Longrightarrow> v \<in> set ys"
  by (auto simp: adds_new_def)

lemma not_adds_single:
  assumes "\<not> adds_new (opt_single s) (given_values (map f known))" and "given s"
  shows "\<exists>x \<in> set known. f x = s"
  using assms not_adds_new [of "opt_single s" "given_values (map f known)" "the s"]
  by (cases s) (auto simp: opt_single_def given_def)

lemma bypass_empty:
  assumes "bypass_reasons known e = []"
  shows "fe_severity e \<noteq> ''critical''" and "\<not> fe_data_loss_risk e" and "\<not> fe_retention_loss_risk e"
    and "\<not> fe_business_impact_confirmed e" and "fe_representative_valid e"
    and "brings_nothing_new known e"
proof -
  from assms show "fe_severity e \<noteq> ''critical''" and "\<not> fe_data_loss_risk e" and "\<not> fe_retention_loss_risk e"
    and "\<not> fe_business_impact_confirmed e" and "fe_representative_valid e"
    by (simp_all add: bypass_reasons_def)
  from assms have "\<not> adds_new (fe_data_products e) (concat (map fe_data_products known))"
    and "\<not> adds_new (fe_business_services e) (concat (map fe_business_services known))"
    by (simp_all add: bypass_reasons_def)
  note lists = this [THEN not_adds_new]
  from assms have "\<not> adds_new (opt_single (fe_region e)) (given_values (map fe_region known))"
    and "\<not> adds_new (opt_single (fe_account e)) (given_values (map fe_account known))"
    and "\<not> adds_new (opt_single (fe_cluster e)) (given_values (map fe_cluster known))"
    and "\<not> adds_new (opt_single (fe_failure_family e)) (given_values (map fe_failure_family known))"
    by (simp_all add: bypass_reasons_def)
  note singles = this [THEN not_adds_single]
  from assms have asset: "given (fe_asset_id e) \<longrightarrow> given_values (map fe_asset_id known) = [] \<or>
      the (fe_asset_id e) \<in> set (given_values (map fe_asset_id known))"
    by (simp add: bypass_reasons_def)
  have none: "given_values (map fe_asset_id known) = [] \<Longrightarrow> \<not> (\<exists>x \<in> set known. given (fe_asset_id x))"
    by (metis (no_types, lifting) empty_iff given_def given_values_mem image_eqI list.set(1) list.set_map not_None_eq)
  have "given (fe_asset_id e) \<longrightarrow>
      (\<exists>x \<in> set known. fe_asset_id x = fe_asset_id e) \<or> \<not> (\<exists>x \<in> set known. given (fe_asset_id x))"
    using asset none by (auto simp: given_def)
  with lists singles show "brings_nothing_new known e"
    unfolding brings_nothing_new_def by auto
qed

section \<open>Runs\<close>

text \<open>Events evaluated one after the other, with the identifiers of the coalesced ones.\<close>

fun flood_run :: "flood_policy \<Rightarrow> flood_window \<Rightarrow> (flood_event \<times> int option) list \<Rightarrow> string list \<times> flood_window" where
  "flood_run p w [] = ([], w)"
| "flood_run p w ((e, q) # es) =
     (let (d, w1) = evaluate_flood w e p q; (ids, w2) = flood_run p w1 es
      in (if fd_notification_decision d = ''coalesce'' then fe_event_id e # ids else ids, w2))"

definition event_ids :: "flood_window \<Rightarrow> string set" where
  "event_ids w = fst ` set (fw_events w)"

lemma set_default_keys: "fst ` set (set_default e evs) = insert (fe_event_id e) (fst ` set evs)"
  by (auto simp: set_default_def dput_keys) (metis image_eqI map_of_SomeD fst_conv)+

lemma set_default_distinct: "distinct (map fst evs) \<Longrightarrow> distinct (map fst (set_default e evs))"
  by (simp add: set_default_def distinct_dput)

lemma nothing_evicted:
  assumes "distinct (map fst evs)" and "fst ` set evs \<subseteq> S" and "finite S" and "int (card S) \<le> fp_maximum_events p"
  shows "retained_events p evs = evs"
proof -
  have "length evs = card (fst ` set evs)"
    using distinct_card [OF assms(1)] by simp
  also have "\<dots> \<le> card S" using assms(2,3) by (intro card_mono) auto
  finally show ?thesis using assms(4) by (simp add: retained_events_def)
qed

lemma flood_run_counts:
  assumes "distinct (map fst (fw_events w))" and "event_ids w \<union> fe_event_id ` fst ` set es \<subseteq> S"
    and "finite S" and "int (card S) \<le> fp_maximum_events p" and "flood_run p w es = (ids, w')"
  shows "distinct ids \<and> set ids \<inter> event_ids w = {} \<and> set ids \<subseteq> fe_event_id ` fst ` set es \<and>
         fw_suppressed_notification_count w' = fw_suppressed_notification_count w + int (length ids)"
  using assms(1,2,5)
proof (induction es arbitrary: w ids)
  case (Cons eq es)
  obtain e q where eq: "eq = (e, q)" by fastforce
  obtain d w1 where ev: "evaluate_flood w e p q = (d, w1)" by fastforce
  obtain ids1 where run: "flood_run p w1 es = (ids1, w')" and
    ids: "ids = (if fd_notification_decision d = ''coalesce'' then fe_event_id e # ids1 else ids1)"
    using Cons.prems(3) by (auto simp: eq ev split: prod.splits if_splits)
  have keys: "fst ` set (set_default e (fw_events w)) \<subseteq> S"
    using Cons.prems(2) by (auto simp: set_default_keys event_ids_def eq)
  have evs: "fw_events w1 = set_default e (fw_events w)"
    using nothing_evicted [OF set_default_distinct [OF Cons.prems(1)] keys assms(3,4)] evaluate_window(2) [OF ev]
    by simp
  have ids1: "event_ids w1 = insert (fe_event_id e) (event_ids w)"
    by (simp add: event_ids_def evs set_default_keys)
  have "distinct ids1 \<and> set ids1 \<inter> event_ids w1 = {} \<and> set ids1 \<subseteq> fe_event_id ` fst ` set es \<and>
      fw_suppressed_notification_count w' = fw_suppressed_notification_count w1 + int (length ids1)"
    using Cons.prems(1,2) by (intro Cons.IH [OF _ _ run]) (auto simp: evs set_default_distinct ids1 eq)
  moreover have "fe_event_id e \<notin> event_ids w" if "fd_notification_decision d = ''coalesce''"
    using that evaluate_notification [OF ev]
    by (auto simp: event_ids_def map_of_eq_None_iff split: if_splits)
  ultimately show ?case
    using evaluate_window(3) [OF ev] by (auto simp: ids ids1 eq)
qed simp

text \<open>Whether an event finds a storm depends on the events it meets, not on their order or the state before.\<close>

definition storm :: "flood_policy \<Rightarrow> (string \<times> flood_event) list \<Rightarrow> bool" where
  "storm p evs \<longleftrightarrow>
     fp_flooding_count p \<le> int (length (active_events p evs)) \<or>
     fp_event_rate_per_minute p \<le> event_rate p (length (active_events p evs)) \<or>
     fp_unique_asset_threshold p \<le> int (card (set (given_values (map fe_asset_id (active_events p evs)))))"

lemma evaluate_storm:
  "fd_new_state (fst (evaluate_flood w e p q)) = FsFlooding \<longleftrightarrow> storm p (set_default e (fw_events w))"
  by (simp add: evaluate_flood_def Let_def case_prod_beta next_flood_state_def storm_def)

lemma given_values_set: "set xs = set ys \<Longrightarrow> set (given_values (map f xs)) = set (given_values (map f ys))"
  by (rule set_eqI) simp

lemma bypass_set: "set known = set known' \<Longrightarrow> bypass_reasons known e = bypass_reasons known' e"
proof -
  assume eq: "set known = set known'"
  have given: "set (given_values (map f known)) = set (given_values (map f known'))" for f :: "flood_event \<Rightarrow> string option"
    using eq by (rule given_values_set)
  have nil: "given_values (map f known) = [] \<longleftrightarrow> given_values (map f known') = []" for f :: "flood_event \<Rightarrow> string option"
    using given [of f] by (metis set_empty)
  have adds: "adds_new xs ys = adds_new xs zs" if "set ys = set zs" for xs ys zs
    using that by (simp add: adds_new_def)
  have cat: "set (concat (map f known)) = set (concat (map f known'))" for f :: "flood_event \<Rightarrow> string list"
    using eq by simp
  show ?thesis
    unfolding bypass_reasons_def given nil adds [OF cat] adds [OF given] ..
qed

lemma storm_set:
  assumes "distinct evs" and "distinct evs'" and "set evs = set evs'"
  shows "storm p evs = storm p evs'"
proof -
  have e: "window_end evs = window_end evs'" and s: "window_start p evs = window_start p evs'"
    using assms(3) by (simp_all add: window_end_def window_start_def)
  have set: "set (active_events p evs) = set (active_events p evs')"
    using assms(3) by (simp add: active_events_def e s)
  have len: "length (active_events p d) =
      card {x \<in> set d. window_start p d \<le> fe_occurred_at (snd x) \<and> fe_occurred_at (snd x) \<le> window_end d}"
    if "distinct d" for d
    using distinct_card [OF distinct_filter [OF that]]
    by (simp add: active_events_def filter_map comp_def)
  have "set (given_values (map fe_asset_id (active_events p evs))) = set (given_values (map fe_asset_id (active_events p evs')))"
    using set by (rule given_values_set)
  with len [OF assms(1)] len [OF assms(2)] assms(3) show ?thesis
    by (simp add: storm_def e s)
qed

section \<open>Events that fall out of a full window\<close>

text \<open>A full window and an event older than all of its events: the event is counted and then dropped.\<close>

definition full_and_newer :: "flood_policy \<Rightarrow> flood_window \<Rightarrow> flood_event \<Rightarrow> bool" where
  "full_and_newer p w e \<longleftrightarrow>
     0 < fp_maximum_events p \<and> int (length (fw_events w)) = fp_maximum_events p \<and>
     distinct (map fst (fw_events w)) \<and>
     (\<forall>(k, x) \<in> set (fw_events w). k = fe_event_id x \<and> k \<noteq> fe_event_id e \<and> fe_occurred_at e < fe_occurred_at x)"

lemma fold_dput_fresh:
  "distinct (map fst d @ map fe_event_id xs) \<Longrightarrow>
   fold (\<lambda>e d. dput (fe_event_id e) e d) xs d = d @ map (\<lambda>x. (fe_event_id x, x)) xs"
proof (induction xs arbitrary: d)
  case (Cons x xs)
  then have "dput (fe_event_id x) x d = d @ [(fe_event_id x, x)]"
    by (intro dput_fresh) auto
  with Cons show ?case by simp
qed simp

lemma sort_key_least: "\<forall>y \<in> set ys. f x < f y \<Longrightarrow> sort_key f (ys @ [x]) = x # sort_key f ys"
  by (induction ys) (auto simp: insort_key_def)

lemma dropped_event:
  assumes "full_and_newer p w e" and "evaluate_flood w e p q = (d, w')"
  shows "set (fw_events w') = set (fw_events w)" and "full_and_newer p w' e"
proof -
  let ?evs = "fw_events w"
  have len: "int (length ?evs) = fp_maximum_events p" and dist: "distinct (map fst ?evs)"
    and key: "\<And>k x. (k, x) \<in> set ?evs \<Longrightarrow> k = fe_event_id x"
    and id: "\<And>k x. (k, x) \<in> set ?evs \<Longrightarrow> k \<noteq> fe_event_id e"
    and old: "\<And>k x. (k, x) \<in> set ?evs \<Longrightarrow> fe_occurred_at e < fe_occurred_at x" and pos: "0 < fp_maximum_events p"
    using assms(1) by (auto simp: full_and_newer_def)
  let ?s = "sort_key event_order (dvals ?evs)"
  have new: "set_default e ?evs = ?evs @ [(fe_event_id e, e)]"
  proof -
    have "fe_event_id e \<notin> fst ` set ?evs" using id by force
    then show ?thesis by (simp add: set_default_def map_of_eq_None_iff dput_fresh)
  qed
  have "sort_key event_order (dvals ?evs @ [e]) = e # ?s"
    using old by (intro sort_key_least) (auto simp: event_order_def less_prod_def)
  moreover have "nat (fp_maximum_events p) = length ?evs" using len by simp
  ultimately have last: "slice_last (fp_maximum_events p) (sort_key event_order (dvals (set_default e ?evs))) = ?s"
    using pos by (simp add: new slice_last_def)
  have ids: "map fst ?evs = map fe_event_id (dvals ?evs)" using key by auto
  with dist have "distinct (map fe_event_id ?s)"
    by (metis distinct_map distinct_sort set_sort)
  then have evs': "fw_events w' = map (\<lambda>x. (fe_event_id x, x)) ?s"
    using evaluate_window(2) [OF assms(2)] len last fold_dput_fresh [of "[]" ?s]
    by (simp add: retained_events_def new)
  have self: "map (\<lambda>x. (fe_event_id x, x)) (dvals ?evs) = ?evs" by (simp add: comp_def) (rule map_idI, use key in auto)
  have "set (fw_events w') = set (map (\<lambda>x. (fe_event_id x, x)) (dvals ?evs))" by (simp only: evs' set_map set_sort)
  then show eq: "set (fw_events w') = set ?evs" unfolding self .
  have "length (fw_events w') = length ?evs" by (simp add: evs')
  moreover have "map fst (fw_events w') = map fe_event_id ?s" by (simp add: evs')
  ultimately show "full_and_newer p w' e"
    using assms(1) \<open>distinct (map fe_event_id ?s)\<close> by (simp add: full_and_newer_def eq)
qed

lemma dropped_again:
  assumes full: "full_and_newer p w e" and one: "evaluate_flood w e p q = (d, w')"
    and co: "fd_notification_decision d = ''coalesce''" and two: "evaluate_flood w' e p q' = (d', w'')"
  shows "fd_notification_decision d' = ''coalesce''"
proof -
  have eq: "set (fw_events w') = set (fw_events w)" and full': "full_and_newer p w' e"
    using dropped_event [OF full one] .
  have none: "dget (fw_events w') (fe_event_id e) = None"
    using full' by (force simp: full_and_newer_def map_of_eq_None_iff)
  have routine: "bypass_reasons (dvals (fw_events w)) e = []" and storm: "fd_new_state d = FsFlooding"
    using co evaluate_notification [OF one] by (auto split: if_splits)
  have dist: "distinct (fw_events w)" "distinct (fw_events w')"
    using full full' by (auto simp: full_and_newer_def distinct_map)
  have keys: "fe_event_id e \<notin> fst ` set (fw_events w)" "fe_event_id e \<notin> fst ` set (fw_events w')"
    using full full' by (force simp: full_and_newer_def)+
  have "storm p (set_default e (fw_events w'))"
    using storm evaluate_storm [of w e p q] one dist keys eq
      storm_set [of "set_default e (fw_events w)" "set_default e (fw_events w')" p]
    by (force simp: set_default_def map_of_eq_None_iff dput_fresh)
  then have "fd_new_state d' = FsFlooding" using evaluate_storm [of w' e p q'] two by simp
  moreover have "bypass_reasons (dvals (fw_events w')) e = []"
    using routine bypass_set [of "dvals (fw_events w)" "dvals (fw_events w')" e] eq by simp
  ultimately show ?thesis using evaluate_notification [OF two] none by simp
qed

section \<open>A small storm\<close>

definition plain_event :: "string \<Rightarrow> int \<Rightarrow> flood_event" where
  "plain_event i t = \<lparr>fe_event_id = i, fe_occurred_at = t, fe_incident_id = ''inc'', fe_asset_id = None,
     fe_source = None, fe_severity = ''medium'', fe_data_loss_risk = False, fe_business_services = [],
     fe_data_products = [], fe_region = None, fe_account = None, fe_cluster = None, fe_failure_family = None,
     fe_retention_loss_risk = False, fe_business_impact_confirmed = False, fe_representative_valid = True\<rparr>"

definition small_policy :: flood_policy where
  "small_policy = v1_flood_policy\<lparr>fp_flooding_count := 1, fp_maximum_events := 2\<rparr>"

definition small_window :: flood_window where
  "small_window = (new_window ''f'' ''t'' ''e'' ''g'')\<lparr>
     fw_events := [(''a'', plain_event ''a'' 10), (''b'', plain_event ''b'' 20)]\<rparr>"

lemma small_storm: "storm small_policy (set_default e evs)"
proof -
  have evs: "set (dvals (set_default e evs)) \<noteq> {}"
    by (metis empty_iff image_is_empty insert_not_empty set_default_keys set_map)
  then have "window_end (set_default e evs) \<in> fe_occurred_at ` set (dvals (set_default e evs))"
    unfolding window_end_def by (intro Max_in) auto
  then obtain x where x: "x \<in> set (dvals (set_default e evs))" "fe_occurred_at x = window_end (set_default e evs)"
    by (metis image_iff)
  then have "x \<in> set (active_events small_policy (set_default e evs))"
    by (simp add: active_events_def window_start_def small_policy_def v1_flood_policy_def)
  then have "1 \<le> length (active_events small_policy (set_default e evs))"
    by (metis One_nat_def Suc_leI length_pos_if_in_set)
  moreover have "fp_flooding_count small_policy = 1" by (simp add: small_policy_def)
  ultimately show ?thesis unfolding storm_def by linarith
qed

lemma plain_routine: "(\<forall>x \<in> set known. fe_asset_id x = None) \<Longrightarrow> bypass_reasons known (plain_event i t) = []"
  by (simp add: bypass_reasons_def plain_event_def adds_new_def opt_single_def given_def)

lemma small_coalesced:
  assumes "\<forall>x \<in> set (dvals (fw_events w)). fe_asset_id x = None" and "dget (fw_events w) i = None"
  shows "fd_notification_decision (fst (evaluate_flood w (plain_event i t) small_policy q)) = ''coalesce''"
proof -
  have "fd_new_state (fst (evaluate_flood w (plain_event i t) small_policy q)) = FsFlooding"
    unfolding evaluate_storm by (rule small_storm)
  moreover have "fe_event_id (plain_event i t) = i" by (simp add: plain_event_def)
  ultimately show ?thesis
    using plain_routine [OF assms(1)] assms(2) by (simp add: evaluate_fields)
qed

section \<open>Properties\<close>

text \<open>
  C12. No notification of an urgent or novel event is coalesced: when \<open>evaluate_flood\<close> coalesces an event, the
  storm is on, the event is not critical, carries no data or retention risk, no confirmed business impact and a
  valid representative, and every product, service, region, account, cluster and failure family it names was
  named by an earlier event of the window. For the asset this holds as soon as some earlier event of the window
  names an asset; while none does, the code does not treat an asset as new, and an event that names one can be coalesced.
\<close>

theorem coalesced_events_are_routine:
  assumes "evaluate_flood w e p q = (d, w')" and "fd_notification_decision d = ''coalesce''"
  shows "fw_state w' = FsFlooding \<and> fe_severity e \<noteq> ''critical'' \<and> \<not> fe_data_loss_risk e \<and>
    \<not> fe_retention_loss_risk e \<and> \<not> fe_business_impact_confirmed e \<and> fe_representative_valid e \<and>
    brings_nothing_new (dvals (fw_events w)) e"
proof -
  from evaluate_notification [OF assms(1)] assms(2)
  have "fd_new_state d = FsFlooding" and quiet: "bypass_reasons (dvals (fw_events w)) e = []"
    by (auto split: if_splits)
  then show ?thesis
    using bypass_empty [OF quiet] evaluate_window(1) [OF assms(1)] by simp
qed

theorem coalesced_events_are_routine_witness:
  "fw_state (snd (evaluate_flood small_window (plain_event ''c'' 5) small_policy None)) = FsFlooding"
proof -
  let ?r = "evaluate_flood small_window (plain_event ''c'' 5) small_policy None"
  have "fd_notification_decision (fst ?r) = ''coalesce''"
    by (rule small_coalesced) (auto simp: small_window_def new_window_def plain_event_def)
  with coalesced_events_are_routine [of small_window "plain_event ''c'' 5" small_policy None "fst ?r" "snd ?r"]
  show ?thesis by simp
qed

text \<open>
  C25. As long as a window sees at most \<open>maximum_events\<close> different events, whatever the order, repetitions and
  quiet times of the evaluations, no event is coalesced twice and the suppression count of the window grows by
  one for every coalesced event.
\<close>

theorem replays_are_suppressed_once:
  assumes "flood_run p (new_window flood_id tenant env group_id) es = (ids, w)"
    and "int (card (fe_event_id ` fst ` set es)) \<le> fp_maximum_events p"
  shows "distinct ids \<and> fw_suppressed_notification_count w = int (length ids)"
  using flood_run_counts [OF _ _ _ assms(2,1)]
  by (simp add: new_window_def event_ids_def)

theorem replays_are_suppressed_once_witness:
  "distinct (fst (flood_run small_policy (new_window ''f'' ''t'' ''e'' ''g'')
     [(plain_event ''a'' 10, None), (plain_event ''a'' 10, None)]))"
  using replays_are_suppressed_once [of small_policy "''f''" "''t''" "''e''" "''g''"
      "[(plain_event ''a'' 10, None), (plain_event ''a'' 10, None)]"
      "fst (flood_run small_policy (new_window ''f'' ''t'' ''e'' ''g'') [(plain_event ''a'' 10, None), (plain_event ''a'' 10, None)])"
      "snd (flood_run small_policy (new_window ''f'' ''t'' ''e'' ''g'') [(plain_event ''a'' 10, None), (plain_event ''a'' 10, None)])"]
  by (simp add: small_policy_def del: flood_run.simps)

text \<open>
  The bound is needed. When the window is full and a late event is older than every event it holds, the
  event is coalesced, dropped from the window, and a replay of the same event is coalesced and counted again.
\<close>

theorem late_replay_is_suppressed_twice:
  assumes "full_and_newer p w e" and "evaluate_flood w e p q = (d, w')"
    and "fd_notification_decision d = ''coalesce''" and "evaluate_flood w' e p q' = (d', w'')"
  shows "fd_notification_decision d' = ''coalesce'' \<and>
    fw_suppressed_notification_count w'' = fw_suppressed_notification_count w + 2"
  using dropped_again [OF assms] evaluate_window(3) [OF assms(2)] evaluate_window(3) [OF assms(4)] assms(3)
  by simp

theorem late_replay_is_suppressed_twice_witness:
  "let (d, w) = evaluate_flood small_window (plain_event ''c'' 5) small_policy None;
       (d', w') = evaluate_flood w (plain_event ''c'' 5) small_policy None
   in fd_notification_decision d' = ''coalesce'' \<and> fw_suppressed_notification_count w' = 2"
proof -
  let ?e = "plain_event ''c'' 5"
  let ?r = "evaluate_flood small_window ?e small_policy None"
  let ?s = "evaluate_flood (snd ?r) ?e small_policy None"
  have "fd_notification_decision (fst ?r) = ''coalesce''"
    by (rule small_coalesced) (auto simp: small_window_def new_window_def plain_event_def)
  moreover have "full_and_newer small_policy small_window ?e"
    by (simp add: full_and_newer_def small_policy_def small_window_def plain_event_def)
  moreover have "fw_suppressed_notification_count small_window = 0"
    by (simp add: small_window_def new_window_def)
  ultimately show ?thesis
    using late_replay_is_suppressed_twice [of small_policy small_window ?e None "fst ?r" "snd ?r" None "fst ?s" "snd ?s"]
    by (simp add: case_prod_beta Let_def)
qed

end
