(* ===== verification/IncidentStore.thy ===== *)
theory IncidentStore
  imports IncidentMerge FloodControl
begin

text \<open>
  The state of the incident manager and its repositories in memory: incidents (\<open>repository.py\<close>), correlation
  groups (\<open>correlation/repository.py\<close>) and flood windows (\<open>flood_control/repository.py\<close>), with the contracts
  of \<open>correlation/contracts.py\<close>. One record \<open>im_state\<close> holds the three repositories and the number of clock
  readings; a method is a computation \<open>'a im\<close> on it.
\<close>

section \<open>Contracts\<close>

datatype evidence_state = EvMatched | EvNotMatched | EvUnavailable | EvUnsupported | EvStale | EvConflicting

record feature_result =
  fr_name :: string
  fr_state :: evidence_state
  fr_values :: "string list"
  fr_contribution :: rat

record corr_decision =
  cd_decision_id :: string
  cd_action :: string
  cd_incident_id :: string
  cd_group_id :: "string option"
  cd_policy_name :: string
  cd_policy_version :: string
  cd_policy_hash :: string
  cd_evaluated_at :: int
  cd_score :: rat
  cd_confidence :: rat
  cd_features :: "feature_result list"
  cd_reason_codes :: "string list"
  cd_missing_inputs :: "string list"

record corr_group =
  cg_id :: string
  cg_tenant_id :: string
  cg_environment :: string
  cg_policy_version :: string
  cg_representative_incident_id :: string
  cg_member_incident_ids :: "string list"
  cg_total_member_count :: int
  cg_total_occurrence_count :: int
  cg_first_observed_at :: int
  cg_last_observed_at :: int
  cg_highest_severity :: string
  cg_confidence :: rat
  cg_reason_codes :: "string list"
  cg_evidence_coverage :: rat
  cg_members_truncated :: bool
  cg_flood_state :: string
  cg_notification_decision :: string
  cg_updated_at :: "int option"
  cg_metadata :: vdict

record stored_group =
  sg_group :: corr_group
  sg_seq_no :: int
  sg_primary_term :: int

record deferred_evaluation =
  de_operation_id :: string
  de_tenant_id :: string
  de_environment :: string
  de_incident_id :: string
  de_incident_revision :: string
  de_phase :: string
  de_created_at :: int
  de_attempt :: int
  de_next_attempt_at :: "int option"
  de_completed_at :: "int option"

record notification_decision =
  nd_decision_id :: string
  nd_flood_id :: string
  nd_group_id :: string
  nd_representative_incident_id :: string
  nd_action :: string
  nd_reason_codes :: "string list"
  nd_policy_version :: string
  nd_created_at :: int
  nd_eligibility_at :: int
  nd_idempotency_key :: string
  nd_status :: string

record stored_flood =
  sf_window :: flood_window
  sf_projection :: vdict
  sf_seq_no :: int
  sf_primary_term :: int

record flood_transition =
  tr_event_id :: string
  tr_tenant_id :: string
  tr_environment :: string
  tr_flood_id :: string
  tr_prior_state :: flood_state
  tr_new_state :: flood_state
  tr_notification_decision :: string
  tr_reason_codes :: "string list"
  tr_timestamp :: string

record timeline_event =
  te_tenant_id :: string
  te_environment :: string
  te_incident_id :: string
  te_event_id :: string
  te_event_type :: string
  te_timestamp :: string
  te_actor :: string
  te_summary :: string
  te_revision :: int
  te_request_id :: string

section \<open>State\<close>

record im_state =
  im_findings :: "(string \<times> finding) list"
  im_incidents :: "(string \<times> incident) list"
  im_events :: "timeline_event list"
  im_actions :: "(string \<times> vdict) list"
  im_approvals :: "(string \<times> vdict) list"
  im_operations :: "(string \<times> string \<times> timeline_event) list"
  im_groups :: "(string \<times> stored_group) list"
  im_decisions :: "(string \<times> string \<times> string \<times> corr_decision) list"
  im_deferred :: "(string \<times> deferred_evaluation) list"
  im_windows :: "(string \<times> stored_flood) list"
  im_transitions :: "(string \<times> flood_transition) list"
  im_notifications :: "(string \<times> string \<times> string \<times> notification_decision) list"
  im_ticks :: nat

type_synonym 'a im = "(im_state, 'a) py"

definition empty_im :: im_state where
  "empty_im = \<lparr>im_findings = [], im_incidents = [], im_events = [], im_actions = [], im_approvals = [],
     im_operations = [], im_groups = [], im_decisions = [], im_deferred = [], im_windows = [],
     im_transitions = [], im_notifications = [], im_ticks = 0\<rparr>"

definition im_now :: "im_env \<Rightarrow> int im" where
  "im_now env = (\<lambda>s. (Inr (ie_clock env (im_ticks s)), s\<lparr>im_ticks := Suc (im_ticks s)\<rparr>))"

text \<open>The errors of the three repositories: \<open>VersionConflict\<close> and the plain \<open>RuntimeError\<close>.\<close>

abbreviation incident_conflict :: py_error where
  "incident_conflict \<equiv> Conflict ''incident version conflict''"

abbreviation version_conflict :: py_error where
  "version_conflict \<equiv> RuntimeError ''version conflict''"

section \<open>Incidents\<close>

text \<open>The comparable content of a finding; values compare as in Python.\<close>

definition finding_projection :: "finding \<Rightarrow> finding \<times> pvalue list" where
  "finding_projection f =
     (f\<lparr>fn_observed_value := [], fn_expected_value := [], fn_evidence := []\<rparr>,
      vnorm (VDict (fn_observed_value f)) # vnorm (VDict (fn_expected_value f)) #
      map (\<lambda>d. vnorm (VDict d)) (fn_evidence f))"

definition save_finding :: "finding \<Rightarrow> finding im" where
  "save_finding f = bindp (reads (\<lambda>s. dget (im_findings s) (fn_id f))) (\<lambda>current.
     case current of
       Some c \<Rightarrow>
         if (fn_tenant_id c, fn_environment c) \<noteq> (fn_tenant_id f, fn_environment f)
         then raise (ValueError ''finding identity scope is immutable'')
         else if fn_last_observed_at f < fn_last_observed_at c then ret c
         else if fn_last_observed_at f = fn_last_observed_at c \<and> finding_projection f = finding_projection c then ret c
         else seqp (writes (\<lambda>s. s\<lparr>im_findings := dput (fn_id f) f (im_findings s)\<rparr>)) (ret f)
     | None \<Rightarrow> seqp (writes (\<lambda>s. s\<lparr>im_findings := dput (fn_id f) f (im_findings s)\<rparr>)) (ret f))"

definition find_incident_by_dedup :: "string \<Rightarrow> string \<Rightarrow> string \<Rightarrow> incident option im" where
  "find_incident_by_dedup tenant env dedup = reads (\<lambda>s. List.find
     (\<lambda>i. in_tenant_id i = tenant \<and> in_environment i = env \<and> in_deduplication_key i = dedup)
     (dvals (im_incidents s)))"

definition create_incident :: "im_env \<Rightarrow> incident \<Rightarrow> incident im" where
  "create_incident env i = bindp (reads (\<lambda>s. dget (im_incidents s) (in_id i))) (\<lambda>current.
     seqp (raise_if (current \<noteq> None) incident_conflict)
     (bindp (im_now env) (\<lambda>now.
      let i' = i\<lparr>in_updated_at := now, in_seq_no := Some 0, in_primary_term := Some 1\<rparr> in
      seqp (writes (\<lambda>s. s\<lparr>im_incidents := dput (in_id i') i' (im_incidents s)\<rparr>)) (ret i'))))"

definition update_incident :: "im_env \<Rightarrow> incident \<Rightarrow> incident im" where
  "update_incident env i = bindp (reads (\<lambda>s. dget (im_incidents s) (in_id i))) (\<lambda>current.
     case (current, in_seq_no i, in_primary_term i) of
       (Some c, Some n, Some p) \<Rightarrow>
         if (Some n, Some p) \<noteq> (in_seq_no c, in_primary_term c) then raise incident_conflict
         else bindp (im_now env) (\<lambda>now.
           let i' = i\<lparr>in_updated_at := now, in_seq_no := Some (n + 1)\<rparr> in
           seqp (writes (\<lambda>s. s\<lparr>im_incidents := dput (in_id i') i' (im_incidents s)\<rparr>)) (ret i'))
     | _ \<Rightarrow> raise incident_conflict)"

definition list_findings :: "string \<Rightarrow> string option \<Rightarrow> finding list im" where
  "list_findings tenant env = reads (\<lambda>s. filter
     (\<lambda>f. fn_tenant_id f = tenant \<and> (env = None \<or> env = Some (fn_environment f))) (dvals (im_findings s)))"

definition get_finding :: "string \<Rightarrow> string \<Rightarrow> string option \<Rightarrow> finding option im" where
  "get_finding tenant fid env = reads (\<lambda>s. case dget (im_findings s) fid of
      Some f \<Rightarrow> if fn_tenant_id f = tenant \<and> (env = None \<or> env = Some (fn_environment f)) then Some f else None
    | None \<Rightarrow> None)"

definition list_incidents :: "string \<Rightarrow> string option \<Rightarrow> incident list im" where
  "list_incidents tenant env = reads (\<lambda>s. filter
     (\<lambda>i. in_tenant_id i = tenant \<and> (env = None \<or> env = Some (in_environment i))) (dvals (im_incidents s)))"

definition get_incident :: "string \<Rightarrow> string \<Rightarrow> string option \<Rightarrow> incident option im" where
  "get_incident tenant iid env = reads (\<lambda>s. case dget (im_incidents s) iid of
      Some i \<Rightarrow> if in_tenant_id i = tenant \<and> (env = None \<or> env = Some (in_environment i)) then Some i else None
    | None \<Rightarrow> None)"

definition append_timeline :: "timeline_event \<Rightarrow> unit im" where
  "append_timeline e = writes (\<lambda>s.
     if te_event_id e \<in> te_event_id ` set (im_events s) then s else s\<lparr>im_events := im_events s @ [e]\<rparr>)"

definition list_events :: "string \<Rightarrow> string \<Rightarrow> string \<Rightarrow> timeline_event list im" where
  "list_events tenant env iid = reads (\<lambda>s. sort_key (\<lambda>e. (te_timestamp e, te_event_id e))
     (filter (\<lambda>e. te_tenant_id e = tenant \<and> te_environment e = env \<and> te_incident_id e = iid) (im_events s)))"

record timeline_page =
  tp_items :: "timeline_event list"
  tp_sort_values :: "(string \<times> string) option"

definition search_events ::
  "string \<Rightarrow> string \<Rightarrow> string \<Rightarrow> nat \<Rightarrow> (string \<times> string) option \<Rightarrow> timeline_page im" where
  "search_events tenant env iid page_size search_after = bindp (list_events tenant env iid) (\<lambda>events.
     let events = (case search_after of
             None \<Rightarrow> events
           | Some k \<Rightarrow> filter (\<lambda>e. k < (te_timestamp e, te_event_id e)) events);
         page = take (page_size + 1) events;
         more = page_size < length page;
         page = take page_size page
     in if more \<and> page = [] then raise (IndexError ''list index out of range'')
        else ret \<lparr>tp_items = page,
          tp_sort_values = (if more then Some (te_timestamp (last page), te_event_id (last page)) else None)\<rparr>)"

definition get_timeline_operation :: "string \<Rightarrow> (string \<times> timeline_event) option im" where
  "get_timeline_operation op = reads (\<lambda>s. dget (im_operations s) op)"

definition save_timeline_operation :: "string \<Rightarrow> string \<Rightarrow> timeline_event \<Rightarrow> unit im" where
  "save_timeline_operation op fingerprint e = bindp (reads (\<lambda>s. dget (im_operations s) op)) (\<lambda>existing.
     seqp (raise_if (case existing of None \<Rightarrow> False | Some (fp, _) \<Rightarrow> fp \<noteq> fingerprint)
             (Conflict ''idempotency key was used for another operation''))
     (writes (\<lambda>s. s\<lparr>im_operations := dput op (fingerprint, e) (im_operations s)\<rparr>)))"

section \<open>Correlation groups\<close>

definition string_set :: "pvalue \<Rightarrow> string set" where
  "string_set v = (case v of VList vs \<Rightarrow> {s. VStr s \<in> set vs} | _ \<Rightarrow> {})"

lemma string_set_code [code]:
  "string_set v = (case v of VList vs \<Rightarrow> set (List.map_filter (\<lambda>x. case x of VStr s \<Rightarrow> Some s | _ \<Rightarrow> None) vs) | _ \<Rightarrow> {})"
  by (cases v) (auto simp: string_set_def List.map_filter_def split: pvalue.splits)

definition create_group :: "corr_group \<Rightarrow> stored_group im" where
  "create_group g = bindp (reads (\<lambda>s. dget (im_groups s) (cg_id g))) (\<lambda>current.
     seqp (raise_if (current \<noteq> None) version_conflict)
     (let st = \<lparr>sg_group = g, sg_seq_no = 0, sg_primary_term = 1\<rparr> in
      seqp (writes (\<lambda>s. s\<lparr>im_groups := dput (cg_id g) st (im_groups s)\<rparr>)) (ret st)))"

definition get_group :: "string \<Rightarrow> string \<Rightarrow> string \<Rightarrow> stored_group option im" where
  "get_group tenant env gid = reads (\<lambda>s. case dget (im_groups s) gid of
      Some g \<Rightarrow> if (cg_tenant_id (sg_group g), cg_environment (sg_group g)) = (tenant, env) then Some g else None
    | None \<Rightarrow> None)"

definition update_group :: "stored_group \<Rightarrow> stored_group im" where
  "update_group st = bindp (reads (\<lambda>s. dget (im_groups s) (cg_id (sg_group st)))) (\<lambda>current.
     case current of
       None \<Rightarrow> raise version_conflict
     | Some c \<Rightarrow>
         if (sg_seq_no c, sg_primary_term c) \<noteq> (sg_seq_no st, sg_primary_term st) then raise version_conflict
         else let st' = st\<lparr>sg_seq_no := sg_seq_no st + 1\<rparr> in
           seqp (writes (\<lambda>s. s\<lparr>im_groups := dput (cg_id (sg_group st)) st' (im_groups s)\<rparr>)) (ret st'))"

definition in_group_scope :: "string \<Rightarrow> string \<Rightarrow> stored_group \<Rightarrow> bool" where
  "in_group_scope tenant env g \<longleftrightarrow> (cg_tenant_id (sg_group g), cg_environment (sg_group g)) = (tenant, env)"

text \<open>The order of a listing: the latest observation first, then the identifier.\<close>

definition group_order :: "stored_group \<Rightarrow> rat \<times> string" where
  "group_order g = (- fl (of_int (cg_last_observed_at (sg_group g)) / 1000000), cg_id (sg_group g))"

definition find_candidate_groups :: "string \<Rightarrow> string \<Rightarrow> incident \<Rightarrow> stored_group list im" where
  "find_candidate_groups tenant env i = reads (\<lambda>s. take 50 (sort_key group_order (filter
     (\<lambda>g. in_group_scope tenant env g \<and>
          set (in_affected_assets i) \<inter> string_set (vget (cg_metadata (sg_group g)) ''affected_assets'') \<noteq> {})
     (dvals (im_groups s)))))"

definition member_ids :: "im_state \<Rightarrow> string \<Rightarrow> string list" where
  "member_ids s gid = sorted_set (map cd_incident_id (filter
     (\<lambda>d. cd_group_id d = Some gid \<and> cd_action d \<in> {''attach'', ''create''}) (map (snd \<circ> snd \<circ> snd) (im_decisions s))))"

definition find_group_for_incident :: "string \<Rightarrow> string \<Rightarrow> string \<Rightarrow> stored_group option im" where
  "find_group_for_incident tenant env iid = reads (\<lambda>s. List.find
     (\<lambda>g. in_group_scope tenant env g \<and> iid \<in> set (member_ids s (cg_id (sg_group g)))) (dvals (im_groups s)))"

definition list_groups :: "string \<Rightarrow> string \<Rightarrow> int \<Rightarrow> stored_group list im" where
  "list_groups tenant env limit = reads (\<lambda>s. slice_to (min limit 100) (sort_key group_order (filter
     (in_group_scope tenant env) (dvals (im_groups s)))))"

definition append_decision :: "string \<Rightarrow> string \<Rightarrow> corr_decision \<Rightarrow> bool im" where
  "append_decision tenant env d = bindp (reads (\<lambda>s. dget (im_decisions s) (cd_decision_id d))) (\<lambda>current.
     case current of
       Some _ \<Rightarrow> ret False
     | None \<Rightarrow> seqp (writes (\<lambda>s. s\<lparr>im_decisions := dput (cd_decision_id d) (tenant, env, d) (im_decisions s)\<rparr>)) (ret True))"

definition has_decision :: "string \<Rightarrow> string \<Rightarrow> string \<Rightarrow> bool im" where
  "has_decision tenant env did = reads (\<lambda>s. case dget (im_decisions s) did of
      None \<Rightarrow> False | Some (t, e, _) \<Rightarrow> (t, e) = (tenant, env))"

definition record_deferred :: "deferred_evaluation \<Rightarrow> bool im" where
  "record_deferred d = bindp (reads (\<lambda>s. dget (im_deferred s) (de_operation_id d))) (\<lambda>current.
     case current of
       Some _ \<Rightarrow> ret False
     | None \<Rightarrow> seqp (writes (\<lambda>s. s\<lparr>im_deferred := dput (de_operation_id d) d (im_deferred s)\<rparr>)) (ret True))"

definition list_deferred :: "int \<Rightarrow> deferred_evaluation list im" where
  "list_deferred limit = reads (\<lambda>s. slice_to limit (sort_key (\<lambda>d. (de_created_at d, de_operation_id d))
     (filter (\<lambda>d. de_completed_at d = None) (dvals (im_deferred s)))))"

definition mark_reconciled :: "string \<Rightarrow> int \<Rightarrow> unit im" where
  "mark_reconciled op t = bindp (reads (\<lambda>s. dget (im_deferred s) op)) (\<lambda>current.
     case current of
       None \<Rightarrow> raise (KeyError op)
     | Some d \<Rightarrow> writes (\<lambda>s. s\<lparr>im_deferred := dput op (d\<lparr>de_completed_at := Some t\<rparr>) (im_deferred s)\<rparr>))"

section \<open>Flood windows\<close>

definition in_flood_scope :: "string \<Rightarrow> string \<Rightarrow> stored_flood \<Rightarrow> bool" where
  "in_flood_scope tenant env w \<longleftrightarrow> (fw_tenant_id (sf_window w), fw_environment (sf_window w)) = (tenant, env)"

definition get_window :: "string \<Rightarrow> string \<Rightarrow> string \<Rightarrow> stored_flood option im" where
  "get_window tenant env fid = reads (\<lambda>s. case dget (im_windows s) fid of
      Some w \<Rightarrow> if in_flood_scope tenant env w then Some w else None
    | None \<Rightarrow> None)"

definition create_window :: "stored_flood \<Rightarrow> stored_flood im" where
  "create_window st = bindp (reads (\<lambda>s. dget (im_windows s) (fw_flood_id (sf_window st)))) (\<lambda>current.
     seqp (raise_if (current \<noteq> None) version_conflict)
     (let st' = st\<lparr>sf_seq_no := 0, sf_primary_term := 1\<rparr> in
      seqp (writes (\<lambda>s. s\<lparr>im_windows := dput (fw_flood_id (sf_window st)) st' (im_windows s)\<rparr>)) (ret st')))"

definition update_window :: "stored_flood \<Rightarrow> stored_flood im" where
  "update_window st = bindp (reads (\<lambda>s. dget (im_windows s) (fw_flood_id (sf_window st)))) (\<lambda>current.
     case current of
       None \<Rightarrow> raise version_conflict
     | Some c \<Rightarrow>
         if (sf_seq_no c, sf_primary_term c) \<noteq> (sf_seq_no st, sf_primary_term st) then raise version_conflict
         else let st' = st\<lparr>sf_seq_no := sf_seq_no st + 1\<rparr> in
           seqp (writes (\<lambda>s. s\<lparr>im_windows := dput (fw_flood_id (sf_window st)) st' (im_windows s)\<rparr>)) (ret st'))"

definition append_transition :: "im_env \<Rightarrow> string \<Rightarrow> string \<Rightarrow> string \<Rightarrow> string \<Rightarrow> flood_decision \<Rightarrow> bool im" where
  "append_transition env tenant environment eid fid d = bindp (reads (\<lambda>s. dget (im_transitions s) eid)) (\<lambda>current.
     case current of
       Some _ \<Rightarrow> ret False
     | None \<Rightarrow>
         let t = \<lparr>tr_event_id = eid, tr_tenant_id = tenant, tr_environment = environment, tr_flood_id = fid,
           tr_prior_state = fd_prior_state d, tr_new_state = fd_new_state d,
           tr_notification_decision = fd_notification_decision d, tr_reason_codes = fd_reason_codes d,
           tr_timestamp = ie_isoformat env (fd_window_end d)\<rparr>
         in seqp (writes (\<lambda>s. s\<lparr>im_transitions := dput eid t (im_transitions s)\<rparr>)) (ret True))"

definition append_notification :: "string \<Rightarrow> string \<Rightarrow> notification_decision \<Rightarrow> bool im" where
  "append_notification tenant env n = bindp (reads (\<lambda>s. dget (im_notifications s) (nd_decision_id n))) (\<lambda>current.
     case current of
       Some _ \<Rightarrow> ret False
     | None \<Rightarrow>
         seqp (writes (\<lambda>s. s\<lparr>im_notifications := dput (nd_decision_id n) (tenant, env, n) (im_notifications s)\<rparr>)) (ret True))"

text \<open>
  \<open>list_storms\<close> sorts by \<open>projection.get("last_observed_at") or datetime.min\<close>; the \<open>timestamp()\<close> of
  \<open>datetime.min\<close> raises. An instant in a projection is the integer of its microseconds.
\<close>

definition storm_key :: "stored_flood \<Rightarrow> (rat \<times> string) option" where
  "storm_key w = (case vget (sf_projection w) ''last_observed_at'' of
      VInt t \<Rightarrow> Some (- fl (of_int t / 1000000), fw_flood_id (sf_window w))
    | _ \<Rightarrow> None)"

definition list_storms :: "string \<Rightarrow> string \<Rightarrow> int \<Rightarrow> stored_flood list im" where
  "list_storms tenant env limit = bindp (reads (\<lambda>s. filter (in_flood_scope tenant env) (dvals (im_windows s)))) (\<lambda>ws.
     if None \<in> set (map storm_key ws) then raise (ValueError ''year 0 is out of range'')
     else ret (slice_to (min limit 100) (sort_key (\<lambda>w. the (storm_key w)) ws)))"

definition list_timeline :: "string \<Rightarrow> string \<Rightarrow> string \<Rightarrow> int \<Rightarrow> flood_transition list im" where
  "list_timeline tenant env fid limit = reads (\<lambda>s. slice_to (min limit 100)
     (sort_key (\<lambda>t. (tr_timestamp t, tr_event_id t))
       (filter (\<lambda>t. (tr_tenant_id t, tr_environment t, tr_flood_id t) = (tenant, env, fid)) (dvals (im_transitions s)))))"

end
