(* ===== verification/Coordinator.thy ===== *)
theory Coordinator
  imports IncidentStore
begin

text \<open>
  Correlation of incidents: \<open>correlation/features.py\<close>, \<open>policy.py\<close>, \<open>scoring.py\<close>, \<open>service.py\<close> and
  \<open>coordinator.py\<close>. The digest of the policy is the constant \<open>ie_policy_hash\<close> of the environment. Sums and
  quotients of floats round at every step.
\<close>

section \<open>Policy, features and score\<close>

record corr_policy =
  cp_name :: string
  cp_version :: string
  cp_weights :: "(string \<times> rat) list"
  cp_correlation_window_seconds :: int
  cp_minimum_score :: rat
  cp_minimum_evidence_coverage :: rat
  cp_maximum_features :: nat

definition v1_policy :: corr_policy where
  "v1_policy = \<lparr>cp_name = ''dataobs-incident-correlation'', cp_version = ''v1'',
     cp_weights = map (\<lambda>(n, h). (n, fl (of_int h / 100)))
       [(''same_asset'', 30), (''same_primary_resource'', 20), (''same_monitor'', 15), (''same_trace'', 30),
        (''same_run'', 25), (''same_job'', 25), (''same_source'', 10), (''same_data_product'', 20),
        (''same_business_service'', 15), (''lineage_adjacency'', 20), (''temporal_proximity'', 15),
        (''compatible_finding_type'', 10)],
     cp_correlation_window_seconds = 3600, cp_minimum_score = fl (35 / 100),
     cp_minimum_evidence_coverage = 1 / 4, cp_maximum_features = 24\<rparr>"

definition compared :: "string \<Rightarrow> string list \<Rightarrow> string list \<Rightarrow> feature_result" where
  "compared name a b =
     (if a = [] \<or> b = [] then \<lparr>fr_name = name, fr_state = EvUnavailable, fr_values = [], fr_contribution = 0\<rparr>
      else let common = take 5 (sorted_set (filter (\<lambda>x. x \<in> set b) a)) in
        \<lparr>fr_name = name, fr_state = (if common \<noteq> [] then EvMatched else EvNotMatched), fr_values = common,
          fr_contribution = 0\<rparr>)"

definition extract_features :: "incident \<Rightarrow> incident \<Rightarrow> feature_result list" where
  "extract_features l r =
     [compared ''same_asset'' (in_affected_assets l) (in_affected_assets r),
      compared ''same_primary_resource'' (opt_single (in_primary_resource l)) (opt_single (in_primary_resource r)),
      compared ''same_data_product'' (in_data_product_ids l) (in_data_product_ids r),
      compared ''same_business_service'' (in_business_services l) (in_business_services r),
      \<lparr>fr_name = ''temporal_proximity'',
        fr_state = (if in_last_observed_at l = None \<or> in_last_observed_at r = None then EvUnavailable else EvMatched),
        fr_values = [], fr_contribution = 0\<rparr>]"

definition weight_of :: "corr_policy \<Rightarrow> string \<Rightarrow> rat" where
  "weight_of p n = (case dget (cp_weights p) n of None \<Rightarrow> 0 | Some w \<Rightarrow> w)"

definition evaluated :: "feature_result \<Rightarrow> bool" where
  "evaluated f \<longleftrightarrow> fr_state f \<notin> {EvUnavailable, EvUnsupported}"

definition score_features :: "feature_result list \<Rightarrow> corr_policy \<Rightarrow> rat \<times> rat \<times> feature_result list" where
  "score_features fs p =
     (let evaluated_weight = fsum (map (weight_of p \<circ> fr_name) (filter evaluated fs));
          enriched = map (\<lambda>f. f\<lparr>fr_contribution :=
            (if fr_state f = EvMatched then weight_of p (fr_name f) else 0)\<rparr>) fs;
          total = fsum (map fr_contribution enriched);
          coverage = fl (evaluated_weight / max (fsum (map snd (cp_weights p))) (fl (1 / 10000)));
          confidence = min 1 (fl (fl (total * coverage) / max (cp_minimum_score p) (fl (1 / 10000))))
      in (round_to total 6, round_to confidence 6, enriched))"

text \<open>The temporal feature does not match outside the window of the policy.\<close>

definition windowed_features :: "corr_policy \<Rightarrow> incident \<Rightarrow> incident \<Rightarrow> feature_result list" where
  "windowed_features p l r =
     (let raw = take (cp_maximum_features p) (extract_features l r) in
      case (in_last_observed_at l, in_last_observed_at r) of
        (Some a, Some b) \<Rightarrow>
          if of_int (cp_correlation_window_seconds p) < fl (of_int \<bar>a - b\<bar> / 1000000)
          then map (\<lambda>f. if fr_name f = ''temporal_proximity'' then f\<lparr>fr_state := EvNotMatched\<rparr> else f) raw
          else raw
      | _ \<Rightarrow> raw)"

definition evidence_coverage :: "feature_result list \<Rightarrow> rat" where
  "evidence_coverage fs = fl (of_nat (length (filter evaluated fs)) / of_nat (max (length fs) 1))"

definition evaluate_pair ::
  "im_env \<Rightarrow> corr_policy \<Rightarrow> int \<Rightarrow> incident \<Rightarrow> incident \<Rightarrow> string \<Rightarrow> string \<Rightarrow> string option \<Rightarrow> corr_decision" where
  "evaluate_pair env p now i c revision candidate_revision existing_group_id =
     (let decision_id = deterministic_id env ''correlation-decision''
            [in_tenant_id i, in_environment i, in_id i, revision, por_else existing_group_id (in_id c),
             candidate_revision, cp_name p, cp_version p, ie_policy_hash env];
          base = \<lparr>cd_decision_id = decision_id, cd_action = ''reject'', cd_incident_id = in_id i,
            cd_group_id = None, cd_policy_name = cp_name p, cd_policy_version = cp_version p,
            cd_policy_hash = ie_policy_hash env, cd_evaluated_at = now, cd_score = 0, cd_confidence = 0,
            cd_features = [], cd_reason_codes = [''scope_incompatible''], cd_missing_inputs = []\<rparr>
      in if (in_tenant_id i, in_environment i) \<noteq> (in_tenant_id c, in_environment c) then base
         else
           let (total, confidence, fs) = score_features (windowed_features p i c) p;
               enough = cp_minimum_evidence_coverage p \<le> evidence_coverage fs;
               action = (if enough \<and> cp_minimum_score p \<le> total then ''attach''
                 else if \<not> enough then ''insufficient_evidence'' else ''below_threshold'');
               matched = map fr_name (filter (\<lambda>f. fr_state f = EvMatched) fs)
           in base\<lparr>cd_action := action,
                cd_group_id := (if action = ''attach''
                  then Some (por_else existing_group_id (deterministic_id env ''correlation-group''
                    ([in_tenant_id i, in_environment i] @ sort [in_id i, in_id c] @ [cp_version p])))
                  else None),
                cd_score := total, cd_confidence := (if enough then confidence else 0), cd_features := fs,
                cd_reason_codes := (if matched = [] then [action] else matched),
                cd_missing_inputs := map fr_name (filter (\<lambda>f. fr_state f = EvUnavailable) fs)\<rparr>)"

definition evaluate_candidate ::
  "im_env \<Rightarrow> incident \<Rightarrow> incident \<Rightarrow> string \<Rightarrow> string \<Rightarrow> string \<Rightarrow> corr_decision im" where
  "evaluate_candidate env i c revision candidate_revision gid = bindp (im_now env) (\<lambda>now.
     ret (evaluate_pair env v1_policy now i c revision candidate_revision (Some gid)))"

section \<open>The coordinator\<close>

definition policy_parts :: "im_env \<Rightarrow> string list" where
  "policy_parts env = [cp_name v1_policy, cp_version v1_policy, ie_policy_hash env]"

definition incident_revision :: "im_env \<Rightarrow> incident \<Rightarrow> string" where
  "incident_revision env i = (case in_seq_no i of Some n \<Rightarrow> int_str n | None \<Rightarrow> ie_time_str env (in_updated_at i))"

definition canonical_decision_id :: "im_env \<Rightarrow> incident \<Rightarrow> string \<Rightarrow> string \<Rightarrow> string" where
  "canonical_decision_id env i revision gid = deterministic_id env ''correlation-decision''
     ([in_tenant_id i, in_environment i, in_id i, revision, gid] @ policy_parts env)"

definition initial_group_id :: "im_env \<Rightarrow> incident \<Rightarrow> string" where
  "initial_group_id env i = deterministic_id env ''correlation-group''
     ([in_tenant_id i, in_environment i, in_id i] @ policy_parts env)"

definition own_decision ::
  "im_env \<Rightarrow> incident \<Rightarrow> string \<Rightarrow> string \<Rightarrow> string \<Rightarrow> int \<Rightarrow> rat \<Rightarrow> string \<Rightarrow> corr_decision" where
  "own_decision env i did action gid now conf reason =
     \<lparr>cd_decision_id = did, cd_action = action, cd_incident_id = in_id i, cd_group_id = Some gid,
       cd_policy_name = cp_name v1_policy, cd_policy_version = cp_version v1_policy,
       cd_policy_hash = ie_policy_hash env, cd_evaluated_at = now, cd_score = conf, cd_confidence = conf,
       cd_features = [], cd_reason_codes = [reason], cd_missing_inputs = []\<rparr>"

definition str_list :: "string list \<Rightarrow> pvalue" where
  "str_list xs = VList (map VStr xs)"

definition new_group :: "im_env \<Rightarrow> string \<Rightarrow> incident \<Rightarrow> corr_group im" where
  "new_group env gid i =
     bindp (case in_last_observed_at i of Some t \<Rightarrow> ret t | None \<Rightarrow> im_now env) (\<lambda>observed.
     ret \<lparr>cg_id = gid, cg_tenant_id = in_tenant_id i, cg_environment = in_environment i,
       cg_policy_version = cp_version v1_policy, cg_representative_incident_id = in_id i,
       cg_member_incident_ids = [in_id i], cg_total_member_count = 1,
       cg_total_occurrence_count = in_occurrence_count i,
       cg_first_observed_at = (case in_first_observed_at i of Some t \<Rightarrow> t | None \<Rightarrow> observed),
       cg_last_observed_at = observed, cg_highest_severity = severity_str (in_severity i), cg_confidence = 1,
       cg_reason_codes = [''initial_group''], cg_evidence_coverage = 1, cg_members_truncated = False,
       cg_flood_state = ''normal'', cg_notification_decision = ''notify'', cg_updated_at = None,
       cg_metadata =
         [(''policy_name'', VStr (cp_name v1_policy)), (''policy_hash'', VStr (ie_policy_hash env)),
          (''affected_assets'', str_list (sorted_set (in_affected_assets i))),
          (''data_product_ids'', str_list (sorted_set (in_data_product_ids i))),
          (''business_services'', str_list (sorted_set (in_business_services i)))]\<rparr>)"

text \<open>\<open>except Exception\<close> of the coordinator catches every error.\<close>

fun select_candidate ::
  "im_env \<Rightarrow> incident \<Rightarrow> string \<Rightarrow> stored_group list \<Rightarrow> (stored_group \<times> corr_decision) option im" where
  "select_candidate env i revision [] = ret None"
| "select_candidate env i revision (c # cs) =
     bindp (get_incident (in_tenant_id i) (cg_representative_incident_id (sg_group c)) (Some (in_environment i))) (\<lambda>rep.
     case rep of
       None \<Rightarrow> select_candidate env i revision cs
     | Some r \<Rightarrow>
         bindp (evaluate_candidate env i r revision
             (int_str (case in_seq_no r of Some n \<Rightarrow> n | None \<Rightarrow> 0)) (cg_id (sg_group c))) (\<lambda>d.
         if cd_action d = ''attach'' then ret (Some (c, d)) else select_candidate env i revision cs))"

definition start_group :: "im_env \<Rightarrow> incident \<Rightarrow> string \<Rightarrow> (stored_group \<times> corr_decision) im" where
  "start_group env i revision =
     (let gid = initial_group_id env i in
      bindp (im_now env) (\<lambda>now.
      let d = own_decision env i (canonical_decision_id env i revision gid) ''create'' gid now 1 ''initial_group'' in
      bindp (new_group env gid i) (\<lambda>g.
      bindp (trycatch (create_group g) (\<lambda>e.
          bindp (get_group (in_tenant_id i) (in_environment i) gid) (\<lambda>current.
          case current of None \<Rightarrow> raise e | Some c \<Rightarrow> ret c))) (\<lambda>selected.
      ret (selected, d)))))"

definition severity_position :: "string \<Rightarrow> int" where
  "severity_position s = (if s = ''low'' then 0 else if s = ''medium'' then 1 else if s = ''high'' then 2
     else if s = ''critical'' then 3 else 0)"

definition bounded_union :: "pvalue \<Rightarrow> string list \<Rightarrow> string list" where
  "bounded_union v xs = take 100 (sorted_list_of_set (string_set v \<union> set xs))"

definition widened_metadata :: "vdict \<Rightarrow> incident \<Rightarrow> vdict" where
  "widened_metadata m i = fold (\<lambda>(k, xs) d. dput k (str_list (bounded_union (vget d k) xs)) d)
     [(''affected_assets'', in_affected_assets i), (''data_product_ids'', in_data_product_ids i),
      (''business_services'', in_business_services i)] m"

definition attached_group :: "int \<Rightarrow> corr_group \<Rightarrow> incident \<Rightarrow> corr_decision \<Rightarrow> corr_group" where
  "attached_group now g i d =
     (let members = take 100 (sorted_set (cg_member_incident_ids g @ [in_id i])) in
      g\<lparr>cg_member_incident_ids := members,
        cg_total_member_count := cg_total_member_count g + 1,
        cg_members_truncated := (int (length members) < cg_total_member_count g + 1),
        cg_total_occurrence_count := cg_total_occurrence_count g + in_occurrence_count i,
        cg_first_observed_at := (case in_first_observed_at i of
          None \<Rightarrow> cg_first_observed_at g | Some t \<Rightarrow> min (cg_first_observed_at g) t),
        cg_last_observed_at := (case in_last_observed_at i of
          None \<Rightarrow> cg_last_observed_at g | Some t \<Rightarrow> max (cg_last_observed_at g) t),
        cg_highest_severity :=
          (if severity_position (cg_highest_severity g) < severity_position (severity_str (in_severity i))
           then severity_str (in_severity i) else cg_highest_severity g),
        cg_confidence := max (cg_confidence g) (cd_confidence d),
        cg_metadata := widened_metadata (cg_metadata g) i,
        cg_updated_at := Some now\<rparr>)"

text \<open>
  \<open>_attach_with_occ\<close> with the attempts left. A failed attempt has changed the group of \<open>selected\<close> in place, so
  when the group is not found the next attempt starts from the changed one.
\<close>

fun attach_with_occ :: "im_env \<Rightarrow> nat \<Rightarrow> stored_group \<Rightarrow> incident \<Rightarrow> corr_decision \<Rightarrow> stored_group im" where
  "attach_with_occ env 0 selected i d = raise (RuntimeError ''correlation OCC retry exhausted'')"
| "attach_with_occ env (Suc n) selected i d =
     bindp (im_now env) (\<lambda>now.
     let changed = selected\<lparr>sg_group := attached_group now (sg_group selected) i d\<rparr> in
     trycatch (update_group changed) (\<lambda>e.
       bindp (get_group (in_tenant_id i) (in_environment i) (cg_id (sg_group changed))) (\<lambda>current.
       case current of
         None \<Rightarrow> attach_with_occ env n changed i d
       | Some c \<Rightarrow> if in_id i \<in> set (cg_member_incident_ids (sg_group c)) then ret c
                   else attach_with_occ env n c i d)))"

definition max_occ_retries :: nat where
  "max_occ_retries = 3"

record flood_report =
  fo_flood_id :: string
  fo_state :: flood_state
  fo_decision_id :: string
  fo_action :: string
  fo_reason_codes :: "string list"

definition flood_event_of :: "im_env \<Rightarrow> incident \<Rightarrow> string \<Rightarrow> int \<Rightarrow> flood_event" where
  "flood_event_of env i eid now = \<lparr>fe_event_id = eid,
     fe_occurred_at = (case in_last_observed_at i of Some t \<Rightarrow> t | None \<Rightarrow> now), fe_incident_id = in_id i,
     fe_asset_id = (case in_affected_assets i of [] \<Rightarrow> None | a # _ \<Rightarrow> Some a), fe_source = in_correlation_key i,
     fe_severity = severity_str (in_severity i), fe_data_loss_risk = False,
     fe_business_services = in_business_services i, fe_data_products = in_data_product_ids i,
     fe_region = None, fe_account = None, fe_cluster = None, fe_failure_family = None,
     fe_retention_loss_risk = False, fe_business_impact_confirmed = False, fe_representative_valid = True\<rparr>"

definition flood_id_of :: "im_env \<Rightarrow> corr_group \<Rightarrow> incident \<Rightarrow> string" where
  "flood_id_of env g i = deterministic_id env ''incident-flood''
     [in_tenant_id i, in_environment i, cg_id g, fp_version v1_flood_policy]"

definition flood_event_id :: "im_env \<Rightarrow> incident \<Rightarrow> string \<Rightarrow> string \<Rightarrow> string" where
  "flood_event_id env i revision fid = deterministic_id env ''flood-event''
     [in_tenant_id i, in_environment i, in_id i, revision, fid, fp_version v1_flood_policy]"

definition new_stored_flood :: "corr_group \<Rightarrow> incident \<Rightarrow> string \<Rightarrow> stored_flood" where
  "new_stored_flood g i fid = \<lparr>sf_window = new_window fid (in_tenant_id i) (in_environment i) (cg_id g),
     sf_projection = [(''representative_incident_id'', VStr (cg_representative_incident_id g)),
       (''policy_version'', VStr (fp_version v1_flood_policy)), (''highest_severity'', VStr (cg_highest_severity g)),
       (''total_occurrence_count'', VInt (cg_total_occurrence_count g))],
     sf_seq_no = 0, sf_primary_term = 1\<rparr>"

definition flood_now :: "im_env \<Rightarrow> incident \<Rightarrow> int im" where
  "flood_now env i = (case in_last_observed_at i of Some t \<Rightarrow> ret t | None \<Rightarrow> im_now env)"

definition store_window :: "incident \<Rightarrow> string \<Rightarrow> string \<Rightarrow> stored_flood \<Rightarrow> stored_flood im" where
  "store_window i fid eid updated = trycatch
     (bindp (get_window (in_tenant_id i) (in_environment i) fid) (\<lambda>present.
        if present = None then create_window updated else update_window updated))
     (\<lambda>e. bindp (get_window (in_tenant_id i) (in_environment i) fid) (\<lambda>current.
        case current of
          None \<Rightarrow> raise e
        | Some c \<Rightarrow> if dget (fw_events (sf_window c)) eid = None then raise e else ret c))"

definition evaluate_group_flood :: "im_env \<Rightarrow> corr_group \<Rightarrow> incident \<Rightarrow> string \<Rightarrow> flood_report im" where
  "evaluate_group_flood env g i revision =
     (let fid = flood_id_of env g i; eid = flood_event_id env i revision fid in
      bindp (get_window (in_tenant_id i) (in_environment i) fid) (\<lambda>found.
      let stored = (case found of Some w \<Rightarrow> w | None \<Rightarrow> new_stored_flood g i fid) in
      bindp (flood_now env i) (\<lambda>now.
      let event = flood_event_of env i eid now;
          (d, w) = evaluate_flood (sf_window stored) event v1_flood_policy None;
          updated = stored\<lparr>sf_window := w,
            sf_projection := dput ''total_occurrence_count'' (VInt (cg_total_occurrence_count g))
              (dput ''highest_severity'' (VStr (cg_highest_severity g)) (sf_projection stored))\<rparr> in
      bindp (store_window i fid eid updated) (\<lambda>final.
      let tid = deterministic_id env ''flood-transition''
            [fid, eid, flood_state_str (fd_prior_state d), flood_state_str (fd_new_state d), fp_version v1_flood_policy];
          nid = deterministic_id env ''notification-decision''
            [fid, eid, fd_notification_decision d, fp_version v1_flood_policy] in
      seqp (append_transition env (in_tenant_id i) (in_environment i) tid fid d)
      (seqp (append_notification (in_tenant_id i) (in_environment i)
         \<lparr>nd_decision_id = nid, nd_flood_id = fid, nd_group_id = cg_id g,
           nd_representative_incident_id = cg_representative_incident_id g,
           nd_action = fd_notification_decision d, nd_reason_codes = fd_reason_codes d,
           nd_policy_version = fp_version v1_flood_policy, nd_created_at = fd_window_end d,
           nd_eligibility_at = fd_window_end d, nd_idempotency_key = nid, nd_status = ''eligible''\<rparr>)
      (ret \<lparr>fo_flood_id = fid, fo_state = fw_state (sf_window final), fo_decision_id = nid,
         fo_action = fd_notification_decision d, fo_reason_codes = fd_reason_codes d\<rparr>))))))"

record process_report =
  rp_status :: string
  rp_group_id :: string
  rp_decision_id :: string
  rp_flood :: flood_report

text \<open>Which group the incident belongs to and the decision that says so.\<close>

definition choose_group :: "im_env \<Rightarrow> incident \<Rightarrow> string \<Rightarrow> (stored_group \<times> corr_decision option) im" where
  "choose_group env i revision =
     bindp (find_group_for_incident (in_tenant_id i) (in_environment i) (in_id i)) (\<lambda>existing.
     bindp (find_candidate_groups (in_tenant_id i) (in_environment i) i) (\<lambda>candidates.
     case existing of
       Some g \<Rightarrow> ret (g, None)
     | None \<Rightarrow>
         bindp (select_candidate env i revision candidates) (\<lambda>chosen.
         case chosen of
           Some (g, d) \<Rightarrow> ret (g, Some d)
         | None \<Rightarrow> bindp (start_group env i revision) (\<lambda>(g, d). ret (g, Some d)))))"

definition settled_decision :: "im_env \<Rightarrow> incident \<Rightarrow> string \<Rightarrow> stored_group \<Rightarrow> corr_decision option \<Rightarrow> corr_decision im" where
  "settled_decision env i revision selected decision =
     (let gid = cg_id (sg_group selected); did = canonical_decision_id env i revision gid in
      case decision of
        None \<Rightarrow> bindp (im_now env) (\<lambda>now.
          ret (own_decision env i did ''attach'' gid now (cg_confidence (sg_group selected)) ''existing_membership''))
      | Some d \<Rightarrow> ret (if cd_action d \<noteq> ''create'' then d\<lparr>cd_decision_id := did\<rparr> else d))"

definition process :: "im_env \<Rightarrow> incident \<Rightarrow> process_report im" where
  "process env i =
     (let revision = incident_revision env i in
      bindp (choose_group env i revision) (\<lambda>(selected, decision).
      bindp (settled_decision env i revision selected decision) (\<lambda>d.
      bindp (append_decision (in_tenant_id i) (in_environment i) d) (\<lambda>appended.
      bindp (if appended \<and> in_id i \<notin> set (cg_member_incident_ids (sg_group selected))
             then attach_with_occ env max_occ_retries selected i d else ret selected) (\<lambda>selected.
      bindp (evaluate_group_flood env (sg_group selected) i revision) (\<lambda>flood.
      ret \<lparr>rp_status = (if appended then ''complete'' else ''replayed''), rp_group_id = cg_id (sg_group selected),
        rp_decision_id = cd_decision_id d, rp_flood = flood\<rparr>))))))"

definition defer_incident :: "im_env \<Rightarrow> incident \<Rightarrow> string \<Rightarrow> bool im" where
  "defer_incident env i phase =
     (let revision = int_str (case in_seq_no i of Some n \<Rightarrow> n | None \<Rightarrow> 0);
          op = deterministic_id env ''incident-runtime-deferred''
            [in_tenant_id i, in_environment i, in_id i, revision, phase] in
      bindp (im_now env) (\<lambda>now. record_deferred
        \<lparr>de_operation_id = op, de_tenant_id = in_tenant_id i, de_environment = in_environment i,
          de_incident_id = in_id i, de_incident_revision = revision, de_phase = phase, de_created_at = now,
          de_attempt = 0, de_next_attempt_at = None, de_completed_at = None\<rparr>))"

text \<open>One deferred item: True when it was completed.\<close>

definition reconcile_item :: "im_env \<Rightarrow> deferred_evaluation \<Rightarrow> bool im" where
  "reconcile_item env item =
     bindp (get_incident (de_tenant_id item) (de_incident_id item) (Some (de_environment item))) (\<lambda>found.
     case found of
       None \<Rightarrow> ret False
     | Some i \<Rightarrow> trycatch
         (seqp (process env i) (bindp (im_now env) (\<lambda>now.
            seqp (mark_reconciled (de_operation_id item) now) (ret True))))
         (\<lambda>e. ret False))"

fun reconcile_items :: "im_env \<Rightarrow> deferred_evaluation list \<Rightarrow> nat \<Rightarrow> nat \<Rightarrow> (nat \<times> nat) im" where
  "reconcile_items env [] completed failed = ret (completed, failed)"
| "reconcile_items env (x # xs) completed failed = bindp (reconcile_item env x) (\<lambda>ok.
     if ok then reconcile_items env xs (Suc completed) failed else reconcile_items env xs completed (Suc failed))"

definition reconcile_deferred :: "im_env \<Rightarrow> int \<Rightarrow> (nat \<times> nat) im" where
  "reconcile_deferred env limit = bindp (list_deferred (min limit 100)) (\<lambda>items. reconcile_items env items 0 0)"

end
