(* ===== verification/IncidentService.thy ===== *)
theory IncidentService
  imports Coordinator
begin

text \<open>
  \<open>IncidentManagerService\<close> (\<open>service.py\<close>) and \<open>IncidentWorkbenchService\<close> (\<open>workbench.py\<close>). The flag
  \<open>correlating\<close> tells whether a correlation coordinator is configured. The metrics and log lines of the code
  are left out; a result document is the record of the values it is rendered from.
\<close>

section \<open>Ingestion\<close>

datatype processing = PrNone | PrDone process_report | PrDeferred

record ingest_result =
  ig_finding :: finding
  ig_incident :: incident
  ig_status :: string
  ig_reason :: string
  ig_occurrence_added :: bool
  ig_incident_changed :: bool
  ig_processing :: processing

definition ingest_status :: "incident \<Rightarrow> merge_decision \<Rightarrow> string" where
  "ingest_status i d =
     (if md_reason d = ''exact_replay'' then ''replayed''
      else if md_reason d = ''stale_replay'' then ''stale''
      else if md_reason d = ''new_occurrence'' then (if in_occurrence_count i = 1 then ''created'' else ''updated'')
      else ''updated'')"

definition ingest_result_of :: "finding \<Rightarrow> incident \<Rightarrow> merge_decision \<Rightarrow> ingest_result" where
  "ingest_result_of f i d = \<lparr>ig_finding = f, ig_incident = i, ig_status = ingest_status i d, ig_reason = md_reason d,
     ig_occurrence_added = md_occurrence_added d, ig_incident_changed = md_changed d, ig_processing = PrNone\<rparr>"

text \<open>The incident a first finding opens.\<close>

definition opened_incident :: "im_env \<Rightarrow> string \<Rightarrow> finding \<Rightarrow> string \<Rightarrow> int \<Rightarrow> incident" where
  "opened_incident env tenant f dedup now =
     (let (sev, factors) = calculate_severity f 1 in
      \<lparr>in_id = incident_id env tenant dedup, in_tenant_id = tenant, in_environment = fn_environment f,
        in_title = fn_title f, in_incident_state = IsOpen, in_severity = sev, in_deduplication_key = dedup,
        in_correlation_key = Some (correlation_key env f), in_finding_ids = [fn_id f],
        in_affected_assets = sorted_set ([fn_asset_id f] @ fn_downstream_impact f),
        in_impact_summary = Some (fn_summary f), in_severity_factors = factors, in_occurrence_count = 1,
        in_most_recent_evidence = fn_evidence f, in_owner_team = fn_owner_team f,
        in_business_service = fn_business_service f, in_opened_at = Some now,
        in_first_observed_at = Some (fn_first_observed_at f), in_last_observed_at = Some (fn_last_observed_at f),
        in_acknowledged_at = None, in_resolved_at = None, in_closed_at = None, in_reopened_at = None,
        in_resolution_reason = None, in_state_reason = None, in_primary_resource = None,
        in_data_product_ids = [], in_business_services = [], in_updated_at = now, in_seq_no = None,
        in_primary_term = None\<rparr>)"

text \<open>
  The write of one attempt, from the incident found for the deduplication key: the stored incident and the
  decision about it.
\<close>

definition ingest_write :: "im_env \<Rightarrow> string \<Rightarrow> finding \<Rightarrow> incident option \<Rightarrow> (incident \<times> merge_decision) im" where
  "ingest_write env tenant f found = (case found of
      Some i \<Rightarrow>
        let d = decide_finding_merge env i f in
        if \<not> md_changed d then ret (i, d)
        else bindp (update_incident env (md_incident d)) (\<lambda>j. ret (j, d))
    | None \<Rightarrow>
        bindp (im_now env) (\<lambda>now.
        bindp (create_incident env (opened_incident env tenant f (deduplication_key env f 60) now)) (\<lambda>j.
        ret (j, \<lparr>md_incident = j, md_changed = True, md_reason = ''new_occurrence'', md_occurrence_added = True\<rparr>))))"

text \<open>\<open>MAX_CONFLICT_ATTEMPTS\<close> attempts, each from a fresh read; only the version conflict is retried.\<close>

fun ingest_attempts :: "im_env \<Rightarrow> string \<Rightarrow> finding \<Rightarrow> nat \<Rightarrow> (incident \<times> merge_decision) im" where
  "ingest_attempts env tenant f 0 = raise incident_conflict"
| "ingest_attempts env tenant f (Suc n) =
     bindp (find_incident_by_dedup tenant (fn_environment f) (deduplication_key env f 60)) (\<lambda>found.
     trycatch (ingest_write env tenant f found) (\<lambda>e.
       if e = incident_conflict \<and> n \<noteq> 0 then ingest_attempts env tenant f n else raise e))"

definition max_conflict_attempts :: nat where
  "max_conflict_attempts = 3"

definition process_or_defer :: "im_env \<Rightarrow> incident \<Rightarrow> processing im" where
  "process_or_defer env i = trycatch (bindp (process env i) (\<lambda>r. ret (PrDone r)))
     (\<lambda>e. seqp (defer_incident env i ''correlation'') (ret PrDeferred))"

definition lift_error :: "(py_error + 'a) \<Rightarrow> 'a im" where
  "lift_error r = (case r of Inl e \<Rightarrow> raise e | Inr x \<Rightarrow> ret x)"

definition ingest :: "im_env \<Rightarrow> bool \<Rightarrow> vdict \<Rightarrow> string \<Rightarrow> ingest_result im" where
  "ingest env correlating event tenant =
     bindp (im_now env) (\<lambda>clock.
     bindp (lift_error (normalize_event env clock event tenant)) (\<lambda>f.
     bindp (save_finding f) (\<lambda>saved.
     bindp (ingest_attempts env tenant f max_conflict_attempts) (\<lambda>(i, d).
     let result = ingest_result_of saved i d in
     if correlating then bindp (process_or_defer env i) (\<lambda>p. ret (result\<lparr>ig_processing := p\<rparr>))
     else ret result))))"

section \<open>Lifecycle and legacy actions\<close>

definition transition_incident ::
  "im_env \<Rightarrow> string \<Rightarrow> string \<Rightarrow> incident_state \<Rightarrow> string option \<Rightarrow> incident im" where
  "transition_incident env tenant iid state reason =
     bindp (get_incident tenant iid None) (\<lambda>found. case found of
       None \<Rightarrow> raise (KeyError iid)
     | Some i \<Rightarrow> bindp (im_now env) (\<lambda>now.
         bindp (lift_error (transition now i state reason)) (\<lambda>j. update_incident env j)))"

definition safe_actions :: "string list" where
  "safe_actions = [''rerun_scan'', ''freshness_recheck'', ''connection_test'', ''acknowledge_incident'',
     ''assign_owner'', ''suppress_notifications'', ''add_case_comment'', ''resend_notification'']"

definition preview_action :: "string \<Rightarrow> string \<Rightarrow> string \<Rightarrow> vdict \<Rightarrow> (string \<times> string list) im" where
  "preview_action tenant iid action_type payload =
     seqp (raise_if (action_type \<notin> set safe_actions) (ValueError ''unsafe or unsupported action''))
     (bindp (get_incident tenant iid None) (\<lambda>found.
      seqp (raise_if (found = None) (KeyError iid)) (ret (action_type, sort (map fst payload)))))"

definition execute_action :: "string \<Rightarrow> string \<Rightarrow> string \<Rightarrow> string \<Rightarrow> vdict \<Rightarrow> vdict im" where
  "execute_action tenant iid action_type idempotency_key payload =
     bindp (reads (\<lambda>s. dget (im_actions s) (tenant @ '':'' @ iid @ '':'' @ idempotency_key))) (\<lambda>stored.
     case stored of
       Some a \<Rightarrow> ret a
     | None \<Rightarrow> seqp (preview_action tenant iid action_type payload)
         (raise (RuntimeError ''action execution requires an allowlisted ActionExecutor adapter'')))"

definition decide_legacy_approval :: "im_env \<Rightarrow> string \<Rightarrow> string \<Rightarrow> string \<Rightarrow> string option \<Rightarrow> vdict im" where
  "decide_legacy_approval env tenant aid outcome comments =
     bindp (reads (\<lambda>s. dget (im_approvals s) aid)) (\<lambda>found. case found of
       None \<Rightarrow> raise (KeyError aid)
     | Some a \<Rightarrow>
         seqp (raise_if (vget a ''tenant_id'' \<noteq> VStr tenant) (KeyError aid))
         (bindp (im_now env) (\<lambda>now.
          let a' = dput ''decided_at'' (VStr (ie_isoformat env now))
                (dput ''comments'' (case comments of None \<Rightarrow> VNone | Some c \<Rightarrow> VStr c)
                  (dput ''decision'' (VStr outcome) a)) in
          seqp (writes (\<lambda>s. s\<lparr>im_approvals := dput aid a' (im_approvals s)\<rparr>)) (ret a'))))"

section \<open>Workbench\<close>

record workbench_request =
  wr_revision :: string
  wr_actor :: string
  wr_request_id :: string
  wr_state :: "incident_state option"
  wr_reason :: "string option"
  wr_owner :: "string option"
  wr_comment :: "string option"
  wr_idempotency_key :: "string option"

record incident_detail =
  dt_incident :: incident
  dt_revision :: string
  dt_finding_references :: "string list"
  dt_evidence_complete :: bool
  dt_request_id :: string

text \<open>\<open>f"{seq_no}:{primary_term}"\<close>.\<close>

definition opt_int_str :: "int option \<Rightarrow> string" where
  "opt_int_str n = (case n of None \<Rightarrow> ''None'' | Some k \<Rightarrow> int_str k)"

definition revision_of :: "incident \<Rightarrow> string" where
  "revision_of i = opt_int_str (in_seq_no i) @ '':'' @ opt_int_str (in_primary_term i)"

definition detail :: "string \<Rightarrow> string \<Rightarrow> string \<Rightarrow> string \<Rightarrow> incident_detail im" where
  "detail tenant env iid request_id = bindp (get_incident tenant iid (Some env)) (\<lambda>found. case found of
       None \<Rightarrow> raise (KeyError iid)
     | Some i \<Rightarrow> ret \<lparr>dt_incident = i, dt_revision = revision_of i,
         dt_finding_references = take 100 (in_finding_ids i),
         dt_evidence_complete = (in_most_recent_evidence i \<noteq> []), dt_request_id = request_id\<rparr>)"

definition opt_json :: "string option \<Rightarrow> json" where
  "opt_json s = (case s of None \<Rightarrow> JNull | Some x \<Rightarrow> JStr x)"

text \<open>The JSON keys in sorted order.\<close>

definition workbench_fingerprint :: "im_env \<Rightarrow> string \<Rightarrow> string \<Rightarrow> string \<Rightarrow> workbench_request \<Rightarrow> string" where
  "workbench_fingerprint env tenant environment iid r = ie_digest env (print_json (JDict
     [(''actor'', JStr (wr_actor r)), (''comment'', opt_json (wr_comment r)), (''environment'', JStr environment),
      (''incident'', JStr iid), (''owner'', opt_json (wr_owner r)), (''reason'', opt_json (wr_reason r)),
      (''revision'', JStr (wr_revision r)),
      (''state'', opt_json (map_option incident_state_str (wr_state r))), (''tenant'', JStr tenant)]))"

definition colon_scope :: "string \<Rightarrow> string \<Rightarrow> string \<Rightarrow> string option \<Rightarrow> string" where
  "colon_scope tenant environment iid key =
     tenant @ '':'' @ environment @ '':'' @ iid @ '':'' @ (case key of None \<Rightarrow> ''None'' | Some k \<Rightarrow> k)"

definition workbench_operation_id :: "im_env \<Rightarrow> string \<Rightarrow> string \<Rightarrow> string \<Rightarrow> string option \<Rightarrow> string" where
  "workbench_operation_id env tenant environment iid key =
     ''incident-operation-'' @ take 24 (ie_digest env (colon_scope tenant environment iid key))"

definition workbench_event_id :: "im_env \<Rightarrow> string \<Rightarrow> string \<Rightarrow> string \<Rightarrow> string option \<Rightarrow> string" where
  "workbench_event_id env tenant environment iid key =
     ''incident-event-'' @ take 24 (ie_digest env (colon_scope tenant environment iid key))"

definition missing_key :: "string option \<Rightarrow> bool" where
  "missing_key key \<longleftrightarrow> (case key of None \<Rightarrow> True | Some k \<Rightarrow> k = [] \<or> 200 < length k)"

text \<open>The incident after the request, before it is stored, with the type and the summary of the event.\<close>

definition mutated :: "int \<Rightarrow> incident \<Rightarrow> workbench_request \<Rightarrow> py_error + incident \<times> string \<times> string" where
  "mutated now i r = (case wr_state r of
      Some state \<Rightarrow> (case transition now i state (wr_reason r) of
          Inl e \<Rightarrow> Inl e
        | Inr j \<Rightarrow> Inr (j, ''state_changed'',
            ''State changed from '' @ incident_state_str (in_incident_state i) @ '' to '' @ incident_state_str state))
    | None \<Rightarrow> (case wr_owner r of
          Some owner \<Rightarrow>
            Inr (i\<lparr>in_owner_team := (if owner = [] then None else Some owner)\<rparr>, ''assignment_changed'',
              ''Incident assignment changed'')
        | None \<Rightarrow> (case wr_comment r of
              None \<Rightarrow> Inl (ValueError ''comment is required'')
            | Some c \<Rightarrow> if blank c then Inl (ValueError ''comment is required'')
                        else Inr (i, ''comment_added'', take 500 c))))"

definition workbench_event ::
  "im_env \<Rightarrow> string \<Rightarrow> string \<Rightarrow> string \<Rightarrow> workbench_request \<Rightarrow> incident \<Rightarrow> string \<Rightarrow> string \<Rightarrow> int \<Rightarrow> timeline_event" where
  "workbench_event env tenant environment iid r i event_type summary now =
     \<lparr>te_tenant_id = tenant, te_environment = environment, te_incident_id = iid,
       te_event_id = workbench_event_id env tenant environment iid (wr_idempotency_key r),
       te_event_type = event_type, te_timestamp = ie_isoformat env now, te_actor = wr_actor r,
       te_summary = summary, te_revision = (case in_seq_no i of None \<Rightarrow> 0 | Some n \<Rightarrow> n),
       te_request_id = wr_request_id r\<rparr>"

text \<open>The part of \<open>mutate\<close> behind the replay check.\<close>

definition mutate_fresh ::
  "im_env \<Rightarrow> string \<Rightarrow> string \<Rightarrow> string \<Rightarrow> workbench_request \<Rightarrow> string \<Rightarrow> string \<Rightarrow> incident_detail im" where
  "mutate_fresh env tenant environment iid r op fingerprint =
     bindp (get_incident tenant iid (Some environment)) (\<lambda>found. case found of
       None \<Rightarrow> raise (KeyError iid)
     | Some i \<Rightarrow>
         seqp (raise_if (wr_revision r \<noteq> revision_of i) (Conflict ''incident revision is stale''))
         (bindp (im_now env) (\<lambda>now.
          bindp (lift_error (mutated now i r)) (\<lambda>(j, event_type, summary).
          seqp (raise_if (missing_key (wr_idempotency_key r))
                  (ValueError ''Idempotency-Key is required and must be at most 200 characters''))
          (bindp (if wr_state r \<noteq> None \<or> wr_owner r \<noteq> None then update_incident env j else ret j) (\<lambda>j.
           bindp (im_now env) (\<lambda>stamp.
           let e = workbench_event env tenant environment iid r j event_type summary stamp in
           seqp (save_timeline_operation op fingerprint e)
           (seqp (append_timeline e)
           (detail tenant environment iid (wr_request_id r)))))))))) "

definition mutate ::
  "im_env \<Rightarrow> string \<Rightarrow> string \<Rightarrow> string \<Rightarrow> workbench_request \<Rightarrow> incident_detail im" where
  "mutate env tenant environment iid r =
     (let op = workbench_operation_id env tenant environment iid (wr_idempotency_key r);
          fingerprint = workbench_fingerprint env tenant environment iid r in
      bindp (if missing_key (wr_idempotency_key r) then ret None else get_timeline_operation op) (\<lambda>existing.
      case existing of
        Some (fp, e) \<Rightarrow>
          seqp (raise_if (fp \<noteq> fingerprint) (Conflict ''idempotency key was used for another operation''))
          (seqp (append_timeline e) (detail tenant environment iid (wr_request_id r)))
      | None \<Rightarrow> mutate_fresh env tenant environment iid r op fingerprint))"

end
