(* ===== verification/IncidentRuns.thy ===== *)
theory IncidentRuns
  imports IncidentService
begin

text \<open>
  The incident store under any interleaving of workers.

  A worker of \<open>ingest\<close> reads an incident and writes a merge of it later, in between others write; the same holds
  for a transition and an assignment of the workbench. \<open>incident_step\<close> lets every write use any copy that
  was ever read, and lets the rest of the state change in any way, so it covers every schedule of the calls.

  \<^item> \<open>newer_version\<close>: how a stored incident may change. It only ever progresses (theory \<open>IncidentMerge\<close>), two
    versions with one sequence number are equal. A single write is a \<open>written_change\<close>: it keeps the incident
    well formed and moves its state along a legal transition or not at all.
  \<^item> \<open>config_inv\<close>: the stored incidents are well formed, filed under the identifier of their scope, and every copy
    read is an earlier version of what is stored.
\<close>

section \<open>Versions\<close>

abbreviation stored :: "im_state \<Rightarrow> string \<Rightarrow> incident option" where
  "stored s \<equiv> dget (im_incidents s)"

definition newer_version :: "incident \<Rightarrow> incident \<Rightarrow> bool" where
  "newer_version i j \<longleftrightarrow> progress i j \<and> the (in_seq_no i) \<le> the (in_seq_no j) \<and>
     (the (in_seq_no i) = the (in_seq_no j) \<longrightarrow> i = j)"

lemma newer_refl [simp]: "newer_version i i"
  by (simp add: newer_version_def)

lemma newer_trans: "newer_version i j \<Longrightarrow> newer_version j k \<Longrightarrow> newer_version i k"
  unfolding newer_version_def using progress_trans [of i j k] by (metis order_antisym order_trans)

interpretation versions: store_order stored newer_version
  by unfold_locales (auto intro: newer_trans)

definition filed :: "im_env \<Rightarrow> string \<Rightarrow> incident \<Rightarrow> bool" where
  "filed env k i \<longleftrightarrow> in_id i = k \<and> k = incident_id env (in_tenant_id i) (in_deduplication_key i) \<and>
     incident_ok i \<and> (\<exists>n \<ge> 0. in_seq_no i = Some n) \<and> in_primary_term i = Some 1"

definition config_inv :: "im_env \<Rightarrow> im_state \<times> incident set \<Rightarrow> bool" where
  "config_inv env = (\<lambda>(s, C). distinct (map fst (im_incidents s)) \<and> (\<forall>k i. stored s k = Some i \<longrightarrow> filed env k i) \<and>
     (\<forall>i \<in> C. filed env (in_id i) i \<and> (\<exists>j. stored s (in_id i) = Some j \<and> newer_version i j)))"

lemma config_invD:
  assumes "config_inv env (s, C)"
  shows "stored s k = Some i \<Longrightarrow> filed env k i" and "distinct (map fst (im_incidents s))"
    and "i \<in> C \<Longrightarrow> filed env (in_id i) i"
    and "i \<in> C \<Longrightarrow> \<exists>j. stored s (in_id i) = Some j \<and> newer_version i j"
  using assms by (auto simp: config_inv_def)

lemma config_invI:
  assumes "distinct (map fst (im_incidents s))" and "\<And>k i. stored s k = Some i \<Longrightarrow> filed env k i"
    and "\<And>i. i \<in> C \<Longrightarrow> filed env (in_id i) i \<and> (\<exists>j. stored s (in_id i) = Some j \<and> newer_version i j)"
  shows "config_inv env (s, C)"
  unfolding config_inv_def prod.case using assms by blast

lemma config_inv_write:
  assumes inv: "config_inv env (s, C)" and evolve: "store_evolve stored newer_version s s'"
    and new: "\<And>k i. stored s' k = Some i \<Longrightarrow> stored s k = Some i \<or> filed env k i"
    and keys: "distinct (map fst (im_incidents s'))"
  shows "config_inv env (s', C)"
proof -
  have "filed env k i" if "stored s' k = Some i" for k i
    using new [OF that] config_invD(1) [OF inv] by blast
  moreover have "filed env (in_id i) i \<and> (\<exists>j. stored s' (in_id i) = Some j \<and> newer_version i j)" if copied: "i \<in> C" for i
  proof -
    obtain j where j: "stored s (in_id i) = Some j" "newer_version i j"
      using config_invD(4) [OF inv copied] by blast
    obtain j' where "stored s' (in_id i) = Some j'" "newer_version j j'"
      using evolve j(1) by (rule store_evolveD)
    with j(2) show ?thesis using config_invD(3) [OF inv copied] newer_trans by blast
  qed
  ultimately show ?thesis using keys by (intro config_invI)
qed

section \<open>Writes\<close>

text \<open>What a change of an incident in memory keeps before it is stored.\<close>

definition proper_change :: "incident \<Rightarrow> incident \<Rightarrow> bool" where
  "proper_change i j \<longleftrightarrow> progress i j \<and> in_seq_no j = in_seq_no i \<and> in_primary_term j = in_primary_term i \<and>
     (incident_ok i \<longrightarrow> incident_ok j) \<and> (in_incident_state j = in_incident_state i \<or> in_incident_state j \<in> legal_transitions (in_incident_state i))"

lemma merge_proper: "proper_change i (md_incident (decide_finding_merge env i f))"
  using merge_progress [of i env f] merge_ok [of i env f]
  by (simp add: proper_change_def merge_keeps)

lemma transition_proper: "transition now i state reason = Inr j \<Longrightarrow> proper_change i j"
  using transition_cases [of now i state reason j] transition_ok [of i now state reason j]
    transition_progress [of now i state reason j]
  by (simp add: proper_change_def)

lemma assign_proper: "proper_change i (i\<lparr>in_owner_team := owner\<rparr>)"
  by (simp add: proper_change_def progress_def in_scope_def incident_ok_def)

definition restamped :: "int \<Rightarrow> incident \<Rightarrow> incident" where
  "restamped now j = j\<lparr>in_updated_at := now, in_seq_no := Some (the (in_seq_no j) + 1)\<rparr>"

text \<open>A write of an incident: a proper change under the next sequence number.\<close>

definition written_change :: "incident \<Rightarrow> incident \<Rightarrow> bool" where
  "written_change i i' \<longleftrightarrow> (\<exists>now j. proper_change i j \<and> i' = restamped now j)"

lemma restamped_fields [simp]:
  "in_scope (restamped now j) = in_scope j"
  "in_finding_ids (restamped now j) = in_finding_ids j"
  "in_affected_assets (restamped now j) = in_affected_assets j"
  "in_last_observed_at (restamped now j) = in_last_observed_at j"
  "in_incident_state (restamped now j) = in_incident_state j"
  "in_primary_term (restamped now j) = in_primary_term j"
  "in_seq_no (restamped now j) = Some (the (in_seq_no j) + 1)"
  "in_id (restamped now j) = in_id j"
  "in_occurrence_count (restamped now j) = in_occurrence_count j"
  "incident_ok (restamped now j) = incident_ok j"
  by (simp_all add: restamped_def in_scope_def incident_ok_def)

lemma scopeD:
  assumes "in_scope j = in_scope i"
  shows "in_id j = in_id i" "in_tenant_id j = in_tenant_id i" "in_environment j = in_environment i"
    "in_deduplication_key j = in_deduplication_key i"
  using assms by (simp_all add: in_scope_def)

lemma progress_scope: "progress i j \<Longrightarrow> in_scope j = in_scope i"
  by (simp add: progress_def)

lemma update_incident_cases:
  obtains (conflict) "update_incident env j s = (Inl incident_conflict, s)"
  | (stored) c n where "stored s (in_id j) = Some c" and "in_seq_no c = in_seq_no j"
      and "in_primary_term c = in_primary_term j" and "in_seq_no j = Some n"
      and "update_incident env j s = (Inr (restamped (ie_clock env (im_ticks s)) j),
        s\<lparr>im_ticks := Suc (im_ticks s),
          im_incidents := dput (in_id j) (restamped (ie_clock env (im_ticks s)) j) (im_incidents s)\<rparr>)"
proof (cases "\<exists>c n p. stored s (in_id j) = Some c \<and> in_seq_no j = Some n \<and> in_primary_term j = Some p \<and>
    (Some n, Some p) = (in_seq_no c, in_primary_term c)")
  case True
  then obtain c n p where c: "stored s (in_id j) = Some c" "in_seq_no j = Some n" "in_primary_term j = Some p"
    "in_seq_no c = Some n" "in_primary_term c = Some p" by (metis prod.inject)
  then have "update_incident env j s = (Inr (restamped (ie_clock env (im_ticks s)) j),
      s\<lparr>im_ticks := Suc (im_ticks s),
        im_incidents := dput (in_id j) (restamped (ie_clock env (im_ticks s)) j) (im_incidents s)\<rparr>)"
    by (simp add: update_incident_def bindp_apply seqp_apply im_now_def Let_def restamped_def)
  with c show ?thesis by (intro stored [OF c(1) _ _ c(2)]) simp_all
next
  case False
  then have "update_incident env j s = (Inl incident_conflict, s)"
    by (auto simp: update_incident_def bindp_apply split: option.split)
  then show ?thesis by (rule conflict)
qed

text \<open>
  A write from a copy: it is refused, or the copy is what is stored, and the write stores the change under the
  next sequence number.
\<close>

lemma write_from_copy:
  assumes inv: "config_inv env (s, C)" and i: "i \<in> C" and change: "proper_change i j"
  obtains (refused) "update_incident env j s = (Inl incident_conflict, s)"
  | (written) now s' where "stored s (in_id i) = Some i" and "update_incident env j s = (Inr (restamped now j), s')"
      and "im_incidents s' = dput (in_id i) (restamped now j) (im_incidents s)" and "newer_version i (restamped now j)"
      and "filed env (in_id i) (restamped now j)" and "store_evolve stored newer_version s s'"
proof (cases rule: update_incident_cases [of env j s])
  case conflict
  then show ?thesis by (rule refused)
next
  case (stored c n)
  let ?j = "restamped (ie_clock env (im_ticks s)) j"
  from change have scope: "in_scope j = in_scope i" by (simp add: proper_change_def progress_scope)
  obtain c' where "stored s (in_id i) = Some c'" and ver: "newer_version i c'"
    using config_invD(4) [OF inv i] by blast
  with stored scopeD(1) [OF scope] have c: "stored s (in_id i) = Some c" "newer_version i c" by simp_all
  moreover have "in_seq_no c = in_seq_no i" using stored(2) change by (simp add: proper_change_def)
  ultimately have eq: "c = i" by (simp add: newer_version_def)
  from config_invD(3) [OF inv i] have filed: "filed env (in_id i) i" .
  then obtain m where m: "in_seq_no i = Some m" "0 \<le> m" by (auto simp: filed_def)
  have new: "newer_version i ?j"
    using change m by (auto simp: newer_version_def proper_change_def progress_def)
  have filed': "filed env (in_id i) ?j"
    using filed change m scopeD [OF scope] scopeD [of ?j j]
    by (simp add: filed_def proper_change_def)
  let ?s = "s\<lparr>im_ticks := Suc (im_ticks s), im_incidents := dput (in_id j) ?j (im_incidents s)\<rparr>"
  have incs: "im_incidents ?s = dput (in_id i) ?j (im_incidents s)"
    using scopeD(1) [OF scope] by simp
  then have put: "stored ?s = (stored s)(in_id i \<mapsto> ?j)" by (simp only: dget_dput_fun)
  then have evolve: "store_evolve stored newer_version s ?s"
    using new c(1) eq by (intro versions.put) auto
  show ?thesis
    by (rule written [OF _ stored(5) incs new filed' evolve]) (use c(1) eq in simp)
qed

lemma write_from_copy_inv:
  assumes inv: "config_inv env (s, C)" and i: "i \<in> C" and change: "proper_change i j"
  shows "config_inv env (snd (update_incident env j s), C)"
    and "store_evolve stored newer_version s (snd (update_incident env j s))"
proof -
  have "config_inv env (snd (update_incident env j s), C) \<and>
      store_evolve stored newer_version s (snd (update_incident env j s))"
  proof (cases rule: write_from_copy [OF assms])
    case 1
    with inv show ?thesis by (simp add: versions.frame)
  next
    case (2 now s')
    have "config_inv env (s', C)"
    proof (rule config_inv_write [OF inv 2(6)])
      show "stored s k = Some x \<or> filed env k x" if "stored s' k = Some x" for k x
        using that 2(5) unfolding 2(3) dget_dput by (cases "k = in_id i") auto
      show "distinct (map fst (im_incidents s'))"
        unfolding 2(3) by (rule distinct_dput) (rule config_invD(2) [OF inv])
    qed
    with 2 show ?thesis by simp
  qed
  then show "config_inv env (snd (update_incident env j s), C)"
    and "store_evolve stored newer_version s (snd (update_incident env j s))" by auto
qed

lemma write_from_copy_change:
  assumes inv: "config_inv env (s, C)" and i0: "i0 \<in> C" and change: "proper_change i0 j" and i: "stored s k = Some i"
  shows "stored (snd (update_incident env j s)) k = Some i \<or>
    (\<exists>i'. stored (snd (update_incident env j s)) k = Some i' \<and> written_change i i')"
proof (cases rule: write_from_copy [OF inv i0 change])
  case 1
  with i show ?thesis by simp
next
  case (2 now s')
  with i change show ?thesis by (cases "k = in_id i0") (auto simp: written_change_def)
qed

lemma opened_ok:
  "filed env (incident_id env tenant dedup)
     ((opened_incident env tenant f dedup now)\<lparr>in_updated_at := t, in_seq_no := Some 0, in_primary_term := Some 1\<rparr>)"
  by (simp add: filed_def opened_incident_def Let_def case_prod_beta incident_ok_def reason_required_def)

lemma create_run:
  "create_incident env i s =
     (if stored s (in_id i) = None
      then (Inr (i\<lparr>in_updated_at := ie_clock env (im_ticks s), in_seq_no := Some 0, in_primary_term := Some 1\<rparr>),
        s\<lparr>im_ticks := Suc (im_ticks s), im_incidents := dput (in_id i)
            (i\<lparr>in_updated_at := ie_clock env (im_ticks s), in_seq_no := Some 0, in_primary_term := Some 1\<rparr>) (im_incidents s)\<rparr>)
      else (Inl incident_conflict, s))"
  by (simp add: create_incident_def bindp_apply seqp_apply im_now_def Let_def)

lemma opened_id [simp]: "in_id (opened_incident env tenant f dedup now) = incident_id env tenant dedup"
  by (simp add: opened_incident_def Let_def case_prod_beta)

text \<open>The state the create path of an ingestion reaches.\<close>

lemma ingest_write_none:
  fixes env tenant f s
  defines "k \<equiv> incident_id env tenant (deduplication_key env f 60)"
    and "i \<equiv> (opened_incident env tenant f (deduplication_key env f 60) (ie_clock env (im_ticks s)))
      \<lparr>in_updated_at := ie_clock env (Suc (im_ticks s)), in_seq_no := Some 0, in_primary_term := Some 1\<rparr>"
  shows "ingest_write env tenant f None s =
     (if stored s k = None
      then (Inr (i, \<lparr>md_incident = i, md_changed = True, md_reason = ''new_occurrence'', md_occurrence_added = True\<rparr>),
        s\<lparr>im_ticks := Suc (Suc (im_ticks s)), im_incidents := dput k i (im_incidents s)\<rparr>)
      else (Inl incident_conflict, s\<lparr>im_ticks := Suc (im_ticks s)\<rparr>))"
  by (simp add: ingest_write_def bindp_apply im_now_def create_run k_def i_def)

lemma ingest_write_some:
  "ingest_write env tenant f (Some i) s =
     (let d = decide_finding_merge env i f in
      if \<not> md_changed d then (Inr (i, d), s)
      else case update_incident env (md_incident d) s of
          (Inl e, s') \<Rightarrow> (Inl e, s') | (Inr j, s') \<Rightarrow> (Inr (j, d), s'))"
  by (simp add: ingest_write_def Let_def bindp_apply split: prod.split sum.split)

section \<open>Schedules\<close>

text \<open>
  A configuration is the state and the copies of incidents read so far. A write may use any copy, or none for
  a finding whose deduplication key was not found.
\<close>

definition for_key :: "im_env \<Rightarrow> string \<Rightarrow> finding \<Rightarrow> incident \<Rightarrow> bool" where
  "for_key env tenant f i \<longleftrightarrow> in_tenant_id i = tenant \<and> in_environment i = fn_environment f \<and>
     in_deduplication_key i = deduplication_key env f 60"

inductive incident_step :: "im_env \<Rightarrow> im_state \<times> incident set \<Rightarrow> im_state \<times> incident set \<Rightarrow> bool" for env where
  read: "stored s k = Some i \<Longrightarrow> incident_step env (s, C) (s, insert i C)"
| merge: "i \<in> C \<Longrightarrow> for_key env tenant f i \<Longrightarrow>
    incident_step env (s, C) (snd (ingest_write env tenant f (Some i) s), C)"
| create: "incident_step env (s, C) (snd (ingest_write env tenant f None s), C)"
| move: "i \<in> C \<Longrightarrow> transition now i state reason = Inr j \<Longrightarrow>
    incident_step env (s, C) (snd (update_incident env j s), C)"
| assign: "i \<in> C \<Longrightarrow> incident_step env (s, C) (snd (update_incident env (i\<lparr>in_owner_team := owner\<rparr>) s), C)"
| other: "im_incidents s' = im_incidents s \<Longrightarrow> incident_step env (s, C) (s', C)"

lemma ingest_write_inv:
  assumes inv: "config_inv env (s, C)" and found: "\<And>i. found = Some i \<Longrightarrow> i \<in> C"
  shows "config_inv env (snd (ingest_write env tenant f found s), C) \<and>
    store_evolve stored newer_version s (snd (ingest_write env tenant f found s))"
proof (cases found)
  case (Some i)
  let ?d = "decide_finding_merge env i f"
  have "snd (ingest_write env tenant f (Some i) s) = (if md_changed ?d then snd (update_incident env (md_incident ?d) s) else s)"
    by (auto simp: ingest_write_some Let_def split: prod.split sum.split)
  then show ?thesis
    using Some write_from_copy_inv [OF inv found [OF Some] merge_proper, of env f] inv
    by (auto intro: versions.frame)
next
  case None
  let ?s = "snd (ingest_write env tenant f None s)"
  define k where "k = incident_id env tenant (deduplication_key env f 60)"
  obtain i where i: "filed env k i" and
    incs: "im_incidents ?s = (if stored s k = None then dput k i (im_incidents s) else im_incidents s)"
    using opened_ok [of env tenant "deduplication_key env f 60" "ie_clock env (Suc (im_ticks s))" f "ie_clock env (im_ticks s)"]
    by (force simp: ingest_write_none k_def)
  then have put: "stored ?s = (if stored s k = None then (stored s)(k \<mapsto> i) else stored s)"
    by (auto simp: fun_eq_iff)
  have evolve: "store_evolve stored newer_version s ?s"
  proof (cases "stored s k = None")
    case True
    with put show ?thesis by (intro versions.put) auto
  next
    case False
    with put show ?thesis by (intro versions.frame) simp
  qed
  moreover have "config_inv env (?s, C)"
  proof (rule config_inv_write [OF inv evolve])
    fix k' i' assume "stored ?s k' = Some i'"
    then show "stored s k' = Some i' \<or> filed env k' i'"
      using i unfolding put by (cases "k' = k") (simp_all split: if_splits)
  next
    show "distinct (map fst (im_incidents ?s))"
      using config_invD(2) [OF inv] by (simp add: incs distinct_dput)
  qed
  ultimately show ?thesis using None by simp
qed

lemma incident_step_inv:
  assumes "incident_step env c c'" and "config_inv env c"
  shows "config_inv env c' \<and> store_evolve stored newer_version (fst c) (fst c')"
  using assms
proof cases
  case (read s k i C)
  then have inv: "config_inv env (s, C)" using assms(2) by simp
  from config_invD(1) [OF this read(3)] have filed: "filed env k i" .
  then have "in_id i = k" by (simp add: filed_def)
  have "config_inv env (s, insert i C)"
  proof (rule config_invI)
    fix x assume "x \<in> insert i C"
    then show "filed env (in_id x) x \<and> (\<exists>j. stored s (in_id x) = Some j \<and> newer_version x j)"
      using config_invD(3,4) [OF inv] filed read(3) newer_refl [of i] \<open>in_id i = k\<close> by blast
  qed (use config_invD(1,2) [OF inv] in blast)+
  with read show ?thesis by (simp add: versions.frame)
next
  case (merge i C tenant f s)
  then show ?thesis using ingest_write_inv [of env s C "Some i" tenant f] assms(2) by simp
next
  case (create s C tenant f)
  then show ?thesis using ingest_write_inv [of env s C None tenant f] assms(2) by simp
next
  case (move i C now state reason j s)
  then show ?thesis using write_from_copy_inv [OF _ move(3) transition_proper] assms(2) by simp
next
  case (assign i C s owner)
  then show ?thesis using write_from_copy_inv [OF _ assign(3) assign_proper] assms(2) by simp
next
  case (other s' s C)
  then show ?thesis using assms(2) by (auto simp: config_inv_def versions.frame)
qed

lemma incident_steps_inv:
  assumes "(incident_step env)\<^sup>*\<^sup>* c c'" and "config_inv env c"
  shows "config_inv env c' \<and> store_evolve stored newer_version (fst c) (fst c')"
  using assms
proof (induction rule: rtranclp_induct)
  case (step c1 c2)
  then show ?case using incident_step_inv [OF step(2)] versions.chain by blast
qed (simp add: versions.frame)

definition reachable_incidents :: "im_env \<Rightarrow> im_state \<times> incident set \<Rightarrow> bool" where
  "reachable_incidents env c \<longleftrightarrow> (incident_step env)\<^sup>*\<^sup>* (empty_im, {}) c"

lemma empty_config_inv: "config_inv env (empty_im, {})"
  by (simp add: config_inv_def empty_im_def)

lemma reachable_config_inv: "reachable_incidents env c \<Longrightarrow> config_inv env c"
  using incident_steps_inv [OF _ empty_config_inv] by (simp add: reachable_incidents_def)

text \<open>What a successful write of a finding stored or found.\<close>

lemma ingest_write_result:
  assumes inv: "config_inv env (s, C)" and found: "\<And>i. found = Some i \<Longrightarrow> i \<in> C \<and> for_key env tenant f i"
    and run: "ingest_write env tenant f found s = (Inr (i, d), s')"
  obtains j where "stored s' (incident_id env tenant (deduplication_key env f 60)) = Some j"
    and "newer_version i j" and "fn_id f \<in> set (in_finding_ids i)"
proof (cases found)
  case None
  with run show ?thesis
    by (intro that) (auto simp: ingest_write_none opened_incident_def Let_def case_prod_beta split: if_splits)
next
  case (Some i0)
  let ?d = "decide_finding_merge env i0 f"
  from found [OF Some] have i0: "i0 \<in> C" and key: "for_key env tenant f i0" by auto
  have id: "in_id i0 = incident_id env tenant (deduplication_key env f 60)"
    using config_invD(3) [OF inv i0] key by (simp add: filed_def for_key_def)
  have mem: "fn_id f \<in> set (in_finding_ids (md_incident ?d))" by (rule merge_keeps)
  show ?thesis
  proof (cases "md_changed ?d")
    case False
    with run Some have "i = i0" and "s' = s" by (auto simp: ingest_write_some Let_def)
    moreover have "md_incident ?d = i0" using False by (cases rule: decide_cases [of env i0 f]) auto
    ultimately show ?thesis
      using config_invD(4) [OF inv i0] mem id by (auto intro: that)
  next
    case True
    show ?thesis
    proof (cases rule: write_from_copy [OF inv i0 merge_proper, of env f])
      case 1
      with run Some True show ?thesis by (simp add: ingest_write_some Let_def)
    next
      case (2 now s1)
      have "(case update_incident env (md_incident ?d) s of (Inl e, s') \<Rightarrow> (Inl e, s') | (Inr j, s') \<Rightarrow> (Inr (j, ?d), s')) =
          (Inr (i, d), s')"
        using run True unfolding Some ingest_write_some Let_def by simp
      note eqs = this [unfolded 2(2) prod.case sum.case sum.inject prod.inject]
      have i: "i = restamped now (md_incident ?d)" by (rule eqs [THEN conjunct1, THEN conjunct1, symmetric])
      have s': "s' = s1" by (rule eqs [THEN conjunct2, symmetric])
      have "stored s' (incident_id env tenant (deduplication_key env f 60)) = Some i"
        unfolding s' 2(3) i by (simp add: id)
      moreover have "fn_id f \<in> set (in_finding_ids i)" unfolding i using mem by simp
      ultimately show ?thesis by (rule that [OF _ newer_refl])
    qed
  qed
qed

section \<open>Single writes\<close>

lemma ingest_write_change:
  assumes inv: "config_inv env (s, C)" and found: "\<And>i. found = Some i \<Longrightarrow> i \<in> C" and i: "stored s k = Some i"
  shows "stored (snd (ingest_write env tenant f found s)) k = Some i \<or>
    (\<exists>i'. stored (snd (ingest_write env tenant f found s)) k = Some i' \<and> written_change i i')"
proof (cases found)
  case None
  with i show ?thesis by (auto simp: ingest_write_none)
next
  case (Some i0)
  let ?d = "decide_finding_merge env i0 f"
  have "snd (ingest_write env tenant f (Some i0) s) = (if md_changed ?d then snd (update_incident env (md_incident ?d) s) else s)"
    by (auto simp: ingest_write_some Let_def split: prod.split sum.split)
  then show ?thesis
    using Some i write_from_copy_change [OF inv found [OF Some] merge_proper i, of env f] by simp
qed

lemma incident_step_change:
  assumes "incident_step env (s, C) (s', C')" and inv: "config_inv env (s, C)" and i: "stored s k = Some i"
  shows "stored s' k = Some i \<or> (\<exists>i'. stored s' k = Some i' \<and> written_change i i')"
  using assms(1)
proof cases
  case (merge i0 tenant f)
  then show ?thesis using ingest_write_change [OF inv _ i, of "Some i0" tenant f] by simp
next
  case (create tenant f)
  then show ?thesis using ingest_write_change [OF inv _ i, of None tenant f] by simp
next
  case (move i0 now state reason j)
  then show ?thesis using write_from_copy_change [OF inv _ transition_proper i] by simp
next
  case (assign i0 owner)
  then show ?thesis using write_from_copy_change [OF inv _ assign_proper i] by simp
qed (use i in simp_all)

section \<open>Calls\<close>

text \<open>
  Correlation, flood control, the timeline and the clock leave incidents and findings alone.
\<close>

definition same_records :: "im_state \<Rightarrow> im_state \<Rightarrow> bool" where
  "same_records s s' \<longleftrightarrow> im_incidents s' = im_incidents s \<and> im_findings s' = im_findings s"

interpretation untouched: step_order same_records
  by unfold_locales (auto simp: same_records_def)

lemma untouched_writes:
  "(\<And>s. im_incidents (g s) = im_incidents s) \<Longrightarrow> (\<And>s. im_findings (g s) = im_findings s) \<Longrightarrow> evolves same_records (writes g)"
  by (rule evolves_writes) (simp add: same_records_def)

lemma untouched_now [evolve_rules]: "evolves same_records (im_now env)"
  by (simp add: evolves_def im_now_def same_records_def)

lemma untouched_repositories [evolve_rules]:
  "evolves same_records (get_incident t iid e)"
  "evolves same_records (find_incident_by_dedup t ev dedup)"
  "evolves same_records (get_group t ev gid)"
  "evolves same_records (create_group g)"
  "evolves same_records (update_group st)"
  "evolves same_records (find_candidate_groups t ev i)"
  "evolves same_records (find_group_for_incident t ev iid)"
  "evolves same_records (append_decision t ev d)"
  "evolves same_records (record_deferred de)"
  "evolves same_records (list_deferred limit)"
  "evolves same_records (mark_reconciled op now)"
  "evolves same_records (get_window t ev fid)"
  "evolves same_records (create_window w)"
  "evolves same_records (update_window w)"
  "evolves same_records (append_transition env t ev eid fid fd)"
  "evolves same_records (append_notification t ev n)"
  "evolves same_records (get_timeline_operation opid)"
  "evolves same_records (save_timeline_operation opid fp te)"
  "evolves same_records (append_timeline te)"
  unfolding get_incident_def find_incident_by_dedup_def get_group_def create_group_def update_group_def
    find_candidate_groups_def find_group_for_incident_def append_decision_def record_deferred_def list_deferred_def
    mark_reconciled_def get_window_def create_window_def update_window_def append_transition_def
    append_notification_def get_timeline_operation_def save_timeline_operation_def append_timeline_def
  by (intro evolve_rules untouched_writes; simp)+

lemma untouched_attach [evolve_rules]: "evolves same_records (attach_with_occ env n g i d)"
proof (induction n arbitrary: g)
  case (Suc n)
  then show ?case unfolding attach_with_occ.simps by (intro evolve_rules)
qed (unfold attach_with_occ.simps, intro evolve_rules)

lemma untouched_select [evolve_rules]: "evolves same_records (select_candidate env i revision cs)"
proof (induction cs)
  case (Cons c cs)
  then show ?case unfolding select_candidate.simps evaluate_candidate_def by (intro evolve_rules)
qed (unfold select_candidate.simps, intro evolve_rules)

lemma untouched_process [evolve_rules]: "evolves same_records (process env i)"
  unfolding process_def choose_group_def settled_decision_def start_group_def new_group_def
    evaluate_group_flood_def flood_now_def store_window_def
  by (intro evolve_rules)

lemma untouched_defer [evolve_rules]: "evolves same_records (defer_incident env i phase)"
  unfolding defer_incident_def by (intro evolve_rules)

lemma untouched_process_or_defer [evolve_rules]: "evolves same_records (process_or_defer env i)"
  unfolding process_or_defer_def by (intro evolve_rules)

lemma untouched_reconcile [evolve_rules]: "evolves same_records (reconcile_deferred env limit)"
proof -
  have "evolves same_records (reconcile_items env xs a b)" for xs a b
  proof (induction xs arbitrary: a b)
    case (Cons x xs)
    then show ?case unfolding reconcile_items.simps reconcile_item_def by (intro evolve_rules)
  qed (unfold reconcile_items.simps, intro evolve_rules)
  then show ?thesis unfolding reconcile_deferred_def by (intro evolve_rules)
qed

section \<open>Whole calls\<close>

text \<open>
  \<open>scheduled env R m\<close>: from every configuration that satisfies the invariant and holds the copies \<open>R\<close>, a run of
  \<open>m\<close> is a schedule.
\<close>

named_theorems schedule_rules \<open>whole calls as schedules\<close>

definition scheduled :: "im_env \<Rightarrow> incident set \<Rightarrow> 'a im \<Rightarrow> bool" where
  "scheduled env R m \<longleftrightarrow> (\<forall>s C. config_inv env (s, C) \<longrightarrow> R \<subseteq> C \<longrightarrow>
     (\<exists>C'. C \<subseteq> C' \<and> (incident_step env)\<^sup>*\<^sup>* (s, C) (snd (m s), C')))"

lemma scheduledE:
  assumes "scheduled env R m" and "config_inv env (s, C)" and "R \<subseteq> C"
  obtains C' where "C \<subseteq> C'" and "(incident_step env)\<^sup>*\<^sup>* (s, C) (snd (m s), C')"
  using assms unfolding scheduled_def by blast

lemma scheduled_step:
  assumes "\<And>s C. config_inv env (s, C) \<Longrightarrow> R \<subseteq> C \<Longrightarrow> incident_step env (s, C) (snd (m s), C)"
  shows "scheduled env R m"
  unfolding scheduled_def using assms by blast

lemma scheduled_other: "evolves same_records m \<Longrightarrow> scheduled env R m"
  by (intro scheduled_step incident_step.other) (simp add: evolves_def same_records_def)

lemma scheduled_ret [schedule_rules]: "scheduled env R (ret x)"
  by (intro scheduled_other evolve_rules)

lemma scheduled_raise [schedule_rules]: "scheduled env R (raise e)"
  by (intro scheduled_other evolve_rules)

lemma scheduled_raise_if [schedule_rules]: "scheduled env R (raise_if b e)"
  by (intro scheduled_other evolve_rules)

lemma scheduled_follow:
  assumes m: "scheduled env R m" and inv: "config_inv env (s, C)" and R: "R \<subseteq> C"
    and run: "m s = (r, s1)" and k: "scheduled env R k"
  shows "\<exists>C'. C \<subseteq> C' \<and> (incident_step env)\<^sup>*\<^sup>* (s, C) (snd (k s1), C')"
proof -
  obtain C1 where C1: "C \<subseteq> C1" "(incident_step env)\<^sup>*\<^sup>* (s, C) (s1, C1)"
    using scheduledE [OF m inv R] run by (metis snd_conv)
  then have "config_inv env (s1, C1)" using incident_steps_inv inv by blast
  then obtain C2 where "C1 \<subseteq> C2" "(incident_step env)\<^sup>*\<^sup>* (s1, C1) (snd (k s1), C2)"
    using scheduledE [OF k] R C1(1) by (metis order_trans)
  with C1 show ?thesis by (meson order_trans rtranclp_trans)
qed

lemma scheduled_bindp:
  assumes "scheduled env R m" and "\<And>x. scheduled env R (f x)"
  shows "scheduled env R (bindp m f)"
  unfolding scheduled_def
proof (intro allI impI)
  fix s C assume inv: "config_inv env (s, C)" and R: "R \<subseteq> C"
  obtain r s1 where run: "m s = (r, s1)" by fastforce
  show "\<exists>C'. C \<subseteq> C' \<and> (incident_step env)\<^sup>*\<^sup>* (s, C) (snd (bindp m f s), C')"
  proof (cases "fst (m s)")
    case (Inl v)
    then have "snd (bindp m f s) = s1" using run by (simp add: bindp_def)
    then show ?thesis using scheduledE [OF assms(1) inv R] run by (metis snd_conv)
  next
    case (Inr v)
    then have "snd (bindp m f s) = snd (f v s1)" using run by (simp add: bindp_def)
    then show ?thesis using scheduled_follow [OF assms(1) inv R run assms(2)] by simp
  qed
qed

lemma scheduled_seqp [schedule_rules]: "scheduled env R m \<Longrightarrow> scheduled env R k \<Longrightarrow> scheduled env R (seqp m k)"
  unfolding seqp_def by (rule scheduled_bindp)

lemma scheduled_trycatch [schedule_rules]:
  assumes "scheduled env R m" and "\<And>e. scheduled env R (h e)"
  shows "scheduled env R (trycatch m h)"
  unfolding scheduled_def
proof (intro allI impI)
  fix s C assume inv: "config_inv env (s, C)" and R: "R \<subseteq> C"
  obtain r s1 where run: "m s = (r, s1)" by fastforce
  show "\<exists>C'. C \<subseteq> C' \<and> (incident_step env)\<^sup>*\<^sup>* (s, C) (snd (trycatch m h s), C')"
  proof (cases "fst (m s)")
    case (Inr v)
    then have "snd (trycatch m h s) = s1" using run by (simp add: trycatch_def)
    then show ?thesis using scheduledE [OF assms(1) inv R] run by (metis snd_conv)
  next
    case (Inl v)
    then have "snd (trycatch m h s) = snd (h v s1)" using run by (simp add: trycatch_def)
    then show ?thesis using scheduled_follow [OF assms(1) inv R run assms(2)] by simp
  qed
qed

lemma scheduled_if [schedule_rules]:
  "(b \<Longrightarrow> scheduled env R m) \<Longrightarrow> (\<not> b \<Longrightarrow> scheduled env R k) \<Longrightarrow> scheduled env R (if b then m else k)"
  by simp

lemma scheduled_let [schedule_rules]: "(\<And>x. scheduled env R (f x)) \<Longrightarrow> scheduled env R (Let v f)"
  by (simp add: Let_def)

lemma scheduled_prod [schedule_rules]:
  "(\<And>a b. scheduled env R (f a b)) \<Longrightarrow> scheduled env R (case p of (a, b) \<Rightarrow> f a b)"
  by (cases p) simp

lemma scheduled_option [schedule_rules]:
  "(x = None \<Longrightarrow> scheduled env R m) \<Longrightarrow> (\<And>y. x = Some y \<Longrightarrow> scheduled env R (f y)) \<Longrightarrow>
   scheduled env R (case x of None \<Rightarrow> m | Some y \<Rightarrow> f y)"
  by (cases x) simp_all

lemma scheduled_lift:
  "(\<And>v. x = Inr v \<Longrightarrow> scheduled env R (f v)) \<Longrightarrow> scheduled env R (bindp (lift_error x) f)"
  by (cases x) (simp_all add: lift_error_def scheduled_raise)

lemma scheduled_lift3:
  "(\<And>a b c. x = Inr (a, b, c) \<Longrightarrow> scheduled env R (f a b c)) \<Longrightarrow>
   scheduled env R (bindp (lift_error x) (\<lambda>(a, b, c). f a b c))"
  by (rule scheduled_lift) auto

text \<open>What is read from the store is a copy the later writes may use.\<close>

lemma scheduled_copy:
  assumes inv: "config_inv env (s, C)" and R: "R \<subseteq> C" and i: "stored s k = Some i"
    and f: "scheduled env (insert i R) m"
  shows "\<exists>C'. C \<subseteq> C' \<and> (incident_step env)\<^sup>*\<^sup>* (s, C) (snd (m s), C')"
proof -
  have step: "incident_step env (s, C) (s, insert i C)" using i by (rule incident_step.read)
  with inv have "config_inv env (s, insert i C)" using incident_step_inv by blast
  then obtain C' where "insert i C \<subseteq> C'" "(incident_step env)\<^sup>*\<^sup>* (s, insert i C) (snd (m s), C')"
    using scheduledE [OF f] R by (metis insert_mono)
  with step show ?thesis by (meson converse_rtranclp_into_rtranclp insert_subset)
qed

lemma scheduled_get:
  assumes "scheduled env R (f None)" and "\<And>i. scheduled env (insert i R) (f (Some i))"
  shows "scheduled env R (bindp (get_incident t iid e) f)"
  unfolding scheduled_def
proof (intro allI impI)
  fix s C assume inv: "config_inv env (s, C)" and R: "R \<subseteq> C"
  define x where "x = (case stored s iid of None \<Rightarrow> None
    | Some i \<Rightarrow> if in_tenant_id i = t \<and> (e = None \<or> e = Some (in_environment i)) then Some i else None)"
  have x: "get_incident t iid e s = (Inr x, s)" by (simp add: get_incident_def x_def)
  have in_store: "stored s iid = Some i" if "x = Some i" for i
    using that by (simp add: x_def split: option.splits if_splits)
  show "\<exists>C'. C \<subseteq> C' \<and> (incident_step env)\<^sup>*\<^sup>* (s, C) (snd (bindp (get_incident t iid e) f s), C')"
  proof (cases x)
    case None
    with x have "snd (bindp (get_incident t iid e) f s) = snd (f None s)" by (simp add: bindp_def)
    then show ?thesis using scheduledE [OF assms(1) inv R] by metis
  next
    case (Some i)
    with x show ?thesis using scheduled_copy [OF inv R in_store assms(2)] by (simp add: bindp_def)
  qed
qed

lemma scheduled_get_case:
  assumes "scheduled env R m" and "\<And>i. scheduled env (insert i R) (f i)"
  shows "scheduled env R (bindp (get_incident t iid e) (\<lambda>x. case x of None \<Rightarrow> m | Some i \<Rightarrow> f i))"
  using assms by (intro scheduled_get) simp_all

lemma scheduled_find:
  assumes "scheduled env R (f None)"
    and "\<And>i. for_key env t fd i \<Longrightarrow> scheduled env (insert i R) (f (Some i))"
  shows "scheduled env R (bindp (find_incident_by_dedup t (fn_environment fd) (deduplication_key env fd 60)) f)"
  unfolding scheduled_def
proof (intro allI impI)
  fix s C assume inv: "config_inv env (s, C)" and R: "R \<subseteq> C"
  define x where "x = List.find (\<lambda>i. in_tenant_id i = t \<and> in_environment i = fn_environment fd \<and>
    in_deduplication_key i = deduplication_key env fd 60) (dvals (im_incidents s))"
  have run: "find_incident_by_dedup t (fn_environment fd) (deduplication_key env fd 60) s = (Inr x, s)"
    by (simp add: find_incident_by_dedup_def x_def)
  show "\<exists>C'. C \<subseteq> C' \<and> (incident_step env)\<^sup>*\<^sup>* (s, C)
      (snd (bindp (find_incident_by_dedup t (fn_environment fd) (deduplication_key env fd 60)) f s), C')"
  proof (cases x)
    case None
    then have "snd (bindp (find_incident_by_dedup t (fn_environment fd) (deduplication_key env fd 60)) f s) = snd (f None s)"
      using run by (simp add: bindp_def)
    then show ?thesis using scheduledE [OF assms(1) inv R] by metis
  next
    case (Some i)
    then have "for_key env t fd i" and "i \<in> set (dvals (im_incidents s))"
      by (auto simp: x_def find_Some_iff for_key_def)
    moreover from this(2) obtain k where "(k, i) \<in> set (im_incidents s)" by auto
    then have "stored s k = Some i" using distinct_dget [OF config_invD(2) [OF inv]] by blast
    ultimately show ?thesis
      using Some run scheduled_copy [OF inv R _ assms(2)] by (simp add: bindp_def)
  qed
qed

lemma scheduled_ingest_attempts [schedule_rules]: "scheduled env R (ingest_attempts env tenant f n)"
proof (induction n arbitrary: R)
  case (Suc n)
  have opened: "scheduled env R (ingest_write env tenant f None)" for R
    by (intro scheduled_step incident_step.create)
  have merge: "scheduled env (insert i R) (ingest_write env tenant f (Some i))" if "for_key env tenant f i" for i R
    using that by (intro scheduled_step incident_step.merge) auto
  show ?case
    unfolding ingest_attempts.simps by (intro scheduled_find schedule_rules opened merge Suc)
qed (unfold ingest_attempts.simps, rule scheduled_raise)

lemma untouched_lift [evolve_rules]: "evolves same_records (lift_error x)"
  by (cases x) (simp_all add: lift_error_def evolves_def same_records_def)

lemma scheduled_save: "scheduled env R (save_finding f)"
  by (intro scheduled_step incident_step.other) (simp add: save_finding_def bindp_apply seqp_apply split: option.split)

lemma scheduled_ingest: "scheduled env R (ingest env correlating event tenant)"
  unfolding ingest_def
  by (rule scheduled_lift schedule_rules scheduled_bindp scheduled_other [OF untouched_now] scheduled_other [OF untouched_process_or_defer]
      scheduled_save)+

lemma scheduled_move:
  "i \<in> R \<Longrightarrow> transition now i state reason = Inr j \<Longrightarrow> scheduled env R (update_incident env j)"
  by (intro scheduled_step incident_step.move) auto

lemma scheduled_transition: "scheduled env R (transition_incident env tenant iid state reason)"
  unfolding transition_incident_def
  by (rule scheduled_get_case scheduled_lift scheduled_move [OF insertI1] schedule_rules
      scheduled_other [OF untouched_now] scheduled_bindp | assumption)+

lemma mutated_cases:
  assumes "mutated now i r = Inr (j, et, sm)"
  obtains state where "wr_state r = Some state" and "transition now i state (wr_reason r) = Inr j"
  | owner where "wr_state r = None" and "wr_owner r \<noteq> None" and "j = i\<lparr>in_owner_team := owner\<rparr>"
  | "wr_state r = None" and "wr_owner r = None" and "j = i"
  using assms by (auto simp: mutated_def split: option.splits sum.splits if_splits)

lemma scheduled_mutated:
  assumes i: "i \<in> R" and m: "mutated now i r = Inr (j, et, sm)"
  shows "scheduled env R (if wr_state r \<noteq> None \<or> wr_owner r \<noteq> None then update_incident env j else ret j)"
proof (cases rule: mutated_cases [OF m])
  case (1 state)
  with i show ?thesis by (simp add: scheduled_move)
next
  case (2 owner)
  with i show ?thesis by (auto intro!: scheduled_step incident_step.assign)
next
  case 3
  then show ?thesis by (simp add: scheduled_ret)
qed

lemma scheduled_mutate: "scheduled env R (mutate env tenant environment iid r)"
proof -
  have detail: "scheduled env R (detail tenant environment iid q)" for R q
    unfolding detail_def by (intro scheduled_other evolve_rules)
  have fresh: "scheduled env R (mutate_fresh env tenant environment iid r op fp)" for R op fp
    unfolding mutate_fresh_def
    by (rule scheduled_get_case scheduled_lift3 scheduled_mutated [OF insertI1] schedule_rules detail scheduled_other [OF untouched_now]
        scheduled_other [OF untouched_repositories(18)] scheduled_other [OF untouched_repositories(19)]
        scheduled_bindp | assumption)+
  show ?thesis
    unfolding mutate_def
    by (rule schedule_rules detail fresh scheduled_other [OF untouched_repositories(17)]
        scheduled_other [OF untouched_repositories(19)] scheduled_bindp)+
qed

lemmas calls_are_schedules = scheduled_ingest scheduled_transition scheduled_mutate
  scheduled_other [OF untouched_process] scheduled_other [OF untouched_reconcile] scheduled_other [OF untouched_defer]

end
