(* ===== verification/TenantIsolation.thy ===== *)
theory TenantIsolation
  imports IncidentRuns
begin

text \<open>
  What a call made for one tenant can do to the data of others: nothing. The identifiers of findings, incidents,
  groups and windows are digests, and no property of the digest is used: an entry of another tenant under the
  identifier a call computes makes the call fail or leaves the entry alone.

  \<^item> \<open>others p m\<close>: the entries of a store that do not satisfy \<open>p\<close>; \<open>others_view T s\<close>: all entries of tenants other
    than \<open>T\<close>.
  \<^item> \<open>isolated T s s'\<close>: the view of the others is the same, and entries stay filed under their identifier.
  \<^item> \<open>own_group\<close>, \<open>own_incident\<close>: the entry under an identifier, if there is one, belongs to \<open>T\<close>. Once true it stays
    true along isolated steps, which is what makes a read followed by a conditional write safe.
\<close>

section \<open>Views\<close>

definition others :: "('v \<Rightarrow> bool) \<Rightarrow> ('k \<Rightarrow> 'v option) \<Rightarrow> 'k \<Rightarrow> 'v option" where
  "others p m = (\<lambda>k. case m k of None \<Rightarrow> None | Some v \<Rightarrow> if p v then None else Some v)"

lemma others_put: "p v \<Longrightarrow> (\<And>x. m k = Some x \<Longrightarrow> p x) \<Longrightarrow> others p (m(k \<mapsto> v)) = others p m"
  by (auto simp: others_def fun_eq_iff split: option.split)

lemma others_own: "others p m' = others p m \<Longrightarrow> (\<And>x. m k = Some x \<Longrightarrow> p x) \<Longrightarrow> m' k = Some v \<Longrightarrow> p v"
  unfolding others_def fun_eq_iff
  by (drule spec [of _ k]) (cases "m k"; auto split: if_splits)

definition filed_as :: "('v \<Rightarrow> 'k) \<Rightarrow> ('k \<times> 'v) list \<Rightarrow> bool" where
  "filed_as key d \<longleftrightarrow> distinct (map fst d) \<and> (\<forall>k v. dget d k = Some v \<longrightarrow> key v = k)"

lemma filed_as_put: "filed_as key d \<Longrightarrow> key v = k \<Longrightarrow> filed_as key (dput k v d)"
  by (auto simp: filed_as_def distinct_dput)

lemma filed_as_mem: "filed_as key d \<Longrightarrow> v \<in> set (dvals d) \<Longrightarrow> dget d (key v) = Some v"
proof -
  assume d: "filed_as key d" and "v \<in> set (dvals d)"
  then obtain k where mem: "(k, v) \<in> set d" by auto
  from d have dist: "distinct (map fst d)" and key: "dget d k = Some v \<longrightarrow> key v = k"
    unfolding filed_as_def by blast+
  have "dget d k = Some v" by (rule distinct_dget [OF dist, THEN iffD1, OF mem])
  with key show ?thesis by simp
qed

definition im_keyed :: "im_state \<Rightarrow> bool" where
  "im_keyed s \<longleftrightarrow> filed_as in_id (im_incidents s) \<and> filed_as (\<lambda>g. cg_id (sg_group g)) (im_groups s) \<and>
     filed_as (\<lambda>w. fw_flood_id (sf_window w)) (im_windows s)"

definition others_view where
  "others_view T s =
     (others (\<lambda>f. fn_tenant_id f = T) (dget (im_findings s)),
      others (\<lambda>i. in_tenant_id i = T) (dget (im_incidents s)),
      others (\<lambda>g. cg_tenant_id (sg_group g) = T) (dget (im_groups s)),
      others (\<lambda>(t, e, d). t = T) (dget (im_decisions s)),
      others (\<lambda>d. de_tenant_id d = T) (dget (im_deferred s)),
      others (\<lambda>w. fw_tenant_id (sf_window w) = T) (dget (im_windows s)),
      others (\<lambda>t. tr_tenant_id t = T) (dget (im_transitions s)),
      others (\<lambda>(t, e, n). t = T) (dget (im_notifications s)),
      others (\<lambda>a. vget a ''tenant_id'' = VStr T) (dget (im_approvals s)))"

definition isolated :: "string \<Rightarrow> im_state \<Rightarrow> im_state \<Rightarrow> bool" where
  "isolated T s s' \<longleftrightarrow> (im_keyed s \<longrightarrow> im_keyed s') \<and> others_view T s' = others_view T s"

lemma isolated_trans: "isolated T s t \<Longrightarrow> isolated T t u \<Longrightarrow> isolated T s u"
  by (simp add: isolated_def)

interpretation isolation: step_order "isolated T" for T
  by unfold_locales (simp_all add: isolated_def)

definition own_group :: "string \<Rightarrow> im_state \<Rightarrow> string \<Rightarrow> bool" where
  "own_group T s k \<longleftrightarrow> (\<forall>g. dget (im_groups s) k = Some g \<longrightarrow> cg_tenant_id (sg_group g) = T)"

definition own_incident :: "string \<Rightarrow> im_state \<Rightarrow> string \<Rightarrow> bool" where
  "own_incident T s k \<longleftrightarrow> (\<forall>i. dget (im_incidents s) k = Some i \<longrightarrow> in_tenant_id i = T)"

definition own_window :: "string \<Rightarrow> im_state \<Rightarrow> string \<Rightarrow> bool" where
  "own_window T s k \<longleftrightarrow> (\<forall>w. dget (im_windows s) k = Some w \<longrightarrow> fw_tenant_id (sf_window w) = T)"

lemma own_stays:
  assumes "isolated T s s'"
  shows "own_group T s k \<Longrightarrow> own_group T s' k" and "own_incident T s k \<Longrightarrow> own_incident T s' k"
    and "own_window T s k \<Longrightarrow> own_window T s' k"
proof -
  from assms have g: "others (\<lambda>g. cg_tenant_id (sg_group g) = T) (dget (im_groups s')) =
      others (\<lambda>g. cg_tenant_id (sg_group g) = T) (dget (im_groups s))"
    and i: "others (\<lambda>i. in_tenant_id i = T) (dget (im_incidents s')) = others (\<lambda>i. in_tenant_id i = T) (dget (im_incidents s))"
    and w: "others (\<lambda>w. fw_tenant_id (sf_window w) = T) (dget (im_windows s')) =
      others (\<lambda>w. fw_tenant_id (sf_window w) = T) (dget (im_windows s))"
    by (simp_all add: isolated_def others_view_def)
  show "own_group T s k \<Longrightarrow> own_group T s' k"
    unfolding own_group_def using others_own [OF g, of k] by blast
  show "own_incident T s k \<Longrightarrow> own_incident T s' k"
    unfolding own_incident_def using others_own [OF i, of k] by blast
  show "own_window T s k \<Longrightarrow> own_window T s' k"
    unfolding own_window_def using others_own [OF w, of k] by blast
qed

lemma keyed_stays: "isolated T s s' \<Longrightarrow> im_keyed s \<Longrightarrow> im_keyed s'"
  by (simp add: isolated_def)

section \<open>Repositories\<close>

lemma isolated_reads [evolve_rules]:
  "evolves (isolated T) (im_now env)"
  "evolves (isolated T) (get_incident t iid e)"
  "evolves (isolated T) (find_incident_by_dedup t ev dedup)"
  "evolves (isolated T) (get_group t ev gid)"
  "evolves (isolated T) (find_candidate_groups t ev i)"
  "evolves (isolated T) (find_group_for_incident t ev iid)"
  "evolves (isolated T) (get_window t ev fid)"
  "evolves (isolated T) (list_deferred limit)"
  by (simp_all add: evolves_def im_now_def isolated_def others_view_def im_keyed_def get_incident_def find_incident_by_dedup_def
      get_group_def find_candidate_groups_def find_group_for_incident_def get_window_def list_deferred_def)

lemma isolated_put_group:
  assumes "cg_tenant_id (sg_group g) = T" and "own_group T s (cg_id (sg_group g))"
  shows "isolated T s (s\<lparr>im_groups := dput (cg_id (sg_group g)) g (im_groups s)\<rparr>)"
  using assms by (auto simp: isolated_def others_view_def im_keyed_def filed_as_put own_group_def dget_dput_fun intro!: others_put)

lemma isolated_put_incident:
  assumes "in_tenant_id i = T" and "own_incident T s (in_id i)"
  shows "isolated T s (s\<lparr>im_incidents := dput (in_id i) i (im_incidents s)\<rparr>)"
  using assms by (auto simp: isolated_def others_view_def im_keyed_def filed_as_put own_incident_def dget_dput_fun intro!: others_put)

lemma isolated_put_window:
  assumes "fw_tenant_id (sf_window w) = T" and "own_window T s (fw_flood_id (sf_window w))"
  shows "isolated T s (s\<lparr>im_windows := dput (fw_flood_id (sf_window w)) w (im_windows s)\<rparr>)"
  using assms by (auto simp: isolated_def others_view_def im_keyed_def filed_as_put own_window_def dget_dput_fun intro!: others_put)

lemma isolated_put_incident_later:
  assumes "in_tenant_id i = T" and "own_incident T s (in_id i)"
  shows "isolated T s (s\<lparr>im_ticks := n, im_incidents := dput (in_id i) i (im_incidents s)\<rparr>)"
proof (rule isolated_trans)
  show "isolated T s (s\<lparr>im_ticks := n\<rparr>)" by (simp add: isolated_def others_view_def im_keyed_def)
  show "isolated T (s\<lparr>im_ticks := n\<rparr>) (s\<lparr>im_ticks := n, im_incidents := dput (in_id i) i (im_incidents s)\<rparr>)"
    using isolated_put_incident [of i T "s\<lparr>im_ticks := n\<rparr>"] assms by (simp add: own_incident_def)
qed

lemma isolated_create_group [evolve_rules]:
  assumes "cg_tenant_id g = T"
  shows "evolves (isolated T) (create_group g)"
proof (rule evolvesI)
  fix s
  have "isolated T s (s\<lparr>im_groups := dput (cg_id g) \<lparr>sg_group = g, sg_seq_no = 0, sg_primary_term = 1\<rparr> (im_groups s)\<rparr>)"
    if "dget (im_groups s) (cg_id g) = None"
    using isolated_put_group [of "\<lparr>sg_group = g, sg_seq_no = 0, sg_primary_term = 1\<rparr>" T s] assms that
    by (simp add: own_group_def)
  then show "isolated T s (snd (create_group g s))"
    by (auto simp: create_group_def bindp_apply seqp_apply Let_def isolation.step_refl)
qed

lemma isolated_create_window [evolve_rules]:
  assumes "fw_tenant_id (sf_window w) = T"
  shows "evolves (isolated T) (create_window w)"
proof (rule evolvesI)
  fix s
  have "isolated T s (s\<lparr>im_windows := dput (fw_flood_id (sf_window w)) (w\<lparr>sf_seq_no := 0, sf_primary_term := 1\<rparr>) (im_windows s)\<rparr>)"
    if "dget (im_windows s) (fw_flood_id (sf_window w)) = None"
    using isolated_put_window [of "w\<lparr>sf_seq_no := 0, sf_primary_term := 1\<rparr>" T s] assms that
    by (simp add: own_window_def)
  then show "isolated T s (snd (create_window w s))"
    by (auto simp: create_window_def bindp_apply seqp_apply Let_def isolation.step_refl)
qed

lemma isolated_create_incident [evolve_rules]:
  assumes "in_tenant_id i = T"
  shows "evolves (isolated T) (create_incident env i)"
proof (rule evolvesI)
  fix s :: im_state
  let ?i = "i\<lparr>in_updated_at := ie_clock env (im_ticks s), in_seq_no := Some 0, in_primary_term := Some 1\<rparr>"
  have "isolated T s (s\<lparr>im_ticks := n, im_incidents := dput (in_id i) ?i (im_incidents s)\<rparr>)"
    if "dget (im_incidents s) (in_id i) = None" for n
    using isolated_put_incident_later [of ?i T s n] assms that by (simp add: own_incident_def)
  then show "isolated T s (snd (create_incident env i s))"
    by (auto simp: create_run isolation.step_refl)
qed

lemma isolated_appends [evolve_rules]:
  "evolves (isolated T) (append_decision T ev d)"
  "evolves (isolated T) (append_transition env T ev eid fid fd)"
  "evolves (isolated T) (append_notification T ev n)"
  by (auto simp: evolves_def append_decision_def append_transition_def append_notification_def bindp_apply
      seqp_apply Let_def isolation.step_refl isolated_def others_view_def im_keyed_def dget_dput_fun intro!: others_put split: option.split)

lemma isolated_record_deferred [evolve_rules]:
  "de_tenant_id d = T \<Longrightarrow> evolves (isolated T) (record_deferred d)"
  by (auto simp: evolves_def record_deferred_def bindp_apply seqp_apply isolation.step_refl isolated_def others_view_def im_keyed_def
      dget_dput_fun intro!: others_put split: option.split)

lemma isolated_save_finding [evolve_rules]:
  "fn_tenant_id f = T \<Longrightarrow> evolves (isolated T) (save_finding f)"
  by (auto simp: evolves_def save_finding_def bindp_apply seqp_apply isolation.step_refl isolated_def others_view_def im_keyed_def
      dget_dput_fun intro!: others_put split: option.split)

lemma isolated_update_group:
  assumes "cg_tenant_id (sg_group g) = T" and "own_group T s (cg_id (sg_group g))"
  shows "isolated T s (snd (update_group g s))"
  using isolated_put_group [of "g\<lparr>sg_seq_no := sg_seq_no g + 1\<rparr>" T s] assms
  by (auto simp: update_group_def bindp_apply seqp_apply Let_def isolation.step_refl split: option.split)

lemma isolated_update_window:
  assumes "fw_tenant_id (sf_window w) = T" and "own_window T s (fw_flood_id (sf_window w))"
  shows "isolated T s (snd (update_window w s))"
  using isolated_put_window [of "w\<lparr>sf_seq_no := sf_seq_no w + 1\<rparr>" T s] assms
  by (auto simp: update_window_def bindp_apply seqp_apply Let_def isolation.step_refl split: option.split)

lemma isolated_update_incident:
  assumes "in_tenant_id j = T" and "own_incident T s (in_id j)"
  shows "isolated T s (snd (update_incident env j s))"
proof (cases rule: update_incident_cases [of env j s])
  case conflict
  then show ?thesis by (simp add: isolation.step_refl)
next
  case (stored c n)
  let ?j = "restamped (ie_clock env (im_ticks s)) j"
  have "in_tenant_id ?j = T" using assms(1) by (simp add: restamped_def)
  then show ?thesis
    using isolated_put_incident_later [of ?j T s "Suc (im_ticks s)"] assms(2) by (simp add: stored(5))
qed

section \<open>The coordinator\<close>

lemma get_group_own:
  assumes "im_keyed s" and "get_group t ev k s = (Inr (Some g), s')"
  shows "s' = s" and "cg_id (sg_group g) = k" and "cg_tenant_id (sg_group g) = t"
  using assms by (auto simp: get_group_def im_keyed_def filed_as_def split: option.splits if_splits)

lemma get_group_run: "get_group t ev k s = (Inr x, s') \<Longrightarrow> s' = s"
  by (simp add: get_group_def)

lemma attached_scope [simp]:
  "cg_id (attached_group now g i d) = cg_id g" "cg_tenant_id (attached_group now g i d) = cg_tenant_id g"
  "cg_environment (attached_group now g i d) = cg_environment g"
  by (simp_all add: attached_group_def Let_def)

lemma now_run: "im_now env s = (Inr (ie_clock env (im_ticks s)), s\<lparr>im_ticks := Suc (im_ticks s)\<rparr>)"
  by (simp add: im_now_def)

lemma isolated_tick: "isolated T s (s\<lparr>im_ticks := n\<rparr>)"
  by (simp add: isolated_def others_view_def im_keyed_def)

lemma isolated_attach:
  assumes "im_keyed s" and "own_group (in_tenant_id i) s (cg_id (sg_group g))" and "cg_tenant_id (sg_group g) = in_tenant_id i"
  shows "isolated (in_tenant_id i) s (snd (attach_with_occ env n g i d s))"
  using assms
proof (induction n arbitrary: g s)
  case (Suc n)
  let ?T = "in_tenant_id i" and ?s = "s\<lparr>im_ticks := Suc (im_ticks s)\<rparr>"
  let ?g = "g\<lparr>sg_group := attached_group (ie_clock env (im_ticks s)) (sg_group g) i d\<rparr>"
  have tick: "isolated ?T s ?s" by (rule isolated_tick)
  have own: "own_group ?T ?s (cg_id (sg_group g))" using own_stays(1) [OF tick] Suc.prems(2) .
  obtain r s1 where up: "update_group ?g ?s = (r, s1)" by fastforce
  have one: "isolated ?T ?s s1"
    using isolated_update_group [of ?g ?T ?s] own Suc.prems(3) up by simp
  have keyed1: "im_keyed s1" using keyed_stays one tick Suc.prems(1) by blast
  have own1: "own_group ?T s1 (cg_id (sg_group g))" using own_stays(1) [OF one] own .
  have step: "isolated ?T s s1" using isolated_trans tick one by blast
  obtain c where got: "get_group ?T (in_environment i) (cg_id (sg_group g)) s1 = (Inr c, s1)"
    by (simp add: get_group_def)
  have rest: "isolated ?T s1 (snd ((case c of None \<Rightarrow> attach_with_occ env n ?g i d
      | Some c \<Rightarrow> if in_id i \<in> set (cg_member_incident_ids (sg_group c)) then ret c else attach_with_occ env n c i d) s1))"
  proof (cases c)
    case None
    then show ?thesis using Suc.IH [OF keyed1, of ?g] own1 Suc.prems(3) by simp
  next
    case (Some x)
    from get_group_own [OF keyed1, of ?T "in_environment i" "cg_id (sg_group g)" x s1] got Some
    have "cg_id (sg_group x) = cg_id (sg_group g)" and "cg_tenant_id (sg_group x) = ?T" by simp_all
    with Some show ?thesis using Suc.IH [OF keyed1, of x] own1 by (simp add: isolation.step_refl)
  qed
  have "snd (attach_with_occ env (Suc n) g i d s) = (case r of Inr x \<Rightarrow> s1
      | Inl e \<Rightarrow> snd ((case c of None \<Rightarrow> attach_with_occ env n ?g i d
        | Some c \<Rightarrow> if in_id i \<in> set (cg_member_incident_ids (sg_group c)) then ret c else attach_with_occ env n c i d) s1))"
    using got by (simp add: bindp_def now_run Let_def trycatch_def up split: sum.split)
  then show ?case using step isolated_trans [OF step rest] by (cases r) simp_all
qed (simp add: isolation.step_refl)

lemma evaluate_scope:
  "fw_flood_id (snd (evaluate_flood w e p q)) = fw_flood_id w"
  "fw_tenant_id (snd (evaluate_flood w e p q)) = fw_tenant_id w"
  "fw_environment (snd (evaluate_flood w e p q)) = fw_environment w"
  "fw_group_id (snd (evaluate_flood w e p q)) = fw_group_id w"
  by (simp_all add: evaluate_flood_def Let_def case_prod_beta)

lemma isolated_store_window:
  assumes "im_keyed s" and "fw_flood_id (sf_window w) = fid" and "fw_tenant_id (sf_window w) = in_tenant_id i"
  shows "isolated (in_tenant_id i) s (snd (store_window i fid eid w s))"
  unfolding store_window_def
proof (rule isolation.at_trycatch)
  show "isolated (in_tenant_id i) s (snd (bindp (get_window (in_tenant_id i) (in_environment i) fid)
      (\<lambda>present. if present = None then create_window w else update_window w) s))"
  proof (rule isolation.at_bindp)
    show "isolated (in_tenant_id i) s (snd (get_window (in_tenant_id i) (in_environment i) fid s))"
      by (simp add: get_window_def isolation.step_refl)
    fix x s' assume got: "get_window (in_tenant_id i) (in_environment i) fid s = (Inr x, s')"
    show "isolated (in_tenant_id i) s' (snd ((if x = None then create_window w else update_window w) s'))"
    proof (cases "x = None")
      case True
      then show ?thesis using evolves_snd [OF isolated_create_window [OF assms(3)]] by simp
    next
      case False
      with got have "own_window (in_tenant_id i) s' fid"
        by (auto simp: get_window_def own_window_def in_flood_scope_def split: option.splits if_splits)
      then have "own_window (in_tenant_id i) s' (fw_flood_id (sf_window w))" by (simp only: assms(2))
      from isolated_update_window [OF assms(3) this] False show ?thesis by (simp only: if_False)
    qed
  qed
next
  fix e s'
  have "evolves (isolated (in_tenant_id i)) (bindp (get_window (in_tenant_id i) (in_environment i) fid)
      (\<lambda>current. case current of None \<Rightarrow> raise e
        | Some c \<Rightarrow> if dget (fw_events (sf_window c)) eid = None then raise e else ret c))"
    by (intro evolve_rules)
  then show "isolated (in_tenant_id i) s' (snd (bindp (get_window (in_tenant_id i) (in_environment i) fid)
      (\<lambda>current. case current of None \<Rightarrow> raise e
        | Some c \<Rightarrow> if dget (fw_events (sf_window c)) eid = None then raise e else ret c) s'))"
    by (rule evolves_snd)
qed

lemma isolated_flood_now [evolve_rules]: "evolves (isolated T) (flood_now env i)"
  unfolding flood_now_def by (intro evolve_rules)

lemma isolated_flood:
  assumes "im_keyed s"
  shows "isolated (in_tenant_id i) s (snd (evaluate_group_flood env g i revision s))"
  unfolding evaluate_group_flood_def Let_def
proof (rule isolation.at_bindp)
  let ?T = "in_tenant_id i" and ?fid = "flood_id_of env g i"
  show "isolated ?T s (snd (get_window ?T (in_environment i) ?fid s))" by (rule evolves_snd) (rule isolated_reads)
  fix found s1 assume got: "get_window ?T (in_environment i) ?fid s = (Inr found, s1)" and to1: "isolated ?T s s1"
  let ?w = "case found of None \<Rightarrow> new_stored_flood g i ?fid | Some w \<Rightarrow> w"
  have scope: "fw_flood_id (sf_window ?w) = ?fid \<and> fw_tenant_id (sf_window ?w) = ?T"
    using got assms by (auto simp: get_window_def in_flood_scope_def im_keyed_def filed_as_def new_stored_flood_def
        new_window_def split: option.splits if_splits)
  show "isolated ?T s1 (snd (bindp (flood_now env i) (\<lambda>now.
      case evaluate_flood (sf_window ?w) (flood_event_of env i (flood_event_id env i revision ?fid) now) v1_flood_policy None of
      (d, w) \<Rightarrow> bindp (store_window i ?fid (flood_event_id env i revision ?fid) (?w\<lparr>sf_window := w,
        sf_projection := dput ''total_occurrence_count'' (VInt (cg_total_occurrence_count g))
          (dput ''highest_severity'' (VStr (cg_highest_severity g)) (sf_projection ?w))\<rparr>)) (\<lambda>final.
        seqp (append_transition env ?T (in_environment i) (deterministic_id env ''flood-transition''
            [?fid, flood_event_id env i revision ?fid, flood_state_str (fd_prior_state d), flood_state_str (fd_new_state d),
             fp_version v1_flood_policy]) ?fid d)
        (seqp (append_notification ?T (in_environment i)
          \<lparr>nd_decision_id = deterministic_id env ''notification-decision''
              [?fid, flood_event_id env i revision ?fid, fd_notification_decision d, fp_version v1_flood_policy],
            nd_flood_id = ?fid, nd_group_id = cg_id g,
            nd_representative_incident_id = cg_representative_incident_id g,
            nd_action = fd_notification_decision d, nd_reason_codes = fd_reason_codes d,
            nd_policy_version = fp_version v1_flood_policy, nd_created_at = fd_window_end d,
            nd_eligibility_at = fd_window_end d, nd_idempotency_key = deterministic_id env ''notification-decision''
              [?fid, flood_event_id env i revision ?fid, fd_notification_decision d, fp_version v1_flood_policy],
            nd_status = ''eligible''\<rparr>)
        (ret \<lparr>fo_flood_id = ?fid, fo_state = fw_state (sf_window final), fo_decision_id =
            deterministic_id env ''notification-decision''
              [?fid, flood_event_id env i revision ?fid, fd_notification_decision d, fp_version v1_flood_policy],
          fo_action = fd_notification_decision d, fo_reason_codes = fd_reason_codes d\<rparr>)))) s1))"
  proof (rule isolation.at_bindp, goal_cases)
    case 1
    show ?case by (rule evolves_snd) (rule isolated_flood_now)
  next
    case (2 now s2)
    then have keyed2: "im_keyed s2" using keyed_stays to1 assms by blast
    show ?case
      unfolding case_prod_beta
      by (rule isolation.at_bindp, rule isolated_store_window [OF keyed2])
        (use scope evaluate_scope in \<open>auto intro!: evolves_snd [where R = "isolated ?T"] evolve_rules\<close>)
  qed
qed

end
