(* ===== verification/IncidentProperties.thy ===== *)
theory IncidentProperties
  imports IncidentRuns
begin

text \<open>
  Properties of the incident store. \<open>settled env i f\<close> says that the incident has taken the finding in: merging it
  again changes nothing.
\<close>

section \<open>Replays\<close>

definition settled :: "im_env \<Rightarrow> incident \<Rightarrow> finding \<Rightarrow> bool" where
  "settled env i f \<longleftrightarrow> fn_id f \<in> set (in_finding_ids i) \<and> \<not> is_newer i f \<and> merged_assets i f = in_affected_assets i \<and>
     \<not> (fn_evidence f \<noteq> [] \<and> in_most_recent_evidence i = []) \<and>
     \<not> (in_last_observed_at i = Some (fn_last_observed_at f) \<and>
        \<not> same_evidence (fn_evidence f) (in_most_recent_evidence i) \<and>
        evidence_text (ie_floats env) (in_most_recent_evidence i) < evidence_text (ie_floats env) (fn_evidence f))"

lemma observation_settled:
  "\<not> is_newer i f \<Longrightarrow> snd (merged_observation env (merged_occurrence i f) f) \<longleftrightarrow>
     (fn_evidence f \<noteq> [] \<and> in_most_recent_evidence i = []) \<or>
     (in_last_observed_at i = Some (fn_last_observed_at f) \<and>
        \<not> same_evidence (fn_evidence f) (in_most_recent_evidence i) \<and>
        evidence_text (ie_floats env) (in_most_recent_evidence i) < evidence_text (ie_floats env) (fn_evidence f))"
  by (simp add: merged_observation_def)

lemma settled_unchanged:
  assumes "settled env i f"
  shows "\<not> md_changed (decide_finding_merge env i f)" and "md_incident (decide_finding_merge env i f) = i"
proof -
  from assms have n: "\<not> is_newer i f" by (simp add: settled_def)
  with assms have "\<not> snd (merged_observation env (merged_occurrence i f) f)"
    unfolding observation_settled [OF n] by (simp add: settled_def)
  with assms show "\<not> md_changed (decide_finding_merge env i f)" and "md_incident (decide_finding_merge env i f) = i"
    by (simp_all add: decide_unchanged settled_def)
qed

lemma settled_restamped [simp]: "settled env (restamped now i) f = settled env i f"
  by (simp add: settled_def restamped_def is_newer_def merged_assets_def)

lemma merge_settles: "settled env (md_incident (decide_finding_merge env i f)) f"
proof (cases rule: decide_cases [of env i f])
  case same
  then show ?thesis by (simp add: settled_def observation_settled)
next
  case (new sev factors)
  note again = merged_again [OF refl new(2)]
  from again(4) show ?thesis
    using again(1-3) by (simp add: settled_def observation_settled)
qed

lemma opened_settled:
  "settled env ((opened_incident env tenant f dedup now)\<lparr>in_updated_at := t, in_seq_no := n, in_primary_term := p\<rparr>) f"
proof -
  have "sorted_set (sorted_set ([fn_asset_id f] @ fn_downstream_impact f) @ [fn_asset_id f] @ fn_downstream_impact f) =
      sorted_set ([fn_asset_id f] @ fn_downstream_impact f)"
    by (rule sorted_distinct_set_unique) auto
  then show ?thesis
    by (simp add: settled_def opened_incident_def Let_def case_prod_beta is_newer_def merged_assets_def same_evidence_def)
qed

lemma find_stored:
  assumes inv: "config_inv env (s, C)" and i: "stored s k = Some i" and key: "for_key env t f i"
  shows "find_incident_by_dedup t (fn_environment f) (deduplication_key env f 60) s = (Inr (Some i), s)"
proof -
  let ?P = "\<lambda>i. in_tenant_id i = t \<and> in_environment i = fn_environment f \<and> in_deduplication_key i = deduplication_key env f 60"
  have mem: "i \<in> set (dvals (im_incidents s))" using map_of_SomeD [OF i] by force
  have "List.find ?P (dvals (im_incidents s)) \<noteq> None"
    using mem key by (auto simp: find_None_iff for_key_def)
  then obtain j where j: "List.find ?P (dvals (im_incidents s)) = Some j" by blast
  then have "?P j" and "j \<in> set (dvals (im_incidents s))" by (auto simp: find_Some_iff)
  moreover from this(2) obtain k' where "(k', j) \<in> set (im_incidents s)" by auto
  then have j': "stored s k' = Some j" using distinct_dget [OF config_invD(2) [OF inv]] by blast
  ultimately have "k' = k"
    using config_invD(1) [OF inv i] config_invD(1) [OF inv j'] key by (simp add: filed_def for_key_def)
  with i j' j show ?thesis by (simp add: find_incident_by_dedup_def)
qed

lemma for_key_scope: "in_scope j = in_scope i \<Longrightarrow> for_key env t f j = for_key env t f i"
  using scopeD [of j i] by (simp add: for_key_def)

text \<open>A successful write files the incident it returns under its key, and the incident has taken the finding in.\<close>

lemma ingest_write_settles:
  assumes inv: "config_inv env (s, C)" and found: "\<And>i. found = Some i \<Longrightarrow> i \<in> C \<and> stored s (in_id i) = Some i \<and> for_key env t f i"
    and run: "ingest_write env t f found s = (Inr (i, d), s')"
  shows "\<exists>k. stored s' k = Some i \<and> for_key env t f i \<and> settled env i f"
proof (cases found)
  case None
  with run show ?thesis
    using opened_settled [where env = env and tenant = t and f = f and dedup = "deduplication_key env f 60" and
        now = "ie_clock env (im_ticks s)" and t = "ie_clock env (Suc (im_ticks s))" and n = "Some 0" and p = "Some 1"]
    by (force simp: ingest_write_none for_key_def opened_incident_def Let_def case_prod_beta split: if_splits)
next
  case (Some i0)
  let ?d = "decide_finding_merge env i0 f"
  from found [OF Some] have i0: "i0 \<in> C" and st: "stored s (in_id i0) = Some i0" and key: "for_key env t f i0" by auto
  show ?thesis
  proof (cases "md_changed ?d")
    case False
    with run Some have "i0 = i" and "s = s'" by (auto simp: ingest_write_some Let_def)
    moreover have "md_incident ?d = i0" using False by (cases rule: decide_cases [of env i0 f]) auto
    ultimately show ?thesis using merge_settles [of env i0 f] key st by auto
  next
    case True
    show ?thesis
    proof (cases rule: write_from_copy [OF inv i0 merge_proper, of env f])
      case 1
      with run Some True show ?thesis by (simp add: ingest_write_some Let_def)
    next
      case (2 now s1)
      have "(case update_incident env (md_incident ?d) s of (Inl e, s') \<Rightarrow> (Inl e, s') | (Inr j, s') \<Rightarrow> (Inr (j, ?d), s')) =
          (Inr (i, d), s')"
        using run True unfolding Some ingest_write_some Let_def by simp
      note eqs = this [unfolded 2(2) prod.case sum.case sum.inject prod.inject]
      have i: "i = restamped now (md_incident ?d)" by (rule eqs [THEN conjunct1, THEN conjunct1, symmetric])
      have s': "s' = s1" by (rule eqs [THEN conjunct2, symmetric])
      have "stored s' (in_id i0) = Some i" unfolding s' 2(3) i by simp
      moreover have "for_key env t f i"
        using key for_key_scope [of i i0] progress_scope [OF merge_progress [of i0 env f]] by (simp add: i)
      moreover have "settled env i f" unfolding i using merge_settles by simp
      ultimately show ?thesis by blast
    qed
  qed
qed

lemma ingest_attempts_settles:
  assumes "config_inv env (s, C)" and "ingest_attempts env t f n s = (Inr (i, d), s')"
  shows "\<exists>k C'. config_inv env (s', C') \<and> stored s' k = Some i \<and> for_key env t f i \<and> settled env i f"
  using assms
proof (induction n arbitrary: s C)
  case (Suc n)
  note inv = Suc.prems(1)
  obtain found where find: "find_incident_by_dedup t (fn_environment f) (deduplication_key env f 60) s = (Inr found, s)"
    by (simp add: find_incident_by_dedup_def)
  define C1 where "C1 = C \<union> {x. found = Some x}"
  have copy: "x \<in> C1 \<and> stored s (in_id x) = Some x \<and> for_key env t f x" if "found = Some x" for x
  proof -
    from find that have "for_key env t f x" and "x \<in> set (dvals (im_incidents s))"
      by (auto simp: find_incident_by_dedup_def find_Some_iff for_key_def)
    moreover from this(2) obtain k where "(k, x) \<in> set (im_incidents s)" by auto
    then have "stored s k = Some x" using distinct_dget [OF config_invD(2) [OF inv]] by blast
    ultimately show ?thesis using config_invD(1) [OF inv] that by (simp add: C1_def filed_def)
  qed
  have inv1: "config_inv env (s, C1)"
  proof (cases found)
    case None
    then show ?thesis using inv by (simp add: C1_def)
  next
    case (Some x)
    have "incident_step env (s, C) (s, insert x C)"
      by (rule incident_step.read) (use copy [OF Some] in blast)
    then have "config_inv env (s, insert x C)" using incident_step_inv inv by blast
    moreover have "C1 = insert x C" using Some by (auto simp: C1_def)
    ultimately show ?thesis by (simp only:)
  qed
  show ?case
  proof (cases "ingest_write env t f found s")
    case (Pair r s1)
    have inv2: "config_inv env (s1, C1)" using ingest_write_inv [OF inv1, of found t f] copy Pair by simp
    have run: "ingest_attempts env t f (Suc n) s = (case r of
        Inr x \<Rightarrow> (Inr x, s1)
      | Inl e \<Rightarrow> if e = incident_conflict \<and> n \<noteq> 0 then ingest_attempts env t f n s1 else (Inl e, s1))"
      by (simp add: bindp_def trycatch_def find Pair split: sum.split)
    show ?thesis
    proof (cases r)
      case (Inl e)
      with run Suc.prems(2) have "ingest_attempts env t f n s1 = (Inr (i, d), s')" by (simp split: if_splits)
      then show ?thesis by (rule Suc.IH [OF inv2])
    next
      case (Inr x)
      with run Suc.prems(2) have "x = (i, d)" and s': "s1 = s'" by simp_all
      with Pair Inr have "ingest_write env t f found s = (Inr (i, d), s')" by simp
      from ingest_write_settles [OF inv1 copy this] inv2 s' show ?thesis by blast
    qed
  qed
qed simp

interpretation findings_kept: step_order "\<lambda>s s'. im_findings s' = im_findings s"
  by unfold_locales auto

lemma attempts_keep_findings:
  assumes "ingest_attempts env t f n s = (r, s')"
  shows "im_findings s' = im_findings s"
proof -
  have same: "evolves (\<lambda>s s'. im_findings s' = im_findings s) m" if "evolves same_records m" for m :: "'a im"
    using that by (simp add: evolves_def same_records_def)
  have upd: "im_findings (snd (update_incident env j s)) = im_findings s" for j s
    by (cases rule: update_incident_cases [of env j s]) simp_all
  have "evolves (\<lambda>s s'. im_findings s' = im_findings s) (ingest_write env t f found)" for found
  proof (rule evolvesI)
    show "im_findings (snd (ingest_write env t f found s)) = im_findings s" for s
      using upd [of "md_incident (decide_finding_merge env (the found) f)" s]
      by (cases found) (auto simp: ingest_write_none ingest_write_some Let_def split: prod.split sum.split)
  qed
  then have "evolves (\<lambda>s s'. im_findings s' = im_findings s) (ingest_attempts env t f n)"
  proof (induction n)
    case (Suc n)
    then show ?case
      unfolding ingest_attempts.simps
      by (intro findings_kept.evolves_bindp findings_kept.evolves_trycatch findings_kept.evolves_if
          findings_kept.evolves_raise same [OF untouched_repositories(2)]) auto
  qed (unfold ingest_attempts.simps, rule findings_kept.evolves_raise)
  with assms show ?thesis by (auto dest: evolvesD)
qed

lemma save_finding_cases:
  assumes "save_finding f s = (Inr x, s')"
  shows "im_incidents s' = im_incidents s"
    and "\<exists>c. dget (im_findings s') (fn_id f) = Some c \<and> (fn_tenant_id c, fn_environment c) = (fn_tenant_id f, fn_environment f)"
  using assms by (auto simp: save_finding_def bindp_apply seqp_apply split: option.splits if_splits)

lemma save_finding_again:
  assumes "dget (im_findings s) (fn_id f) = Some c" and "(fn_tenant_id c, fn_environment c) = (fn_tenant_id f, fn_environment f)"
  shows "\<exists>x s'. save_finding f s = (Inr x, s') \<and> im_incidents s' = im_incidents s"
  using assms by (simp add: save_finding_def bindp_apply seqp_apply)

lemma normalize_stamped:
  "py_truthy (vor (vget event ''@timestamp'') (vget event ''observed_at'')) \<Longrightarrow>
   normalize_event env c event tenant = normalize_event env c' event tenant"
  by (simp add: normalize_event_def Let_def split: sum.split option.split prod.split)

lemma process_or_defer_run: "\<exists>p s'. process_or_defer env i s = (Inr p, s') \<and> same_records s s'"
proof -
  have deferred: "\<exists>b s'. defer_incident env i ph t = (Inr b, s')" for ph t
    by (auto simp: defer_incident_def Let_def bindp_apply im_now_def record_deferred_def seqp_apply split: option.split)
  have "\<exists>p s'. process_or_defer env i s = (Inr p, s')"
  proof (cases "process env i s")
    case (Pair r s1)
    obtain b s2 where "defer_incident env i ''correlation'' s1 = (Inr b, s2)" using deferred by blast
    with Pair show ?thesis
      by (cases r) (auto simp: process_or_defer_def trycatch_def bindp_def seqp_def)
  qed
  then show ?thesis using untouched_process_or_defer [of env i] by (auto dest: evolvesD)
qed

lemma lift_error_run: "lift_error x s = (case x of Inl e \<Rightarrow> (Inl e, s) | Inr v \<Rightarrow> (Inr v, s))"
  by (simp add: lift_error_def split: sum.split)

text \<open>The runs of an ingestion of a given finding.\<close>

lemma ingest_run:
  assumes norm: "normalize_event env (ie_clock env (im_ticks s)) event tenant = Inr f"
  shows "ingest env correlating event tenant s =
    bindp (save_finding f) (\<lambda>saved.
    bindp (ingest_attempts env tenant f max_conflict_attempts) (\<lambda>(i, d).
      let result = ingest_result_of saved i d in
      if correlating then bindp (process_or_defer env i) (\<lambda>p. ret (result\<lparr>ig_processing := p\<rparr>))
      else ret result)) (s\<lparr>im_ticks := Suc (im_ticks s)\<rparr>)"
  by (simp add: ingest_def bindp_def im_now_def lift_error_run norm)

lemma ingest_succeeded:
  assumes run: "ingest env correlating event tenant s = (Inr r, s1)" and inv: "config_inv env (s, C)"
  shows "\<exists>f k C'. normalize_event env (ie_clock env (im_ticks s)) event tenant = Inr f \<and> config_inv env (s1, C') \<and>
    stored s1 k = Some (ig_incident r) \<and> for_key env tenant f (ig_incident r) \<and> settled env (ig_incident r) f \<and>
    (\<exists>c. dget (im_findings s1) (fn_id f) = Some c \<and>
       (fn_tenant_id c, fn_environment c) = (fn_tenant_id f, fn_environment f))"
proof -
  obtain f where norm: "normalize_event env (ie_clock env (im_ticks s)) event tenant = Inr f"
    using run by (cases "normalize_event env (ie_clock env (im_ticks s)) event tenant")
      (auto simp: ingest_def bindp_def im_now_def lift_error_run)
  let ?s = "s\<lparr>im_ticks := Suc (im_ticks s)\<rparr>"
  from run obtain saved s2 where save: "save_finding f ?s = (Inr saved, s2)" and
    rest: "bindp (ingest_attempts env tenant f max_conflict_attempts) (\<lambda>(i, d).
      let result = ingest_result_of saved i d in
      if correlating then bindp (process_or_defer env i) (\<lambda>p. ret (result\<lparr>ig_processing := p\<rparr>))
      else ret result) s2 = (Inr r, s1)"
    unfolding ingest_run [OF norm] by (rule bindp_InrE)
  from rest obtain i d s3 where attempts: "ingest_attempts env tenant f max_conflict_attempts s2 = (Inr (i, d), s3)" and
    final: "(let result = ingest_result_of saved i d in
      if correlating then bindp (process_or_defer env i) (\<lambda>p. ret (result\<lparr>ig_processing := p\<rparr>))
      else ret result) s3 = (Inr r, s1)"
    by (rule bindp_InrE) (auto split: prod.splits)
  have "incident_step env (s, C) (s2, C)"
    using save_finding_cases(1) [OF save] by (intro incident_step.other) simp
  then have "config_inv env (s2, C)" using incident_step_inv inv by blast
  then obtain k C' where stored: "config_inv env (s3, C')" "stored s3 k = Some i" "for_key env tenant f i" "settled env i f"
    using ingest_attempts_settles [OF _ attempts] by blast
  have after: "ig_incident r = i \<and> same_records s3 s1"
  proof (cases correlating)
    case True
    obtain p s4 where "process_or_defer env i s3 = (Inr p, s4)" "same_records s3 s4"
      using process_or_defer_run by blast
    with final True show ?thesis by (auto simp: Let_def bindp_def ingest_result_of_def)
  next
    case False
    with final show ?thesis by (auto simp: ingest_result_of_def same_records_def)
  qed
  then have "incident_step env (s3, C') (s1, C')" by (intro incident_step.other) (simp add: same_records_def)
  then have "config_inv env (s1, C')" using incident_step_inv stored(1) by blast
  moreover have "im_findings s1 = im_findings s2"
    using after attempts_keep_findings [OF attempts] by (simp add: same_records_def)
  ultimately show ?thesis
    using norm stored after save_finding_cases(2) [OF save] by (auto simp: same_records_def)
qed

lemma ingest_settled:
  assumes norm: "normalize_event env (ie_clock env (im_ticks s)) event tenant = Inr f"
    and inv: "config_inv env (s, C)" and i: "stored s k = Some i" and key: "for_key env tenant f i"
    and settled: "settled env i f"
    and saved: "dget (im_findings s) (fn_id f) = Some c"
      "(fn_tenant_id c, fn_environment c) = (fn_tenant_id f, fn_environment f)"
  shows "\<exists>r s'. ingest env correlating event tenant s = (Inr r, s') \<and> im_incidents s' = im_incidents s \<and>
    \<not> ig_incident_changed r \<and> ig_incident r = i \<and> ig_status r \<in> {''replayed'', ''stale''}"
proof -
  let ?s = "s\<lparr>im_ticks := Suc (im_ticks s)\<rparr>"
  obtain x s2 where save: "save_finding f ?s = (Inr x, s2)" and same: "im_incidents s2 = im_incidents s"
    using save_finding_again [of ?s f c] saved by auto
  have "incident_step env (s, C) (s2, C)" using same by (rule incident_step.other)
  then have inv2: "config_inv env (s2, C)" using incident_step_inv inv by blast
  have find: "find_incident_by_dedup tenant (fn_environment f) (deduplication_key env f 60) s2 = (Inr (Some i), s2)"
    using find_stored [OF inv2 _ key, of k] i same by simp
  let ?d = "decide_finding_merge env i f"
  note quiet = settled_unchanged [OF settled]
  have "md_reason ?d \<in> {''exact_replay'', ''stale_replay''}"
    using quiet(1) by (auto simp: decide_finding_merge_def Let_def case_prod_beta split: if_splits option.splits)
  then have status: "ingest_status i ?d \<in> {''replayed'', ''stale''}" by (auto simp: ingest_status_def)
  have attempts: "ingest_attempts env tenant f max_conflict_attempts s2 = (Inr (i, ?d), s2)"
    by (simp add: max_conflict_attempts_def numeral_3_eq_3 bindp_def trycatch_def find ingest_write_some quiet Let_def)
  obtain p s4 where "process_or_defer env i s2 = (Inr p, s4)" "same_records s2 s4"
    using process_or_defer_run by blast
  then show ?thesis
    using same quiet status
    by (auto simp: ingest_run [OF norm] bindp_def save attempts Let_def ingest_result_of_def same_records_def)
qed

section \<open>A small store\<close>

definition sample_im_env :: im_env where
  "sample_im_env = \<lparr>ie_digest = (\<lambda>s. s), ie_floats = \<lparr>pf_repr = (\<lambda>_. ''0.5''), pf_parse = (\<lambda>_. None)\<rparr>,
     ie_parse_time = (\<lambda>v. case v of VInt t \<Rightarrow> Some (t * 1000000) | _ \<Rightarrow> None), ie_clock = int,
     ie_time_str = int_str, ie_isoformat = int_str, ie_policy_hash = ''p''\<rparr>"

definition sample_event :: vdict where
  "sample_event = [(''@timestamp'', VInt 100), (''id'', VStr ''e1''), (''asset_id'', VStr ''orders'')]"

definition sample_finding_at :: "string \<Rightarrow> int \<Rightarrow> severity \<Rightarrow> finding" where
  "sample_finding_at fid t sev = \<lparr>fn_id = fid, fn_tenant_id = ''t'', fn_environment = ''dev'',
     fn_finding_type = FtDataQualityFailure, fn_signal_type = SgQualityResult, fn_source_event_id = fid,
     fn_source_event_version = ''v1'', fn_asset_id = ''orders'', fn_source_id = None, fn_scanner_id = None,
     fn_monitor_id = None, fn_policy_id = None, fn_title = ''title'', fn_summary = ''summary'',
     fn_observed_value = [], fn_expected_value = [], fn_severity = sev, fn_confidence = 1, fn_evidence = [],
     fn_owner_team = None, fn_business_service = None, fn_downstream_impact = [], fn_downstream_asset_count = 0,
     fn_trace_id = None, fn_correlation_id = None, fn_first_observed_at = t, fn_last_observed_at = t,
     fn_status = ''active'', fn_recovery_signal = False\<rparr>"

abbreviation first_finding :: finding where
  "first_finding \<equiv> sample_finding_at ''f1'' 200 SvCritical"

definition first_write :: "(incident \<times> merge_decision) \<times> im_state" where
  "first_write = (case ingest_write sample_im_env ''t'' first_finding None empty_im of
     (Inr x, s) \<Rightarrow> (x, s) | (Inl e, s) \<Rightarrow> undefined)"

definition first_state :: im_state where
  "first_state = snd first_write"

definition first_incident :: incident where
  "first_incident = fst (fst first_write)"

definition first_key :: string where
  "first_key = incident_id sample_im_env ''t'' (deduplication_key sample_im_env first_finding 60)"

lemma first_write_run:
  "ingest_write sample_im_env ''t'' first_finding None empty_im = (Inr (first_incident, snd (fst first_write)), first_state)"
  by (simp add: first_incident_def first_write_def first_state_def ingest_write_none empty_im_def)

lemma first_stored: "stored first_state first_key = Some first_incident"
  by (simp add: first_state_def first_write_def first_incident_def ingest_write_none empty_im_def first_key_def)

lemma first_fields:
  "in_finding_ids first_incident = [''f1'']" "in_incident_state first_incident = IsOpen"
  "in_last_observed_at first_incident = Some 200" "in_occurrence_count first_incident = 1"
  "in_severity first_incident = fst (calculate_severity first_finding 1)"
  by (simp_all add: first_incident_def first_write_def ingest_write_none empty_im_def opened_incident_def Let_def
      case_prod_beta sample_finding_at_def)

lemma first_reachable: "reachable_incidents sample_im_env (first_state, {first_incident})"
proof -
  have "incident_step sample_im_env (empty_im, {}) (first_state, {})"
    using incident_step.create [of sample_im_env empty_im "{}" "''t''" first_finding] by (simp add: first_write_run)
  moreover have "incident_step sample_im_env (first_state, {}) (first_state, {first_incident})"
    using first_stored by (rule incident_step.read)
  ultimately show ?thesis unfolding reachable_incidents_def by (meson r_into_rtranclp rtranclp.rtrancl_into_rtrancl)
qed

lemma sample_event_normalized: "\<exists>f. normalize_event sample_im_env t sample_event ''t'' = Inr f"
  by (simp add: normalize_event_def sample_event_def sample_im_env_def kind_of_def vget_def vget_default_def vor_def
      severity_of_def float_value_def asset_count_of_def len_value_def int_value_def finding_of_def opt_string_field_def
      string_field_def title_of_def dict_field_def observed_of_def dict_list_field_def str_list_field_def Let_def
      type_map_def List.map_filter_def)

lemma sample_ingested: "\<exists>r s1. ingest sample_im_env False sample_event ''t'' empty_im = (Inr r, s1)"
proof -
  obtain f where f: "normalize_event sample_im_env (ie_clock sample_im_env (im_ticks empty_im)) sample_event ''t'' = Inr f"
    using sample_event_normalized by blast
  show ?thesis
    by (subst ingest_run [OF f]) (simp add: bindp_def save_finding_def seqp_apply max_conflict_attempts_def
        numeral_3_eq_3 find_incident_by_dedup_def trycatch_def ingest_write_none Let_def empty_im_def)
qed

section \<open>Properties\<close>

text \<open>
  C13. Whatever workers ingest findings, move and assign incidents at the same time, from whatever copies: a stored
  incident is filed under the identifier of its tenant and deduplication key, no second one has the same scope, its
  occurrence count is the number of its findings, which are distinct, and a state that needs a reason has one.
\<close>

theorem incidents_stay_consistent:
  assumes "reachable_incidents env (s, C)" and "stored s k = Some i"
  shows "k = incident_id env (in_tenant_id i) (in_deduplication_key i) \<and>
    (\<forall>k' j. stored s k' = Some j \<and> in_tenant_id j = in_tenant_id i \<and>
       in_deduplication_key j = in_deduplication_key i \<longrightarrow> k' = k \<and> j = i) \<and>
    in_occurrence_count i = int (length (in_finding_ids i)) \<and> distinct (in_finding_ids i) \<and>
    (in_incident_state i \<in> reason_required \<longrightarrow> has_reason (in_state_reason i)) \<and>
    (in_incident_state i = IsResolved \<longrightarrow> in_resolved_at i \<noteq> None) \<and>
    (in_incident_state i = IsClosed \<longrightarrow> in_closed_at i \<noteq> None)"
proof -
  note filed = config_invD(1) [OF reachable_config_inv [OF assms(1)]]
  have "k' = k \<and> j = i" if "stored s k' = Some j" and "in_tenant_id j = in_tenant_id i"
    and "in_deduplication_key j = in_deduplication_key i" for k' j
  proof -
    have "k' = incident_id env (in_tenant_id j) (in_deduplication_key j)" using filed [OF that(1)] by (simp add: filed_def)
    moreover have "k = incident_id env (in_tenant_id i) (in_deduplication_key i)"
      using filed [OF assms(2)] by (simp add: filed_def)
    ultimately have "k' = k" by (simp only: that(2,3))
    with that(1) assms(2) show ?thesis by simp
  qed
  then have "\<forall>k' j. stored s k' = Some j \<and> in_tenant_id j = in_tenant_id i \<and>
      in_deduplication_key j = in_deduplication_key i \<longrightarrow> k' = k \<and> j = i" by blast
  moreover from filed [OF assms(2)] have "k = incident_id env (in_tenant_id i) (in_deduplication_key i)" and "incident_ok i"
    by (simp_all add: filed_def)
  ultimately show ?thesis unfolding incident_ok_def by blast
qed

theorem incidents_stay_consistent_witness:
  "in_occurrence_count first_incident = int (length (in_finding_ids first_incident))"
  using incidents_stay_consistent [OF first_reachable first_stored] by blast

text \<open>
  C8. No finding is lost: once a worker's write of a finding succeeded, from a copy read at any earlier time or by
  opening the incident, the incident of its key holds the finding after every later schedule.
\<close>

theorem ingested_finding_is_kept:
  assumes "reachable_incidents env (s, C)"
    and "found = None \<or> (\<exists>i0 \<in> C. found = Some i0 \<and> for_key env tenant f i0)"
    and "ingest_write env tenant f found s = (Inr (i, d), s1)"
    and "(incident_step env)\<^sup>*\<^sup>* (s1, C) (t, D)"
  shows "\<exists>j. stored t (incident_id env tenant (deduplication_key env f 60)) = Some j \<and>
    fn_id f \<in> set (in_finding_ids j) \<and> in_occurrence_count j = int (length (in_finding_ids j))"
proof -
  note inv = reachable_config_inv [OF assms(1)]
  have ok: "\<And>i0. found = Some i0 \<Longrightarrow> i0 \<in> C \<and> for_key env tenant f i0" using assms(2) by auto
  obtain j where j: "stored s1 (incident_id env tenant (deduplication_key env f 60)) = Some j"
    "newer_version i j" "fn_id f \<in> set (in_finding_ids i)"
    by (rule ingest_write_result [OF inv ok assms(3)])
  have "config_inv env (s1, C)" using ingest_write_inv [OF inv, of found tenant f] ok assms(3) by simp
  from incident_steps_inv [OF assms(4) this]
  have inv': "config_inv env (t, D)" and evolve: "store_evolve stored newer_version s1 t" by simp_all
  from evolve j(1) obtain j' where j': "stored t (incident_id env tenant (deduplication_key env f 60)) = Some j'"
    "newer_version j j'" by (rule store_evolveD)
  with j show ?thesis
    using config_invD(1) [OF inv' j'(1)] by (auto simp: newer_version_def progress_def filed_def incident_ok_def)
qed

theorem ingested_finding_is_kept_witness:
  "\<exists>j. stored first_state first_key = Some j \<and> ''f1'' \<in> set (in_finding_ids j)"
proof -
  have "reachable_incidents sample_im_env (empty_im, {})" by (simp add: reachable_incidents_def)
  from ingested_finding_is_kept [OF this _ first_write_run, of first_state "{}"]
  show ?thesis by (auto simp: first_key_def sample_finding_at_def)
qed

text \<open>
  C23. Every step changes the state of a stored incident along a legal transition or not at all, even when the copy
  it was computed from is outdated; entering a state that needs a reason stores one, and a changed incident
  carries the next sequence number.
\<close>

theorem lifecycle_moves_are_legal:
  assumes "reachable_incidents env (s, C)" and "incident_step env (s, C) (s', C')" and "stored s k = Some i"
  shows "\<exists>j. stored s' k = Some j \<and>
    (in_incident_state j = in_incident_state i \<or>
     in_incident_state j \<in> legal_transitions (in_incident_state i)) \<and>
    (in_incident_state j \<in> reason_required \<longrightarrow> has_reason (in_state_reason j)) \<and>
    (j = i \<or> in_seq_no j = Some (the (in_seq_no i) + 1))"
proof -
  note inv = reachable_config_inv [OF assms(1)]
  from incident_step_inv [OF assms(2) inv] have inv': "config_inv env (s', C')" by simp
  have ok: "in_incident_state j \<in> reason_required \<longrightarrow> has_reason (in_state_reason j)" if "stored s' k = Some j" for j
    using config_invD(1) [OF inv' that] by (simp add: filed_def incident_ok_def)
  from incident_step_change [OF assms(2) inv assms(3)] show ?thesis
    using ok by (auto simp: written_change_def proper_change_def)
qed

theorem lifecycle_moves_are_legal_witness:
  "\<exists>j. stored (snd (update_incident sample_im_env
      (first_incident\<lparr>in_owner_team := Some ''ops''\<rparr>) first_state)) first_key = Some j \<and>
    (in_incident_state j = IsOpen \<or> in_incident_state j \<in> legal_transitions IsOpen)"
  using lifecycle_moves_are_legal [OF first_reachable incident_step.assign [OF singletonI] first_stored, of "Some ''ops''"]
  by (auto simp: first_fields)

text \<open>
  C24. Ingesting the same stamped event again right after it was ingested succeeds and changes no incident; the
  answer names the same incident and says it was a replay.
\<close>

theorem repeated_ingest_changes_nothing:
  assumes "reachable_incidents env (s, C)"
    and "py_truthy (vor (vget event ''@timestamp'') (vget event ''observed_at''))"
    and "ingest env correlating event tenant s = (Inr r, s1)"
  shows "\<exists>r' s2. ingest env correlating event tenant s1 = (Inr r', s2) \<and> im_incidents s2 = im_incidents s1 \<and>
    \<not> ig_incident_changed r' \<and> ig_incident r' = ig_incident r \<and> ig_status r' \<in> {''replayed'', ''stale''}"
proof -
  obtain f k C' c where norm: "normalize_event env (ie_clock env (im_ticks s)) event tenant = Inr f"
    and inv: "config_inv env (s1, C')" and stored: "stored s1 k = Some (ig_incident r)"
    and key: "for_key env tenant f (ig_incident r)" and settled: "settled env (ig_incident r) f"
    and saved: "dget (im_findings s1) (fn_id f) = Some c"
      "(fn_tenant_id c, fn_environment c) = (fn_tenant_id f, fn_environment f)"
    using ingest_succeeded [OF assms(3) reachable_config_inv [OF assms(1)]] by blast
  have "normalize_event env (ie_clock env (im_ticks s1)) event tenant = Inr f"
    using norm normalize_stamped [OF assms(2), of env "ie_clock env (im_ticks s1)" tenant "ie_clock env (im_ticks s)"] by simp
  from ingest_settled [OF this inv stored key settled saved] show ?thesis by blast
qed

theorem repeated_ingest_changes_nothing_witness:
  "\<exists>r s1 r' s2. ingest sample_im_env False sample_event ''t'' empty_im = (Inr r, s1) \<and>
    ingest sample_im_env False sample_event ''t'' s1 = (Inr r', s2) \<and> \<not> ig_incident_changed r'"
proof -
  obtain r s1 where run: "ingest sample_im_env False sample_event ''t'' empty_im = (Inr r, s1)"
    using sample_ingested by blast
  have "reachable_incidents sample_im_env (empty_im, {})" by (simp add: reachable_incidents_def)
  moreover have "py_truthy (vor (vget sample_event ''@timestamp'') (vget sample_event ''observed_at''))"
    by (simp add: sample_event_def vor_def vget_def)
  ultimately show ?thesis using repeated_ingest_changes_nothing [OF _ _ run] run by blast
qed

text \<open>
  Merging a finding older than the last observation keeps the last observation, summary, owner, business service
  and lifecycle state of the incident, and its evidence unless it had none; findings and assets only grow.
\<close>

theorem stale_findings_only_enrich:
  assumes "in_last_observed_at i = Some t" and "fn_last_observed_at f < t"
  shows "let j = merge_finding env i f in
    in_last_observed_at j = Some t \<and> in_impact_summary j = in_impact_summary i \<and> in_owner_team j = in_owner_team i \<and>
    in_business_service j = in_business_service i \<and> in_incident_state j = in_incident_state i \<and>
    (in_most_recent_evidence i \<noteq> [] \<longrightarrow> in_most_recent_evidence j = in_most_recent_evidence i) \<and>
    fn_id f \<in> set (in_finding_ids j) \<and> set (in_finding_ids i) \<subseteq> set (in_finding_ids j) \<and>
    set (in_affected_assets i) \<subseteq> set (in_affected_assets j)"
proof -
  have old: "\<not> is_newer i f" using assms by (simp add: is_newer_def)
  have keep: "in_impact_summary (merged env i f) = in_impact_summary i \<and> in_owner_team (merged env i f) = in_owner_team i \<and>
      in_business_service (merged env i f) = in_business_service i \<and>
      (in_most_recent_evidence i \<noteq> [] \<longrightarrow> in_most_recent_evidence (merged env i f) = in_most_recent_evidence i)"
    using old assms by (auto simp: merged_def merged_observation_def)
  have "set (in_finding_ids i) \<subseteq> set (in_finding_ids (merge_finding env i f)) \<and>
      set (in_affected_assets i) \<subseteq> set (in_affected_assets (merge_finding env i f))"
    using merge_progress [of i env f] by (simp add: progress_def merge_finding_def)
  moreover have "fn_id f \<in> set (in_finding_ids (merge_finding env i f))"
    unfolding merge_finding_def by (rule merge_keeps)
  ultimately show ?thesis
    using keep old assms(1) by (cases rule: decide_cases [of env i f]) (simp_all add: merge_finding_def)
qed

theorem stale_findings_only_enrich_witness:
  "in_last_observed_at (merge_finding sample_im_env first_incident (sample_finding_at ''f2'' 100 SvLow)) = Some 200"
  using stale_findings_only_enrich [OF first_fields(3), of "sample_finding_at ''f2'' 100 SvLow" sample_im_env]
  by (simp add: sample_finding_at_def Let_def)

text \<open>
  C37. The severity is not protected from stale findings, although the merge promises so: whatever severity an incident
  has, a new finding that is older than its last observation replaces it by the severity and the factors computed
  from that finding and the new count alone, while the last observation stays; so such a finding of low severity,
  with a confidence between 0 and 1 and no negative asset count, leaves at most a medium incident, even of a critical one.
\<close>

theorem stale_finding_lowers_severity:
  assumes "fn_id f \<notin> set (in_finding_ids i)" and "in_last_observed_at i = Some t" and "fn_last_observed_at f < t"
  shows "let j = merge_finding env i f in
    in_last_observed_at j = Some t \<and>
    (in_severity j, in_severity_factors j) = calculate_severity f (in_occurrence_count i + 1) \<and>
    (fn_severity f = SvLow \<and> 0 \<le> fn_downstream_asset_count f \<and> 0 \<le> fn_confidence f \<and> fn_confidence f \<le> 1 \<longrightarrow>
       in_severity j \<le> SvMedium)"
proof -
  have stale: "\<not> is_newer i f" using assms(2,3) by (simp add: is_newer_def)
  have count: "in_occurrence_count (fst (merged_observation env (merged_occurrence i f) f)) = in_occurrence_count i + 1"
    using assms(1) by (simp add: observation_fields merged_occurrence_def)
  have merge: "merge_finding env i f = (merged env i f)\<lparr>in_severity := fst (calculate_severity f (in_occurrence_count i + 1)),
      in_severity_factors := snd (calculate_severity f (in_occurrence_count i + 1))\<rparr>"
    using assms(1) count by (simp add: merge_finding_def decide_finding_merge_def Let_def case_prod_beta merged_def)
  show ?thesis
    using assms(2) stale severity_bounds(2) [of f "in_occurrence_count i + 1"]
    by (auto simp: merge calculate_severity_def)
qed

theorem stale_finding_lowers_severity_witness:
  "in_severity first_incident = SvCritical \<and>
   in_severity (merge_finding sample_im_env first_incident (sample_finding_at ''f2'' 100 SvLow)) \<le> SvMedium"
proof -
  let ?f = "sample_finding_at ''f2'' 100 SvLow"
  have conf: "confidence_adjustment 1 = 0" by (simp add: confidence_adjustment_def)
  have "severity_score first_finding 1 = fl (of_int 90)"
    by (subst score_exact) (simp_all add: sample_finding_at_def exact_score_def downstream_bonus_def recurrence_bonus_def conf)
  then have "in_severity first_incident = SvCritical"
    using fl_small [of 90] by (simp add: first_fields calculate_severity_def severity_level_def)
  then show ?thesis
    using stale_finding_lowers_severity [of ?f first_incident 200 sample_im_env]
    by (simp add: first_fields Let_def) (simp add: sample_finding_at_def)
qed

text \<open>
  The severity never falls when the recurrence grows; with a confidence between 0 and 1 and no negative asset
  count a critical finding is at least high and a low one at most medium, also under the rounding of floats.
\<close>

theorem severity_follows_its_inputs:
  assumes "m \<le> n" and "0 \<le> fn_downstream_asset_count f" and "0 \<le> fn_confidence f" and "fn_confidence f \<le> 1"
  shows "fst (calculate_severity f m) \<le> fst (calculate_severity f n) \<and>
    (fn_severity f = SvCritical \<longrightarrow> SvHigh \<le> fst (calculate_severity f n)) \<and>
    (fn_severity f = SvLow \<longrightarrow> fst (calculate_severity f n) \<le> SvMedium)"
  using severity_mono [OF assms(1), of f] severity_bounds [OF assms(2-4), of n]
  by (simp add: calculate_severity_def)

theorem severity_follows_its_inputs_witness:
  "SvHigh \<le> fst (calculate_severity first_finding 3)"
  using severity_follows_its_inputs [of 1 3 first_finding] by (simp add: sample_finding_at_def)

end
