(* ===== verification/TenantCalls.thy ===== *)
theory TenantCalls
  imports TenantIsolation IncidentProperties
begin

text \<open>
  The calls of a client, one tenant at a time, over the views of \<open>TenantIsolation\<close>: correlation, ingestion,
  lifecycle and workbench respect the records of the other tenants; so does every run of calls of one tenant.
\<close>

section \<open>The selected group\<close>

definition own_selected :: "string \<Rightarrow> im_state \<Rightarrow> stored_group \<Rightarrow> bool" where
  "own_selected T s g \<longleftrightarrow> cg_tenant_id (sg_group g) = T \<and> own_group T s (cg_id (sg_group g))"

lemma own_selected_stays: "isolated T s s' \<Longrightarrow> own_selected T s g \<Longrightarrow> own_selected T s' g"
  by (simp add: own_selected_def own_stays(1))

lemma listed_group_own:
  assumes "im_keyed s" and "g \<in> set (dvals (im_groups s))" and "in_group_scope T ev g"
  shows "own_selected T s g"
proof -
  have "filed_as (\<lambda>g. cg_id (sg_group g)) (im_groups s)" using assms(1) by (simp add: im_keyed_def)
  then have "dget (im_groups s) (cg_id (sg_group g)) = Some g" using assms(2) by (rule filed_as_mem)
  with assms(3) show ?thesis by (simp add: own_selected_def own_group_def in_group_scope_def)
qed

lemma find_member: "List.find P xs = Some x \<Longrightarrow> x \<in> set xs \<and> P x"
  by (induction xs) (auto split: if_splits)

lemma existing_own:
  assumes "im_keyed s" and "find_group_for_incident T ev iid s = (Inr x, s')"
  shows "s' = s" and "x = Some g \<Longrightarrow> own_selected T s g"
proof -
  show "s' = s" using assms(2) by (simp add: find_group_for_incident_def)
  assume "x = Some g"
  with assms(2) have "List.find (\<lambda>g. in_group_scope T ev g \<and> iid \<in> set (member_ids s (cg_id (sg_group g))))
      (dvals (im_groups s)) = Some g"
    unfolding find_group_for_incident_def reads_apply by (auto simp del: set_map)
  then have "g \<in> set (dvals (im_groups s))" and "in_group_scope T ev g"
    by (auto dest!: find_member simp del: set_map)
  then show "own_selected T s g" by (rule listed_group_own [OF assms(1)])
qed

lemma candidates_own:
  assumes "im_keyed s" and "find_candidate_groups T ev i s = (Inr xs, s')"
  shows "s' = s" and "g \<in> set xs \<Longrightarrow> own_selected T s g"
proof -
  show "s' = s" using assms(2) by (simp add: find_candidate_groups_def)
  assume "g \<in> set xs"
  moreover have "set xs \<subseteq> {g \<in> set (dvals (im_groups s)). in_group_scope T ev g}"
    using assms(2) by (auto simp: find_candidate_groups_def dest!: in_set_takeD)
  ultimately show "own_selected T s g" using listed_group_own [OF assms(1)] by blast
qed

lemma isolated_select [evolve_rules]: "evolves (isolated T) (select_candidate env i revision cs)"
proof (induction cs)
  case (Cons c cs)
  then show ?case unfolding select_candidate.simps evaluate_candidate_def by (intro evolve_rules)
qed (unfold select_candidate.simps, intro evolve_rules)

lemma select_from: "yields (\<lambda>x. \<forall>g d. x = Some (g, d) \<longrightarrow> g \<in> set cs) (select_candidate env i revision cs)"
proof (induction cs)
  case Nil
  show ?case by (simp add: yields_def)
next
  case (Cons c cs)
  then have later: "yields (\<lambda>x. \<forall>g d. x = Some (g, d) \<longrightarrow> g \<in> set (c # cs)) (select_candidate env i revision cs)"
    by (auto simp: yields_def)
  have here: "yields (\<lambda>x. \<forall>g d. x = Some (g, d) \<longrightarrow> g \<in> set (c # cs)) (ret (Some (c, d)))" for d
    by (simp add: yields_def)
  show ?case
    unfolding select_candidate.simps
    by (rule yields_bindp_any, split option.split)
      (intro conjI allI impI later yields_bindp_any, split if_split, intro conjI impI later here)
qed

lemma isolated_start [evolve_rules]: "evolves (isolated (in_tenant_id i)) (start_group env i revision)"
proof -
  have new: "yields (\<lambda>g. cg_tenant_id g = in_tenant_id i) (new_group env gid i)" for gid
    unfolding new_group_def by (rule yields_bindp_any) (simp add: yields_def)
  have fresh: "evolves (isolated (in_tenant_id i)) (new_group env gid i)" for gid
    unfolding new_group_def by (intro evolve_rules)
  have body: "evolves (isolated (in_tenant_id i)) (bindp (trycatch (create_group g) (\<lambda>e.
      bindp (get_group (in_tenant_id i) (in_environment i) gid) (\<lambda>current.
      case current of None \<Rightarrow> raise e | Some c \<Rightarrow> ret c))) (\<lambda>selected. ret (selected, d)))"
    if "cg_tenant_id g = in_tenant_id i" for g gid d
    using that by (intro evolve_rules)
  show ?thesis
    unfolding start_group_def Let_def
    by (rule isolation.evolves_bindp [OF isolated_reads(1)])
       (rule isolation.evolves_bindp_yields [OF fresh new body])
qed

lemma start_own:
  assumes "im_keyed s" and "start_group env i revision s = (Inr (g, d), s')"
  shows "own_selected (in_tenant_id i) s' g"
proof -
  let ?T = "in_tenant_id i" and ?gid = "initial_group_id env i"
  from assms(2) obtain n s1 where new: "new_group env ?gid i (s\<lparr>im_ticks := Suc (im_ticks s)\<rparr>) = (Inr n, s1)"
    and sel: "trycatch (create_group n) (\<lambda>e. bindp (get_group ?T (in_environment i) ?gid) (\<lambda>current.
      case current of None \<Rightarrow> raise e | Some c \<Rightarrow> ret c)) s1 = (Inr g, s')"
    unfolding start_group_def Let_def now_run bindp_apply
    by (auto simp: now_run split: prod.splits sum.splits)
  have n: "cg_tenant_id n = ?T" and keyed1: "im_keyed s1"
    using new assms(1) by (auto simp: new_group_def bindp_apply now_run im_keyed_def split: option.splits)
  show ?thesis
  proof (cases "create_group n s1")
    case (Pair r s2)
    show ?thesis
    proof (cases r)
      case (Inr x)
      with Pair sel have "create_group n s1 = (Inr g, s')" by (simp add: trycatch_apply)
      then show ?thesis
        using n by (auto simp: create_group_def bindp_apply seqp_apply Let_def own_selected_def own_group_def
          split: if_splits)
    next
      case (Inl e)
      with Pair have s2: "s2 = s1"
        by (auto simp: create_group_def bindp_apply seqp_apply Let_def raise_if_def split: if_splits)
      from Pair Inl sel s2 have got: "get_group ?T (in_environment i) ?gid s1 = (Inr (Some g), s1)" and "s' = s1"
        by (auto simp: trycatch_apply bindp_apply get_group_def split: option.splits if_splits)
      with get_group_own [OF keyed1 got] show ?thesis
        by (auto simp: own_selected_def own_group_def get_group_def split: option.splits if_splits)
    qed
  qed
qed

section \<open>Correlation\<close>

lemma choose_group_own:
  assumes "im_keyed s"
  shows "isolated (in_tenant_id i) s (snd (choose_group env i revision s))"
    and "choose_group env i revision s = (Inr (g, d), s') \<Longrightarrow> own_selected (in_tenant_id i) s' g"
proof -
  let ?T = "in_tenant_id i"
  have "evolves (isolated ?T) (choose_group env i revision)"
    unfolding choose_group_def by (intro evolve_rules)
  then show "isolated ?T s (snd (choose_group env i revision s))" by (rule evolves_snd)
  assume "choose_group env i revision s = (Inr (g, d), s')"
  then obtain existing candidates s1 s2
    where ex: "find_group_for_incident ?T (in_environment i) (in_id i) s = (Inr existing, s1)"
      and ca: "find_candidate_groups ?T (in_environment i) i s1 = (Inr candidates, s2)"
      and rest: "(case existing of Some g \<Rightarrow> ret (g, None)
        | None \<Rightarrow> bindp (select_candidate env i revision candidates) (\<lambda>chosen. case chosen of
            Some (g, d) \<Rightarrow> ret (g, Some d)
          | None \<Rightarrow> bindp (start_group env i revision) (\<lambda>(g, d). ret (g, Some d)))) s2 = (Inr (g, d), s')"
    unfolding choose_group_def by (elim bindp_InrE)
  have s1: "s1 = s" using existing_own(1) [OF assms ex] .
  then have keyed1: "im_keyed s1" using assms by simp
  have s2: "s2 = s" using candidates_own(1) [OF keyed1 ca] s1 by simp
  show "own_selected ?T s' g"
  proof (cases existing)
    case (Some x)
    with rest s2 have "x = g" and "s' = s" by simp_all
    then show ?thesis using existing_own(2) [OF assms ex] Some by simp
  next
    case None
    with rest have "bindp (select_candidate env i revision candidates) (\<lambda>chosen. case chosen of
            Some (g, d) \<Rightarrow> ret (g, Some d)
          | None \<Rightarrow> bindp (start_group env i revision) (\<lambda>(g, d). ret (g, Some d))) s2 = (Inr (g, d), s')" by simp
    then obtain chosen s3 where sel: "select_candidate env i revision candidates s2 = (Inr chosen, s3)"
      and fin: "(case chosen of Some (g, d) \<Rightarrow> ret (g, Some d)
          | None \<Rightarrow> bindp (start_group env i revision) (\<lambda>(g, d). ret (g, Some d))) s3 = (Inr (g, d), s')"
      by (elim bindp_InrE)
    have to3: "isolated ?T s s3" using evolvesD [OF isolated_select sel] s2 by simp
    show ?thesis
    proof (cases chosen)
      case (Some p)
      obtain x e where p: "p = (x, e)" by fastforce
      with Some fin have "x = g" and "s' = s3" by simp_all
      moreover have "x \<in> set candidates" using yieldsD [OF select_from sel] Some p by simp
      then have "own_selected ?T s x" using candidates_own(2) [OF keyed1 ca] s1 by simp
      ultimately show ?thesis using own_selected_stays [OF to3] by simp
    next
      case None
      with fin have "bindp (start_group env i revision) (\<lambda>(g, d). ret (g, Some d)) s3 = (Inr (g, d), s')" by simp
      then obtain e where "start_group env i revision s3 = (Inr (g, e), s')"
        by (auto simp: bindp_apply split: prod.splits sum.splits)
      then show ?thesis using start_own keyed_stays [OF to3] assms by blast
    qed
  qed
qed

lemma isolated_process:
  assumes "im_keyed s"
  shows "isolated (in_tenant_id i) s (snd (process env i s))"
  unfolding process_def Let_def
proof (rule isolation.at_bindp, goal_cases)
  case 1
  show ?case by (rule choose_group_own(1) [OF assms])
next
  case (2 p s1)
  let ?T = "in_tenant_id i" and ?rev = "incident_revision env i"
  obtain g d where p: "p = (g, d)" by fastforce
  have own1: "own_selected ?T s1 g" using choose_group_own(2) [OF assms] 2(1) p by blast
  have keyed1: "im_keyed s1" using keyed_stays [OF 2(2)] assms .
  show ?case
    unfolding p prod.case
  proof (rule isolation.at_bindp, goal_cases)
    case 1
    show ?case unfolding settled_decision_def Let_def by (rule evolves_snd) (intro evolve_rules)
  next
    case (2 e s2)
    show ?case
    proof (rule isolation.at_bindp, goal_cases)
      case 1
      show ?case by (rule evolves_snd) (rule isolated_appends)
    next
      case (2 appended s3)
      have to3: "isolated ?T s1 s3" using isolated_trans 2(2) \<open>isolated ?T s1 s2\<close> by blast
      then have keyed3: "im_keyed s3" and own3: "own_selected ?T s3 g"
        using keyed_stays keyed1 own_selected_stays own1 by blast+
      show ?case
      proof (rule isolation.at_bindp, goal_cases)
        case 1
        show ?case using isolated_attach [OF keyed3, of i g] own3 by (simp add: own_selected_def isolation.step_refl)
      next
        case (2 x s4)
        then have keyed4: "im_keyed s4" using keyed_stays keyed3 by blast
        show ?case
          by (rule isolation.at_bindp, rule isolated_flood [OF keyed4]) (simp add: isolation.step_refl)
      qed
    qed
  qed
qed

lemma isolated_defer [evolve_rules]: "evolves (isolated (in_tenant_id i)) (defer_incident env i phase)"
  unfolding defer_incident_def Let_def by (intro evolve_rules) simp

lemma isolated_process_or_defer: "im_keyed s \<Longrightarrow> isolated (in_tenant_id i) s (snd (process_or_defer env i s))"
  unfolding process_or_defer_def
  by (intro isolation.at_trycatch isolation.at_bindp isolated_process)
    (auto intro!: evolves_snd [where R = "isolated (in_tenant_id i)"] evolve_rules simp: isolation.step_refl)

section \<open>Ingestion\<close>

text \<open>The incident a read found belongs to the tenant, and so does what is stored under its identifier.\<close>

definition own_read :: "string \<Rightarrow> im_state \<Rightarrow> incident \<Rightarrow> bool" where
  "own_read T s i \<longleftrightarrow> in_tenant_id i = T \<and> own_incident T s (in_id i)"

lemma own_read_stays: "isolated T s s' \<Longrightarrow> own_read T s i \<Longrightarrow> own_read T s' i"
  by (simp add: own_read_def own_stays(2))

lemma found_own:
  assumes "im_keyed s"
  shows "find_incident_by_dedup T ev k s = (Inr (Some i), s') \<Longrightarrow> s' = s \<and> own_read T s i"
    and "get_incident T iid e s = (Inr (Some i), s') \<Longrightarrow> s' = s \<and> own_read T s i"
proof -
  have filed: "filed_as in_id (im_incidents s)" using assms by (simp add: im_keyed_def)
  {
    assume "find_incident_by_dedup T ev k s = (Inr (Some i), s')"
    then have "i \<in> set (dvals (im_incidents s))" and T: "in_tenant_id i = T" and s': "s' = s"
      unfolding find_incident_by_dedup_def reads_apply by (auto dest!: find_member simp del: set_map)
    from filed_as_mem [OF filed this(1)] T s' show "s' = s \<and> own_read T s i"
      by (simp add: own_read_def own_incident_def)
  }
  assume "get_incident T iid e s = (Inr (Some i), s')"
  then have "dget (im_incidents s) iid = Some i" and "in_tenant_id i = T" and "s' = s"
    by (auto simp: get_incident_def split: option.splits if_splits)
  with filed show "s' = s \<and> own_read T s i"
    by (simp add: own_read_def own_incident_def filed_as_def)
qed

lemma isolated_change:
  assumes "own_read T s i" and "proper_change i j"
  shows "isolated T s (snd (update_incident env j s))"
proof -
  have "in_scope j = in_scope i" using assms(2) by (intro progress_scope) (simp add: proper_change_def)
  from scopeD(1,2) [OF this] assms(1) show ?thesis
    by (intro isolated_update_incident) (simp_all add: own_read_def)
qed

lemma isolated_ingest_write:
  assumes "\<And>i. found = Some i \<Longrightarrow> own_read T s i"
  shows "isolated T s (snd (ingest_write env T f found s))"
proof (cases found)
  case None
  have "evolves (isolated T) (ingest_write env T f None)"
    unfolding ingest_write_def option.case
    by (intro evolve_rules) (simp add: opened_incident_def Let_def case_prod_beta)
  with None show ?thesis by (simp add: evolves_snd)
next
  case (Some i)
  then have "isolated T s (snd (update_incident env (md_incident (decide_finding_merge env i f)) s))"
    using assms isolated_change merge_proper by blast
  then have "isolated T s (snd (bindp (update_incident env (md_incident (decide_finding_merge env i f)))
      (\<lambda>j. ret (j, decide_finding_merge env i f)) s))"
    by (rule isolation.at_bindp) (simp add: isolation.step_refl)
  with Some show ?thesis by (simp add: ingest_write_def Let_def isolation.step_refl)
qed

lemma isolated_ingest_attempts:
  "im_keyed s \<Longrightarrow> isolated T s (snd (ingest_attempts env T f n s))"
proof (induction n arbitrary: s)
  case (Suc n)
  show ?case
    unfolding ingest_attempts.simps
  proof (rule isolation.at_bindp, goal_cases)
    case 1
    show ?case by (rule evolves_snd) (rule isolated_reads)
  next
    case (2 found s1)
    then have s1: "s1 = s" by (simp add: find_incident_by_dedup_def)
    show ?case
    proof (rule isolation.at_trycatch, goal_cases)
      case 1
      have "own_read T s1 i" if "found = Some i" for i
        using found_own(1) [OF Suc.prems] 2(1) s1 that by blast
      then show ?case by (rule isolated_ingest_write)
    next
      case (2 e s2)
      then have "im_keyed s2" using keyed_stays Suc.prems s1 by blast
      then show ?case using Suc.IH [of s2] by (simp add: isolation.step_refl)
    qed
  qed
qed (simp add: isolation.step_refl)

lemma written_tenant:
  assumes "\<And>i. found = Some i \<Longrightarrow> in_tenant_id i = T"
  shows "yields (\<lambda>(i, d). in_tenant_id i = T) (ingest_write env T f found)"
proof (cases found)
  case None
  then show ?thesis
    by (auto simp: yields_def ingest_write_none opened_incident_def Let_def case_prod_beta split: if_splits)
next
  case (Some i)
  let ?d = "decide_finding_merge env i f"
  have "in_scope (md_incident ?d) = in_scope i"
    using merge_proper [of i env f] by (intro progress_scope) (simp add: proper_change_def)
  then have T: "in_tenant_id (md_incident ?d) = T" using scopeD(2) assms [OF Some] by metis
  then have "in_tenant_id j = T" if "update_incident env (md_incident ?d) s = (Inr j, s')" for j s s'
    using that by (cases rule: update_incident_cases [of env "md_incident ?d" s]) (auto simp: restamped_def)
  then show ?thesis
    using assms [OF Some]
    by (auto simp: Some yields_def ingest_write_some Let_def split: if_splits prod.splits sum.splits)
qed

lemma ingested_tenant: "yields (\<lambda>(i, d). in_tenant_id i = T) (ingest_attempts env T f n)"
proof (induction n)
  case (Suc n)
  have "in_tenant_id i = T" if "find_incident_by_dedup T ev k s = (Inr (Some i), s')" for ev k s s' i
    using that by (auto simp: find_incident_by_dedup_def dest: find_member)
  then have read: "yields (\<lambda>x. \<forall>i. x = Some i \<longrightarrow> in_tenant_id i = T) (find_incident_by_dedup T ev k)" for ev k
    unfolding yields_def by blast
  show ?case
    unfolding ingest_attempts.simps
  proof (rule yields_bindp [OF read])
    fix found :: "incident option" assume "\<forall>i. found = Some i \<longrightarrow> in_tenant_id i = T"
    then have w: "yields (\<lambda>(i, d). in_tenant_id i = T) (ingest_write env T f found)" by (intro written_tenant) simp
    show "yields (\<lambda>(i, d). in_tenant_id i = T) (trycatch (ingest_write env T f found)
        (\<lambda>e. if e = incident_conflict \<and> n \<noteq> 0 then ingest_attempts env T f n else raise e))"
      using w Suc.IH unfolding yields_def trycatch_apply
      by (auto split: prod.splits sum.splits if_splits)
  qed
qed (simp add: yields_def)

lemma normalized_tenant: "normalize_event env clock event T = Inr f \<Longrightarrow> fn_tenant_id f = T"
  by (auto simp: normalize_event_def finding_of_def Let_def split: if_splits sum.splits prod.splits option.splits)

lemma isolated_ingest:
  assumes "im_keyed s"
  shows "isolated T s (snd (ingest env correlating event T s))"
  unfolding ingest_def
proof (rule isolation.at_bindp, goal_cases)
  case 1
  show ?case by (rule evolves_snd) (rule isolated_reads)
next
  case (2 clock s1)
  then have keyed1: "im_keyed s1" using keyed_stays assms by blast
  show ?case
  proof (rule isolation.at_bindp, goal_cases)
    case 1
    show ?case by (simp add: lift_error_def isolation.step_refl split: sum.split)
  next
    case (2 f s2)
    then have s2: "s2 = s1" and f: "fn_tenant_id f = T"
      by (auto simp: lift_error_def split: sum.splits dest: normalized_tenant)
    show ?case
    proof (rule isolation.at_bindp, goal_cases)
      case 1
      show ?case by (rule evolves_snd) (rule isolated_save_finding [OF f])
    next
      case (2 saved s3)
      then have keyed3: "im_keyed s3" using keyed_stays keyed1 s2 by blast
      show ?case
      proof (rule isolation.at_bindp, goal_cases)
        case 1
        show ?case by (rule isolated_ingest_attempts [OF keyed3])
      next
        case (2 p s4)
        obtain i d where p: "p = (i, d)" by fastforce
        then have T: "in_tenant_id i = T" using yieldsD [OF ingested_tenant 2(1)] by simp
        have keyed4: "im_keyed s4" using keyed_stays [OF 2(2)] keyed3 .
        have "isolated T s4 (snd (process_or_defer env i s4))"
          using isolated_process_or_defer [OF keyed4, of i env] T by simp
        then have "isolated T s4 (snd (bindp (process_or_defer env i)
            (\<lambda>q. ret (ingest_result_of saved i d\<lparr>ig_processing := q\<rparr>)) s4))"
          by (rule isolation.at_bindp) (simp add: isolation.step_refl)
        then show ?case by (simp add: p Let_def isolation.step_refl)
      qed
    qed
  qed
qed

section \<open>Lifecycle and workbench\<close>

lemma isolated_transition:
  assumes "im_keyed s"
  shows "isolated T s (snd (transition_incident env T iid state reason s))"
  unfolding transition_incident_def
proof (rule isolation.at_bindp, goal_cases)
  case 1
  show ?case by (rule evolves_snd) (rule isolated_reads)
next
  case (2 found s1)
  show ?case
  proof (cases found)
    case (Some i)
    then have s1: "s1 = s" and own: "own_read T s i" using found_own(2) [OF assms] 2(1) by blast+
    have "isolated T s1 (snd (bindp (im_now env) (\<lambda>now.
        bindp (lift_error (transition now i state reason)) (\<lambda>j. update_incident env j)) s1))"
    proof (rule isolation.at_bindp, goal_cases)
      case 1
      show ?case by (rule evolves_snd) (rule isolated_reads)
    next
      case (2 now s2)
      have own2: "own_read T s2 i" using own_read_stays [OF 2(2)] own s1 by simp
      show ?case
        using isolated_change [OF own2 transition_proper]
        by (simp add: lift_error_def isolation.step_refl split: sum.split)
    qed
    with Some show ?thesis by simp
  qed (simp add: isolation.step_refl)
qed

lemma isolated_timeline [evolve_rules]:
  "evolves (isolated T) (get_timeline_operation opid)"
  "evolves (isolated T) (save_timeline_operation opid fp te)"
  "evolves (isolated T) (append_timeline te)"
  by (auto simp: evolves_def get_timeline_operation_def save_timeline_operation_def append_timeline_def bindp_apply
      seqp_apply isolated_def others_view_def im_keyed_def split: option.split)

lemma isolated_detail [evolve_rules]: "evolves (isolated T) (detail t e iid q)"
  unfolding detail_def by (intro evolve_rules)

lemma isolated_mutated:
  assumes own: "own_read T s i" and m: "mutated now i r = Inr (j, et, sm)"
  shows "isolated T s (snd ((if wr_state r \<noteq> None \<or> wr_owner r \<noteq> None then update_incident env j else ret j) s))"
proof (cases rule: mutated_cases [OF m])
  case (1 state)
  then show ?thesis using isolated_change [OF own transition_proper] by simp
next
  case (2 owner)
  then show ?thesis using isolated_change [OF own assign_proper] by simp
qed (simp add: isolation.step_refl)

lemma isolated_mutate_fresh:
  assumes "im_keyed s"
  shows "isolated T s (snd (mutate_fresh env T ev iid r op fp s))"
  unfolding mutate_fresh_def
proof (rule isolation.at_bindp, goal_cases)
  case 1
  show ?case by (rule evolves_snd) (rule isolated_reads)
next
  case (2 found s1)
  show ?case
  proof (cases found)
    case (Some i)
    then have s1: "s1 = s" and own: "own_read T s i" using found_own(2) [OF assms] 2(1) by blast+
    show ?thesis
      unfolding Some option.case
    proof (rule isolation.at_seqp, goal_cases)
      case 1
      show ?case by (rule evolves_snd) (rule isolation.evolves_raise_if)
    next
      case (2 x s2)
      have own2: "own_read T s2 i" using own_read_stays [OF 2(2)] own s1 by simp
      show ?case
      proof (rule isolation.at_bindp, goal_cases)
        case 1
        show ?case by (rule evolves_snd) (rule isolated_reads)
      next
        case (2 now s3)
        have own3: "own_read T s3 i" using own_read_stays [OF 2(2)] own2 .
        show ?case
        proof (rule isolation.at_bindp, goal_cases)
          case 1
          show ?case by (simp add: lift_error_def isolation.step_refl split: sum.split)
        next
          case (2 p s4)
          obtain j et sm where p: "p = (j, et, sm)" by (cases p)
          then have s4: "s4 = s3" and m: "mutated now i r = Inr (j, et, sm)"
            using 2(1) by (auto simp: lift_error_def split: sum.splits)
          have wrote: "isolated T s5 (snd ((if wr_state r \<noteq> None \<or> wr_owner r \<noteq> None then update_incident env j else ret j) s5))"
            if "isolated T s4 s5" for s5
            using isolated_mutated [OF _ m] own_read_stays [OF that] own3 s4 by blast
          show ?case
            unfolding p prod.case
            by (rule isolation.at_seqp, rule evolves_snd, rule isolation.evolves_raise_if,
                rule isolation.at_bindp, rule wrote, assumption, rule evolves_snd, unfold Let_def, intro evolve_rules)
        qed
      qed
    qed
  qed (simp add: isolation.step_refl)
qed

lemma isolated_mutate:
  assumes "im_keyed s"
  shows "isolated T s (snd (mutate env T ev iid r s))"
  unfolding mutate_def Let_def
proof (rule isolation.at_bindp, goal_cases)
  case 1
  show ?case by (rule evolves_snd) (intro evolve_rules)
next
  case (2 x s1)
  have keyed1: "im_keyed s1" using keyed_stays [OF 2(2)] assms .
  have "evolves (isolated T) (seqp (raise_if b c) (seqp (append_timeline e) (detail T ev iid q)))" for b c e q
    by (intro evolve_rules)
  then show ?case
    using isolated_mutate_fresh [OF keyed1] by (cases x) (simp_all add: case_prod_beta evolves_snd)
qed

lemma isolated_preview [evolve_rules]: "evolves (isolated T) (preview_action T iid act payload)"
  unfolding preview_action_def by (intro evolve_rules)

lemma isolated_execute: "evolves (isolated T) (execute_action T iid act key payload)"
  unfolding execute_action_def by (intro evolve_rules)

lemmas isolated_actions = evolves_snd [OF isolated_preview] evolves_snd [OF isolated_execute]

lemma isolated_approval: "isolated T s (snd (decide_legacy_approval env T aid outcome comments s))"
proof (cases "dget (im_approvals s) aid")
  case (Some a)
  show ?thesis
  proof (cases "vget a ''tenant_id'' = VStr T")
    case True
    have put: "others (\<lambda>a. vget a ''tenant_id'' = VStr T) ((dget (im_approvals s))(aid \<mapsto> b)) =
        others (\<lambda>a. vget a ''tenant_id'' = VStr T) (dget (im_approvals s))"
      if "vget b ''tenant_id'' = vget a ''tenant_id''" for b
      using Some True that by (intro others_put) simp_all
    show ?thesis
      using Some True
      by (simp add: decide_legacy_approval_def bindp_apply seqp_apply now_run Let_def isolated_def others_view_def im_keyed_def
          dget_dput_fun put) (rule put, simp add: vget_def)
  next
    case False
    with Some show ?thesis
      by (simp add: decide_legacy_approval_def bindp_apply seqp_apply isolation.step_refl)
  qed
qed (simp add: decide_legacy_approval_def bindp_apply isolation.step_refl)

section \<open>Runs\<close>

text \<open>\<open>tenant_call env T s s'\<close>: a call for the tenant \<open>T\<close>, with any arguments, leads from \<open>s\<close> to \<open>s'\<close>.\<close>

inductive tenant_call :: "im_env \<Rightarrow> string \<Rightarrow> im_state \<Rightarrow> im_state \<Rightarrow> bool" for env T where
  ingested: "tenant_call env T s (snd (ingest env correlating event T s))"
| moved: "tenant_call env T s (snd (transition_incident env T iid state reason s))"
| worked_on: "tenant_call env T s (snd (mutate env T environment iid r s))"
| previewed: "tenant_call env T s (snd (preview_action T iid act payload s))"
| executed: "tenant_call env T s (snd (execute_action T iid act key payload s))"
| decided: "tenant_call env T s (snd (decide_legacy_approval env T aid outcome comments s))"

inductive_cases tenant_callE: "tenant_call env T s s'"

lemma isolated_call: "im_keyed s \<Longrightarrow> tenant_call env T s s' \<Longrightarrow> isolated T s s'"
  by (erule tenant_callE)
    (simp_all add: isolated_ingest isolated_transition isolated_mutate isolated_actions isolated_approval)

text \<open>The worker that takes up deferred items serves whatever tenant an item belongs to.\<close>

interpretation filing: step_order "\<lambda>s s'. im_keyed s \<longrightarrow> im_keyed s'"
  by unfold_locales blast+

lemma reconcile_keyed: "evolves (\<lambda>s s'. im_keyed s \<longrightarrow> im_keyed s') (reconcile_deferred env limit)"
proof -
  have reads: "evolves (\<lambda>s s'. im_keyed s \<longrightarrow> im_keyed s') (im_now env)"
    "evolves (\<lambda>s s'. im_keyed s \<longrightarrow> im_keyed s') (get_incident t iid e)"
    "evolves (\<lambda>s s'. im_keyed s \<longrightarrow> im_keyed s') (list_deferred k)"
    "evolves (\<lambda>s s'. im_keyed s \<longrightarrow> im_keyed s') (mark_reconciled opid time)" for t iid e k opid time
    by (auto simp: evolves_def im_now_def get_incident_def list_deferred_def mark_reconciled_def bindp_apply im_keyed_def
        split: option.split)
  have "evolves (\<lambda>s s'. im_keyed s \<longrightarrow> im_keyed s') (process env i)" for i
    unfolding evolves_def using isolated_process keyed_stays by blast
  then have item: "evolves (\<lambda>s s'. im_keyed s \<longrightarrow> im_keyed s') (reconcile_item env x)" for x
    unfolding reconcile_item_def by (intro evolve_rules reads)
  have "evolves (\<lambda>s s'. im_keyed s \<longrightarrow> im_keyed s') (reconcile_items env xs a b)" for xs a b
  proof (induction xs arbitrary: a b)
    case (Cons x xs)
    then show ?case unfolding reconcile_items.simps by (intro evolve_rules item)
  qed (unfold reconcile_items.simps, intro evolve_rules)
  then show ?thesis unfolding reconcile_deferred_def by (intro evolve_rules reads)
qed

inductive served :: "im_env \<Rightarrow> im_state \<Rightarrow> bool" for env where
  started: "served env empty_im"
| client: "served env s \<Longrightarrow> tenant_call env T s s' \<Longrightarrow> served env s'"
| worker: "served env s \<Longrightarrow> served env (snd (reconcile_deferred env limit s))"

lemma served_keyed: "served env s \<Longrightarrow> im_keyed s"
proof (induction rule: served.induct)
  case started
  show ?case by (simp add: im_keyed_def filed_as_def empty_im_def)
next
  case (client s T s')
  then show ?case using isolated_call keyed_stays by blast
next
  case (worker s limit)
  then show ?case using evolves_snd [OF reconcile_keyed] by blast
qed

text \<open>C7. Tenants are isolated: whatever calls were made before for any tenants, any run of calls for one tenant
leaves every finding, incident, group, decision, deferred item, flood window, transition, notification and
legacy approval of the other tenants exactly as it was, whether the calls return or raise and whatever
identifiers the digest yields.\<close>

theorem tenants_are_isolated:
  assumes "served env s" and "(tenant_call env T)\<^sup>*\<^sup>* s s'"
  shows "others_view T s' = others_view T s"
proof -
  from assms(2) have "isolated T s s' \<and> im_keyed s'"
  proof (induction rule: rtranclp_induct)
    case base
    then show ?case using served_keyed [OF assms(1)] by (simp add: isolation.step_refl)
  next
    case (step t u)
    then have "isolated T t u" using isolated_call by blast
    with step.IH show ?case using isolated_trans keyed_stays by blast
  qed
  then show ?thesis by (simp add: isolated_def)
qed

text \<open>Tenant \<open>''t''\<close> has ingested an event when \<open>''u''\<close> ingests an equal one, with correlation.\<close>

theorem tenants_are_isolated_witness:
  "let s = snd (ingest sample_im_env False sample_event ''t'' empty_im);
       s' = snd (ingest sample_im_env True sample_event ''u'' s)
   in others_view ''u'' s' = others_view ''u'' s \<and> (\<exists>f. dvals (im_findings s) = [f] \<and> fn_tenant_id f = ''t'')"
proof -
  let ?s = "snd (ingest sample_im_env False sample_event ''t'' empty_im)"
  have "served sample_im_env ?s" by (rule served.client [OF served.started tenant_call.ingested])
  then have "others_view ''u'' (snd (ingest sample_im_env True sample_event ''u'' ?s)) = others_view ''u'' ?s"
    by (rule tenants_are_isolated) (rule r_into_rtranclp, rule tenant_call.ingested)
  moreover obtain f where f: "normalize_event sample_im_env (ie_clock sample_im_env (im_ticks empty_im)) sample_event ''t'' = Inr f"
    using sample_event_normalized by blast
  have "dvals (im_findings ?s) = [f] \<and> fn_tenant_id f = ''t''"
    using normalized_tenant [OF f]
    by (subst ingest_run [OF f]) (simp add: bindp_def save_finding_def seqp_apply max_conflict_attempts_def
        numeral_3_eq_3 find_incident_by_dedup_def trycatch_def ingest_write_none Let_def empty_im_def)
  ultimately show ?thesis by (auto simp: Let_def)
qed

end
