(* ===== verification/DomainModel.thy ===== *)
theory DomainModel
  imports Prelude
begin

text \<open>
  The data of the Data Product subsystem: the pydantic models of
  \<open>packages/domain_model/data_product.py\<close>, the dataclasses of
  \<open>services/data_products/operation_state.py\<close>, \<open>idempotency.py\<close> and \<open>dependency_events.py\<close>.

  \<^item> A record per class, a datatype per \<open>Literal\<close> or enum; a field keeps its name behind a prefix.
  \<^item> A timezone-aware \<open>datetime\<close> is the integer number of microseconds since the epoch
    (\<open>datetime\<close>); \<open>py_datetime\<close> adds the naive ones where the code tests for them.
  \<^item> Python's unbounded integers are \<open>int\<close>. A \<open>float\<close> field is a rational: the modelled code
    only stores and compares it, and pydantic's bounds exclude NaN.
  \<^item> The annotations of a product, which no modelled operation reads, are a dictionary of strings.
  \<^item> \<open>pyval\<close> is the value of a \<open>Mapping[str, Any]\<close> entry. A JSON dump renders an instant as
    \<open>PIso\<close>; an unrendered \<open>datetime\<close> object is \<open>PTime\<close>; the dump of a product is \<open>PProduct\<close>.
  \<^item> \<open>preimage\<close> lists what the code hands to \<open>hashlib.sha256\<close>: a text, a value rendered by
    \<open>json.dumps\<close>, a product rendered by \<open>json.dumps\<close> (\<open>PreProduct\<close>) or by \<open>model_dump_json\<close>
    (\<open>PreModel\<close>), a dependency edge rendered by \<open>model_dump_json\<close>; the hash, the clock and the
    rendering of compound values by \<open>str\<close> are the fields of \<open>runtime\<close>, an argument of
    every definition that uses them.
\<close>

type_synonym datetime = int

datatype py_datetime = Aware datetime | Naive int

definition seconds :: "int \<Rightarrow> int" where
  "seconds n = n * 1000000"

definition days :: "int \<Rightarrow> int" where
  "days n = seconds (86400 * n)"

section \<open>Data product definition\<close>

datatype criticality = CrLow | CrMedium | CrHigh | CrCritical

datatype lifecycle = LcDraft | LcActive | LcDeprecated | LcArchived

record owner =
  ow_team :: string
  ow_support_url :: "string option"
  ow_on_call_url :: "string option"

datatype output_type = OtAsset | OtApi | OtKafkaTopic | OtDashboard | OtModel | OtApplication | OtApp

record output_def =
  ou_entity_id :: string
  ou_entity_type :: output_type
  ou_display_name :: string
  ou_primary :: bool
  ou_evidence_refs :: "string list"
  ou_lineage_evidence_refs :: "string list"
  ou_observed_at :: datetime

datatype membership_state = MsActive | MsExcluded | MsRemoved

datatype member_source = SrManual | SrLineage | SrDependency | SrImport | SrProposal

record member =
  mb_id :: string
  mb_product_id :: string
  mb_tenant_id :: string
  mb_environment :: string
  mb_entity_id :: string
  mb_entity_type :: string
  mb_membership_source :: member_source
  mb_state :: membership_state
  mb_evidence_refs :: "string list"
  mb_confidence :: rat
  mb_excluded :: bool
  mb_observed_at :: datetime

datatype slo_component =
    ScFreshness | ScQuality | ScAvailability | ScPipelineSuccess | ScPipelineDuration
  | ScStreamLag | ScThroughput | ScErrorRate | ScSchemaStability

datatype slo_state = SsDraft | SsActive | SsDisabled | SsArchived

record slo_definition =
  sl_id :: string
  sl_product_id :: string
  sl_tenant_id :: string
  sl_environment :: string
  sl_component :: slo_component
  sl_objective :: rat
  sl_window :: string
  sl_evaluation_method :: string
  sl_source_monitor_ids :: "string list"
  sl_weight :: rat
  sl_critical :: bool
  sl_revision :: int
  sl_etag :: string
  sl_state :: slo_state
  sl_created_at :: datetime
  sl_updated_at :: datetime

record dependency_decl =
  dd_upstream_product_id :: string
  dd_evidence_refs :: "string list"
  dd_observed_at :: datetime

record product =
  pr_id :: string
  pr_tenant_id :: string
  pr_environment :: string
  pr_schema_version :: string
  pr_created_at :: datetime
  pr_updated_at :: datetime
  pr_source_id :: "string option"
  pr_integration_id :: "string option"
  pr_owner_team :: "string option"
  pr_business_service :: "string option"
  pr_pillar :: string
  pr_status :: string
  pr_labels :: "(string \<times> string) list"
  pr_annotations :: "(string \<times> string) list"
  pr_correlation_id :: "string option"
  pr_revision :: int
  pr_etag :: string
  pr_name :: string
  pr_description :: string
  pr_domain :: string
  pr_criticality :: criticality
  pr_lifecycle_state :: lifecycle
  pr_owner :: owner
  pr_tags :: "string list"
  pr_outputs :: "output_def list"
  pr_members :: "member list"
  pr_dependencies :: "dependency_decl list"
  pr_slos :: "slo_definition list"

text \<open>The field validator \<open>unique_outputs\<close> of the product definition.\<close>

definition unique_outputs :: "output_def list \<Rightarrow> py_error + output_def list" where
  "unique_outputs outputs =
     (let keys = map (\<lambda>item. (ou_entity_type item, ou_entity_id item)) outputs
      in if length keys \<noteq> card (set keys) then Inl (ValueError ''duplicate data product output'')
         else Inr outputs)"

section \<open>Memberships, proposals and decisions\<close>

record membership =
  me_membership_id :: string
  me_product_id :: string
  me_tenant_id :: string
  me_environment :: string
  me_entity_id :: string
  me_entity_type :: string
  me_source :: member_source
  me_state :: membership_state
  me_proposal_id :: "string option"
  me_evidence_refs :: "string list"
  me_confidence :: rat
  me_source_coverage :: rat
  me_observed_at :: datetime
  me_created_at :: datetime
  me_updated_at :: datetime
  me_created_by :: string
  me_excluded_at :: "datetime option"
  me_excluded_by :: "string option"
  me_exclusion_reason :: "string option"
  me_revision :: int
  me_etag :: string
  me_schema_version :: string

datatype proposal_state = PsProposed | PsAccepted | PsRejected | PsSuperseded | PsExpired

datatype proposal_source = PrLineage | PrDependency | PrImport

record proposal =
  pp_proposal_id :: string
  pp_product_id :: string
  pp_tenant_id :: string
  pp_environment :: string
  pp_entity_id :: string
  pp_entity_type :: string
  pp_source :: proposal_source
  pp_state :: proposal_state
  pp_evidence_refs :: "string list"
  pp_confidence :: rat
  pp_source_coverage :: rat
  pp_missing_inputs :: "string list"
  pp_truncated :: bool
  pp_observed_at :: datetime
  pp_created_at :: datetime
  pp_expires_at :: datetime
  pp_proposal_revision :: int
  pp_schema_version :: string

datatype decision_action = DcAdd | DcAccept | DcReject | DcExpire | DcSupersede | DcExclude

datatype outcome = OcPending | OcApplied | OcSuperseded | OcFailed

record decision =
  de_decision_id :: string
  de_tenant_id :: string
  de_environment :: string
  de_product_id :: string
  de_proposal_id :: "string option"
  de_membership_id :: "string option"
  de_decision :: decision_action
  de_operation_id :: "string option"
  de_outcome :: outcome
  de_actor :: string
  de_reason :: string
  de_idempotency_key_hash :: string
  de_request_fingerprint :: string
  de_expected_revision :: "int option"
  de_result_revision :: "int option"
  de_result_etag :: "string option"
  de_error_code :: "string option"
  de_decided_at :: datetime
  de_occurred_at :: datetime
  de_applied_at :: "datetime option"
  de_schema_version :: string

text \<open>A page of a listing: the items and whether more exist.\<close>

record 'a page =
  pg_items :: "'a list"
  pg_has_more :: bool

section \<open>Dependency edges\<close>

record dep_edge =
  ed_tenant_id :: string
  ed_environment :: string
  ed_product_id :: string
  ed_upstream_product_id :: string
  ed_relationship :: string
  ed_source :: string
  ed_evidence_refs :: "string list"
  ed_confidence :: rat
  ed_observed_at :: datetime
  ed_product_revision :: int
  ed_graph_version :: string
  ed_created_at :: datetime
  ed_updated_at :: datetime
  ed_removed :: bool
  ed_removed_at :: "datetime option"
  ed_removed_by_revision :: "int option"
  ed_schema_version :: string

record dep_snapshot =
  sn_dependencies :: "dep_edge list"
  sn_count :: int
  sn_complete :: bool

record dep_plan =
  dp_current_product_revision :: int
  dp_next_product_revision :: int
  dp_expected_product_etag :: string
  dp_new_product_etag :: string
  dp_before_graph_version :: string
  dp_after_graph_version :: string
  dp_upserts :: "dep_edge list"
  dp_tombstones :: "dep_edge list"
  dp_warnings :: "string list"
  dp_request_fingerprint :: string

record dep_operation =
  do_operation_id :: string
  do_tenant_id :: string
  do_environment :: string
  do_product_id :: string
  do_actor :: string
  do_reason :: string
  do_request_fingerprint :: string
  do_idempotency_key_hash :: string
  do_expected_product_revision :: int
  do_expected_product_etag :: string
  do_before_graph_version :: string
  do_after_graph_version :: string
  do_before_checksum :: string
  do_after_checksum :: string
  do_outcome :: string
  do_occurred_at :: datetime
  do_schema_version :: string

record dep_result =
  dr_operation :: dep_operation
  dr_operation_result_product :: product
  dr_result_product_revision :: int
  dr_result_product_etag :: string
  dr_applied_at :: datetime
  dr_result_definition_checksum :: string
  dr_result_graph_version :: string
  dr_active_dependencies :: "dep_edge list"
  dr_active_dependency_checksums :: "string list"
  dr_removed_dependency_ids :: "string list"
  dr_upserted_count :: int
  dr_removed_count :: int
  dr_warnings :: "string list"
  dr_request_fingerprint :: string

section \<open>Revision events and operation results\<close>

datatype product_action = AcCreate | AcUpdate | AcActivate | AcDeprecate | AcArchive

record revision_event =
  ev_operation_id :: string
  ev_product_id :: string
  ev_tenant_id :: string
  ev_environment :: string
  ev_revision :: int
  ev_etag :: string
  ev_definition_checksum :: string
  ev_actor :: string
  ev_reason :: string
  ev_action :: product_action
  ev_outcome :: outcome
  ev_occurred_at :: datetime
  ev_applied_at :: "datetime option"
  ev_error_code :: "string option"

record operation_result =
  or_operation_id :: string
  or_action :: product_action
  or_outcome :: outcome
  or_product :: product
  or_revision :: int
  or_etag :: string
  or_definition_checksum :: string
  or_actor :: string
  or_reason :: string
  or_occurred_at :: datetime
  or_applied_at :: "datetime option"

section \<open>Values, hashing and the runtime\<close>

datatype pyval =
    PNone
  | PBool bool
  | PInt int
  | PFloat rat
  | PStr string
  | PIso datetime
  | PTime datetime
  | PList "pyval list"
  | PDict "(string \<times> pyval) list"
  | PProduct product

text \<open>
  \<open>json.dumps(\<dots>, sort_keys=True, default=str)\<close> is injective up to the order of keys; \<open>canon\<close>
  is the representative with sorted keys.
\<close>

fun canon :: "pyval \<Rightarrow> pyval" where
  "canon (PList vs) = PList (map canon vs)"
| "canon (PDict kvs) = PDict (sort_key fst (map (\<lambda>kv. (fst kv, canon (snd kv))) kvs))"
| "canon v = v"

datatype preimage =
    PreText string
  | PreJson pyval
  | PreProduct product
  | PreModel product
  | PreEdge dep_edge

record runtime =
  sha256 :: "preimage \<Rightarrow> string"
  clock :: "nat \<Rightarrow> datetime"
  str_compound :: "pyval \<Rightarrow> string"

definition py_str :: "runtime \<Rightarrow> pyval \<Rightarrow> string" where
  "py_str rt v = (case v of
       PStr s \<Rightarrow> s
     | PNone \<Rightarrow> ''None''
     | PBool b \<Rightarrow> (if b then ''True'' else ''False'')
     | PInt i \<Rightarrow> int_str i
     | _ \<Rightarrow> str_compound rt v)"

text \<open>\<open>isinstance(v, Mapping)\<close> and \<open>payload.get(key, default)\<close>.\<close>

definition is_mapping :: "pyval \<Rightarrow> bool" where
  "is_mapping v = (case v of PDict _ \<Rightarrow> True | PProduct _ \<Rightarrow> True | _ \<Rightarrow> False)"

type_synonym payload = "(string \<times> pyval) list"

definition pget :: "payload \<Rightarrow> string \<Rightarrow> pyval \<Rightarrow> pyval" where
  "pget p k d = (case dget p k of None \<Rightarrow> d | Some v \<Rightarrow> v)"

section \<open>Operations: history, claims, durable state\<close>

datatype op_status = OsPending | OsClaimed | OsApplied | OsSuperseded | OsFailed

datatype history_outcome = HoPending | HoClaimed | HoCheckpoint | HoApplied | HoSuperseded | HoFailed

datatype recon_status = RsApplied | RsSuperseded | RsFailed | RsRetry | RsMissing

record recon_result =
  rr_operation_id :: string
  rr_operation_kind :: "string option"
  rr_status :: recon_status
  rr_replayed :: bool
  rr_recovered :: bool
  rr_retryable :: bool
  rr_attempt_count :: int
  rr_claim_generation :: int
  rr_last_checkpoint :: "string option"
  rr_result_reference :: "string option"
  rr_error_code :: "string option"
  rr_retry_after_seconds :: "int option"

record history_event =
  he_event_id :: string
  he_operation_id :: string
  he_tenant_id :: string
  he_environment :: string
  he_product_id :: string
  he_operation_kind :: string
  he_action :: string
  he_outcome :: history_outcome
  he_actor :: string
  he_reason :: string
  he_request_fingerprint :: string
  he_occurred_at :: datetime
  he_expected_revision :: pyval
  he_expected_etag :: pyval
  he_result_revision :: "int option"
  he_result_etag :: "string option"
  he_plan_checksum :: "string option"
  he_result_checksum :: "string option"
  he_error_code :: "string option"
  he_worker_id :: "string option"
  he_applied_at :: "datetime option"
  he_schema_version :: string

record checkpoint =
  cp_name :: string
  cp_checksum :: string
  cp_occurred_at :: datetime

record claim =
  cl_operation_id :: string
  cl_owner :: string
  cl_generation :: int
  cl_claimed_at :: datetime
  cl_expires_at :: datetime
  cl_tenant_id :: string
  cl_environment :: string
  cl_product_id :: string

record final_result =
  fr_revision :: int
  fr_etag :: string
  fr_checksum :: string
  fr_applied_at :: datetime

record op_state =
  os_operation_id :: string
  os_tenant_id :: string
  os_environment :: string
  os_product_id :: string
  os_operation_kind :: string
  os_status :: op_status
  os_attempt_count :: int
  os_updated_at :: datetime
  os_claim_owner :: "string option"
  os_claim_generation :: int
  os_claimed_at :: "datetime option"
  os_claim_expires_at :: "datetime option"
  os_last_checkpoint :: "checkpoint option"
  os_last_error_code :: "string option"
  os_last_retryable_error :: "string option"
  os_next_attempt_at :: "datetime option"
  os_retry_after_seconds :: "int option"
  os_plan_reference :: "string option"
  os_result_reference :: "string option"
  os_idempotency_record_id :: "string option"
  os_seq_no :: int
  os_primary_term :: int

text \<open>The method \<open>DataProductOperationState.claimed\<close>.\<close>

definition claimed :: "op_state \<Rightarrow> claim \<Rightarrow> datetime \<Rightarrow> op_state" where
  "claimed st cl now = st\<lparr>
     os_status := OsClaimed,
     os_attempt_count := os_attempt_count st + 1,
     os_claim_owner := Some (cl_owner cl),
     os_claim_generation := cl_generation cl,
     os_claimed_at := Some (cl_claimed_at cl),
     os_claim_expires_at := Some (cl_expires_at cl),
     os_updated_at := now,
     os_next_attempt_at := None,
     os_retry_after_seconds := None,
     os_seq_no := os_seq_no st + 1\<rparr>"

record op_plan =
  pl_reference :: string
  pl_tenant_id :: string
  pl_environment :: string
  pl_product_id :: string
  pl_operation_id :: string
  pl_operation_kind :: string
  pl_checksum :: string
  pl_payload :: payload

record result_envelope =
  re_reference :: string
  re_tenant_id :: string
  re_environment :: string
  re_product_id :: string
  re_operation_id :: string
  re_checksum :: string
  re_payload :: payload
  re_created_at :: datetime

section \<open>Idempotency records\<close>

datatype idem_state = IdPending | IdCompleted | IdFailed | IdSuperseded

datatype reservation_status =
  RvCreated | RvExistingPending | RvExistingCompleted | RvExistingFailed | RvExistingSuperseded

record idem_record =
  ir_tenant_id :: string
  ir_environment :: string
  ir_resource_type :: string
  ir_resource_id :: string
  ir_action :: string
  ir_idempotency_key_hash :: string
  ir_request_fingerprint :: string
  ir_operation_id :: "string option"
  ir_state :: idem_state
  ir_created_at :: datetime
  ir_updated_at :: datetime
  ir_completed_at :: "datetime option"
  ir_result_revision :: "int option"
  ir_result_etag :: "string option"
  ir_error_code :: "string option"
  ir_expires_at :: datetime
  ir_schema_version :: string

record reservation =
  rv_status :: reservation_status
  rv_record :: idem_record
  rv_immutable_result_ref :: "string option"

end
