(* ===== verification/MemoryRepository.thy ===== *)
theory MemoryRepository
  imports DomainModel
begin

text \<open>
  \<open>MemoryDataProductRepository\<close> of \<open>services/data_products/memory_repository.py\<close>: the state of the
  repository as the record \<open>repo\<close>, one dictionary per attribute of the class, and one definition
  per method. \<open>rp_ticks\<close> counts the readings of the clock: \<open>utc_now\<close> returns the next reading.
  Deep copies need no counterpart, since values are immutable here.
\<close>

section \<open>State\<close>

record repo =
  rp_items :: "((string \<times> string \<times> string) \<times> product) list"
  rp_revisions :: "((string \<times> string \<times> string \<times> int) \<times> (product \<times> string \<times> string)) list"
  rp_operations :: "(string \<times> (revision_event \<times> product)) list"
  rp_idempotency :: "(string \<times> idem_record) list"
  rp_memberships :: "((string \<times> string \<times> string \<times> string) \<times> membership) list"
  rp_proposals :: "((string \<times> string \<times> string \<times> string \<times> int) \<times> proposal) list"
  rp_decisions :: "((string \<times> string \<times> string \<times> string) \<times> decision) list"
  rp_dependencies :: "((string \<times> string \<times> string \<times> string) \<times> dep_edge) list"
  rp_dependency_plans :: "(string \<times> dep_plan) list"
  rp_dependency_results :: "(string \<times> dep_result) list"
  rp_operation_states :: "((string \<times> string \<times> string) \<times> op_state) list"
  rp_operation_history :: "(string \<times> history_event) list"
  rp_operation_plans :: "((string \<times> string \<times> string \<times> string) \<times> op_plan) list"
  rp_operation_results :: "((string \<times> string \<times> string \<times> string) \<times> result_envelope) list"
  rp_ticks :: nat

definition empty_repo :: repo where
  "empty_repo = \<lparr>rp_items = [], rp_revisions = [], rp_operations = [], rp_idempotency = [],
     rp_memberships = [], rp_proposals = [], rp_decisions = [], rp_dependencies = [],
     rp_dependency_plans = [], rp_dependency_results = [], rp_operation_states = [],
     rp_operation_history = [], rp_operation_plans = [], rp_operation_results = [], rp_ticks = 0\<rparr>"

type_synonym 'a rp = "(repo, 'a) py"

definition utc_now :: "runtime \<Rightarrow> datetime rp" where
  "utc_now rt = (\<lambda>s. (Inr (clock rt (rp_ticks s)), s\<lparr>rp_ticks := Suc (rp_ticks s)\<rparr>))"

section \<open>Operation state and claims\<close>

definition os_key :: "op_state \<Rightarrow> string \<times> string \<times> string" where
  "os_key st = (os_tenant_id st, os_environment st, os_operation_id st)"

definition cl_key :: "claim \<Rightarrow> string \<times> string \<times> string" where
  "cl_key cl = (cl_tenant_id cl, cl_environment cl, cl_operation_id cl)"

definition put_operation_state :: "string \<times> string \<times> string \<Rightarrow> op_state \<Rightarrow> unit rp" where
  "put_operation_state k st =
     writes (\<lambda>s. s\<lparr>rp_operation_states := dput k st (rp_operation_states s)\<rparr>)"

definition add_operation_state :: "op_state \<Rightarrow> unit rp" where
  "add_operation_state st = put_operation_state (os_key st) st"

definition create_operation_state :: "op_state \<Rightarrow> unit rp" where
  "create_operation_state st =
     bindp (reads (\<lambda>s. dget (rp_operation_states s) (os_key st))) (\<lambda>existing.
     seqp (raise_if (existing \<noteq> None \<and> existing \<noteq> Some st)
             (ProductConsistencyError ''divergent operation state''))
     (put_operation_state (os_key st) st))"

definition get_operation_state :: "string \<Rightarrow> string \<Rightarrow> string \<Rightarrow> op_state option rp" where
  "get_operation_state tenant_id environment operation_id = reads (\<lambda>s.
     case dget (rp_operation_states s) (tenant_id, environment, operation_id) of
       None \<Rightarrow> None
     | Some st \<Rightarrow>
         if (os_tenant_id st, os_environment st) = (tenant_id, environment) then Some st else None)"

definition reconcilable :: "datetime \<Rightarrow> op_state \<Rightarrow> bool" where
  "reconcilable now st \<longleftrightarrow>
     (case os_next_attempt_at st of None \<Rightarrow> True | Some t \<Rightarrow> t \<le> now) \<and>
     (os_status st = OsPending \<or>
      os_status st = OsClaimed \<and>
        (case os_claim_expires_at st of None \<Rightarrow> False | Some t \<Rightarrow> t \<le> now))"

definition list_reconcilable_operations ::
  "runtime \<Rightarrow> string \<Rightarrow> string \<Rightarrow> int \<Rightarrow> string option \<Rightarrow> py_datetime option \<Rightarrow> op_state list rp" where
  "list_reconcilable_operations rt tenant_id environment limit operation_kind now =
     bindp (case now of None \<Rightarrow> bindp (utc_now rt) (\<lambda>t. ret (Aware t)) | Some d \<Rightarrow> ret d) (\<lambda>query_now.
     case query_now of
       Naive _ \<Rightarrow> raise (ValueError ''now must be timezone-aware'')
     | Aware t \<Rightarrow> reads (\<lambda>s.
         slice_to limit (sort_key (\<lambda>st. (os_updated_at st, os_operation_id st))
           (filter (\<lambda>st. (os_tenant_id st, os_environment st) = (tenant_id, environment) \<and>
                         (operation_kind = None \<or> operation_kind = Some (os_operation_kind st)) \<and>
                         reconcilable t st)
             (dvals (rp_operation_states s))))))"

definition claim_operation ::
  "string \<Rightarrow> string \<Rightarrow> string \<Rightarrow> string \<Rightarrow> datetime \<Rightarrow> datetime \<Rightarrow> int \<Rightarrow> int \<Rightarrow> claim rp" where
  "claim_operation tenant_id environment operation_id worker_id now expires_at
       expected_seq_no expected_primary_term =
     bindp (get_operation_state tenant_id environment operation_id) (\<lambda>found.
     case found of
       None \<Rightarrow> raise (KeyError operation_id)
     | Some st \<Rightarrow>
         seqp (raise_if ((os_seq_no st, os_primary_term st) \<noteq> (expected_seq_no, expected_primary_term))
                 (OperationClaimConflict ''operation_claim_conflict''))
         (seqp (raise_if ((case os_claim_expires_at st of None \<Rightarrow> False | Some t \<Rightarrow> now < t) \<and>
                          os_claim_owner st \<noteq> Some worker_id)
                 (OperationClaimConflict ''operation_already_claimed''))
         (seqp (raise_if (os_status st \<notin> {OsPending, OsClaimed} \<or>
                          os_status st = OsClaimed \<and>
                            (case os_claim_expires_at st of None \<Rightarrow> True | Some t \<Rightarrow> now < t))
                 (OperationClaimConflict ''operation_not_reconcilable''))
         (let cl = \<lparr>cl_operation_id = operation_id, cl_owner = worker_id,
                    cl_generation = os_claim_generation st + 1, cl_claimed_at = now,
                    cl_expires_at = expires_at, cl_tenant_id = tenant_id,
                    cl_environment = environment, cl_product_id = os_product_id st\<rparr>
          in seqp (put_operation_state (tenant_id, environment, operation_id) (claimed st cl now))
             (ret cl)))))"

definition owned_state :: "runtime \<Rightarrow> claim \<Rightarrow> op_state rp" where
  "owned_state rt cl =
     bindp (reads (\<lambda>s. dget (rp_operation_states s) (cl_key cl))) (\<lambda>found.
     case found of
       None \<Rightarrow> raise (OperationClaimConflict ''stale_operation_claim'')
     | Some st \<Rightarrow>
         if cl_tenant_id cl \<noteq> [] \<and>
            (os_tenant_id st, os_environment st, os_product_id st) \<noteq>
            (cl_tenant_id cl, cl_environment cl, cl_product_id cl)
          \<or> (os_claim_owner st, os_claim_generation st) \<noteq> (Some (cl_owner cl), cl_generation cl)
         then raise (OperationClaimConflict ''stale_operation_claim'')
         else (case os_claim_expires_at st of
             None \<Rightarrow> raise (OperationClaimConflict ''stale_operation_claim'')
           | Some t \<Rightarrow>
               bindp (utc_now rt) (\<lambda>now.
               if t \<le> now then raise (OperationClaimConflict ''stale_operation_claim'') else ret st)))"

definition renew_operation_claim :: "runtime \<Rightarrow> claim \<Rightarrow> datetime \<Rightarrow> claim rp" where
  "renew_operation_claim rt cl expires_at =
     bindp (owned_state rt cl) (\<lambda>st.
     seqp (put_operation_state (cl_key cl)
             (st\<lparr>os_claim_expires_at := Some expires_at, os_seq_no := os_seq_no st + 1\<rparr>))
     (ret (cl\<lparr>cl_expires_at := expires_at\<rparr>)))"

definition assert_operation_claim :: "runtime \<Rightarrow> claim \<Rightarrow> unit rp" where
  "assert_operation_claim rt cl = bindp (owned_state rt cl) (\<lambda>_. ret ())"

definition checkpoint_operation :: "runtime \<Rightarrow> claim \<Rightarrow> checkpoint \<Rightarrow> unit rp" where
  "checkpoint_operation rt cl cp =
     bindp (owned_state rt cl) (\<lambda>st.
     put_operation_state (cl_key cl)
       (st\<lparr>os_last_checkpoint := Some cp, os_updated_at := cp_occurred_at cp,
           os_seq_no := os_seq_no st + 1\<rparr>))"

definition finalize_state ::
  "runtime \<Rightarrow> claim \<Rightarrow> op_status \<Rightarrow> final_result option \<Rightarrow> string option \<Rightarrow> unit rp" where
  "finalize_state rt cl status result error_code =
     bindp (owned_state rt cl) (\<lambda>st.
     put_operation_state (cl_key cl)
       (st\<lparr>os_status := status,
           os_result_reference := (case result of None \<Rightarrow> os_result_reference st | Some r \<Rightarrow> Some (fr_checksum r)),
           os_last_error_code := error_code,
           os_claim_owner := None,
           os_claim_expires_at := None,
           os_updated_at := (case result of None \<Rightarrow> os_updated_at st | Some r \<Rightarrow> fr_applied_at r),
           os_seq_no := os_seq_no st + 1\<rparr>))"

definition complete_operation :: "runtime \<Rightarrow> claim \<Rightarrow> final_result \<Rightarrow> unit rp" where
  "complete_operation rt cl result = finalize_state rt cl OsApplied (Some result) None"

definition supersede_operation :: "runtime \<Rightarrow> claim \<Rightarrow> string \<Rightarrow> unit rp" where
  "supersede_operation rt cl error_code = finalize_state rt cl OsSuperseded None (Some error_code)"

definition fail_operation :: "runtime \<Rightarrow> claim \<Rightarrow> string \<Rightarrow> unit rp" where
  "fail_operation rt cl error_code = finalize_state rt cl OsFailed None (Some error_code)"

definition schedule_operation_retry ::
  "runtime \<Rightarrow> claim \<Rightarrow> string \<Rightarrow> datetime \<Rightarrow> int \<Rightarrow> unit rp" where
  "schedule_operation_retry rt cl error_code next_attempt_at retry_after_seconds =
     bindp (owned_state rt cl) (\<lambda>st.
     bindp (utc_now rt) (\<lambda>now.
     put_operation_state (cl_key cl)
       (st\<lparr>os_status := OsPending,
           os_claim_owner := None,
           os_claimed_at := None,
           os_claim_expires_at := None,
           os_last_retryable_error := Some error_code,
           os_last_error_code := Some error_code,
           os_next_attempt_at := Some next_attempt_at,
           os_retry_after_seconds := Some retry_after_seconds,
           os_updated_at := now,
           os_seq_no := os_seq_no st + 1\<rparr>)))"

definition release_operation_claim :: "runtime \<Rightarrow> claim \<Rightarrow> unit rp" where
  "release_operation_claim rt cl =
     bindp (owned_state rt cl) (\<lambda>st.
     put_operation_state (cl_key cl)
       (st\<lparr>os_status := OsPending,
           os_claim_owner := None,
           os_claimed_at := None,
           os_claim_expires_at := None,
           os_seq_no := os_seq_no st + 1\<rparr>))"

section \<open>Immutable history, plans and results\<close>

definition append_operation_history :: "history_event \<Rightarrow> unit rp" where
  "append_operation_history ev =
     bindp (reads (\<lambda>s. dget (rp_operation_history s) (he_event_id ev))) (\<lambda>existing.
     seqp (raise_if (existing \<noteq> None \<and> existing \<noteq> Some ev)
             (ProductConsistencyError ''divergent immutable operation history''))
     (writes (\<lambda>s. s\<lparr>rp_operation_history := dput (he_event_id ev) ev (rp_operation_history s)\<rparr>)))"

definition get_operation_history :: "string \<Rightarrow> string \<Rightarrow> string \<Rightarrow> int \<Rightarrow> history_event list rp" where
  "get_operation_history tenant_id environment operation_id limit = reads (\<lambda>s.
     slice_to limit (sort_key (\<lambda>e. (he_occurred_at e, he_event_id e))
       (filter (\<lambda>e. (he_tenant_id e, he_environment e, he_operation_id e) =
                    (tenant_id, environment, operation_id))
         (dvals (rp_operation_history s)))))"

definition pl_key :: "op_plan \<Rightarrow> string \<times> string \<times> string \<times> string" where
  "pl_key p = (pl_tenant_id p, pl_environment p, pl_product_id p, pl_operation_id p)"

definition save_operation_plan :: "op_plan \<Rightarrow> unit rp" where
  "save_operation_plan p =
     bindp (reads (\<lambda>s. dget (rp_operation_plans s) (pl_key p))) (\<lambda>existing.
     seqp (raise_if (existing \<noteq> None \<and> existing \<noteq> Some p)
             (ProductConsistencyError ''divergent operation plan''))
     (writes (\<lambda>s. s\<lparr>rp_operation_plans := dput (pl_key p) p (rp_operation_plans s)\<rparr>)))"

definition load_operation_plan :: "string \<Rightarrow> string \<Rightarrow> string \<Rightarrow> string \<Rightarrow> op_plan option rp" where
  "load_operation_plan tenant_id environment product_id operation_id =
     reads (\<lambda>s. dget (rp_operation_plans s) (tenant_id, environment, product_id, operation_id))"

definition re_key :: "result_envelope \<Rightarrow> string \<times> string \<times> string \<times> string" where
  "re_key r = (re_tenant_id r, re_environment r, re_product_id r, re_operation_id r)"

definition save_operation_result :: "result_envelope \<Rightarrow> unit rp" where
  "save_operation_result r =
     bindp (reads (\<lambda>s. dget (rp_operation_results s) (re_key r))) (\<lambda>existing.
     seqp (raise_if (existing \<noteq> None \<and> existing \<noteq> Some r)
             (ProductConsistencyError ''divergent operation result''))
     (writes (\<lambda>s. s\<lparr>rp_operation_results := dput (re_key r) r (rp_operation_results s)\<rparr>)))"

definition load_operation_result ::
  "string \<Rightarrow> string \<Rightarrow> string \<Rightarrow> string \<Rightarrow> result_envelope option rp" where
  "load_operation_result tenant_id environment product_id operation_id =
     reads (\<lambda>s. dget (rp_operation_results s) (tenant_id, environment, product_id, operation_id))"

section \<open>Idempotency records\<close>

definition put_idempotency :: "string \<Rightarrow> idem_record \<Rightarrow> unit rp" where
  "put_idempotency record_id r =
     writes (\<lambda>s. s\<lparr>rp_idempotency := dput record_id r (rp_idempotency s)\<rparr>)"

definition get_idempotency :: "string \<Rightarrow> idem_record option rp" where
  "get_idempotency record_id = reads (\<lambda>s. dget (rp_idempotency s) record_id)"

fun existing_status :: "idem_state \<Rightarrow> reservation_status" where
  "existing_status IdPending = RvExistingPending"
| "existing_status IdCompleted = RvExistingCompleted"
| "existing_status IdFailed = RvExistingFailed"
| "existing_status IdSuperseded = RvExistingSuperseded"

definition reserve_idempotency :: "string \<Rightarrow> idem_record \<Rightarrow> reservation rp" where
  "reserve_idempotency record_id r =
     bindp (get_idempotency record_id) (\<lambda>found.
     case found of
       Some existing \<Rightarrow>
         seqp (raise_if (ir_request_fingerprint existing \<noteq> ir_request_fingerprint r)
                 (IdempotencyConflict ''idempotency_conflict''))
         (ret \<lparr>rv_status = existing_status (ir_state existing), rv_record = existing,
               rv_immutable_result_ref = ir_operation_id existing\<rparr>)
     | None \<Rightarrow>
         seqp (put_idempotency record_id r)
         (ret \<lparr>rv_status = RvCreated, rv_record = r, rv_immutable_result_ref = None\<rparr>))"

definition complete_idempotency :: "runtime \<Rightarrow> string \<Rightarrow> string \<Rightarrow> int \<Rightarrow> string \<Rightarrow> unit rp" where
  "complete_idempotency rt record_id operation_id revision etag =
     bindp (get_idempotency record_id) (\<lambda>found.
     case found of
       None \<Rightarrow> raise (KeyError record_id)
     | Some r \<Rightarrow>
         bindp (utc_now rt) (\<lambda>now.
         put_idempotency record_id
           (r\<lparr>ir_operation_id := Some operation_id, ir_state := IdCompleted,
              ir_result_revision := Some revision, ir_result_etag := Some etag,
              ir_completed_at := Some now, ir_updated_at := now\<rparr>)))"

definition bind_or_verify_idempotency_operation ::
  "string \<Rightarrow> string \<Rightarrow> string \<Rightarrow> string \<Rightarrow> string \<Rightarrow> string \<Rightarrow> string \<Rightarrow> idem_record rp" where
  "bind_or_verify_idempotency_operation record_id tenant_id environment product_id action
       request_fingerprint expected_operation_id =
     bindp (get_idempotency record_id) (\<lambda>found.
     case found of
       None \<Rightarrow> raise (ProductConsistencyError ''idempotency reservation missing'')
     | Some r \<Rightarrow>
         if (ir_tenant_id r, ir_environment r, ir_resource_id r, ir_action r, ir_request_fingerprint r)
              \<noteq> (tenant_id, environment, product_id, action, request_fingerprint)
            \<or> ir_operation_id r \<notin> {None, Some expected_operation_id}
         then raise (ProductConsistencyError ''idempotency operation binding mismatch'')
         else if ir_operation_id r = None then
           (let bound = r\<lparr>ir_operation_id := Some expected_operation_id\<rparr>
            in seqp (put_idempotency record_id bound) (ret bound))
         else ret r)"

definition terminal_idempotency ::
  "runtime \<Rightarrow> string \<Rightarrow> idem_state \<Rightarrow> string option \<Rightarrow> unit rp" where
  "terminal_idempotency rt record_id state error_code =
     bindp (get_idempotency record_id) (\<lambda>found.
     case found of
       None \<Rightarrow> raise (KeyError record_id)
     | Some r \<Rightarrow>
         if ir_state r = IdCompleted then ret ()
         else bindp (utc_now rt) (\<lambda>now.
           put_idempotency record_id
             (r\<lparr>ir_state := state, ir_error_code := error_code, ir_updated_at := now\<rparr>)))"

definition fail_idempotency :: "runtime \<Rightarrow> string \<Rightarrow> string \<Rightarrow> unit rp" where
  "fail_idempotency rt record_id error_code =
     terminal_idempotency rt record_id IdFailed (Some error_code)"

definition supersede_idempotency :: "runtime \<Rightarrow> string \<Rightarrow> string \<Rightarrow> unit rp" where
  "supersede_idempotency rt record_id error_code =
     terminal_idempotency rt record_id IdSuperseded (Some error_code)"

text \<open>The last argument of \<open>repair_idempotency_terminal\<close>: a final result or an error code.\<close>

datatype evidence = EvResult final_result | EvError string

fun terminal_state :: "string \<Rightarrow> idem_state option" where
  "terminal_state o1 =
     (if o1 = ''completed'' then Some IdCompleted
      else if o1 = ''failed'' then Some IdFailed
      else if o1 = ''superseded'' then Some IdSuperseded else None)"

definition repair_desired ::
  "string \<Rightarrow> evidence \<Rightarrow> py_error + (idem_state \<times> int option \<times> string option \<times> string option)" where
  "repair_desired out ev =
     (if out = ''completed'' then
        (case ev of
           EvResult r \<Rightarrow> Inr (IdCompleted, Some (fr_revision r), Some (fr_etag r), None)
         | EvError _ \<Rightarrow> Inl (AttributeError ''revision''))
      else (case (terminal_state out, ev) of
           (Some st, EvError code) \<Rightarrow> Inr (st, None, None, Some code)
         | _ \<Rightarrow> Inl (ValueError ''unsupported idempotency terminal outcome'')))"

definition repair_idempotency_terminal ::
  "runtime \<Rightarrow> string \<Rightarrow> string \<Rightarrow> string \<Rightarrow> string \<Rightarrow> evidence \<Rightarrow> unit rp" where
  "repair_idempotency_terminal rt record_id expected_operation_id expected_request_fingerprint out ev =
     bindp (get_idempotency record_id) (\<lambda>found.
     case found of
       None \<Rightarrow> raise (ProductConsistencyError ''idempotency reservation missing'')
     | Some r0 \<Rightarrow>
         if ir_request_fingerprint r0 \<noteq> expected_request_fingerprint \<or>
            ir_operation_id r0 \<notin> {None, Some expected_operation_id}
         then raise (ProductConsistencyError ''idempotency operation binding mismatch'')
         else
           (let r = (if ir_operation_id r0 = None
                     then r0\<lparr>ir_operation_id := Some expected_operation_id\<rparr> else r0)
            in seqp (if ir_operation_id r0 = None then put_idempotency record_id r else ret ())
               (case repair_desired out ev of
                  Inl e \<Rightarrow> raise e
                | Inr desired \<Rightarrow>
                    if ir_state r \<noteq> IdPending then
                      (if (ir_state r, ir_result_revision r, ir_result_etag r, ir_error_code r) = desired
                       then ret ()
                       else raise (ProductConsistencyError ''terminal idempotency state cannot diverge''))
                    else (case (ev, terminal_state out) of
                        (EvResult res, _) \<Rightarrow>
                          put_idempotency record_id
                            (r\<lparr>ir_state := IdCompleted, ir_operation_id := Some expected_operation_id,
                               ir_result_revision := Some (fr_revision res),
                               ir_result_etag := Some (fr_etag res),
                               ir_completed_at := Some (fr_applied_at res),
                               ir_updated_at := fr_applied_at res\<rparr>)
                      | (EvError code, Some st) \<Rightarrow> terminal_idempotency rt record_id st (Some code)
                      | (EvError code, None) \<Rightarrow> ret ()))))"

definition list_expired_idempotency :: "string \<Rightarrow> string \<Rightarrow> datetime \<Rightarrow> int \<Rightarrow> idem_record list rp" where
  "list_expired_idempotency tenant_id environment now limit = reads (\<lambda>s.
     slice_to limit
       (filter (\<lambda>v. (ir_tenant_id v, ir_environment v) = (tenant_id, environment) \<and> ir_expires_at v \<le> now)
         (sort_key (\<lambda>v. (ir_expires_at v, ir_resource_id v)) (dvals (rp_idempotency s)))))"

section \<open>Products and product operations\<close>

definition pr_key :: "product \<Rightarrow> string \<times> string \<times> string" where
  "pr_key p = (pr_tenant_id p, pr_environment p, pr_id p)"

definition create_product :: "product \<Rightarrow> product rp" where
  "create_product p =
     bindp (reads (\<lambda>s. dget (rp_items s) (pr_key p))) (\<lambda>existing.
     seqp (raise_if (existing \<noteq> None) (ProductVersionConflict ''data product exists''))
     (seqp (writes (\<lambda>s. s\<lparr>rp_items := dput (pr_key p) p (rp_items s)\<rparr>))
     (ret p)))"

definition get_product :: "string \<Rightarrow> string \<Rightarrow> string \<Rightarrow> product option rp" where
  "get_product tenant_id environment product_id =
     reads (\<lambda>s. dget (rp_items s) (tenant_id, environment, product_id))"

definition list_products :: "string \<Rightarrow> string \<Rightarrow> int \<Rightarrow> string list \<Rightarrow> product list rp" where
  "list_products tenant_id environment limit search_after =
     seqp (raise_if (\<not> (1 \<le> limit \<and> limit \<le> 200)) (ValueError ''limit outside bounds''))
     (reads (\<lambda>s.
        let values = sort_key pr_id
              (map snd (filter (\<lambda>kv. (fst (fst kv), fst (snd (fst kv))) = (tenant_id, environment)) (rp_items s)));
            after = (case search_after of [] \<Rightarrow> values | a # _ \<Rightarrow> filter (\<lambda>p. a < pr_id p) values)
        in slice_to limit after))"

definition update_product :: "product \<Rightarrow> string \<Rightarrow> product rp" where
  "update_product p expected_etag =
     bindp (reads (\<lambda>s. dget (rp_items s) (pr_key p))) (\<lambda>found.
     case found of
       None \<Rightarrow> raise (KeyError (pr_id p))
     | Some current \<Rightarrow>
         seqp (raise_if (pr_etag current \<noteq> expected_etag) (ProductVersionConflict ''stale data product ETag''))
         (seqp (writes (\<lambda>s. s\<lparr>rp_items := dput (pr_key p) p (rp_items s)\<rparr>))
         (ret p)))"

definition append_revision :: "product \<Rightarrow> string \<Rightarrow> string \<Rightarrow> unit rp" where
  "append_revision p actor reason =
     (let key = (pr_tenant_id p, pr_environment p, pr_id p, pr_revision p) in
     bindp (reads (\<lambda>s. dget (rp_revisions s) key)) (\<lambda>existing.
     case existing of
       Some ev \<Rightarrow> if ev = (p, actor, reason) then ret ()
                  else raise (ProductVersionConflict ''divergent data product revision'')
     | None \<Rightarrow> writes (\<lambda>s. s\<lparr>rp_revisions := dput key (p, actor, reason) (rp_revisions s)\<rparr>)))"

definition get_product_revision :: "string \<Rightarrow> string \<Rightarrow> string \<Rightarrow> int \<Rightarrow> product option rp" where
  "get_product_revision tenant_id environment product_id revision =
     reads (\<lambda>s. map_option fst (dget (rp_revisions s) (tenant_id, environment, product_id, revision)))"

definition get_products_by_ids :: "string \<Rightarrow> string \<Rightarrow> string list \<Rightarrow> product list rp" where
  "get_products_by_ids tenant_id environment product_ids =
     seqp (raise_if (10000 < card (set product_ids)) (ValueError ''product_id_count_exceeded''))
     (reads (\<lambda>s.
        List.map_filter (\<lambda>product_id. dget (rp_items s) (tenant_id, environment, product_id))
          (sorted_set product_ids)))"

definition get_operation :: "string \<Rightarrow> string \<Rightarrow> string \<Rightarrow> revision_event option rp" where
  "get_operation tenant_id environment operation_id = reads (\<lambda>s.
     case dget (rp_operations s) operation_id of
       None \<Rightarrow> None
     | Some (ev, _) \<Rightarrow>
         if (ev_tenant_id ev, ev_environment ev) = (tenant_id, environment) then Some ev else None)"

definition get_operation_result ::
  "string \<Rightarrow> string \<Rightarrow> string \<Rightarrow> int \<Rightarrow> string \<Rightarrow> operation_result rp" where
  "get_operation_result tenant_id environment operation_id expected_revision expected_etag =
     bindp (reads (\<lambda>s. dget (rp_operations s) operation_id)) (\<lambda>found.
     case found of
       None \<Rightarrow> raise (ProductConsistencyError ''immutable operation result missing'')
     | Some (ev, p) \<Rightarrow>
         seqp (raise_if ((ev_tenant_id ev, ev_environment ev) \<noteq> (tenant_id, environment))
                 (ProductConsistencyError ''immutable operation result missing''))
         (seqp (raise_if (ev_outcome ev \<noteq> OcApplied \<or> ev_revision ev \<noteq> expected_revision \<or>
                          ev_etag ev \<noteq> expected_etag)
                 (ProductConsistencyError ''immutable operation result diverged''))
         (ret \<lparr>or_operation_id = ev_operation_id ev, or_action = ev_action ev, or_outcome = ev_outcome ev,
               or_product = p, or_revision = ev_revision ev, or_etag = ev_etag ev,
               or_definition_checksum = ev_definition_checksum ev, or_actor = ev_actor ev,
               or_reason = ev_reason ev, or_occurred_at = ev_occurred_at ev,
               or_applied_at = ev_applied_at ev\<rparr>)))"

definition list_pending_operations ::
  "string \<Rightarrow> string \<Rightarrow> string option \<Rightarrow> int \<Rightarrow> bool \<Rightarrow> revision_event list rp" where
  "list_pending_operations tenant_id environment product_id limit include_applied = reads (\<lambda>s.
     slice_to limit (sort_key (\<lambda>e. (ev_occurred_at e, ev_operation_id e))
       (filter (\<lambda>e. (ev_tenant_id e, ev_environment e) = (tenant_id, environment) \<and>
                    (product_id = None \<or> product_id = Some (ev_product_id e)) \<and>
                    (include_applied \<or> ev_outcome e = OcPending))
         (map fst (dvals (rp_operations s))))))"

definition list_revisions ::
  "string \<Rightarrow> string \<Rightarrow> string \<Rightarrow> int \<Rightarrow> (int \<times> string) option \<Rightarrow> revision_event list rp" where
  "list_revisions tenant_id environment product_id limit search_after = reads (\<lambda>s.
     let values = sorted_reverse (\<lambda>e. (ev_revision e, ev_operation_id e))
           (filter (\<lambda>e. (ev_tenant_id e, ev_environment e, ev_product_id e) =
                        (tenant_id, environment, product_id))
             (map fst (dvals (rp_operations s))))
     in slice_to limit (case search_after of
          None \<Rightarrow> values
        | Some key \<Rightarrow> filter (\<lambda>e. (ev_revision e, ev_operation_id e) < key) values))"

definition ev_revision_key :: "revision_event \<Rightarrow> string \<times> string \<times> string \<times> int" where
  "ev_revision_key e = (ev_tenant_id e, ev_environment e, ev_product_id e, ev_revision e)"

definition begin_operation :: "revision_event \<Rightarrow> product \<Rightarrow> revision_event rp" where
  "begin_operation ev p =
     bindp (reads (\<lambda>s. dget (rp_operations s) (ev_operation_id ev))) (\<lambda>existing.
     case existing of
       Some (saved, _) \<Rightarrow>
         seqp (raise_if (ev_definition_checksum saved \<noteq> ev_definition_checksum ev)
                 (ProductConsistencyError ''divergent operation replay''))
         (ret saved)
     | None \<Rightarrow>
         bindp (reads (\<lambda>s. dvals (rp_operations s))) (\<lambda>saved.
         seqp (raise_if (\<exists>q \<in> set saved. ev_revision_key (fst q) = ev_revision_key ev \<and>
                            ev_definition_checksum (fst q) \<noteq> ev_definition_checksum ev)
                 (ProductConsistencyError ''divergent same-revision checksum''))
         (seqp (writes (\<lambda>s. s\<lparr>rp_operations := dput (ev_operation_id ev) (ev, p) (rp_operations s)\<rparr>))
         (ret ev))))"

definition begin_dependency_operation ::
  "revision_event \<Rightarrow> product \<Rightarrow> dep_plan \<Rightarrow> revision_event rp" where
  "begin_dependency_operation ev p plan =
     bindp (begin_operation ev p) (\<lambda>saved.
     bindp (reads (\<lambda>s. dget (rp_dependency_plans s) (ev_operation_id ev))) (\<lambda>existing.
     seqp (raise_if (existing \<noteq> None \<and> existing \<noteq> Some plan)
             (ProductConsistencyError ''divergent dependency operation plan''))
     (seqp (writes (\<lambda>s. s\<lparr>rp_dependency_plans := dput (ev_operation_id ev) plan (rp_dependency_plans s)\<rparr>))
     (ret saved))))"

definition load_dependency_operation_plan ::
  "string \<Rightarrow> string \<Rightarrow> string \<Rightarrow> (revision_event \<times> product \<times> dep_plan) option rp" where
  "load_dependency_operation_plan tenant_id environment operation_id = reads (\<lambda>s.
     case (dget (rp_operations s) operation_id, dget (rp_dependency_plans s) operation_id) of
       (Some (ev, p), Some plan) \<Rightarrow>
         if (ev_tenant_id ev, ev_environment ev) \<noteq> (tenant_id, environment) then None
         else Some (ev, p, plan)
     | _ \<Rightarrow> None)"

definition save_dependency_operation_result :: "dep_result \<Rightarrow> unit rp" where
  "save_dependency_operation_result result =
     (let operation_id = do_operation_id (dr_operation result) in
     bindp (reads (\<lambda>s. dget (rp_dependency_results s) operation_id)) (\<lambda>existing.
     seqp (raise_if (existing \<noteq> None \<and> existing \<noteq> Some result)
             (DependencyResultInconsistent ''dependency_result_inconsistent''))
     (writes (\<lambda>s. s\<lparr>rp_dependency_results := dput operation_id result (rp_dependency_results s)\<rparr>))))"

definition get_dependency_operation_result ::
  "string \<Rightarrow> string \<Rightarrow> string \<Rightarrow> string \<Rightarrow> dep_result rp" where
  "get_dependency_operation_result tenant_id environment product_id operation_id =
     bindp (reads (\<lambda>s. dget (rp_dependency_results s) operation_id)) (\<lambda>found.
     case found of
       None \<Rightarrow> raise (DependencyResultInconsistent ''dependency_result_inconsistent'')
     | Some r \<Rightarrow>
         seqp (raise_if ((do_tenant_id (dr_operation r), do_environment (dr_operation r),
                          do_product_id (dr_operation r)) \<noteq> (tenant_id, environment, product_id))
                 (DependencyResultInconsistent ''dependency_result_inconsistent''))
         (ret r))"

definition finish_operation :: "revision_event \<Rightarrow> unit rp" where
  "finish_operation ev =
     bindp (reads (\<lambda>s. dget (rp_operations s) (ev_operation_id ev))) (\<lambda>existing.
     case existing of
       None \<Rightarrow> raise (ProductConsistencyError ''operation outcome has no matching pending operation'')
     | Some (saved, p) \<Rightarrow>
         seqp (raise_if (ev_definition_checksum saved \<noteq> ev_definition_checksum ev)
                 (ProductConsistencyError ''operation outcome has no matching pending operation''))
         (writes (\<lambda>s. s\<lparr>
            rp_operations := dput (ev_operation_id ev) (ev, p) (rp_operations s),
            rp_revisions := dput (ev_revision_key ev) (p, ev_actor ev, ev_reason ev) (rp_revisions s)\<rparr>)))"

section \<open>Memberships, proposals, decisions\<close>

definition create_membership :: "string \<Rightarrow> string \<Rightarrow> membership \<Rightarrow> membership rp" where
  "create_membership tenant_id environment m =
     seqp (raise_if ((tenant_id, environment) \<noteq> (me_tenant_id m, me_environment m))
             (ValueError ''membership scope mismatch''))
     (let key = (tenant_id, environment, me_product_id m, me_membership_id m) in
     bindp (reads (\<lambda>s. dget (rp_memberships s) key)) (\<lambda>current.
     seqp (raise_if (current \<noteq> None \<and> current \<noteq> Some m)
             (ProductVersionConflict ''divergent membership replay''))
     (seqp (writes (\<lambda>s. s\<lparr>rp_memberships := dput key m (rp_memberships s)\<rparr>))
     (ret m))))"

definition get_membership :: "string \<Rightarrow> string \<Rightarrow> string \<Rightarrow> string \<Rightarrow> membership option rp" where
  "get_membership tenant_id environment product_id membership_id =
     reads (\<lambda>s. dget (rp_memberships s) (tenant_id, environment, product_id, membership_id))"

definition in_product :: "string \<Rightarrow> string \<Rightarrow> string \<Rightarrow> (string \<times> string \<times> string \<times> 'k) \<Rightarrow> bool" where
  "in_product tenant_id environment product_id k \<longleftrightarrow>
     (case k of (t, e, p, _) \<Rightarrow> (t, e, p) = (tenant_id, environment, product_id))"

definition make_page :: "int \<Rightarrow> 'a list \<Rightarrow> 'a page" where
  "make_page limit values = \<lparr>pg_items = slice_to limit values, pg_has_more = limit < int (length values)\<rparr>"

definition list_memberships :: "string \<Rightarrow> string \<Rightarrow> string \<Rightarrow> int \<Rightarrow> membership page rp" where
  "list_memberships tenant_id environment product_id limit = reads (\<lambda>s.
     make_page limit (sort_key (\<lambda>v. (- me_updated_at v, me_membership_id v))
       (map snd (filter (\<lambda>kv. in_product tenant_id environment product_id (fst kv)) (rp_memberships s)))))"

definition exclude_membership ::
  "runtime \<Rightarrow> string \<Rightarrow> string \<Rightarrow> string \<Rightarrow> string \<Rightarrow> string \<Rightarrow> string \<Rightarrow> string \<Rightarrow> membership rp" where
  "exclude_membership rt tenant_id environment product_id membership_id actor reason expected_etag =
     bindp (get_membership tenant_id environment product_id membership_id) (\<lambda>found.
     case found of
       None \<Rightarrow> raise (KeyError membership_id)
     | Some current \<Rightarrow>
         seqp (raise_if (me_etag current \<noteq> expected_etag) (ProductVersionConflict ''stale membership ETag''))
         (bindp (utc_now rt) (\<lambda>now.
          let updated = current\<lparr>
                me_state := MsExcluded, me_excluded_at := Some now, me_excluded_by := Some actor,
                me_exclusion_reason := Some reason, me_updated_at := now,
                me_revision := me_revision current + 1,
                me_etag := sha256 rt (PreText (me_etag current @ '':excluded''))\<rparr>
          in seqp (writes (\<lambda>s. s\<lparr>rp_memberships :=
                     dput (tenant_id, environment, product_id, membership_id) updated (rp_memberships s)\<rparr>))
             (ret updated))))"

definition pp_key :: "proposal \<Rightarrow> string \<times> string \<times> string \<times> string \<times> int" where
  "pp_key v = (pp_tenant_id v, pp_environment v, pp_product_id v, pp_proposal_id v, pp_proposal_revision v)"

definition create_membership_proposal :: "proposal \<Rightarrow> proposal rp" where
  "create_membership_proposal v =
     bindp (reads (\<lambda>s. dget (rp_proposals s) (pp_key v))) (\<lambda>current.
     seqp (raise_if (current \<noteq> None \<and> current \<noteq> Some v)
             (ProductVersionConflict ''divergent proposal replay''))
     (seqp (writes (\<lambda>s. s\<lparr>rp_proposals := dput (pp_key v) v (rp_proposals s)\<rparr>))
     (ret v)))"

definition proposals_of :: "string \<Rightarrow> string \<Rightarrow> string \<Rightarrow> string \<Rightarrow> repo \<Rightarrow> proposal list" where
  "proposals_of tenant_id environment product_id proposal_id s =
     map snd (filter (\<lambda>kv. case fst kv of (t, e, p, i, _) \<Rightarrow>
        (t, e, p, i) = (tenant_id, environment, product_id, proposal_id)) (rp_proposals s))"

definition get_membership_proposal ::
  "string \<Rightarrow> string \<Rightarrow> string \<Rightarrow> string \<Rightarrow> proposal option rp" where
  "get_membership_proposal tenant_id environment product_id proposal_id = reads (\<lambda>s.
     case proposals_of tenant_id environment product_id proposal_id s of
       [] \<Rightarrow> None
     | v # vs \<Rightarrow> Some (max_by pp_proposal_revision v vs))"

definition list_membership_proposals :: "string \<Rightarrow> string \<Rightarrow> string \<Rightarrow> int \<Rightarrow> proposal page rp" where
  "list_membership_proposals tenant_id environment product_id limit = reads (\<lambda>s.
     make_page limit (sorted_reverse (\<lambda>v. (pp_created_at v, pp_proposal_revision v))
       (map snd (filter (\<lambda>kv. in_product tenant_id environment product_id (fst kv)) (rp_proposals s)))))"

fun proposal_state_str :: "proposal_state \<Rightarrow> string" where
  "proposal_state_str PsProposed = ''proposed''"
| "proposal_state_str PsAccepted = ''accepted''"
| "proposal_state_str PsRejected = ''rejected''"
| "proposal_state_str PsSuperseded = ''superseded''"
| "proposal_state_str PsExpired = ''expired''"

definition transition_membership_proposal ::
  "string \<Rightarrow> string \<Rightarrow> string \<Rightarrow> string \<Rightarrow> proposal_state \<Rightarrow> int option \<Rightarrow> proposal rp" where
  "transition_membership_proposal tenant_id environment product_id proposal_id state expected_revision =
     bindp (get_membership_proposal tenant_id environment product_id proposal_id) (\<lambda>found.
     case found of
       None \<Rightarrow> raise (KeyError proposal_id)
     | Some current \<Rightarrow>
         seqp (raise_if (expected_revision \<noteq> None \<and> expected_revision \<noteq> Some (pp_proposal_revision current))
                 (ProductVersionConflict ''proposal_revision_conflict''))
         (seqp (raise_if (pp_state current \<noteq> PsProposed)
                 (ProductVersionConflict (''proposal_already_'' @ proposal_state_str (pp_state current))))
         (let updated = current\<lparr>pp_state := state\<rparr>
          in seqp (writes (\<lambda>s. s\<lparr>rp_proposals :=
                     dput (tenant_id, environment, product_id, proposal_id, pp_proposal_revision current)
                       updated (rp_proposals s)\<rparr>))
             (ret updated))))"

definition accept_membership_proposal ::
  "string \<Rightarrow> string \<Rightarrow> string \<Rightarrow> string \<Rightarrow> int option \<Rightarrow> proposal rp" where
  "accept_membership_proposal t e p i expected = transition_membership_proposal t e p i PsAccepted expected"

definition reject_membership_proposal ::
  "string \<Rightarrow> string \<Rightarrow> string \<Rightarrow> string \<Rightarrow> int option \<Rightarrow> proposal rp" where
  "reject_membership_proposal t e p i expected = transition_membership_proposal t e p i PsRejected expected"

definition expire_membership_proposal ::
  "string \<Rightarrow> string \<Rightarrow> string \<Rightarrow> string \<Rightarrow> int option \<Rightarrow> proposal rp" where
  "expire_membership_proposal t e p i expected = transition_membership_proposal t e p i PsExpired expected"

definition supersede_membership_proposal ::
  "string \<Rightarrow> string \<Rightarrow> string \<Rightarrow> string \<Rightarrow> int option \<Rightarrow> proposal rp" where
  "supersede_membership_proposal t e p i expected = transition_membership_proposal t e p i PsSuperseded expected"

definition append_membership_decision ::
  "string \<Rightarrow> string \<Rightarrow> string \<Rightarrow> decision \<Rightarrow> decision rp" where
  "append_membership_decision tenant_id environment product_id d =
     (let key = (tenant_id, environment, product_id, de_decision_id d) in
     bindp (reads (\<lambda>s. dget (rp_decisions s) key)) (\<lambda>current.
     seqp (raise_if (current \<noteq> None \<and> current \<noteq> Some d)
             (ProductConsistencyError ''divergent decision replay''))
     (seqp (writes (\<lambda>s. s\<lparr>rp_decisions := dput key d (rp_decisions s)\<rparr>))
     (ret d))))"

definition get_membership_decision :: "string \<Rightarrow> string \<Rightarrow> string \<Rightarrow> string \<Rightarrow> decision option rp" where
  "get_membership_decision tenant_id environment product_id decision_id =
     reads (\<lambda>s. dget (rp_decisions s) (tenant_id, environment, product_id, decision_id))"

definition get_membership_decisions_for_operation ::
  "string \<Rightarrow> string \<Rightarrow> string \<Rightarrow> string \<Rightarrow> decision list rp" where
  "get_membership_decisions_for_operation tenant_id environment product_id operation_id = reads (\<lambda>s.
     map snd (filter (\<lambda>kv. in_product tenant_id environment product_id (fst kv) \<and>
                           de_operation_id (snd kv) = Some operation_id)
       (sort_key fst (rp_decisions s))))"

definition list_membership_decisions :: "string \<Rightarrow> string \<Rightarrow> string \<Rightarrow> int \<Rightarrow> decision page rp" where
  "list_membership_decisions tenant_id environment product_id limit = reads (\<lambda>s.
     make_page limit (sorted_reverse (\<lambda>v. (de_decided_at v, de_decision_id v))
       (map snd (filter (\<lambda>kv. in_product tenant_id environment product_id (fst kv)) (rp_decisions s)))))"

section \<open>Dependency edges\<close>

definition edges_of :: "string \<Rightarrow> string \<Rightarrow> string \<Rightarrow> repo \<Rightarrow> dep_edge list" where
  "edges_of tenant_id environment product_id s =
     sort_key (\<lambda>v. (ed_removed v, ed_upstream_product_id v, ed_graph_version v))
       (map snd (filter (\<lambda>kv. in_product tenant_id environment product_id (fst kv)) (rp_dependencies s)))"

definition list_dependencies :: "string \<Rightarrow> string \<Rightarrow> string \<Rightarrow> int \<Rightarrow> dep_edge page rp" where
  "list_dependencies tenant_id environment product_id limit =
     reads (\<lambda>s. make_page limit (edges_of tenant_id environment product_id s))"

definition save_dependencies ::
  "runtime \<Rightarrow> string \<Rightarrow> string \<Rightarrow> string \<Rightarrow> dep_edge list \<Rightarrow> dep_edge page rp" where
  "save_dependencies rt tenant_id environment product_id dependencies =
     bindp (utc_now rt) (\<lambda>now.
     let proposed = ed_upstream_product_id ` set dependencies;
         tombstone = (\<lambda>ed. ed\<lparr>
            ed_removed := True,
            ed_removed_at := Some now,
            ed_removed_by_revision := Some (case map ed_product_revision dependencies of
                [] \<Rightarrow> ed_product_revision ed + 1
              | r # rs \<Rightarrow> Max (set (r # rs))),
            ed_updated_at := now\<rparr>)
     in seqp (writes (\<lambda>s. s\<lparr>rp_dependencies :=
          map (\<lambda>kv. if in_product tenant_id environment product_id (fst kv) \<and>
                       snd (snd (snd (fst kv))) \<notin> proposed \<and> \<not> ed_removed (snd kv)
                    then (fst kv, tombstone (snd kv)) else kv) (rp_dependencies s)\<rparr>))
        (seqp (writes (\<lambda>s. s\<lparr>rp_dependencies :=
          fold (\<lambda>ed d. dput (tenant_id, environment, product_id, ed_upstream_product_id ed) ed d)
            dependencies (rp_dependencies s)\<rparr>))
        (list_dependencies tenant_id environment product_id 50)))"

definition read_complete_dependency_snapshot ::
  "string \<Rightarrow> string \<Rightarrow> string \<Rightarrow> int \<Rightarrow> dep_snapshot rp" where
  "read_complete_dependency_snapshot tenant_id environment product_id maximum =
     bindp (reads (edges_of tenant_id environment product_id)) (\<lambda>values.
     seqp (raise_if (maximum < int (length values)) (ValueError ''dependency_snapshot_maximum_exceeded''))
     (ret \<lparr>sn_dependencies = values, sn_count = int (length values), sn_complete = True\<rparr>))"

definition apply_dependency_edge ::
  "string \<Rightarrow> string \<Rightarrow> string \<Rightarrow> bool \<Rightarrow> dep_edge \<Rightarrow> unit rp" where
  "apply_dependency_edge tenant_id environment product_id tombstone ed =
     seqp (raise_if ((ed_tenant_id ed, ed_environment ed, ed_product_id ed) \<noteq> (tenant_id, environment, product_id))
             (ProductConsistencyError ''dependency_edge_scope_mismatch''))
     (seqp (raise_if (ed_removed ed \<noteq> tombstone)
             (ProductConsistencyError ''dependency_edge_removed_semantics_invalid''))
     (seqp (raise_if (tombstone \<and> (ed_removed_at ed = None \<or> ed_removed_by_revision ed \<noteq> Some (ed_product_revision ed)))
             (ProductConsistencyError ''dependency_tombstone_metadata_invalid''))
     (seqp (raise_if (ed_graph_version ed = [] \<or> ed_product_revision ed < 1)
             (ProductConsistencyError ''dependency_edge_version_invalid''))
     (let key = (tenant_id, environment, product_id, ed_upstream_product_id ed) in
      bindp (reads (\<lambda>s. dget (rp_dependencies s) key)) (\<lambda>current.
      if current = Some ed then ret ()
      else
        seqp (raise_if (case current of None \<Rightarrow> False | Some c \<Rightarrow> ed_product_revision c = ed_product_revision ed)
                (ProductConsistencyError ''dependency_edge_same_revision_diverged''))
        (seqp (raise_if (case current of None \<Rightarrow> False | Some c \<Rightarrow> ed_product_revision ed < ed_product_revision c)
                (DependencyEdgeSuperseded ''dependency_edge_superseded''))
        (writes (\<lambda>s. s\<lparr>rp_dependencies := dput key ed (rp_dependencies s)\<rparr>))))))))"

definition apply_dependency_chunk ::
  "string \<Rightarrow> string \<Rightarrow> string \<Rightarrow> bool \<Rightarrow> dep_edge list \<Rightarrow> unit rp" where
  "apply_dependency_chunk tenant_id environment product_id tombstone edges =
     forp (apply_dependency_edge tenant_id environment product_id tombstone) edges"

definition apply_dependency_upsert_chunk ::
  "string \<Rightarrow> string \<Rightarrow> string \<Rightarrow> dep_edge list \<Rightarrow> unit rp" where
  "apply_dependency_upsert_chunk t e p edges = apply_dependency_chunk t e p False edges"

definition apply_dependency_tombstone_chunk ::
  "string \<Rightarrow> string \<Rightarrow> string \<Rightarrow> dep_edge list \<Rightarrow> unit rp" where
  "apply_dependency_tombstone_chunk t e p edges = apply_dependency_chunk t e p True edges"

definition apply_dependency_mutation_plan ::
  "string \<Rightarrow> string \<Rightarrow> string \<Rightarrow> dep_plan \<Rightarrow> dep_edge page rp" where
  "apply_dependency_mutation_plan tenant_id environment product_id plan =
     seqp (apply_dependency_upsert_chunk tenant_id environment product_id (dp_upserts plan))
     (seqp (apply_dependency_tombstone_chunk tenant_id environment product_id (dp_tombstones plan))
     (bindp (reads (\<lambda>s. max 1 (int (length (rp_dependencies s))))) (\<lambda>limit.
      list_dependencies tenant_id environment product_id limit)))"

end
