(* ===== verification/Samples.thy ===== *)
theory Samples
  imports MemoryRepository
begin

text \<open>
  Concrete values for the witnesses: a runtime whose clock counts its readings, whose digest of a
  text is the text itself behind a mark (so that distinct texts have distinct digests), and a few
  operation states.
\<close>

definition sample_rt :: runtime where
  "sample_rt = \<lparr>sha256 = (\<lambda>x. case x of PreText t \<Rightarrow> CHR ''t'' # t | PreJson _ \<Rightarrow> ''json''
       | PreProduct p \<Rightarrow> CHR ''p'' # int_str (pr_revision p)
       | PreModel p \<Rightarrow> CHR ''m'' # int_str (pr_revision p) | PreEdge d \<Rightarrow> CHR ''e'' # ed_upstream_product_id d),
     clock = (\<lambda>n. int n), str_compound = (\<lambda>_. ''compound'')\<rparr>"

text \<open>A runtime that also tells rendered values apart: the digest of a value spells it out.\<close>

fun spell :: "pyval \<Rightarrow> string" where
  "spell PNone = ''n''"
| "spell (PBool b) = (if b then ''T'' else ''F'')"
| "spell (PInt i) = ''i'' @ int_str i"
| "spell (PFloat x) = ''f''"
| "spell (PStr s) = ''s'' @ s"
| "spell (PIso t) = ''@'' @ int_str t"
| "spell (PTime t) = ''!'' @ int_str t"
| "spell (PList vs) = ''['' @ concat (map spell vs) @ '']''"
| "spell (PDict kvs) = ''{'' @ concat (map (\<lambda>kv. fst kv @ '':'' @ spell (snd kv)) kvs) @ ''}''"
| "spell (PProduct p) = ''p'' @ pr_id p"

definition spelling_rt :: runtime where
  "spelling_rt = sample_rt\<lparr>sha256 := (\<lambda>x. case x of PreJson v \<Rightarrow> spell v | _ \<Rightarrow> sha256 sample_rt x)\<rparr>"

definition pending_sample :: op_state where
  "pending_sample = \<lparr>os_operation_id = ''op'', os_tenant_id = ''t'', os_environment = ''e'',
     os_product_id = ''p'', os_operation_kind = ''manual_membership'', os_status = OsPending,
     os_attempt_count = 0, os_updated_at = 0, os_claim_owner = None, os_claim_generation = 0,
     os_claimed_at = None, os_claim_expires_at = None, os_last_checkpoint = None,
     os_last_error_code = None, os_last_retryable_error = None, os_next_attempt_at = None,
     os_retry_after_seconds = None, os_plan_reference = Some ''plan'', os_result_reference = None,
     os_idempotency_record_id = Some ''rec'', os_seq_no = 0, os_primary_term = 1\<rparr>"

text \<open>The pending operation stored; then claimed by \<open>w1\<close> until instant 5.\<close>

definition pending_repo :: repo where
  "pending_repo = snd (create_operation_state pending_sample empty_repo)"

definition first_claim :: claim where
  "first_claim = \<lparr>cl_operation_id = ''op'', cl_owner = ''w1'', cl_generation = 1, cl_claimed_at = 0,
     cl_expires_at = 5, cl_tenant_id = ''t'', cl_environment = ''e'', cl_product_id = ''p''\<rparr>"

definition claimed_repo :: repo where
  "claimed_repo = snd (claim_operation ''t'' ''e'' ''op'' ''w1'' 0 5 0 1 pending_repo)"

text \<open>The claim ran out and \<open>w2\<close> took the operation over at instant 6, until instant 60.\<close>

definition second_claim :: claim where
  "second_claim = \<lparr>cl_operation_id = ''op'', cl_owner = ''w2'', cl_generation = 2, cl_claimed_at = 6,
     cl_expires_at = 60, cl_tenant_id = ''t'', cl_environment = ''e'', cl_product_id = ''p''\<rparr>"

definition taken_over_repo :: repo where
  "taken_over_repo = snd (claim_operation ''t'' ''e'' ''op'' ''w2'' 6 60 1 1 claimed_repo)"

text \<open>The stored state of the sample operation.\<close>

definition sample_state :: "repo \<Rightarrow> op_state" where
  "sample_state s = the (dget (rp_operation_states s) (''t'', ''e'', ''op''))"

lemma claimed_repo_state:
  "dget (rp_operation_states claimed_repo) (''t'', ''e'', ''op'') = Some (sample_state claimed_repo)"
  by code_simp

lemma claimed_repo_eq: "claim_operation ''t'' ''e'' ''op'' ''w1'' 0 5 0 1 pending_repo = (Inr first_claim, claimed_repo)"
  by code_simp

lemma taken_over_repo_eq:
  "claim_operation ''t'' ''e'' ''op'' ''w2'' 6 60 1 1 claimed_repo = (Inr second_claim, taken_over_repo)"
  by code_simp

text \<open>A draft product with one output and the given upstream products.\<close>

definition sample_product :: "string \<Rightarrow> string list \<Rightarrow> product" where
  "sample_product name ups = \<lparr>pr_id = name, pr_tenant_id = ''t'', pr_environment = ''e'', pr_schema_version = ''v1'',
     pr_created_at = 0, pr_updated_at = 0, pr_source_id = None, pr_integration_id = None, pr_owner_team = None,
     pr_business_service = None, pr_pillar = ''data'', pr_status = ''ok'', pr_labels = [], pr_annotations = [],
     pr_correlation_id = None, pr_revision = 1, pr_etag = ''tag'', pr_name = name, pr_description = [],
     pr_domain = [], pr_criticality = CrHigh, pr_lifecycle_state = LcDraft,
     pr_owner = \<lparr>ow_team = ''team'', ow_support_url = None, ow_on_call_url = None\<rparr>, pr_tags = [],
     pr_outputs = [\<lparr>ou_entity_id = ''x'', ou_entity_type = OtAsset, ou_display_name = ''d'', ou_primary = True,
        ou_evidence_refs = [], ou_lineage_evidence_refs = [], ou_observed_at = 0\<rparr>], pr_members = [],
     pr_dependencies = map (\<lambda>u. \<lparr>dd_upstream_product_id = u, dd_evidence_refs = [], dd_observed_at = 0\<rparr>) ups,
     pr_slos = []\<rparr>"

definition products_repo :: "(string \<times> string list) list \<Rightarrow> repo" where
  "products_repo ps = empty_repo\<lparr>rp_items := map (\<lambda>(n, ups). ((''t'', ''e'', n), sample_product n ups)) ps\<rparr>"

end
