(* ===== verification/OperationClaims.thy ===== *)
theory OperationClaims
  imports Samples
begin

text \<open>
  The claim protocol on durable operation state: workers claim an operation for a while, write
  under the claim, and finish, retry or release it (\<open>claim_operation\<close> to
  \<open>release_operation_claim\<close> of \<open>memory_repository.py\<close>).

  \<^item> \<open>state_inv\<close>: the invariant of one stored state; \<open>ops_inv\<close>: of all of them.
  \<^item> \<open>op_evolve\<close>: how a stored state may change: identity is kept, the claim generation, the
    attempt count and the sequence number never go back, a sequence number names one version, and
    a terminal state stays as it is. \<open>ops_evolve\<close> lifts it to the repository.
  \<^item> \<open>claim_step\<close>: one call of the protocol by any worker with any arguments;
    \<open>claim_reachable\<close>: what sequences of such calls reach from the empty repository.
\<close>

section \<open>Invariant and evolution of one stored state\<close>

definition terminal_status :: "op_status \<Rightarrow> bool" where
  "terminal_status x \<longleftrightarrow> x \<in> {OsApplied, OsSuperseded, OsFailed}"

definition state_inv :: "string \<times> string \<times> string \<Rightarrow> op_state \<Rightarrow> bool" where
  "state_inv k st \<longleftrightarrow>
     os_key st = k \<and>
     0 \<le> os_claim_generation st \<and>
     os_attempt_count st = os_claim_generation st \<and>
     os_claim_generation st \<le> os_seq_no st \<and>
     (os_claim_owner st \<noteq> None \<longleftrightarrow> os_status st = OsClaimed) \<and>
     (os_claim_expires_at st \<noteq> None \<longleftrightarrow> os_status st = OsClaimed)"

definition op_evolve :: "op_state \<Rightarrow> op_state \<Rightarrow> bool" where
  "op_evolve a b \<longleftrightarrow>
     os_key a = os_key b \<and> os_product_id a = os_product_id b \<and>
     os_operation_kind a = os_operation_kind b \<and>
     os_plan_reference a = os_plan_reference b \<and>
     os_idempotency_record_id a = os_idempotency_record_id b \<and>
     os_primary_term a = os_primary_term b \<and>
     os_claim_generation a \<le> os_claim_generation b \<and>
     os_attempt_count a \<le> os_attempt_count b \<and>
     os_seq_no a \<le> os_seq_no b \<and>
     (os_seq_no a = os_seq_no b \<longrightarrow> a = b) \<and>
     (terminal_status (os_status a) \<longrightarrow> a = b)"

lemma op_evolve_refl: "op_evolve a a"
  by (simp add: op_evolve_def)

lemma op_evolve_trans: "op_evolve a b \<Longrightarrow> op_evolve b c \<Longrightarrow> op_evolve a c"
  by (auto simp: op_evolve_def)

definition ops_inv :: "repo \<Rightarrow> bool" where
  "ops_inv s \<longleftrightarrow>
     distinct (map fst (rp_operation_states s)) \<and>
     (\<forall>k st. dget (rp_operation_states s) k = Some st \<longrightarrow> state_inv k st)"

definition ops_evolve :: "repo \<Rightarrow> repo \<Rightarrow> bool" where
  "ops_evolve s s' \<longleftrightarrow> (ops_inv s \<longrightarrow>
     ops_inv s' \<and>
     (\<forall>k st. dget (rp_operation_states s) k = Some st \<longrightarrow>
        (\<exists>st'. dget (rp_operation_states s') k = Some st' \<and> op_evolve st st')))"

lemma ops_evolveD:
  assumes "ops_evolve s s'" and "ops_inv s" and "dget (rp_operation_states s) k = Some st"
  obtains st' where "dget (rp_operation_states s') k = Some st'" and "op_evolve st st'"
  using assms unfolding ops_evolve_def by blast

lemma ops_evolve_inv: "ops_evolve s s' \<Longrightarrow> ops_inv s \<Longrightarrow> ops_inv s'"
  unfolding ops_evolve_def by blast

lemma ops_invD: "ops_inv s \<Longrightarrow> dget (rp_operation_states s) k = Some st \<Longrightarrow> state_inv k st"
  unfolding ops_inv_def by blast

lemma state_inv_owner: "state_inv k st \<Longrightarrow> os_claim_owner st = Some w \<Longrightarrow> os_status st = OsClaimed"
  by (auto simp: state_inv_def)

interpretation ops: step_order ops_evolve
proof
  show "ops_evolve s s" for s
    by (auto simp: ops_evolve_def intro: op_evolve_refl)
  show "ops_evolve s u" if st: "ops_evolve s t" and tu: "ops_evolve t u" for s t u
  proof -
    have "\<exists>z. dget (rp_operation_states u) k = Some z \<and> op_evolve x z"
      if inv: "ops_inv s" and x: "dget (rp_operation_states s) k = Some x" for k x
    proof -
      obtain y where y: "dget (rp_operation_states t) k = Some y" "op_evolve x y"
        using st inv x by (rule ops_evolveD)
      have "ops_inv t" using st inv by (rule ops_evolve_inv)
      with tu obtain z where "dget (rp_operation_states u) k = Some z" "op_evolve y z"
        using y(1) by (rule ops_evolveD)
      with y(2) show ?thesis by (blast intro: op_evolve_trans)
    qed
    with st tu show ?thesis by (simp add: ops_evolve_def)
  qed
qed

lemma ops_evolve_frame:
  "rp_operation_states s' = rp_operation_states s \<Longrightarrow> ops_evolve s s'"
  by (auto simp: ops_evolve_def ops_inv_def intro: op_evolve_refl)

lemma ops_evolve_put:
  assumes "dget (rp_operation_states s) k = Some st"
    and "state_inv k st \<Longrightarrow> op_evolve st st' \<and> state_inv k st'"
  shows "ops_evolve s (s\<lparr>rp_operation_states := dput k st' (rp_operation_states s)\<rparr>)"
  using assms by (auto simp: ops_evolve_def ops_inv_def distinct_dput intro: op_evolve_refl)

lemma ops_evolve_fresh:
  assumes "dget (rp_operation_states s) k = None" and "state_inv k st"
  shows "ops_evolve s (s\<lparr>rp_operation_states := dput k st (rp_operation_states s)\<rparr>)"
  using assms by (auto simp: ops_evolve_def ops_inv_def distinct_dput intro: op_evolve_refl)

section \<open>The claim check\<close>

definition owns :: "claim \<Rightarrow> datetime \<Rightarrow> op_state \<Rightarrow> bool" where
  "owns cl now st \<longleftrightarrow>
     (cl_tenant_id cl \<noteq> [] \<longrightarrow>
        (os_tenant_id st, os_environment st, os_product_id st) =
        (cl_tenant_id cl, cl_environment cl, cl_product_id cl)) \<and>
     os_claim_owner st = Some (cl_owner cl) \<and> os_claim_generation st = cl_generation cl \<and>
     (case os_claim_expires_at st of None \<Rightarrow> False | Some t \<Rightarrow> now < t)"

lemma owned_state_Inr:
  "owned_state rt cl s = (Inr st, s') \<longleftrightarrow>
     dget (rp_operation_states s) (cl_key cl) = Some st \<and> owns cl (clock rt (rp_ticks s)) st \<and>
     s' = s\<lparr>rp_ticks := Suc (rp_ticks s)\<rparr>"
  by (auto simp: owned_state_def owns_def py_simps utc_now_def split: option.splits if_splits)

lemma owned_state_Inl:
  "owned_state rt cl s = (Inl e, s') \<Longrightarrow>
     e = OperationClaimConflict ''stale_operation_claim'' \<and>
     (s' = s \<or> s' = s\<lparr>rp_ticks := Suc (rp_ticks s)\<rparr>)"
  by (auto simp: owned_state_def py_simps utc_now_def split: option.splits if_splits)

lemma owned_state_total:
  "(\<exists>st. owned_state rt cl s = (Inr st, s\<lparr>rp_ticks := Suc (rp_ticks s)\<rparr>)) \<or>
   fst (owned_state rt cl s) = Inl (OperationClaimConflict ''stale_operation_claim'')"
  by (cases "owned_state rt cl s"; cases "fst (owned_state rt cl s)")
     (auto simp: owned_state_Inr dest: owned_state_Inl)

lemma evolves_utc_now [evolve_rules]: "evolves ops_evolve (utc_now rt)"
  by (rule evolvesI) (simp add: utc_now_def ops_evolve_frame)

lemma evolves_owned_state [evolve_rules]: "evolves ops_evolve (owned_state rt cl)"
proof (rule evolvesI)
  fix s
  have "rp_operation_states (snd (owned_state rt cl s)) = rp_operation_states s"
    by (auto simp: owned_state_def py_simps utc_now_def split: option.split)
  then show "ops_evolve s (snd (owned_state rt cl s))" by (rule ops_evolve_frame)
qed

text \<open>A write under a claim: the pattern of every claim-fenced method.\<close>

lemma evolves_owned_put:
  assumes "\<And>st. state_inv (cl_key cl) st \<Longrightarrow> os_status st = OsClaimed \<Longrightarrow>
             op_evolve st (g st) \<and> state_inv (cl_key cl) (g st)"
  shows "evolves ops_evolve (bindp (owned_state rt cl) (\<lambda>st. put_operation_state (cl_key cl) (g st)))"
proof (rule evolvesI)
  fix s
  let ?m = "bindp (owned_state rt cl) (\<lambda>st. put_operation_state (cl_key cl) (g st))"
  show "ops_evolve s (snd (?m s))"
  proof (cases "owned_state rt cl s")
    case (Pair r s1)
    show ?thesis
    proof (cases r)
      case (Inl e)
      with Pair have "s1 = s \<or> s1 = s\<lparr>rp_ticks := Suc (rp_ticks s)\<rparr>" by (simp add: owned_state_Inl)
      with Pair Inl show ?thesis by (auto simp: py_simps intro: ops_evolve_frame)
    next
      case (Inr st)
      with Pair have st: "dget (rp_operation_states s) (cl_key cl) = Some st"
        and own: "os_claim_owner st = Some (cl_owner cl)"
        and s1: "s1 = s\<lparr>rp_ticks := Suc (rp_ticks s)\<rparr>"
        by (auto simp: owned_state_Inr owns_def)
      have "ops_evolve s1 (s1\<lparr>rp_operation_states := dput (cl_key cl) (g st) (rp_operation_states s1)\<rparr>)"
      proof (rule ops_evolve_put)
        show "dget (rp_operation_states s1) (cl_key cl) = Some st" by (simp add: s1 st)
        show "op_evolve st (g st) \<and> state_inv (cl_key cl) (g st)" if "state_inv (cl_key cl) st"
          using that own by (intro assms state_inv_owner)
      qed
      moreover have "ops_evolve s s1" by (simp add: s1 ops_evolve_frame)
      ultimately show ?thesis
        using Pair Inr by (simp add: py_simps put_operation_state_def ops.step_trans)
    qed
  qed
qed

section \<open>Every call of the protocol evolves the stored states\<close>

lemmas write_defs = op_evolve_def state_inv_def os_key_def terminal_status_def

lemma evolves_renew [evolve_rules]: "evolves ops_evolve (renew_operation_claim rt cl t)"
proof -
  have eq: "renew_operation_claim rt cl t =
      seqp (bindp (owned_state rt cl) (\<lambda>st. put_operation_state (cl_key cl)
          (st\<lparr>os_claim_expires_at := Some t, os_seq_no := os_seq_no st + 1\<rparr>)))
        (ret (cl\<lparr>cl_expires_at := t\<rparr>))"
    by (rule ext) (simp add: renew_operation_claim_def seqp_def bindp_assoc)
  show ?thesis
    unfolding eq by (intro evolve_rules evolves_owned_put) (auto simp: write_defs)
qed

lemma evolves_assert [evolve_rules]: "evolves ops_evolve (assert_operation_claim rt cl)"
  unfolding assert_operation_claim_def by (intro evolve_rules)

lemma evolves_checkpoint [evolve_rules]: "evolves ops_evolve (checkpoint_operation rt cl cp)"
  unfolding checkpoint_operation_def by (rule evolves_owned_put) (auto simp: write_defs)

lemma evolves_finalize:
  assumes "terminal_status status"
  shows "evolves ops_evolve (finalize_state rt cl status result error_code)"
  unfolding finalize_state_def
  by (rule evolves_owned_put) (use assms in \<open>auto simp: write_defs split: option.split\<close>)

lemma evolves_finish [evolve_rules]:
  "evolves ops_evolve (complete_operation rt cl res)"
  "evolves ops_evolve (supersede_operation rt cl err)"
  "evolves ops_evolve (fail_operation rt cl err)"
  by (simp_all add: complete_operation_def supersede_operation_def fail_operation_def
      evolves_finalize terminal_status_def)

lemma evolves_release [evolve_rules]: "evolves ops_evolve (release_operation_claim rt cl)"
  unfolding release_operation_claim_def by (rule evolves_owned_put) (auto simp: write_defs)

text \<open>
  The retry reads the clock between the check and the write; the reading commutes with the write.
\<close>

lemma schedule_retry_eq:
  "snd (schedule_operation_retry rt cl err next_at secs s) =
     (case owned_state rt cl s of
        (Inl e, s1) \<Rightarrow> s1
      | (Inr st, s1) \<Rightarrow>
          s1\<lparr>rp_ticks := Suc (rp_ticks s1),
             rp_operation_states := dput (cl_key cl)
               (st\<lparr>os_status := OsPending, os_claim_owner := None, os_claimed_at := None,
                   os_claim_expires_at := None, os_last_retryable_error := Some err,
                   os_last_error_code := Some err, os_next_attempt_at := Some next_at,
                   os_retry_after_seconds := Some secs, os_updated_at := clock rt (rp_ticks s1),
                   os_seq_no := os_seq_no st + 1\<rparr>) (rp_operation_states s1)\<rparr>)"
  by (auto simp: schedule_operation_retry_def py_simps utc_now_def put_operation_state_def
      split: prod.split sum.split)

lemma evolves_schedule_retry [evolve_rules]:
  "evolves ops_evolve (schedule_operation_retry rt cl err next_at secs)"
proof (rule evolvesI)
  fix s
  show "ops_evolve s (snd (schedule_operation_retry rt cl err next_at secs s))"
  proof (cases "owned_state rt cl s")
    case (Pair r s1)
    show ?thesis
    proof (cases r)
      case (Inl e)
      with Pair have "s1 = s \<or> s1 = s\<lparr>rp_ticks := Suc (rp_ticks s)\<rparr>" by (simp add: owned_state_Inl)
      with Pair Inl show ?thesis by (auto simp: schedule_retry_eq intro: ops_evolve_frame)
    next
      case (Inr st)
      define s2 where "s2 = s1\<lparr>rp_ticks := Suc (rp_ticks s1)\<rparr>"
      define st' where "st' = st\<lparr>os_status := OsPending, os_claim_owner := None, os_claimed_at := None,
                   os_claim_expires_at := None, os_last_retryable_error := Some err,
                   os_last_error_code := Some err, os_next_attempt_at := Some next_at,
                   os_retry_after_seconds := Some secs, os_updated_at := clock rt (rp_ticks s1),
                   os_seq_no := os_seq_no st + 1\<rparr>"
      have st: "dget (rp_operation_states s) (cl_key cl) = Some st"
        and own: "os_claim_owner st = Some (cl_owner cl)"
        and s1: "s1 = s\<lparr>rp_ticks := Suc (rp_ticks s)\<rparr>"
        using Pair Inr by (auto simp: owned_state_Inr owns_def)
      have "ops_evolve s2 (s2\<lparr>rp_operation_states := dput (cl_key cl) st' (rp_operation_states s2)\<rparr>)"
      proof (rule ops_evolve_put)
        show "dget (rp_operation_states s2) (cl_key cl) = Some st" by (simp add: s2_def s1 st)
        show "op_evolve st st' \<and> state_inv (cl_key cl) st'" if "state_inv (cl_key cl) st"
          using that own by (auto simp: st'_def write_defs)
      qed
      moreover have "ops_evolve s s2" by (simp add: s2_def s1 ops_evolve_frame)
      moreover have "snd (schedule_operation_retry rt cl err next_at secs s) =
          s2\<lparr>rp_operation_states := dput (cl_key cl) st' (rp_operation_states s2)\<rparr>"
        using Pair Inr by (simp add: schedule_retry_eq s2_def st'_def)
      ultimately show ?thesis by (simp add: ops.step_trans)
    qed
  qed
qed

section \<open>Claiming\<close>

definition claimable :: "string \<Rightarrow> datetime \<Rightarrow> int \<Rightarrow> int \<Rightarrow> op_state \<Rightarrow> bool" where
  "claimable worker now seq term st \<longleftrightarrow>
     os_seq_no st = seq \<and> os_primary_term st = term \<and>
     (case os_claim_expires_at st of None \<Rightarrow> True | Some t \<Rightarrow> t \<le> now \<or> os_claim_owner st = Some worker) \<and>
     (os_status st = OsPending \<or>
      os_status st = OsClaimed \<and> (case os_claim_expires_at st of None \<Rightarrow> False | Some t \<Rightarrow> t \<le> now))"

definition claim_of :: "string \<Rightarrow> string \<Rightarrow> string \<Rightarrow> string \<Rightarrow> datetime \<Rightarrow> datetime \<Rightarrow> op_state \<Rightarrow> claim" where
  "claim_of t e i worker now until st =
     \<lparr>cl_operation_id = i, cl_owner = worker, cl_generation = os_claim_generation st + 1,
      cl_claimed_at = now, cl_expires_at = until, cl_tenant_id = t, cl_environment = e,
      cl_product_id = os_product_id st\<rparr>"

lemma get_operation_state_inv:
  "ops_inv s \<Longrightarrow> get_operation_state t e i s = (Inr (dget (rp_operation_states s) (t, e, i)), s)"
  by (auto simp: get_operation_state_def ops_inv_def state_inv_def os_key_def split: option.split)

lemma claim_operation_found:
  assumes "ops_inv s" and "dget (rp_operation_states s) (t, e, i) = Some st"
  shows "claim_operation t e i w now until seq term s =
     (if claimable w now seq term st
      then (Inr (claim_of t e i w now until st),
            s\<lparr>rp_operation_states := dput (t, e, i) (claimed st (claim_of t e i w now until st) now)
                (rp_operation_states s)\<rparr>)
      else (Inl (OperationClaimConflict
              (if (os_seq_no st, os_primary_term st) \<noteq> (seq, term) then ''operation_claim_conflict''
               else if (case os_claim_expires_at st of None \<Rightarrow> False | Some x \<Rightarrow> now < x) \<and>
                       os_claim_owner st \<noteq> Some w then ''operation_already_claimed''
               else ''operation_not_reconcilable'')), s))"
  by (cases "os_status st"; cases "os_claim_expires_at st")
     (auto simp: claim_operation_def py_simps get_operation_state_inv [OF assms(1)] assms(2)
        claimable_def claim_of_def put_operation_state_def Let_def)

lemma claim_operation_missing:
  "ops_inv s \<Longrightarrow> dget (rp_operation_states s) (t, e, i) = None \<Longrightarrow>
   claim_operation t e i w now until seq term s = (Inl (KeyError i), s)"
  by (simp add: claim_operation_def py_simps get_operation_state_inv)

lemma claim_attempts:
  assumes "claim_operation t e i w now until seq term s = (Inr cl, s')" and "dget (rp_operation_states s) (t, e, i) = Some st"
  shows "dget (rp_operation_states s') (t, e, i) = Some (claimed st cl now)"
  using assms unfolding claim_operation_def get_operation_state_def
  by (auto simp: py_simps Let_def put_operation_state_def split: option.splits if_splits)

lemma evolves_claim [evolve_rules]:
  "evolves ops_evolve (claim_operation t e i w now until seq term)"
proof (rule evolvesI)
  fix s
  show "ops_evolve s (snd (claim_operation t e i w now until seq term s))"
  proof (cases "ops_inv s")
    case False
    then show ?thesis by (simp add: ops_evolve_def)
  next
    case inv: True
    show ?thesis
    proof (cases "dget (rp_operation_states s) (t, e, i)")
      case None
      with inv show ?thesis by (simp add: claim_operation_missing ops.step_refl)
    next
      case (Some st)
      show ?thesis
      proof (cases "claimable w now seq term st")
        case True
        let ?c = "claimed st (claim_of t e i w now until st) now"
        have "ops_evolve s (s\<lparr>rp_operation_states := dput (t, e, i) ?c (rp_operation_states s)\<rparr>)"
          using Some
        proof (rule ops_evolve_put)
          show "op_evolve st ?c \<and> state_inv (t, e, i) ?c" if "state_inv (t, e, i) st"
          proof -
            have "\<not> terminal_status (os_status st)"
              using True by (auto simp: claimable_def terminal_status_def)
            then show ?thesis
              using that by (simp add: op_evolve_def state_inv_def os_key_def claimed_def claim_of_def)
          qed
        qed
        with True inv Some show ?thesis by (simp add: claim_operation_found)
      next
        case False
        with inv Some show ?thesis by (simp add: claim_operation_found ops.step_refl)
      qed
    qed
  qed
qed

section \<open>Creation of pending states\<close>

definition fresh_state :: "op_state \<Rightarrow> bool" where
  "fresh_state st \<longleftrightarrow> os_status st = OsPending \<and> os_attempt_count st = 0 \<and>
     os_claim_generation st = 0 \<and> os_claim_owner st = None \<and> os_claim_expires_at st = None \<and>
     os_seq_no st = 0"

lemma evolves_create [evolve_rules]:
  assumes "fresh_state st"
  shows "evolves ops_evolve (create_operation_state st)"
proof (rule evolvesI)
  fix s
  have inv: "state_inv (os_key st) st"
    using assms by (simp add: fresh_state_def state_inv_def)
  show "ops_evolve s (snd (create_operation_state st s))"
  proof (cases "dget (rp_operation_states s) (os_key st)")
    case None
    then show ?thesis
      by (simp add: create_operation_state_def py_simps put_operation_state_def ops_evolve_fresh inv)
  next
    case (Some x)
    then show ?thesis
      by (auto simp: create_operation_state_def py_simps put_operation_state_def dput_same ops.step_refl)
  qed
qed

section \<open>Sequences of calls\<close>

inductive claim_step :: "runtime \<Rightarrow> repo \<Rightarrow> repo \<Rightarrow> bool" for rt where
  create: "fresh_state st \<Longrightarrow> claim_step rt s (snd (create_operation_state st s))"
| claim: "claim_step rt s (snd (claim_operation t e i w now until seq term s))"
| renew: "claim_step rt s (snd (renew_operation_claim rt cl until s))"
| assert_claim: "claim_step rt s (snd (assert_operation_claim rt cl s))"
| checkpoint: "claim_step rt s (snd (checkpoint_operation rt cl cp s))"
| complete: "claim_step rt s (snd (complete_operation rt cl res s))"
| supersede: "claim_step rt s (snd (supersede_operation rt cl err s))"
| fail: "claim_step rt s (snd (fail_operation rt cl err s))"
| retry: "claim_step rt s (snd (schedule_operation_retry rt cl err next_at secs s))"
| release: "claim_step rt s (snd (release_operation_claim rt cl s))"

inductive claim_steps :: "runtime \<Rightarrow> repo \<Rightarrow> repo \<Rightarrow> bool" for rt where
  refl: "claim_steps rt s s"
| step: "claim_steps rt s t \<Longrightarrow> claim_step rt t u \<Longrightarrow> claim_steps rt s u"

definition claim_reachable :: "runtime \<Rightarrow> repo \<Rightarrow> bool" where
  "claim_reachable rt s \<longleftrightarrow> claim_steps rt empty_repo s"

lemma claim_step_evolves: "claim_step rt s s' \<Longrightarrow> ops_evolve s s'"
  by (induction rule: claim_step.induct)
     (simp_all add: evolves_snd evolves_create evolves_claim evolves_renew evolves_assert
        evolves_checkpoint evolves_finish evolves_schedule_retry evolves_release)

lemma claim_steps_evolve: "claim_steps rt s s' \<Longrightarrow> ops_evolve s s'"
  by (induction rule: claim_steps.induct)
     (auto intro: ops.step_refl ops.step_trans claim_step_evolves)

lemma empty_repo_inv: "ops_inv empty_repo"
  by (simp add: ops_inv_def empty_repo_def)

lemma claim_reachable_inv: "claim_reachable rt s \<Longrightarrow> ops_inv s"
  unfolding claim_reachable_def by (metis claim_steps_evolve empty_repo_inv ops_evolve_inv)

section \<open>Refused calls\<close>

text \<open>A claim-fenced call that raises the stale-claim error and writes no operation state.\<close>

definition refused :: "'a rp \<Rightarrow> repo \<Rightarrow> bool" where
  "refused m s \<longleftrightarrow>
     fst (m s) = Inl (OperationClaimConflict ''stale_operation_claim'') \<and>
     rp_operation_states (snd (m s)) = rp_operation_states s"

lemma refused_owned_state:
  assumes "\<And>st. dget (rp_operation_states s) (cl_key cl) = Some st \<Longrightarrow> os_claim_generation st \<noteq> cl_generation cl"
  shows "refused (owned_state rt cl) s"
  using assms
  by (auto simp: refused_def owned_state_def py_simps split: option.split)

lemma refused_bindp: "refused m s \<Longrightarrow> refused (bindp m f) s"
  by (cases "m s") (auto simp: refused_def bindp_def)

lemma claim_generation_after:
  assumes "ops_inv s" and "claim_operation t e i w now until seq term s = (Inr cl, s1)"
  shows "cl_key cl = (t, e, i) \<and> (\<exists>st. dget (rp_operation_states s1) (t, e, i) = Some st \<and>
           os_claim_generation st = cl_generation cl)"
proof (cases "dget (rp_operation_states s) (t, e, i)")
  case None
  with assms show ?thesis by (simp add: claim_operation_missing)
next
  case (Some st)
  with assms show ?thesis
    by (auto simp: claim_operation_found claim_of_def claimed_def cl_key_def split: if_splits)
qed

text \<open>
  C9. Fencing. Once a worker has claimed an operation, no older claim of that operation can write
  its state any more, whatever calls any workers make afterwards: every claim-fenced call with the
  older claim raises \<open>stale_operation_claim\<close> and leaves every stored state unchanged.
\<close>

theorem older_claims_are_fenced:
  assumes inv: "ops_inv s"
    and new: "claim_operation t e i w now until seq term s = (Inr cl, s1)"
    and later: "claim_steps rt s1 s2"
    and old: "cl_key cl0 = (t, e, i)" "cl_generation cl0 < cl_generation cl"
  shows "refused (renew_operation_claim rt cl0 x) s2 \<and>
    refused (assert_operation_claim rt cl0) s2 \<and>
    refused (checkpoint_operation rt cl0 cp) s2 \<and>
    refused (complete_operation rt cl0 res) s2 \<and>
    refused (supersede_operation rt cl0 err) s2 \<and>
    refused (fail_operation rt cl0 err) s2 \<and>
    refused (schedule_operation_retry rt cl0 err x secs) s2 \<and>
    refused (release_operation_claim rt cl0) s2"
proof -
  obtain st where st: "dget (rp_operation_states s1) (t, e, i) = Some st"
    and gen: "os_claim_generation st = cl_generation cl"
    using claim_generation_after [OF inv new] by blast
  have "ops_inv s1"
    using evolvesD [OF evolves_claim new] inv by (rule ops_evolve_inv)
  with claim_steps_evolve [OF later] obtain st2 where
    "dget (rp_operation_states s2) (t, e, i) = Some st2" "op_evolve st st2"
    using st by (rule ops_evolveD)
  with gen old have "refused (owned_state rt cl0) s2"
    by (intro refused_owned_state) (auto simp: op_evolve_def)
  then show ?thesis
    unfolding renew_operation_claim_def assert_operation_claim_def checkpoint_operation_def
      complete_operation_def supersede_operation_def fail_operation_def finalize_state_def
      schedule_operation_retry_def release_operation_claim_def
    by (intro conjI refused_bindp)
qed

lemma claimed_repo_reachable: "claim_reachable sample_rt claimed_repo"
proof -
  have "claim_steps sample_rt empty_repo pending_repo"
    unfolding pending_repo_def
    by (rule claim_steps.step [OF claim_steps.refl claim_step.create]) (simp add: fresh_state_def pending_sample_def)
  then show ?thesis
    unfolding claim_reachable_def claimed_repo_def by (rule claim_steps.step) (rule claim_step.claim)
qed

theorem older_claims_are_fenced_witness:
  "refused (complete_operation sample_rt first_claim
      \<lparr>fr_revision = 1, fr_etag = ''x'', fr_checksum = ''c'', fr_applied_at = 7\<rparr>) taken_over_repo"
  using older_claims_are_fenced [OF claim_reachable_inv [OF claimed_repo_reachable] taken_over_repo_eq
      claim_steps.refl, of first_claim sample_rt 0 undefined
      "\<lparr>fr_revision = 1, fr_etag = ''x'', fr_checksum = ''c'', fr_applied_at = 7\<rparr>" "[]" 0]
  by (simp add: first_claim_def second_claim_def cl_key_def)

text \<open>
  C10. A terminal operation state is final: no sequence of claim-protocol calls, by any workers with
  any arguments, changes an operation state that is applied, superseded or failed.
\<close>

theorem terminal_states_are_final:
  assumes "ops_inv s" and "dget (rp_operation_states s) k = Some st" and "terminal_status (os_status st)"
    and "claim_steps rt s s'"
  shows "dget (rp_operation_states s') k = Some st"
proof -
  obtain st' where "dget (rp_operation_states s') k = Some st'" "op_evolve st st'"
    using claim_steps_evolve [OF assms(4)] assms(1,2) by (rule ops_evolveD)
  with assms(3) show ?thesis by (simp add: op_evolve_def)
qed

definition failed_repo :: repo where
  "failed_repo = snd (fail_operation sample_rt first_claim ''boom'' claimed_repo)"

lemma failed_repo_inv: "ops_inv failed_repo"
proof -
  have "claim_reachable sample_rt failed_repo"
    using claimed_repo_reachable unfolding claim_reachable_def failed_repo_def
    by (rule claim_steps.step) (rule claim_step.fail)
  then show ?thesis by (rule claim_reachable_inv)
qed

theorem terminal_states_are_final_witness:
  "map_option os_status (dget (rp_operation_states
      (snd (release_operation_claim sample_rt first_claim failed_repo))) (''t'', ''e'', ''op''))
   = Some OsFailed"
proof -
  have st: "dget (rp_operation_states failed_repo) (''t'', ''e'', ''op'') = Some (sample_state failed_repo)"
    and failed: "os_status (sample_state failed_repo) = OsFailed"
    by code_simp+
  have "terminal_status (os_status (sample_state failed_repo))" by (simp add: failed terminal_status_def)
  moreover have "claim_steps sample_rt failed_repo
      (snd (release_operation_claim sample_rt first_claim failed_repo))"
    by (rule claim_steps.step [OF claim_steps.refl claim_step.release])
  ultimately show ?thesis
    using terminal_states_are_final [OF failed_repo_inv st] failed by simp
qed

text \<open>
  Every state that claim-protocol calls reach from the empty repository satisfies the
  invariant: keys agree with the stored scope, the attempt count is the claim generation, the
  sequence number is at least the generation, and a state has an owner and an expiry exactly when
  it is claimed.
\<close>

theorem claim_protocol_invariant:
  assumes "claim_reachable rt s" and "dget (rp_operation_states s) k = Some st"
  shows "state_inv k st"
  using claim_reachable_inv [OF assms(1)] assms(2) by (rule ops_invD)

theorem claim_protocol_invariant_witness:
  "os_attempt_count (sample_state claimed_repo) = 1 \<and>
   state_inv (''t'', ''e'', ''op'') (sample_state claimed_repo)"
proof
  show "os_attempt_count (sample_state claimed_repo) = 1" by code_simp
  show "state_inv (''t'', ''e'', ''op'') (sample_state claimed_repo)"
    by (rule claim_protocol_invariant [OF claimed_repo_reachable claimed_repo_state])
qed

text \<open>
  When a claim is granted: exactly for an operation whose sequence number and primary term are
  the expected ones and which is pending, or claimed with an expiry that has passed. A granted claim
  carries the next generation; a refused one changes nothing.
\<close>

theorem claim_granted_iff:
  assumes "ops_inv s" and "dget (rp_operation_states s) (t, e, i) = Some st"
  shows "(\<exists>cl s'. claim_operation t e i w now until seq term s = (Inr cl, s') \<and>
            cl_generation cl = os_claim_generation st + 1 \<and> cl_owner cl = w)
         = (os_seq_no st = seq \<and> os_primary_term st = term \<and>
            (os_status st = OsPending \<or>
             os_status st = OsClaimed \<and> (\<exists>x. os_claim_expires_at st = Some x \<and> x \<le> now)))
       \<and> (\<not> claimable w now seq term st \<longrightarrow>
            (\<exists>msg. claim_operation t e i w now until seq term s = (Inl (OperationClaimConflict msg), s)))"
proof -
  have "state_inv (t, e, i) st"
    using assms by (rule ops_invD)
  then have "claimable w now seq term st \<longleftrightarrow>
      os_seq_no st = seq \<and> os_primary_term st = term \<and>
      (os_status st = OsPending \<or>
       os_status st = OsClaimed \<and> (\<exists>x. os_claim_expires_at st = Some x \<and> x \<le> now))"
    by (auto simp: claimable_def state_inv_def split: option.split)
  then show ?thesis
    by (simp add: claim_operation_found [OF assms] claim_of_def)
qed

theorem claim_granted_iff_witness:
  "\<exists>msg. claim_operation ''t'' ''e'' ''op'' ''w2'' 4 60 1 1 claimed_repo =
      (Inl (OperationClaimConflict msg), claimed_repo)"
proof -
  have "\<not> claimable ''w2'' 4 1 1 (sample_state claimed_repo)" by code_simp
  with claim_granted_iff [OF claim_reachable_inv [OF claimed_repo_reachable] claimed_repo_state]
  show ?thesis by blast
qed

text \<open>
  What the poller lists can be claimed: every operation that
  \<open>list_reconcilable_operations\<close> returns at an instant is granted to any worker that claims it at
  that instant with the listed sequence number and primary term; the listing respects its limit.
\<close>

theorem listed_operations_are_claimable:
  assumes inv: "ops_inv s"
    and listed: "list_reconcilable_operations rt t e limit kind (Some (Aware now)) s = (Inr sts, s')"
    and st: "st \<in> set sts" and limit: "0 \<le> limit"
  shows "s' = s \<and> int (length sts) \<le> limit \<and>
    (\<exists>cl s2. claim_operation t e (os_operation_id st) w now until (os_seq_no st) (os_primary_term st) s
               = (Inr cl, s2) \<and> cl_owner cl = w)"
proof -
  let ?f = "filter (\<lambda>st. (os_tenant_id st, os_environment st) = (t, e) \<and>
                (kind = None \<or> kind = Some (os_operation_kind st)) \<and> reconcilable now st)
             (dvals (rp_operation_states s))"
  have sts: "sts = slice_to limit (sort_key (\<lambda>st. (os_updated_at st, os_operation_id st)) ?f)" "s' = s"
    using listed by (auto simp: list_reconcilable_operations_def py_simps)
  then have "st \<in> set ?f"
    using st set_slice_to_subset by fastforce
  then obtain k where k: "(k, st) \<in> set (rp_operation_states s)"
    and scope: "os_tenant_id st = t" "os_environment st = e" and rec: "reconcilable now st"
    by auto
  then have get: "dget (rp_operation_states s) k = Some st"
    using inv by (simp add: ops_inv_def)
  then have "state_inv k st" using inv by (intro ops_invD)
  then have key: "k = (t, e, os_operation_id st)"
    and ok: "claimable w now (os_seq_no st) (os_primary_term st) st"
    using scope rec
    by (auto simp: state_inv_def os_key_def claimable_def reconcilable_def split: option.splits)
  have "int (length sts) \<le> limit"
    using limit by (simp add: sts(1) length_slice_to)
  with claim_operation_found [OF inv get [unfolded key], of w now until "os_seq_no st" "os_primary_term st"] ok sts(2)
  show ?thesis by (simp add: claim_of_def)
qed

theorem listed_operations_are_claimable_witness:
  "\<exists>cl s2. claim_operation ''t'' ''e'' ''op'' ''w2'' 6 60 1 1 claimed_repo = (Inr cl, s2) \<and> cl_owner cl = ''w2''"
proof -
  have l: "list_reconcilable_operations sample_rt ''t'' ''e'' 10 None (Some (Aware 6)) claimed_repo
      = (Inr [sample_state claimed_repo], claimed_repo)"
    by code_simp
  have st: "os_operation_id (sample_state claimed_repo) = ''op''" "os_seq_no (sample_state claimed_repo) = 1"
    "os_primary_term (sample_state claimed_repo) = 1"
    by code_simp+
  show ?thesis
    using listed_operations_are_claimable [OF claim_reachable_inv [OF claimed_repo_reachable] l,
        of "sample_state claimed_repo" "''w2''" 60] st
    by simp
qed

text \<open>
  The sequence number is a version: along any run of the claim protocol, two stored states of
  one operation with the same sequence number are the same state, so the compare-and-swap of
  \<open>claim_operation\<close> never mistakes a changed state for the one that was read.
\<close>

theorem sequence_number_names_version:
  assumes "ops_inv s" and "claim_steps rt s s'"
    and "dget (rp_operation_states s) k = Some st" and "dget (rp_operation_states s') k = Some st'"
    and "os_seq_no st' = os_seq_no st"
  shows "st' = st"
proof -
  obtain x where "dget (rp_operation_states s') k = Some x" "op_evolve st x"
    using claim_steps_evolve [OF assms(2)] assms(1,3) by (rule ops_evolveD)
  with assms(4,5) show ?thesis by (simp add: op_evolve_def)
qed

theorem sequence_number_names_version_witness:
  "dget (rp_operation_states (snd (claim_operation ''t'' ''e'' ''op'' ''w2'' 4 60 1 1 claimed_repo))) (''t'', ''e'', ''op'')
   = dget (rp_operation_states claimed_repo) (''t'', ''e'', ''op'')"
proof -
  let ?s = "snd (claim_operation ''t'' ''e'' ''op'' ''w2'' 4 60 1 1 claimed_repo)"
  have st': "dget (rp_operation_states ?s) (''t'', ''e'', ''op'') = Some (sample_state ?s)"
    and seq: "os_seq_no (sample_state ?s) = os_seq_no (sample_state claimed_repo)"
    by code_simp+
  have "claim_steps sample_rt claimed_repo ?s"
    by (rule claim_steps.step [OF claim_steps.refl claim_step.claim])
  from sequence_number_names_version [OF claim_reachable_inv [OF claimed_repo_reachable] this
      claimed_repo_state st' seq]
  show ?thesis using claimed_repo_state st' by simp
qed

end
