(* ===== verification/Idempotency.thy ===== *)
theory Idempotency
  imports OperationClaims
begin

text \<open>
  Idempotency reservations: \<open>services/data_products/idempotency.py\<close> (keys, record identifiers,
  request fingerprints, new records) over the reservation methods of the memory repository.

  \<^item> \<open>rec_evolve\<close>: how a stored record may change by reserving, binding, repairing, failing and
    superseding: its identity stays, the operation is bound once, a bound completed record stays as
    it is, no record goes back to pending. \<open>rec_keeps\<close> is what \<open>complete_idempotency\<close> respects too.
  \<^item> The locale \<open>reservation_store\<close> is the contract a client of reservations relies on; the memory
    repository interprets it.
\<close>

section \<open>Keys, fingerprints, new records\<close>

definition hash_key :: "runtime \<Rightarrow> string \<Rightarrow> py_error + string" where
  "hash_key rt key =
     (if key = [] \<or> length key > 512
      then Inl (ValueError ''Idempotency-Key is required and must not exceed 512 characters'')
      else Inr (sha256 rt (PreText key)))"

text \<open>The separator \<open>\x1f\<close> and \<open>sep.join(parts)\<close>.\<close>

definition unit_separator :: char where
  "unit_separator = char_of (31 :: nat)"

fun join_with :: "char \<Rightarrow> string list \<Rightarrow> string" where
  "join_with c [] = []"
| "join_with c [x] = x"
| "join_with c (x # y # zs) = x @ c # join_with c (y # zs)"

definition scoped_record_id :: "runtime \<Rightarrow> string \<Rightarrow> string \<Rightarrow> string \<Rightarrow> string \<Rightarrow> py_error + string" where
  "scoped_record_id rt tenant_id environment product_id key =
     (case hash_key rt key of
        Inl e \<Rightarrow> Inl e
      | Inr h \<Rightarrow> Inr (sha256 rt (PreText
          (join_with unit_separator [tenant_id, environment, ''data_product'', product_id, h]))))"

definition opt_str :: "string option \<Rightarrow> pyval" where
  "opt_str x = (case x of None \<Rightarrow> PNone | Some s \<Rightarrow> PStr s)"

definition request_fingerprint ::
  "runtime \<Rightarrow> string \<Rightarrow> string \<Rightarrow> string \<Rightarrow> string \<Rightarrow> pyval \<Rightarrow> string \<Rightarrow> string \<Rightarrow> string option \<Rightarrow> string" where
  "request_fingerprint rt tenant_id environment product_id action body actor reason expected_etag =
     sha256 rt (PreJson (canon (PDict
       [(''action'', PStr action),
        (''actor'', PStr actor),
        (''body'', body),
        (''environment'', PStr environment),
        (''expected_etag'', opt_str expected_etag),
        (''product_id'', PStr product_id),
        (''reason'', PStr reason),
        (''tenant_id'', PStr tenant_id)])))"

definition new_record ::
  "runtime \<Rightarrow> string \<Rightarrow> string \<Rightarrow> string \<Rightarrow> string \<Rightarrow> string \<Rightarrow> string \<Rightarrow> int \<Rightarrow> idem_record rp" where
  "new_record rt tenant_id environment product_id action key fingerprint retention_days =
     bindp (utc_now rt) (\<lambda>now.
     case hash_key rt key of
       Inl e \<Rightarrow> raise e
     | Inr h \<Rightarrow> ret \<lparr>ir_tenant_id = tenant_id, ir_environment = environment,
         ir_resource_type = ''data_product'', ir_resource_id = product_id, ir_action = action,
         ir_idempotency_key_hash = h, ir_request_fingerprint = fingerprint, ir_operation_id = None,
         ir_state = IdPending, ir_created_at = now, ir_updated_at = now, ir_completed_at = None,
         ir_result_revision = None, ir_result_etag = None, ir_error_code = None,
         ir_expires_at = now + days retention_days, ir_schema_version = ''v1''\<rparr>)"

section \<open>How a record may change\<close>

definition rec_identity :: "idem_record \<Rightarrow> string list \<times> datetime \<times> datetime" where
  "rec_identity r =
     ([ir_tenant_id r, ir_environment r, ir_resource_type r, ir_resource_id r, ir_action r,
       ir_idempotency_key_hash r, ir_request_fingerprint r, ir_schema_version r],
      ir_created_at r, ir_expires_at r)"

definition rec_keeps :: "idem_record \<Rightarrow> idem_record \<Rightarrow> bool" where
  "rec_keeps a b \<longleftrightarrow> rec_identity a = rec_identity b \<and>
     (ir_state a = IdCompleted \<longrightarrow> ir_state b = IdCompleted) \<and>
     (ir_state a \<noteq> IdPending \<longrightarrow> ir_state b \<noteq> IdPending) \<and>
     (ir_operation_id a \<noteq> None \<longrightarrow> ir_operation_id b \<noteq> None)"

definition unbound :: "idem_record \<Rightarrow> idem_record" where
  "unbound r = r\<lparr>ir_operation_id := None\<rparr>"

lemma unbound_eq: "unbound a = unbound b \<Longrightarrow> ir_operation_id a = ir_operation_id b \<Longrightarrow> a = b"
  by (cases a; cases b) (simp add: unbound_def)

lemma unbound_bind [simp]: "unbound (r\<lparr>ir_operation_id := x\<rparr>) = unbound r"
  by (simp add: unbound_def)

definition rec_evolve :: "idem_record \<Rightarrow> idem_record \<Rightarrow> bool" where
  "rec_evolve a b \<longleftrightarrow> rec_keeps a b \<and>
     (ir_operation_id a \<noteq> None \<longrightarrow> ir_operation_id b = ir_operation_id a) \<and>
     (ir_state a = IdCompleted \<longrightarrow> unbound b = unbound a)"

text \<open>A completed record does not change any more, but for an operation it did not name before.\<close>

definition rec_lasts :: "idem_record \<Rightarrow> idem_record \<Rightarrow> bool" where
  "rec_lasts a b \<longleftrightarrow> rec_keeps a b \<and>
     (ir_state a = IdCompleted \<longrightarrow> unbound b = unbound a \<and>
        (ir_operation_id a \<noteq> None \<longrightarrow> ir_operation_id b = ir_operation_id a))"

lemmas rec_defs = rec_evolve_def rec_lasts_def rec_keeps_def rec_identity_def

abbreviation idem_of :: "repo \<Rightarrow> string \<Rightarrow> idem_record option" where
  "idem_of s \<equiv> dget (rp_idempotency s)"

abbreviation idem_evolve :: "repo \<Rightarrow> repo \<Rightarrow> bool" where
  "idem_evolve \<equiv> store_evolve idem_of rec_evolve"

abbreviation idem_keeps :: "repo \<Rightarrow> repo \<Rightarrow> bool" where
  "idem_keeps \<equiv> store_evolve idem_of rec_keeps"

abbreviation idem_lasts :: "repo \<Rightarrow> repo \<Rightarrow> bool" where
  "idem_lasts \<equiv> store_evolve idem_of rec_lasts"

lemma rec_evolve_lasts: "rec_evolve a b \<Longrightarrow> rec_lasts a b"
  by (simp add: rec_lasts_def rec_evolve_def)

interpretation idem: store_order idem_of rec_evolve
  by unfold_locales (auto simp: rec_defs)

interpretation ideml: store_order idem_of rec_lasts
  by unfold_locales (auto simp: rec_defs)

interpretation idemk: store_order idem_of rec_keeps
  by unfold_locales (auto simp: rec_defs)

lemma idem_evolve_keeps: "idem_evolve s s' \<Longrightarrow> idem_keeps s s'"
  by (erule store_evolve_mono) (simp add: rec_evolve_def)

lemma idem_evolve_lasts: "idem_evolve s s' \<Longrightarrow> idem_lasts s s'"
  by (erule store_evolve_mono) (rule rec_evolve_lasts)

lemma idem_evolve_write:
  assumes "\<And>r. idem_of s k = Some r \<Longrightarrow> rec_evolve r r'"
  shows "idem_evolve s (s\<lparr>rp_idempotency := dput k r' (rp_idempotency s)\<rparr>)"
  using assms by (intro idem.put) (auto simp: fun_eq_iff)

lemma idem_utc_now [evolve_rules]: "evolves idem_evolve (utc_now rt)"
  by (rule evolvesI) (auto simp: utc_now_def intro: idem.frame)

lemma idem_reserve [evolve_rules]: "evolves idem_evolve (reserve_idempotency k r)"
  by (rule evolvesI)
     (auto simp: reserve_idempotency_def get_idempotency_def put_idempotency_def py_simps
        split: option.split intro: idem.step_refl idem_evolve_write)

lemma idem_bind [evolve_rules]:
  "evolves idem_evolve (bind_or_verify_idempotency_operation k t e p a fp oid)"
  by (rule evolvesI)
     (auto simp: bind_or_verify_idempotency_operation_def get_idempotency_def put_idempotency_def
        py_simps Let_def rec_defs split: option.split intro!: idem_evolve_write intro: idem.step_refl)

text \<open>The write of \<open>terminal_idempotency\<close> in closed form.\<close>

lemma terminal_idempotency_eq:
  "terminal_idempotency rt k x code s = (case idem_of s k of
      None \<Rightarrow> (Inl (KeyError k), s)
    | Some r \<Rightarrow> if ir_state r = IdCompleted then (Inr (), s)
        else (Inr (), s\<lparr>rp_ticks := Suc (rp_ticks s),
               rp_idempotency := dput k (r\<lparr>ir_state := x, ir_error_code := code,
                 ir_updated_at := clock rt (rp_ticks s)\<rparr>) (rp_idempotency s)\<rparr>))"
  by (auto simp: terminal_idempotency_def get_idempotency_def put_idempotency_def py_simps utc_now_def
      split: option.split)

lemma idem_terminal:
  assumes "x \<noteq> IdPending"
  shows "evolves idem_evolve (terminal_idempotency rt k x code)"
proof (rule evolvesI)
  fix s
  have "idem_evolve s (s\<lparr>rp_ticks := Suc (rp_ticks s),
           rp_idempotency := dput k (r\<lparr>ir_state := x, ir_error_code := code,
             ir_updated_at := clock rt (rp_ticks s)\<rparr>) (rp_idempotency s)\<rparr>)"
    if "idem_of s k = Some r" "ir_state r \<noteq> IdCompleted" for r
    using that assms by (intro idem.put [of _ _ k]) (auto simp: fun_eq_iff rec_defs)
  then show "idem_evolve s (snd (terminal_idempotency rt k x code s))"
    by (auto simp: terminal_idempotency_eq idem.step_refl split: option.split)
qed

lemma idem_fail [evolve_rules]: "evolves idem_evolve (fail_idempotency rt k code)"
  unfolding fail_idempotency_def by (rule idem_terminal) simp

lemma idem_supersede [evolve_rules]: "evolves idem_evolve (supersede_idempotency rt k code)"
  unfolding supersede_idempotency_def by (rule idem_terminal) simp

text \<open>
  \<open>repair_idempotency_terminal\<close> in two parts: the binding of the operation, then the terminal write
  on a bound record.
\<close>

definition repair_write :: "runtime \<Rightarrow> string \<Rightarrow> string \<Rightarrow> string \<Rightarrow> evidence \<Rightarrow> idem_record \<Rightarrow> unit rp" where
  "repair_write rt k oid out ev r = (case repair_desired out ev of
      Inl e \<Rightarrow> raise e
    | Inr desired \<Rightarrow>
        if ir_state r \<noteq> IdPending then
          (if (ir_state r, ir_result_revision r, ir_result_etag r, ir_error_code r) = desired
           then ret () else raise (ProductConsistencyError ''terminal idempotency state cannot diverge''))
        else (case (ev, terminal_state out) of
            (EvResult res, _) \<Rightarrow> put_idempotency k
                (r\<lparr>ir_state := IdCompleted, ir_operation_id := Some oid,
                   ir_result_revision := Some (fr_revision res), ir_result_etag := Some (fr_etag res),
                   ir_completed_at := Some (fr_applied_at res), ir_updated_at := fr_applied_at res\<rparr>)
          | (EvError code, Some st) \<Rightarrow> terminal_idempotency rt k st (Some code)
          | (EvError code, None) \<Rightarrow> ret ()))"

definition bound_to :: "string \<Rightarrow> idem_record \<Rightarrow> idem_record" where
  "bound_to oid r = (if ir_operation_id r = None then r\<lparr>ir_operation_id := Some oid\<rparr> else r)"

lemma repair_eq:
  "repair_idempotency_terminal rt k oid fp out ev s = (case idem_of s k of
      None \<Rightarrow> (Inl (ProductConsistencyError ''idempotency reservation missing''), s)
    | Some r \<Rightarrow>
        if ir_request_fingerprint r \<noteq> fp \<or> ir_operation_id r \<notin> {None, Some oid}
        then (Inl (ProductConsistencyError ''idempotency operation binding mismatch''), s)
        else repair_write rt k oid out ev (bound_to oid r)
               (s\<lparr>rp_idempotency := dput k (bound_to oid r) (rp_idempotency s)\<rparr>))"
  by (auto simp: repair_idempotency_terminal_def repair_write_def bound_to_def get_idempotency_def
      put_idempotency_def py_simps Let_def dput_same split: option.split)

lemma terminal_state_not_pending: "terminal_state out = Some x \<Longrightarrow> x \<noteq> IdPending"
  by (auto split: if_splits)

lemma repair_write_evolve:
  assumes "idem_of s k = Some r" and "ir_operation_id r = Some oid"
  shows "idem_evolve s (snd (repair_write rt k oid out ev r s))"
proof (cases "ir_state r = IdPending \<and> (\<exists>d. repair_desired out ev = Inr d)")
  case True
  then obtain d where p: "ir_state r = IdPending" and d: "repair_desired out ev = Inr d" by blast
  show ?thesis
  proof (cases ev)
    case (EvResult res)
    with p d assms show ?thesis
      by (auto simp: repair_write_def put_idempotency_def rec_defs intro!: idem_evolve_write)
  next
    case (EvError code)
    with p d show ?thesis
      by (auto simp: repair_write_def idem.step_refl simp del: terminal_state.simps
          split: option.split intro: evolves_snd [OF idem_terminal] dest: terminal_state_not_pending)
  qed
next
  case False
  then show ?thesis
    by (auto simp: repair_write_def idem.step_refl split: sum.split)
qed

lemma bound_to_evolve: "rec_evolve r (bound_to oid r)"
  by (auto simp: bound_to_def rec_defs)

lemma idem_repair [evolve_rules]:
  "evolves idem_evolve (repair_idempotency_terminal rt k oid fp out ev)"
proof (rule evolvesI)
  fix s
  show "idem_evolve s (snd (repair_idempotency_terminal rt k oid fp out ev s))"
  proof (cases "\<exists>r. idem_of s k = Some r \<and> ir_request_fingerprint r = fp \<and> ir_operation_id r \<in> {None, Some oid}")
    case True
    then obtain r where r: "idem_of s k = Some r" "ir_request_fingerprint r = fp"
      "ir_operation_id r \<in> {None, Some oid}" by blast
    let ?s1 = "s\<lparr>rp_idempotency := dput k (bound_to oid r) (rp_idempotency s)\<rparr>"
    have "idem_evolve s ?s1"
      using r(1) by (intro idem_evolve_write) (simp add: bound_to_evolve)
    moreover have "idem_evolve ?s1 (snd (repair_write rt k oid out ev (bound_to oid r) ?s1))"
      using r(3) by (intro repair_write_evolve) (auto simp: bound_to_def)
    ultimately show ?thesis
      using r by (auto simp: repair_eq intro: idem.step_trans)
  next
    case False
    then show ?thesis
      by (auto simp: repair_eq idem.step_refl split: option.split)
  qed
qed

lemma idemk_complete: "evolves idem_keeps (complete_idempotency rt k oid rv et)"
proof (rule evolvesI)
  fix s
  show "idem_keeps s (snd (complete_idempotency rt k oid rv et s))"
    by (cases "idem_of s k")
       (auto simp: complete_idempotency_def get_idempotency_def put_idempotency_def py_simps utc_now_def
          rec_defs idemk.step_refl fun_eq_iff intro!: idemk.put [of _ _ k])
qed

text \<open>Completing a reservation that is not completed yet.\<close>

definition unfinished :: "string \<Rightarrow> repo \<Rightarrow> bool" where
  "unfinished k s \<longleftrightarrow> (\<forall>r. idem_of s k = Some r \<longrightarrow> ir_state r \<noteq> IdCompleted)"

lemma complete_unfinished:
  assumes "unfinished k s"
  shows "idem_lasts s (snd (complete_idempotency rt k oid rv et s))"
  using assms
  by (cases "idem_of s k")
     (auto simp: complete_idempotency_def get_idempotency_def put_idempotency_def py_simps utc_now_def unfinished_def
        rec_lasts_def rec_keeps_def rec_identity_def ideml.step_refl fun_eq_iff intro!: ideml.put [of _ _ k])

lemma reserve_idempotency_handed:
  assumes "reserve_idempotency k r s = (Inr v, s')"
  shows "idem_of s' k = Some (rv_record v)"
  using assms
  by (auto simp: reserve_idempotency_def get_idempotency_def put_idempotency_def py_simps split: option.splits if_splits)

section \<open>The reservation contract\<close>

text \<open>
  What a mutation service relies on: a fresh reservation is stored, an existing one with the same
  fingerprint is handed out unchanged, any other is a conflict; \<open>step\<close> is any call on the store.
\<close>

locale reservation_store =
  fixes lookup :: "'s \<Rightarrow> string \<Rightarrow> idem_record option"
    and reserve :: "string \<Rightarrow> idem_record \<Rightarrow> ('s, reservation) py"
    and step :: "'s \<Rightarrow> 's \<Rightarrow> bool"
  assumes reserve_fresh: "lookup s k = None \<Longrightarrow> \<exists>s'.
      reserve k r s = (Inr \<lparr>rv_status = RvCreated, rv_record = r, rv_immutable_result_ref = None\<rparr>, s') \<and>
      lookup s' k = Some r"
    and reserve_same: "lookup s k = Some x \<Longrightarrow> ir_request_fingerprint x = ir_request_fingerprint r \<Longrightarrow>
      reserve k r s = (Inr \<lparr>rv_status = existing_status (ir_state x), rv_record = x,
                            rv_immutable_result_ref = ir_operation_id x\<rparr>, s)"
    and reserve_conflict: "lookup s k = Some x \<Longrightarrow> ir_request_fingerprint x \<noteq> ir_request_fingerprint r \<Longrightarrow>
      reserve k r s = (Inl (IdempotencyConflict ''idempotency_conflict''), s)"
    and step_keeps: "step s s' \<Longrightarrow> store_evolve lookup rec_keeps s s'"
begin

lemma reserved_is_stored:
  assumes "reserve k r s = (Inr v, s1)"
  shows "lookup s1 k = Some (rv_record v) \<and>
         ir_request_fingerprint (rv_record v) = ir_request_fingerprint r"
proof (cases "lookup s k")
  case None
  from reserve_fresh [OF None, of r] assms show ?thesis by auto
next
  case (Some x)
  show ?thesis
  proof (cases "ir_request_fingerprint x = ir_request_fingerprint r")
    case True
    from reserve_same [OF Some True] assms Some True show ?thesis by auto
  next
    case False
    from reserve_conflict [OF Some False] assms show ?thesis by simp
  qed
qed

lemma steps_keep: "step\<^sup>*\<^sup>* s s' \<Longrightarrow> store_evolve lookup rec_keeps s s'"
proof (induction rule: rtranclp_induct)
  case base
  show ?case by (simp add: store_evolve_def rec_keeps_def)
next
  case (step t u)
  from step.hyps(2) have "store_evolve lookup rec_keeps t u" by (rule step_keeps)
  with step.IH show ?case
    unfolding store_evolve_def rec_keeps_def by (metis (no_types, opaque_lifting))
qed

lemma retry:
  assumes first: "reserve k r s = (Inr v, s1)" and run: "step\<^sup>*\<^sup>* s1 s2"
  shows "(ir_request_fingerprint r' = ir_request_fingerprint r \<longrightarrow>
            (\<exists>x. reserve k r' s2 = (Inr \<lparr>rv_status = existing_status (ir_state x), rv_record = x,
                                        rv_immutable_result_ref = ir_operation_id x\<rparr>, s2) \<and>
                 rec_keeps (rv_record v) x)) \<and>
         (ir_request_fingerprint r' \<noteq> ir_request_fingerprint r \<longrightarrow>
            reserve k r' s2 = (Inl (IdempotencyConflict ''idempotency_conflict''), s2))"
proof -
  have v: "lookup s1 k = Some (rv_record v)" "ir_request_fingerprint (rv_record v) = ir_request_fingerprint r"
    using reserved_is_stored [OF first] by simp_all
  obtain x where x: "lookup s2 k = Some x" "rec_keeps (rv_record v) x"
    using steps_keep [OF run] v(1) by (rule store_evolveD)
  then have "ir_request_fingerprint x = ir_request_fingerprint r"
    using v(2) by (simp add: rec_keeps_def rec_identity_def)
  with x reserve_same [OF x(1), of r'] reserve_conflict [OF x(1), of r'] show ?thesis by auto
qed

end

text \<open>The calls on the memory repository's reservations, with any arguments.\<close>

inductive idem_step :: "runtime \<Rightarrow> repo \<Rightarrow> repo \<Rightarrow> bool" for rt :: runtime where
  reserve: "idem_step rt s (snd (reserve_idempotency k r s))"
| complete: "idem_step rt s (snd (complete_idempotency rt k oid rv et s))"
| bind: "idem_step rt s (snd (bind_or_verify_idempotency_operation k t e p a fp oid s))"
| fail: "idem_step rt s (snd (fail_idempotency rt k code s))"
| supersede: "idem_step rt s (snd (supersede_idempotency rt k code s))"
| repair: "idem_step rt s (snd (repair_idempotency_terminal rt k oid fp out ev s))"

lemma idem_step_keeps: "idem_step rt s s' \<Longrightarrow> idem_keeps s s'"
  by (induction rule: idem_step.induct)
     (auto intro!: evolves_snd [OF idemk_complete] idem_evolve_keeps
        evolves_snd [OF idem_reserve] evolves_snd [OF idem_bind] evolves_snd [OF idem_fail]
        evolves_snd [OF idem_supersede] evolves_snd [OF idem_repair])

interpretation mem: reservation_store idem_of reserve_idempotency "idem_step rt" for rt
  by unfold_locales
     (auto simp: reserve_idempotency_def get_idempotency_def put_idempotency_def py_simps idem_step_keeps)

section \<open>Properties\<close>

definition sample_record :: idem_record where
  "sample_record = \<lparr>ir_tenant_id = ''t'', ir_environment = ''e'', ir_resource_type = ''data_product'',
     ir_resource_id = ''p'', ir_action = ''create'', ir_idempotency_key_hash = ''h'',
     ir_request_fingerprint = ''fp'', ir_operation_id = None, ir_state = IdPending, ir_created_at = 0,
     ir_updated_at = 0, ir_completed_at = None, ir_result_revision = None, ir_result_etag = None,
     ir_error_code = None, ir_expires_at = days 30, ir_schema_version = ''v1''\<rparr>"

definition reserved_repo :: repo where
  "reserved_repo = snd (reserve_idempotency ''k'' sample_record empty_repo)"

definition completed_repo :: repo where
  "completed_repo = snd (complete_idempotency sample_rt ''k'' ''op'' 1 ''tag'' reserved_repo)"

text \<open>
  C31. A retried request: once a reservation was granted or handed out under a record identifier,
  then after any calls on the store (completions, failures, repairs, other reservations) a request
  with the same fingerprint gets the stored record and not a second creation, a request with another
  fingerprint is a conflict, and neither changes the store. The record keeps its identity, and a
  completed one is still completed.
\<close>

theorem retry_never_creates_again:
  assumes "reserve_idempotency k r s = (Inr v, s1)" and "(idem_step rt)\<^sup>*\<^sup>* s1 s2"
  shows "(ir_request_fingerprint r' = ir_request_fingerprint r \<longrightarrow>
            (\<exists>x. reserve_idempotency k r' s2 =
                   (Inr \<lparr>rv_status = existing_status (ir_state x), rv_record = x,
                         rv_immutable_result_ref = ir_operation_id x\<rparr>, s2) \<and>
                 rec_keeps (rv_record v) x)) \<and>
         (ir_request_fingerprint r' \<noteq> ir_request_fingerprint r \<longrightarrow>
            reserve_idempotency k r' s2 = (Inl (IdempotencyConflict ''idempotency_conflict''), s2))"
  using assms by (rule mem.retry)

theorem retry_never_creates_again_witness:
  "\<exists>x. reserve_idempotency ''k'' sample_record completed_repo =
        (Inr \<lparr>rv_status = existing_status (ir_state x), rv_record = x,
              rv_immutable_result_ref = ir_operation_id x\<rparr>, completed_repo) \<and> rec_keeps sample_record x"
proof -
  have "(idem_step sample_rt)\<^sup>*\<^sup>* reserved_repo completed_repo"
    unfolding completed_repo_def by (intro r_into_rtranclp idem_step.complete)
  moreover have "reserve_idempotency ''k'' sample_record empty_repo =
      (Inr \<lparr>rv_status = RvCreated, rv_record = sample_record, rv_immutable_result_ref = None\<rparr>, reserved_repo)"
    by code_simp
  ultimately show ?thesis
    using retry_never_creates_again [of "''k''" sample_record empty_repo _ reserved_repo sample_rt completed_repo sample_record]
    by simp
qed

text \<open>
  Terminal repair never rewrites history: on a record that is already terminal it either finds
  exactly the outcome it wants and leaves the records as they are, or raises; and a record bound to
  another operation, or made for another request, is never touched.
\<close>

theorem repair_never_diverges:
  assumes "idem_of s k = Some r" and "ir_operation_id r \<noteq> None"
    and "ir_state r \<noteq> IdPending \<or> ir_operation_id r \<noteq> Some oid \<or> ir_request_fingerprint r \<noteq> fp"
  shows "rp_idempotency (snd (repair_idempotency_terminal rt k oid fp out ev s)) = rp_idempotency s \<and>
     (fst (repair_idempotency_terminal rt k oid fp out ev s) = Inr () \<longleftrightarrow>
        ir_request_fingerprint r = fp \<and> ir_operation_id r = Some oid \<and>
        repair_desired out ev = Inr (ir_state r, ir_result_revision r, ir_result_etag r, ir_error_code r))"
  using assms
  by (auto simp: repair_eq repair_write_def bound_to_def dput_same split: sum.split)

theorem repair_never_diverges_witness:
  "fst (repair_idempotency_terminal sample_rt ''k'' ''op'' ''fp'' ''completed''
      (EvResult \<lparr>fr_revision = 1, fr_etag = ''tag'', fr_checksum = ''c'', fr_applied_at = 9\<rparr>) completed_repo) = Inr ()"
proof -
  let ?r = "the (idem_of completed_repo ''k'')"
  have g: "idem_of completed_repo ''k'' = Some ?r" "ir_operation_id ?r = Some ''op''"
    "ir_state ?r = IdCompleted" "ir_request_fingerprint ?r = ''fp''"
    "(ir_result_revision ?r, ir_result_etag ?r, ir_error_code ?r) = (Some 1, Some ''tag'', None)"
    by code_simp+
  show ?thesis
    using repair_never_diverges [OF g(1), of "''op''" "''fp''" sample_rt "''completed''"
        "EvResult \<lparr>fr_revision = 1, fr_etag = ''tag'', fr_checksum = ''c'', fr_applied_at = 9\<rparr>"] g(2-5)
    by (simp add: repair_desired_def)
qed

text \<open>
  A repair that succeeded can be repeated after a lost response: on a record whose pending form
  carries no result and no error, the second call with the same evidence succeeds and changes
  nothing.
\<close>

theorem repair_is_idempotent:
  assumes "idem_of s k = Some r"
    and "ir_state r = IdPending \<Longrightarrow> ir_result_revision r = None \<and> ir_result_etag r = None \<and> ir_error_code r = None"
    and "repair_idempotency_terminal rt k oid fp out ev s = (Inr (), s1)"
  shows "repair_idempotency_terminal rt k oid fp out ev s1 = (Inr (), s1)"
proof -
  have ok: "ir_request_fingerprint r = fp" "ir_operation_id r \<in> {None, Some oid}"
    and w: "repair_write rt k oid out ev (bound_to oid r)
        (s\<lparr>rp_idempotency := dput k (bound_to oid r) (rp_idempotency s)\<rparr>) = (Inr (), s1)"
    using assms(1,3) by (auto simp: repair_eq split: if_splits)
  then obtain d where d: "repair_desired out ev = Inr d"
    by (auto simp: repair_write_def split: sum.splits)
  have "\<exists>x. idem_of s1 k = Some x \<and> ir_request_fingerprint x = fp \<and> ir_operation_id x = Some oid \<and>
      ir_state x \<noteq> IdPending \<and> d = (ir_state x, ir_result_revision x, ir_result_etag x, ir_error_code x)"
    using w d ok assms(2)
    by (auto simp: repair_write_def repair_desired_def bound_to_def put_idempotency_def
        terminal_idempotency_eq split: if_splits evidence.splits option.splits)
  with d show ?thesis
    by (auto simp: repair_eq repair_write_def bound_to_def dput_same)
qed

theorem repair_is_idempotent_witness:
  "repair_idempotency_terminal sample_rt ''k'' ''op'' ''fp'' ''failed'' (EvError ''boom'')
     (snd (repair_idempotency_terminal sample_rt ''k'' ''op'' ''fp'' ''failed'' (EvError ''boom'') reserved_repo)) =
   (Inr (), snd (repair_idempotency_terminal sample_rt ''k'' ''op'' ''fp'' ''failed'' (EvError ''boom'') reserved_repo))"
proof -
  have "idem_of reserved_repo ''k'' = Some sample_record" by code_simp
  moreover have "fst (repair_idempotency_terminal sample_rt ''k'' ''op'' ''fp'' ''failed'' (EvError ''boom'') reserved_repo) = Inr ()"
    by code_simp
  ultimately show ?thesis
    by (intro repair_is_idempotent [of _ _ sample_record]) (simp_all add: sample_record_def prod_eq_iff)
qed

lemma append_sep_inj:
  "x @ c # u = y @ c # v \<Longrightarrow> c \<notin> set x \<Longrightarrow> c \<notin> set y \<Longrightarrow> x = y \<and> u = v"
proof (induction x arbitrary: y)
  case Nil
  then show ?case by (cases y) auto
next
  case (Cons a x)
  then show ?case by (cases y) auto
qed

text \<open>
  Reservations of different scopes never share a record: where the digest does not collide and
  no tenant, environment or product identifier contains the separator, two equal record identifiers
  come from the same tenant, environment, product and client key.
\<close>

theorem scoped_record_id_injective:
  assumes inj: "inj (\<lambda>x. sha256 rt (PreText x))"
    and sep: "\<forall>x \<in> {t, e, p, t', e', p'}. unit_separator \<notin> set x"
    and ids: "scoped_record_id rt t e p key = Inr i" "scoped_record_id rt t' e' p' key' = Inr i"
  shows "t = t' \<and> e = e' \<and> p = p' \<and> key = key'"
proof -
  obtain h h' where h: "hash_key rt key = Inr h" "hash_key rt key' = Inr h'"
    using ids by (auto simp: scoped_record_id_def split: sum.splits)
  with ids have "t @ unit_separator # e @ unit_separator # ''data_product'' @ unit_separator # p @ unit_separator # h
      = t' @ unit_separator # e' @ unit_separator # ''data_product'' @ unit_separator # p' @ unit_separator # h'"
    by - (rule injD [OF inj], simp add: scoped_record_id_def)
  from append_sep_inj [OF this] sep have 1: "t = t'"
    "e @ unit_separator # ''data_product'' @ unit_separator # p @ unit_separator # h =
     e' @ unit_separator # ''data_product'' @ unit_separator # p' @ unit_separator # h'" by blast+
  from append_sep_inj [OF 1(2)] sep have 2: "e = e'"
    "''data_product'' @ unit_separator # p @ unit_separator # h =
     ''data_product'' @ unit_separator # p' @ unit_separator # h'" by blast+
  then have "p @ unit_separator # h = p' @ unit_separator # h'"
    unfolding same_append_eq by (simp only: list.inject)
  from append_sep_inj [OF this] sep have "p = p'" "h = h'" by blast+
  note this 1(1) 2(1)
  moreover have "sha256 rt (PreText key) = h" "sha256 rt (PreText key') = h'"
    using h by (auto simp: hash_key_def split: if_splits)
  ultimately show ?thesis
    using injD [OF inj, of key key'] by simp
qed

theorem scoped_record_id_injective_witness:
  "scoped_record_id sample_rt ''t'' ''e'' ''p'' ''k1'' \<noteq> scoped_record_id sample_rt ''t'' ''e'' ''p'' ''k2''"
proof
  assume eq: "scoped_record_id sample_rt ''t'' ''e'' ''p'' ''k1'' = scoped_record_id sample_rt ''t'' ''e'' ''p'' ''k2''"
  have "inj (\<lambda>x. sha256 sample_rt (PreText x))" by (rule injI) (simp add: sample_rt_def)
  moreover have "\<forall>x \<in> {''t'', ''e'', ''p'', ''t'', ''e'', ''p''}. unit_separator \<notin> set x"
    by code_simp
  moreover obtain i where "scoped_record_id sample_rt ''t'' ''e'' ''p'' ''k1'' = Inr i"
    by (simp add: scoped_record_id_def hash_key_def)
  ultimately show False
    using scoped_record_id_injective [of sample_rt "''t''" "''e''" "''p''" "''t''" "''e''" "''p''" "''k1''" i "''k2''"] eq
    by simp
qed

end
