(* ===== verification/Events.thy ===== *)
theory Events
  imports Idempotency
begin

text \<open>
  Identifiers, checksums and renderings shared by the services:
  \<open>services/data_products/events.py\<close> (definition checksum, operation identifier),
  \<open>service.py\<close> (\<open>product_etag\<close>), \<open>dependency_events.py\<close> (canonical upstreams, request fingerprint),
  \<open>membership_events.py\<close> (\<open>MembershipMutation\<close>), the checksum helpers of \<open>reconciliation.py\<close>, and the
  \<open>model_dump(mode="json")\<close> and \<open>model_validate\<close> that pydantic derives from the declared fields of
  memberships, proposals and products.

  \<^item> A dumped instant is \<open>PIso\<close>; validation accepts \<open>PIso\<close> and a \<open>datetime\<close> object (\<open>PTime\<close>).
  \<^item> The number 1 given as default of a \<open>float\<close> field is that float.
  \<^item> The fields excluded from a product's rendering are masked.
\<close>

section \<open>Checksums\<close>

definition checksum_of :: "runtime \<Rightarrow> pyval \<Rightarrow> string" where
  "checksum_of rt v = sha256 rt (PreJson (canon v))"

definition masked :: "product \<Rightarrow> product" where
  "masked p = p\<lparr>pr_etag := [], pr_updated_at := 0\<rparr>"

definition definition_checksum :: "runtime \<Rightarrow> product \<Rightarrow> string" where
  "definition_checksum rt p = sha256 rt (PreProduct (masked p))"

definition product_etag :: "runtime \<Rightarrow> product \<Rightarrow> string" where
  "product_etag rt p = [CHR 0x22] @ sha256 rt (PreModel (masked p)) @ [CHR 0x22]"

definition nul :: char where
  "nul = CHR 0x00"

definition event_operation_id :: "runtime \<Rightarrow> string \<Rightarrow> string \<Rightarrow> string \<Rightarrow> int \<Rightarrow> string \<Rightarrow> py_error + string" where
  "event_operation_id rt tenant_id environment product_id revision idempotency_key =
     (if idempotency_key = [] then Inl (ValueError ''idempotency key is required'')
      else Inr (sha256 rt (PreText (join_with nul
        [''v1'', tenant_id, environment, product_id, int_str revision, idempotency_key]))))"

definition edge_checksum :: "runtime \<Rightarrow> dep_edge \<Rightarrow> string" where
  "edge_checksum rt ed = sha256 rt (PreEdge ed)"

definition snapshot_checksum :: "runtime \<Rightarrow> dep_edge list \<Rightarrow> string" where
  "snapshot_checksum rt edges =
     sha256 rt (PreText (join_with nul (map (edge_checksum rt) (sort_key ed_upstream_product_id edges))))"

section \<open>Dependency requests\<close>

definition max_dependencies_per_product :: int where
  "max_dependencies_per_product = 10000"

definition canonical_upstream_ids :: "string \<Rightarrow> string list \<Rightarrow> int \<Rightarrow> py_error + string list" where
  "canonical_upstream_ids product_id values maximum =
     (let stripped = map strip values in
      if list_ex (\<lambda>v. v = []) stripped then Inl (ValueError ''upstream product IDs must not be whitespace-only'')
      else
        (let normalized = sorted_set stripped in
         if product_id \<in> set normalized then Inl (ValueError ''self dependency is not allowed'')
         else if maximum < int (length normalized) then Inl (ValueError ''dependency_count_exceeded'')
         else Inr normalized))"

definition dependency_request_fingerprint ::
  "runtime \<Rightarrow> string \<Rightarrow> string \<Rightarrow> string \<Rightarrow> string list \<Rightarrow> string \<Rightarrow> string \<Rightarrow> string \<Rightarrow> py_error + string" where
  "dependency_request_fingerprint rt tenant_id environment product_id upstream_product_ids actor reason
       expected_product_etag =
     (case canonical_upstream_ids product_id upstream_product_ids max_dependencies_per_product of
        Inl e \<Rightarrow> Inl e
      | Inr ids \<Rightarrow> Inr (sha256 rt (PreJson (canon (PDict
          [(''actor'', PStr (strip actor)),
           (''environment'', PStr environment),
           (''expected_product_etag'', PStr expected_product_etag),
           (''product_id'', PStr product_id),
           (''reason'', PStr (strip reason)),
           (''tenant_id'', PStr tenant_id),
           (''upstream_product_ids'', PList (map PStr ids))])))))"

section \<open>Membership mutations\<close>

record mutation =
  mm_tenant_id :: string
  mm_environment :: string
  mm_product_id :: string
  mm_action :: decision_action
  mm_actor :: string
  mm_reason :: string
  mm_idempotency_key :: string
  mm_body :: payload
  mm_expected_etag :: "string option"
  mm_expected_revision :: "int option"

fun action_str :: "decision_action \<Rightarrow> string" where
  "action_str DcAdd = ''add''"
| "action_str DcAccept = ''accept''"
| "action_str DcReject = ''reject''"
| "action_str DcExpire = ''expire''"
| "action_str DcSupersede = ''supersede''"
| "action_str DcExclude = ''exclude''"

fun outcome_str :: "outcome \<Rightarrow> string" where
  "outcome_str OcPending = ''pending''"
| "outcome_str OcApplied = ''applied''"
| "outcome_str OcSuperseded = ''superseded''"
| "outcome_str OcFailed = ''failed''"

definition mutation_fingerprint :: "runtime \<Rightarrow> mutation \<Rightarrow> string" where
  "mutation_fingerprint rt m =
     request_fingerprint rt (mm_tenant_id m) (mm_environment m) (mm_product_id m)
       (action_str (mm_action m)) (PDict (mm_body m)) (mm_actor m) (mm_reason m)
       (case mm_expected_etag m of
          Some (c # cs) \<Rightarrow> Some (c # cs)
        | _ \<Rightarrow> map_option int_str (mm_expected_revision m))"

definition mutation_operation_id :: "runtime \<Rightarrow> mutation \<Rightarrow> py_error + string" where
  "mutation_operation_id rt m =
     (case hash_key rt (mm_idempotency_key m) of
        Inl e \<Rightarrow> Inl e
      | Inr h \<Rightarrow> Inr (sha256 rt (PreText (join_with nul
          [mm_tenant_id m, mm_environment m, mm_product_id m, h]))))"

definition lift_result :: "(py_error + 'a) \<Rightarrow> ('s, 'a) py" where
  "lift_result x = (case x of Inl e \<Rightarrow> raise e | Inr v \<Rightarrow> ret v)"

definition mutation_event ::
  "runtime \<Rightarrow> mutation \<Rightarrow> outcome \<Rightarrow> string option \<Rightarrow> string option \<Rightarrow> int option \<Rightarrow> string option \<Rightarrow>
   string option \<Rightarrow> decision rp" where
  "mutation_event rt m out proposal_id membership_id result_revision result_etag error_code =
     bindp (utc_now rt) (\<lambda>now.
     bindp (lift_result (mutation_operation_id rt m)) (\<lambda>oid.
     bindp (lift_result (hash_key rt (mm_idempotency_key m))) (\<lambda>h.
     ret \<lparr>de_decision_id = sha256 rt (PreText (oid @ '':'' @ outcome_str out)),
          de_tenant_id = mm_tenant_id m, de_environment = mm_environment m, de_product_id = mm_product_id m,
          de_proposal_id = proposal_id, de_membership_id = membership_id, de_decision = mm_action m,
          de_operation_id = Some oid, de_outcome = out, de_actor = mm_actor m, de_reason = mm_reason m,
          de_idempotency_key_hash = h, de_request_fingerprint = mutation_fingerprint rt m,
          de_expected_revision = mm_expected_revision m, de_result_revision = result_revision,
          de_result_etag = result_etag, de_error_code = error_code, de_decided_at = now, de_occurred_at = now,
          de_applied_at = (if out \<noteq> OcPending then Some now else None), de_schema_version = ''v1''\<rparr>)))"

section \<open>Renderings\<close>

fun source_str :: "member_source \<Rightarrow> string" where
  "source_str SrManual = ''manual''"
| "source_str SrLineage = ''lineage''"
| "source_str SrDependency = ''dependency''"
| "source_str SrImport = ''import''"
| "source_str SrProposal = ''proposal''"

fun membership_state_str :: "membership_state \<Rightarrow> string" where
  "membership_state_str MsActive = ''active''"
| "membership_state_str MsExcluded = ''excluded''"
| "membership_state_str MsRemoved = ''removed''"

fun proposal_source_str :: "proposal_source \<Rightarrow> string" where
  "proposal_source_str PrLineage = ''lineage''"
| "proposal_source_str PrDependency = ''dependency''"
| "proposal_source_str PrImport = ''import''"

fun lifecycle_str :: "lifecycle \<Rightarrow> string" where
  "lifecycle_str LcDraft = ''draft''"
| "lifecycle_str LcActive = ''active''"
| "lifecycle_str LcDeprecated = ''deprecated''"
| "lifecycle_str LcArchived = ''archived''"

definition opt_int :: "int option \<Rightarrow> pyval" where
  "opt_int x = (case x of None \<Rightarrow> PNone | Some i \<Rightarrow> PInt i)"

definition opt_iso :: "datetime option \<Rightarrow> pyval" where
  "opt_iso x = (case x of None \<Rightarrow> PNone | Some t \<Rightarrow> PIso t)"

definition membership_dump :: "membership \<Rightarrow> payload" where
  "membership_dump m =
     [(''membership_id'', PStr (me_membership_id m)),
      (''product_id'', PStr (me_product_id m)),
      (''tenant_id'', PStr (me_tenant_id m)),
      (''environment'', PStr (me_environment m)),
      (''entity_id'', PStr (me_entity_id m)),
      (''entity_type'', PStr (me_entity_type m)),
      (''source'', PStr (source_str (me_source m))),
      (''state'', PStr (membership_state_str (me_state m))),
      (''proposal_id'', opt_str (me_proposal_id m)),
      (''evidence_refs'', PList (map PStr (me_evidence_refs m))),
      (''confidence'', PFloat (me_confidence m)),
      (''source_coverage'', PFloat (me_source_coverage m)),
      (''observed_at'', PIso (me_observed_at m)),
      (''created_at'', PIso (me_created_at m)),
      (''updated_at'', PIso (me_updated_at m)),
      (''created_by'', PStr (me_created_by m)),
      (''excluded_at'', opt_iso (me_excluded_at m)),
      (''excluded_by'', opt_str (me_excluded_by m)),
      (''exclusion_reason'', opt_str (me_exclusion_reason m)),
      (''revision'', PInt (me_revision m)),
      (''etag'', PStr (me_etag m)),
      (''schema_version'', PStr (me_schema_version m))]"

definition proposal_dump :: "proposal \<Rightarrow> payload" where
  "proposal_dump v =
     [(''proposal_id'', PStr (pp_proposal_id v)),
      (''product_id'', PStr (pp_product_id v)),
      (''tenant_id'', PStr (pp_tenant_id v)),
      (''environment'', PStr (pp_environment v)),
      (''entity_id'', PStr (pp_entity_id v)),
      (''entity_type'', PStr (pp_entity_type v)),
      (''source'', PStr (proposal_source_str (pp_source v))),
      (''state'', PStr (proposal_state_str (pp_state v))),
      (''evidence_refs'', PList (map PStr (pp_evidence_refs v))),
      (''confidence'', PFloat (pp_confidence v)),
      (''source_coverage'', PFloat (pp_source_coverage v)),
      (''missing_inputs'', PList (map PStr (pp_missing_inputs v))),
      (''truncated'', PBool (pp_truncated v)),
      (''observed_at'', PIso (pp_observed_at v)),
      (''created_at'', PIso (pp_created_at v)),
      (''expires_at'', PIso (pp_expires_at v)),
      (''proposal_revision'', PInt (pp_proposal_revision v)),
      (''schema_version'', PStr (pp_schema_version v))]"

section \<open>Validation of a membership\<close>

text \<open>Field readers: \<open>None\<close> is a validation failure.\<close>

definition str_field :: "pyval option \<Rightarrow> string option \<Rightarrow> string option" where
  "str_field v dflt = (case v of None \<Rightarrow> dflt | Some (PStr s) \<Rightarrow> Some s | _ \<Rightarrow> None)"

definition opt_str_field :: "pyval option \<Rightarrow> string option option" where
  "opt_str_field v = (case v of
      None \<Rightarrow> Some None | Some PNone \<Rightarrow> Some None | Some (PStr s) \<Rightarrow> Some (Some s) | _ \<Rightarrow> None)"

definition time_value :: "pyval \<Rightarrow> datetime option" where
  "time_value v = (case v of PIso t \<Rightarrow> Some t | PTime t \<Rightarrow> Some t | _ \<Rightarrow> None)"

definition opt_time_field :: "pyval option \<Rightarrow> datetime option option" where
  "opt_time_field v = (case v of
      None \<Rightarrow> Some None | Some PNone \<Rightarrow> Some None | Some x \<Rightarrow> map_option Some (time_value x))"

definition unit_field :: "pyval option \<Rightarrow> rat option" where
  "unit_field v = (case v of
      None \<Rightarrow> Some 1
    | Some (PFloat x) \<Rightarrow> if 0 \<le> x \<and> x \<le> 1 then Some x else None
    | Some (PInt i) \<Rightarrow> if 0 \<le> i \<and> i \<le> 1 then Some (rat_of_int i) else None
    | _ \<Rightarrow> None)"

definition revision_field :: "pyval option \<Rightarrow> int option" where
  "revision_field v = (case v of
      None \<Rightarrow> Some 1 | Some (PInt i) \<Rightarrow> if 1 \<le> i then Some i else None | _ \<Rightarrow> None)"

fun str_value :: "pyval \<Rightarrow> string option" where
  "str_value (PStr s) = Some s"
| "str_value _ = None"

definition refs_field :: "pyval option \<Rightarrow> string list option" where
  "refs_field v = (case v of
      None \<Rightarrow> Some []
    | Some (PList vs) \<Rightarrow>
        if list_all (\<lambda>x. str_value x \<noteq> None) vs \<and> length vs \<le> 50 then Some (map (the \<circ> str_value) vs) else None
    | _ \<Rightarrow> None)"

definition source_field :: "pyval option \<Rightarrow> member_source option" where
  "source_field v = (case str_field v None of
      None \<Rightarrow> None
    | Some s \<Rightarrow> find (\<lambda>x. source_str x = s) [SrManual, SrLineage, SrDependency, SrImport, SrProposal])"

definition membership_state_field :: "pyval option \<Rightarrow> membership_state option" where
  "membership_state_field v = (case str_field v (Some ''active'') of
      None \<Rightarrow> None
    | Some s \<Rightarrow> find (\<lambda>x. membership_state_str x = s) [MsActive, MsExcluded, MsRemoved])"

definition membership_fields :: "string list" where
  "membership_fields =
     [''membership_id'', ''product_id'', ''tenant_id'', ''environment'', ''entity_id'', ''entity_type'',
      ''source'', ''state'', ''proposal_id'', ''evidence_refs'', ''confidence'', ''source_coverage'',
      ''observed_at'', ''created_at'', ''updated_at'', ''created_by'', ''excluded_at'', ''excluded_by'',
      ''exclusion_reason'', ''revision'', ''etag'', ''schema_version'']"

definition membership_of :: "payload \<Rightarrow> datetime \<Rightarrow> datetime \<Rightarrow> membership option" where
  "membership_of p created updated =
     Option.bind (str_field (dget p ''membership_id'') None) (\<lambda>membership_id.
     Option.bind (str_field (dget p ''product_id'') None) (\<lambda>product_id.
     Option.bind (str_field (dget p ''tenant_id'') None) (\<lambda>tenant_id.
     Option.bind (str_field (dget p ''environment'') None) (\<lambda>environment.
     Option.bind (str_field (dget p ''entity_id'') None) (\<lambda>entity_id.
     Option.bind (str_field (dget p ''entity_type'') None) (\<lambda>entity_type.
     Option.bind (source_field (dget p ''source'')) (\<lambda>source.
     Option.bind (membership_state_field (dget p ''state'')) (\<lambda>state.
     Option.bind (opt_str_field (dget p ''proposal_id'')) (\<lambda>proposal_id.
     Option.bind (refs_field (dget p ''evidence_refs'')) (\<lambda>evidence_refs.
     Option.bind (unit_field (dget p ''confidence'')) (\<lambda>confidence.
     Option.bind (unit_field (dget p ''source_coverage'')) (\<lambda>source_coverage.
     Option.bind (Option.bind (dget p ''observed_at'') time_value) (\<lambda>observed_at.
     Option.bind (str_field (dget p ''created_by'') None) (\<lambda>created_by.
     Option.bind (opt_time_field (dget p ''excluded_at'')) (\<lambda>excluded_at.
     Option.bind (opt_str_field (dget p ''excluded_by'')) (\<lambda>excluded_by.
     Option.bind (opt_str_field (dget p ''exclusion_reason'')) (\<lambda>exclusion_reason.
     Option.bind (revision_field (dget p ''revision'')) (\<lambda>revision.
     Option.bind (str_field (dget p ''etag'') None) (\<lambda>etag.
     Option.bind (str_field (dget p ''schema_version'') (Some ''v1'')) (\<lambda>schema_version.
     Some \<lparr>me_membership_id = membership_id, me_product_id = product_id, me_tenant_id = tenant_id,
           me_environment = environment, me_entity_id = entity_id, me_entity_type = entity_type,
           me_source = source, me_state = state, me_proposal_id = proposal_id,
           me_evidence_refs = evidence_refs, me_confidence = confidence,
           me_source_coverage = source_coverage, me_observed_at = observed_at, me_created_at = created,
           me_updated_at = updated, me_created_by = created_by, me_excluded_at = excluded_at,
           me_excluded_by = excluded_by, me_exclusion_reason = exclusion_reason, me_revision = revision,
           me_etag = etag, me_schema_version = schema_version\<rparr>))))))))))))))))))))"

text \<open>A time field with \<open>default_factory=utc_now\<close>.\<close>

definition default_time :: "runtime \<Rightarrow> pyval option \<Rightarrow> datetime rp" where
  "default_time rt v = (case v of
      None \<Rightarrow> utc_now rt
    | Some x \<Rightarrow> (case time_value x of None \<Rightarrow> raise ValidationError | Some t \<Rightarrow> ret t))"

definition membership_validate :: "runtime \<Rightarrow> pyval \<Rightarrow> membership rp" where
  "membership_validate rt v = (case v of
      PDict p \<Rightarrow>
        if \<not> list_all (\<lambda>kv. fst kv \<in> set membership_fields) p then raise ValidationError
        else bindp (default_time rt (dget p ''created_at'')) (\<lambda>created.
             bindp (default_time rt (dget p ''updated_at'')) (\<lambda>updated.
             case membership_of p created updated of None \<Rightarrow> raise ValidationError | Some m \<Rightarrow> ret m))
    | _ \<Rightarrow> raise ValidationError)"

section \<open>Validation of a product\<close>

text \<open>
  The dump of a product is \<open>PProduct\<close>; validating it checks the declared bounds and the outputs.
\<close>

definition product_fields_ok :: "product \<Rightarrow> bool" where
  "product_fields_ok p \<longleftrightarrow> 1 \<le> pr_revision p \<and>
     list_all (\<lambda>m. 0 \<le> mb_confidence m \<and> mb_confidence m \<le> 1) (pr_members p) \<and>
     list_all (\<lambda>x. 0 \<le> sl_objective x \<and> sl_objective x \<le> 1 \<and> 0 \<le> sl_weight x \<and> 1 \<le> sl_revision x) (pr_slos p)"

definition product_validate :: "pyval \<Rightarrow> py_error + product" where
  "product_validate v = (case v of
      PProduct p \<Rightarrow>
        if \<not> product_fields_ok p then Inl ValidationError
        else (case unique_outputs (pr_outputs p) of Inl _ \<Rightarrow> Inl ValidationError | Inr _ \<Rightarrow> Inr p)
    | _ \<Rightarrow> Inl ValidationError)"

section \<open>Properties\<close>

definition membership_ok :: "membership \<Rightarrow> bool" where
  "membership_ok m \<longleftrightarrow> length (me_evidence_refs m) \<le> 50 \<and> 0 \<le> me_confidence m \<and> me_confidence m \<le> 1 \<and>
     0 \<le> me_source_coverage m \<and> me_source_coverage m \<le> 1 \<and> 1 \<le> me_revision m"

lemma find_source [simp]:
  "find (\<lambda>x. source_str x = source_str y) [SrManual, SrLineage, SrDependency, SrImport, SrProposal] = Some y"
  by (cases y) simp_all

lemma find_membership_state [simp]:
  "find (\<lambda>x. membership_state_str x = membership_state_str y) [MsActive, MsExcluded, MsRemoved] = Some y"
  by (cases y) simp_all

lemma refs_field_map [simp]: "length xs \<le> 50 \<Longrightarrow> refs_field (Some (PList (map PStr xs))) = Some xs"
  by (simp add: refs_field_def list_all_iff comp_def)

lemma field_readers [simp]:
  "str_field (Some (PStr s)) d = Some s"
  "opt_str_field (Some (opt_str x)) = Some x"
  "opt_time_field (Some (opt_iso t)) = Some t"
  "time_value (PIso u) = Some u"
  "0 \<le> c \<Longrightarrow> c \<le> 1 \<Longrightarrow> unit_field (Some (PFloat c)) = Some c"
  "1 \<le> i \<Longrightarrow> revision_field (Some (PInt i)) = Some i"
  "source_field (Some (PStr (source_str y))) = Some y"
  "membership_state_field (Some (PStr (membership_state_str z))) = Some z"
  by (simp_all add: str_field_def opt_str_field_def opt_str_def opt_time_field_def opt_iso_def time_value_def
      unit_field_def revision_field_def source_field_def membership_state_field_def split: option.split
      del: find.simps)

lemma membership_of_dump:
  "membership_ok m \<Longrightarrow> membership_of (membership_dump m) (me_created_at m) (me_updated_at m) = Some m"
  by (simp add: membership_of_def membership_dump_def membership_ok_def)

lemma membership_validate_dump:
  assumes "membership_ok m"
  shows "membership_validate rt (PDict (membership_dump m)) s = (Inr m, s)"
proof -
  have "list_all (\<lambda>kv. fst kv \<in> set membership_fields) (membership_dump m)"
    by (simp add: membership_dump_def membership_fields_def)
  moreover have "dget (membership_dump m) ''created_at'' = Some (PIso (me_created_at m))"
    "dget (membership_dump m) ''updated_at'' = Some (PIso (me_updated_at m))"
    by (simp_all add: membership_dump_def)
  ultimately show ?thesis
    using membership_of_dump [OF assms]
    by (simp add: membership_validate_def default_time_def py_simps)
qed

lemma bind_SomeE:
  assumes "Option.bind x f = Some y"
  obtains z where "x = Some z" and "f z = Some y"
  using assms by (cases x) auto

lemma unit_field_bounds: "unit_field v = Some x \<Longrightarrow> 0 \<le> x \<and> x \<le> 1"
  by (auto simp: unit_field_def split: option.splits pyval.splits if_splits)

lemma revision_field_bounds: "revision_field v = Some i \<Longrightarrow> 1 \<le> i"
  by (auto simp: revision_field_def split: option.splits pyval.splits if_splits)

lemma refs_field_bounds: "refs_field v = Some xs \<Longrightarrow> length xs \<le> 50"
  by (auto simp: refs_field_def split: option.splits pyval.splits if_splits)

lemma membership_of_ok: "membership_of p created updated = Some m \<Longrightarrow> membership_ok m"
  unfolding membership_of_def
  by (elim bind_SomeE) (auto simp: membership_ok_def dest: unit_field_bounds revision_field_bounds refs_field_bounds)

lemma membership_validate_ok: "membership_validate rt v s = (Inr m, s') \<Longrightarrow> membership_ok m"
  by (auto simp: membership_validate_def py_simps dest: membership_of_ok
      split: pyval.splits if_splits option.splits prod.splits sum.splits)

text \<open>
  C35. A membership that validation returns is well typed: at most fifty evidence references, confidence
  and coverage between zero and one, a positive revision. Dumping it and validating the dump again
  gives the same membership, reads no clock and writes nothing.
\<close>

theorem validated_membership_is_canonical:
  assumes "membership_validate rt v s = (Inr m, s')"
  shows "membership_ok m \<and> membership_validate rt (PDict (membership_dump m)) s2 = (Inr m, s2)"
  using membership_validate_ok [OF assms] by (simp add: membership_validate_dump)

text \<open>A payload that leaves the optional fields to their defaults.\<close>

definition partial_payload :: payload where
  "partial_payload = [(''membership_id'', PStr ''m''), (''product_id'', PStr ''p''), (''tenant_id'', PStr ''t''),
     (''environment'', PStr ''e''), (''entity_id'', PStr ''x''), (''entity_type'', PStr ''asset''),
     (''source'', PStr ''manual''), (''confidence'', PInt 1), (''observed_at'', PIso 4),
     (''created_by'', PStr ''u''), (''etag'', PStr ''tag'')]"

theorem validated_membership_is_canonical_witness:
  "case membership_validate sample_rt (PDict partial_payload) empty_repo of
     (Inr m, s) \<Rightarrow> me_confidence m = 1 \<and> membership_ok m \<and>
       membership_validate sample_rt (PDict (membership_dump m)) empty_repo = (Inr m, empty_repo)
   | (Inl _, _) \<Rightarrow> False"
proof -
  have run: "case membership_validate sample_rt (PDict partial_payload) empty_repo of
      (Inr m, s) \<Rightarrow> me_confidence m = 1 | (Inl _, _) \<Rightarrow> False" by code_simp
  show ?thesis
    using run validated_membership_is_canonical [of sample_rt "PDict partial_payload" empty_repo]
    by (auto split: prod.splits sum.splits)
qed

end
