(* ===== verification/RepositoryEvolution.thy ===== *)
theory RepositoryEvolution
  imports Events
begin

text \<open>
  One relation for everything the repository promises about its stores over time: \<open>repo_evolve\<close>.
  Operation states evolve as in \<open>OperationClaims\<close>, reservations as in \<open>Idempotency\<close>; history, plans,
  results, decisions and dependency evidence are append-only; a dependency edge only gives way to a
  later product revision; a membership only to a later revision of itself; a proposal leaves the
  state \<open>proposed\<close> once; a product operation keeps its target and checksum.

  Every method of the memory repository that the services call is shown to respect it (apart from
  \<open>add_operation_state\<close>, \<open>complete_idempotency\<close> and \<open>save_dependencies\<close>, which overwrite), so that
  the fact holds of every program composed of them.
\<close>

section \<open>The stores\<close>

abbreviation history_of :: "repo \<Rightarrow> string \<Rightarrow> history_event option" where
  "history_of s \<equiv> dget (rp_operation_history s)"

abbreviation plan_of :: "repo \<Rightarrow> string \<times> string \<times> string \<times> string \<Rightarrow> op_plan option" where
  "plan_of s \<equiv> dget (rp_operation_plans s)"

abbreviation result_of :: "repo \<Rightarrow> string \<times> string \<times> string \<times> string \<Rightarrow> result_envelope option" where
  "result_of s \<equiv> dget (rp_operation_results s)"

abbreviation decision_of :: "repo \<Rightarrow> string \<times> string \<times> string \<times> string \<Rightarrow> decision option" where
  "decision_of s \<equiv> dget (rp_decisions s)"

abbreviation dep_plan_of :: "repo \<Rightarrow> string \<Rightarrow> dep_plan option" where
  "dep_plan_of s \<equiv> dget (rp_dependency_plans s)"

abbreviation dep_result_of :: "repo \<Rightarrow> string \<Rightarrow> dep_result option" where
  "dep_result_of s \<equiv> dget (rp_dependency_results s)"

abbreviation edge_of :: "repo \<Rightarrow> string \<times> string \<times> string \<times> string \<Rightarrow> dep_edge option" where
  "edge_of s \<equiv> dget (rp_dependencies s)"

abbreviation membership_at :: "repo \<Rightarrow> string \<times> string \<times> string \<times> string \<Rightarrow> membership option" where
  "membership_at s \<equiv> dget (rp_memberships s)"

abbreviation proposal_at :: "repo \<Rightarrow> string \<times> string \<times> string \<times> string \<times> int \<Rightarrow> proposal option" where
  "proposal_at s \<equiv> dget (rp_proposals s)"

abbreviation operation_of :: "repo \<Rightarrow> string \<Rightarrow> (revision_event \<times> product) option" where
  "operation_of s \<equiv> dget (rp_operations s)"

definition edge_evolve :: "dep_edge \<Rightarrow> dep_edge \<Rightarrow> bool" where
  "edge_evolve a b \<longleftrightarrow> a = b \<or> ed_product_revision a < ed_product_revision b"

definition member_evolve :: "membership \<Rightarrow> membership \<Rightarrow> bool" where
  "member_evolve a b \<longleftrightarrow> a = b \<or>
     me_revision a < me_revision b \<and> me_entity_id a = me_entity_id b \<and> me_entity_type a = me_entity_type b \<and>
     me_created_at a = me_created_at b \<and> me_created_by a = me_created_by b \<and> me_proposal_id a = me_proposal_id b"

definition proposal_evolve :: "proposal \<Rightarrow> proposal \<Rightarrow> bool" where
  "proposal_evolve a b \<longleftrightarrow> a = b \<or> pp_state a = PsProposed \<and> b = a\<lparr>pp_state := pp_state b\<rparr>"

definition operation_evolve :: "revision_event \<times> product \<Rightarrow> revision_event \<times> product \<Rightarrow> bool" where
  "operation_evolve a b \<longleftrightarrow> snd a = snd b \<and> ev_definition_checksum (fst a) = ev_definition_checksum (fst b)"

interpretation hist: store_order history_of "(=)" by unfold_locales auto
interpretation plans: store_order plan_of "(=)" by unfold_locales auto
interpretation results: store_order result_of "(=)" by unfold_locales auto
interpretation decisions: store_order decision_of "(=)" by unfold_locales auto
interpretation dplans: store_order dep_plan_of "(=)" by unfold_locales auto
interpretation dresults: store_order dep_result_of "(=)" by unfold_locales auto
interpretation edges: store_order edge_of edge_evolve by unfold_locales (auto simp: edge_evolve_def)
interpretation members: store_order membership_at member_evolve by unfold_locales (auto simp: member_evolve_def)

text \<open>Proposals are stored under their own key; the transitions rely on it.\<close>

definition proposals_inv :: "repo \<Rightarrow> bool" where
  "proposals_inv s \<longleftrightarrow> distinct (map fst (rp_proposals s)) \<and> (\<forall>(k, v) \<in> set (rp_proposals s). pp_key v = k)"

definition proposals_evolve :: "repo \<Rightarrow> repo \<Rightarrow> bool" where
  "proposals_evolve s s' \<longleftrightarrow>
     (proposals_inv s \<longrightarrow> proposals_inv s' \<and> store_evolve proposal_at proposal_evolve s s')"

interpretation proposal_store: store_order proposal_at proposal_evolve
  by unfold_locales (auto simp: proposal_evolve_def)

interpretation proposals: step_order proposals_evolve
  by unfold_locales (auto simp: proposals_evolve_def intro: proposal_store.step_refl proposal_store.step_trans)

lemma proposals_frame: "rp_proposals s' = rp_proposals s \<Longrightarrow> proposals_evolve s s'"
  by (simp add: proposals_evolve_def proposals_inv_def proposal_store.frame)

lemma proposals_put:
  assumes "proposals_inv s \<Longrightarrow> pp_key v = k" and "\<And>x. proposals_inv s \<Longrightarrow> proposal_at s k = Some x \<Longrightarrow> proposal_evolve x v"
  shows "proposals_evolve s (s\<lparr>rp_proposals := dput k v (rp_proposals s)\<rparr>)"
proof -
  let ?s' = "s\<lparr>rp_proposals := dput k v (rp_proposals s)\<rparr>"
  have "proposals_inv ?s' \<and> store_evolve proposal_at proposal_evolve s ?s'" if inv: "proposals_inv s"
  proof
    show "proposals_inv ?s'"
      using inv assms(1) [OF inv] set_dput_subset [of k v "rp_proposals s"]
      by (auto simp: proposals_inv_def distinct_dput)
    show "store_evolve proposal_at proposal_evolve s ?s'"
      using assms(2) [OF inv] by (intro proposal_store.put [of _ _ k]) (auto simp: fun_eq_iff)
  qed
  then show ?thesis by (simp add: proposals_evolve_def)
qed

interpretation prodops: store_order operation_of operation_evolve
  by unfold_locales (auto simp: operation_evolve_def)

section \<open>The relation\<close>

definition evidence_evolve :: "repo \<Rightarrow> repo \<Rightarrow> bool" where
  "evidence_evolve s s' \<longleftrightarrow>
     store_evolve history_of (=) s s' \<and> store_evolve plan_of (=) s s' \<and> store_evolve result_of (=) s s' \<and>
     store_evolve decision_of (=) s s' \<and> store_evolve dep_plan_of (=) s s' \<and> store_evolve dep_result_of (=) s s' \<and>
     store_evolve edge_of edge_evolve s s' \<and> store_evolve membership_at member_evolve s s' \<and>
     proposals_evolve s s' \<and> store_evolve operation_of operation_evolve s s'"

definition repo_evolve :: "repo \<Rightarrow> repo \<Rightarrow> bool" where
  "repo_evolve s s' \<longleftrightarrow> ops_evolve s s' \<and> idem_evolve s s' \<and> evidence_evolve s s'"

lemmas store_frames = hist.frame plans.frame results.frame decisions.frame dplans.frame dresults.frame
  edges.frame members.frame proposals_frame prodops.frame idem.frame ops_evolve_frame

lemmas store_refls = hist.step_refl plans.step_refl results.step_refl decisions.step_refl dplans.step_refl
  dresults.step_refl edges.step_refl members.step_refl proposals.step_refl prodops.step_refl

lemmas evolve_defs = repo_evolve_def evidence_evolve_def

interpretation evid: step_order evidence_evolve
proof
  show "evidence_evolve s s" for s
    by (simp add: evidence_evolve_def store_refls)
  show "evidence_evolve s u" if "evidence_evolve s t" and "evidence_evolve t u" for s t u
    using that unfolding evidence_evolve_def
    by (blast intro: hist.step_trans plans.step_trans results.step_trans decisions.step_trans
        dplans.step_trans dresults.step_trans edges.step_trans members.step_trans proposals.step_trans
        prodops.step_trans)
qed

interpretation repo: step_order repo_evolve
proof
  show "repo_evolve s s" for s
    by (simp add: repo_evolve_def ops.step_refl idem.step_refl evid.step_refl)
  show "repo_evolve s u" if "repo_evolve s t" and "repo_evolve t u" for s t u
    using that unfolding repo_evolve_def
    by (blast intro: ops.step_trans idem.step_trans evid.step_trans)
qed

section \<open>Writes to one store\<close>

lemma repo_evolve_ticks: "repo_evolve s (s\<lparr>rp_ticks := n\<rparr>)"
  by (simp add: evolve_defs store_frames)

lemma repo_evolve_items: "repo_evolve s (s\<lparr>rp_items := x\<rparr>)"
  by (simp add: evolve_defs store_frames)

lemma repo_evolve_revisions: "repo_evolve s (s\<lparr>rp_revisions := x\<rparr>)"
  by (simp add: evolve_defs store_frames)

lemma repo_evolve_history:
  "history_of s (he_event_id e) \<in> {None, Some e} \<Longrightarrow>
   repo_evolve s (s\<lparr>rp_operation_history := dput (he_event_id e) e (rp_operation_history s)\<rparr>)"
  by (auto simp: evolve_defs store_frames fun_eq_iff intro!: hist.put)

lemma repo_evolve_plan:
  "plan_of s k \<in> {None, Some p} \<Longrightarrow> repo_evolve s (s\<lparr>rp_operation_plans := dput k p (rp_operation_plans s)\<rparr>)"
  by (auto simp: evolve_defs store_frames fun_eq_iff intro!: plans.put [of _ _ k])

lemma repo_evolve_result:
  "result_of s k \<in> {None, Some p} \<Longrightarrow> repo_evolve s (s\<lparr>rp_operation_results := dput k p (rp_operation_results s)\<rparr>)"
  by (auto simp: evolve_defs store_frames fun_eq_iff intro!: results.put [of _ _ k])

lemma repo_evolve_decision:
  "decision_of s k \<in> {None, Some p} \<Longrightarrow> repo_evolve s (s\<lparr>rp_decisions := dput k p (rp_decisions s)\<rparr>)"
  by (auto simp: evolve_defs store_frames fun_eq_iff intro!: decisions.put [of _ _ k])

lemma repo_evolve_dep_plan:
  "dep_plan_of s k \<in> {None, Some p} \<Longrightarrow> repo_evolve s (s\<lparr>rp_dependency_plans := dput k p (rp_dependency_plans s)\<rparr>)"
  by (auto simp: evolve_defs store_frames fun_eq_iff intro!: dplans.put [of _ _ k])

lemma repo_evolve_dep_result:
  "dep_result_of s k \<in> {None, Some p} \<Longrightarrow>
   repo_evolve s (s\<lparr>rp_dependency_results := dput k p (rp_dependency_results s)\<rparr>)"
  by (auto simp: evolve_defs store_frames fun_eq_iff intro!: dresults.put [of _ _ k])

lemma repo_evolve_edge:
  "(\<And>x. edge_of s k = Some x \<Longrightarrow> edge_evolve x ed) \<Longrightarrow>
   repo_evolve s (s\<lparr>rp_dependencies := dput k ed (rp_dependencies s)\<rparr>)"
  by (auto simp: evolve_defs store_frames fun_eq_iff intro!: edges.put [of _ _ k])

lemma repo_evolve_member:
  "(\<And>x. membership_at s k = Some x \<Longrightarrow> member_evolve x m) \<Longrightarrow>
   repo_evolve s (s\<lparr>rp_memberships := dput k m (rp_memberships s)\<rparr>)"
  by (auto simp: evolve_defs store_frames fun_eq_iff intro!: members.put [of _ _ k])

lemma repo_evolve_proposal:
  "(proposals_inv s \<Longrightarrow> pp_key v = k) \<Longrightarrow> (\<And>x. proposals_inv s \<Longrightarrow> proposal_at s k = Some x \<Longrightarrow> proposal_evolve x v) \<Longrightarrow>
   repo_evolve s (s\<lparr>rp_proposals := dput k v (rp_proposals s)\<rparr>)"
  by (auto simp: evolve_defs store_frames fun_eq_iff intro!: proposals_put)

lemma repo_evolve_operation:
  "(\<And>x. operation_of s k = Some x \<Longrightarrow> operation_evolve x v) \<Longrightarrow>
   repo_evolve s (s\<lparr>rp_operations := dput k v (rp_operations s)\<rparr>)"
  by (auto simp: evolve_defs store_frames fun_eq_iff intro!: prodops.put [of _ _ k])

section \<open>Methods that write one kind of store\<close>

definition only_states :: "repo \<Rightarrow> repo \<Rightarrow> bool" where
  "only_states s s' \<longleftrightarrow> (\<exists>x n. s' = s\<lparr>rp_operation_states := x, rp_ticks := n\<rparr>)"

definition only_reservations :: "repo \<Rightarrow> repo \<Rightarrow> bool" where
  "only_reservations s s' \<longleftrightarrow> (\<exists>x n. s' = s\<lparr>rp_idempotency := x, rp_ticks := n\<rparr>)"

interpretation ostates: step_order only_states
proof
  show "only_states s s" for s
    unfolding only_states_def by (intro exI [of _ "rp_operation_states s"] exI [of _ "rp_ticks s"]) simp
  show "only_states s u" if "only_states s t" "only_states t u" for s t u
    using that unfolding only_states_def by force
qed

interpretation oreservations: step_order only_reservations
proof
  show "only_reservations s s" for s
    unfolding only_reservations_def by (intro exI [of _ "rp_idempotency s"] exI [of _ "rp_ticks s"]) simp
  show "only_reservations s u" if "only_reservations s t" "only_reservations t u" for s t u
    using that unfolding only_reservations_def by force
qed

lemma only_states_repo: "only_states s s' \<Longrightarrow> ops_evolve s s' \<Longrightarrow> repo_evolve s s'"
  by (auto simp: only_states_def evolve_defs store_frames)

lemma only_reservations_repo: "only_reservations s s' \<Longrightarrow> idem_evolve s s' \<Longrightarrow> repo_evolve s s'"
  by (auto simp: only_reservations_def evolve_defs store_frames)

lemma only_statesI: "s' = s\<lparr>rp_operation_states := x, rp_ticks := n\<rparr> \<Longrightarrow> only_states s s'"
  unfolding only_states_def by blast

lemma only_reservationsI: "s' = s\<lparr>rp_idempotency := x, rp_ticks := n\<rparr> \<Longrightarrow> only_reservations s s'"
  unfolding only_reservations_def by blast

lemma only_states_primitives [evolve_rules]:
  "evolves only_states (utc_now rt)" "evolves only_states (put_operation_state k st)"
proof -
  have "only_states s (s\<lparr>rp_ticks := n\<rparr>)" "only_states s (s\<lparr>rp_operation_states := x\<rparr>)" for s x n
    by (rule only_statesI [where x = "rp_operation_states s" and n = n], simp)
       (rule only_statesI [where x = x and n = "rp_ticks s"], simp)
  then show "evolves only_states (utc_now rt)" "evolves only_states (put_operation_state k st)"
    by (simp_all add: evolves_def utc_now_def put_operation_state_def)
qed

lemma only_reservations_primitives [evolve_rules]:
  "evolves only_reservations (utc_now rt)" "evolves only_reservations (put_idempotency i r)"
proof -
  have "only_reservations s (s\<lparr>rp_ticks := n\<rparr>)" "only_reservations s (s\<lparr>rp_idempotency := x\<rparr>)" for s x n
    by (rule only_reservationsI [where x = "rp_idempotency s" and n = n], simp)
       (rule only_reservationsI [where x = x and n = "rp_ticks s"], simp)
  then show "evolves only_reservations (utc_now rt)" "evolves only_reservations (put_idempotency i r)"
    by (simp_all add: evolves_def utc_now_def put_idempotency_def)
qed

lemma only_states_claims [evolve_rules]:
  "evolves only_states (get_operation_state t e i)"
  "evolves only_states (owned_state rt cl)"
  "evolves only_states (claim_operation t e i w now until sq pt)"
  "evolves only_states (renew_operation_claim rt cl until)"
  "evolves only_states (assert_operation_claim rt cl)"
  "evolves only_states (checkpoint_operation rt cl cp)"
  "evolves only_states (finalize_state rt cl status res err)"
  "evolves only_states (schedule_operation_retry rt cl code next_at secs)"
  "evolves only_states (release_operation_claim rt cl)"
  "evolves only_states (create_operation_state st)"
  unfolding get_operation_state_def claim_operation_def owned_state_def renew_operation_claim_def
    assert_operation_claim_def checkpoint_operation_def finalize_state_def schedule_operation_retry_def
    release_operation_claim_def create_operation_state_def
  by (intro evolve_rules)+

lemma only_states_finish [evolve_rules]:
  "evolves only_states (complete_operation rt cl res)"
  "evolves only_states (supersede_operation rt cl err)"
  "evolves only_states (fail_operation rt cl err)"
  unfolding complete_operation_def supersede_operation_def fail_operation_def by (intro evolve_rules)+

lemma only_reservations_methods [evolve_rules]:
  "evolves only_reservations (get_idempotency i)"
  "evolves only_reservations (reserve_idempotency i r)"
  "evolves only_reservations (bind_or_verify_idempotency_operation i t e p a fp oid)"
  "evolves only_reservations (terminal_idempotency rt i x code)"
  "evolves only_reservations (repair_idempotency_terminal rt i oid fp out ev)"
proof -
  have get: "evolves only_reservations (get_idempotency i)" for i
    unfolding get_idempotency_def by (intro evolve_rules)
  show "evolves only_reservations (get_idempotency i)" by (rule get)
  have fin: "evolves only_reservations (terminal_idempotency rt i x code)" for x code
    unfolding terminal_idempotency_def by (intro evolve_rules get)
  show "evolves only_reservations (terminal_idempotency rt i x code)" by (rule fin)
  show "evolves only_reservations (reserve_idempotency i r)"
    unfolding reserve_idempotency_def by (intro evolve_rules get)
  show "evolves only_reservations (bind_or_verify_idempotency_operation i t e p a fp oid)"
    unfolding bind_or_verify_idempotency_operation_def by (intro evolve_rules get)
  have "evolves only_reservations (case ev of EvResult res \<Rightarrow> f res | EvError code \<Rightarrow> g code)"
    if "\<And>res. evolves only_reservations (f res)" "\<And>code. evolves only_reservations (g code)" for f g
    using that by (cases ev) auto
  note this [intro]
  show "evolves only_reservations (repair_idempotency_terminal rt i oid fp out ev)"
    unfolding repair_idempotency_terminal_def
    by (intro evolve_rules get fin) (auto intro!: evolve_rules fin split: evidence.split option.split)
qed

lemma only_reservations_finish [evolve_rules]:
  "evolves only_reservations (fail_idempotency rt i code)"
  "evolves only_reservations (supersede_idempotency rt i code)"
  unfolding fail_idempotency_def supersede_idempotency_def by (intro evolve_rules)+

lemma repo_states:
  "evolves only_states m \<Longrightarrow> evolves ops_evolve m \<Longrightarrow> evolves repo_evolve m"
  by (simp add: evolves_def only_states_repo)

lemma repo_reservations:
  "evolves only_reservations m \<Longrightarrow> evolves idem_evolve m \<Longrightarrow> evolves repo_evolve m"
  by (simp add: evolves_def only_reservations_repo)

lemma repo_utc_now [evolve_rules]: "evolves repo_evolve (utc_now rt)"
  by (simp add: evolves_def utc_now_def repo_evolve_ticks)

lemma repo_claims [evolve_rules]:
  "evolves repo_evolve (owned_state rt cl)"
  "evolves repo_evolve (claim_operation t e i w now until sq pt)"
  "evolves repo_evolve (renew_operation_claim rt cl until)"
  "evolves repo_evolve (assert_operation_claim rt cl)"
  "evolves repo_evolve (checkpoint_operation rt cl cp)"
  "evolves repo_evolve (complete_operation rt cl res)"
  "evolves repo_evolve (supersede_operation rt cl err)"
  "evolves repo_evolve (fail_operation rt cl err)"
  "evolves repo_evolve (schedule_operation_retry rt cl code next_at secs)"
  "evolves repo_evolve (release_operation_claim rt cl)"
  by (rule repo_states; rule evolve_rules)+

lemma repo_create_state [evolve_rules]:
  "fresh_state st \<Longrightarrow> evolves repo_evolve (create_operation_state st)"
  by (intro repo_states only_states_claims evolves_create)

lemma repo_reservation_methods [evolve_rules]:
  "evolves repo_evolve (reserve_idempotency i r)"
  "evolves repo_evolve (bind_or_verify_idempotency_operation i t e p a fp oid)"
  "evolves repo_evolve (fail_idempotency rt i code)"
  "evolves repo_evolve (supersede_idempotency rt i code)"
  "evolves repo_evolve (repair_idempotency_terminal rt i oid fp out ev)"
  by (rule repo_reservations; rule evolve_rules)+

lemma repo_reads [evolve_rules]:
  "evolves repo_evolve (get_operation_state t e i)"
  "evolves repo_evolve (get_operation_history t e i n)"
  "evolves repo_evolve (load_operation_plan t e p i)"
  "evolves repo_evolve (load_operation_result t e p i)"
  "evolves repo_evolve (get_idempotency i)"
  "evolves repo_evolve (get_product t e p)"
  "evolves repo_evolve (get_product_revision t e p rv)"
  "evolves repo_evolve (get_products_by_ids t e ps)"
  "evolves repo_evolve (get_operation t e i)"
  "evolves repo_evolve (get_membership t e p i)"
  "evolves repo_evolve (get_membership_proposal t e p i)"
  "evolves repo_evolve (get_membership_decision t e p i)"
  "evolves repo_evolve (load_dependency_operation_plan t e i)"
  "evolves repo_evolve (get_dependency_operation_result t e p i)"
  "evolves repo_evolve (read_complete_dependency_snapshot t e p m)"
  unfolding get_operation_state_def get_operation_history_def load_operation_plan_def
    load_operation_result_def get_idempotency_def get_product_def get_product_revision_def
    get_products_by_ids_def get_operation_def get_membership_def get_membership_proposal_def
    get_membership_decision_def load_dependency_operation_plan_def get_dependency_operation_result_def
    read_complete_dependency_snapshot_def
  by (intro evolve_rules)+

lemma repo_evidence_methods [evolve_rules]:
  "evolves repo_evolve (append_operation_history e1)"
  "evolves repo_evolve (save_operation_plan p)"
  "evolves repo_evolve (save_operation_result r)"
  "evolves repo_evolve (append_membership_decision t e q d)"
  "evolves repo_evolve (save_dependency_operation_result dr)"
  by (auto simp: evolves_def append_operation_history_def save_operation_plan_def save_operation_result_def
      append_membership_decision_def save_dependency_operation_result_def py_simps Let_def repo.step_refl
      intro!: repo_evolve_history repo_evolve_plan repo_evolve_result repo_evolve_decision
        repo_evolve_dep_result)

lemma repo_product_methods [evolve_rules]:
  "evolves repo_evolve (create_product p)"
  "evolves repo_evolve (update_product p etag)"
  "evolves repo_evolve (append_revision p a rs)"
  unfolding create_product_def update_product_def append_revision_def
  by (intro evolve_rules evolves_writes repo_evolve_items repo_evolve_revisions)+

lemma repo_begin_operation [evolve_rules]: "evolves repo_evolve (begin_operation ev p)"
  by (auto simp: evolves_def begin_operation_def py_simps repo.step_refl operation_evolve_def
      split: option.split intro!: repo_evolve_operation)

lemma repo_begin_dependency_operation [evolve_rules]:
  "evolves repo_evolve (begin_dependency_operation ev p plan)"
proof -
  have "evolves repo_evolve (bindp (reads (\<lambda>s. dep_plan_of s i)) (\<lambda>x.
      seqp (raise_if (x \<noteq> None \<and> x \<noteq> Some plan) err)
        (seqp (writes (\<lambda>s. s\<lparr>rp_dependency_plans := dput i plan (rp_dependency_plans s)\<rparr>)) (ret saved))))"
    for i err saved
    by (auto simp: evolves_def py_simps repo.step_refl intro!: repo_evolve_dep_plan)
  then show ?thesis
    unfolding begin_dependency_operation_def by (rule repo.evolves_bindp [OF repo_begin_operation])
qed

lemma repo_finish_operation [evolve_rules]: "evolves repo_evolve (finish_operation ev)"
proof (rule evolvesI)
  fix s
  have "repo_evolve s (s\<lparr>rp_operations := dput k (ev, p) (rp_operations s), rp_revisions := x\<rparr>)"
    if "operation_of s k = Some (old, p)" "ev_definition_checksum old = ev_definition_checksum ev" for k old p x
    using that by (intro repo.step_trans [OF repo_evolve_operation repo_evolve_revisions])
      (simp add: operation_evolve_def)
  then show "repo_evolve s (snd (finish_operation ev s))"
    by (auto simp: finish_operation_def py_simps repo.step_refl split: option.split)
qed

lemma repo_membership_methods [evolve_rules]:
  "evolves repo_evolve (create_membership t e m)"
  "evolves repo_evolve (create_membership_proposal v)"
  by (auto simp: evolves_def create_membership_def create_membership_proposal_def py_simps Let_def
      repo.step_refl member_evolve_def proposal_evolve_def intro!: repo_evolve_member repo_evolve_proposal)

lemma repo_exclude_membership [evolve_rules]:
  "evolves repo_evolve (exclude_membership rt t e p i actor reason etag)"
proof (rule evolvesI)
  fix s
  show "repo_evolve s (snd (exclude_membership rt t e p i actor reason etag s))"
  proof (cases "membership_at s (t, e, p, i)")
    case (Some x)
    let ?s1 = "s\<lparr>rp_ticks := Suc (rp_ticks s)\<rparr>"
    have "repo_evolve ?s1 (?s1\<lparr>rp_memberships := dput (t, e, p, i) m (rp_memberships ?s1)\<rparr>)"
      if "member_evolve x m" for m
      using that Some by (intro repo_evolve_member) simp
    then have "repo_evolve s (?s1\<lparr>rp_memberships := dput (t, e, p, i) m (rp_memberships ?s1)\<rparr>)"
      if "member_evolve x m" for m
      using repo.step_trans [OF repo_evolve_ticks] that by blast
    with Some show ?thesis
      by (simp add: exclude_membership_def get_membership_def py_simps utc_now_def Let_def repo.step_refl
          member_evolve_def)
  qed (simp add: exclude_membership_def get_membership_def py_simps repo.step_refl)
qed

lemma get_membership_proposal_found:
  assumes "fst (get_membership_proposal t e p i s) = Inr (Some v)"
  shows "\<exists>n. ((t, e, p, i, n), v) \<in> set (rp_proposals s)"
proof (cases "proposals_of t e p i s")
  case (Cons x xs)
  with assms have "v = max_by pp_proposal_revision x xs" by (simp add: get_membership_proposal_def)
  then have "v \<in> set (proposals_of t e p i s)"
    using Cons max_by_in [of pp_proposal_revision x xs] by simp
  then show ?thesis by (auto simp: proposals_of_def)
qed (use assms in \<open>simp add: get_membership_proposal_def\<close>)

lemma transition_eq:
  "transition_membership_proposal t e p i st n s = (case fst (get_membership_proposal t e p i s) of
      Inr (Some v) \<Rightarrow>
        if n \<noteq> None \<and> n \<noteq> Some (pp_proposal_revision v)
        then (Inl (ProductVersionConflict ''proposal_revision_conflict''), s)
        else if pp_state v \<noteq> PsProposed
        then (Inl (ProductVersionConflict (''proposal_already_'' @ proposal_state_str (pp_state v))), s)
        else (Inr (v\<lparr>pp_state := st\<rparr>),
              s\<lparr>rp_proposals := dput (t, e, p, i, pp_proposal_revision v) (v\<lparr>pp_state := st\<rparr>) (rp_proposals s)\<rparr>)
    | _ \<Rightarrow> (Inl (KeyError i), s))"
  unfolding transition_membership_proposal_def bindp_apply get_membership_proposal_def reads_apply
  by (simp add: py_simps Let_def split: option.split)

lemma repo_transition [evolve_rules]:
  "evolves repo_evolve (transition_membership_proposal t e p i st n)"
proof (rule evolvesI)
  fix s
  have "repo_evolve s (s\<lparr>rp_proposals := dput (t, e, p, i, pp_proposal_revision v) (v\<lparr>pp_state := st\<rparr>) (rp_proposals s)\<rparr>)"
    if get: "fst (get_membership_proposal t e p i s) = Inr (Some v)" and st: "pp_state v = PsProposed" for v
  proof -
    obtain n' where mem: "((t, e, p, i, n'), v) \<in> set (rp_proposals s)"
      using get_membership_proposal_found [OF get] by blast
    have key: "pp_key v = (t, e, p, i, n')" "proposal_at s (t, e, p, i, n') = Some v" if "proposals_inv s"
      using that mem by (auto simp: proposals_inv_def)
    show ?thesis
    proof (rule repo_evolve_proposal)
      show "pp_key (v\<lparr>pp_state := st\<rparr>) = (t, e, p, i, pp_proposal_revision v)" if "proposals_inv s"
        using key [OF that] by (simp add: pp_key_def)
      show "proposal_evolve x (v\<lparr>pp_state := st\<rparr>)"
        if "proposals_inv s" "proposal_at s (t, e, p, i, pp_proposal_revision v) = Some x" for x
        using key [OF that(1)] that(2) st by (simp add: pp_key_def proposal_evolve_def)
    qed
  qed
  then show "repo_evolve s (snd (transition_membership_proposal t e p i st n s))"
    by (auto simp: transition_eq repo.step_refl split: sum.split option.split)
qed

lemma repo_decide_proposal [evolve_rules]:
  "evolves repo_evolve (accept_membership_proposal t e p i n)"
  "evolves repo_evolve (reject_membership_proposal t e p i n)"
  "evolves repo_evolve (expire_membership_proposal t e p i n)"
  "evolves repo_evolve (supersede_membership_proposal t e p i n)"
  unfolding accept_membership_proposal_def reject_membership_proposal_def expire_membership_proposal_def
    supersede_membership_proposal_def by (rule repo_transition)+

lemma repo_apply_edge [evolve_rules]: "evolves repo_evolve (apply_dependency_edge t e p tomb ed)"
proof (rule evolvesI)
  fix s
  let ?k = "(t, e, p, ed_upstream_product_id ed)"
  have "repo_evolve s (s\<lparr>rp_dependencies := dput ?k ed (rp_dependencies s)\<rparr>)"
    if "case edge_of s ?k of None \<Rightarrow> True | Some c \<Rightarrow> ed_product_revision c < ed_product_revision ed"
    using that by (intro repo_evolve_edge) (simp add: edge_evolve_def)
  then show "repo_evolve s (snd (apply_dependency_edge t e p tomb ed s))"
    by (auto simp: apply_dependency_edge_def py_simps Let_def repo.step_refl split: option.splits)
qed

lemma repo_apply_chunks [evolve_rules]:
  "evolves repo_evolve (apply_dependency_chunk t e p tomb eds)"
  "evolves repo_evolve (apply_dependency_upsert_chunk t e p eds)"
  "evolves repo_evolve (apply_dependency_tombstone_chunk t e p eds)"
  unfolding apply_dependency_chunk_def apply_dependency_upsert_chunk_def apply_dependency_tombstone_chunk_def
  by (intro evolve_rules)+

lemma repo_lift_result [evolve_rules]: "evolves repo_evolve (lift_result x)"
  unfolding lift_result_def by (intro evolve_rules)

lemma repo_membership_validate [evolve_rules]: "evolves repo_evolve (membership_validate rt v)"
proof (cases v)
  case (PDict p)
  then show ?thesis
    by (simp only: membership_validate_def pyval.case default_time_def) (intro evolve_rules)
qed (simp_all add: membership_validate_def repo.evolves_raise)

lemma repo_mutation_event [evolve_rules]: "evolves repo_evolve (mutation_event rt m out a b c d e)"
  unfolding mutation_event_def by (intro evolve_rules)

lemma repo_new_record [evolve_rules]: "evolves repo_evolve (new_record rt t e p a k fp n)"
  unfolding new_record_def by (intro evolve_rules)

end
