(* ===== verification/DependencyGraph.thy ===== *)
theory DependencyGraph
  imports Prelude
begin

text \<open>
  The dependency graph algorithms of \<open>services/data_products/dependencies.py\<close>.

  \<^item> \<open>find_cycle_path\<close>: depth-first search for the first cycle. \<open>visit\<close> and \<open>visit_all\<close> are its
    inner function and loop; the list \<open>active\<close> is restored when a call returns without a cycle, so
    it is an argument here, and \<open>done\<close> is returned.
  \<^item> \<open>traverse_frontiers\<close>: breadth-first traversal within budgets, one definition per loop
    (\<open>bfs_loop\<close>, \<open>chunk_loop\<close>, \<open>edge_loop\<close>, \<open>chain_search\<close>) on the record \<open>bfs\<close> of its locals. The
    loader and the monotonic clock (its readings in seconds, by index) are arguments.
  \<^item> \<open>validate_dependency_replacement_cycle\<close>: the check of a proposed replacement.
  A Python set is a list without repetition; the code sorts every set before it iterates over it,
  except for the edges handed to \<open>build_adjacency\<close>, whose order is shown not to matter.
\<close>

section \<open>Data\<close>

record budget =
  bu_max_depth :: int
  bu_max_nodes :: int
  bu_max_edges :: int
  bu_max_queries :: int
  bu_max_terms_per_query :: int
  bu_timeout_ms :: int
  bu_page_size :: int

definition default_budget :: budget where
  "default_budget = \<lparr>bu_max_depth = 8, bu_max_nodes = 200, bu_max_edges = 1000, bu_max_queries = 100,
     bu_max_terms_per_query = 100, bu_timeout_ms = 5000, bu_page_size = 200\<rparr>"

definition budget_values :: "budget \<Rightarrow> int list" where
  "budget_values b = [bu_max_depth b, bu_max_nodes b, bu_max_edges b, bu_max_queries b,
     bu_max_terms_per_query b, bu_timeout_ms b, bu_page_size b]"

definition budget_post_init :: "budget \<Rightarrow> py_error + budget" where
  "budget_post_init b =
     (if list_ex (\<lambda>v. v < 1) (budget_values b)
      then Inl (ValueError ''dependency traversal budgets must be positive'') else Inr b)"

record traversal_stats =
  ts_depth_reached :: int
  ts_visited_count :: int
  ts_edge_count :: int
  ts_query_count :: int
  ts_page_count :: int
  ts_elapsed_ms :: int
  ts_truncated :: bool
  ts_truncation_reason :: "string option"

record dep_graph =
  dg_nodes :: "string list"
  dg_truncated :: bool
  dg_edges :: "(string \<times> string) list"
  dg_stats :: "traversal_stats option"
  dg_cycle_path :: "string list"

datatype direction = Upstream | Downstream

type_synonym frontier_loader = "string list \<Rightarrow> direction \<Rightarrow> (string \<times> string) list \<times> bool"

text \<open>\<open>int(x)\<close> of a number truncates towards zero.\<close>

definition py_int :: "rat \<Rightarrow> int" where
  "py_int x = (if 0 \<le> x then \<lfloor>x\<rfloor> else \<lceil>x\<rceil>)"

subsection \<open>The budget tracker\<close>

record tracker =
  tk_budget :: budget
  tk_started :: rat
  tk_query_count :: int
  tk_page_count :: int
  tk_edge_count :: int

definition tracker_init :: "budget \<Rightarrow> rat \<Rightarrow> tracker" where
  "tracker_init b now = \<lparr>tk_budget = b, tk_started = now, tk_query_count = 0, tk_page_count = 0, tk_edge_count = 0\<rparr>"

definition elapsed_ms :: "tracker \<Rightarrow> rat \<Rightarrow> int" where
  "elapsed_ms tk now = py_int ((now - tk_started tk) * 1000)"

text \<open>The left value is the reason of \<open>TraversalBudgetExhausted\<close>.\<close>

definition before_request :: "rat \<Rightarrow> tracker \<Rightarrow> (string + unit) \<times> tracker" where
  "before_request now tk =
     (if bu_max_queries (tk_budget tk) \<le> tk_query_count tk then (Inl ''max_queries'', tk)
      else if bu_timeout_ms (tk_budget tk) \<le> elapsed_ms tk now then (Inl ''timeout_ms'', tk)
      else (Inr (), tk\<lparr>tk_query_count := tk_query_count tk + 1\<rparr>))"

definition after_response :: "int \<Rightarrow> tracker \<Rightarrow> (string + unit) \<times> tracker" where
  "after_response edge_count tk =
     (let tk1 = tk\<lparr>tk_page_count := tk_page_count tk + 1, tk_edge_count := tk_edge_count tk + edge_count\<rparr>
      in if bu_max_edges (tk_budget tk1) < tk_edge_count tk1 then (Inl ''max_edges'', tk1) else (Inr (), tk1))"

section \<open>Adjacency and cycle search\<close>

type_synonym adjacency = "(string \<times> string list) list"

definition add_adjacency :: "string \<times> string \<Rightarrow> adjacency \<Rightarrow> adjacency" where
  "add_adjacency e g =
     (let g1 = dput (fst e) (List.insert (snd e) (case dget g (fst e) of None \<Rightarrow> [] | Some c \<Rightarrow> c)) g
      in case dget g1 (snd e) of None \<Rightarrow> dput (snd e) [] g1 | Some _ \<Rightarrow> g1)"

definition build_adjacency :: "(string \<times> string) list \<Rightarrow> adjacency" where
  "build_adjacency edges = fold add_adjacency edges []"

text \<open>\<open>sorted(graph.get(node, ()))\<close>.\<close>

definition children :: "adjacency \<Rightarrow> string \<Rightarrow> string list" where
  "children g node = (case dget g node of None \<Rightarrow> [] | Some c \<Rightarrow> sorted_set c)"

definition universe :: "adjacency \<Rightarrow> string set" where
  "universe g = fst ` set g"

lemma finite_universe [simp]: "finite (universe g)"
  by (simp add: universe_def)

lemma children_outside: "node \<notin> universe g \<Longrightarrow> children g node = []"
  by (simp add: children_def universe_def map_of_eq_None_iff [THEN iffD2])

text \<open>
  \<open>active[active.index(node):] + [node]\<close>.
\<close>

definition closed_from :: "string list \<Rightarrow> string \<Rightarrow> string list" where
  "closed_from active node = dropWhile (\<lambda>x. x \<noteq> node) active @ [node]"

lemma universe_shrinks:
  "node \<in> universe g \<Longrightarrow> node \<notin> A \<Longrightarrow> card (universe g - insert node A) < card (universe g - A)"
  by (rule psubset_card_mono) auto

lemma universe_shrinks_le: "card (universe g - insert node A) \<le> card (universe g - A)"
  by (rule card_mono) auto

lemma children_shrinks:
  "children g node \<noteq> [] \<Longrightarrow> node \<notin> A \<Longrightarrow> card (universe g - insert node A) < card (universe g - A)"
  using children_outside universe_shrinks by blast

function (sequential) visit :: "adjacency \<Rightarrow> string list \<Rightarrow> string list \<Rightarrow> string \<Rightarrow> string list \<times> string list"
  and visit_all :: "adjacency \<Rightarrow> string list \<Rightarrow> string list \<Rightarrow> string list \<Rightarrow> string list \<times> string list"
where
  "visit g active don node =
     (if node \<in> set active then (closed_from active node, don)
      else if node \<in> set don then ([], don)
      else case visit_all g (active @ [node]) don (children g node) of
             (path, don1) \<Rightarrow> if path \<noteq> [] then (path, don1) else ([], List.insert node don1))"
| "visit_all g active don [] = ([], don)"
| "visit_all g active don (c # cs) =
     (case visit g active don c of
        (path, don1) \<Rightarrow> if path \<noteq> [] then (path, don1) else visit_all g active don1 cs)"
  by pat_completeness auto

termination
  by (relation "measures
        [\<lambda>x. case x of Inl (g, active, don, node) \<Rightarrow> card (universe g - set active)
                     | Inr (g, active, don, cs) \<Rightarrow> card (universe g - set active),
         \<lambda>x. case x of Inl (g, active, don, node) \<Rightarrow> 1
                     | Inr (g, active, don, cs) \<Rightarrow> (if cs = [] then 0 else 2 + length cs)]")
     (auto simp: universe_shrinks_le le_neq_implies_less intro: children_shrinks)

declare visit.simps [simp del]

fun visit_roots :: "adjacency \<Rightarrow> string list \<Rightarrow> string list \<Rightarrow> string list" where
  "visit_roots g don [] = []"
| "visit_roots g don (node # nodes) =
     (case visit g [] don node of
        (path, don1) \<Rightarrow> if path \<noteq> [] then path else visit_roots g don1 nodes)"

definition find_cycle_path :: "adjacency \<Rightarrow> string list" where
  "find_cycle_path g = visit_roots g [] (sorted_set (map fst g))"

definition reject_cycles :: "adjacency \<Rightarrow> py_error + unit" where
  "reject_cycles g =
     (if find_cycle_path g \<noteq> [] then Inl (ValueError ''data product dependency cycle'') else Inr ())"

section \<open>What the cycle search finds\<close>

definition dep_rel :: "adjacency \<Rightarrow> (string \<times> string) set" where
  "dep_rel g = {(u, v). v \<in> set (children g u)}"

text \<open>A path of a relation, and a closed one: at least one step, back to its start.\<close>

fun rel_path :: "('a \<times> 'a) set \<Rightarrow> 'a list \<Rightarrow> bool" where
  "rel_path r [] = True"
| "rel_path r [x] = True"
| "rel_path r (x # y # zs) = ((x, y) \<in> r \<and> rel_path r (y # zs))"

definition closed_path :: "('a \<times> 'a) set \<Rightarrow> 'a list \<Rightarrow> bool" where
  "closed_path r p \<longleftrightarrow> 2 \<le> length p \<and> hd p = last p \<and> rel_path r p"

lemma rel_path_snoc: "rel_path r (p @ [x]) \<longleftrightarrow> rel_path r p \<and> (p \<noteq> [] \<longrightarrow> (last p, x) \<in> r)"
  by (induction r p rule: rel_path.induct) auto

lemma rel_path_Cons: "rel_path r (x # p) \<longleftrightarrow> rel_path r p \<and> (p \<noteq> [] \<longrightarrow> (x, hd p) \<in> r)"
  by (cases p) auto

lemma rel_path_appendD: "rel_path r (p @ q) \<Longrightarrow> rel_path r q"
  by (induction p) (auto simp: rel_path_Cons)

lemma rel_path_mono: "rel_path r p \<Longrightarrow> r \<subseteq> r' \<Longrightarrow> rel_path r' p"
  by (induction r p rule: rel_path.induct) auto

lemma rel_path_rtrancl: "rel_path r p \<Longrightarrow> p \<noteq> [] \<Longrightarrow> (hd p, last p) \<in> r\<^sup>*"
  by (induction r p rule: rel_path.induct) (auto intro: converse_rtrancl_into_rtrancl)

lemma closed_path_trancl: "closed_path r p \<Longrightarrow> x \<in> set p \<Longrightarrow> (hd p, hd p) \<in> r\<^sup>+"
  by (cases p; cases "tl p")
     (auto simp: closed_path_def intro: rtrancl_into_trancl2 dest: rel_path_rtrancl)

lemma closed_path_nonempty: "closed_path r p \<Longrightarrow> p \<noteq> []"
  by (auto simp: closed_path_def)

lemma closed_from_path:
  assumes "rel_path r (active @ [node])" and "node \<in> set active"
  shows "closed_path r (closed_from active node)"
proof -
  obtain ys where d: "dropWhile (\<lambda>x. x \<noteq> node) active = node # ys"
    using assms(2) by (metis (mono_tags, lifting) dropWhile_eq_Nil_conv hd_dropWhile list.collapse)
  have "active @ [node] = takeWhile (\<lambda>x. x \<noteq> node) active @ closed_from active node"
    by (simp add: closed_from_def)
  then have "rel_path r (closed_from active node)"
    using assms(1) by (metis rel_path_appendD)
  then show ?thesis by (simp add: closed_path_def closed_from_def d)
qed

lemma visit_sound:
  "rel_path (dep_rel g) (active @ [node]) \<Longrightarrow> fst (visit g active don node) \<noteq> [] \<Longrightarrow>
     closed_path (dep_rel g) (fst (visit g active don node))"
  "rel_path (dep_rel g) active \<Longrightarrow> active \<noteq> [] \<Longrightarrow> set cs \<subseteq> set (children g (last active)) \<Longrightarrow>
     fst (visit_all g active don cs) \<noteq> [] \<Longrightarrow> closed_path (dep_rel g) (fst (visit_all g active don cs))"
proof (induction g active don node and g active don cs rule: visit_visit_all.induct)
  case (1 g active don node)
  then show ?case
    by (subst (asm) visit.simps, subst visit.simps)
       (auto simp: closed_from_path split: prod.splits if_splits)
next
  case (3 g active don c cs)
  have "rel_path (dep_rel g) (active @ [c])"
    using 3 by (simp add: rel_path_snoc dep_rel_def)
  with 3 show ?case by (auto split: prod.splits if_splits)
qed simp

text \<open>
  The nodes finished without a cycle: closed under dependency and on no cycle.
\<close>

definition finished :: "adjacency \<Rightarrow> string set \<Rightarrow> bool" where
  "finished g D \<longleftrightarrow> (\<forall>u \<in> D. set (children g u) \<subseteq> D \<and> (u, u) \<notin> (dep_rel g)\<^sup>+)"

lemma finished_closed: "finished g D \<Longrightarrow> (u, v) \<in> (dep_rel g)\<^sup>* \<Longrightarrow> u \<in> D \<Longrightarrow> v \<in> D"
  by (rotate_tac, induction rule: rtrancl_induct) (auto simp: finished_def dep_rel_def)

lemma finished_insert:
  assumes "finished g D" and "set (children g node) \<subseteq> D" and "node \<notin> D"
  shows "finished g (insert node D)"
proof -
  have "(node, node) \<notin> (dep_rel g)\<^sup>+"
  proof
    assume "(node, node) \<in> (dep_rel g)\<^sup>+"
    then obtain c where "(node, c) \<in> dep_rel g" "(c, node) \<in> (dep_rel g)\<^sup>*" by (meson tranclD)
    with assms show False
      using finished_closed [of g D c node] by (auto simp: dep_rel_def)
  qed
  with assms show ?thesis by (auto simp: finished_def)
qed

lemma visit_complete:
  "visit g active don node = ([], don') \<Longrightarrow> finished g (set don) \<Longrightarrow> set active \<inter> set don = {} \<Longrightarrow>
     finished g (set don') \<and> set active \<inter> set don' = {} \<and> set don \<subseteq> set don' \<and> node \<in> set don'"
  "visit_all g active don cs = ([], don') \<Longrightarrow> finished g (set don) \<Longrightarrow> set active \<inter> set don = {} \<Longrightarrow>
     finished g (set don') \<and> set active \<inter> set don' = {} \<and> set don \<subseteq> set don' \<and> set cs \<subseteq> set don'"
proof (induction g active don node and g active don cs arbitrary: don' and don'
    rule: visit_visit_all.induct)
  case (1 g active don node)
  show ?case
  proof (cases "node \<in> set active \<or> node \<in> set don")
    case True
    with "1.prems" show ?thesis
      by (auto simp: visit.simps closed_from_def split: if_splits)
  next
    case False
    then obtain don1 where r: "visit_all g (active @ [node]) don (children g node) = ([], don1)"
      and don': "don' = List.insert node don1"
      using "1.prems"(1) by (auto simp: visit.simps split: prod.splits if_splits)
    have "finished g (set don1) \<and> set (active @ [node]) \<inter> set don1 = {} \<and> set don \<subseteq> set don1 \<and>
        set (children g node) \<subseteq> set don1"
      using False "1.prems" by (intro "1.IH" r) auto
    with don' False show ?thesis by (auto intro: finished_insert)
  qed
next
  case (3 g active don c cs)
  then obtain don1 where a: "visit g active don c = ([], don1)" and b: "visit_all g active don1 cs = ([], don')"
    by (auto split: prod.splits if_splits)
  have 1: "finished g (set don1) \<and> set active \<inter> set don1 = {} \<and> set don \<subseteq> set don1 \<and> c \<in> set don1"
    using "3.prems" by (intro "3.IH"(1) a)
  have "finished g (set don') \<and> set active \<inter> set don' = {} \<and> set don1 \<subseteq> set don' \<and> set cs \<subseteq> set don'"
    using 1 a by (intro "3.IH"(2) b) auto
  with 1 show ?case by auto
qed simp

lemma visit_roots_sound:
  "visit_roots g don nodes \<noteq> [] \<Longrightarrow> closed_path (dep_rel g) (visit_roots g don nodes)"
proof (induction nodes arbitrary: don)
  case (Cons n ns)
  then show ?case
    using visit_sound(1) [of g "[]" n don] by (auto split: prod.splits if_splits)
qed simp

lemma visit_roots_complete:
  "visit_roots g don nodes = [] \<Longrightarrow> finished g (set don) \<Longrightarrow>
     \<exists>D. finished g D \<and> set don \<subseteq> D \<and> set nodes \<subseteq> D"
proof (induction nodes arbitrary: don)
  case (Cons n ns)
  then obtain don1 where v: "visit g [] don n = ([], don1)" and r: "visit_roots g don1 ns = []"
    by (auto split: prod.splits if_splits)
  have 1: "finished g (set don1)" "set don \<subseteq> set don1" "n \<in> set don1"
    using visit_complete(1) [OF v Cons.prems(2)] by simp_all
  with Cons.IH [OF r 1(1)] show ?case by auto
qed auto

lemma find_cycle_path_acyclic: "find_cycle_path g = [] \<Longrightarrow> acyclic (dep_rel g)"
proof (rule acyclicI, intro allI)
  fix x
  assume "find_cycle_path g = []"
  then obtain D where D: "finished g D" "universe g \<subseteq> D"
    using visit_roots_complete [of g "[]" "sorted_set (map fst g)"]
    by (auto simp: find_cycle_path_def finished_def universe_def)
  show "(x, x) \<notin> (dep_rel g)\<^sup>+"
  proof (cases "x \<in> universe g")
    case True
    with D show ?thesis by (auto simp: finished_def)
  next
    case False
    then have "(x, y) \<notin> dep_rel g" for y by (simp add: dep_rel_def children_outside)
    then show ?thesis by (meson tranclD)
  qed
qed

lemma find_cycle_path_sound: "find_cycle_path g \<noteq> [] \<Longrightarrow> closed_path (dep_rel g) (find_cycle_path g)"
  unfolding find_cycle_path_def by (rule visit_roots_sound)

lemma find_cycle_path_iff: "find_cycle_path g = [] \<longleftrightarrow> acyclic (dep_rel g)"
proof
  assume "acyclic (dep_rel g)"
  then show "find_cycle_path g = []"
    using find_cycle_path_sound [of g] closed_path_trancl [of "dep_rel g" "find_cycle_path g"]
    by (metis acyclic_def hd_in_set)
qed (rule find_cycle_path_acyclic)

section \<open>The adjacency of a set of edges\<close>

lemma dep_rel_add: "dep_rel (add_adjacency e g) = insert e (dep_rel g)"
  by (cases e) (auto simp: dep_rel_def children_def add_adjacency_def Let_def split: option.splits if_splits)

lemma universe_add: "universe (add_adjacency e g) = insert (fst e) (insert (snd e) (universe g))"
  by (auto simp: universe_def add_adjacency_def Let_def dput_keys split: option.split dest: map_of_SomeD
      intro: rev_image_eqI)

lemma fold_add_adjacency:
  "dep_rel (fold add_adjacency es g) = set es \<union> dep_rel g"
  "universe (fold add_adjacency es g) = fst ` set es \<union> snd ` set es \<union> universe g"
  by (induction es arbitrary: g) (auto simp: dep_rel_add universe_add)

lemma dep_rel_build [simp]: "dep_rel (build_adjacency es) = set es"
  unfolding build_adjacency_def by (simp only: fold_add_adjacency) (simp add: dep_rel_def children_def)

lemma universe_build: "universe (build_adjacency es) = fst ` set es \<union> snd ` set es"
  unfolding build_adjacency_def by (simp only: fold_add_adjacency) (simp add: universe_def)

lemma children_eq: "dep_rel g = dep_rel g' \<Longrightarrow> children g = children g'"
proof
  fix u
  assume "dep_rel g = dep_rel g'"
  then have "set (children g u) = set (children g' u)" by (auto simp: dep_rel_def)
  moreover have "sorted (children h u) \<and> distinct (children h u)" for h
    by (auto simp: children_def split: option.split)
  ultimately show "children g u = children g' u" by (metis sorted_distinct_set_unique)
qed

lemma visit_cong:
  "children g' = children g \<Longrightarrow> visit g active don node = visit g' active don node"
  "children g' = children g \<Longrightarrow> visit_all g active don cs = visit_all g' active don cs"
proof (induction g active don node and g active don cs rule: visit_visit_all.induct)
  case (1 g active don node)
  show ?case
    by (subst (1 2) visit.simps) (use 1 in \<open>auto split: prod.split\<close>)
qed (auto split: prod.split)

lemma visit_roots_cong:
  "children g' = children g \<Longrightarrow> visit_roots g don nodes = visit_roots g' don nodes"
  by (induction nodes arbitrary: don) (auto simp: visit_cong(1) [of g' g] split: prod.split)

lemma find_cycle_path_order:
  assumes "set es = set es'"
  shows "find_cycle_path (build_adjacency es) = find_cycle_path (build_adjacency es')"
proof -
  have "set (map fst (build_adjacency es)) = set (map fst (build_adjacency es'))"
    using universe_build [of es] universe_build [of es'] assms by (simp add: universe_def)
  then have "sorted_set (map fst (build_adjacency es)) = sorted_set (map fst (build_adjacency es'))"
    by (metis distinct_sorted_set set_sorted_set sorted_distinct_set_unique sorted_sorted_set)
  moreover have "children (build_adjacency es') = children (build_adjacency es)"
    by (rule children_eq) (simp add: assms)
  ultimately show ?thesis
    unfolding find_cycle_path_def by (metis visit_roots_cong)
qed

section \<open>Bounded traversal\<close>

record bfs =
  bf_frontier :: "string list"
  bf_next :: "string list"
  bf_seen :: "string list"
  bf_nodes :: "string list"
  bf_selected :: "(string \<times> string) list"
  bf_parents :: "(string \<times> string) list"
  bf_cycle :: "string list"
  bf_queries :: int
  bf_depth :: int
  bf_reason :: "string option"
  bf_ticks :: nat

text \<open>
  The loop that reconstructs a closed path; \<open>rchain\<close> is the list \<open>chain\<close> reversed, so that its head
  is \<open>chain[-1]\<close>.
\<close>

function chain_search :: "(string \<times> string) list \<Rightarrow> string \<Rightarrow> nat \<Rightarrow> string list \<Rightarrow> string list option" where
  "chain_search parents target n rchain =
     (if length rchain \<le> n then
        (case rchain of
           [] \<Rightarrow> None
         | x # _ \<Rightarrow> (case dget parents x of
               None \<Rightarrow> None
             | Some p \<Rightarrow> if p = target then Some ((p # rchain) @ [target])
                         else chain_search parents target n (p # rchain)))
      else None)"
  by pat_completeness auto

termination
  by (relation "measure (\<lambda>(parents, target, n, rchain). Suc n - length rchain)") auto

declare chain_search.simps [simp del]

definition orient :: "direction \<Rightarrow> string \<times> string \<Rightarrow> string \<times> string" where
  "orient dir e = (case dir of Upstream \<Rightarrow> e | Downstream \<Rightarrow> (snd e, fst e))"

fun edge_loop :: "direction \<Rightarrow> budget \<Rightarrow> string list \<Rightarrow> (string \<times> string) list \<Rightarrow> bfs \<Rightarrow> bfs" where
  "edge_loop dir b chunk [] st = st"
| "edge_loop dir b chunk (e # es) st =
     (case orient dir e of (source, target) \<Rightarrow>
        if source \<notin> set chunk then edge_loop dir b chunk es st
        else if bu_max_edges b \<le> int (length (bf_selected st)) then st\<lparr>bf_reason := Some ''max_edges''\<rparr>
        else
          (let st1 = st\<lparr>bf_selected := List.insert e (bf_selected st)\<rparr> in
           if target \<in> set (bf_seen st1) then
             edge_loop dir b chunk es
               (case chain_search (bf_parents st1) target (length (bf_seen st1)) [source] of
                  None \<Rightarrow> st1 | Some c \<Rightarrow> st1\<lparr>bf_cycle := c\<rparr>)
           else if bu_max_nodes b \<le> int (length (bf_seen st1)) then st1\<lparr>bf_reason := Some ''max_nodes''\<rparr>
           else edge_loop dir b chunk es
             (st1\<lparr>bf_seen := bf_seen st1 @ [target], bf_parents := dput target source (bf_parents st1),
                  bf_nodes := bf_nodes st1 @ [target], bf_next := List.insert target (bf_next st1)\<rparr>)))"

text \<open>The slices \<open>frontier[offset : offset + n]\<close> for \<open>offset in range(0, len(frontier), n)\<close>.\<close>

function chunk_list :: "nat \<Rightarrow> 'a list \<Rightarrow> 'a list list" where
  "chunk_list n xs = (if xs = [] \<or> n = 0 then [] else take n xs # chunk_list n (drop n xs))"
  by pat_completeness auto

termination
  by (relation "measure (\<lambda>(n, xs). length xs)") auto

declare chunk_list.simps [simp del]

fun chunk_loop :: "(nat \<Rightarrow> rat) \<Rightarrow> rat \<Rightarrow> direction \<Rightarrow> budget \<Rightarrow> frontier_loader \<Rightarrow> string list list \<Rightarrow> bfs \<Rightarrow> bfs" where
  "chunk_loop readings started dir b loader [] st = st"
| "chunk_loop readings started dir b loader (chunk # rest) st =
     (if bu_max_queries b \<le> bf_queries st then st\<lparr>bf_reason := Some ''max_queries''\<rparr>
      else
        (let now = readings (bf_ticks st); st1 = st\<lparr>bf_ticks := Suc (bf_ticks st)\<rparr> in
         if rat_of_int (bu_timeout_ms b) \<le> (now - started) * 1000 then st1\<lparr>bf_reason := Some ''timeout_ms''\<rparr>
         else
           (case loader chunk dir of (edges, all_read) \<Rightarrow>
             (let st2 = st1\<lparr>bf_queries := bf_queries st1 + 1\<rparr> in
              if \<not> all_read then st2\<lparr>bf_reason := Some ''incomplete_page''\<rparr>
              else
                (let st3 = edge_loop dir b chunk (sorted_set edges) st2 in
                 if bf_reason st3 \<noteq> None then st3
                 else chunk_loop readings started dir b loader rest st3)))))"

lemma edge_loop_depth: "bf_depth (edge_loop dir b chunk es st) = bf_depth st"
  by (induction es arbitrary: st) (auto simp: Let_def split: prod.split option.split)

lemma chunk_loop_depth [simp]: "bf_depth (chunk_loop readings started dir b loader cs st) = bf_depth st"
  by (induction cs arbitrary: st) (auto simp: Let_def edge_loop_depth split: prod.split)

function bfs_loop :: "(nat \<Rightarrow> rat) \<Rightarrow> rat \<Rightarrow> direction \<Rightarrow> budget \<Rightarrow> frontier_loader \<Rightarrow> bfs \<Rightarrow> bfs" where
  "bfs_loop readings started dir b loader st =
     (if bf_frontier st \<noteq> [] \<and> bf_depth st < bu_max_depth b then
        (let st1 = chunk_loop readings started dir b loader
                     (chunk_list (nat (bu_max_terms_per_query b)) (bf_frontier st)) (st\<lparr>bf_next := []\<rparr>);
             st2 = st1\<lparr>bf_depth := bf_depth st1 + 1\<rparr>
         in if bf_reason st2 \<noteq> None then st2
            else bfs_loop readings started dir b loader (st2\<lparr>bf_frontier := sort (bf_next st2)\<rparr>))
      else st)"
  by pat_completeness auto

termination
  by (relation "measure (\<lambda>(readings, started, dir, b, loader, st). nat (bu_max_depth b - bf_depth st))") auto

declare bfs_loop.simps [simp del]

definition bfs_start :: "string \<Rightarrow> nat \<Rightarrow> bfs" where
  "bfs_start start ticks = \<lparr>bf_frontier = [start], bf_next = [], bf_seen = [start], bf_nodes = [], bf_selected = [],
     bf_parents = [], bf_cycle = [], bf_queries = 0, bf_depth = 0, bf_reason = None, bf_ticks = ticks\<rparr>"

text \<open>The traversal returns its result and the index of the next clock reading.\<close>

definition bfs_finish :: "budget \<Rightarrow> bfs \<Rightarrow> bfs" where
  "bfs_finish b st =
     (if bf_frontier st \<noteq> [] \<and> bu_max_depth b \<le> bf_depth st then st\<lparr>bf_reason := Some ''max_depth''\<rparr> else st)"

definition traverse_frontiers ::
  "(nat \<Rightarrow> rat) \<Rightarrow> nat \<Rightarrow> string \<Rightarrow> direction \<Rightarrow> budget \<Rightarrow> frontier_loader \<Rightarrow> dep_graph \<times> nat" where
  "traverse_frontiers readings tick start dir b loader =
     (let started = readings tick;
          st = bfs_finish b (bfs_loop readings started dir b loader (bfs_start start (Suc tick)));
          elapsed = py_int ((readings (bf_ticks st) - started) * 1000);
          stats = \<lparr>ts_depth_reached = bf_depth st, ts_visited_count = int (length (bf_seen st)),
                   ts_edge_count = int (length (bf_selected st)), ts_query_count = bf_queries st,
                   ts_page_count = bf_queries st, ts_elapsed_ms = elapsed,
                   ts_truncated = (bf_reason st \<noteq> None), ts_truncation_reason = bf_reason st\<rparr>
      in (\<lparr>dg_nodes = bf_nodes st, dg_truncated = ts_truncated stats, dg_edges = sort (bf_selected st),
           dg_stats = Some stats, dg_cycle_path = bf_cycle st\<rparr>, Suc (bf_ticks st)))"

text \<open>The in-memory loader of \<open>traverse\<close>.\<close>

definition adjacency_loader :: "adjacency \<Rightarrow> frontier_loader" where
  "adjacency_loader g frontier dir =
     (concat (map (\<lambda>node. map (\<lambda>child. (node, child)) (children g node)) frontier), True)"

definition traverse ::
  "(nat \<Rightarrow> rat) \<Rightarrow> nat \<Rightarrow> adjacency \<Rightarrow> string \<Rightarrow> int \<Rightarrow> int \<Rightarrow> py_error + dep_graph" where
  "traverse readings tick g start max_depth max_nodes =
     (case budget_post_init (default_budget\<lparr>bu_max_depth := max_depth, bu_max_nodes := max_nodes\<rparr>) of
        Inl e \<Rightarrow> Inl e
      | Inr b \<Rightarrow> Inr (fst (traverse_frontiers readings tick start Upstream b (adjacency_loader g))))"

subsection \<open>Validation of a replacement\<close>

record cycle_validation =
  cv_cycle_detected :: bool
  cv_cycle_path :: "string list"
  cv_visited_count :: int
  cv_edge_count :: int
  cv_query_count :: int
  cv_truncated :: bool
  cv_truncation_reason :: "string option"

definition result_queries :: "dep_graph \<Rightarrow> int" where
  "result_queries r = (case dg_stats r of None \<Rightarrow> 0 | Some st \<Rightarrow> ts_query_count st)"

definition result_reason :: "dep_graph \<Rightarrow> string option" where
  "result_reason r = (case dg_stats r of None \<Rightarrow> Some ''incomplete'' | Some st \<Rightarrow> ts_truncation_reason st)"

text \<open>The loop over the proposed upstreams; the right value holds the edges, the nodes and the queries.\<close>

fun validation_loop ::
  "(nat \<Rightarrow> rat) \<Rightarrow> nat \<Rightarrow> budget \<Rightarrow> frontier_loader \<Rightarrow> string list \<Rightarrow>
   (string \<times> string) list \<Rightarrow> string list \<Rightarrow> int \<Rightarrow>
   cycle_validation + ((string \<times> string) list \<times> string list \<times> int)" where
  "validation_loop readings tick b loader [] edges visited queries = Inr (edges, visited, queries)"
| "validation_loop readings tick b loader (up # ups) edges visited queries =
     (case traverse_frontiers readings tick up Upstream b loader of (r, tick1) \<Rightarrow>
        (let edges1 = List.union (dg_edges r) edges;
             visited1 = List.union (dg_nodes r) visited;
             queries1 = queries + result_queries r
         in if dg_truncated r then
              Inl \<lparr>cv_cycle_detected = False, cv_cycle_path = [], cv_visited_count = int (length visited1),
                   cv_edge_count = int (length edges1), cv_query_count = queries1, cv_truncated = True,
                   cv_truncation_reason = result_reason r\<rparr>
            else validation_loop readings tick1 b loader ups edges1 visited1 queries1))"

definition validate_dependency_replacement_cycle ::
  "(nat \<Rightarrow> rat) \<Rightarrow> nat \<Rightarrow> string \<Rightarrow> string list \<Rightarrow> budget \<Rightarrow> frontier_loader \<Rightarrow> cycle_validation" where
  "validate_dependency_replacement_cycle readings tick product_id proposed b loader =
     (case validation_loop readings tick b loader (sorted_set proposed)
             (remdups (map (\<lambda>up. (product_id, up)) proposed)) [product_id] 0 of
        Inl v \<Rightarrow> v
      | Inr (edges, visited, queries) \<Rightarrow>
          (let path = find_cycle_path (build_adjacency edges);
               relevant = (if path \<noteq> [] \<and> product_id \<in> set path then path else [])
           in \<lparr>cv_cycle_detected = (relevant \<noteq> []), cv_cycle_path = relevant,
               cv_visited_count = int (length visited), cv_edge_count = int (length edges),
               cv_query_count = queries, cv_truncated = False, cv_truncation_reason = None\<rparr>))"

end
