(* ===== verification/Reconciliation.thy ===== *)
theory Reconciliation
  imports RepositoryEvolution DependencyGraph
begin

text \<open>
  \<open>services/data_products/reconciliation.py\<close>: durable operations and their recovery.

  \<^item> The claim-fenced context handed to a handler is a record of the claim and its three callbacks;
    a handler returns its outcome and the context (with the claim as renewed).
  \<^item> One definition per handler (\<open>manual_membership_reconcile\<close>, \<open>proposal_decision_reconcile\<close>,
    \<open>membership_exclusion_reconcile\<close>, \<open>dependency_replacement_reconcile\<close>,
    \<open>product_lifecycle_reconcile\<close>), the registry as a function from operation kinds.
  \<^item> \<open>persist_pending_operation\<close>, the coordinator, and the service: \<open>reconcile_operation\<close> with its
    branches, \<open>repair_terminal_revisit\<close>, \<open>append_terminal_history\<close>, \<open>reconcile_batch\<close>.
  A claim that was renewed differs from the first one in its expiry only, which no repository method
  reads, so the exception handlers of \<open>reconcile_operation\<close> use the first one.
\<close>

section \<open>Values of a payload\<close>

definition is_str :: "pyval \<Rightarrow> bool" where
  "is_str v = (case v of PStr _ \<Rightarrow> True | PIso _ \<Rightarrow> True | _ \<Rightarrow> False)"

text \<open>Truth value of a payload entry.\<close>

definition truthy :: "pyval \<Rightarrow> bool" where
  "truthy v = (case v of
      PNone \<Rightarrow> False | PBool b \<Rightarrow> b | PInt i \<Rightarrow> i \<noteq> 0 | PFloat x \<Rightarrow> x \<noteq> 0 | PStr s \<Rightarrow> s \<noteq> []
    | PList vs \<Rightarrow> vs \<noteq> [] | PDict kvs \<Rightarrow> kvs \<noteq> [] | _ \<Rightarrow> True)"

text \<open>\<open>int(v)\<close> and \<open>tuple(v)\<close>.\<close>

definition py_int_of :: "pyval \<Rightarrow> py_error + int" where
  "py_int_of v = (case v of
      PInt i \<Rightarrow> Inr i
    | PBool b \<Rightarrow> Inr (if b then 1 else 0)
    | PFloat x \<Rightarrow> Inr (py_int x)
    | PStr s \<Rightarrow> (case parse_int s of None \<Rightarrow> Inl (ValueError ''invalid literal for int()'') | Some i \<Rightarrow> Inr i)
    | PIso _ \<Rightarrow> Inl (ValueError ''invalid literal for int()'')
    | _ \<Rightarrow> Inl (TypeError ''int() argument''))"

definition py_tuple_of :: "pyval \<Rightarrow> py_error + pyval list" where
  "py_tuple_of v = (case v of
      PList vs \<Rightarrow> Inr vs
    | PStr s \<Rightarrow> Inr (map (\<lambda>c. PStr [c]) s)
    | PDict kvs \<Rightarrow> Inr (map (\<lambda>kv. PStr (fst kv)) kvs)
    | _ \<Rightarrow> Inl (TypeError ''object is not iterable''))"

text \<open>\<open>payload[key]\<close>.\<close>

definition pitem :: "payload \<Rightarrow> string \<Rightarrow> py_error + pyval" where
  "pitem p k = (case dget p k of None \<Rightarrow> Inl (KeyError k) | Some v \<Rightarrow> Inr v)"

definition payload_checksum :: "runtime \<Rightarrow> payload \<Rightarrow> string" where
  "payload_checksum rt p = checksum_of rt (PDict p)"

section \<open>Context and outcomes\<close>

record rcontext =
  cx_claim :: claim
  cx_assert :: "claim \<Rightarrow> unit rp"
  cx_renew :: "claim \<Rightarrow> claim rp"
  cx_checkpoint :: "claim \<Rightarrow> string \<Rightarrow> string \<Rightarrow> unit rp"

definition assert_owned :: "rcontext \<Rightarrow> unit rp" where
  "assert_owned ctx = cx_assert ctx (cx_claim ctx)"

definition renew_if_needed :: "rcontext \<Rightarrow> rcontext rp" where
  "renew_if_needed ctx = bindp (cx_renew ctx (cx_claim ctx)) (\<lambda>cl. ret (ctx\<lparr>cx_claim := cl\<rparr>))"

definition context_checkpoint :: "rcontext \<Rightarrow> string \<Rightarrow> string \<Rightarrow> unit rp" where
  "context_checkpoint ctx name checksum =
     seqp (assert_owned ctx) (cx_checkpoint ctx (cx_claim ctx) name checksum)"

datatype outcome_status = OoApplied | OoSuperseded | OoFailed | OoRetry

record rec_outcome =
  oo_status :: outcome_status
  oo_checkpoint :: "string option"
  oo_final_result :: "payload option"
  oo_error_code :: "string option"
  oo_retryable :: bool

definition applied_outcome :: "string \<Rightarrow> payload \<Rightarrow> rec_outcome" where
  "applied_outcome cp final = \<lparr>oo_status = OoApplied, oo_checkpoint = Some cp, oo_final_result = Some final,
     oo_error_code = None, oo_retryable = False\<rparr>"

definition superseded_outcome :: "string option \<Rightarrow> string \<Rightarrow> rec_outcome" where
  "superseded_outcome cp code = \<lparr>oo_status = OoSuperseded, oo_checkpoint = cp, oo_final_result = None,
     oo_error_code = Some code, oo_retryable = False\<rparr>"

type_synonym handler =
  "op_state \<Rightarrow> history_event list \<Rightarrow> op_plan \<Rightarrow> rcontext \<Rightarrow> (rec_outcome \<times> rcontext) rp"

abbreviation diverged :: "string \<Rightarrow> py_error" where
  "diverged code \<equiv> OperationConsistencyError code"

section \<open>Handlers\<close>

definition verify_plan :: "runtime \<Rightarrow> string \<Rightarrow> op_state \<Rightarrow> op_plan \<Rightarrow> payload rp" where
  "verify_plan rt kind st plan =
     seqp (raise_if (pl_operation_kind plan \<noteq> kind \<or> os_operation_kind st \<noteq> kind)
             (diverged ''handler_operation_kind_mismatch''))
     (seqp (raise_if (Some (pl_reference plan) \<noteq> os_plan_reference st \<or>
                      payload_checksum rt (pl_payload plan) \<noteq> pl_checksum plan)
             (diverged ''operation_plan_mismatch''))
     (let fingerprint = pget (pl_payload plan) ''request_fingerprint'' PNone in
      seqp (raise_if (\<not> is_str fingerprint \<or> \<not> truthy fingerprint) (diverged ''operation_fingerprint_missing''))
      (ret (pl_payload plan))))"

definition existing_result :: "runtime \<Rightarrow> op_state \<Rightarrow> result_envelope option rp" where
  "existing_result rt st =
     bindp (load_operation_result (os_tenant_id st) (os_environment st) (os_product_id st) (os_operation_id st)) (\<lambda>result.
     case result of
       None \<Rightarrow> ret None
     | Some r \<Rightarrow>
         seqp (raise_if (payload_checksum rt (re_payload r) \<noteq> re_checksum r) (diverged ''operation_result_mismatch''))
         (ret (Some r)))"

definition final_payload :: "result_envelope option \<Rightarrow> int \<Rightarrow> string \<Rightarrow> payload" where
  "final_payload result revision etag = (case result of
      Some r \<Rightarrow> re_payload r
    | None \<Rightarrow> [(''revision'', PInt revision), (''etag'', PStr etag)])"

definition manual_membership_reconcile :: "runtime \<Rightarrow> handler" where
  "manual_membership_reconcile rt st history plan ctx =
     seqp (assert_owned ctx)
     (bindp (verify_plan rt ''manual_membership'' st plan) (\<lambda>payload.
      let target = pget payload ''membership_target'' PNone;
          membership_id = pget payload ''membership_id'' PNone in
      bindp (get_membership (os_tenant_id st) (os_environment st) (os_product_id st)
               (py_str rt (pget payload ''membership_id'' (PStr [])))) (\<lambda>found.
      bindp (case found of
          Some m \<Rightarrow> ret m
        | None \<Rightarrow>
            seqp (raise_if (\<not> is_mapping target) (diverged ''manual_membership_plan_incomplete''))
            (bindp (membership_validate rt target) (\<lambda>candidate.
             seqp (raise_if ((me_tenant_id candidate, me_environment candidate, me_product_id candidate,
                              PStr (me_membership_id candidate))
                             \<noteq> (os_tenant_id st, os_environment st, os_product_id st, membership_id))
                    (diverged ''manual_membership_plan_poisoned''))
             (create_membership (os_tenant_id st) (os_environment st) candidate)))) (\<lambda>m.
      seqp (raise_if (truthy target \<and> checksum_of rt (PDict (membership_dump m)) \<noteq> checksum_of rt target)
              (diverged ''membership_projection_diverged''))
      (seqp (raise_if (PStr (me_entity_id m) \<noteq> pget payload ''entity_id'' PNone \<or>
                       PStr (me_entity_type m) \<noteq> pget payload ''entity_type'' PNone)
              (diverged ''membership_projection_diverged''))
      (seqp (context_checkpoint ctx ''membership_projection'' (checksum_of rt (PDict (membership_dump m))))
      (bindp (existing_result rt st) (\<lambda>result.
       ret (applied_outcome ''membership_verified'' (final_payload result (me_revision m) (me_etag m)), ctx)))))))))"

datatype proposal_action = PaAccept | PaReject | PaExpire | PaSupersede

fun proposal_kind :: "proposal_action \<Rightarrow> string" where
  "proposal_kind PaAccept = ''proposal_accept''"
| "proposal_kind PaReject = ''proposal_reject''"
| "proposal_kind PaExpire = ''proposal_expire''"
| "proposal_kind PaSupersede = ''proposal_supersede''"

fun expected_proposal_state :: "proposal_action \<Rightarrow> proposal_state" where
  "expected_proposal_state PaAccept = PsAccepted"
| "expected_proposal_state PaReject = PsRejected"
| "expected_proposal_state PaExpire = PsExpired"
| "expected_proposal_state PaSupersede = PsSuperseded"

fun proposal_transition ::
  "proposal_action \<Rightarrow> string \<Rightarrow> string \<Rightarrow> string \<Rightarrow> string \<Rightarrow> int option \<Rightarrow> proposal rp" where
  "proposal_transition PaAccept = accept_membership_proposal"
| "proposal_transition PaReject = reject_membership_proposal"
| "proposal_transition PaExpire = expire_membership_proposal"
| "proposal_transition PaSupersede = supersede_membership_proposal"

text \<open>The repair of a proposal that is still proposed.\<close>

definition proposal_repair_membership :: "runtime \<Rightarrow> op_state \<Rightarrow> payload \<Rightarrow> rcontext \<Rightarrow> unit rp" where
  "proposal_repair_membership rt st payload ctx =
     (let target = pget payload ''membership_target'' PNone in
      seqp (raise_if (\<not> is_mapping target) (diverged ''proposal_membership_plan_incomplete''))
      (bindp (get_membership (os_tenant_id st) (os_environment st) (os_product_id st)
                (py_str rt (pget payload ''membership_id'' (PStr [])))) (\<lambda>found.
       seqp (case found of
           None \<Rightarrow> bindp (membership_validate rt target) (\<lambda>candidate.
                   bindp (create_membership (os_tenant_id st) (os_environment st) candidate) (\<lambda>_. ret ()))
         | Some m \<Rightarrow> raise_if (checksum_of rt (PDict (membership_dump m)) \<noteq> checksum_of rt target)
                       (diverged ''proposal_membership_diverged''))
       (context_checkpoint ctx ''proposal_membership'' (checksum_of rt target)))))"

definition proposal_repair ::
  "runtime \<Rightarrow> proposal_action \<Rightarrow> op_state \<Rightarrow> payload \<Rightarrow> rcontext \<Rightarrow> (proposal \<times> rcontext) rp" where
  "proposal_repair rt action st payload ctx =
     seqp (if action = PaAccept then proposal_repair_membership rt st payload ctx else ret ())
     (bindp (renew_if_needed ctx) (\<lambda>ctx1.
      bindp (lift_result (pitem payload ''proposal_id'')) (\<lambda>pid.
      bindp (lift_result (pitem payload ''proposal_revision'')) (\<lambda>prev.
      bindp (lift_result (py_int_of prev)) (\<lambda>revision.
      bindp (proposal_transition action (os_tenant_id st) (os_environment st) (os_product_id st)
               (py_str rt pid) (Some revision)) (\<lambda>v.
      seqp (context_checkpoint ctx1 ''proposal_transition'' (checksum_of rt (PDict (proposal_dump v))))
      (ret (v, ctx1))))))))"

definition proposal_decision_final :: "runtime \<Rightarrow> op_state \<Rightarrow> payload \<Rightarrow> proposal \<Rightarrow> payload rp" where
  "proposal_decision_final rt st payload v =
     bindp (get_membership_decision (os_tenant_id st) (os_environment st) (os_product_id st)
              (py_str rt (pget payload ''pending_event_id'' (PStr [])))) (\<lambda>pending.
     case pending of
       None \<Rightarrow> raise (diverged ''proposal_pending_evidence_missing'')
     | Some d \<Rightarrow>
         seqp (raise_if (de_operation_id d \<noteq> Some (os_operation_id st) \<or> de_outcome d \<noteq> OcPending)
                 (diverged ''proposal_pending_evidence_missing''))
         (ret [(''proposal_id'', PStr (pp_proposal_id v)),
               (''proposal_revision'', PInt (pp_proposal_revision v)),
               (''proposal_state'', PStr (proposal_state_str (pp_state v))),
               (''decision_id'', PStr (sha256 rt (PreText (os_operation_id st @ '':applied'')))),
               (''operation_id'', PStr (os_operation_id st)),
               (''applied_at'', PIso (de_occurred_at d))]))"

definition proposal_decision_reconcile :: "runtime \<Rightarrow> proposal_action \<Rightarrow> handler" where
  "proposal_decision_reconcile rt action st history plan ctx =
     seqp (assert_owned ctx)
     (bindp (verify_plan rt (proposal_kind action) st plan) (\<lambda>payload.
      bindp (get_membership_proposal (os_tenant_id st) (os_environment st) (os_product_id st)
               (py_str rt (pget payload ''proposal_id'' (PStr [])))) (\<lambda>found.
      case found of
        None \<Rightarrow> raise (diverged ''proposal_missing'')
      | Some v0 \<Rightarrow>
          bindp (if pp_state v0 = PsProposed then proposal_repair rt action st payload ctx else ret (v0, ctx)) (\<lambda>(v, ctx1).
          seqp (raise_if (pp_state v \<noteq> expected_proposal_state action) (diverged ''newer_proposal_decision''))
          (bindp (if action = PaAccept
                  then get_membership (os_tenant_id st) (os_environment st) (os_product_id st)
                         (py_str rt (pget payload ''membership_id'' (PStr [])))
                  else ret None) (\<lambda>membership.
           if action = PaAccept \<and> (case membership of None \<Rightarrow> True | Some m \<Rightarrow> me_state m \<noteq> MsActive)
           then ret (\<lparr>oo_status = OoRetry, oo_checkpoint = Some ''proposal_transition_verified'',
                      oo_final_result = None, oo_error_code = None, oo_retryable = True\<rparr>, ctx1)
           else
             bindp (existing_result rt st) (\<lambda>result.
             bindp (case (result, membership) of
                 (Some r, _) \<Rightarrow> ret (re_payload r)
               | (None, Some m) \<Rightarrow> ret [(''revision'', PInt (me_revision m)), (''etag'', PStr (me_etag m))]
               | (None, None) \<Rightarrow> proposal_decision_final rt st payload v) (\<lambda>final.
             ret (applied_outcome ''proposal_projection_verified'' final, ctx1)))))))))"

definition membership_exclusion_reconcile :: "runtime \<Rightarrow> handler" where
  "membership_exclusion_reconcile rt st history plan ctx =
     seqp (assert_owned ctx)
     (bindp (verify_plan rt ''membership_exclude'' st plan) (\<lambda>payload.
      bindp (get_membership (os_tenant_id st) (os_environment st) (os_product_id st)
               (py_str rt (pget payload ''membership_id'' (PStr [])))) (\<lambda>found.
      case found of
        None \<Rightarrow> raise (diverged ''membership_missing'')
      | Some m0 \<Rightarrow>
          bindp (if me_state m0 \<noteq> MsExcluded then
                   seqp (raise_if (PInt (me_revision m0) \<noteq> pget payload ''expected_revision'' PNone \<or>
                                   PStr (me_etag m0) \<noteq> pget payload ''expected_etag'' PNone)
                           (diverged ''membership_exclusion_source_diverged''))
                   (exclude_membership rt (os_tenant_id st) (os_environment st) (os_product_id st)
                      (me_membership_id m0) (py_str rt (pget payload ''actor'' (PStr ''reconciler'')))
                      (py_str rt (pget payload ''reason'' (PStr ''reconciliation''))) (me_etag m0))
                 else ret m0) (\<lambda>m.
          seqp (raise_if ((me_state m, PInt (me_revision m), PStr (me_etag m)) \<noteq>
                          (MsExcluded, pget payload ''target_revision'' PNone, pget payload ''target_etag'' PNone))
                  (diverged ''membership_exclusion_target_diverged''))
          (seqp (context_checkpoint ctx ''membership_exclusion'' (checksum_of rt (PDict (membership_dump m))))
          (bindp (existing_result rt st) (\<lambda>result.
           ret (applied_outcome ''exclusion_verified'' (final_payload result (me_revision m) (me_etag m)), ctx))))))))"

subsection \<open>Dependency replacement\<close>

definition chunk_size :: int where
  "chunk_size = 200"

text \<open>
  The loop over the chunks of one kind of edge; \<open>offset\<close> counts the edges of the chunks before. The
  first component is the early return.
\<close>

fun dependency_chunk_loop ::
  "op_state \<Rightarrow> int \<Rightarrow> string \<Rightarrow> string \<Rightarrow> (string \<Rightarrow> string \<Rightarrow> string \<Rightarrow> dep_edge list \<Rightarrow> unit rp) \<Rightarrow> int \<Rightarrow> int \<Rightarrow>
   dep_edge list list \<Rightarrow> rcontext \<Rightarrow> (rec_outcome option \<times> rcontext) rp" where
  "dependency_chunk_loop st target_revision name version apply_chunk edge_total offset [] ctx = ret (None, ctx)"
| "dependency_chunk_loop st target_revision name version apply_chunk edge_total offset (chunk # rest) ctx =
     seqp (assert_owned ctx)
     (bindp (renew_if_needed ctx) (\<lambda>ctx1.
      bindp (trycatch
          (seqp (apply_chunk (os_tenant_id st) (os_environment st) (os_product_id st) chunk) (ret None))
          (\<lambda>e. case e of
             DependencyEdgeSuperseded _ \<Rightarrow>
               bindp (get_product (os_tenant_id st) (os_environment st) (os_product_id st)) (\<lambda>latest.
               if (case latest of None \<Rightarrow> False | Some p \<Rightarrow> target_revision < pr_revision p)
               then ret (Some (superseded_outcome None ''dependency_edge_superseded''))
               else raise (diverged ''dependency_edge_diverged''))
           | _ \<Rightarrow> raise e)) (\<lambda>early.
      case early of
        Some out \<Rightarrow> ret (Some out, ctx1)
      | None \<Rightarrow>
          (let completed = min (offset + int (length chunk)) edge_total in
           seqp (context_checkpoint ctx1 (name @ '':'' @ int_str completed @ ''/'' @ int_str edge_total) version)
           (dependency_chunk_loop st target_revision name version apply_chunk edge_total
              (offset + int (length chunk)) rest ctx1)))))"

definition dependency_chunks ::
  "op_state \<Rightarrow> int \<Rightarrow> string \<Rightarrow> string \<Rightarrow> (string \<Rightarrow> string \<Rightarrow> string \<Rightarrow> dep_edge list \<Rightarrow> unit rp) \<Rightarrow>
   dep_edge list \<Rightarrow> rcontext \<Rightarrow> (rec_outcome option \<times> rcontext) rp" where
  "dependency_chunks st target_revision name version apply_chunk edges ctx =
     dependency_chunk_loop st target_revision name version apply_chunk (int (length edges)) 0
       (chunk_list (nat chunk_size) edges) ctx"

text \<open>The checks on the snapshot after the edges were written; returns the active edges.\<close>

definition edges_by_id :: "dep_edge list \<Rightarrow> (string \<times> dep_edge) list" where
  "edges_by_id edges = fold (\<lambda>ed d. dput (ed_upstream_product_id ed) ed d) edges []"

definition plan_edges :: "dep_plan \<Rightarrow> dep_edge list" where
  "plan_edges plan = dp_upserts plan @ dp_tombstones plan"

definition edge_matches :: "runtime \<Rightarrow> (string \<times> dep_edge) list \<Rightarrow> dep_edge \<Rightarrow> bool" where
  "edge_matches rt by_id expected = (case dget by_id (ed_upstream_product_id expected) of
      None \<Rightarrow> False | Some actual \<Rightarrow> edge_checksum rt actual = edge_checksum rt expected)"

definition active_of :: "dep_edge list \<Rightarrow> dep_edge list" where
  "active_of edges = sort_key ed_upstream_product_id (filter (\<lambda>ed. \<not> ed_removed ed) edges)"

definition verify_dependency_snapshot ::
  "runtime \<Rightarrow> dep_plan \<Rightarrow> payload \<Rightarrow> dep_snapshot \<Rightarrow> dep_edge list rp" where
  "verify_dependency_snapshot rt mplan payload snapshot =
     seqp (raise_if (\<not> sn_complete snapshot \<or> sn_count snapshot \<noteq> int (length (sn_dependencies snapshot)))
             (diverged ''dependency_snapshot_incomplete''))
     (let by_id = edges_by_id (sn_dependencies snapshot) in
      seqp (raise_if (length by_id \<noteq> length (sn_dependencies snapshot)) (diverged ''dependency_snapshot_diverged''))
      (seqp (raise_if (\<not> list_all (edge_matches rt by_id) (plan_edges mplan))
              (diverged ''dependency_snapshot_diverged''))
      (let active = active_of (sn_dependencies snapshot) in
       bindp (lift_result (py_tuple_of (pget payload ''upstream_product_ids'' (PList [])))) (\<lambda>ids.
       seqp (raise_if (map (\<lambda>ed. PStr (ed_upstream_product_id ed)) active \<noteq> ids)
               (diverged ''dependency_snapshot_diverged''))
       (let mutated = ed_upstream_product_id ` set (plan_edges mplan) in
        seqp (raise_if (list_ex (\<lambda>ed. (\<not> ed_removed ed \<or> ed_upstream_product_id ed \<in> mutated) \<and>
                                     ed_graph_version ed \<noteq> dp_after_graph_version mplan)
                          (sn_dependencies snapshot))
                (diverged ''dependency_graph_version_diverged''))
        (ret active))))))"

definition dependency_result_of ::
  "runtime \<Rightarrow> op_state \<Rightarrow> payload \<Rightarrow> revision_event \<Rightarrow> product \<Rightarrow> dep_plan \<Rightarrow> dep_snapshot \<Rightarrow> dep_edge list \<Rightarrow> dep_result" where
  "dependency_result_of rt st payload ev target mplan snapshot active =
     \<lparr>dr_operation = \<lparr>do_operation_id = os_operation_id st, do_tenant_id = os_tenant_id st,
        do_environment = os_environment st, do_product_id = os_product_id st, do_actor = ev_actor ev,
        do_reason = ev_reason ev, do_request_fingerprint = dp_request_fingerprint mplan,
        do_idempotency_key_hash = ''redacted'',
        do_expected_product_revision = dp_current_product_revision mplan,
        do_expected_product_etag = dp_expected_product_etag mplan,
        do_before_graph_version = dp_before_graph_version mplan,
        do_after_graph_version = dp_after_graph_version mplan,
        do_before_checksum = py_str rt (pget payload ''before_checksum'' (PStr [])),
        do_after_checksum = snapshot_checksum rt (sn_dependencies snapshot), do_outcome = ''applied'',
        do_occurred_at = ev_occurred_at ev, do_schema_version = ''v1''\<rparr>,
      dr_operation_result_product = target, dr_result_product_revision = pr_revision target,
      dr_result_product_etag = pr_etag target,
      dr_applied_at = (case ev_applied_at ev of None \<Rightarrow> ev_occurred_at ev | Some t \<Rightarrow> t),
      dr_result_definition_checksum = definition_checksum rt target,
      dr_result_graph_version = dp_after_graph_version mplan, dr_active_dependencies = active,
      dr_active_dependency_checksums = map (edge_checksum rt) active,
      dr_removed_dependency_ids = map ed_upstream_product_id (dp_tombstones mplan),
      dr_upserted_count = int (length (dp_upserts mplan)),
      dr_removed_count = int (length (dp_tombstones mplan)), dr_warnings = dp_warnings mplan,
      dr_request_fingerprint = dp_request_fingerprint mplan\<rparr>"

text \<open>The terminal event: the pending one applied at its own time.\<close>

definition applied_event :: "revision_event \<Rightarrow> revision_event" where
  "applied_event ev = ev\<lparr>ev_outcome := OcApplied,
     ev_applied_at := Some (case ev_applied_at ev of None \<Rightarrow> ev_occurred_at ev | Some t \<Rightarrow> t)\<rparr>"

definition save_detailed_result :: "op_state \<Rightarrow> dep_result \<Rightarrow> rcontext \<Rightarrow> unit rp" where
  "save_detailed_result st detailed ctx =
     bindp (trycatch
        (bindp (get_dependency_operation_result (os_tenant_id st) (os_environment st) (os_product_id st)
                  (os_operation_id st)) (\<lambda>r. ret (Some r)))
        (\<lambda>e. case e of KeyError _ \<Rightarrow> ret None | DependencyResultInconsistent _ \<Rightarrow> ret None | _ \<Rightarrow> raise e)) (\<lambda>existing.
     case existing of
       None \<Rightarrow> seqp (assert_owned ctx) (save_dependency_operation_result detailed)
     | Some r \<Rightarrow> raise_if (r \<noteq> detailed) (diverged ''dependency_detailed_result_diverged''))"

text \<open>From the written edges to the outcome.\<close>

definition dependency_finish ::
  "runtime \<Rightarrow> op_state \<Rightarrow> payload \<Rightarrow> revision_event \<Rightarrow> product \<Rightarrow> dep_plan \<Rightarrow> product \<Rightarrow> rcontext \<Rightarrow>
   (rec_outcome \<times> rcontext) rp" where
  "dependency_finish rt st payload ev target mplan p ctx =
     bindp (read_complete_dependency_snapshot (os_tenant_id st) (os_environment st) (os_product_id st)
              max_dependencies_per_product) (\<lambda>snapshot.
     bindp (verify_dependency_snapshot rt mplan payload snapshot) (\<lambda>active.
     seqp (context_checkpoint ctx ''projection_verified'' (snapshot_checksum rt (sn_dependencies snapshot)))
     (seqp (save_detailed_result st (dependency_result_of rt st payload ev target mplan snapshot active) ctx)
     (seqp (context_checkpoint ctx ''detailed_result_saved'' (snapshot_checksum rt active))
     (bindp (renew_if_needed ctx) (\<lambda>ctx1.
      seqp (finish_operation (applied_event ev))
      (seqp (context_checkpoint ctx1 ''dependency_revision_evidence'' (ev_definition_checksum ev))
      (bindp (existing_result rt st) (\<lambda>result.
       ret (applied_outcome ''dependency_projection_verified''
              (final_payload result (pr_revision p) (pr_etag p)), ctx1))))))))))"

definition dependency_replacement_reconcile :: "runtime \<Rightarrow> handler" where
  "dependency_replacement_reconcile rt st history plan ctx =
     seqp (assert_owned ctx)
     (bindp (verify_plan rt ''dependency_replace'' st plan) (\<lambda>payload.
      bindp (load_dependency_operation_plan (os_tenant_id st) (os_environment st) (os_operation_id st)) (\<lambda>detailed.
      case detailed of
        None \<Rightarrow> raise (diverged ''dependency_mutation_plan_missing'')
      | Some (ev, target, mplan) \<Rightarrow>
          seqp (raise_if (ev_product_id ev \<noteq> os_product_id st \<or> pr_id target \<noteq> os_product_id st \<or>
                          PStr (dp_request_fingerprint mplan) \<noteq> pget payload ''request_fingerprint'' PNone \<or>
                          PInt (dp_next_product_revision mplan) \<noteq> pget payload ''target_product_revision'' PNone \<or>
                          PStr (dp_new_product_etag mplan) \<noteq> pget payload ''target_product_etag'' PNone)
                  (diverged ''dependency_mutation_plan_poisoned''))
          (bindp (get_product (os_tenant_id st) (os_environment st) (os_product_id st)) (\<lambda>found.
           bindp (lift_result (py_int_of (pget payload ''target_product_revision'' (PInt (- 1))))) (\<lambda>target_revision.
           case found of
             None \<Rightarrow> raise (diverged ''dependency_product_missing'')
           | Some p0 \<Rightarrow>
               bindp (if pr_revision p0 < target_revision then
                        seqp (raise_if ((pr_revision p0, pr_etag p0) \<noteq>
                                        (dp_current_product_revision mplan, dp_expected_product_etag mplan))
                                (diverged ''dependency_product_diverged''))
                        (update_product target (pr_etag p0))
                      else ret p0) (\<lambda>p.
               seqp (context_checkpoint ctx ''dependency_product_token'' (checksum_of rt (PProduct p)))
               (if target_revision < pr_revision p
                then ret (superseded_outcome (Some ''newer_product_revision'') ''newer_product_revision'', ctx)
                else
                  seqp (raise_if (PStr (pr_etag p) \<noteq> pget payload ''target_product_etag'' PNone)
                          (diverged ''dependency_product_diverged''))
                  (bindp (dependency_chunks st target_revision ''upserts'' (dp_after_graph_version mplan)
                            apply_dependency_upsert_chunk (dp_upserts mplan) ctx) (\<lambda>(early, ctx1).
                   case early of
                     Some out \<Rightarrow> ret (out, ctx1)
                   | None \<Rightarrow>
                       bindp (dependency_chunks st target_revision ''tombstones'' (dp_after_graph_version mplan)
                                apply_dependency_tombstone_chunk (dp_tombstones mplan) ctx1) (\<lambda>(early2, ctx2).
                       case early2 of
                         Some out \<Rightarrow> ret (out, ctx2)
                       | None \<Rightarrow> dependency_finish rt st payload ev target mplan p ctx2)))))))))))"

subsection \<open>Product lifecycle\<close>

definition lifecycle_repair :: "runtime \<Rightarrow> payload \<Rightarrow> int \<Rightarrow> product \<Rightarrow> rcontext \<Rightarrow> product rp" where
  "lifecycle_repair rt payload target_revision p ctx =
     seqp (raise_if (PInt (pr_revision p) \<noteq> pget payload ''expected_revision'' PNone \<or>
                     PStr (pr_etag p) \<noteq> pget payload ''expected_etag'' PNone)
             (diverged ''lifecycle_projection_diverged''))
     (let raw_target = pget payload ''target_product'' PNone in
      seqp (raise_if (\<not> is_mapping raw_target) (diverged ''lifecycle_plan_incomplete''))
      (bindp (lift_result (product_validate raw_target)) (\<lambda>target.
       seqp (raise_if (pr_revision target \<noteq> target_revision \<or>
                       PStr (pr_etag target) \<noteq> pget payload ''target_etag'' PNone \<or>
                       PStr (lifecycle_str (pr_lifecycle_state target)) \<noteq> pget payload ''target_lifecycle'' PNone)
               (diverged ''lifecycle_plan_poisoned''))
       (bindp (update_product target (pr_etag p)) (\<lambda>saved.
        seqp (context_checkpoint ctx ''lifecycle_transition'' (checksum_of rt (PProduct target)))
        (ret saved))))))"

definition product_lifecycle_reconcile :: "runtime \<Rightarrow> handler" where
  "product_lifecycle_reconcile rt st history plan ctx =
     seqp (assert_owned ctx)
     (bindp (verify_plan rt ''product_lifecycle'' st plan) (\<lambda>payload.
      bindp (get_product (os_tenant_id st) (os_environment st) (os_product_id st)) (\<lambda>found.
      bindp (lift_result (py_int_of (pget payload ''target_revision'' (PInt (- 1))))) (\<lambda>target_revision.
      case found of
        None \<Rightarrow> raise (diverged ''lifecycle_product_missing'')
      | Some p0 \<Rightarrow>
          bindp (if pr_revision p0 < target_revision then lifecycle_repair rt payload target_revision p0 ctx
                 else ret p0) (\<lambda>p.
          if target_revision < pr_revision p
          then ret (superseded_outcome None ''newer_lifecycle_revision'', ctx)
          else
            seqp (raise_if (PStr (lifecycle_str (pr_lifecycle_state p)) \<noteq> pget payload ''target_lifecycle'' PNone \<or>
                            PStr (pr_etag p) \<noteq> pget payload ''target_etag'' PNone)
                    (diverged ''lifecycle_projection_diverged''))
            (bindp (get_operation (os_tenant_id st) (os_environment st) (os_operation_id st)) (\<lambda>pending.
             case pending of
               None \<Rightarrow> raise (diverged ''lifecycle_revision_event_missing'')
             | Some ev \<Rightarrow>
                 seqp (raise_if (PStr (ev_definition_checksum ev) \<noteq> pget payload ''target_definition_checksum'' PNone)
                         (diverged ''lifecycle_revision_event_missing''))
                 (bindp (renew_if_needed ctx) (\<lambda>ctx1.
                  seqp (finish_operation (applied_event ev))
                  (bindp (get_product_revision (os_tenant_id st) (os_environment st) (os_product_id st) target_revision) (\<lambda>revision.
                   seqp (raise_if (case revision of None \<Rightarrow> True | Some q \<Rightarrow> pr_etag q \<noteq> pr_etag p)
                           (diverged ''lifecycle_revision_snapshot_missing''))
                   (seqp (context_checkpoint ctx1 ''lifecycle_revision_evidence'' (ev_definition_checksum ev))
                   (bindp (existing_result rt st) (\<lambda>result.
                    ret (applied_outcome ''lifecycle_projection_verified''
                           (final_payload result (pr_revision p) (pr_etag p)), ctx1)))))))))))))))"

section \<open>Registry\<close>

type_synonym registry = "string \<Rightarrow> handler option"

definition concrete_handler :: "runtime \<Rightarrow> registry" where
  "concrete_handler rt kind =
     (if kind = ''manual_membership'' then Some (manual_membership_reconcile rt)
      else if kind = ''proposal_accept'' then Some (proposal_decision_reconcile rt PaAccept)
      else if kind = ''proposal_reject'' then Some (proposal_decision_reconcile rt PaReject)
      else if kind = ''proposal_expire'' then Some (proposal_decision_reconcile rt PaExpire)
      else if kind = ''proposal_supersede'' then Some (proposal_decision_reconcile rt PaSupersede)
      else if kind = ''membership_exclude'' then Some (membership_exclusion_reconcile rt)
      else if kind = ''dependency_replace'' then Some (dependency_replacement_reconcile rt)
      else if kind = ''product_lifecycle'' then Some (product_lifecycle_reconcile rt)
      else None)"

text \<open>The constructor: the concrete handlers, updated with the ones given.\<close>

definition registry_init :: "runtime \<Rightarrow> registry \<Rightarrow> registry" where
  "registry_init rt handlers kind =
     (case handlers kind of None \<Rightarrow> concrete_handler rt kind | Some h \<Rightarrow> Some h)"

definition registry_get :: "registry \<Rightarrow> string \<Rightarrow> handler rp" where
  "registry_get reg kind = (case reg kind of
      None \<Rightarrow> raise (diverged ''unknown_operation_kind'') | Some h \<Rightarrow> ret h)"

section \<open>Results and terminal evidence\<close>

definition non_accept_proposal_kinds :: "string list" where
  "non_accept_proposal_kinds = [''proposal_reject'', ''proposal_expire'', ''proposal_supersede'']"

definition decode_final_result :: "runtime \<Rightarrow> string \<Rightarrow> result_envelope \<Rightarrow> py_error + final_result" where
  "decode_final_result rt kind result =
     (if payload_checksum rt (re_payload result) \<noteq> re_checksum result
      then Inl (diverged ''operation_result_mismatch'')
      else
        (let non_accept = (kind \<in> set non_accept_proposal_kinds);
             revision = pget (re_payload result) (if non_accept then ''proposal_revision'' else ''revision'') PNone;
             etag = (if non_accept then pget (re_payload result) ''decision_token'' (PStr (re_checksum result))
                     else pget (re_payload result) ''etag'' PNone);
             applied_at = (if non_accept
                then (case pget (re_payload result) ''applied_at'' PNone of PIso t \<Rightarrow> Some t | _ \<Rightarrow> None)
                else Some (re_created_at result))
         in case applied_at of
              None \<Rightarrow> Inl (diverged ''operation_result_schema_mismatch'')
            | Some t \<Rightarrow>
                (case revision of
                   PInt i \<Rightarrow>
                     if i < 0 then Inl (diverged ''operation_result_schema_mismatch'')
                     else if \<not> is_str etag \<or> \<not> truthy etag then Inl (diverged ''operation_result_schema_mismatch'')
                     else Inr \<lparr>fr_revision = i, fr_etag = py_str rt etag, fr_checksum = re_reference result,
                               fr_applied_at = t\<rparr>
                 | _ \<Rightarrow> Inl (diverged ''operation_result_schema_mismatch''))))"

text \<open>\<open>_terminal_semantics\<close>: an event without its delivery time and worker.\<close>

definition terminal_semantics :: "history_event \<Rightarrow> history_event" where
  "terminal_semantics ev = ev\<lparr>he_occurred_at := 0, he_worker_id := None\<rparr>"

section \<open>Durable intent and the coordinator\<close>

definition plan_reference_of :: "string \<Rightarrow> string \<Rightarrow> string" where
  "plan_reference_of operation_id checksum = ''plan:'' @ operation_id @ '':'' @ checksum"

definition pending_state ::
  "string \<Rightarrow> string \<Rightarrow> string \<Rightarrow> string \<Rightarrow> string \<Rightarrow> string \<Rightarrow> string \<Rightarrow> datetime \<Rightarrow> op_state" where
  "pending_state tenant_id environment product_id operation_id kind reference record_id created_at =
     \<lparr>os_operation_id = operation_id, os_tenant_id = tenant_id, os_environment = environment,
      os_product_id = product_id, os_operation_kind = kind, os_status = OsPending, os_attempt_count = 0,
      os_updated_at = created_at, os_claim_owner = None, os_claim_generation = 0, os_claimed_at = None,
      os_claim_expires_at = None, os_last_checkpoint = None, os_last_error_code = None,
      os_last_retryable_error = None, os_next_attempt_at = None, os_retry_after_seconds = None,
      os_plan_reference = Some reference, os_result_reference = None,
      os_idempotency_record_id = Some record_id, os_seq_no = 0, os_primary_term = 1\<rparr>"

definition persist_pending_operation ::
  "runtime \<Rightarrow> string \<Rightarrow> string \<Rightarrow> string \<Rightarrow> string \<Rightarrow> string \<Rightarrow> string \<Rightarrow> payload \<Rightarrow> datetime \<Rightarrow> op_state rp" where
  "persist_pending_operation rt tenant_id environment product_id operation_id kind record_id payload created_at =
     (let checksum = payload_checksum rt payload;
          reference = plan_reference_of operation_id checksum;
          st = pending_state tenant_id environment product_id operation_id kind reference record_id created_at in
      seqp (save_operation_plan \<lparr>pl_reference = reference, pl_tenant_id = tenant_id, pl_environment = environment,
              pl_product_id = product_id, pl_operation_id = operation_id, pl_operation_kind = kind,
              pl_checksum = checksum, pl_payload = payload\<rparr>)
      (seqp (create_operation_state st)
      (bindp (get_operation_state tenant_id environment operation_id) (\<lambda>found.
       ret (case found of None \<Rightarrow> st | Some x \<Rightarrow> x)))))"

section \<open>The operation service\<close>

record service =
  sv_worker_id :: string
  sv_claim_ttl_seconds :: int
  sv_claim_renewal_window_seconds :: int
  sv_max_attempts :: int
  sv_registry :: registry

definition service_init ::
  "runtime \<Rightarrow> string \<Rightarrow> int \<Rightarrow> int \<Rightarrow> int \<Rightarrow> registry option \<Rightarrow> py_error + service" where
  "service_init rt worker_id ttl window max_attempts reg =
     (if window < 0 \<or> ttl \<le> window
      then Inl (ValueError ''claim renewal window must be non-negative and less than claim TTL'')
      else Inr \<lparr>sv_worker_id = worker_id, sv_claim_ttl_seconds = ttl, sv_claim_renewal_window_seconds = window,
                sv_max_attempts = max_attempts,
                sv_registry = (case reg of None \<Rightarrow> registry_init rt (\<lambda>_. None) | Some r \<Rightarrow> r)\<rparr>)"

definition default_service :: "runtime \<Rightarrow> string \<Rightarrow> service" where
  "default_service rt worker_id = \<lparr>sv_worker_id = worker_id, sv_claim_ttl_seconds = 30,
     sv_claim_renewal_window_seconds = 10, sv_max_attempts = 5, sv_registry = registry_init rt (\<lambda>_. None)\<rparr>"

definition get_operation_status :: "string \<Rightarrow> string \<Rightarrow> string \<Rightarrow> op_state option rp" where
  "get_operation_status t e i = get_operation_state t e i"

definition service_result ::
  "service \<Rightarrow> string \<Rightarrow> recon_status \<Rightarrow> op_state option \<Rightarrow> bool \<Rightarrow> bool \<Rightarrow> string option \<Rightarrow> recon_result" where
  "service_result sv operation_id status st recovered retryable error_code =
     \<lparr>rr_operation_id = operation_id, rr_operation_kind = map_option os_operation_kind st, rr_status = status,
      rr_replayed = (case st of None \<Rightarrow> False | Some x \<Rightarrow> terminal_status (os_status x)),
      rr_recovered = recovered, rr_retryable = retryable,
      rr_attempt_count = (case st of None \<Rightarrow> 0 | Some x \<Rightarrow> os_attempt_count x),
      rr_claim_generation = (case st of None \<Rightarrow> 0 | Some x \<Rightarrow> os_claim_generation x),
      rr_last_checkpoint = Option.bind st (\<lambda>x. map_option cp_name (os_last_checkpoint x)),
      rr_result_reference = Option.bind st os_result_reference,
      rr_error_code = por error_code (Option.bind st os_last_error_code),
      rr_retry_after_seconds = (if retryable then Some (sv_claim_ttl_seconds sv) else None)\<rparr>"

definition service_renew_if_needed :: "runtime \<Rightarrow> service \<Rightarrow> claim \<Rightarrow> claim rp" where
  "service_renew_if_needed rt sv cl =
     bindp (utc_now rt) (\<lambda>now.
     if cl_expires_at cl - now \<le> seconds (sv_claim_renewal_window_seconds sv)
     then renew_operation_claim rt cl (now + seconds (sv_claim_ttl_seconds sv))
     else ret cl)"

definition checkpoint_now :: "runtime \<Rightarrow> claim \<Rightarrow> string \<Rightarrow> string \<Rightarrow> unit rp" where
  "checkpoint_now rt cl name checksum =
     bindp (utc_now rt) (\<lambda>now.
     checkpoint_operation rt cl \<lparr>cp_name = name, cp_checksum = checksum, cp_occurred_at = now\<rparr>)"

definition service_context :: "runtime \<Rightarrow> service \<Rightarrow> claim \<Rightarrow> rcontext" where
  "service_context rt sv cl = \<lparr>cx_claim = cl, cx_assert = assert_operation_claim rt,
     cx_renew = service_renew_if_needed rt sv, cx_checkpoint = checkpoint_now rt\<rparr>"

fun history_outcome_str :: "history_outcome \<Rightarrow> string" where
  "history_outcome_str HoPending = ''pending''"
| "history_outcome_str HoClaimed = ''claimed''"
| "history_outcome_str HoCheckpoint = ''checkpoint''"
| "history_outcome_str HoApplied = ''applied''"
| "history_outcome_str HoSuperseded = ''superseded''"
| "history_outcome_str HoFailed = ''failed''"

fun status_outcome :: "op_status \<Rightarrow> history_outcome" where
  "status_outcome OsPending = HoPending"
| "status_outcome OsClaimed = HoClaimed"
| "status_outcome OsApplied = HoApplied"
| "status_outcome OsSuperseded = HoSuperseded"
| "status_outcome OsFailed = HoFailed"

fun terminal_recon :: "op_status \<Rightarrow> recon_status" where
  "terminal_recon OsApplied = RsApplied"
| "terminal_recon OsSuperseded = RsSuperseded"
| "terminal_recon OsFailed = RsFailed"
| "terminal_recon _ = RsMissing"

definition history_limit :: int where
  "history_limit = 100"

definition append_terminal_history ::
  "runtime \<Rightarrow> op_state \<Rightarrow> op_plan \<Rightarrow> string option \<Rightarrow> history_outcome \<Rightarrow> unit rp" where
  "append_terminal_history rt st plan error_code status =
     (let code = por_else error_code (''reconciliation_'' @ history_outcome_str status);
          event_id = ''terminal:'' @ os_operation_id st @ '':'' @ history_outcome_str status @ '':'' @ pl_checksum plan in
      bindp (get_operation_history (os_tenant_id st) (os_environment st) (os_operation_id st) history_limit) (\<lambda>events.
      case find (\<lambda>ev. he_event_id ev = event_id) events of
        Some ev \<Rightarrow>
          raise_if (he_outcome ev \<noteq> status \<or> he_error_code ev \<noteq> Some code \<or> he_plan_checksum ev \<noteq> Some (pl_checksum plan))
            (diverged ''terminal_history_mismatch'')
      | None \<Rightarrow>
          bindp (lift_result (pitem (pl_payload plan) ''request_fingerprint'')) (\<lambda>fingerprint.
          bindp (utc_now rt) (\<lambda>now.
          append_operation_history
            \<lparr>he_event_id = event_id, he_operation_id = os_operation_id st, he_tenant_id = os_tenant_id st,
             he_environment = os_environment st, he_product_id = os_product_id st,
             he_operation_kind = os_operation_kind st,
             he_action = py_str rt (pget (pl_payload plan) ''action'' (PStr (os_operation_kind st))),
             he_outcome = status,
             he_actor = py_str rt (pget (pl_payload plan) ''actor'' (PStr ''reconciler'')),
             he_reason = py_str rt (pget (pl_payload plan) ''reason'' (PStr ''reconciliation'')),
             he_request_fingerprint = py_str rt fingerprint, he_occurred_at = now,
             he_expected_revision = PNone, he_expected_etag = PNone, he_result_revision = None,
             he_result_etag = None, he_plan_checksum = Some (pl_checksum plan), he_result_checksum = None,
             he_error_code = Some code, he_worker_id = None, he_applied_at = None, he_schema_version = ''v1''\<rparr>))))"

definition repair_terminal_revisit :: "runtime \<Rightarrow> op_state \<Rightarrow> unit rp" where
  "repair_terminal_revisit rt st = (case os_idempotency_record_id st of
      None \<Rightarrow> ret ()
    | Some [] \<Rightarrow> ret ()
    | Some (c # cs) \<Rightarrow>
        bindp (load_operation_plan (os_tenant_id st) (os_environment st) (os_product_id st) (os_operation_id st)) (\<lambda>found.
        case found of
          None \<Rightarrow> raise (diverged ''operation_plan_mismatch'')
        | Some plan \<Rightarrow>
            seqp (raise_if (Some (pl_reference plan) \<noteq> os_plan_reference st \<or>
                            payload_checksum rt (pl_payload plan) \<noteq> pl_checksum plan)
                    (diverged ''operation_plan_mismatch''))
            (let fingerprint = py_str rt (pget (pl_payload plan) ''request_fingerprint'' (PStr [])) in
             seqp (raise_if (fingerprint = []) (diverged ''operation_fingerprint_missing''))
             (bindp (get_operation_history (os_tenant_id st) (os_environment st) (os_operation_id st) history_limit) (\<lambda>events.
              let terminal = filter (\<lambda>ev. he_outcome ev = status_outcome (os_status st)) events in
              seqp (raise_if (terminal = []) (diverged ''terminal_history_missing''))
              (let ev = last terminal in
               seqp (raise_if (he_operation_kind ev \<noteq> os_operation_kind st \<or> he_plan_checksum ev \<noteq> Some (pl_checksum plan))
                       (diverged ''terminal_history_mismatch''))
               (if os_status st = OsApplied then
                  bindp (load_operation_result (os_tenant_id st) (os_environment st) (os_product_id st) (os_operation_id st)) (\<lambda>result.
                  case result of
                    None \<Rightarrow> raise (diverged ''operation_result_mismatch'')
                  | Some r \<Rightarrow>
                      seqp (raise_if (Some (re_reference r) \<noteq> os_result_reference st \<or>
                                      Some (re_checksum r) \<noteq> he_result_checksum ev)
                              (diverged ''operation_result_mismatch''))
                      (bindp (lift_result (decode_final_result rt (os_operation_kind st) r)) (\<lambda>evidence.
                       repair_idempotency_terminal rt (c # cs) (os_operation_id st) fingerprint ''completed''
                         (EvResult evidence))))
                else
                  repair_idempotency_terminal rt (c # cs) (os_operation_id st) fingerprint
                    (history_outcome_str (status_outcome (os_status st)))
                    (EvError (por_else (por (he_error_code ev) (os_last_error_code st))
                       (''reconciliation_'' @ history_outcome_str (status_outcome (os_status st))))))))))))"

text \<open>The repair of the reservation that closes each terminal branch.\<close>

definition repair_reservation ::
  "runtime \<Rightarrow> op_state \<Rightarrow> op_plan \<Rightarrow> string \<Rightarrow> evidence \<Rightarrow> unit rp" where
  "repair_reservation rt st plan out ev = (case os_idempotency_record_id st of
      None \<Rightarrow> ret ()
    | Some [] \<Rightarrow> ret ()
    | Some (c # cs) \<Rightarrow>
        bindp (lift_result (pitem (pl_payload plan) ''request_fingerprint'')) (\<lambda>fingerprint.
        repair_idempotency_terminal rt (c # cs) (os_operation_id st) (py_str rt fingerprint) out ev))"

definition terminal_event ::
  "runtime \<Rightarrow> string \<Rightarrow> string \<Rightarrow> string \<Rightarrow> op_state \<Rightarrow> op_plan \<Rightarrow> result_envelope \<Rightarrow> final_result \<Rightarrow> string \<Rightarrow>
   pyval \<Rightarrow> datetime \<Rightarrow> history_event" where
  "terminal_event rt tenant_id environment operation_id st plan result decoded checksum fingerprint now =
     \<lparr>he_event_id = ''terminal:'' @ operation_id @ '':'' @ checksum, he_operation_id = operation_id,
      he_tenant_id = tenant_id, he_environment = environment, he_product_id = os_product_id st,
      he_operation_kind = os_operation_kind st,
      he_action = py_str rt (pget (pl_payload plan) ''action'' (PStr (os_operation_kind st))),
      he_outcome = HoApplied,
      he_actor = py_str rt (pget (pl_payload plan) ''actor'' (PStr ''reconciler'')),
      he_reason = py_str rt (pget (pl_payload plan) ''reason'' (PStr ''reconciliation'')),
      he_request_fingerprint = py_str rt fingerprint, he_occurred_at = now,
      he_expected_revision = pget (pl_payload plan) ''expected_revision'' PNone,
      he_expected_etag = pget (pl_payload plan) ''expected_etag'' PNone,
      he_result_revision = Some (fr_revision decoded), he_result_etag = Some (fr_etag decoded),
      he_plan_checksum = Some (pl_checksum plan), he_result_checksum = Some (re_checksum result),
      he_error_code = None, he_worker_id = None, he_applied_at = Some (fr_applied_at decoded),
      he_schema_version = ''v1''\<rparr>"

text \<open>The stored result, or the envelope of the new one.\<close>

definition result_for ::
  "runtime \<Rightarrow> string \<Rightarrow> string \<Rightarrow> string \<Rightarrow> string \<Rightarrow> payload \<Rightarrow> result_envelope rp" where
  "result_for rt tenant_id environment product_id operation_id payload =
     (let checksum = payload_checksum rt payload in
      bindp (load_operation_result tenant_id environment product_id operation_id) (\<lambda>found.
      case found of
        Some r \<Rightarrow>
          seqp (raise_if (re_checksum r \<noteq> checksum \<or> canon (PDict (re_payload r)) \<noteq> canon (PDict payload))
                  (diverged ''operation_result_mismatch''))
          (ret r)
      | None \<Rightarrow>
          bindp (utc_now rt) (\<lambda>now.
          ret \<lparr>re_reference = ''result:'' @ operation_id @ '':'' @ checksum,
               re_tenant_id = tenant_id, re_environment = environment,
               re_product_id = product_id, re_operation_id = operation_id,
               re_checksum = checksum, re_payload = payload, re_created_at = now\<rparr>)))"

definition finish_applied ::
  "runtime \<Rightarrow> service \<Rightarrow> string \<Rightarrow> string \<Rightarrow> string \<Rightarrow> op_state \<Rightarrow> op_plan \<Rightarrow> history_event list \<Rightarrow> claim \<Rightarrow>
   payload \<Rightarrow> recon_result rp" where
  "finish_applied rt sv tenant_id environment operation_id st plan history cl payload =
     (let checksum = payload_checksum rt payload in
      bindp (result_for rt tenant_id environment (os_product_id st) operation_id payload) (\<lambda>result.
      bindp (lift_result (decode_final_result rt (os_operation_kind st) result)) (\<lambda>decoded.
      bindp (service_renew_if_needed rt sv cl) (\<lambda>cl1.
      seqp (checkpoint_now rt cl1 ''result_ready'' (re_checksum result))
      (seqp (save_operation_result result)
      (bindp (lift_result (pitem (pl_payload plan) ''request_fingerprint'')) (\<lambda>fingerprint.
       bindp (utc_now rt) (\<lambda>now.
       let terminal = terminal_event rt tenant_id environment operation_id st plan result decoded checksum fingerprint now in
       seqp (case find (\<lambda>ev. he_event_id ev = he_event_id terminal) history of
           None \<Rightarrow> append_operation_history terminal
         | Some ev \<Rightarrow> raise_if (terminal_semantics ev \<noteq> terminal_semantics terminal)
                        (diverged ''terminal_history_mismatch''))
       (seqp (repair_reservation rt st plan ''completed'' (EvResult decoded))
       (seqp (complete_operation rt cl1 decoded)
       (bindp (get_operation_state tenant_id environment operation_id) (\<lambda>final.
        ret (service_result sv operation_id RsApplied final True False None)))))))))))))"

definition finish_superseded ::
  "runtime \<Rightarrow> service \<Rightarrow> string \<Rightarrow> string \<Rightarrow> string \<Rightarrow> op_state \<Rightarrow> op_plan \<Rightarrow> claim \<Rightarrow> rec_outcome \<Rightarrow> recon_result rp" where
  "finish_superseded rt sv tenant_id environment operation_id st plan cl out =
     seqp (append_terminal_history rt st plan (oo_error_code out) HoSuperseded)
     (seqp (repair_reservation rt st plan ''superseded'' (EvError (por_else (oo_error_code out) ''newer_operation'')))
     (seqp (supersede_operation rt cl (por_else (oo_error_code out) ''newer_operation''))
     (bindp (get_operation_state tenant_id environment operation_id) (\<lambda>final.
      ret (service_result sv operation_id RsSuperseded final True False None)))))"

definition finish_failed ::
  "runtime \<Rightarrow> service \<Rightarrow> string \<Rightarrow> string \<Rightarrow> string \<Rightarrow> op_state \<Rightarrow> op_plan \<Rightarrow> claim \<Rightarrow> rec_outcome \<Rightarrow> recon_result rp" where
  "finish_failed rt sv tenant_id environment operation_id st plan cl out =
     seqp (append_terminal_history rt st plan (oo_error_code out) HoFailed)
     (seqp (repair_reservation rt st plan ''failed'' (EvError (por_else (oo_error_code out) ''reconciliation_failed'')))
     (seqp (fail_operation rt cl (por_else (oo_error_code out) ''reconciliation_failed''))
     (bindp (get_operation_state tenant_id environment operation_id) (\<lambda>final.
      ret (service_result sv operation_id RsFailed final True False None)))))"

definition finish_retry ::
  "runtime \<Rightarrow> service \<Rightarrow> string \<Rightarrow> string \<Rightarrow> string \<Rightarrow> claim \<Rightarrow> rec_outcome \<Rightarrow> recon_result rp" where
  "finish_retry rt sv tenant_id environment operation_id cl out =
     (let code = por_else (oo_error_code out) (por_else (oo_checkpoint out) ''reconciliation_retry'') in
      bindp (utc_now rt) (\<lambda>now.
      seqp (schedule_operation_retry rt cl code (now + seconds (sv_claim_ttl_seconds sv)) (sv_claim_ttl_seconds sv))
      (bindp (get_operation_state tenant_id environment operation_id) (\<lambda>current.
       ret (service_result sv operation_id RsRetry current False True (oo_error_code out))))))"

text \<open>The body of the \<open>try\<close>: run the handler, then finish by its outcome.\<close>

definition reconcile_claimed ::
  "runtime \<Rightarrow> service \<Rightarrow> string \<Rightarrow> string \<Rightarrow> string \<Rightarrow> op_state \<Rightarrow> op_plan \<Rightarrow> history_event list \<Rightarrow> claim \<Rightarrow> recon_result rp" where
  "reconcile_claimed rt sv tenant_id environment operation_id st plan history cl =
     bindp (registry_get (sv_registry sv) (os_operation_kind st)) (\<lambda>h.
     bindp (h st history plan (service_context rt sv cl)) (\<lambda>(out, ctx).
     if oo_status out = OoRetry
     then finish_retry rt sv tenant_id environment operation_id (cx_claim ctx) out
     else
       bindp (service_renew_if_needed rt sv (cx_claim ctx)) (\<lambda>cl1.
       seqp (checkpoint_now rt cl1 (por_else (oo_checkpoint out) ''projections_verified'') (pl_checksum plan))
       (case oo_status out of
          OoApplied \<Rightarrow>
            finish_applied rt sv tenant_id environment operation_id st plan history cl1
              (case oo_final_result out of None \<Rightarrow> [] | Some p \<Rightarrow> p)
        | OoSuperseded \<Rightarrow> finish_superseded rt sv tenant_id environment operation_id st plan cl1 out
        | _ \<Rightarrow> finish_failed rt sv tenant_id environment operation_id st plan cl1 out))))"

definition retry_later :: "service \<Rightarrow> string \<Rightarrow> string \<Rightarrow> string \<Rightarrow> recon_result rp" where
  "retry_later sv tenant_id environment operation_id =
     bindp (get_operation_state tenant_id environment operation_id) (\<lambda>current.
     ret (service_result sv operation_id RsRetry current False True None))"

text \<open>The handler of \<open>OperationConsistencyError\<close>.\<close>

definition fail_consistency ::
  "runtime \<Rightarrow> service \<Rightarrow> string \<Rightarrow> string \<Rightarrow> string \<Rightarrow> op_state \<Rightarrow> op_plan \<Rightarrow> claim \<Rightarrow> string \<Rightarrow> recon_result rp" where
  "fail_consistency rt sv tenant_id environment operation_id st plan cl code =
     bindp (trycatch
       (seqp (append_terminal_history rt st plan (Some code) HoFailed)
       (seqp (repair_reservation rt st plan ''failed'' (EvError code))
       (seqp (fail_operation rt cl code) (ret True))))
       (\<lambda>e. case e of OperationClaimConflict _ \<Rightarrow> ret False | _ \<Rightarrow> raise e)) (\<lambda>finished.
     if finished then
       bindp (get_operation_state tenant_id environment operation_id) (\<lambda>final.
       ret (service_result sv operation_id RsFailed final False False (Some code)))
     else retry_later sv tenant_id environment operation_id)"

definition fail_early ::
  "runtime \<Rightarrow> service \<Rightarrow> string \<Rightarrow> string \<Rightarrow> string \<Rightarrow> claim \<Rightarrow> string \<Rightarrow> recon_result rp" where
  "fail_early rt sv tenant_id environment operation_id cl code =
     seqp (fail_operation rt cl code)
     (bindp (get_operation_state tenant_id environment operation_id) (\<lambda>final.
      ret (service_result sv operation_id RsFailed final False False (Some code))))"

text \<open>After the claim was granted.\<close>

definition reconcile_owned ::
  "runtime \<Rightarrow> service \<Rightarrow> string \<Rightarrow> string \<Rightarrow> string \<Rightarrow> claim \<Rightarrow> recon_result rp" where
  "reconcile_owned rt sv tenant_id environment operation_id cl =
     bindp (get_operation_state tenant_id environment operation_id) (\<lambda>found.
     case found of
       None \<Rightarrow> ret (service_result sv operation_id RsMissing None False False None)
     | Some st \<Rightarrow>
         if sv_max_attempts sv \<le> os_attempt_count st
         then fail_early rt sv tenant_id environment operation_id cl ''reconciliation_attempts_exhausted''
         else
           bindp (load_operation_plan tenant_id environment (os_product_id st) operation_id) (\<lambda>plan.
           case plan of
             None \<Rightarrow> fail_early rt sv tenant_id environment operation_id cl ''operation_plan_missing''
           | Some p \<Rightarrow>
               bindp (get_operation_history tenant_id environment operation_id history_limit) (\<lambda>history.
               trycatch (reconcile_claimed rt sv tenant_id environment operation_id st p history cl)
                 (\<lambda>e. case e of
                    OperationClaimConflict _ \<Rightarrow> retry_later sv tenant_id environment operation_id
                  | OperationConsistencyError code \<Rightarrow>
                      fail_consistency rt sv tenant_id environment operation_id st p cl code
                  | _ \<Rightarrow> raise e))))"

definition reconcile_operation :: "runtime \<Rightarrow> service \<Rightarrow> string \<Rightarrow> string \<Rightarrow> string \<Rightarrow> recon_result rp" where
  "reconcile_operation rt sv tenant_id environment operation_id =
     bindp (get_operation_state tenant_id environment operation_id) (\<lambda>found.
     case found of
       None \<Rightarrow> ret (service_result sv operation_id RsMissing None False False None)
     | Some st \<Rightarrow>
         if terminal_status (os_status st) then
           seqp (repair_terminal_revisit rt st)
           (ret (service_result sv operation_id (terminal_recon (os_status st)) (Some st) False False None))
         else
           bindp (utc_now rt) (\<lambda>now.
           bindp (trycatch
               (bindp (claim_operation tenant_id environment operation_id (sv_worker_id sv) now
                         (now + seconds (sv_claim_ttl_seconds sv)) (os_seq_no st) (os_primary_term st))
                  (\<lambda>cl. ret (Some cl)))
               (\<lambda>e. case e of OperationClaimConflict _ \<Rightarrow> ret None | _ \<Rightarrow> raise e)) (\<lambda>claimed.
           case claimed of
             None \<Rightarrow> ret (service_result sv operation_id RsRetry (Some st) False True None)
           | Some cl \<Rightarrow> reconcile_owned rt sv tenant_id environment operation_id cl)))"

fun count_status :: "recon_status \<Rightarrow> (recon_status \<times> int) list \<Rightarrow> (recon_status \<times> int) list" where
  "count_status x d = dput x ((case dget d x of None \<Rightarrow> 0 | Some n \<Rightarrow> n) + 1) d"

fun batch_loop ::
  "runtime \<Rightarrow> service \<Rightarrow> string \<Rightarrow> string \<Rightarrow> op_state list \<Rightarrow> (recon_status \<times> int) list \<Rightarrow> (recon_status \<times> int) list rp" where
  "batch_loop rt sv tenant_id environment [] counts = ret counts"
| "batch_loop rt sv tenant_id environment (st # sts) counts =
     bindp (reconcile_operation rt sv tenant_id environment (os_operation_id st)) (\<lambda>r.
     batch_loop rt sv tenant_id environment sts (count_status (rr_status r) counts))"

definition reconcile_batch ::
  "runtime \<Rightarrow> service \<Rightarrow> string \<Rightarrow> string \<Rightarrow> int \<Rightarrow> string option \<Rightarrow> (recon_status \<times> int) list rp" where
  "reconcile_batch rt sv tenant_id environment limit kind =
     seqp (raise_if (\<not> (1 \<le> limit \<and> limit \<le> 1000)) (ValueError ''reconciliation limit outside bounds''))
     (bindp (utc_now rt) (\<lambda>query_now.
      bindp (list_reconcilable_operations rt tenant_id environment limit kind (Some (Aware query_now))) (\<lambda>sts.
      batch_loop rt sv tenant_id environment sts
        [(RsApplied, 0), (RsSuperseded, 0), (RsFailed, 0), (RsRetry, 0), (RsMissing, 0)])))"

text \<open>The module function \<open>reconcile_pending\<close>: \<open>apply\<close> is the caller's callback.\<close>

definition reconcile_pending ::
  "revision_event list \<Rightarrow> (revision_event \<Rightarrow> ('s, unit) py) \<Rightarrow> int \<Rightarrow> ('s, int) py" where
  "reconcile_pending events apply_event limit =
     seqp (raise_if (\<not> (1 \<le> limit \<and> limit \<le> 1000)) (ValueError ''reconciliation limit outside bounds''))
     (let pending = sort_key (\<lambda>ev. (ev_revision ev, ev_operation_id ev))
                      (filter (\<lambda>ev. ev_outcome ev = OcPending) events)
      in seqp (forp apply_event (slice_to limit pending)) (ret (min (int (length pending)) limit)))"

section \<open>The coordinator\<close>

definition coordinator_begin ::
  "runtime \<Rightarrow> string \<Rightarrow> string \<Rightarrow> string \<Rightarrow> string \<Rightarrow> string \<Rightarrow> string \<Rightarrow> payload \<Rightarrow> datetime \<Rightarrow> op_state rp" where
  "coordinator_begin = persist_pending_operation"

definition coordinator_checkpoint :: "runtime \<Rightarrow> claim \<Rightarrow> string \<Rightarrow> string \<Rightarrow> unit rp" where
  "coordinator_checkpoint rt cl name checksum = checkpoint_now rt cl name checksum"

definition coordinator_complete :: "runtime \<Rightarrow> claim \<Rightarrow> final_result \<Rightarrow> unit rp" where
  "coordinator_complete rt cl res = complete_operation rt cl res"

definition coordinator_fail :: "runtime \<Rightarrow> claim \<Rightarrow> string \<Rightarrow> unit rp" where
  "coordinator_fail rt cl code = fail_operation rt cl code"

definition coordinator_supersede :: "runtime \<Rightarrow> claim \<Rightarrow> string \<Rightarrow> unit rp" where
  "coordinator_supersede rt cl code = supersede_operation rt cl code"

definition coordinator_reconcile_pending ::
  "runtime \<Rightarrow> service \<Rightarrow> string \<Rightarrow> string \<Rightarrow> string \<Rightarrow> recon_result rp" where
  "coordinator_reconcile_pending rt sv tenant_id environment operation_id =
     reconcile_operation rt sv tenant_id environment operation_id"

definition replay_completed :: "runtime \<Rightarrow> string \<Rightarrow> string \<Rightarrow> string \<Rightarrow> string \<Rightarrow> final_result rp" where
  "replay_completed rt tenant_id environment product_id operation_id =
     bindp (get_operation_state tenant_id environment operation_id) (\<lambda>found.
     case found of
       None \<Rightarrow> raise (diverged ''operation_not_completed'')
     | Some st \<Rightarrow>
         seqp (raise_if (os_status st \<noteq> OsApplied) (diverged ''operation_not_completed''))
         (bindp (load_operation_result tenant_id environment product_id operation_id) (\<lambda>result.
          case result of
            None \<Rightarrow> raise (diverged ''operation_result_mismatch'')
          | Some r \<Rightarrow>
              seqp (raise_if (Some (re_reference r) \<noteq> os_result_reference st) (diverged ''operation_result_mismatch''))
              (lift_result (decode_final_result rt (os_operation_kind st) r)))))"

end
