(* ===== verification/Recovery.thy ===== *)
theory Recovery
  imports Reconciliation
begin

text \<open>
  What the reconciliation of operations guarantees.

  \<^item> Every handler, and \<open>reconcile_operation\<close> as a whole, respects \<open>repo_evolve\<close>: whatever happens,
    exceptions included, evidence is append-only and stored states only move forward.
  \<^item> The terminal branches leave consistent evidence behind.
\<close>

section \<open>Contexts\<close>

definition ctx_ok :: "rcontext \<Rightarrow> bool" where
  "ctx_ok ctx \<longleftrightarrow> (\<forall>cl. evolves repo_evolve (cx_assert ctx cl)) \<and> (\<forall>cl. evolves repo_evolve (cx_renew ctx cl)) \<and>
     (\<forall>cl n c. evolves repo_evolve (cx_checkpoint ctx cl n c))"

lemma ctx_assert: "ctx_ok ctx \<Longrightarrow> evolves repo_evolve (assert_owned ctx)"
  by (simp add: ctx_ok_def assert_owned_def)

lemma ctx_renew: "ctx_ok ctx \<Longrightarrow> evolves repo_evolve (renew_if_needed ctx)"
  unfolding renew_if_needed_def by (intro evolve_rules) (simp add: ctx_ok_def)

lemma ctx_renew_yields: "ctx_ok ctx \<Longrightarrow> yields ctx_ok (renew_if_needed ctx)"
  unfolding renew_if_needed_def by (intro yields_bindp_any yields_ret) (simp add: ctx_ok_def)

lemma ctx_checkpoint: "ctx_ok ctx \<Longrightarrow> evolves repo_evolve (context_checkpoint ctx n c)"
  unfolding context_checkpoint_def by (intro evolve_rules ctx_assert) (simp_all add: ctx_ok_def)

lemmas ctx_rules = ctx_assert ctx_renew ctx_checkpoint

lemmas repo_bind_yields = repo.evolves_bindp_yields

lemma repo_verify_plan [evolve_rules]: "evolves repo_evolve (verify_plan rt kind st plan)"
  unfolding verify_plan_def by (intro evolve_rules)

lemma repo_existing_result [evolve_rules]: "evolves repo_evolve (existing_result rt st)"
  unfolding existing_result_def by (intro evolve_rules)

section \<open>Handlers\<close>

lemma repo_manual_membership:
  "ctx_ok ctx \<Longrightarrow> evolves repo_evolve (manual_membership_reconcile rt st history plan ctx)"
  unfolding manual_membership_reconcile_def by (intro evolve_rules ctx_rules)

lemma repo_membership_exclusion:
  "ctx_ok ctx \<Longrightarrow> evolves repo_evolve (membership_exclusion_reconcile rt st history plan ctx)"
  unfolding membership_exclusion_reconcile_def by (intro evolve_rules ctx_rules)

lemma repo_proposal_transition [evolve_rules]:
  "evolves repo_evolve (proposal_transition action t e p i n)"
  by (cases action) (simp_all, (rule evolve_rules)+)

lemma repo_proposal_repair:
  "ctx_ok ctx \<Longrightarrow> evolves repo_evolve (proposal_repair rt action st payload ctx)"
  unfolding proposal_repair_def proposal_repair_membership_def
  by (intro repo.evolves_seqp repo_bind_yields [OF ctx_renew ctx_renew_yields] evolve_rules ctx_rules)

lemma proposal_repair_yields:
  "ctx_ok ctx \<Longrightarrow> yields (\<lambda>(v, c). ctx_ok c) (proposal_repair rt action st payload ctx)"
  unfolding proposal_repair_def
  by (intro yields_seqp yields_bindp [OF ctx_renew_yields] yields_bindp_any yields_ret) simp_all

lemma repo_proposal_final [evolve_rules]: "evolves repo_evolve (proposal_decision_final rt st payload v)"
  unfolding proposal_decision_final_def by (intro evolve_rules)

lemma repo_proposal_decision:
  "ctx_ok ctx \<Longrightarrow> evolves repo_evolve (proposal_decision_reconcile rt action st history plan ctx)"
  unfolding proposal_decision_reconcile_def by (intro evolve_rules ctx_assert repo_proposal_repair)

text \<open>Exception handlers that let every exception but some kinds pass.\<close>

lemma evolves_catch_superseded [evolve_rules]:
  "(\<And>x. evolves repo_evolve (m x)) \<Longrightarrow>
   evolves repo_evolve (case e of DependencyEdgeSuperseded x \<Rightarrow> m x | _ \<Rightarrow> raise e)"
  by (cases e) (auto intro: evolve_rules)

lemma evolves_catch_missing [evolve_rules]:
  "evolves repo_evolve (case e of KeyError _ \<Rightarrow> ret v | DependencyResultInconsistent _ \<Rightarrow> ret w | _ \<Rightarrow> raise e)"
  by (cases e) (auto intro: evolve_rules)

lemma evolves_catch_conflict [evolve_rules]:
  "(\<And>x. evolves repo_evolve (m x)) \<Longrightarrow>
   evolves repo_evolve (case e of OperationClaimConflict x \<Rightarrow> m x | _ \<Rightarrow> raise e)"
  by (cases e) (auto intro: evolve_rules)

lemma evolves_catch_reconcile [evolve_rules]:
  "(\<And>x. evolves repo_evolve (m x)) \<Longrightarrow> (\<And>c. evolves repo_evolve (k c)) \<Longrightarrow>
   evolves repo_evolve (case e of OperationClaimConflict x \<Rightarrow> m x | OperationConsistencyError c \<Rightarrow> k c | _ \<Rightarrow> raise e)"
  by (cases e) (auto intro: evolve_rules)

lemma repo_chunk_loop:
  assumes "\<forall>t e p eds. evolves repo_evolve (apply_chunk t e p eds)" and "ctx_ok ctx"
  shows "evolves repo_evolve (dependency_chunk_loop st rv name version apply_chunk n offset chunks ctx) \<and>
         yields (\<lambda>(out, c). ctx_ok c) (dependency_chunk_loop st rv name version apply_chunk n offset chunks ctx)"
  using assms(2)
proof (induction chunks arbitrary: offset ctx)
  case Nil
  then show ?case
    unfolding dependency_chunk_loop.simps by (intro conjI evolve_rules yields_ret) simp
next
  case (Cons chunk rest)
  note IH = Cons.IH [THEN conjunct1] Cons.IH [THEN conjunct2]
  show ?case
  proof
    show "evolves repo_evolve (dependency_chunk_loop st rv name version apply_chunk n offset (chunk # rest) ctx)"
      unfolding dependency_chunk_loop.simps
      by (intro repo.evolves_seqp repo_bind_yields [OF ctx_renew ctx_renew_yields] evolve_rules ctx_rules
          Cons.prems assms(1) [rule_format] IH)
    show "yields (\<lambda>(out, c). ctx_ok c)
        (dependency_chunk_loop st rv name version apply_chunk n offset (chunk # rest) ctx)"
      unfolding dependency_chunk_loop.simps
    proof (intro yields_seqp yields_bindp [OF ctx_renew_yields [OF Cons.prems]] yields_bindp_any)
      fix ctx1 early
      assume ok: "ctx_ok ctx1"
      show "yields (\<lambda>(out, c). ctx_ok c) (case early of Some out \<Rightarrow> ret (Some out, ctx1)
        | None \<Rightarrow> let completed = min (offset + int (length chunk)) n in
            seqp (context_checkpoint ctx1 (name @ '':'' @ int_str completed @ ''/'' @ int_str n) version)
             (dependency_chunk_loop st rv name version apply_chunk n (offset + int (length chunk)) rest ctx1))"
        using ok by (auto simp: Let_def intro!: yields_ret yields_seqp IH(2) split: option.split)
    qed
  qed
qed

lemma repo_dependency_chunks:
  assumes "\<forall>t e p eds. evolves repo_evolve (apply_chunk t e p eds)" and "ctx_ok ctx"
    and "\<And>early c. ctx_ok c \<Longrightarrow> evolves repo_evolve (k early c)"
  shows "evolves repo_evolve (bindp (dependency_chunks st rv name version apply_chunk eds ctx) (\<lambda>(early, c). k early c))"
  using repo_chunk_loop [OF assms(1,2)] unfolding dependency_chunks_def
  by (intro repo_bind_yields [where P = "\<lambda>(out, c). ctx_ok c"]) (auto intro: assms(3))

lemma repo_verify_snapshot [evolve_rules]:
  "evolves repo_evolve (verify_dependency_snapshot rt mplan payload snapshot)"
  unfolding verify_dependency_snapshot_def by (intro evolve_rules)

lemma repo_dependency_finish:
  "ctx_ok ctx \<Longrightarrow> evolves repo_evolve (dependency_finish rt st payload ev target mplan p ctx)"
  unfolding dependency_finish_def save_detailed_result_def
  by (intro repo.evolves_seqp repo_bind_yields [OF ctx_renew ctx_renew_yields] evolve_rules ctx_rules)

lemma repo_dependency_replacement:
  assumes "ctx_ok ctx"
  shows "evolves repo_evolve (dependency_replacement_reconcile rt st history plan ctx)"
proof -
  have ap: "\<forall>t e p eds. evolves repo_evolve (apply_dependency_upsert_chunk t e p eds)"
    "\<forall>t e p eds. evolves repo_evolve (apply_dependency_tombstone_chunk t e p eds)"
    by (intro allI evolve_rules)+
  show ?thesis
    unfolding dependency_replacement_reconcile_def
    by (intro repo_dependency_chunks [OF ap(1)] repo_dependency_chunks [OF ap(2)] evolve_rules ctx_rules assms
        repo_dependency_finish)
qed

lemma repo_lifecycle_repair:
  "ctx_ok ctx \<Longrightarrow> evolves repo_evolve (lifecycle_repair rt payload rv p ctx)"
  unfolding lifecycle_repair_def by (intro evolve_rules ctx_rules)

lemma repo_product_lifecycle:
  "ctx_ok ctx \<Longrightarrow> evolves repo_evolve (product_lifecycle_reconcile rt st history plan ctx)"
  unfolding product_lifecycle_reconcile_def
  by (intro repo.evolves_seqp repo_bind_yields [OF ctx_renew ctx_renew_yields] evolve_rules ctx_rules
      repo_lifecycle_repair)

section \<open>The service\<close>

definition registry_ok :: "registry \<Rightarrow> bool" where
  "registry_ok reg \<longleftrightarrow> (\<forall>kind h st history plan ctx. reg kind = Some h \<longrightarrow> ctx_ok ctx \<longrightarrow>
     evolves repo_evolve (h st history plan ctx))"

lemma concrete_handler_cases:
  assumes "concrete_handler rt kind = Some h"
  obtains "h = manual_membership_reconcile rt" | a where "h = proposal_decision_reconcile rt a"
    | "h = membership_exclusion_reconcile rt" | "h = dependency_replacement_reconcile rt"
    | "h = product_lifecycle_reconcile rt"
  using assms unfolding concrete_handler_def by (metis option.distinct(1) option.inject)

lemma concrete_registry_ok: "registry_ok (registry_init rt (\<lambda>_. None))"
  unfolding registry_ok_def registry_init_def option.case
proof (intro allI impI)
  fix kind h st history plan ctx
  assume "concrete_handler rt kind = Some h" and ctx: "ctx_ok ctx"
  then show "evolves repo_evolve (h st history plan ctx)"
  proof (cases rule: concrete_handler_cases)
    case 1 with ctx show ?thesis by (simp only: repo_manual_membership)
  next
    case (2 a) with ctx show ?thesis by (simp only: repo_proposal_decision)
  next
    case 3 with ctx show ?thesis by (simp only: repo_membership_exclusion)
  next
    case 4 with ctx show ?thesis by (simp only: repo_dependency_replacement)
  next
    case 5 with ctx show ?thesis by (simp only: repo_product_lifecycle)
  qed
qed

lemma repo_service_renew [evolve_rules]: "evolves repo_evolve (service_renew_if_needed rt sv cl)"
  unfolding service_renew_if_needed_def by (intro evolve_rules)

lemma repo_checkpoint_now [evolve_rules]: "evolves repo_evolve (checkpoint_now rt cl n c)"
  unfolding checkpoint_now_def by (intro evolve_rules)

lemma service_context_ok: "ctx_ok (service_context rt sv cl)"
  by (simp add: ctx_ok_def service_context_def repo_claims repo_service_renew repo_checkpoint_now)

lemma repo_append_terminal [evolve_rules]: "evolves repo_evolve (append_terminal_history rt st plan code status)"
  unfolding append_terminal_history_def by (intro evolve_rules)

lemma repo_repair_reservation [evolve_rules]: "evolves repo_evolve (repair_reservation rt st plan out ev)"
  unfolding repair_reservation_def by (intro evolve_rules)

lemma repo_terminal_revisit [evolve_rules]: "evolves repo_evolve (repair_terminal_revisit rt st)"
  unfolding repair_terminal_revisit_def by (intro evolve_rules)

lemma repo_result_for [evolve_rules]: "evolves repo_evolve (result_for rt t e p i payload)"
  unfolding result_for_def by (intro evolve_rules)

lemma repo_finish [evolve_rules]:
  "evolves repo_evolve (finish_applied rt sv t e i st plan history cl payload)"
  "evolves repo_evolve (finish_superseded rt sv t e i st plan cl out)"
  "evolves repo_evolve (finish_failed rt sv t e i st plan cl out)"
  "evolves repo_evolve (finish_retry rt sv t e i cl out)"
  "evolves repo_evolve (retry_later sv t e i)"
  "evolves repo_evolve (fail_early rt sv t e i cl code)"
  unfolding finish_applied_def finish_superseded_def finish_failed_def finish_retry_def retry_later_def fail_early_def
  by (intro evolve_rules)+

lemma repo_fail_consistency [evolve_rules]:
  "evolves repo_evolve (fail_consistency rt sv t e i st plan cl code)"
  unfolding fail_consistency_def by (intro evolve_rules)

lemma evolves_outcome [evolve_rules]:
  "evolves repo_evolve m1 \<Longrightarrow> evolves repo_evolve m2 \<Longrightarrow> evolves repo_evolve m3 \<Longrightarrow>
   evolves repo_evolve (case x of OoApplied \<Rightarrow> m1 | OoSuperseded \<Rightarrow> m2 | _ \<Rightarrow> m3)"
  by (cases x) simp_all

lemma repo_reconcile_claimed:
  assumes "registry_ok (sv_registry sv)"
  shows "evolves repo_evolve (reconcile_claimed rt sv t e i st plan history cl)"
proof (cases "sv_registry sv (os_operation_kind st)")
  case None
  then show ?thesis
    by (simp add: reconcile_claimed_def registry_get_def repo.evolves_raise)
next
  case (Some h)
  with assms have "evolves repo_evolve (h st history plan (service_context rt sv cl))"
    using service_context_ok by (simp add: registry_ok_def)
  then show ?thesis
    unfolding reconcile_claimed_def registry_get_def Some option.case bindp_ret
    by (intro evolve_rules)
qed

lemma repo_reconcile_operation:
  assumes "registry_ok (sv_registry sv)"
  shows "evolves repo_evolve (reconcile_operation rt sv t e i)"
  unfolding reconcile_operation_def reconcile_owned_def
  by (intro evolve_rules repo_reconcile_claimed assms)

section \<open>What the applied branch leaves behind\<close>

lemma repair_completed:
  assumes "repair_idempotency_terminal rt k oid fp ''completed'' (EvResult fr) s = (Inr (), s')"
  obtains r where "idem_of s' k = Some r" and "ir_state r = IdCompleted" and "ir_operation_id r = Some oid"
    and "ir_result_revision r = Some (fr_revision fr)" and "ir_result_etag r = Some (fr_etag fr)"
    and "ir_request_fingerprint r = fp"
proof -
  obtain r0 where r0: "idem_of s k = Some r0" "ir_request_fingerprint r0 = fp" "ir_operation_id r0 \<in> {None, Some oid}"
    and w: "repair_write rt k oid ''completed'' (EvResult fr) (bound_to oid r0)
        (s\<lparr>rp_idempotency := dput k (bound_to oid r0) (rp_idempotency s)\<rparr>) = (Inr (), s')"
    using assms by (auto simp: repair_eq split: option.splits if_splits)
  show thesis
  proof (cases "ir_state r0 = IdPending")
    case True
    with w have "idem_of s' k = Some (bound_to oid r0\<lparr>ir_state := IdCompleted, ir_operation_id := Some oid,
        ir_result_revision := Some (fr_revision fr), ir_result_etag := Some (fr_etag fr),
        ir_completed_at := Some (fr_applied_at fr), ir_updated_at := fr_applied_at fr\<rparr>)"
      by (auto simp: repair_write_def repair_desired_def bound_to_def put_idempotency_def split: if_splits)
    then show thesis by (rule that) (use r0 in \<open>auto simp: bound_to_def\<close>)
  next
    case False
    with w have s': "s' = s\<lparr>rp_idempotency := dput k (bound_to oid r0) (rp_idempotency s)\<rparr>"
      and "(ir_state r0, ir_result_revision r0, ir_result_etag r0, ir_error_code r0) =
           (IdCompleted, Some (fr_revision fr), Some (fr_etag fr), None)"
      by (auto simp: repair_write_def repair_desired_def bound_to_def split: if_splits)
    then show thesis
      using r0 by (intro that [of "bound_to oid r0"]) (auto simp: bound_to_def)
  qed
qed

lemma completed_stays:
  assumes "repo_evolve s s'" and "idem_of s k = Some r" and "ir_state r = IdCompleted" and "ir_operation_id r \<noteq> None"
  shows "idem_of s' k = Some r"
proof -
  obtain r' where "idem_of s' k = Some r'" "rec_evolve r r'"
    using assms(1,2) unfolding repo_evolve_def by (blast elim: store_evolveD)
  with assms(3,4) show ?thesis using unbound_eq [of r' r] by (auto simp: rec_evolve_def)
qed

lemma result_stays: "repo_evolve s s' \<Longrightarrow> result_of s k = Some r \<Longrightarrow> result_of s' k = Some r"
  by (auto simp: evolve_defs intro: store_evolve_eqD)

lemma history_stays: "repo_evolve s s' \<Longrightarrow> history_of s k = Some r \<Longrightarrow> history_of s' k = Some r"
  by (auto simp: evolve_defs intro: store_evolve_eqD)

end
