(* ===== verification/ProductService.thy ===== *)
theory ProductService
  imports Recovery
begin

text \<open>
  \<open>services/data_products/service.py\<close>: the class \<open>DataProductService\<close> over the memory repository.

  \<^item> \<open>validate_dependencies\<close>: the bounded depth-first search over the scoped product graph, with the
    graph cache and the two sets of nodes as its state (\<open>vsearch\<close>).
  \<^item> \<open>product_create\<close>, \<open>product_update\<close>, \<open>product_transition\<close> (the methods \<open>create\<close>, \<open>update\<close>,
    \<open>_transition\<close>) and the three lifecycle operations, on the repository state.
  The argument \<open>product\<close> of a method is a value: the fields the code assigns before it stores the
  product are those of the stored value.
\<close>

section \<open>The dependency search\<close>

record vsearch =
  vs_graph :: "(string \<times> string list) list"
  vs_visiting :: "string list"
  vs_visited :: "string list"

definition upstreams :: "product \<Rightarrow> string list" where
  "upstreams p = sorted_set (map dd_upstream_product_id (pr_dependencies p))"

text \<open>
  The graph entry of a node: the cached one, or the one read from the repository (\<open>lookup\<close>), which is
  cached.
\<close>

definition load_node :: "(string \<Rightarrow> product option) \<Rightarrow> string \<Rightarrow> (vsearch, string list) py" where
  "load_node lookup node = (\<lambda>v. case dget (vs_graph v) node of
      Some ns \<Rightarrow> (Inr ns, v)
    | None \<Rightarrow> (case lookup node of
          None \<Rightarrow> (Inl (ValueError (''unknown or cross-tenant dependency: '' @ node)), v)
        | Some p \<Rightarrow> (Inr (upstreams p), v\<lparr>vs_graph := dput node (upstreams p) (vs_graph v)\<rparr>)))"

function (sequential) vvisit ::
  "(string \<Rightarrow> product option) \<Rightarrow> int \<Rightarrow> int \<Rightarrow> string \<Rightarrow> int \<Rightarrow> (vsearch, unit) py"
  and vvisit_all ::
  "(string \<Rightarrow> product option) \<Rightarrow> int \<Rightarrow> int \<Rightarrow> string list \<Rightarrow> int \<Rightarrow> (vsearch, unit) py"
where
  "vvisit lookup max_depth max_nodes node depth v =
     (if max_depth < depth then (Inl (ValueError ''data product dependency depth limit exceeded''), v)
      else if node \<in> set (vs_visiting v) then (Inl (ValueError ''data product dependency cycle''), v)
      else if node \<in> set (vs_visited v) then (Inr (), v)
      else if max_nodes \<le> int (length (vs_visited v)) + int (length (vs_visiting v))
        then (Inl (ValueError ''data product dependency node limit exceeded''), v)
      else (case load_node lookup node (v\<lparr>vs_visiting := node # vs_visiting v\<rparr>) of
          (Inl e, v1) \<Rightarrow> (Inl e, v1)
        | (Inr ns, v1) \<Rightarrow> (case vvisit_all lookup max_depth max_nodes ns (depth + 1) v1 of
              (Inl e, v2) \<Rightarrow> (Inl e, v2)
            | (Inr _, v2) \<Rightarrow> (Inr (), v2\<lparr>vs_visiting := remove1 node (vs_visiting v2),
                                          vs_visited := node # vs_visited v2\<rparr>))))"
| "vvisit_all lookup max_depth max_nodes [] depth v = (Inr (), v)"
| "vvisit_all lookup max_depth max_nodes (n # ns) depth v =
     (case vvisit lookup max_depth max_nodes n depth v of
        (Inl e, v1) \<Rightarrow> (Inl e, v1)
      | (Inr _, v1) \<Rightarrow> vvisit_all lookup max_depth max_nodes ns depth v1)"
  by pat_completeness auto

termination
  by (relation "measures
        [\<lambda>x. case x of Inl (l, d, m, n, k, v) \<Rightarrow> nat (d + 1 - k) | Inr (l, d, m, ns, k, v) \<Rightarrow> nat (d + 1 - k),
         \<lambda>x. case x of Inl (l, d, m, n, k, v) \<Rightarrow> 0 | Inr (l, d, m, ns, k, v) \<Rightarrow> Suc (length ns)]") auto

declare vvisit.simps [simp del]

definition vsearch_start :: "product \<Rightarrow> vsearch" where
  "vsearch_start p = \<lparr>vs_graph = [(pr_id p, upstreams p)], vs_visiting = [], vs_visited = []\<rparr>"

definition scoped_lookup :: "product \<Rightarrow> repo \<Rightarrow> string \<Rightarrow> product option" where
  "scoped_lookup p s node = dget (rp_items s) (pr_tenant_id p, pr_environment p, node)"

definition validate_dependencies :: "product \<Rightarrow> int \<Rightarrow> int \<Rightarrow> unit rp" where
  "validate_dependencies p max_depth max_nodes = (\<lambda>s.
     (fst (vvisit (scoped_lookup p s) max_depth max_nodes (pr_id p) 0 (vsearch_start p)), s))"

section \<open>Operations of the service\<close>

definition lifecycle_service :: "runtime \<Rightarrow> service" where
  "lifecycle_service rt = default_service rt ''lifecycle-runtime''"

definition pending_event ::
  "runtime \<Rightarrow> product \<Rightarrow> string \<Rightarrow> string \<Rightarrow> product_action \<Rightarrow> string option \<Rightarrow> revision_event rp" where
  "pending_event rt p actor reason action idempotency_key =
     (let checksum = definition_checksum rt p;
          key = por_else idempotency_key checksum in
      bindp (lift_result (event_operation_id rt (pr_tenant_id p) (pr_environment p) (pr_id p) (pr_revision p) key)) (\<lambda>oid.
      bindp (utc_now rt) (\<lambda>now.
      ret \<lparr>ev_operation_id = oid, ev_product_id = pr_id p, ev_tenant_id = pr_tenant_id p,
           ev_environment = pr_environment p, ev_revision = pr_revision p, ev_etag = pr_etag p,
           ev_definition_checksum = checksum, ev_actor = actor, ev_reason = reason, ev_action = action,
           ev_outcome = OcPending, ev_occurred_at = now, ev_applied_at = None, ev_error_code = None\<rparr>)))"

definition finish_applied_event :: "runtime \<Rightarrow> revision_event \<Rightarrow> unit rp" where
  "finish_applied_event rt ev =
     bindp (utc_now rt) (\<lambda>now.
     finish_operation (ev\<lparr>ev_outcome := OcApplied, ev_applied_at := Some now\<rparr>))"

definition product_create ::
  "runtime \<Rightarrow> product \<Rightarrow> string \<Rightarrow> string \<Rightarrow> string option \<Rightarrow> product rp" where
  "product_create rt p0 actor reason idempotency_key =
     seqp (raise_if (ow_team (pr_owner p0) = []) (ValueError ''owner and criticality are required''))
     (let p1 = p0\<lparr>pr_revision := 1\<rparr> in
      seqp (validate_dependencies p1 32 1000)
      (let p = p1\<lparr>pr_etag := product_etag rt p1\<rparr> in
       bindp (pending_event rt p actor reason AcCreate idempotency_key) (\<lambda>ev.
       bindp (begin_operation ev p) (\<lambda>existing.
       if ev_outcome existing = OcApplied then
         bindp (get_product (pr_tenant_id p) (pr_environment p) (pr_id p)) (\<lambda>replay.
         case replay of
           None \<Rightarrow> raise (RuntimeError ''applied operation is missing current state'')
         | Some r \<Rightarrow> ret r)
       else
         bindp (create_product p) (\<lambda>created.
         seqp (finish_applied_event rt ev) (ret created))))))"

definition product_get :: "string \<Rightarrow> string \<Rightarrow> string \<Rightarrow> product rp" where
  "product_get tenant_id environment product_id =
     bindp (get_product tenant_id environment product_id) (\<lambda>found.
     case found of None \<Rightarrow> raise (KeyError product_id) | Some p \<Rightarrow> ret p)"

text \<open>The repository's \<open>list_products\<close> takes the keyword \<open>cursor\<close> and ignores it.\<close>

definition product_list :: "string \<Rightarrow> string \<Rightarrow> int \<Rightarrow> string option \<Rightarrow> product list rp" where
  "product_list tenant_id environment limit cursor = list_products tenant_id environment limit []"

definition product_update ::
  "runtime \<Rightarrow> product \<Rightarrow> string option \<Rightarrow> string \<Rightarrow> string \<Rightarrow> string option \<Rightarrow> product_action \<Rightarrow> product rp" where
  "product_update rt p0 if_match actor reason idempotency_key action =
     seqp (raise_if (if_match = None \<or> if_match = Some []) (ProductVersionConflict ''If-Match is required''))
     (bindp (get_product (pr_tenant_id p0) (pr_environment p0) (pr_id p0)) (\<lambda>found.
      case found of
        None \<Rightarrow> raise (KeyError (pr_id p0))
      | Some current \<Rightarrow>
          seqp (raise_if (Some (pr_etag current) \<noteq> if_match) (ProductVersionConflict ''stale data product ETag''))
          (let p1 = p0\<lparr>pr_revision := pr_revision current + 1\<rparr> in
           seqp (validate_dependencies p1 32 1000)
           (bindp (utc_now rt) (\<lambda>now.
            let p2 = p1\<lparr>pr_updated_at := now\<rparr>; p = p2\<lparr>pr_etag := product_etag rt p2\<rparr> in
            bindp (pending_event rt p actor reason action idempotency_key) (\<lambda>ev.
            bindp (begin_operation ev p) (\<lambda>existing.
            bindp (if ev_outcome existing = OcApplied
                   then bindp (get_product (pr_tenant_id p) (pr_environment p) (pr_id p)) (\<lambda>replay.
                     ret (case replay of None \<Rightarrow> None
                          | Some r \<Rightarrow> if pr_revision p \<le> pr_revision r then Some r else None))
                   else ret None) (\<lambda>replay.
            case replay of
              Some r \<Rightarrow> ret r
            | None \<Rightarrow>
                bindp (update_product p (the if_match)) (\<lambda>saved.
                seqp (finish_applied_event rt ev) (ret saved)))))))))) "

section \<open>Lifecycle transitions\<close>

fun canonical_action :: "lifecycle \<Rightarrow> py_error + product_action" where
  "canonical_action LcActive = Inr AcActivate"
| "canonical_action LcDeprecated = Inr AcDeprecate"
| "canonical_action LcArchived = Inr AcArchive"
| "canonical_action LcDraft = Inl (KeyError ''draft'')"

fun allowed_targets :: "lifecycle \<Rightarrow> lifecycle list" where
  "allowed_targets LcDraft = [LcActive, LcArchived]"
| "allowed_targets LcActive = [LcDeprecated, LcArchived]"
| "allowed_targets LcDeprecated = [LcArchived]"
| "allowed_targets LcArchived = []"

fun product_action_str :: "product_action \<Rightarrow> string" where
  "product_action_str AcCreate = ''create''"
| "product_action_str AcUpdate = ''update''"
| "product_action_str AcActivate = ''activate''"
| "product_action_str AcDeprecate = ''deprecate''"
| "product_action_str AcArchive = ''archive''"

fun recon_status_str :: "recon_status \<Rightarrow> string" where
  "recon_status_str RsApplied = ''applied''"
| "recon_status_str RsSuperseded = ''superseded''"
| "recon_status_str RsFailed = ''failed''"
| "recon_status_str RsRetry = ''retry''"
| "recon_status_str RsMissing = ''missing''"

text \<open>\<open>outcome.error_code or f"operation_{outcome.status}"\<close>.\<close>

definition outcome_code :: "recon_result \<Rightarrow> string" where
  "outcome_code r = por_else (rr_error_code r) (''operation_'' @ recon_status_str (rr_status r))"

text \<open>The two ways a reservation is answered before any current state is read.\<close>

definition replay_completed_revision :: "string \<Rightarrow> string \<Rightarrow> string \<Rightarrow> idem_record \<Rightarrow> product rp" where
  "replay_completed_revision tenant_id environment product_id r =
     (case ir_result_revision r of
        None \<Rightarrow> raise (IdempotencyPending ''completed result has no revision'')
      | Some revision \<Rightarrow>
          bindp (get_product_revision tenant_id environment product_id revision) (\<lambda>replay.
          case replay of
            None \<Rightarrow> raise (IdempotencyPending ''completed result is not yet visible'')
          | Some p \<Rightarrow>
              seqp (raise_if (Some (pr_etag p) \<noteq> ir_result_etag r)
                      (IdempotencyPending ''completed result is not yet visible''))
              (ret p)))"

definition recover_pending_transition ::
  "runtime \<Rightarrow> string \<Rightarrow> string \<Rightarrow> string \<Rightarrow> string \<Rightarrow> string \<Rightarrow> product rp" where
  "recover_pending_transition rt tenant_id environment product_id record_id operation_id =
     bindp (coordinator_reconcile_pending rt (lifecycle_service rt) tenant_id environment operation_id) (\<lambda>recovered.
     bindp (if rr_status recovered = RsApplied then
              bindp (get_idempotency record_id) (\<lambda>repaired.
              case Option.bind repaired ir_result_revision of
                None \<Rightarrow> ret None
              | Some revision \<Rightarrow>
                  bindp (get_product_revision tenant_id environment product_id revision) (\<lambda>replay.
                  ret (case replay of None \<Rightarrow> None
                       | Some p \<Rightarrow> if Some (pr_etag p) = Option.bind repaired ir_result_etag then Some p else None)))
            else ret None) (\<lambda>replay.
     case replay of Some p \<Rightarrow> ret p | None \<Rightarrow> raise (IdempotencyPending (outcome_code recovered))))"

definition adopt_applied_operation ::
  "runtime \<Rightarrow> string \<Rightarrow> string \<Rightarrow> string \<Rightarrow> string \<Rightarrow> string \<Rightarrow> product option rp" where
  "adopt_applied_operation rt tenant_id environment product_id record_id operation_id =
     bindp (get_operation tenant_id environment operation_id) (\<lambda>found.
     case found of
       None \<Rightarrow> ret None
     | Some op \<Rightarrow>
         if ev_outcome op \<noteq> OcApplied then ret None
         else
           bindp (get_product_revision tenant_id environment product_id (ev_revision op)) (\<lambda>replay.
           case replay of
             None \<Rightarrow> raise (IdempotencyPending ''operation result is not yet visible'')
           | Some p \<Rightarrow>
               seqp (raise_if (pr_etag p \<noteq> ev_etag op) (IdempotencyPending ''operation result is not yet visible''))
               (seqp (complete_idempotency rt record_id (ev_operation_id op) (ev_revision op) (ev_etag op))
               (ret (Some p)))))"

definition replay_transition ::
  "runtime \<Rightarrow> string \<Rightarrow> string \<Rightarrow> string \<Rightarrow> string \<Rightarrow> idem_record \<Rightarrow> product option rp" where
  "replay_transition rt tenant_id environment product_id record_id r =
     (if ir_state r = IdCompleted then
        bindp (replay_completed_revision tenant_id environment product_id r) (\<lambda>p. ret (Some p))
      else (case ir_operation_id r of
          Some (c # cs) \<Rightarrow>
            if ir_state r = IdPending then
              bindp (get_operation_state tenant_id environment (c # cs)) (\<lambda>st.
              if st \<noteq> None then
                bindp (recover_pending_transition rt tenant_id environment product_id record_id (c # cs))
                  (\<lambda>p. ret (Some p))
              else adopt_applied_operation rt tenant_id environment product_id record_id (c # cs))
            else ret None
        | _ \<Rightarrow> ret None))"

definition lifecycle_payload ::
  "runtime \<Rightarrow> string \<Rightarrow> string \<Rightarrow> string \<Rightarrow> product_action \<Rightarrow> product \<Rightarrow> string option \<Rightarrow> product \<Rightarrow> string \<Rightarrow> payload" where
  "lifecycle_payload rt fingerprint actor reason action current if_match changed operation_id =
     [(''request_fingerprint'', PStr fingerprint),
      (''actor'', PStr actor),
      (''reason'', PStr reason),
      (''action'', PStr (product_action_str action)),
      (''expected_revision'', PInt (pr_revision current)),
      (''expected_etag'', opt_str if_match),
      (''source_lifecycle'', PStr (lifecycle_str (pr_lifecycle_state current))),
      (''target_lifecycle'', PStr (lifecycle_str (pr_lifecycle_state changed))),
      (''target_revision'', PInt (pr_revision changed)),
      (''target_etag'', PStr (pr_etag changed)),
      (''target_definition_checksum'', PStr (definition_checksum rt changed)),
      (''target_product'', PProduct changed),
      (''pending_event_id'', PStr operation_id)]"

definition guard_transition :: "product \<Rightarrow> lifecycle \<Rightarrow> unit rp" where
  "guard_transition current target =
     seqp (raise_if (target \<notin> set (allowed_targets (pr_lifecycle_state current)))
             (ValueError (''invalid lifecycle transition: '' @ lifecycle_str (pr_lifecycle_state current) @ '' -> '' @
                lifecycle_str target)))
     (raise_if (target = LcActive \<and> (ow_team (pr_owner current) = [] \<or> pr_outputs current = []))
        (ValueError ''activation requires owner, criticality, and at least one output''))"

definition execute_transition ::
  "runtime \<Rightarrow> string \<Rightarrow> string \<Rightarrow> string \<Rightarrow> lifecycle \<Rightarrow> product_action \<Rightarrow> string option \<Rightarrow> string \<Rightarrow> string \<Rightarrow>
   string \<Rightarrow> string \<Rightarrow> string \<Rightarrow> product rp" where
  "execute_transition rt tenant_id environment product_id target action if_match actor reason idempotency_key
       fingerprint record_id =
     bindp (product_get tenant_id environment product_id) (\<lambda>current.
     seqp (guard_transition current target)
     (bindp (utc_now rt) (\<lambda>now.
      let changed1 = current\<lparr>pr_lifecycle_state := target, pr_revision := pr_revision current + 1, pr_updated_at := now\<rparr>;
          changed = changed1\<lparr>pr_etag := product_etag rt changed1\<rparr> in
      bindp (pending_event rt changed actor reason action (Some idempotency_key)) (\<lambda>op.
      seqp (coordinator_begin rt tenant_id environment product_id (ev_operation_id op) ''product_lifecycle'' record_id
              (lifecycle_payload rt fingerprint actor reason action current if_match changed (ev_operation_id op))
              (ev_occurred_at op))
      (bindp (product_update rt changed if_match actor reason (Some idempotency_key) action) (\<lambda>saved.
       bindp (coordinator_reconcile_pending rt (lifecycle_service rt) tenant_id environment (ev_operation_id op)) (\<lambda>out.
       seqp (raise_if (rr_status out \<noteq> RsApplied) (IdempotencyPending (outcome_code out)))
       (ret saved))))))))"

definition product_transition ::
  "runtime \<Rightarrow> string \<Rightarrow> string \<Rightarrow> string \<Rightarrow> lifecycle \<Rightarrow> string option \<Rightarrow> string \<Rightarrow> string \<Rightarrow> string option \<Rightarrow> product rp" where
  "product_transition rt tenant_id environment product_id target if_match actor reason idempotency_key =
     (case idempotency_key of
        None \<Rightarrow> raise (ValueError ''Idempotency-Key is required'')
      | Some [] \<Rightarrow> raise (ValueError ''Idempotency-Key is required'')
      | Some (c # cs) \<Rightarrow>
          bindp (lift_result (canonical_action target)) (\<lambda>action.
          let fingerprint = request_fingerprint rt tenant_id environment product_id (product_action_str action)
                (PDict []) actor reason if_match in
          bindp (lift_result (scoped_record_id rt tenant_id environment product_id (c # cs))) (\<lambda>record_id.
          bindp (new_record rt tenant_id environment product_id (product_action_str action) (c # cs) fingerprint 30) (\<lambda>r.
          bindp (reserve_idempotency record_id r) (\<lambda>reserved.
          bindp (replay_transition rt tenant_id environment product_id record_id (rv_record reserved)) (\<lambda>replay.
          case replay of
            Some p \<Rightarrow> ret p
          | None \<Rightarrow>
              execute_transition rt tenant_id environment product_id target action if_match actor reason (c # cs)
                fingerprint record_id))))))"

definition activate ::
  "runtime \<Rightarrow> string \<Rightarrow> string \<Rightarrow> string \<Rightarrow> string option \<Rightarrow> string \<Rightarrow> string \<Rightarrow> string option \<Rightarrow> product rp" where
  "activate rt t e p if_match actor reason key = product_transition rt t e p LcActive if_match actor reason key"

definition deprecate ::
  "runtime \<Rightarrow> string \<Rightarrow> string \<Rightarrow> string \<Rightarrow> string option \<Rightarrow> string \<Rightarrow> string \<Rightarrow> string option \<Rightarrow> product rp" where
  "deprecate rt t e p if_match actor reason key = product_transition rt t e p LcDeprecated if_match actor reason key"

definition archive ::
  "runtime \<Rightarrow> string \<Rightarrow> string \<Rightarrow> string \<Rightarrow> string option \<Rightarrow> string \<Rightarrow> string \<Rightarrow> string option \<Rightarrow> product rp" where
  "archive rt t e p if_match actor reason key = product_transition rt t e p LcArchived if_match actor reason key"

end
