(* ===== verification/DependencyService.thy ===== *)
theory DependencyService
  imports ProductService
begin

text \<open>
  \<open>services/data_products/dependency_service.py\<close>: the class \<open>DataProductDependencyService\<close>. The
  replacement of the declared dependencies of a product is prepared (reservation, upstream checks,
  cycle check, mutation plan), made durable, and applied by the reconciler.
\<close>

section \<open>Results\<close>

record dep_mutation_result =
  dm_product :: product
  dm_dependencies :: "dep_edge list"
  dm_operation_id :: string
  dm_replayed :: bool
  dm_warnings :: "string list"
  dm_removed_count :: int
  dm_upserted_count :: int
  dm_graph_version :: string
  dm_recovered :: bool
  dm_operation_status :: string

definition dependency_worker :: "runtime \<Rightarrow> service" where
  "dependency_worker rt = default_service rt ''dependency-runtime''"

definition replayed_result :: "dep_result \<Rightarrow> string \<Rightarrow> bool \<Rightarrow> dep_mutation_result" where
  "replayed_result r operation_id recovered =
     \<lparr>dm_product = dr_operation_result_product r, dm_dependencies = dr_active_dependencies r,
      dm_operation_id = operation_id, dm_replayed = True, dm_warnings = dr_warnings r,
      dm_removed_count = dr_removed_count r, dm_upserted_count = dr_upserted_count r,
      dm_graph_version = dr_result_graph_version r, dm_recovered = recovered, dm_operation_status = ''completed''\<rparr>"

section \<open>Verification of the complete snapshot\<close>

definition read_and_verify_complete_dependency_result ::
  "runtime \<Rightarrow> string \<Rightarrow> string \<Rightarrow> string \<Rightarrow> dep_plan \<Rightarrow> dep_edge list rp" where
  "read_and_verify_complete_dependency_result rt tenant_id environment product_id plan =
     bindp (read_complete_dependency_snapshot tenant_id environment product_id max_dependencies_per_product) (\<lambda>snapshot.
     seqp (raise_if (\<not> sn_complete snapshot \<or> sn_count snapshot \<noteq> int (length (sn_dependencies snapshot)))
             (DependencyResultInconsistent ''dependency_snapshot_incomplete''))
     (seqp (raise_if (\<not> distinct (map ed_upstream_product_id (sn_dependencies snapshot)))
             (DependencyResultInconsistent ''duplicate_upstream_dependency''))
     (seqp (raise_if (\<not> list_all (edge_matches rt (edges_by_id (sn_dependencies snapshot)))
                          (dp_upserts plan @ dp_tombstones plan))
             (DependencyResultInconsistent ''dependency_plan_edge_diverged''))
     (ret (sort_key ed_upstream_product_id (filter (\<lambda>ed. \<not> ed_removed ed) (sn_dependencies snapshot)))))))"

section \<open>Replay of a reservation\<close>

definition replay_completed_dependencies ::
  "runtime \<Rightarrow> string \<Rightarrow> string \<Rightarrow> string \<Rightarrow> idem_record \<Rightarrow> dep_mutation_result rp" where
  "replay_completed_dependencies rt tenant_id environment product_id r =
     (case (ir_operation_id r, ir_result_revision r, ir_result_etag r) of
        (Some (c # cs), Some revision, Some (q # qs)) \<Rightarrow>
          if revision = 0 then raise (RuntimeError ''completed idempotency result is incomplete'')
          else
            bindp (get_dependency_operation_result tenant_id environment product_id (c # cs)) (\<lambda>immutable.
            seqp (raise_if (dr_result_product_revision immutable \<noteq> revision \<or>
                            dr_result_product_etag immutable \<noteq> q # qs \<or>
                            definition_checksum rt (dr_operation_result_product immutable)
                              \<noteq> dr_result_definition_checksum immutable \<or>
                            map (edge_checksum rt) (dr_active_dependencies immutable)
                              \<noteq> dr_active_dependency_checksums immutable)
                    (DependencyResultInconsistent ''dependency_result_inconsistent''))
            (ret (replayed_result immutable (c # cs) False)))
      | _ \<Rightarrow> raise (RuntimeError ''completed idempotency result is incomplete''))"

definition recover_pending_dependencies ::
  "runtime \<Rightarrow> string \<Rightarrow> string \<Rightarrow> string \<Rightarrow> string \<Rightarrow> dep_mutation_result rp" where
  "recover_pending_dependencies rt tenant_id environment product_id operation_id =
     bindp (coordinator_reconcile_pending rt (dependency_worker rt) tenant_id environment operation_id) (\<lambda>out.
     seqp (raise_if (rr_status out \<noteq> RsApplied) (DependencyOperationPending operation_id))
     (bindp (get_dependency_operation_result tenant_id environment product_id operation_id) (\<lambda>immutable.
      ret (replayed_result immutable operation_id True))))"

section \<open>The mutation plan\<close>

text \<open>The operation that fails the reservation and raises.\<close>

definition reject_reserved :: "runtime \<Rightarrow> string \<Rightarrow> string \<Rightarrow> py_error \<Rightarrow> 'a rp" where
  "reject_reserved rt record_id code e = seqp (fail_idempotency rt record_id code) (raise e)"

fun join_arrow :: "string list \<Rightarrow> string" where
  "join_arrow [] = []"
| "join_arrow [x] = x"
| "join_arrow (x # y # zs) = x @ '' -> '' @ join_arrow (y # zs)"

definition products_by_id :: "product list \<Rightarrow> (string \<times> product) list" where
  "products_by_id ps = fold (\<lambda>p d. dput (pr_id p) p d) ps []"

definition upsert_edge ::
  "string \<Rightarrow> string \<Rightarrow> string \<Rightarrow> int \<Rightarrow> string \<Rightarrow> datetime \<Rightarrow> (string \<times> dep_edge) list \<Rightarrow> string \<Rightarrow> dep_edge" where
  "upsert_edge tenant_id environment product_id revision graph_version now current upstream =
     \<lparr>ed_tenant_id = tenant_id, ed_environment = environment, ed_product_id = product_id,
      ed_upstream_product_id = upstream, ed_relationship = ''depends_on'', ed_source = ''declared'',
      ed_evidence_refs = [], ed_confidence = 1, ed_observed_at = now, ed_product_revision = revision,
      ed_graph_version = graph_version,
      ed_created_at = (case dget current upstream of Some ed \<Rightarrow> ed_created_at ed | None \<Rightarrow> now),
      ed_updated_at = now, ed_removed = False, ed_removed_at = None, ed_removed_by_revision = None,
      ed_schema_version = ''v1''\<rparr>"

definition tombstone_edge :: "int \<Rightarrow> string \<Rightarrow> datetime \<Rightarrow> dep_edge \<Rightarrow> dep_edge" where
  "tombstone_edge revision graph_version now ed = ed\<lparr>
     ed_removed := True, ed_removed_at := Some now, ed_removed_by_revision := Some revision,
     ed_updated_at := now, ed_product_revision := revision, ed_graph_version := graph_version\<rparr>"

definition planned_upserts ::
  "string \<Rightarrow> string \<Rightarrow> string \<Rightarrow> int \<Rightarrow> string \<Rightarrow> datetime \<Rightarrow> dep_edge list \<Rightarrow> string list \<Rightarrow> dep_edge list" where
  "planned_upserts tenant_id environment product_id revision graph_version now edges canonical =
     map (upsert_edge tenant_id environment product_id revision graph_version now (edges_by_id edges)) canonical"

definition planned_tombstones :: "int \<Rightarrow> string \<Rightarrow> datetime \<Rightarrow> dep_edge list \<Rightarrow> string list \<Rightarrow> dep_edge list" where
  "planned_tombstones revision graph_version now edges canonical =
     map (\<lambda>kv. tombstone_edge revision graph_version now (snd kv))
       (filter (\<lambda>kv. \<not> ed_removed (snd kv) \<and> fst kv \<notin> set canonical) (sort_key fst (edges_by_id edges)))"

definition next_declared_product :: "runtime \<Rightarrow> product \<Rightarrow> string list \<Rightarrow> datetime \<Rightarrow> product" where
  "next_declared_product rt p canonical now =
     (let p1 = p\<lparr>pr_dependencies := map (\<lambda>u. \<lparr>dd_upstream_product_id = u, dd_evidence_refs = [], dd_observed_at = now\<rparr>) canonical,
                 pr_revision := pr_revision p + 1, pr_updated_at := now\<rparr>
      in p1\<lparr>pr_etag := product_etag rt p1\<rparr>)"

definition dependency_payload ::
  "runtime \<Rightarrow> string \<Rightarrow> string \<Rightarrow> string \<Rightarrow> product \<Rightarrow> string \<Rightarrow> product \<Rightarrow> string \<Rightarrow> string list \<Rightarrow> dep_edge list \<Rightarrow> payload" where
  "dependency_payload rt fingerprint actor reason p expected_etag nxt graph_version canonical edges =
     [(''request_fingerprint'', PStr fingerprint),
      (''actor'', PStr (strip actor)),
      (''reason'', PStr (strip reason)),
      (''action'', PStr ''dependency_replace''),
      (''expected_revision'', PInt (pr_revision p)),
      (''expected_etag'', PStr expected_etag),
      (''target_product_revision'', PInt (pr_revision nxt)),
      (''target_product_etag'', PStr (pr_etag nxt)),
      (''graph_version'', PStr graph_version),
      (''upstream_product_ids'', PList (map PStr canonical)),
      (''before_checksum'', PStr (snapshot_checksum rt edges))]"

text \<open>From the validated request to the applied replacement.\<close>

definition apply_replacement ::
  "runtime \<Rightarrow> string \<Rightarrow> string \<Rightarrow> string \<Rightarrow> product \<Rightarrow> dep_edge list \<Rightarrow> string list \<Rightarrow> string list \<Rightarrow> string \<Rightarrow>
   string \<Rightarrow> string \<Rightarrow> string \<Rightarrow> string \<Rightarrow> dep_mutation_result rp" where
  "apply_replacement rt tenant_id environment product_id p edges canonical warnings expected_etag actor reason
       fingerprint record_id =
     bindp (utc_now rt) (\<lambda>now.
     let graph_version = sha256 rt (PreText (join_with nul canonical));
         nxt = next_declared_product rt p canonical now;
         upserts = planned_upserts tenant_id environment product_id (pr_revision nxt) graph_version now edges canonical;
         tombstones = planned_tombstones (pr_revision nxt) graph_version now edges canonical;
         plan = \<lparr>dp_current_product_revision = pr_revision p, dp_next_product_revision = pr_revision nxt,
                 dp_expected_product_etag = expected_etag, dp_new_product_etag = pr_etag nxt,
                 dp_before_graph_version = (case edges of [] \<Rightarrow> [] | ed # _ \<Rightarrow> ed_graph_version ed),
                 dp_after_graph_version = graph_version, dp_upserts = upserts, dp_tombstones = tombstones,
                 dp_warnings = warnings, dp_request_fingerprint = fingerprint\<rparr>;
         operation_id = sha256 rt (PreText (record_id @ fingerprint));
         ev = \<lparr>ev_operation_id = operation_id, ev_product_id = product_id, ev_tenant_id = tenant_id,
               ev_environment = environment, ev_revision = pr_revision nxt, ev_etag = pr_etag nxt,
               ev_definition_checksum = definition_checksum rt nxt, ev_actor = strip actor,
               ev_reason = strip reason, ev_action = AcUpdate, ev_outcome = OcPending, ev_occurred_at = now,
               ev_applied_at = None, ev_error_code = None\<rparr> in
     seqp (begin_dependency_operation ev nxt plan)
     (seqp (coordinator_begin rt tenant_id environment product_id operation_id ''dependency_replace'' record_id
             (dependency_payload rt fingerprint actor reason p expected_etag nxt graph_version canonical edges) now)
     (bindp (coordinator_reconcile_pending rt (dependency_worker rt) tenant_id environment operation_id) (\<lambda>out.
      seqp (raise_if (rr_status out \<noteq> RsApplied) (DependencyOperationPending operation_id))
      (bindp (get_dependency_operation_result tenant_id environment product_id operation_id) (\<lambda>immutable.
       ret \<lparr>dm_product = dr_operation_result_product immutable, dm_dependencies = dr_active_dependencies immutable,
            dm_operation_id = operation_id, dm_replayed = False, dm_warnings = warnings,
            dm_removed_count = int (length tombstones), dm_upserted_count = int (length upserts),
            dm_graph_version = graph_version, dm_recovered = False, dm_operation_status = ''completed''\<rparr>))))))"

text \<open>The checks between the new reservation and the plan.\<close>

definition execute_replacement ::
  "runtime \<Rightarrow> string \<Rightarrow> string \<Rightarrow> string \<Rightarrow> string list \<Rightarrow> string \<Rightarrow> string \<Rightarrow> string \<Rightarrow> string \<Rightarrow> string \<Rightarrow>
   dep_mutation_result rp" where
  "execute_replacement rt tenant_id environment product_id canonical expected_etag actor reason fingerprint record_id =
     bindp (get_product tenant_id environment product_id) (\<lambda>found.
     case found of
       None \<Rightarrow> reject_reserved rt record_id ''not_found'' (KeyError product_id)
     | Some p \<Rightarrow>
         if pr_etag p \<noteq> expected_etag
         then reject_reserved rt record_id ''stale_etag'' (ProductVersionConflict ''stale data product ETag'')
         else
           bindp (read_complete_dependency_snapshot tenant_id environment product_id max_dependencies_per_product) (\<lambda>snapshot.
           bindp (get_products_by_ids tenant_id environment canonical) (\<lambda>ps.
           let upstream = products_by_id ps;
               missing = sorted_set (filter (\<lambda>u. u \<notin> fst ` set upstream) canonical);
               archived = sort (map fst (filter (\<lambda>kv. pr_lifecycle_state (snd kv) = LcArchived) upstream)) in
           case missing @ archived of
             u # _ \<Rightarrow> reject_reserved rt record_id ''invalid_upstream'' (KeyError u)
           | [] \<Rightarrow>
               let warnings = map (\<lambda>kv. ''deprecated_upstream:'' @ fst kv)
                     (filter (\<lambda>kv. pr_lifecycle_state (snd kv) = LcDeprecated) (sort_key fst upstream));
                   active_elsewhere = map (\<lambda>ed. (ed_product_id ed, ed_upstream_product_id ed))
                     (filter (\<lambda>ed. \<not> ed_removed ed \<and> ed_product_id ed \<noteq> product_id) (sn_dependencies snapshot));
                   cycle = find_cycle_path (build_adjacency (active_elsewhere @ map (\<lambda>u. (product_id, u)) canonical)) in
               if cycle \<noteq> []
               then reject_reserved rt record_id ''dependency_cycle'' (ValueError (''dependency_cycle:'' @ join_arrow cycle))
               else apply_replacement rt tenant_id environment product_id p (sn_dependencies snapshot) canonical warnings
                      expected_etag actor reason fingerprint record_id)))"

definition replace_declared_dependencies ::
  "runtime \<Rightarrow> string \<Rightarrow> string \<Rightarrow> string \<Rightarrow> string list \<Rightarrow> string \<Rightarrow> string \<Rightarrow> string \<Rightarrow> string \<Rightarrow>
   dep_mutation_result rp" where
  "replace_declared_dependencies rt tenant_id environment product_id upstream_ids expected_etag actor reason
       idempotency_key =
     seqp (raise_if (blank actor \<or> blank reason \<or> blank expected_etag \<or> blank idempotency_key)
             (ValueError ''actor, reason, If-Match, and Idempotency-Key are required''))
     (bindp (lift_result (canonical_upstream_ids product_id upstream_ids max_dependencies_per_product)) (\<lambda>canonical.
      bindp (lift_result (dependency_request_fingerprint rt tenant_id environment product_id canonical actor reason
               expected_etag)) (\<lambda>fingerprint.
      bindp (lift_result (scoped_record_id rt tenant_id environment product_id idempotency_key)) (\<lambda>record_id.
      bindp (new_record rt tenant_id environment product_id ''dependency_replace'' idempotency_key fingerprint 30) (\<lambda>r.
      bindp (reserve_idempotency record_id r) (\<lambda>reservation.
      if rv_status reservation = RvExistingCompleted
      then replay_completed_dependencies rt tenant_id environment product_id (rv_record reservation)
      else if rv_status reservation = RvExistingPending
      then recover_pending_dependencies rt tenant_id environment product_id
             (por_else (ir_operation_id (rv_record reservation)) (sha256 rt (PreText (record_id @ fingerprint))))
      else execute_replacement rt tenant_id environment product_id canonical expected_etag actor reason fingerprint
             record_id))))))"

end
