(* ===== verification/MembershipService.thy ===== *)
theory MembershipService
  imports ProductService
begin

text \<open>
  \<open>services/data_products/membership_service.py\<close>: the class \<open>DataProductMembershipService\<close>, one
  definition per method, with the long methods cut at their early returns: the replay of a completed
  reservation, the recovery of a pending one, the execution of a new one.
\<close>

section \<open>Results and identities\<close>

record membership_result =
  mr_membership :: membership
  mr_operation_id :: string
  mr_replayed :: bool
  mr_decision_refs :: "string list"

record proposal_result =
  qr_proposal :: proposal
  qr_membership :: "membership option"
  qr_operation_id :: string
  qr_replayed :: bool
  qr_decision_refs :: "string list"
  qr_warnings :: "string list"

record exclusion_result =
  xr_membership :: membership
  xr_operation_id :: string
  xr_decision_refs :: "string list"
  xr_replayed :: bool

record generation_result =
  gr_generated :: int
  gr_existing :: int
  gr_superseded :: int
  gr_truncated :: bool
  gr_source_coverage :: rat
  gr_missing_inputs :: "string list"
  gr_observed_at :: datetime

definition membership_worker :: "runtime \<Rightarrow> service" where
  "membership_worker rt = default_service rt ''membership-runtime''"

definition complete_runtime :: "runtime \<Rightarrow> string \<Rightarrow> string \<Rightarrow> string \<Rightarrow> unit rp" where
  "complete_runtime rt tenant_id environment operation_id =
     bindp (coordinator_reconcile_pending rt (membership_worker rt) tenant_id environment operation_id) (\<lambda>out.
     raise_if (rr_status out \<noteq> RsApplied) (ProductConsistencyError (outcome_code out)))"

definition member_identity :: "runtime \<Rightarrow> string \<Rightarrow> string \<Rightarrow> string \<Rightarrow> string" where
  "member_identity rt product_id entity_type entity_id =
     sha256 rt (PreText (join_with nul [product_id, entity_type, entity_id]))"

definition proposal_identity ::
  "runtime \<Rightarrow> string \<Rightarrow> string \<Rightarrow> string \<Rightarrow> string \<Rightarrow> string \<Rightarrow> string \<Rightarrow> string" where
  "proposal_identity rt tenant_id environment product_id entity_type entity_id source =
     sha256 rt (PreText (join_with nul [tenant_id, environment, product_id, entity_type, entity_id, source]))"

definition first_etag :: "runtime \<Rightarrow> string \<Rightarrow> string" where
  "first_etag rt membership_id = sha256 rt (PreText (membership_id @ '':1''))"

text \<open>The reservation that opens every mutation.\<close>

definition reserve_mutation ::
  "runtime \<Rightarrow> string \<Rightarrow> string \<Rightarrow> string \<Rightarrow> string \<Rightarrow> mutation \<Rightarrow> (string \<times> idem_record) rp" where
  "reserve_mutation rt tenant_id environment product_id action m =
     bindp (lift_result (scoped_record_id rt tenant_id environment product_id (mm_idempotency_key m))) (\<lambda>record_id.
     bindp (new_record rt tenant_id environment product_id action (mm_idempotency_key m) (mutation_fingerprint rt m) 30) (\<lambda>r.
     bindp (reserve_idempotency record_id r) (\<lambda>reservation.
     ret (record_id, rv_record reservation))))"

fun idem_state_str :: "idem_state \<Rightarrow> string" where
  "idem_state_str IdPending = ''pending''"
| "idem_state_str IdCompleted = ''completed''"
| "idem_state_str IdFailed = ''failed''"
| "idem_state_str IdSuperseded = ''superseded''"

section \<open>Manual members\<close>

definition add_mutation ::
  "string \<Rightarrow> string \<Rightarrow> string \<Rightarrow> string \<Rightarrow> string \<Rightarrow> string \<Rightarrow> string \<Rightarrow> string \<Rightarrow> mutation" where
  "add_mutation tenant_id environment product_id entity_id entity_type actor reason idempotency_key =
     \<lparr>mm_tenant_id = tenant_id, mm_environment = environment, mm_product_id = product_id, mm_action = DcAdd,
      mm_actor = actor, mm_reason = reason, mm_idempotency_key = idempotency_key,
      mm_body = [(''entity_id'', PStr entity_id), (''entity_type'', PStr entity_type)],
      mm_expected_etag = None, mm_expected_revision = None\<rparr>"

definition replay_manual_member ::
  "runtime \<Rightarrow> string \<Rightarrow> string \<Rightarrow> string \<Rightarrow> string \<Rightarrow> mutation \<Rightarrow> idem_record \<Rightarrow> membership_result rp" where
  "replay_manual_member rt tenant_id environment product_id membership_id m r =
     (case (ir_operation_id r, ir_result_revision r, ir_result_etag r) of
        (Some (c # cs), Some revision, Some (q # qs)) \<Rightarrow>
          bindp (get_membership tenant_id environment product_id membership_id) (\<lambda>found.
          case found of
            None \<Rightarrow> raise (ProductConsistencyError ''immutable membership result is missing or divergent'')
          | Some replay \<Rightarrow>
              seqp (raise_if (me_revision replay \<noteq> revision \<or> me_etag replay \<noteq> q # qs)
                      (ProductConsistencyError ''immutable membership result is missing or divergent''))
              (bindp (mutation_event rt m OcApplied None (Some membership_id) None None None) (\<lambda>ev.
               ret \<lparr>mr_membership = replay, mr_operation_id = c # cs, mr_replayed = True,
                    mr_decision_refs = [de_decision_id ev]\<rparr>)))
      | _ \<Rightarrow> raise (ProductConsistencyError ''completed membership result reference is incomplete''))"

text \<open>The entity already is an active member: record the decision and complete the reservation.\<close>

definition adopt_active_member ::
  "runtime \<Rightarrow> string \<Rightarrow> string \<Rightarrow> string \<Rightarrow> string \<Rightarrow> string \<Rightarrow> mutation \<Rightarrow> membership \<Rightarrow> membership_result rp" where
  "adopt_active_member rt tenant_id environment product_id record_id membership_id m existing =
     bindp (mutation_event rt m OcPending None (Some membership_id) None None None) (\<lambda>pending.
     bindp (mutation_event rt m OcApplied None (Some membership_id) (Some (me_revision existing))
              (Some (me_etag existing)) None) (\<lambda>terminal.
     seqp (append_membership_decision tenant_id environment product_id pending)
     (seqp (append_membership_decision tenant_id environment product_id terminal)
     (bindp (lift_result (mutation_operation_id rt m)) (\<lambda>oid.
      seqp (complete_idempotency rt record_id oid (me_revision existing) (me_etag existing))
      (ret \<lparr>mr_membership = existing, mr_operation_id = oid, mr_replayed = False,
            mr_decision_refs = [de_decision_id pending, de_decision_id terminal]\<rparr>))))))"

definition manual_member ::
  "runtime \<Rightarrow> string \<Rightarrow> string \<Rightarrow> string \<Rightarrow> string \<Rightarrow> string \<Rightarrow> string \<Rightarrow> string \<Rightarrow> membership rp" where
  "manual_member rt tenant_id environment product_id membership_id entity_id entity_type actor =
     bindp (utc_now rt) (\<lambda>now.
     bindp (utc_now rt) (\<lambda>created.
     bindp (utc_now rt) (\<lambda>updated.
     ret \<lparr>me_membership_id = membership_id, me_product_id = product_id, me_tenant_id = tenant_id,
          me_environment = environment, me_entity_id = entity_id, me_entity_type = entity_type,
          me_source = SrManual, me_state = MsActive, me_proposal_id = None, me_evidence_refs = [],
          me_confidence = 1, me_source_coverage = 1, me_observed_at = now, me_created_at = created,
          me_updated_at = updated, me_created_by = actor, me_excluded_at = None, me_excluded_by = None,
          me_exclusion_reason = None, me_revision = 1, me_etag = first_etag rt membership_id,
          me_schema_version = ''v1''\<rparr>)))"

definition manual_payload :: "runtime \<Rightarrow> mutation \<Rightarrow> string \<Rightarrow> string \<Rightarrow> string \<Rightarrow> decision \<Rightarrow> membership \<Rightarrow> payload" where
  "manual_payload rt m membership_id entity_id entity_type pending member =
     [(''request_fingerprint'', PStr (mutation_fingerprint rt m)),
      (''membership_id'', PStr membership_id),
      (''entity_id'', PStr entity_id),
      (''entity_type'', PStr entity_type),
      (''actor'', PStr (mm_actor m)),
      (''reason'', PStr (mm_reason m)),
      (''action'', PStr ''membership_add''),
      (''expected_revision'', PNone),
      (''expected_etag'', PNone),
      (''pending_event_id'', PStr (de_decision_id pending)),
      (''membership_target'', PDict (membership_dump member))]"

definition create_manual_member ::
  "runtime \<Rightarrow> string \<Rightarrow> string \<Rightarrow> string \<Rightarrow> string \<Rightarrow> string \<Rightarrow> string \<Rightarrow> string \<Rightarrow> mutation \<Rightarrow> membership_result rp" where
  "create_manual_member rt tenant_id environment product_id record_id membership_id entity_id entity_type m =
     bindp (manual_member rt tenant_id environment product_id membership_id entity_id entity_type (mm_actor m)) (\<lambda>member.
     bindp (mutation_event rt m OcPending None (Some membership_id) None None None) (\<lambda>pending.
     seqp (append_membership_decision tenant_id environment product_id pending)
     (bindp (lift_result (mutation_operation_id rt m)) (\<lambda>oid.
      seqp (coordinator_begin rt tenant_id environment product_id oid ''manual_membership'' record_id
              (manual_payload rt m membership_id entity_id entity_type pending member) (de_occurred_at pending))
      (bindp (create_membership tenant_id environment member) (\<lambda>created.
       bindp (mutation_event rt m OcApplied None (Some membership_id) (Some (me_revision created))
                (Some (me_etag created)) None) (\<lambda>terminal.
       seqp (append_membership_decision tenant_id environment product_id terminal)
       (seqp (complete_runtime rt tenant_id environment oid)
       (ret \<lparr>mr_membership = created, mr_operation_id = oid, mr_replayed = False,
             mr_decision_refs = [de_decision_id pending, de_decision_id terminal]\<rparr>)))))))))"

definition add_manual_member ::
  "runtime \<Rightarrow> string \<Rightarrow> string \<Rightarrow> string \<Rightarrow> string \<Rightarrow> string \<Rightarrow> string \<Rightarrow> string \<Rightarrow> string \<Rightarrow> membership_result rp" where
  "add_manual_member rt tenant_id environment product_id entity_id entity_type actor reason idempotency_key =
     seqp (raise_if (blank actor \<or> blank reason \<or> blank idempotency_key)
             (ValueError ''actor, reason, and idempotency key are required''))
     (bindp (get_product tenant_id environment product_id) (\<lambda>p.
      seqp (raise_if (p = None) (KeyError product_id))
      (let membership_id = member_identity rt product_id entity_type entity_id;
           m = add_mutation tenant_id environment product_id entity_id entity_type actor reason idempotency_key in
       bindp (reserve_mutation rt tenant_id environment product_id ''membership_add'' m) (\<lambda>(record_id, reserved).
       if ir_state reserved = IdCompleted
       then replay_manual_member rt tenant_id environment product_id membership_id m reserved
       else
         seqp (raise_if (ir_state reserved \<noteq> IdPending)
                 (ProductConsistencyError (''idempotency reservation is '' @ idem_state_str (ir_state reserved))))
         (bindp (get_membership tenant_id environment product_id membership_id) (\<lambda>existing.
          case existing of
            Some x \<Rightarrow>
              if me_state x = MsActive
              then adopt_active_member rt tenant_id environment product_id record_id membership_id m x
              else raise (ValueError ''excluded membership cannot be silently reactivated'')
          | None \<Rightarrow>
              create_manual_member rt tenant_id environment product_id record_id membership_id entity_id entity_type m))))))"

section \<open>Reads\<close>

definition service_get_membership :: "string \<Rightarrow> string \<Rightarrow> string \<Rightarrow> string \<Rightarrow> membership option rp" where
  "service_get_membership t e p i = get_membership t e p i"

definition list_members :: "string \<Rightarrow> string \<Rightarrow> string \<Rightarrow> int \<Rightarrow> membership page rp" where
  "list_members t e p limit = list_memberships t e p limit"

definition list_proposals :: "string \<Rightarrow> string \<Rightarrow> string \<Rightarrow> int \<Rightarrow> proposal page rp" where
  "list_proposals t e p limit = list_membership_proposals t e p limit"

definition list_decisions :: "string \<Rightarrow> string \<Rightarrow> string \<Rightarrow> int \<Rightarrow> decision page rp" where
  "list_decisions t e p limit = list_membership_decisions t e p limit"

definition get_proposal :: "string \<Rightarrow> string \<Rightarrow> string \<Rightarrow> string \<Rightarrow> proposal option rp" where
  "get_proposal t e p i = get_membership_proposal t e p i"

section \<open>Generated proposals\<close>

definition proposal_fingerprint :: "runtime \<Rightarrow> proposal \<Rightarrow> string" where
  "proposal_fingerprint rt v =
     request_fingerprint rt (pp_tenant_id v) (pp_environment v) (pp_product_id v)
       (''proposal_evidence:'' @ proposal_source_str (pp_source v))
       (PDict [(''entity_type'', PStr (pp_entity_type v)),
               (''entity_id'', PStr (pp_entity_id v)),
               (''evidence_refs'', PList (map PStr (sorted_set (pp_evidence_refs v)))),
               (''confidence'', PFloat (pp_confidence v)),
               (''source_coverage'', PFloat (pp_source_coverage v)),
               (''missing_inputs'', PList (map PStr (sorted_set (pp_missing_inputs v)))),
               (''truncated'', PBool (pp_truncated v))])
       ''generator'' ''canonical proposal evidence'' None"

text \<open>The references of each entity, in the order of first mention.\<close>

fun group_evidence ::
  "(string \<times> string \<times> string) list \<Rightarrow> ((string \<times> string) \<times> string list) list \<Rightarrow>
   py_error + ((string \<times> string) \<times> string list) list" where
  "group_evidence [] grouped = Inr grouped"
| "group_evidence ((entity_id, entity_type, reference) # rest) grouped =
     (if blank entity_id \<or> blank entity_type \<or> blank reference
      then Inl (ValueError ''proposal entity and evidence references must not be empty'')
      else group_evidence rest
        (dput (entity_id, entity_type)
          (List.insert reference (case dget grouped (entity_id, entity_type) of None \<Rightarrow> [] | Some rs \<Rightarrow> rs)) grouped))"

definition candidate_proposal ::
  "runtime \<Rightarrow> string \<Rightarrow> string \<Rightarrow> string \<Rightarrow> proposal_source \<Rightarrow> datetime \<Rightarrow> proposal option \<Rightarrow> string \<Rightarrow> string \<Rightarrow>
   string \<Rightarrow> string list \<Rightarrow> proposal rp" where
  "candidate_proposal rt tenant_id environment product_id source now latest proposal_id entity_id entity_type references =
     bindp (utc_now rt) (\<lambda>created.
     ret \<lparr>pp_proposal_id = proposal_id, pp_product_id = product_id, pp_tenant_id = tenant_id,
          pp_environment = environment, pp_entity_id = entity_id, pp_entity_type = entity_type, pp_source = source,
          pp_state = PsProposed, pp_evidence_refs = take 50 (sort references), pp_confidence = 1,
          pp_source_coverage = 1, pp_missing_inputs = [], pp_truncated = (50 < length references),
          pp_observed_at = now, pp_created_at = created, pp_expires_at = now + days 7,
          pp_proposal_revision = (case latest of None \<Rightarrow> 1 | Some v \<Rightarrow> pp_proposal_revision v + 1),
          pp_schema_version = ''v1''\<rparr>)"

text \<open>One candidate; the counters are \<open>(generated, existing, superseded)\<close>.\<close>

definition generate_one ::
  "runtime \<Rightarrow> string \<Rightarrow> string \<Rightarrow> string \<Rightarrow> proposal_source \<Rightarrow> datetime \<Rightarrow> (string \<times> string) \<times> string list \<Rightarrow>
   int \<times> int \<times> int \<Rightarrow> (int \<times> int \<times> int) rp" where
  "generate_one rt tenant_id environment product_id source now cand counts =
     (case (cand, counts) of (((entity_id, entity_type), references), (generated, existing, superseded)) \<Rightarrow>
      let proposal_id = proposal_identity rt tenant_id environment product_id entity_type entity_id
            (proposal_source_str source) in
      bindp (get_membership_proposal tenant_id environment product_id proposal_id) (\<lambda>latest.
      bindp (candidate_proposal rt tenant_id environment product_id source now latest proposal_id entity_id entity_type
               references) (\<lambda>v.
      if (case latest of None \<Rightarrow> False | Some l \<Rightarrow> proposal_fingerprint rt l = proposal_fingerprint rt v)
      then ret (generated, existing + 1, superseded)
      else
        bindp (case latest of
            Some l \<Rightarrow>
              if pp_state l = PsProposed then
                seqp (supersede_membership_proposal tenant_id environment product_id proposal_id
                        (Some (pp_proposal_revision l)))
                (ret (superseded + 1))
              else ret superseded
          | None \<Rightarrow> ret superseded) (\<lambda>superseded1.
        seqp (create_membership_proposal v) (ret (generated + 1, existing, superseded1))))))"

fun generate_loop ::
  "runtime \<Rightarrow> string \<Rightarrow> string \<Rightarrow> string \<Rightarrow> proposal_source \<Rightarrow> datetime \<Rightarrow> ((string \<times> string) \<times> string list) list \<Rightarrow>
   int \<times> int \<times> int \<Rightarrow> (int \<times> int \<times> int) rp" where
  "generate_loop rt t e p source now [] counts = ret counts"
| "generate_loop rt t e p source now (c # cs) counts =
     bindp (generate_one rt t e p source now c counts) (generate_loop rt t e p source now cs)"

definition generate_proposals ::
  "runtime \<Rightarrow> string \<Rightarrow> string \<Rightarrow> string \<Rightarrow> proposal_source \<Rightarrow> (string \<times> string \<times> string) list \<Rightarrow> int \<Rightarrow>
   generation_result rp" where
  "generate_proposals rt tenant_id environment product_id source evidence max_proposals =
     bindp (get_product tenant_id environment product_id) (\<lambda>p.
     seqp (raise_if (p = None) (KeyError product_id))
     (bindp (lift_result (group_evidence evidence [])) (\<lambda>grouped.
      bindp (utc_now rt) (\<lambda>now.
      let candidates = sort_key fst grouped in
      bindp (generate_loop rt tenant_id environment product_id source now (slice_to max_proposals candidates) (0, 0, 0))
        (\<lambda>(generated, existing, superseded).
      ret \<lparr>gr_generated = generated, gr_existing = existing, gr_superseded = superseded,
           gr_truncated = (max_proposals < int (length candidates)),
           gr_source_coverage = (if evidence = [] then 0 else 1),
           gr_missing_inputs = (if evidence = [] then [proposal_source_str source] else []),
           gr_observed_at = now\<rparr>)))))"

definition generate_lineage_proposals ::
  "runtime \<Rightarrow> string \<Rightarrow> string \<Rightarrow> string \<Rightarrow> (string \<times> string \<times> string) list \<Rightarrow> int \<Rightarrow> generation_result rp" where
  "generate_lineage_proposals rt t e p evidence max_proposals = generate_proposals rt t e p PrLineage evidence max_proposals"

definition generate_dependency_proposals ::
  "runtime \<Rightarrow> string \<Rightarrow> string \<Rightarrow> string \<Rightarrow> (string \<times> string \<times> string) list \<Rightarrow> int \<Rightarrow> generation_result rp" where
  "generate_dependency_proposals rt t e p evidence max_proposals =
     generate_proposals rt t e p PrDependency evidence max_proposals"

section \<open>Decisions on proposals\<close>

fun decision_of_action :: "proposal_action \<Rightarrow> decision_action" where
  "decision_of_action PaAccept = DcAccept"
| "decision_of_action PaReject = DcReject"
| "decision_of_action PaExpire = DcExpire"
| "decision_of_action PaSupersede = DcSupersede"

definition decide_mutation ::
  "proposal_action \<Rightarrow> string \<Rightarrow> string \<Rightarrow> string \<Rightarrow> string \<Rightarrow> string \<Rightarrow> string \<Rightarrow> string \<Rightarrow> int \<Rightarrow> mutation" where
  "decide_mutation action tenant_id environment product_id proposal_id actor reason idempotency_key expected_revision =
     \<lparr>mm_tenant_id = tenant_id, mm_environment = environment, mm_product_id = product_id,
      mm_action = decision_of_action action, mm_actor = actor, mm_reason = reason,
      mm_idempotency_key = idempotency_key,
      mm_body = [(''proposal_id'', PStr proposal_id), (''expected_revision'', PInt expected_revision)],
      mm_expected_etag = None, mm_expected_revision = Some expected_revision\<rparr>"

abbreviation proposal_inconsistent :: py_error where
  "proposal_inconsistent \<equiv> ProductConsistencyError ''proposal_result_inconsistent''"

text \<open>The membership an accepted proposal must have left, for a completed reservation.\<close>

definition replayed_membership ::
  "runtime \<Rightarrow> proposal_action \<Rightarrow> string \<Rightarrow> string \<Rightarrow> string \<Rightarrow> string \<Rightarrow> proposal \<Rightarrow> int \<Rightarrow> idem_record \<Rightarrow> membership option rp" where
  "replayed_membership rt action tenant_id environment product_id proposal_id v expected_revision reserved =
     (if action = PaAccept then
        bindp (get_membership tenant_id environment product_id
                 (member_identity rt product_id (pp_entity_type v) (pp_entity_id v))) (\<lambda>found.
        case found of
          None \<Rightarrow> raise proposal_inconsistent
        | Some x \<Rightarrow>
            seqp (raise_if (me_proposal_id x \<noteq> Some proposal_id) proposal_inconsistent)
            (seqp (raise_if (Some (me_revision x) \<noteq> ir_result_revision reserved \<or>
                             Some (me_etag x) \<noteq> ir_result_etag reserved) proposal_inconsistent)
            (ret (Some x))))
      else seqp (raise_if (ir_result_revision reserved \<noteq> Some expected_revision) proposal_inconsistent) (ret None))"

definition replay_decision ::
  "runtime \<Rightarrow> proposal_action \<Rightarrow> string \<Rightarrow> string \<Rightarrow> string \<Rightarrow> string \<Rightarrow> int \<Rightarrow> mutation \<Rightarrow> idem_record \<Rightarrow> proposal_result rp" where
  "replay_decision rt action tenant_id environment product_id proposal_id expected_revision m reserved =
     bindp (get_membership_proposal tenant_id environment product_id proposal_id) (\<lambda>found.
     case found of
       None \<Rightarrow> raise proposal_inconsistent
     | Some v \<Rightarrow>
         seqp (raise_if (pp_proposal_revision v \<noteq> expected_revision \<or> pp_state v \<noteq> expected_proposal_state action)
                 proposal_inconsistent)
         (bindp (replayed_membership rt action tenant_id environment product_id proposal_id v expected_revision reserved) (\<lambda>x.
          bindp (mutation_event rt m OcApplied (Some proposal_id) (map_option me_membership_id x) None None None) (\<lambda>terminal.
          bindp (case ir_operation_id reserved of
              Some (c # cs) \<Rightarrow> ret (c # cs) | _ \<Rightarrow> lift_result (mutation_operation_id rt m)) (\<lambda>oid.
          ret \<lparr>qr_proposal = v, qr_membership = x, qr_operation_id = oid, qr_replayed = True,
               qr_decision_refs = [de_decision_id terminal], qr_warnings = []\<rparr>)))))"

definition recover_decision ::
  "runtime \<Rightarrow> proposal_action \<Rightarrow> string \<Rightarrow> string \<Rightarrow> string \<Rightarrow> string \<Rightarrow> string \<Rightarrow> proposal_result rp" where
  "recover_decision rt action tenant_id environment product_id proposal_id operation_id =
     bindp (coordinator_reconcile_pending rt (membership_worker rt) tenant_id environment operation_id) (\<lambda>out.
     seqp (raise_if (rr_status out \<noteq> RsApplied) (ProductConsistencyError (outcome_code out)))
     (bindp (get_membership_proposal tenant_id environment product_id proposal_id) (\<lambda>found.
      case found of
        None \<Rightarrow> raise proposal_inconsistent
      | Some v \<Rightarrow>
          bindp (if action = PaAccept
                 then get_membership tenant_id environment product_id
                        (member_identity rt product_id (pp_entity_type v) (pp_entity_id v))
                 else ret None) (\<lambda>x.
          ret \<lparr>qr_proposal = v, qr_membership = x, qr_operation_id = operation_id, qr_replayed = True,
               qr_decision_refs = [], qr_warnings = []\<rparr>))))"

text \<open>The membership target written into the plan: the \<open>datetime\<close> objects are not rendered.\<close>

definition membership_target ::
  "runtime \<Rightarrow> string \<Rightarrow> string \<Rightarrow> string \<Rightarrow> string \<Rightarrow> string \<Rightarrow> proposal \<Rightarrow> datetime \<Rightarrow> string \<Rightarrow> payload" where
  "membership_target rt tenant_id environment product_id membership_id proposal_id v planned_at actor =
     [(''membership_id'', PStr membership_id),
      (''product_id'', PStr product_id),
      (''tenant_id'', PStr tenant_id),
      (''environment'', PStr environment),
      (''entity_id'', PStr (pp_entity_id v)),
      (''entity_type'', PStr (pp_entity_type v)),
      (''source'', PStr ''proposal''),
      (''proposal_id'', PStr proposal_id),
      (''evidence_refs'', PList (map PStr (pp_evidence_refs v))),
      (''confidence'', PFloat (pp_confidence v)),
      (''source_coverage'', PFloat (pp_source_coverage v)),
      (''observed_at'', PTime (pp_observed_at v)),
      (''created_at'', PTime planned_at),
      (''updated_at'', PTime planned_at),
      (''created_by'', PStr actor),
      (''revision'', PInt 1),
      (''etag'', PStr (first_etag rt membership_id)),
      (''state'', PStr ''active'')]"

definition accepted_member ::
  "runtime \<Rightarrow> string \<Rightarrow> string \<Rightarrow> string \<Rightarrow> string \<Rightarrow> string \<Rightarrow> proposal \<Rightarrow> datetime \<Rightarrow> string \<Rightarrow> membership" where
  "accepted_member rt tenant_id environment product_id membership_id proposal_id v planned_at actor =
     \<lparr>me_membership_id = membership_id, me_product_id = product_id, me_tenant_id = tenant_id,
      me_environment = environment, me_entity_id = pp_entity_id v, me_entity_type = pp_entity_type v,
      me_source = SrProposal, me_state = MsActive, me_proposal_id = Some proposal_id,
      me_evidence_refs = pp_evidence_refs v, me_confidence = pp_confidence v,
      me_source_coverage = pp_source_coverage v, me_observed_at = pp_observed_at v, me_created_at = planned_at,
      me_updated_at = planned_at, me_created_by = actor, me_excluded_at = None, me_excluded_by = None,
      me_exclusion_reason = None, me_revision = 1, me_etag = first_etag rt membership_id,
      me_schema_version = ''v1''\<rparr>"

definition decision_payload ::
  "runtime \<Rightarrow> proposal_action \<Rightarrow> mutation \<Rightarrow> string \<Rightarrow> int \<Rightarrow> string option \<Rightarrow> payload option \<Rightarrow> decision \<Rightarrow> payload" where
  "decision_payload rt action m proposal_id expected_revision membership_id target pending =
     [(''request_fingerprint'', PStr (mutation_fingerprint rt m)),
      (''actor'', PStr (mm_actor m)),
      (''reason'', PStr (mm_reason m)),
      (''action'', PStr (action_str (decision_of_action action))),
      (''proposal_id'', PStr proposal_id),
      (''proposal_revision'', PInt expected_revision),
      (''expected_revision'', PInt expected_revision),
      (''expected_source_state'', PStr ''proposed''),
      (''target_proposal_state'', PStr (proposal_state_str (expected_proposal_state action))),
      (''membership_id'', opt_str membership_id),
      (''membership_target'', (case target of None \<Rightarrow> PNone | Some p \<Rightarrow> PDict p)),
      (''pending_event_id'', PStr (de_decision_id pending))]"

definition accept_membership ::
  "runtime \<Rightarrow> string \<Rightarrow> string \<Rightarrow> string \<Rightarrow> string \<Rightarrow> membership \<Rightarrow> membership rp" where
  "accept_membership rt tenant_id environment product_id proposal_id member =
     bindp (get_membership tenant_id environment product_id (me_membership_id member)) (\<lambda>found.
     case found of
       None \<Rightarrow> create_membership tenant_id environment member
     | Some x \<Rightarrow>
         seqp (raise_if (me_proposal_id x \<noteq> Some proposal_id \<or> me_state x \<noteq> MsActive)
                 (ProductVersionConflict ''proposal_result_inconsistent''))
         (ret x))"

definition execute_decision ::
  "runtime \<Rightarrow> proposal_action \<Rightarrow> string \<Rightarrow> string \<Rightarrow> string \<Rightarrow> string \<Rightarrow> int \<Rightarrow> mutation \<Rightarrow> string \<Rightarrow> proposal_result rp" where
  "execute_decision rt action tenant_id environment product_id proposal_id expected_revision m record_id =
     bindp (get_membership_proposal tenant_id environment product_id proposal_id) (\<lambda>found.
     case found of
       None \<Rightarrow> raise (KeyError proposal_id)
     | Some v \<Rightarrow>
         seqp (raise_if (pp_proposal_revision v \<noteq> expected_revision)
                 (ProductVersionConflict ''proposal_revision_conflict''))
         (seqp (raise_if (pp_state v \<noteq> PsProposed)
                 (ProductVersionConflict (''proposal_already_'' @ proposal_state_str (pp_state v))))
         (bindp (mutation_event rt m OcPending (Some proposal_id) None None None None) (\<lambda>pending.
          seqp (append_membership_decision tenant_id environment product_id pending)
          (bindp (utc_now rt) (\<lambda>planned_at.
           let membership_id = (if action = PaAccept
                 then Some (member_identity rt product_id (pp_entity_type v) (pp_entity_id v)) else None);
               target = map_option (\<lambda>i. membership_target rt tenant_id environment product_id i proposal_id v planned_at
                 (mm_actor m)) membership_id in
           bindp (lift_result (mutation_operation_id rt m)) (\<lambda>oid.
           seqp (coordinator_begin rt tenant_id environment product_id oid
                   (''proposal_'' @ action_str (decision_of_action action)) record_id
                   (decision_payload rt action m proposal_id expected_revision membership_id target pending)
                   (de_occurred_at pending))
           (bindp (case membership_id of
               None \<Rightarrow> ret None
             | Some i \<Rightarrow> bindp (accept_membership rt tenant_id environment product_id proposal_id
                  (accepted_member rt tenant_id environment product_id i proposal_id v planned_at (mm_actor m)))
                  (\<lambda>x. ret (Some x))) (\<lambda>membership.
            bindp (proposal_transition action tenant_id environment product_id proposal_id (Some expected_revision)) (\<lambda>decided.
            bindp (mutation_event rt m OcApplied (Some proposal_id) membership_id (Some expected_revision)
                     (Some (proposal_state_str (pp_state decided))) None) (\<lambda>terminal.
            seqp (append_membership_decision tenant_id environment product_id terminal)
            (seqp (complete_runtime rt tenant_id environment oid)
            (ret \<lparr>qr_proposal = decided, qr_membership = membership, qr_operation_id = oid, qr_replayed = False,
                  qr_decision_refs = [de_decision_id pending, de_decision_id terminal], qr_warnings = []\<rparr>)))))))))))))"

definition decide_proposal ::
  "runtime \<Rightarrow> proposal_action \<Rightarrow> string \<Rightarrow> string \<Rightarrow> string \<Rightarrow> string \<Rightarrow> string \<Rightarrow> string \<Rightarrow> string \<Rightarrow> int \<Rightarrow> proposal_result rp" where
  "decide_proposal rt action tenant_id environment product_id proposal_id actor reason idempotency_key expected_revision =
     seqp (raise_if (blank actor \<or> blank reason \<or> blank idempotency_key \<or> expected_revision < 1)
             (ValueError ''actor, reason, idempotency key, and expected revision are required''))
     (let m = decide_mutation action tenant_id environment product_id proposal_id actor reason idempotency_key expected_revision in
      bindp (reserve_mutation rt tenant_id environment product_id (''proposal_'' @ action_str (decision_of_action action)) m)
        (\<lambda>(record_id, reserved).
      if ir_state reserved = IdCompleted
      then replay_decision rt action tenant_id environment product_id proposal_id expected_revision m reserved
      else (case (ir_state reserved, ir_operation_id reserved) of
          (IdPending, Some (c # cs)) \<Rightarrow>
            recover_decision rt action tenant_id environment product_id proposal_id (c # cs)
        | _ \<Rightarrow> execute_decision rt action tenant_id environment product_id proposal_id expected_revision m record_id)))"

definition accept_proposal ::
  "runtime \<Rightarrow> string \<Rightarrow> string \<Rightarrow> string \<Rightarrow> string \<Rightarrow> string \<Rightarrow> string \<Rightarrow> string \<Rightarrow> int \<Rightarrow> proposal_result rp" where
  "accept_proposal rt = decide_proposal rt PaAccept"

definition reject_proposal ::
  "runtime \<Rightarrow> string \<Rightarrow> string \<Rightarrow> string \<Rightarrow> string \<Rightarrow> string \<Rightarrow> string \<Rightarrow> string \<Rightarrow> int \<Rightarrow> proposal_result rp" where
  "reject_proposal rt = decide_proposal rt PaReject"

definition expire_proposal ::
  "runtime \<Rightarrow> string \<Rightarrow> string \<Rightarrow> string \<Rightarrow> string \<Rightarrow> string \<Rightarrow> string \<Rightarrow> string \<Rightarrow> int \<Rightarrow> proposal_result rp" where
  "expire_proposal rt = decide_proposal rt PaExpire"

definition supersede_proposal ::
  "runtime \<Rightarrow> string \<Rightarrow> string \<Rightarrow> string \<Rightarrow> string \<Rightarrow> string \<Rightarrow> string \<Rightarrow> string \<Rightarrow> int \<Rightarrow> proposal_result rp" where
  "supersede_proposal rt = decide_proposal rt PaSupersede"

section \<open>Exclusion\<close>

definition exclude_mutation ::
  "string \<Rightarrow> string \<Rightarrow> string \<Rightarrow> string \<Rightarrow> string \<Rightarrow> string \<Rightarrow> string \<Rightarrow> string \<Rightarrow> mutation" where
  "exclude_mutation tenant_id environment product_id membership_id actor reason idempotency_key expected_etag =
     \<lparr>mm_tenant_id = tenant_id, mm_environment = environment, mm_product_id = product_id, mm_action = DcExclude,
      mm_actor = actor, mm_reason = reason, mm_idempotency_key = idempotency_key,
      mm_body = [(''membership_id'', PStr membership_id)], mm_expected_etag = Some expected_etag,
      mm_expected_revision = None\<rparr>"

definition replay_exclusion ::
  "runtime \<Rightarrow> string \<Rightarrow> string \<Rightarrow> string \<Rightarrow> string \<Rightarrow> mutation \<Rightarrow> idem_record \<Rightarrow> exclusion_result rp" where
  "replay_exclusion rt tenant_id environment product_id membership_id m reserved =
     bindp (get_membership tenant_id environment product_id membership_id) (\<lambda>found.
     case found of
       None \<Rightarrow> raise (ProductConsistencyError ''immutable exclusion result is missing or divergent'')
     | Some x \<Rightarrow>
         seqp (raise_if (me_state x \<noteq> MsExcluded \<or> Some (me_revision x) \<noteq> ir_result_revision reserved \<or>
                         Some (me_etag x) \<noteq> ir_result_etag reserved)
                 (ProductConsistencyError ''immutable exclusion result is missing or divergent''))
         (bindp (mutation_event rt m OcApplied None (Some membership_id) (Some (me_revision x)) (Some (me_etag x)) None) (\<lambda>terminal.
          bindp (case ir_operation_id reserved of
              Some (c # cs) \<Rightarrow> ret (c # cs) | _ \<Rightarrow> lift_result (mutation_operation_id rt m)) (\<lambda>oid.
          ret \<lparr>xr_membership = x, xr_operation_id = oid, xr_decision_refs = [de_decision_id terminal], xr_replayed = True\<rparr>))))"

definition exclusion_payload ::
  "runtime \<Rightarrow> mutation \<Rightarrow> string \<Rightarrow> membership \<Rightarrow> string \<Rightarrow> decision \<Rightarrow> payload" where
  "exclusion_payload rt m membership_id current expected_etag pending =
     [(''request_fingerprint'', PStr (mutation_fingerprint rt m)),
      (''actor'', PStr (mm_actor m)),
      (''reason'', PStr (mm_reason m)),
      (''action'', PStr ''exclude''),
      (''membership_id'', PStr membership_id),
      (''expected_revision'', PInt (me_revision current)),
      (''expected_etag'', PStr expected_etag),
      (''target_state'', PStr ''excluded''),
      (''target_revision'', PInt (me_revision current + 1)),
      (''target_etag'', PStr (sha256 rt (PreText (me_etag current @ '':excluded'')))),
      (''pending_event_id'', PStr (de_decision_id pending))]"

definition execute_exclusion ::
  "runtime \<Rightarrow> string \<Rightarrow> string \<Rightarrow> string \<Rightarrow> string \<Rightarrow> string \<Rightarrow> mutation \<Rightarrow> string \<Rightarrow> exclusion_result rp" where
  "execute_exclusion rt tenant_id environment product_id membership_id expected_etag m record_id =
     bindp (mutation_event rt m OcPending None (Some membership_id) None None None) (\<lambda>pending.
     seqp (append_membership_decision tenant_id environment product_id pending)
     (bindp (get_membership tenant_id environment product_id membership_id) (\<lambda>found.
      case found of
        None \<Rightarrow> raise (KeyError membership_id)
      | Some current \<Rightarrow>
          bindp (lift_result (mutation_operation_id rt m)) (\<lambda>oid.
          seqp (coordinator_begin rt tenant_id environment product_id oid ''membership_exclude'' record_id
                  (exclusion_payload rt m membership_id current expected_etag pending) (de_occurred_at pending))
          (bindp (exclude_membership rt tenant_id environment product_id membership_id (mm_actor m) (mm_reason m)
                    expected_etag) (\<lambda>x.
           bindp (mutation_event rt m OcApplied None (Some membership_id) (Some (me_revision x)) (Some (me_etag x)) None) (\<lambda>terminal.
           seqp (append_membership_decision tenant_id environment product_id terminal)
           (seqp (complete_runtime rt tenant_id environment oid)
           (ret \<lparr>xr_membership = x, xr_operation_id = oid,
                 xr_decision_refs = [de_decision_id pending, de_decision_id terminal], xr_replayed = False\<rparr>)))))))))"

definition exclude_member ::
  "runtime \<Rightarrow> string \<Rightarrow> string \<Rightarrow> string \<Rightarrow> string \<Rightarrow> string \<Rightarrow> string \<Rightarrow> string \<Rightarrow> string \<Rightarrow> exclusion_result rp" where
  "exclude_member rt tenant_id environment product_id membership_id actor reason idempotency_key expected_etag =
     seqp (raise_if (blank actor \<or> blank reason \<or> blank idempotency_key \<or> blank expected_etag)
             (ValueError ''actor, reason, idempotency key, and If-Match are required''))
     (let m = exclude_mutation tenant_id environment product_id membership_id actor reason idempotency_key expected_etag in
      bindp (reserve_mutation rt tenant_id environment product_id ''membership_exclude'' m) (\<lambda>(record_id, reserved).
      if ir_state reserved = IdCompleted
      then replay_exclusion rt tenant_id environment product_id membership_id m reserved
      else execute_exclusion rt tenant_id environment product_id membership_id expected_etag m record_id))"

definition reconcile_membership_operation :: "runtime \<Rightarrow> string \<Rightarrow> string \<Rightarrow> string \<Rightarrow> recon_result rp" where
  "reconcile_membership_operation rt tenant_id environment operation_id =
     reconcile_operation rt (default_service rt ''membership-reconciliation'') tenant_id environment operation_id"

end
