(* ===== verification/ServiceEvolution.thy ===== *)
theory ServiceEvolution
  imports DependencyService MembershipService
begin

text \<open>
  What every service call promises about the repository, whatever its arguments and however it ends.
  \<open>system_evolve\<close> is \<open>repo_evolve\<close> with the law of reservations that the services keep when they complete
  one: a completed reservation does not change. The locale \<open>step_order\<close> carries it through the services; \<open>system_step\<close> is one call of any
  client and \<open>system_step\<^sup>*\<^sup>*\<close> any interleaving of calls.
\<close>

definition system_evolve :: "repo \<Rightarrow> repo \<Rightarrow> bool" where
  "system_evolve s s' \<longleftrightarrow> ops_evolve s s' \<and> idem_lasts s s' \<and> evidence_evolve s s'"

interpretation sys: step_order system_evolve
proof
  show "system_evolve s s" for s
    by (simp add: system_evolve_def ops.step_refl ideml.step_refl evid.step_refl)
  show "system_evolve s u" if "system_evolve s t" and "system_evolve t u" for s t u
    using that unfolding system_evolve_def by (blast intro: ops.step_trans ideml.step_trans evid.step_trans)
qed

lemma repo_system: "repo_evolve s s' \<Longrightarrow> system_evolve s s'"
  by (simp add: repo_evolve_def system_evolve_def idem_evolve_lasts)

lemma sys_of_repo: "evolves repo_evolve m \<Longrightarrow> evolves system_evolve m"
  by (erule evolves_mono) (rule repo_system)

lemma only_reservations_system: "only_reservations s s' \<Longrightarrow> idem_lasts s s' \<Longrightarrow> system_evolve s s'"
  by (auto simp: only_reservations_def system_evolve_def evidence_evolve_def store_frames)

text \<open>
  \<open>complete_idempotency\<close> overwrites what it finds, so it respects \<open>system_evolve\<close> only where the
  reservation is not completed. The services complete a reservation after they have read it as pending.
\<close>

lemma sys_complete_at:
  assumes "unfinished k s"
  shows "system_evolve s (snd (complete_idempotency rt k oid rv et s))"
proof -
  have "evolves only_reservations (complete_idempotency rt k oid rv et)"
    unfolding complete_idempotency_def by (intro evolve_rules)
  with complete_unfinished [OF assms] show ?thesis
    by (simp add: evolves_def only_reservations_system)
qed

section \<open>The coordinator and the listings\<close>

lemma pending_state_fresh: "fresh_state (pending_state t e p i kind ref rid now)"
  by (simp add: fresh_state_def pending_state_def)

lemma repo_begin [evolve_rules]: "evolves repo_evolve (coordinator_begin rt t e p i kind rid payload now)"
  unfolding coordinator_begin_def persist_pending_operation_def Let_def
  by (intro evolve_rules pending_state_fresh)

lemma default_service_ok: "registry_ok (sv_registry (default_service rt w))"
  by (simp add: default_service_def concrete_registry_ok)

lemma repo_reconcile [evolve_rules]:
  "evolves repo_evolve (coordinator_reconcile_pending rt (default_service rt w) t e i)"
  unfolding coordinator_reconcile_pending_def by (rule repo_reconcile_operation [OF default_service_ok])

lemma repo_reconcile_pending [evolve_rules]:
  "evolves repo_evolve (coordinator_reconcile_pending rt (lifecycle_service rt) t e i)"
  "evolves repo_evolve (coordinator_reconcile_pending rt (dependency_worker rt) t e i)"
  "evolves repo_evolve (coordinator_reconcile_pending rt (membership_worker rt) t e i)"
  unfolding lifecycle_service_def dependency_worker_def membership_worker_def by (rule repo_reconcile)+

lemma repo_validate_dependencies [evolve_rules]: "evolves repo_evolve (validate_dependencies p d m)"
  by (simp add: evolves_def validate_dependencies_def repo.step_refl)

text \<open>The facts about the repository's methods, as facts about \<open>system_evolve\<close>.\<close>

lemmas system_leaves [evolve_rules] =
  repo_utc_now [THEN sys_of_repo] repo_reads [THEN sys_of_repo] repo_lift_result [THEN sys_of_repo]
  repo_new_record [THEN sys_of_repo] repo_mutation_event [THEN sys_of_repo]
  repo_reservation_methods [THEN sys_of_repo] repo_evidence_methods [THEN sys_of_repo]
  repo_product_methods [THEN sys_of_repo] repo_begin_operation [THEN sys_of_repo]
  repo_begin_dependency_operation [THEN sys_of_repo] repo_finish_operation [THEN sys_of_repo]
  repo_membership_methods [THEN sys_of_repo] repo_exclude_membership [THEN sys_of_repo]
  repo_decide_proposal [THEN sys_of_repo] repo_proposal_transition [THEN sys_of_repo]
  repo_begin [THEN sys_of_repo] repo_reconcile_pending [THEN sys_of_repo]
  repo_validate_dependencies [THEN sys_of_repo]

section \<open>The product service\<close>

lemma sys_product_basics [evolve_rules]:
  "evolves system_evolve (pending_event rt p actor reason action key)"
  "evolves system_evolve (finish_applied_event rt ev)"
  "evolves system_evolve (product_get t e i)"
  "evolves system_evolve (guard_transition p target)"
  unfolding pending_event_def finish_applied_event_def product_get_def guard_transition_def
  by (intro evolve_rules)+

lemma sys_product_create [evolve_rules]: "evolves system_evolve (product_create rt p actor reason key)"
  unfolding product_create_def by (intro evolve_rules)

lemma sys_product_update [evolve_rules]:
  "evolves system_evolve (product_update rt p if_match actor reason key action)"
  unfolding product_update_def by (intro evolve_rules)

lemma sys_replay_parts [evolve_rules]:
  "evolves system_evolve (replay_completed_revision t e p r)"
  "evolves system_evolve (recover_pending_transition rt t e p rid oid)"
  unfolding replay_completed_revision_def recover_pending_transition_def by (intro evolve_rules)+

lemma sys_adopt_applied:
  assumes "unfinished rid s"
  shows "system_evolve s (snd (adopt_applied_operation rt t e p rid oid s))"
proof -
  have "snd (adopt_applied_operation rt t e p rid oid s) = s \<or>
      (\<exists>x y z. snd (adopt_applied_operation rt t e p rid oid s) = snd (complete_idempotency rt rid x y z s))"
    by (auto simp: adopt_applied_operation_def get_operation_def get_product_revision_def seqp_apply bindp_apply reads_apply
        raise_if_def raise_def ret_def split: option.splits prod.splits sum.splits) (metis snd_conv)+
  then show ?thesis using sys_complete_at [OF assms] sys.step_refl [of s] by metis
qed

lemma sys_replay_transition:
  assumes "ir_state r = IdPending \<Longrightarrow> unfinished rid s"
  shows "system_evolve s (snd (replay_transition rt t e p rid r s))"
proof (cases "ir_state r = IdPending")
  case True
  have "system_evolve s (snd (bindp (get_operation_state t e oid) (\<lambda>st. if st \<noteq> None
      then bindp (recover_pending_transition rt t e p rid oid) (\<lambda>p. ret (Some p))
      else adopt_applied_operation rt t e p rid oid) s))" for oid
  proof -
    have "system_evolve s (snd (bindp (recover_pending_transition rt t e p rid oid) (\<lambda>p. ret (Some p)) s))"
      by (rule evolves_snd) (intro evolve_rules)
    moreover obtain st where "get_operation_state t e oid s = (Inr st, s)"
      by (simp add: get_operation_state_def reads_apply)
    then have "bindp (get_operation_state t e oid) f s = f st s" for f :: "op_state option \<Rightarrow> product option rp"
      by (simp add: bindp_apply)
    ultimately show ?thesis using sys_adopt_applied [OF assms [OF True]] by simp
  qed
  with True sys.step_refl [of s] show ?thesis
    by (auto simp: replay_transition_def ret_def split: option.split list.split)
next
  case False
  have "evolves system_evolve (bindp (replay_completed_revision t e p r) (\<lambda>p. ret (Some p)))"
    by (intro evolve_rules)
  with False sys.step_refl [of s] show ?thesis
    by (auto simp: replay_transition_def ret_def evolves_def split: option.split list.split)
qed

text \<open>A transition replays the reservation it has just been handed.\<close>

lemma unfinished_handed:
  "reserve_idempotency k r s = (Inr v, s') \<Longrightarrow> ir_state (rv_record v) = IdPending \<Longrightarrow> unfinished k s'"
  using reserve_idempotency_handed by (fastforce simp: unfinished_def)

lemma sys_reserved_transition:
  assumes "\<And>x. evolves system_evolve (f x)"
  shows "evolves system_evolve (bindp (reserve_idempotency rid r)
    (\<lambda>reserved. bindp (replay_transition rt t e p rid (rv_record reserved)) f))"
proof (intro evolvesI sys.at_bindp)
  show "system_evolve s (snd (reserve_idempotency rid r s))" for s
    by (rule evolves_snd) (rule evolve_rules)
qed (auto intro: sys_replay_transition unfinished_handed evolves_snd assms)

lemma sys_execute_transition [evolve_rules]:
  "evolves system_evolve (execute_transition rt t e p target action if_match actor reason key fp rid)"
  unfolding execute_transition_def by (intro evolve_rules)

lemma sys_product_transition:
  "evolves system_evolve (product_transition rt t e p target if_match actor reason key)"
  unfolding product_transition_def by (rule sys_reserved_transition evolve_rules)+

section \<open>The dependency service\<close>

lemma sys_reject_reserved [evolve_rules]: "evolves system_evolve (reject_reserved rt rid code err)"
  unfolding reject_reserved_def by (intro evolve_rules)

lemma sys_replay_dependencies [evolve_rules]:
  "evolves system_evolve (replay_completed_dependencies rt t e p r)"
  "evolves system_evolve (recover_pending_dependencies rt t e p i)"
  unfolding replay_completed_dependencies_def recover_pending_dependencies_def by (intro evolve_rules)+

lemma sys_apply_replacement [evolve_rules]:
  "evolves system_evolve (apply_replacement rt t e i p edges canonical warnings etag actor reason fp rid)"
  unfolding apply_replacement_def by (intro evolve_rules)

lemma sys_execute_replacement [evolve_rules]:
  "evolves system_evolve (execute_replacement rt t e p canonical etag actor reason fp rid)"
  unfolding execute_replacement_def by (intro evolve_rules)

lemma sys_replace_dependencies:
  "evolves system_evolve (replace_declared_dependencies rt t e p ups etag actor reason key)"
  unfolding replace_declared_dependencies_def by (intro evolve_rules)

section \<open>The membership service\<close>

lemma sys_membership_basics [evolve_rules]:
  "evolves system_evolve (complete_runtime rt t e i)"
  "evolves system_evolve (reserve_mutation rt t e p action m)"
  "evolves system_evolve (manual_member rt t e p i entity kind actor)"
  unfolding complete_runtime_def reserve_mutation_def manual_member_def by (intro evolve_rules)+

lemma sys_manual_parts [evolve_rules]:
  "evolves system_evolve (replay_manual_member rt t e p i m r)"
  "evolves system_evolve (create_manual_member rt t e p rid i entity kind m)"
  unfolding replay_manual_member_def create_manual_member_def by (intro evolve_rules)+

text \<open>What an adoption does before it completes the reservation leaves the reservations alone.\<close>

definition same_reservations :: "repo \<Rightarrow> repo \<Rightarrow> bool" where
  "same_reservations s s' \<longleftrightarrow> rp_idempotency s' = rp_idempotency s"

interpretation sres: step_order same_reservations
  by unfold_locales (simp_all add: same_reservations_def)

lemma same_reservations_leaves:
  "evolves same_reservations (mutation_event rt m out a b c d err)"
  "evolves same_reservations (append_membership_decision t e p dec)"
  "evolves same_reservations (lift_result x)"
  by (rule evolvesI; auto simp: same_reservations_def mutation_event_def append_membership_decision_def lift_result_def
      utc_now_def py_simps Let_def split: sum.split)+

lemma unfinished_same: "unfinished k s \<Longrightarrow> same_reservations s s' \<Longrightarrow> unfinished k s'"
  by (simp add: unfinished_def same_reservations_def)

lemma unfinished_after:
  "evolves same_reservations m \<Longrightarrow> m s = (x, s') \<Longrightarrow> unfinished k s \<Longrightarrow> unfinished k s'"
  using unfinished_same evolvesD by metis

lemma sys_adopt_active:
  assumes "unfinished rid s"
  shows "system_evolve s (snd (adopt_active_member rt t e p rid i m x s))"
proof -
  have leaf: "system_evolve u (snd (mutation_event rt m out a b c d err u))"
    "system_evolve u (snd (append_membership_decision t e p dec u))" "system_evolve u (snd (lift_result y u))"
    for u out a b c d err dec and y :: "py_error + string"
    by (rule evolves_snd, rule evolve_rules)+
  note after = unfinished_after [OF same_reservations_leaves(1)] unfinished_after [OF same_reservations_leaves(2)]
    unfinished_after [OF same_reservations_leaves(3)]
  show ?thesis
    unfolding adopt_active_member_def using assms
    by (intro sys.at_bindp sys.at_seqp) (simp_all add: leaf sys.step_refl ret_def, rule sys_complete_at, (rule after, assumption)+)
qed

lemma reserve_mutation_handed:
  assumes "reserve_mutation rt t e p a m s = (Inr (rid, r), s')"
  shows "idem_of s' rid = Some r"
  using assms unfolding reserve_mutation_def
  by (elim bindp_InrE) (auto simp: ret_def dest: reserve_idempotency_handed)

lemma sys_add_manual_member: "evolves system_evolve (add_manual_member rt t e p entity kind actor reason key)"
proof -
  let ?i = "member_identity rt p kind entity" and ?m = "add_mutation t e p entity kind actor reason key"
  let ?rest = "\<lambda>(rid, reserved). if ir_state reserved = IdCompleted then replay_manual_member rt t e p ?i ?m reserved
       else seqp (raise_if (ir_state reserved \<noteq> IdPending)
                 (ProductConsistencyError (''idempotency reservation is '' @ idem_state_str (ir_state reserved))))
         (bindp (get_membership t e p ?i) (\<lambda>existing. case existing of
            Some x \<Rightarrow> if me_state x = MsActive then adopt_active_member rt t e p rid ?i ?m x
              else raise (ValueError ''excluded membership cannot be silently reactivated'')
          | None \<Rightarrow> create_manual_member rt t e p rid ?i entity kind ?m))"
  have "evolves system_evolve (bindp (reserve_mutation rt t e p ''membership_add'' ?m) ?rest)"
  proof (intro evolvesI sys.at_bindp)
    show "system_evolve s (snd (reserve_mutation rt t e p ''membership_add'' ?m s))" for s
      by (rule evolves_snd) (rule evolve_rules)
    fix x s s'
    assume "reserve_mutation rt t e p ''membership_add'' ?m s = (Inr x, s')"
    then have "unfinished (fst x) s'" if "ir_state (snd x) = IdPending"
      using reserve_mutation_handed [of rt t e p "''membership_add''" ?m s "fst x" "snd x" s'] that
      by (auto simp: unfinished_def)
    then show "system_evolve s' (snd (?rest x s'))"
      using sys.step_refl [of s'] sys_adopt_active [of "fst x" s'] sys_manual_parts [THEN evolves_snd]
      by (auto simp: seqp_apply bindp_apply get_membership_def reads_apply raise_if_def raise_def ret_def split: option.split prod.split)
  qed
  note main = this
  show ?thesis
    unfolding add_manual_member_def Let_def by (rule main evolve_rules)+
qed

lemma sys_generate_one [evolve_rules]: "evolves system_evolve (generate_one rt t e p source now c counts)"
  unfolding generate_one_def candidate_proposal_def by (intro evolve_rules)

lemma sys_generate_loop [evolve_rules]: "evolves system_evolve (generate_loop rt t e p source now cs counts)"
  by (induction cs arbitrary: counts) (simp_all, (rule evolve_rules | assumption)+)

lemma sys_generate_proposals: "evolves system_evolve (generate_proposals rt t e p source evidence n)"
  unfolding generate_proposals_def by (intro evolve_rules)

lemma sys_decision_parts [evolve_rules]:
  "evolves system_evolve (replayed_membership rt action t e p i v n r)"
  "evolves system_evolve (accept_membership rt t e p i member)"
  unfolding replayed_membership_def accept_membership_def by (intro evolve_rules)+

lemma sys_replay_decision [evolve_rules]:
  "evolves system_evolve (replay_decision rt action t e p i n m r)"
  "evolves system_evolve (recover_decision rt action t e p i oid)"
  unfolding replay_decision_def recover_decision_def by (intro evolve_rules)+

lemma sys_execute_decision [evolve_rules]:
  "evolves system_evolve (execute_decision rt action t e p i n m rid)"
  unfolding execute_decision_def by (intro evolve_rules)

lemma evolves_idem_state [evolve_rules]:
  "evolves system_evolve m1 \<Longrightarrow> evolves system_evolve m2 \<Longrightarrow> evolves system_evolve m3 \<Longrightarrow> evolves system_evolve m4 \<Longrightarrow>
   evolves system_evolve (case x of IdPending \<Rightarrow> m1 | IdCompleted \<Rightarrow> m2 | IdFailed \<Rightarrow> m3 | IdSuperseded \<Rightarrow> m4)"
  by (cases x) simp_all

lemma sys_decide_proposal: "evolves system_evolve (decide_proposal rt action t e p i actor reason key n)"
  unfolding decide_proposal_def by (intro evolve_rules)

lemma sys_exclude_member: "evolves system_evolve (exclude_member rt t e p i actor reason key etag)"
  unfolding exclude_member_def replay_exclusion_def execute_exclusion_def by (intro evolve_rules)

section \<open>Any interleaving of calls\<close>

lemma repo_batch_loop:
  "registry_ok (sv_registry sv) \<Longrightarrow> evolves repo_evolve (batch_loop rt sv t e sts counts)"
  by (induction sts arbitrary: counts)
     (simp_all add: repo.evolves_ret repo.evolves_bindp repo_reconcile_operation)

lemma repo_reconcile_batch:
  assumes "registry_ok (sv_registry sv)"
  shows "evolves repo_evolve (reconcile_batch rt sv t e limit kind)"
  unfolding reconcile_batch_def list_reconcilable_operations_def option.case py_datetime.case bindp_ret
  by (intro evolve_rules repo_batch_loop assms)

text \<open>One call by some client: the operations of the three services and of a reconciler.\<close>

inductive system_step :: "runtime \<Rightarrow> repo \<Rightarrow> repo \<Rightarrow> bool" for rt :: runtime where
  create: "system_step rt s (snd (product_create rt p actor reason key s))"
| update: "system_step rt s (snd (product_update rt p if_match actor reason key action s))"
| transition: "system_step rt s (snd (product_transition rt t e i target if_match actor reason key s))"
| dependencies: "system_step rt s (snd (replace_declared_dependencies rt t e i ups etag actor reason rkey s))"
| add_member: "system_step rt s (snd (add_manual_member rt t e i entity kind actor reason rkey s))"
| generate: "system_step rt s (snd (generate_proposals rt t e i source evidence n s))"
| decide: "system_step rt s (snd (decide_proposal rt decision t e i pid actor reason rkey n s))"
| exclude: "system_step rt s (snd (exclude_member rt t e i mid actor reason rkey etag s))"
| reconcile: "sv_registry sv = registry_init rt (\<lambda>_. None) \<Longrightarrow>
    system_step rt s (snd (reconcile_operation rt sv t e oid s))"
| batch: "sv_registry sv = registry_init rt (\<lambda>_. None) \<Longrightarrow>
    system_step rt s (snd (reconcile_batch rt sv t e n okind s))"

inductive_cases system_stepE: "system_step rt s s'"

lemma system_step_evolves: "system_step rt s s' \<Longrightarrow> system_evolve s s'"
proof (induction rule: system_step.induct)
  case (reconcile sv s t e oid)
  then show ?case
    by (intro repo_system evolves_snd [OF repo_reconcile_operation]) (simp add: concrete_registry_ok)
next
  case (batch sv s t e n okind)
  then show ?case
    by (intro repo_system evolves_snd [OF repo_reconcile_batch]) (simp add: concrete_registry_ok)
qed (rule evolves_snd, (rule sys_product_create sys_product_update sys_product_transition sys_replace_dependencies
      sys_add_manual_member sys_generate_proposals sys_decide_proposal sys_exclude_member))+

lemma system_run_evolves: "(system_step rt)\<^sup>*\<^sup>* s s' \<Longrightarrow> system_evolve s s'"
  by (induction rule: rtranclp_induct) (blast intro: sys.step_refl sys.step_trans system_step_evolves)+

definition reachable :: "runtime \<Rightarrow> repo \<Rightarrow> bool" where
  "reachable rt s \<longleftrightarrow> (system_step rt)\<^sup>*\<^sup>* empty_repo s"

lemma reachable_inv: "reachable rt s \<Longrightarrow> ops_inv s \<and> proposals_inv s"
proof -
  assume "reachable rt s"
  then have "system_evolve empty_repo s" by (simp add: reachable_def system_run_evolves)
  moreover have "ops_inv empty_repo" "proposals_inv empty_repo"
    by (simp_all add: ops_inv_def proposals_inv_def empty_repo_def)
  ultimately show ?thesis
    by (auto simp: system_evolve_def evidence_evolve_def proposals_evolve_def intro: ops_evolve_inv)
qed

lemma reachable_step: "reachable rt s \<Longrightarrow> system_step rt s s' \<Longrightarrow> reachable rt s'"
  by (simp add: reachable_def)

section \<open>Runs of the services\<close>

text \<open>An exclusion of an unknown membership, tried twice under different keys.\<close>

definition attempted_repo :: repo where
  "attempted_repo = snd (exclude_member sample_rt ''t'' ''e'' ''p'' ''m'' ''actor'' ''reason'' ''k1'' ''tag'' empty_repo)"

definition attempted_again_repo :: repo where
  "attempted_again_repo =
     snd (exclude_member sample_rt ''t'' ''e'' ''p'' ''m'' ''actor'' ''reason'' ''k2'' ''tag'' attempted_repo)"

definition attempt_key :: "string \<times> string \<times> string \<times> string" where
  "attempt_key = (''t'', ''e'', ''p'', snd (snd (snd (fst (hd (rp_decisions attempted_repo))))))"

lemma attempted_run: "(system_step sample_rt)\<^sup>*\<^sup>* attempted_repo attempted_again_repo"
  unfolding attempted_again_repo_def by (intro r_into_rtranclp system_step.exclude)

lemma attempt_recorded: "decision_of attempted_repo attempt_key \<noteq> None"
  by code_simp

text \<open>A product is created; the evidence for a proposal changes, which supersedes it, and changes again.\<close>

definition created_repo :: repo where
  "created_repo = snd (product_create spelling_rt (sample_product ''p'' []) ''actor'' ''reason'' (Some ''k'') empty_repo)"

definition lineage_run :: "string \<Rightarrow> repo \<Rightarrow> repo" where
  "lineage_run reference s =
     snd (generate_proposals spelling_rt ''t'' ''e'' ''p'' PrLineage [(''x'', ''table'', reference)] 100 s)"

definition superseded_repo :: repo where
  "superseded_repo = lineage_run ''r2'' (lineage_run ''r1'' created_repo)"

definition superseded_again_repo :: repo where
  "superseded_again_repo = lineage_run ''r3'' superseded_repo"

definition proposal_key :: "string \<times> string \<times> string \<times> string \<times> int" where
  "proposal_key =
     (''t'', ''e'', ''p'', proposal_identity spelling_rt ''t'' ''e'' ''p'' ''table'' ''x'' ''lineage'', 1)"

lemma lineage_step: "system_step spelling_rt s (lineage_run r s)"
  unfolding lineage_run_def by (rule system_step.generate)

lemma created_reachable: "reachable spelling_rt created_repo"
  unfolding reachable_def created_repo_def by (rule r_into_rtranclp) (rule system_step.create)

lemma superseded_reachable: "reachable spelling_rt superseded_repo"
  unfolding superseded_repo_def
  by (rule reachable_step [OF reachable_step [OF created_reachable]]) (rule lineage_step)+

lemma superseded_run: "(system_step spelling_rt)\<^sup>*\<^sup>* superseded_repo superseded_again_repo"
  unfolding superseded_again_repo_def by (intro r_into_rtranclp lineage_step)

lemma proposal_superseded: "map_option pp_state (proposal_at superseded_repo proposal_key) = Some PsSuperseded"
  by code_simp

section \<open>Properties\<close>

text \<open>
  C2. Evidence is permanent: whatever calls clients and reconcilers make, in any order and with any
  arguments, failing or not, an operation plan, an operation result, a history event, a membership
  decision, a dependency plan or a dependency result that is stored stays stored unchanged.
\<close>

theorem evidence_is_permanent:
  assumes "(system_step rt)\<^sup>*\<^sup>* s s'"
  shows "(\<forall>k p. plan_of s k = Some p \<longrightarrow> plan_of s' k = Some p) \<and>
    (\<forall>k r. result_of s k = Some r \<longrightarrow> result_of s' k = Some r) \<and>
    (\<forall>k h. history_of s k = Some h \<longrightarrow> history_of s' k = Some h) \<and>
    (\<forall>k d. decision_of s k = Some d \<longrightarrow> decision_of s' k = Some d) \<and>
    (\<forall>k p. dep_plan_of s k = Some p \<longrightarrow> dep_plan_of s' k = Some p) \<and>
    (\<forall>k r. dep_result_of s k = Some r \<longrightarrow> dep_result_of s' k = Some r)"
  using system_run_evolves [OF assms]
  by (simp add: system_evolve_def evidence_evolve_def store_evolve_def)

theorem evidence_is_permanent_witness:
  "decision_of attempted_repo attempt_key \<noteq> None \<and>
   decision_of attempted_again_repo attempt_key = decision_of attempted_repo attempt_key"
proof -
  obtain d where d: "decision_of attempted_repo attempt_key = Some d"
    using attempt_recorded by blast
  moreover have "decision_of attempted_again_repo attempt_key = Some d"
    using evidence_is_permanent [OF attempted_run, THEN conjunct2, THEN conjunct2, THEN conjunct2, THEN conjunct1] d
    by blast
  ultimately show ?thesis by simp
qed

text \<open>
  C3. Final outcomes stay final along every run from the empty repository: a terminal operation state
  does not change; a completed reservation does not change in any field, but for being bound to an operation
  when it names none, and so keeps its result revision, tag and request; a decided proposal keeps its
  decision; and a membership either is unchanged or has given way to a strictly later revision of the
  same entity, creation and proposal.
\<close>

theorem outcomes_are_final:
  assumes "reachable rt s" and "(system_step rt)\<^sup>*\<^sup>* s s'"
  shows "(\<forall>k st. dget (rp_operation_states s) k = Some st \<and> terminal_status (os_status st) \<longrightarrow>
        dget (rp_operation_states s') k = Some st) \<and>
    (\<forall>k r. idem_of s k = Some r \<and> ir_state r = IdCompleted \<longrightarrow>
        idem_of s' k = Some r \<or>
        ir_operation_id r = None \<and> (\<exists>oid. idem_of s' k = Some (r\<lparr>ir_operation_id := oid\<rparr>))) \<and>
    (\<forall>k v. proposal_at s k = Some v \<and> pp_state v \<noteq> PsProposed \<longrightarrow> proposal_at s' k = Some v) \<and>
    (\<forall>k m. membership_at s k = Some m \<longrightarrow>
        membership_at s' k = Some m \<or>
        (\<exists>m'. membership_at s' k = Some m' \<and> me_revision m < me_revision m' \<and>
           me_entity_id m' = me_entity_id m \<and> me_entity_type m' = me_entity_type m \<and>
           me_created_at m' = me_created_at m \<and> me_created_by m' = me_created_by m \<and>
           me_proposal_id m' = me_proposal_id m))"
proof (intro conjI allI impI; (elim conjE)?)
  have ev: "ops_evolve s s'" "idem_lasts s s'" "proposals_evolve s s'" "store_evolve membership_at member_evolve s s'"
    using system_run_evolves [OF assms(2)] by (simp_all add: system_evolve_def evidence_evolve_def)
  have inv: "ops_inv s" "proposals_inv s"
    using reachable_inv [OF assms(1)] by simp_all
  show "dget (rp_operation_states s') k = Some st"
    if "dget (rp_operation_states s) k = Some st" "terminal_status (os_status st)" for k st
    by (rule ops_evolveD [OF ev(1) inv(1) that(1)]) (use that(2) in \<open>simp add: op_evolve_def\<close>)
  show "idem_of s' k = Some r \<or> ir_operation_id r = None \<and> (\<exists>oid. idem_of s' k = Some (r\<lparr>ir_operation_id := oid\<rparr>))"
    if "idem_of s k = Some r" "ir_state r = IdCompleted" for k r
  proof (rule store_evolveD [OF ev(2) that(1)])
    fix r' assume r': "idem_of s' k = Some r'" "rec_lasts r r'"
    then have "unbound r' = unbound r" "ir_operation_id r \<noteq> None \<longrightarrow> ir_operation_id r' = ir_operation_id r"
      using that(2) by (auto simp: rec_lasts_def)
    then have "r' = r \<or> ir_operation_id r = None \<and> r' = r\<lparr>ir_operation_id := ir_operation_id r'\<rparr>"
      using unbound_eq [of r' r] unbound_eq [of r' "r\<lparr>ir_operation_id := ir_operation_id r'\<rparr>"] by auto
    with r'(1) show ?thesis by metis
  qed
  have props: "store_evolve proposal_at proposal_evolve s s'"
    using ev(3) inv(2) by (simp add: proposals_evolve_def)
  show "proposal_at s' k = Some v" if "proposal_at s k = Some v" "pp_state v \<noteq> PsProposed" for k v
    by (rule store_evolveD [OF props that(1)]) (use that(2) in \<open>simp add: proposal_evolve_def\<close>)
  show "membership_at s' k = Some m \<or> (\<exists>m'. membership_at s' k = Some m' \<and> me_revision m < me_revision m' \<and>
      me_entity_id m' = me_entity_id m \<and> me_entity_type m' = me_entity_type m \<and> me_created_at m' = me_created_at m \<and>
      me_created_by m' = me_created_by m \<and> me_proposal_id m' = me_proposal_id m)"
    if "membership_at s k = Some m" for k m
    by (rule store_evolveD [OF ev(4) that]) (auto simp: member_evolve_def)
qed

theorem outcomes_are_final_witness:
  "map_option pp_state (proposal_at superseded_repo proposal_key) = Some PsSuperseded \<and>
   proposal_at superseded_again_repo proposal_key = proposal_at superseded_repo proposal_key"
proof -
  obtain v where v: "proposal_at superseded_repo proposal_key = Some v" "pp_state v \<noteq> PsProposed"
    using proposal_superseded by (auto simp: map_option_case split: option.splits)
  then have "proposal_at superseded_again_repo proposal_key = Some v"
    using outcomes_are_final [OF superseded_reachable superseded_run, THEN conjunct2, THEN conjunct2, THEN conjunct1]
    by blast
  with v proposal_superseded show ?thesis by simp
qed

end
