(* ===== verification/RecoveryEvidence.thy ===== *)
theory RecoveryEvidence
  imports Recovery
begin

text \<open>
  What a successful reconciliation leaves behind. A handler hands back a context whose claim is for the
  same operation (\<open>keyed\<close>); from there the branch that finishes an applied operation is followed
  step by step, and the evidence it wrote is carried to the end by \<open>repo_evolve\<close>.
\<close>

section \<open>The claim of a context\<close>

lemma yields_option:
  "(x = None \<Longrightarrow> yields P m) \<Longrightarrow> (\<And>y. x = Some y \<Longrightarrow> yields P (f y)) \<Longrightarrow> yields P (case x of None \<Rightarrow> m | Some y \<Rightarrow> f y)"
  by (cases x) simp_all

lemma yields_prod: "(\<And>a b. p = (a, b) \<Longrightarrow> yields P (f a b)) \<Longrightarrow> yields P (case p of (a, b) \<Rightarrow> f a b)"
  by (cases p) simp

lemma yields_let: "(\<And>x. x = v \<Longrightarrow> yields P (f x)) \<Longrightarrow> yields P (Let v f)"
  by (simp add: Let_def)

lemmas yield_cases = yields_option yields_prod yields_let yields_if yields_raise yields_seqp

definition keyed :: "string \<times> string \<times> string \<Rightarrow> rcontext \<Rightarrow> bool" where
  "keyed k ctx \<longleftrightarrow> cl_key (cx_claim ctx) = k \<and> (\<forall>cl. yields (\<lambda>c. cl_key c = cl_key cl) (cx_renew ctx cl))"

lemma renew_keyed: "keyed k ctx \<Longrightarrow> yields (keyed k) (renew_if_needed ctx)"
  unfolding renew_if_needed_def
  by (rule yields_bindp [where Q = "\<lambda>c. cl_key c = k"], auto simp: keyed_def intro: yields_ret)

lemma keyed_ret: "keyed k ctx \<Longrightarrow> yields (\<lambda>(x, c). keyed k c) (ret (y, ctx))"
  by (simp add: yields_ret)

lemma keyed_manual: "keyed k ctx \<Longrightarrow> yields (\<lambda>(out, c). keyed k c) (manual_membership_reconcile rt st history plan ctx)"
  unfolding manual_membership_reconcile_def
  by (intro yield_cases yields_bindp_any keyed_ret)

lemma keyed_repair: "keyed k ctx \<Longrightarrow> yields (\<lambda>(v, c). keyed k c) (proposal_repair rt action st payload ctx)"
  unfolding proposal_repair_def
  by (intro yields_seqp yields_bindp [OF renew_keyed] yields_bindp_any keyed_ret)

lemma keyed_maybe_repair:
  "keyed k ctx \<Longrightarrow> yields (\<lambda>(v, c). keyed k c) (if b then proposal_repair rt action st payload ctx else ret (v0, ctx))"
  by (intro yields_if keyed_repair keyed_ret)

lemma keyed_proposal:
  "keyed k ctx \<Longrightarrow> yields (\<lambda>(out, c). keyed k c) (proposal_decision_reconcile rt action st history plan ctx)"
  unfolding proposal_decision_reconcile_def
  by (intro yields_seqp yields_bindp [OF keyed_maybe_repair] yields_bindp_any yield_cases keyed_ret)
     (auto intro: keyed_ret)

lemma keyed_exclusion: "keyed k ctx \<Longrightarrow> yields (\<lambda>(out, c). keyed k c) (membership_exclusion_reconcile rt st history plan ctx)"
  unfolding membership_exclusion_reconcile_def
  by (intro yield_cases yields_bindp_any keyed_ret)

lemma keyed_lifecycle: "keyed k ctx \<Longrightarrow> yields (\<lambda>(out, c). keyed k c) (product_lifecycle_reconcile rt st history plan ctx)"
  unfolding product_lifecycle_reconcile_def
  by (intro yields_seqp yields_bindp [OF renew_keyed] yields_bindp_any yields_option yields_raise yields_if keyed_ret)

lemma keyed_chunk_loop:
  "keyed k ctx \<Longrightarrow> yields (\<lambda>(out, c). keyed k c) (dependency_chunk_loop st rv name version apply_chunk n offset chunks ctx)"
proof (induction chunks arbitrary: offset ctx)
  case Nil
  then show ?case unfolding dependency_chunk_loop.simps by (rule keyed_ret)
next
  case (Cons chunk rest)
  show ?case
    unfolding dependency_chunk_loop.simps
    by (intro yields_seqp yields_bindp [OF renew_keyed [OF Cons.prems]] yields_bindp_any yields_option yields_let keyed_ret Cons.IH)
qed

lemma keyed_finish: "keyed k ctx \<Longrightarrow> yields (\<lambda>(out, c). keyed k c) (dependency_finish rt st payload ev target mplan p ctx)"
  unfolding dependency_finish_def
  by (intro yields_seqp yields_bindp [OF renew_keyed] yields_bindp_any keyed_ret)

lemma keyed_dependency: "keyed k ctx \<Longrightarrow> yields (\<lambda>(out, c). keyed k c) (dependency_replacement_reconcile rt st history plan ctx)"
  unfolding dependency_replacement_reconcile_def dependency_chunks_def
  by (intro yields_seqp yields_bindp [OF keyed_chunk_loop] yields_bindp_any yield_cases keyed_ret keyed_finish)
    (auto intro: keyed_ret)

lemma keyed_handler:
  assumes "concrete_handler rt kind = Some h" and "keyed k ctx"
  shows "yields (\<lambda>(out, c). keyed k c) (h st history plan ctx)"
  using assms(1)
proof (cases rule: concrete_handler_cases)
  case 1 with assms(2) show ?thesis by (simp only: keyed_manual)
next
  case (2 a) with assms(2) show ?thesis by (simp only: keyed_proposal)
next
  case 3 with assms(2) show ?thesis by (simp only: keyed_exclusion)
next
  case 4 with assms(2) show ?thesis by (simp only: keyed_dependency)
next
  case 5 with assms(2) show ?thesis by (simp only: keyed_lifecycle)
qed

lemma service_renew_key: "yields (\<lambda>c. cl_key c = cl_key cl) (service_renew_if_needed rt sv cl)"
  unfolding service_renew_if_needed_def renew_operation_claim_def
  by (intro yields_bindp_any yield_cases yields_ret) (simp_all add: cl_key_def)

lemma service_context_keyed: "keyed (cl_key cl) (service_context rt sv cl)"
  by (simp add: keyed_def service_context_def service_renew_key)

section \<open>Single steps\<close>

lemma lift_result_Inr: "lift_result x s = (Inr v, s') \<longleftrightarrow> x = Inr v \<and> s' = s"
  by (cases x) (auto simp: lift_result_def)

lemma decode_reference: "decode_final_result rt kind r = Inr fr \<Longrightarrow> fr_checksum fr = re_reference r"
  by (auto simp: decode_final_result_def Let_def split: if_splits option.splits pyval.splits)

lemma result_for_post:
  assumes "result_for rt t e p i payload s = (Inr r, s')"
  shows "re_key r = (t, e, p, i) \<or> result_of s (t, e, p, i) = Some r"
  using assms
  by (auto simp: result_for_def load_operation_result_def py_simps re_key_def utc_now_def Let_def
      split: option.splits if_splits prod.splits)

lemma save_result_post:
  "save_operation_result r s = (Inr (), s') \<Longrightarrow> result_of s' (re_key r) = Some r"
  by (auto simp: save_operation_result_def py_simps split: if_splits)

lemma append_history_post:
  "append_operation_history ev s = (Inr (), s') \<Longrightarrow> history_of s' (he_event_id ev) = Some ev"
  by (auto simp: append_operation_history_def py_simps split: if_splits)

lemma repair_reservation_post:
  assumes "repair_reservation rt st plan ''completed'' (EvResult fr) s = (Inr (), s')"
    and "os_idempotency_record_id st = Some rid" and "rid \<noteq> []"
  obtains r where "idem_of s' rid = Some r" and "ir_state r = IdCompleted"
    and "ir_operation_id r = Some (os_operation_id st)"
    and "ir_result_revision r = Some (fr_revision fr)" and "ir_result_etag r = Some (fr_etag fr)"
proof -
  obtain c cs where rid: "rid = c # cs" using assms(3) by (cases rid) auto
  obtain fp where "repair_idempotency_terminal rt rid (os_operation_id st) (py_str rt fp) ''completed'' (EvResult fr) s = (Inr (), s')"
    using assms(1,2) unfolding repair_reservation_def rid
    by (auto elim!: bindp_InrE simp: lift_result_Inr)
  then show thesis by (rule repair_completed) (rule that)
qed

lemma complete_operation_post:
  assumes "complete_operation rt cl fr s = (Inr (), s')"
  obtains st where "dget (rp_operation_states s) (cl_key cl) = Some st"
    and "dget (rp_operation_states s') (cl_key cl) = Some (st\<lparr>os_status := OsApplied,
      os_result_reference := Some (fr_checksum fr), os_last_error_code := None, os_claim_owner := None,
      os_claim_expires_at := None, os_updated_at := fr_applied_at fr, os_seq_no := os_seq_no st + 1\<rparr>)"
proof -
  from assms obtain st s1 where o: "owned_state rt cl s = (Inr st, s1)"
    and w: "put_operation_state (cl_key cl) (st\<lparr>os_status := OsApplied,
      os_result_reference := Some (fr_checksum fr), os_last_error_code := None, os_claim_owner := None,
      os_claim_expires_at := None, os_updated_at := fr_applied_at fr, os_seq_no := os_seq_no st + 1\<rparr>) s1 = (Inr (), s')"
    unfolding complete_operation_def finalize_state_def option.case by (rule bindp_InrE)
  have "dget (rp_operation_states s) (cl_key cl) = Some st"
    using o unfolding owned_state_def by (auto simp: py_simps split: option.splits if_splits prod.splits sum.splits)
  with w show thesis by (intro that) (auto simp: put_operation_state_def)
qed

section \<open>The applied branch\<close>

text \<open>
  The evidence of an applied operation: the terminal state, the stored result it refers to, which
  decodes, and the reservation completed with that result.
\<close>

definition applied_evidence ::
  "runtime \<Rightarrow> string \<Rightarrow> string \<Rightarrow> string \<Rightarrow> op_state \<Rightarrow> final_result \<Rightarrow> repo \<Rightarrow> bool" where
  "applied_evidence rt t e i st fr s \<longleftrightarrow>
     dget (rp_operation_states s) (t, e, i) = Some st \<and> os_key st = (t, e, i) \<and> os_status st = OsApplied \<and>
     (\<exists>r. result_of s (t, e, os_product_id st, i) = Some r \<and> os_result_reference st = Some (re_reference r) \<and>
          decode_final_result rt (os_operation_kind st) r = Inr fr) \<and>
     (\<forall>rid. os_idempotency_record_id st = Some rid \<longrightarrow> rid \<noteq> [] \<longrightarrow>
        (\<exists>rec. idem_of s rid = Some rec \<and> ir_state rec = IdCompleted \<and> ir_operation_id rec = Some i \<and>
               ir_result_revision rec = Some (fr_revision fr) \<and> ir_result_etag rec = Some (fr_etag fr)))"

lemma applied_evidence_stays:
  assumes "applied_evidence rt t e i st fr s" and "repo_evolve s s'" and "ops_inv s"
  shows "applied_evidence rt t e i st fr s'"
proof -
  have st: "dget (rp_operation_states s) (t, e, i) = Some st" "os_status st = OsApplied"
    using assms(1) by (simp_all add: applied_evidence_def)
  have "ops_evolve s s'" using assms(2) by (simp add: repo_evolve_def)
  then obtain st' where "dget (rp_operation_states s') (t, e, i) = Some st'" "op_evolve st st'"
    using assms(3) st(1) by (rule ops_evolveD)
  with st(2) have "dget (rp_operation_states s') (t, e, i) = Some st"
    by (auto simp: op_evolve_def terminal_status_def)
  moreover have "\<exists>r. result_of s' (t, e, os_product_id st, i) = Some r \<and> os_result_reference st = Some (re_reference r) \<and>
      decode_final_result rt (os_operation_kind st) r = Inr fr"
    using assms(1) result_stays [OF assms(2)] unfolding applied_evidence_def by blast
  moreover have "idem_of s' rid = Some rec"
    if "idem_of s rid = Some rec" "ir_state rec = IdCompleted" "ir_operation_id rec = Some i" for rid rec
    using completed_stays [OF assms(2) that(1,2)] that(3) by simp
  ultimately show ?thesis
    using assms(1) unfolding applied_evidence_def by meson
qed

lemma replay_of_evidence:
  assumes "applied_evidence rt t e i st fr s"
  shows "replay_completed rt t e (os_product_id st) i s = (Inr fr, s)"
  using assms
  by (auto simp: applied_evidence_def replay_completed_def get_operation_state_def load_operation_result_def py_simps
      os_key_def lift_result_def)

text \<open>The writes of the branch, and the order of the states between them.\<close>

lemma finish_applied_steps:
  assumes run: "finish_applied rt sv t e i st plan history cl payload s = (Inr rr, s')"
  obtains r d c s1 s4 s5 s8 s9 where
    "result_for rt t e (os_product_id st) i payload s = (Inr r, s1)"
    and "decode_final_result rt (os_operation_kind st) r = Inr d" and "cl_key c = cl_key cl"
    and "repo_evolve s s4" and "save_operation_result r s4 = (Inr (), s5)" and "repo_evolve s4 s5" and "repo_evolve s5 s8"
    and "repair_reservation rt st plan ''completed'' (EvResult d) s8 = (Inr (), s9)" and "repo_evolve s8 s9"
    and "complete_operation rt c d s9 = (Inr (), s')" and "repo_evolve s9 s'" and "rr_status rr = RsApplied"
proof -
  obtain r s1 d s2 c s3 x1 s4 x2 s5 fp s6 now s7 x3 s8 x4 s9 x5 where
    r: "result_for rt t e (os_product_id st) i payload s = (Inr r, s1)"
    and d: "lift_result (decode_final_result rt (os_operation_kind st) r) s1 = (Inr d, s2)"
    and c: "service_renew_if_needed rt sv cl s2 = (Inr c, s3)"
    and k: "checkpoint_now rt c ''result_ready'' (re_checksum r) s3 = (Inr x1, s4)"
    and w: "save_operation_result r s4 = (Inr x2, s5)"
    and fp: "lift_result (pitem (pl_payload plan) ''request_fingerprint'') s5 = (Inr fp, s6)"
    and n: "utc_now rt s6 = (Inr now, s7)"
    and h: "(case find (\<lambda>ev. he_event_id ev = he_event_id
          (terminal_event rt t e i st plan r d (payload_checksum rt payload) fp now)) history of
        None \<Rightarrow> append_operation_history (terminal_event rt t e i st plan r d (payload_checksum rt payload) fp now)
      | Some ev \<Rightarrow> raise_if (terminal_semantics ev \<noteq> terminal_semantics
          (terminal_event rt t e i st plan r d (payload_checksum rt payload) fp now))
            (diverged ''terminal_history_mismatch'')) s7 = (Inr x3, s8)"
    and q: "repair_reservation rt st plan ''completed'' (EvResult d) s8 = (Inr x4, s9)"
    and z: "complete_operation rt c d s9 = (Inr x5, s')" and rr: "rr_status rr = RsApplied"
    using run unfolding finish_applied_def Let_def get_operation_state_def
    by (elim bindp_InrE seqp_InrE) (auto simp: service_result_def)
  have s12: "s2 = s1" "decode_final_result rt (os_operation_kind st) r = Inr d" and s56: "s6 = s5"
    using d fp by (simp_all add: lift_result_Inr)
  have "evolves repo_evolve (case find P history of None \<Rightarrow> append_operation_history x | Some ev \<Rightarrow> raise_if (B ev) err)"
    for P x B err by (intro evolve_rules)
  from evolvesD [OF this h] evolvesD [OF repo_utc_now n] have "repo_evolve s5 s8"
    unfolding s56 by (blast intro: repo.step_trans)
  moreover have "repo_evolve s s4"
    using evolvesD [OF repo_result_for r] evolvesD [OF repo_service_renew c] evolvesD [OF repo_checkpoint_now k] s12(1)
    by (blast intro: repo.step_trans)
  moreover have "cl_key c = cl_key cl" by (rule yieldsD [OF service_renew_key c])
  ultimately show thesis
    using r s12(2) w q z rr evolvesD [OF repo_evidence_methods(3) w] evolvesD [OF repo_repair_reservation q]
      evolvesD [OF repo_claims(6) z]
    by (intro that) simp_all
qed

lemma finish_applied_post:
  assumes run: "finish_applied rt sv t e i st plan history cl payload s = (Inr rr, s')"
    and inv: "ops_inv s" and key: "cl_key cl = (t, e, i)"
    and st: "dget (rp_operation_states s) (t, e, i) = Some st1" "op_evolve st st1"
  obtains st' fr where "applied_evidence rt t e i st' fr s'" and "op_evolve st st'" and "rr_status rr = RsApplied"
proof -
  obtain r d c s1 s4 s5 s8 s9 where r: "result_for rt t e (os_product_id st) i payload s = (Inr r, s1)"
    and d: "decode_final_result rt (os_operation_kind st) r = Inr d" and c: "cl_key c = cl_key cl"
    and e4: "repo_evolve s s4" and w: "save_operation_result r s4 = (Inr (), s5)" and e5: "repo_evolve s4 s5"
    and e8: "repo_evolve s5 s8" and q: "repair_reservation rt st plan ''completed'' (EvResult d) s8 = (Inr (), s9)"
    and e9: "repo_evolve s8 s9" and z: "complete_operation rt c d s9 = (Inr (), s')" and ez: "repo_evolve s9 s'"
    and rr: "rr_status rr = RsApplied"
    using run by (rule finish_applied_steps)
  have eS: "repo_evolve s5 s'" "repo_evolve s s'" using e4 e5 e8 e9 ez by (blast intro: repo.step_trans)+
  obtain st' where st': "dget (rp_operation_states s') (t, e, i) = Some st'" "os_status st' = OsApplied"
      "os_result_reference st' = Some (fr_checksum d)"
    by (rule complete_operation_post [OF z]) (use c key in auto)
  obtain u where "dget (rp_operation_states s') (t, e, i) = Some u" "op_evolve st1 u"
    using eS(2) inv st(1) unfolding repo_evolve_def by (blast elim: ops_evolveD)
  with st(2) st'(1) have ev: "op_evolve st st'" by (auto intro: op_evolve_trans)
  have key': "os_key st' = (t, e, i)"
    using ops_invD [OF inv st(1)] st(2) ev by (auto simp: op_evolve_def state_inv_def)
  have same: "os_product_id st' = os_product_id st" "os_operation_kind st' = os_operation_kind st"
    "os_idempotency_record_id st' = os_idempotency_record_id st" "os_operation_id st = i"
    using ev key' by (auto simp: op_evolve_def os_key_def)
  have "result_of s5 (t, e, os_product_id st, i) = Some r"
    using result_for_post [OF r] save_result_post [OF w] result_stays [OF repo.step_trans [OF e4 e5]] by auto
  then have res: "result_of s' (t, e, os_product_id st, i) = Some r" by (rule result_stays [OF eS(1)])
  have "\<exists>rec. idem_of s' rid = Some rec \<and> ir_state rec = IdCompleted \<and> ir_operation_id rec = Some i \<and>
      ir_result_revision rec = Some (fr_revision d) \<and> ir_result_etag rec = Some (fr_etag d)"
    if "os_idempotency_record_id st' = Some rid" "rid \<noteq> []" for rid
  proof -
    have "os_idempotency_record_id st = Some rid" using that(1) same by simp
    from repair_reservation_post [OF q this that(2)] same(4)
    obtain q where q: "idem_of s9 rid = Some q" "ir_state q = IdCompleted" "ir_operation_id q = Some i"
        "ir_result_revision q = Some (fr_revision d)" "ir_result_etag q = Some (fr_etag d)" by metis
    then show ?thesis using completed_stays [OF ez q(1,2)] by auto
  qed
  then have "applied_evidence rt t e i st' d s'"
    using st' key' res d decode_reference [OF d] unfolding applied_evidence_def same by auto
  with ev rr show thesis by (intro that)
qed

section \<open>The whole reconciliation\<close>

lemma claim_grants:
  assumes "claim_operation t e i w now until sq pt s = (Inr cl, s')"
  shows "cl_key cl = (t, e, i)"
  using assms unfolding claim_operation_def Let_def
  by (auto simp: py_simps cl_key_def put_operation_state_def split: option.splits if_splits prod.splits sum.splits)

text \<open>Only the applied branch reports a recovered application.\<close>

abbreviation recovered_applied :: "recon_result \<Rightarrow> bool" where
  "recovered_applied rr \<equiv> rr_status rr = RsApplied \<and> rr_recovered rr"

lemma other_branches:
  "finish_superseded rt sv t e i st plan cl out s = (Inr rr, s') \<Longrightarrow> \<not> recovered_applied rr"
  "finish_failed rt sv t e i st plan cl out s = (Inr rr, s') \<Longrightarrow> \<not> recovered_applied rr"
  "finish_retry rt sv t e i cl out s = (Inr rr, s') \<Longrightarrow> \<not> recovered_applied rr"
  "retry_later sv t e i s = (Inr rr, s') \<Longrightarrow> \<not> recovered_applied rr"
  "fail_early rt sv t e i cl code s = (Inr rr, s') \<Longrightarrow> \<not> recovered_applied rr"
  unfolding finish_superseded_def finish_failed_def finish_retry_def retry_later_def fail_early_def Let_def
  by (elim bindp_InrE seqp_InrE; auto simp: service_result_def)+

lemma fail_consistency_branch:
  "fail_consistency rt sv t e i st plan cl code s = (Inr rr, s') \<Longrightarrow> \<not> recovered_applied rr"
  unfolding fail_consistency_def
  by (elim bindp_InrE) (auto simp: service_result_def dest: other_branches split: if_splits elim!: bindp_InrE)

lemma reconcile_claimed_post:
  assumes run: "reconcile_claimed rt sv t e i st plan history cl s = (Inr rr, s')" and ok: "recovered_applied rr"
    and reg: "sv_registry sv = registry_init rt (\<lambda>_. None)" and inv: "ops_inv s"
    and st: "dget (rp_operation_states s) (t, e, i) = Some st" and key: "cl_key cl = (t, e, i)"
  obtains st' fr where "applied_evidence rt t e i st' fr s'" and "op_evolve st st'"
proof -
  obtain h s1 x s2 where h: "registry_get (sv_registry sv) (os_operation_kind st) s = (Inr h, s1)"
    and x: "h st history plan (service_context rt sv cl) s1 = (Inr x, s2)"
    and k: "(case x of (out, ctx) \<Rightarrow> if oo_status out = OoRetry
       then finish_retry rt sv t e i (cx_claim ctx) out
       else bindp (service_renew_if_needed rt sv (cx_claim ctx)) (\<lambda>cl1.
         seqp (checkpoint_now rt cl1 (por_else (oo_checkpoint out) ''projections_verified'') (pl_checksum plan))
         (case oo_status out of
            OoApplied \<Rightarrow> finish_applied rt sv t e i st plan history cl1
              (case oo_final_result out of None \<Rightarrow> [] | Some p \<Rightarrow> p)
          | OoSuperseded \<Rightarrow> finish_superseded rt sv t e i st plan cl1 out
          | _ \<Rightarrow> finish_failed rt sv t e i st plan cl1 out))) s2 = (Inr rr, s')"
    using run unfolding reconcile_claimed_def by (elim bindp_InrE) blast
  have hh: "concrete_handler rt (os_operation_kind st) = Some h" "s1 = s"
    using h by (auto simp: registry_get_def reg registry_init_def split: option.splits)
  obtain out ctx where xx: "x = (out, ctx)" by (cases x)
  have kc: "cl_key (cx_claim ctx) = (t, e, i)"
    using yieldsD [OF keyed_handler [OF hh(1) service_context_keyed] x] key by (simp add: xx keyed_def)
  have "evolves repo_evolve (h st history plan (service_context rt sv cl))"
    using concrete_registry_ok [of rt] hh(1) service_context_ok
    by (simp add: registry_init_def [abs_def] registry_ok_def)
  from evolvesD [OF this x] have e2: "repo_evolve s s2" by (simp add: hh(2))
  have "oo_status out \<noteq> OoRetry" using k ok other_branches(3) by (auto simp: xx)
  then obtain c s3 u s4 where c: "service_renew_if_needed rt sv (cx_claim ctx) s2 = (Inr c, s3)"
    and p: "checkpoint_now rt c (por_else (oo_checkpoint out) ''projections_verified'') (pl_checksum plan) s3 = (Inr u, s4)"
    and f: "(case oo_status out of
            OoApplied \<Rightarrow> finish_applied rt sv t e i st plan history c
              (case oo_final_result out of None \<Rightarrow> [] | Some p \<Rightarrow> p)
          | OoSuperseded \<Rightarrow> finish_superseded rt sv t e i st plan c out
          | _ \<Rightarrow> finish_failed rt sv t e i st plan c out) s4 = (Inr rr, s')"
    using k by (auto simp: xx elim!: bindp_InrE seqp_InrE)
  then have f: "finish_applied rt sv t e i st plan history c (case oo_final_result out of None \<Rightarrow> [] | Some p \<Rightarrow> p) s4 = (Inr rr, s')"
    using ok other_branches(1,2) by (cases "oo_status out") auto
  have e4: "repo_evolve s s4"
    using e2 evolvesD [OF repo_service_renew c] evolvesD [OF repo_checkpoint_now p] by (blast intro: repo.step_trans)
  then have "ops_evolve s s4" by (simp add: repo_evolve_def)
  then have inv4: "ops_inv s4" and "\<exists>st4. dget (rp_operation_states s4) (t, e, i) = Some st4 \<and> op_evolve st st4"
    using inv st by (auto intro: ops_evolve_inv elim: ops_evolveD)
  then obtain st4 where st4: "dget (rp_operation_states s4) (t, e, i) = Some st4" "op_evolve st st4" by blast
  have "cl_key c = (t, e, i)" using yieldsD [OF service_renew_key c] kc by simp
  from finish_applied_post [OF f inv4 this st4] show thesis by (metis that)
qed

lemma trycatch_cases:
  assumes "trycatch m f s = (Inr y, s')"
  obtains "m s = (Inr y, s')" | e s1 where "m s = (Inl e, s1)" and "f e s1 = (Inr y, s')"
  using assms by (auto simp: trycatch_apply split: prod.splits sum.splits)

lemma get_operation_state_Inr:
  "get_operation_state t e i s = (Inr found, s') \<Longrightarrow>
   s' = s \<and> (\<forall>st. found = Some st \<longrightarrow> dget (rp_operation_states s) (t, e, i) = Some st)"
  by (auto simp: get_operation_state_def split: option.splits if_splits)

lemma reconcile_owned_post:
  assumes run: "reconcile_owned rt sv t e i cl s = (Inr rr, s')" and ok: "recovered_applied rr"
    and reg: "sv_registry sv = registry_init rt (\<lambda>_. None)" and inv: "ops_inv s" and key: "cl_key cl = (t, e, i)"
  obtains st' fr where "applied_evidence rt t e i st' fr s'"
proof -
  obtain found s1 where g: "get_operation_state t e i s = (Inr found, s1)"
    and k: "(case found of
       None \<Rightarrow> ret (service_result sv i RsMissing None False False None)
     | Some st \<Rightarrow>
         if sv_max_attempts sv \<le> os_attempt_count st
         then fail_early rt sv t e i cl ''reconciliation_attempts_exhausted''
         else
           bindp (load_operation_plan t e (os_product_id st) i) (\<lambda>plan.
           case plan of
             None \<Rightarrow> fail_early rt sv t e i cl ''operation_plan_missing''
           | Some p \<Rightarrow>
               bindp (get_operation_history t e i history_limit) (\<lambda>history.
               trycatch (reconcile_claimed rt sv t e i st p history cl)
                 (\<lambda>e1. case e1 of
                    OperationClaimConflict _ \<Rightarrow> retry_later sv t e i
                  | OperationConsistencyError code \<Rightarrow> fail_consistency rt sv t e i st p cl code
                  | _ \<Rightarrow> raise e1)))) s1 = (Inr rr, s')"
    using run unfolding reconcile_owned_def by (rule bindp_InrE)
  obtain st where f: "found = Some st" using k ok by (cases found) (auto simp: service_result_def)
  have "\<not> sv_max_attempts sv \<le> os_attempt_count st"
    using k ok other_branches(5) by (auto simp: f)
  with k obtain plan s2 where p: "load_operation_plan t e (os_product_id st) i s1 = (Inr plan, s2)"
    and k2: "(case plan of None \<Rightarrow> fail_early rt sv t e i cl ''operation_plan_missing''
           | Some p \<Rightarrow>
               bindp (get_operation_history t e i history_limit) (\<lambda>history.
               trycatch (reconcile_claimed rt sv t e i st p history cl)
                 (\<lambda>e1. case e1 of
                    OperationClaimConflict _ \<Rightarrow> retry_later sv t e i
                  | OperationConsistencyError code \<Rightarrow> fail_consistency rt sv t e i st p cl code
                  | _ \<Rightarrow> raise e1))) s2 = (Inr rr, s')"
    by (auto simp: f elim!: bindp_InrE)
  obtain pl where pl: "plan = Some pl" using k2 ok other_branches(5) by (cases plan) auto
  obtain history s3 where hs: "get_operation_history t e i history_limit s2 = (Inr history, s3)"
    and k3: "trycatch (reconcile_claimed rt sv t e i st pl history cl)
                 (\<lambda>e1. case e1 of
                    OperationClaimConflict _ \<Rightarrow> retry_later sv t e i
                  | OperationConsistencyError code \<Rightarrow> fail_consistency rt sv t e i st pl cl code
                  | _ \<Rightarrow> raise e1) s3 = (Inr rr, s')"
    using k2 by (auto simp: pl elim!: bindp_InrE)
  have s3: "s3 = s" using get_operation_state_Inr [OF g] p hs
    by (simp add: load_operation_plan_def get_operation_history_def)
  have st: "dget (rp_operation_states s) (t, e, i) = Some st"
    using get_operation_state_Inr [OF g] f by simp
  from k3 show thesis
  proof (cases rule: trycatch_cases)
    case 1
    from reconcile_claimed_post [OF 1 ok reg _ _ key] inv st s3 that show thesis by metis
  next
    case (2 e1 s4)
    with ok show thesis by (cases e1) (auto dest: other_branches(4) fail_consistency_branch)
  qed
qed

lemma reconcile_operation_post:
  assumes run: "reconcile_operation rt sv t e i s = (Inr rr, s')" and ok: "recovered_applied rr"
    and reg: "sv_registry sv = registry_init rt (\<lambda>_. None)" and inv: "ops_inv s"
  obtains st fr where "applied_evidence rt t e i st fr s'"
proof -
  obtain found s1 where g: "get_operation_state t e i s = (Inr found, s1)"
    and k: "(case found of
       None \<Rightarrow> ret (service_result sv i RsMissing None False False None)
     | Some st \<Rightarrow>
         if terminal_status (os_status st) then
           seqp (repair_terminal_revisit rt st)
           (ret (service_result sv i (terminal_recon (os_status st)) (Some st) False False None))
         else
           bindp (utc_now rt) (\<lambda>now.
           bindp (trycatch
               (bindp (claim_operation t e i (sv_worker_id sv) now
                         (now + seconds (sv_claim_ttl_seconds sv)) (os_seq_no st) (os_primary_term st))
                  (\<lambda>cl. ret (Some cl)))
               (\<lambda>e. case e of OperationClaimConflict _ \<Rightarrow> ret None | _ \<Rightarrow> raise e)) (\<lambda>claimed.
           case claimed of
             None \<Rightarrow> ret (service_result sv i RsRetry (Some st) False True None)
           | Some cl \<Rightarrow> reconcile_owned rt sv t e i cl))) s1 = (Inr rr, s')"
    using run unfolding reconcile_operation_def by (rule bindp_InrE)
  obtain st where f: "found = Some st" using k ok by (cases found) (auto simp: service_result_def)
  have "\<not> terminal_status (os_status st)"
    using k ok by (auto simp: f service_result_def elim!: seqp_InrE)
  with k obtain now s2 claimed s3 where n: "utc_now rt s1 = (Inr now, s2)"
    and c: "trycatch (bindp (claim_operation t e i (sv_worker_id sv) now
                         (now + seconds (sv_claim_ttl_seconds sv)) (os_seq_no st) (os_primary_term st))
                  (\<lambda>cl. ret (Some cl)))
               (\<lambda>e. case e of OperationClaimConflict _ \<Rightarrow> ret None | _ \<Rightarrow> raise e) s2 = (Inr claimed, s3)"
    and k2: "(case claimed of
             None \<Rightarrow> ret (service_result sv i RsRetry (Some st) False True None)
           | Some cl \<Rightarrow> reconcile_owned rt sv t e i cl) s3 = (Inr rr, s')"
    by (auto simp: f elim!: bindp_InrE)
  obtain cl where cl: "claimed = Some cl" using k2 ok by (cases claimed) (auto simp: service_result_def)
  have granted: "claim_operation t e i (sv_worker_id sv) now (now + seconds (sv_claim_ttl_seconds sv))
      (os_seq_no st) (os_primary_term st) s2 = (Inr cl, s3)"
    using c
  proof (cases rule: trycatch_cases)
    case (2 e1 s4)
    then show ?thesis by (cases e1) (auto simp: cl)
  qed (auto simp: cl elim!: bindp_InrE)
  have "repo_evolve s s3"
    using get_operation_state_Inr [OF g] evolvesD [OF repo_utc_now n] evolvesD [OF repo_claims(2) granted]
    by (blast intro: repo.step_trans)
  with inv have "ops_inv s3" by (auto simp: repo_evolve_def intro: ops_evolve_inv)
  with reconcile_owned_post [OF _ ok reg _ claim_grants [OF granted]] k2 cl that show thesis by auto
qed

end
