(* ===== verification/RecoveryProperties.thy ===== *)
theory RecoveryProperties
  imports ServiceEvolution RecoveryEvidence
begin

text \<open>
  Properties of recovery as a whole: the evidence of an applied operation and its replay, the revisit of
  a terminal operation, the bound on the attempts, the counts of a batch; and two behaviours of the
  recovery code that lose information: an operation failed for exhausted attempts, and a
  lifecycle transition that the service rejected.
\<close>

section \<open>Applied operations\<close>

lemma applied_evidence_system:
  assumes "applied_evidence rt t e i st fr s" and "system_evolve s s'" and "ops_inv s"
  shows "replay_completed rt t e (os_product_id st) i s' = (Inr fr, s')"
proof -
  have st: "dget (rp_operation_states s) (t, e, i) = Some st" "os_status st = OsApplied" "os_key st = (t, e, i)"
    using assms(1) by (simp_all add: applied_evidence_def)
  have "ops_evolve s s'" using assms(2) by (simp add: system_evolve_def)
  then obtain st' where "dget (rp_operation_states s') (t, e, i) = Some st'" "op_evolve st st'"
    using assms(3) st(1) by (rule ops_evolveD)
  with st(2) have st': "dget (rp_operation_states s') (t, e, i) = Some st"
    by (auto simp: op_evolve_def terminal_status_def)
  obtain r where r: "result_of s (t, e, os_product_id st, i) = Some r" "os_result_reference st = Some (re_reference r)"
      "decode_final_result rt (os_operation_kind st) r = Inr fr"
    using assms(1) by (auto simp: applied_evidence_def)
  have "result_of s' (t, e, os_product_id st, i) = Some r"
    using assms(2) r(1) by (auto simp: system_evolve_def evidence_evolve_def intro: store_evolve_eqD)
  with st st' r show ?thesis
    by (simp add: replay_completed_def get_operation_state_def load_operation_result_def py_simps os_key_def lift_result_def)
qed

text \<open>
  C1. When \<open>reconcile_operation\<close> reports that it applied an operation, the result is durable: replay
  returns a final result at once and after every later sequence of service calls and reconciliations,
  and the reservation the operation belongs to is completed with the revision and tag of that result.
\<close>

theorem applied_recovery_is_durable:
  assumes "reconcile_operation rt sv t e i s = (Inr rr, s')"
    and "rr_status rr = RsApplied" and "rr_recovered rr"
    and "sv_registry sv = registry_init rt (\<lambda>_. None)" and "ops_inv s"
  shows "\<exists>st fr. dget (rp_operation_states s') (t, e, i) = Some st \<and>
    (\<forall>s''. (system_step rt)\<^sup>*\<^sup>* s' s'' \<longrightarrow> replay_completed rt t e (os_product_id st) i s'' = (Inr fr, s'')) \<and>
    (\<forall>rid. os_idempotency_record_id st = Some rid \<and> rid \<noteq> [] \<longrightarrow>
       (\<exists>rec. idem_of s' rid = Some rec \<and> ir_state rec = IdCompleted \<and> ir_operation_id rec = Some i \<and>
          ir_result_revision rec = Some (fr_revision fr) \<and> ir_result_etag rec = Some (fr_etag fr)))"
proof -
  obtain st fr where ev: "applied_evidence rt t e i st fr s'"
    using reconcile_operation_post [OF assms(1) _ assms(4,5)] assms(2,3) by blast
  have "registry_ok (sv_registry sv)" by (simp add: assms(4) concrete_registry_ok)
  from evolvesD [OF repo_reconcile_operation [OF this] assms(1)] assms(5) have "ops_inv s'"
    by (auto simp: repo_evolve_def intro: ops_evolve_inv)
  with ev have "\<forall>s''. (system_step rt)\<^sup>*\<^sup>* s' s'' \<longrightarrow> replay_completed rt t e (os_product_id st) i s'' = (Inr fr, s'')"
    by (blast intro: applied_evidence_system system_run_evolves)
  with ev show ?thesis unfolding applied_evidence_def by blast
qed

text \<open>The state a crash right after \<open>coordinator.begin\<close> of \<open>add_manual_member\<close> leaves.\<close>

definition crash_mutation :: mutation where
  "crash_mutation = add_mutation ''t'' ''e'' ''p'' ''x'' ''table'' ''a'' ''r'' ''k''"

definition crash_operation_id :: string where
  "crash_operation_id = (case mutation_operation_id sample_rt crash_mutation of Inr i \<Rightarrow> i | Inl _ \<Rightarrow> [])"

definition crash_prefix :: "op_state rp" where
  "crash_prefix =
     bindp (reserve_mutation sample_rt ''t'' ''e'' ''p'' ''membership_add'' crash_mutation) (\<lambda>(rid, _).
     bindp (manual_member sample_rt ''t'' ''e'' ''p'' ''m'' ''x'' ''table'' ''a'') (\<lambda>member.
     bindp (mutation_event sample_rt crash_mutation OcPending None (Some ''m'') None None None) (\<lambda>pending.
     coordinator_begin sample_rt ''t'' ''e'' ''p'' crash_operation_id ''manual_membership'' rid
       (manual_payload sample_rt crash_mutation ''m'' ''x'' ''table'' pending member) (de_occurred_at pending))))"

definition crashed_repo :: repo where
  "crashed_repo = snd (crash_prefix empty_repo)"

definition recovery_run :: "(py_error + recon_result) \<times> repo" where
  "recovery_run = reconcile_operation sample_rt (default_service sample_rt ''w'') ''t'' ''e'' crash_operation_id crashed_repo"

lemma crashed_inv: "ops_inv crashed_repo"
proof -
  have "evolves system_evolve crash_prefix"
    unfolding crash_prefix_def by (intro evolve_rules)
  from evolves_snd [OF this, of empty_repo] have "ops_evolve empty_repo crashed_repo"
    by (simp add: system_evolve_def crashed_repo_def)
  moreover have "ops_inv empty_repo" by (simp add: ops_inv_def empty_repo_def)
  ultimately show ?thesis by (rule ops_evolve_inv)
qed

lemma recovery_run_applied: "case recovery_run of (Inr rr, s) \<Rightarrow> rr_status rr = RsApplied \<and> rr_recovered rr | _ \<Rightarrow> False"
  by code_simp

theorem applied_recovery_is_durable_witness:
  "\<exists>rr s' fr. recovery_run = (Inr rr, s') \<and> rr_status rr = RsApplied \<and>
     replay_completed sample_rt ''t'' ''e'' (os_product_id (the (dget (rp_operation_states s') (''t'', ''e'', crash_operation_id))))
       crash_operation_id s' = (Inr fr, s')"
proof -
  obtain rr s' where run: "recovery_run = (Inr rr, s')" and ok: "rr_status rr = RsApplied" "rr_recovered rr"
    using recovery_run_applied by (auto split: prod.splits sum.splits)
  have "sv_registry (default_service sample_rt ''w'') = registry_init sample_rt (\<lambda>_. None)"
    by (simp add: default_service_def)
  from applied_recovery_is_durable [OF run [unfolded recovery_run_def] ok this crashed_inv]
  obtain st fr where st: "dget (rp_operation_states s') (''t'', ''e'', crash_operation_id) = Some st"
    and "\<forall>s''. (system_step sample_rt)\<^sup>*\<^sup>* s' s'' \<longrightarrow>
      replay_completed sample_rt ''t'' ''e'' (os_product_id st) crash_operation_id s'' = (Inr fr, s'')"
    by blast
  then have "replay_completed sample_rt ''t'' ''e'' (os_product_id st) crash_operation_id s' = (Inr fr, s')" by blast
  with run ok st show ?thesis by (intro exI [of _ rr] exI [of _ s'] exI [of _ fr]) simp
qed

section \<open>Terminal operations\<close>

text \<open>
  Reconciling an operation that is terminal runs no handler and changes nothing but its
  reservation: when it returns, it reports the stored outcome as a replay.
\<close>

theorem terminal_revisit_only_repairs:
  assumes "dget (rp_operation_states s) (t, e, i) = Some st" and "os_key st = (t, e, i)"
    and "terminal_status (os_status st)"
  shows "only_reservations s (snd (reconcile_operation rt sv t e i s)) \<and>
    (\<forall>rr. fst (reconcile_operation rt sv t e i s) = Inr rr \<longrightarrow>
       rr_status rr = terminal_recon (os_status st) \<and> rr_replayed rr \<and> \<not> rr_recovered rr)"
proof -
  have eq: "reconcile_operation rt sv t e i s = seqp (repair_terminal_revisit rt st)
      (ret (service_result sv i (terminal_recon (os_status st)) (Some st) False False None)) s"
    using assms by (simp add: reconcile_operation_def get_operation_state_def py_simps os_key_def)
  have "evolves only_reservations (repair_terminal_revisit rt st)"
    unfolding repair_terminal_revisit_def load_operation_plan_def get_operation_history_def load_operation_result_def
      lift_result_def
    by (intro evolve_rules)
  then have "evolves only_reservations (seqp (repair_terminal_revisit rt st)
      (ret (service_result sv i (terminal_recon (os_status st)) (Some st) False False None)))"
    by (intro evolve_rules)
  from evolves_snd [OF this, of s] show ?thesis
    unfolding eq using assms(3)
    by (auto simp: seqp_apply service_result_def split: prod.splits sum.splits)
qed

section \<open>Attempts\<close>

text \<open>
  No handler runs once the attempt about to be made is the last allowed one: the result and the
  repository do not depend on the registered handlers. A service with \<open>max_attempts\<close> thus runs handlers
  for at most \<open>max_attempts - 1\<close> attempts of an operation.
\<close>

theorem exhausted_operation_runs_no_handler:
  assumes "dget (rp_operation_states s) (t, e, i) = Some st" and "sv_max_attempts sv \<le> os_attempt_count st + 1"
  shows "reconcile_operation rt (sv\<lparr>sv_registry := reg\<rparr>) t e i s = reconcile_operation rt sv t e i s"
proof -
  have owned: "reconcile_owned rt (sv\<lparr>sv_registry := reg\<rparr>) t e i cl s2 = reconcile_owned rt sv t e i cl s2"
    if "dget (rp_operation_states s2) (t, e, i) = Some (claimed st cl now)" for cl now s2
    using that assms(2)
    by (simp add: reconcile_owned_def get_operation_state_def py_simps claimed_def fail_early_def service_result_def)
  let ?s1 = "s\<lparr>rp_ticks := Suc (rp_ticks s)\<rparr>" and ?now = "clock rt (rp_ticks s)"
  show ?thesis
  proof (cases "claim_operation t e i (sv_worker_id sv) ?now (?now + seconds (sv_claim_ttl_seconds sv))
      (os_seq_no st) (os_primary_term st) ?s1")
    case (Pair r s2)
    then show ?thesis
    proof (cases r)
      case (Inl x)
      with Pair assms(1) show ?thesis
        by (cases x) (auto simp: reconcile_operation_def get_operation_state_def py_simps utc_now_def service_result_def)
    next
      case (Inr cl)
      with Pair have "claim_operation t e i (sv_worker_id sv) ?now (?now + seconds (sv_claim_ttl_seconds sv))
          (os_seq_no st) (os_primary_term st) ?s1 = (Inr cl, s2)" by simp
      from claim_attempts [OF this, of st] assms(1) have "dget (rp_operation_states s2) (t, e, i) = Some (claimed st cl ?now)"
        by simp
      from owned [OF this] Pair Inr assms(1) show ?thesis
        by (auto simp: reconcile_operation_def get_operation_state_def py_simps utc_now_def service_result_def)
    qed
  qed
qed

definition worn_repo :: repo where
  "worn_repo = empty_repo\<lparr>
     rp_operation_states := [((''t'', ''e'', ''op''),
       pending_sample\<lparr>os_attempt_count := 4, os_claim_generation := 4, os_seq_no := 8\<rparr>)],
     rp_operation_plans := [((''t'', ''e'', ''p'', ''op''),
       \<lparr>pl_reference = ''plan'', pl_tenant_id = ''t'', pl_environment = ''e'', pl_product_id = ''p'',
        pl_operation_id = ''op'', pl_operation_kind = ''manual_membership'', pl_checksum = ''json'',
        pl_payload = [(''request_fingerprint'', PStr ''fp'')]\<rparr>)],
     rp_idempotency := [(''rec'', sample_record\<lparr>ir_request_fingerprint := ''fp''\<rparr>)]\<rparr>"

theorem exhausted_operation_runs_no_handler_witness:
  "5 \<le> os_attempt_count (sample_state worn_repo) + 1 \<and>
   reconcile_operation sample_rt ((default_service sample_rt ''w'')\<lparr>sv_registry := (\<lambda>_. None)\<rparr>) ''t'' ''e'' ''op'' worn_repo =
   reconcile_operation sample_rt (default_service sample_rt ''w'') ''t'' ''e'' ''op'' worn_repo"
proof -
  have st: "dget (rp_operation_states worn_repo) (''t'', ''e'', ''op'') = Some (sample_state worn_repo)"
    "5 \<le> os_attempt_count (sample_state worn_repo) + 1" by code_simp+
  have "sv_max_attempts (default_service sample_rt ''w'') = 5" by (simp add: default_service_def)
  with st exhausted_operation_runs_no_handler [OF st(1), of "default_service sample_rt ''w''"] show ?thesis by simp
qed

theorem terminal_revisit_only_repairs_witness:
  "only_reservations (snd recovery_run)
     (snd (reconcile_operation sample_rt (default_service sample_rt ''w'') ''t'' ''e'' crash_operation_id (snd recovery_run)))"
proof -
  obtain rr s' where run: "recovery_run = (Inr rr, s')" and ok: "rr_status rr = RsApplied" "rr_recovered rr"
    using recovery_run_applied by (auto split: prod.splits sum.splits)
  have "sv_registry (default_service sample_rt ''w'') = registry_init sample_rt (\<lambda>_. None)"
    by (simp add: default_service_def)
  from reconcile_operation_post [OF run [unfolded recovery_run_def] _ this crashed_inv] ok
  obtain st fr where "applied_evidence sample_rt ''t'' ''e'' crash_operation_id st fr s'" by blast
  then have "dget (rp_operation_states s') (''t'', ''e'', crash_operation_id) = Some st"
    "os_key st = (''t'', ''e'', crash_operation_id)" "terminal_status (os_status st)"
    by (simp_all add: applied_evidence_def terminal_status_def)
  from terminal_revisit_only_repairs [OF this] show ?thesis by (simp add: run)
qed

text \<open>
  An operation that fails because its attempts are exhausted leaves no terminal history and an
  unfinished reservation: the failing call returns, and the next reconciliation of the operation raises
  \<open>terminal_history_missing\<close> while the reservation is still pending.
\<close>

theorem exhausted_failure_is_not_recoverable:
  "case reconcile_operation sample_rt (default_service sample_rt ''w'') ''t'' ''e'' ''op'' worn_repo of
     (Inr rr, s) \<Rightarrow> rr_status rr = RsFailed \<and> rr_error_code rr = Some ''reconciliation_attempts_exhausted'' \<and>
       rp_operation_history s = [] \<and> map_option ir_state (idem_of s ''rec'') = Some IdPending \<and>
       fst (reconcile_operation sample_rt (default_service sample_rt ''w'') ''t'' ''e'' ''op'' s) =
         Inl (OperationConsistencyError ''terminal_history_missing'')
   | _ \<Rightarrow> False"
  by code_simp

section \<open>Rejected transitions\<close>

text \<open>Two products that declare each other as dependency.\<close>

definition cyclic_repo :: repo where
  "cyclic_repo = products_repo [(''a'', [''b'']), (''b'', [''a''])]"

definition rejected_activation :: "(py_error + product) \<times> repo" where
  "rejected_activation = activate sample_rt ''t'' ''e'' ''a'' (Some ''tag'') ''x'' ''r'' (Some ''k'') cyclic_repo"

definition activation_id :: string where
  "activation_id = (case event_operation_id sample_rt ''t'' ''e'' ''a'' 2 ''k'' of Inr i \<Rightarrow> i | Inl _ \<Rightarrow> [])"

lemma activation_rejected: "fst rejected_activation = Inl (ValueError ''data product dependency cycle'')"
  by code_simp

lemma activation_leaks:
  "case reconcile_operation sample_rt (default_service sample_rt ''w'') ''t'' ''e'' activation_id (snd rejected_activation) of
     (Inr rr, s) \<Rightarrow> rr_status rr = RsFailed \<and>
       map_option pr_lifecycle_state (dget (rp_items s) (''t'', ''e'', ''a'')) = Some LcActive \<and> rp_revisions s = []
   | _ \<Rightarrow> False"
  by code_simp

text \<open>
  A lifecycle transition that the service refused, because the product's dependencies do not
  validate, stays behind as a pending operation. Reconciling it changes the stored product to the refused
  state, without a revision record, and then reports the operation as failed.
\<close>

theorem rejected_transition_is_applied:
  "fst rejected_activation = Inl (ValueError ''data product dependency cycle'') \<and>
   (case reconcile_operation sample_rt (default_service sample_rt ''w'') ''t'' ''e'' activation_id (snd rejected_activation) of
     (Inr rr, s) \<Rightarrow> rr_status rr = RsFailed \<and>
       map_option pr_lifecycle_state (dget (rp_items s) (''t'', ''e'', ''a'')) = Some LcActive \<and> rp_revisions s = []
   | _ \<Rightarrow> False)"
  using activation_rejected activation_leaks by (rule conjI)

section \<open>Batches\<close>

lemma count_status_keys: "x \<in> set (map fst d) \<Longrightarrow> map fst (count_status x d) = map fst d"
  by (induction d) auto

lemma count_status_sum:
  "x \<in> set (map fst d) \<Longrightarrow> distinct (map fst d) \<Longrightarrow>
   sum_list (map snd (count_status x d)) = sum_list (map snd d) + 1"
  by (induction d) (auto simp: image_iff)

lemma count_status_pos: "\<forall>n \<in> set (map snd d). 0 \<le> n \<Longrightarrow> \<forall>n \<in> set (map snd (count_status x d)). 0 \<le> n"
  using set_dput_subset [of x "(case dget d x of None \<Rightarrow> 0 | Some n \<Rightarrow> n) + 1" d]
  by (fastforce dest: map_of_SomeD split: option.splits)

lemma batch_loop_counts:
  assumes "batch_loop rt sv t e sts counts s = (Inr final, s')"
    and "set (map fst counts) = UNIV" and "distinct (map fst counts)" and "\<forall>n \<in> set (map snd counts). 0 \<le> n"
  shows "map fst final = map fst counts \<and> sum_list (map snd final) = sum_list (map snd counts) + int (length sts) \<and>
    (\<forall>n \<in> set (map snd final). 0 \<le> n)"
  using assms
proof (induction sts arbitrary: counts s)
  case Nil
  then show ?case by simp
next
  case (Cons st sts)
  from Cons.prems(1) obtain r :: recon_result and s1 where
    "batch_loop rt sv t e sts (count_status (rr_status r) counts) s1 = (Inr final, s')"
    unfolding batch_loop.simps by (rule bindp_InrE) blast
  note IH = Cons.IH [OF this]
  have "set (map fst (count_status (rr_status r) counts)) = UNIV"
    using count_status_keys [of "rr_status r" counts] Cons.prems(2) by (simp del: count_status.simps set_map)
  from IH [OF this] Cons.prems(2-4) show ?case
    using count_status_keys [of "rr_status r" counts] count_status_sum [of "rr_status r" counts]
      count_status_pos [of counts "rr_status r"]
    by (simp del: count_status.simps)
qed

text \<open>
  A batch that returns has counted every operation it listed exactly once, under one of the five
  outcomes, and has handled at most \<open>limit\<close> of them.
\<close>

theorem batch_counts_every_operation:
  assumes "reconcile_batch rt sv t e limit kind s = (Inr counts, s')"
  shows "map fst counts = [RsApplied, RsSuperseded, RsFailed, RsRetry, RsMissing] \<and>
    (\<forall>n \<in> set (map snd counts). 0 \<le> n) \<and> sum_list (map snd counts) \<le> limit \<and> limit \<le> 1000"
proof -
  have all: "UNIV = {RsApplied, RsSuperseded, RsFailed, RsRetry, RsMissing}"
    by (auto intro: recon_status.exhaust)
  obtain now s1 sts s2 where lim: "1 \<le> limit" "limit \<le> 1000"
    and l: "list_reconcilable_operations rt t e limit kind (Some (Aware now)) s1 = (Inr sts, s2)"
    and b: "batch_loop rt sv t e sts [(RsApplied, 0), (RsSuperseded, 0), (RsFailed, 0), (RsRetry, 0), (RsMissing, 0)] s2 =
      (Inr counts, s')"
    using assms unfolding reconcile_batch_def by (elim seqp_InrE bindp_InrE) (auto split: if_splits)
  have "int (length sts) \<le> limit"
    using l lim by (auto simp: list_reconcilable_operations_def length_slice_to)
  with batch_loop_counts [OF b] lim show ?thesis by (simp add: all)
qed

lemma worn_batch:
  "case reconcile_batch sample_rt (default_service sample_rt ''w'') ''t'' ''e'' 10 None worn_repo of
     (Inr counts, s) \<Rightarrow> counts = [(RsApplied, 0), (RsSuperseded, 0), (RsFailed, 1), (RsRetry, 0), (RsMissing, 0)]
   | _ \<Rightarrow> False"
  by code_simp

theorem batch_counts_every_operation_witness:
  "\<exists>counts s'. reconcile_batch sample_rt (default_service sample_rt ''w'') ''t'' ''e'' 10 None worn_repo = (Inr counts, s') \<and>
     dget counts RsFailed = Some 1 \<and> sum_list (map snd counts) \<le> 10"
proof -
  obtain counts s' where "reconcile_batch sample_rt (default_service sample_rt ''w'') ''t'' ''e'' 10 None worn_repo = (Inr counts, s')"
    and "dget counts RsFailed = Some 1"
    using worn_batch by (auto split: prod.splits sum.splits)
  with batch_counts_every_operation [OF this(1)] show ?thesis by blast
qed

end
