(* ===== verification/BoundedRecovery.thy ===== *)
theory BoundedRecovery
  imports ServiceEvolution
begin

text \<open>
  Recovery of one operation ends. \<open>runs_handler\<close> observes a reconciliation from outside: it reaches the
  handler of the operation exactly when the outcome depends on what the registered handlers do, which two
  registries of handlers that raise different exceptions tell apart. No guard of the reconciliation is
  repeated in it. \<open>handler_runs n\<close> is a run of the whole system with \<open>n\<close> reconciliations of one operation
  that reach its handler, between any other calls of clients and reconcilers.
\<close>

section \<open>Observing the handler\<close>

definition probe :: "string \<Rightarrow> registry \<Rightarrow> registry" where
  "probe msg reg = (\<lambda>kind. map_option (\<lambda>_ _ _ _ _. raise (RuntimeError msg)) (reg kind))"

definition probed :: "string \<Rightarrow> service \<Rightarrow> service" where
  "probed msg sv = sv\<lparr>sv_registry := probe msg (sv_registry sv)\<rparr>"

definition runs_handler :: "runtime \<Rightarrow> service \<Rightarrow> string \<Rightarrow> string \<Rightarrow> string \<Rightarrow> repo \<Rightarrow> bool" where
  "runs_handler rt sv t e i s \<longleftrightarrow>
     fst (reconcile_operation rt (probed ''first'' sv) t e i s) \<noteq>
     fst (reconcile_operation rt (probed ''second'' sv) t e i s)"

definition claim_attempt :: "runtime \<Rightarrow> service \<Rightarrow> string \<Rightarrow> string \<Rightarrow> string \<Rightarrow> op_state \<Rightarrow> claim rp" where
  "claim_attempt rt sv t e i st = bindp (utc_now rt) (\<lambda>now.
     claim_operation t e i (sv_worker_id sv) now (now + seconds (sv_claim_ttl_seconds sv)) (os_seq_no st) (os_primary_term st))"

lemma claim_attempt_probed [simp]: "claim_attempt rt (probed m sv) = claim_attempt rt sv"
  by (rule ext)+ (simp add: claim_attempt_def probed_def)

text \<open>The reconciliation of a live operation: a claim, then the work under the claim.\<close>

lemma reconcile_live:
  assumes "dget (rp_operation_states s) (t, e, i) = Some st" and "(os_tenant_id st, os_environment st) = (t, e)"
    and "\<not> terminal_status (os_status st)"
  shows "reconcile_operation rt sv t e i s = (case claim_attempt rt sv t e i st s of
      (Inr cl, s2) \<Rightarrow> reconcile_owned rt sv t e i cl s2
    | (Inl (OperationClaimConflict _), s2) \<Rightarrow> (Inr (service_result sv i RsRetry (Some st) False True None), s2)
    | (Inl x, s2) \<Rightarrow> (Inl x, s2))"
proof (cases "claim_attempt rt sv t e i st s")
  case (Pair r s2)
  then show ?thesis using assms
    by (cases r) (auto simp: reconcile_operation_def get_operation_state_def py_simps utc_now_def claim_attempt_def
        split: py_error.splits)
qed

lemma service_result_probed [simp]: "service_result (probed m sv) = service_result sv"
  by (rule ext)+ (simp add: service_result_def probed_def)

lemma fail_early_probed [simp]: "fail_early rt (probed m sv) = fail_early rt sv"
  by (rule ext)+ (simp add: fail_early_def)

text \<open>The work under the claim asks no handler when the attempts are used up.\<close>

lemma reconcile_owned_probed:
  assumes "dget (rp_operation_states s) (t, e, i) = Some st" and "sv_max_attempts sv \<le> os_attempt_count st"
  shows "reconcile_owned rt (probed m sv) t e i cl s = reconcile_owned rt (probed m' sv) t e i cl s"
  using assms by (simp add: reconcile_owned_def get_operation_state_def py_simps probed_def [of m] probed_def [of m'])
    (simp add: fail_early_def service_result_def)

lemma runs_handler_guards:
  assumes "ops_inv s" and "runs_handler rt sv t e i s"
  obtains st cl s2 where "dget (rp_operation_states s) (t, e, i) = Some st" and "\<not> terminal_status (os_status st)"
    and "claim_attempt rt sv t e i st s = (Inr cl, s2)" and "os_attempt_count st + 1 < sv_max_attempts sv"
proof (cases "dget (rp_operation_states s) (t, e, i)")
  case None
  with assms show ?thesis
    by (simp add: runs_handler_def reconcile_operation_def get_operation_state_inv py_simps)
next
  case (Some st)
  from ops_invD [OF assms(1) Some] have scope: "(os_tenant_id st, os_environment st) = (t, e)"
    by (auto simp: state_inv_def os_key_def)
  have live: "\<not> terminal_status (os_status st)"
  proof
    assume "terminal_status (os_status st)"
    with assms(2) Some scope show False
      by (simp add: runs_handler_def reconcile_operation_def get_operation_state_def py_simps)
  qed
  note run = reconcile_live [OF Some scope live]
  obtain r s2 where c: "claim_attempt rt sv t e i st s = (r, s2)" by (cases "claim_attempt rt sv t e i st s")
  show ?thesis
  proof (cases r)
    case (Inl x)
    with assms(2) c have False by (cases x) (simp_all add: runs_handler_def run)
    then show ?thesis ..
  next
    case (Inr cl)
    with c have granted: "claim_attempt rt sv t e i st s = (Inr cl, s2)" by simp
    then have st2: "dget (rp_operation_states s2) (t, e, i) = Some (claimed st cl (clock rt (rp_ticks s)))"
      using claim_attempts [of t e i "sv_worker_id sv"] Some by (fastforce simp: claim_attempt_def bindp_apply utc_now_def)
    have "os_attempt_count st + 1 < sv_max_attempts sv"
    proof (rule ccontr)
      assume "\<not> os_attempt_count st + 1 < sv_max_attempts sv"
      then have "sv_max_attempts sv \<le> os_attempt_count (claimed st cl (clock rt (rp_ticks s)))" by (simp add: claimed_def)
      have "reconcile_owned rt (probed ''first'' sv) t e i cl s2 = reconcile_owned rt (probed ''second'' sv) t e i cl s2"
        using st2 \<open>sv_max_attempts sv \<le> _\<close> by (rule reconcile_owned_probed)
      with granted assms(2) show False by (simp add: runs_handler_def run)
    qed
    with Some live granted show ?thesis by (rule that)
  qed
qed

text \<open>
  Conversely the observation misses no handler: the work under a claim that calls the handler of the
  operation is told apart.
\<close>

lemma handler_observed:
  assumes "sv_registry sv (os_operation_kind st) = Some h"
  shows "reconcile_claimed rt (probed m sv) t e i st plan history cl s = (Inl (RuntimeError m), s)"
  using assms by (simp add: reconcile_claimed_def probed_def probe_def registry_get_def py_simps raise_def)

section \<open>Counting handler runs\<close>

inductive handler_runs :: "runtime \<Rightarrow> service \<Rightarrow> string \<Rightarrow> string \<Rightarrow> string \<Rightarrow> nat \<Rightarrow> repo \<Rightarrow> repo \<Rightarrow> bool"
  for rt sv t e i where
  others: "(system_step rt)\<^sup>*\<^sup>* s s' \<Longrightarrow> handler_runs rt sv t e i 0 s s'"
| handled: "handler_runs rt sv t e i n s u \<Longrightarrow> runs_handler rt sv t e i u \<Longrightarrow>
    (system_step rt)\<^sup>*\<^sup>* (snd (reconcile_operation rt sv t e i u)) s' \<Longrightarrow> handler_runs rt sv t e i (Suc n) s s'"

lemma repo_reconcile_owned:
  assumes "registry_ok (sv_registry sv)"
  shows "evolves repo_evolve (reconcile_owned rt sv t e i cl)"
  unfolding reconcile_owned_def by (intro evolve_rules repo_reconcile_claimed assms)

text \<open>Attempts of an operation are never taken back, and a reconciliation that passes the guards counts one.\<close>

lemma attempts_monotone:
  assumes "ops_evolve s s'" and "ops_inv s" and "dget (rp_operation_states s) k = Some st"
  obtains st' where "dget (rp_operation_states s') k = Some st'" and "os_attempt_count st \<le> os_attempt_count st'"
  using ops_evolveD [OF assms] by (auto simp: op_evolve_def)

lemma handler_counts:
  assumes "registry_ok (sv_registry sv)" and "ops_inv s" and "dget (rp_operation_states s) (t, e, i) = Some st"
    and "runs_handler rt sv t e i s"
  obtains st' where "dget (rp_operation_states (snd (reconcile_operation rt sv t e i s))) (t, e, i) = Some st'"
    and "os_attempt_count st + 1 \<le> os_attempt_count st'"
proof -
  let ?s1 = "s\<lparr>rp_ticks := Suc (rp_ticks s)\<rparr>" and ?now = "clock rt (rp_ticks s)"
  obtain cl s2 where nt: "\<not> terminal_status (os_status st)" and granted: "claim_attempt rt sv t e i st s = (Inr cl, s2)"
    using runs_handler_guards [OF assms(2,4)] assms(3) by (metis option.inject)
  then have c: "claim_operation t e i (sv_worker_id sv) ?now (?now + seconds (sv_claim_ttl_seconds sv))
      (os_seq_no st) (os_primary_term st) ?s1 = (Inr cl, s2)"
    by (simp add: claim_attempt_def bindp_apply utc_now_def)
  have "ops_inv ?s1" using assms(2) by (simp add: ops_inv_def)
  with evolvesD [OF evolves_claim c] have inv: "ops_inv s2" by (rule ops_evolve_inv)
  have st2: "dget (rp_operation_states s2) (t, e, i) = Some (claimed st cl ?now)"
    using claim_attempts [OF c] assms(3) by simp
  have "(os_tenant_id st, os_environment st) = (t, e)"
    using ops_invD [OF assms(2,3)] by (auto simp: state_inv_def os_key_def)
  then have run: "snd (reconcile_operation rt sv t e i s) = snd (reconcile_owned rt sv t e i cl s2)"
    using reconcile_live [OF assms(3) _ nt] granted by simp
  have "ops_evolve s2 (snd (reconcile_owned rt sv t e i cl s2))"
    using evolves_snd [OF repo_reconcile_owned [OF assms(1)]] by (simp add: repo_evolve_def)
  from attempts_monotone [OF this inv st2] that run show thesis by (auto simp: claimed_def)
qed

lemma handler_runs_count:
  assumes "handler_runs rt sv t e i n s s'" and "sv_registry sv = registry_init rt (\<lambda>_. None)" and "ops_inv s"
    and "dget (rp_operation_states s) (t, e, i) = Some st"
  shows "ops_inv s' \<and> (\<exists>st'. dget (rp_operation_states s') (t, e, i) = Some st' \<and>
    os_attempt_count st + int n \<le> os_attempt_count st' \<and> (n \<noteq> 0 \<longrightarrow> os_attempt_count st + int n < sv_max_attempts sv))"
  using assms
proof (induction rule: handler_runs.induct)
  case (others s s')
  then have "ops_evolve s s'" by (simp add: system_run_evolves [unfolded system_evolve_def])
  with others show ?case by (auto intro: ops_evolve_inv elim: attempts_monotone)
next
  case (handled n s u s')
  then obtain x where x: "ops_inv u" "dget (rp_operation_states u) (t, e, i) = Some x" "os_attempt_count st + int n \<le> os_attempt_count x"
    by blast
  have ok: "registry_ok (sv_registry sv)" using handled.prems(1) by (simp add: concrete_registry_ok)
  let ?v = "snd (reconcile_operation rt sv t e i u)"
  obtain y where y: "dget (rp_operation_states ?v) (t, e, i) = Some y" "os_attempt_count x + 1 \<le> os_attempt_count y"
    using ok x(1,2) handled.hyps(2) by (rule handler_counts)
  have "ops_evolve u ?v" using evolves_snd [OF repo_reconcile_operation [OF ok]] by (simp add: repo_evolve_def)
  then have inv: "ops_inv ?v" using x(1) by (rule ops_evolve_inv)
  have last: "ops_evolve ?v s'" using handled.hyps(3) by (simp add: system_run_evolves [unfolded system_evolve_def])
  obtain z where z: "dget (rp_operation_states s') (t, e, i) = Some z" "os_attempt_count y \<le> os_attempt_count z"
    using last inv y(1) by (rule attempts_monotone)
  have "os_attempt_count x + 1 < sv_max_attempts sv"
    using runs_handler_guards [OF x(1) handled.hyps(2)] x(2) by auto
  with x(3) y(2) z last inv show ?case by (auto intro: ops_evolve_inv)
qed

text \<open>
  C11. Recovery of an operation terminates: in a run of the whole system, whatever the handlers report
  and whatever else happens in between, the reconciliations of one operation that reach its handler are
  fewer than \<open>max_attempts\<close>, counting the attempts the operation had before.
\<close>

theorem handler_runs_are_bounded:
  assumes "handler_runs rt sv t e i n s s'" and "sv_registry sv = registry_init rt (\<lambda>_. None)" and "ops_inv s"
    and "dget (rp_operation_states s) (t, e, i) = Some st" and "0 < n"
  shows "int n + os_attempt_count st < sv_max_attempts sv"
  using handler_runs_count [OF assms(1-4)] assms(5) by auto

definition planned_repo :: repo where
  "planned_repo = pending_repo\<lparr>rp_operation_plans := [((''t'', ''e'', ''p'', ''op''),
     \<lparr>pl_reference = ''plan'', pl_tenant_id = ''t'', pl_environment = ''e'', pl_product_id = ''p'',
      pl_operation_id = ''op'', pl_operation_kind = ''manual_membership'', pl_checksum = ''json'',
      pl_payload = [(''request_fingerprint'', PStr ''fp'')]\<rparr>)]\<rparr>"

definition first_recovery :: repo where
  "first_recovery = snd (reconcile_operation sample_rt (default_service sample_rt ''w'') ''t'' ''e'' ''op'' planned_repo)"

theorem handler_runs_are_bounded_witness:
  "handler_runs sample_rt (default_service sample_rt ''w'') ''t'' ''e'' ''op'' 1 planned_repo first_recovery \<and>
   1 + os_attempt_count (sample_state planned_repo) < 5"
proof -
  have reg: "sv_registry (default_service sample_rt ''w'') = registry_init sample_rt (\<lambda>_. None)"
    and five: "sv_max_attempts (default_service sample_rt ''w'') = 5"
    by (simp_all add: default_service_def)
  have "claim_step sample_rt empty_repo pending_repo"
    unfolding pending_repo_def by (rule claim_step.create) (simp add: fresh_state_def pending_sample_def)
  then have "ops_inv pending_repo" by (rule ops_evolve_inv [OF claim_step_evolves empty_repo_inv])
  then have inv: "ops_inv planned_repo" by (simp add: ops_inv_def planned_repo_def)
  have st: "dget (rp_operation_states planned_repo) (''t'', ''e'', ''op'') = Some (sample_state planned_repo)"
    by code_simp
  have "runs_handler sample_rt (default_service sample_rt ''w'') ''t'' ''e'' ''op'' planned_repo" by code_simp
  moreover have "handler_runs sample_rt (default_service sample_rt ''w'') ''t'' ''e'' ''op'' 0 planned_repo planned_repo"
    by (rule others) (rule rtranclp.rtrancl_refl)
  ultimately have "handler_runs sample_rt (default_service sample_rt ''w'') ''t'' ''e'' ''op'' (Suc 0) planned_repo first_recovery"
    unfolding first_recovery_def by (blast intro: handled rtranclp.rtrancl_refl)
  then have run: "handler_runs sample_rt (default_service sample_rt ''w'') ''t'' ''e'' ''op'' 1 planned_repo first_recovery"
    by simp
  from handler_runs_are_bounded [OF run reg inv st] five run show ?thesis by simp
qed

end
