(* ===== verification/LeaseRefinement.thy ===== *)
theory LeaseRefinement
  imports OperationClaims
begin

text \<open>
  The abstract specification of the claim protocol and the proof that the repository implements it.

  \<^item> \<open>lease_next\<close>: a lease table. An operation waits, is held by one worker until an instant, or is
    closed. A waiting operation, or one whose lease has run out at the instant of the event, is granted to
    the worker of the event under the next generation; only the holder, under its own generation and
    before its lease runs out, uses it, renews it, hands it back or closes it.
  \<^item> \<open>claim_call\<close>: a call of the protocol with its arguments; \<open>perform\<close> makes it and tells whether it was
    accepted; \<open>event_of\<close> is the lease event it stands for, with the worker, the generation and the instant
    taken from the arguments and from the clock reading of the call.
  \<^item> \<open>leases\<close>: the lease table a repository represents.
  \<^item> The accepted calls are a run of the table; refused calls leave it alone; and a call that names the
    stored version is refused only when the table forbids its event.
\<close>

section \<open>The lease table\<close>

datatype lease =
    Waiting int
  | Held string int datetime
  | Closed int op_status

type_synonym op_key = "string \<times> string \<times> string"
type_synonym lease_table = "op_key \<rightharpoonup> lease"

datatype lease_event =
    Opened op_key
  | Granted op_key string datetime datetime
  | Used op_key string int datetime
  | Renewed op_key string int datetime datetime
  | HandedBack op_key string int datetime
  | ClosedBy op_key string int datetime op_status

definition holds :: "lease_table \<Rightarrow> op_key \<Rightarrow> string \<Rightarrow> int \<Rightarrow> datetime \<Rightarrow> bool" where
  "holds L k w g now = (case L k of Some (Held v h t) \<Rightarrow> v = w \<and> h = g \<and> now < t | _ \<Rightarrow> False)"

fun lease_next :: "lease_event \<Rightarrow> lease_table \<Rightarrow> lease_table option" where
  "lease_next (Opened k) L = (case L k of
       None \<Rightarrow> Some (L(k \<mapsto> Waiting 0))
     | Some x \<Rightarrow> if x = Waiting 0 then Some L else None)"
| "lease_next (Granted k w now until) L = (case L k of
       Some (Waiting g) \<Rightarrow> Some (L(k \<mapsto> Held w (g + 1) until))
     | Some (Held v g t) \<Rightarrow> if t \<le> now then Some (L(k \<mapsto> Held w (g + 1) until)) else None
     | _ \<Rightarrow> None)"
| "lease_next (Used k w g now) L = (if holds L k w g now then Some L else None)"
| "lease_next (Renewed k w g now until) L = (if holds L k w g now then Some (L(k \<mapsto> Held w g until)) else None)"
| "lease_next (HandedBack k w g now) L = (if holds L k w g now then Some (L(k \<mapsto> Waiting g)) else None)"
| "lease_next (ClosedBy k w g now x) L =
     (if holds L k w g now \<and> terminal_status x then Some (L(k \<mapsto> Closed g x)) else None)"

fun lease_run :: "lease_event list \<Rightarrow> lease_table \<Rightarrow> lease_table option" where
  "lease_run [] L = Some L"
| "lease_run (ev # evs) L = Option.bind (lease_next ev L) (lease_run evs)"

lemma lease_run_append: "lease_run (es @ fs) L = Option.bind (lease_run es L) (lease_run fs)"
  by (induction es L rule: lease_run.induct) (simp_all split: Option.bind_split)

section \<open>Calls of the protocol\<close>

datatype claim_call =
    CreateState op_state
  | ClaimOperation op_key string datetime datetime int int
  | RenewClaim claim datetime
  | AssertClaim claim
  | Checkpoint claim checkpoint
  | Complete claim final_result
  | Supersede claim string
  | Fail claim string
  | ScheduleRetry claim string datetime int
  | Release claim

definition outcome :: "'a rp \<Rightarrow> repo \<Rightarrow> bool \<times> repo" where
  "outcome m s = (case m s of (Inl _, s') \<Rightarrow> (False, s') | (Inr _, s') \<Rightarrow> (True, s'))"

fun perform :: "runtime \<Rightarrow> claim_call \<Rightarrow> repo \<Rightarrow> bool \<times> repo" where
  "perform rt (CreateState st) = outcome (create_operation_state st)"
| "perform rt (ClaimOperation (t, e, i) w now until seq pt) = outcome (claim_operation t e i w now until seq pt)"
| "perform rt (RenewClaim cl until) = outcome (renew_operation_claim rt cl until)"
| "perform rt (AssertClaim cl) = outcome (assert_operation_claim rt cl)"
| "perform rt (Checkpoint cl cp) = outcome (checkpoint_operation rt cl cp)"
| "perform rt (Complete cl res) = outcome (complete_operation rt cl res)"
| "perform rt (Supersede cl err) = outcome (supersede_operation rt cl err)"
| "perform rt (Fail cl err) = outcome (fail_operation rt cl err)"
| "perform rt (ScheduleRetry cl err nxt secs) = outcome (schedule_operation_retry rt cl err nxt secs)"
| "perform rt (Release cl) = outcome (release_operation_claim rt cl)"

text \<open>The event a call stands for; \<open>now\<close> is the reading of the clock the call makes.\<close>

fun event_of :: "datetime \<Rightarrow> claim_call \<Rightarrow> lease_event" where
  "event_of now (CreateState st) = Opened (os_key st)"
| "event_of now (ClaimOperation k w asof until seq pt) = Granted k w asof until"
| "event_of now (RenewClaim cl until) = Renewed (cl_key cl) (cl_owner cl) (cl_generation cl) now until"
| "event_of now (AssertClaim cl) = Used (cl_key cl) (cl_owner cl) (cl_generation cl) now"
| "event_of now (Checkpoint cl cp) = Used (cl_key cl) (cl_owner cl) (cl_generation cl) now"
| "event_of now (Complete cl res) = ClosedBy (cl_key cl) (cl_owner cl) (cl_generation cl) now OsApplied"
| "event_of now (Supersede cl err) = ClosedBy (cl_key cl) (cl_owner cl) (cl_generation cl) now OsSuperseded"
| "event_of now (Fail cl err) = ClosedBy (cl_key cl) (cl_owner cl) (cl_generation cl) now OsFailed"
| "event_of now (ScheduleRetry cl err nxt secs) = HandedBack (cl_key cl) (cl_owner cl) (cl_generation cl) now"
| "event_of now (Release cl) = HandedBack (cl_key cl) (cl_owner cl) (cl_generation cl) now"

abbreviation call_event :: "runtime \<Rightarrow> repo \<Rightarrow> claim_call \<Rightarrow> lease_event" where
  "call_event rt s \<equiv> event_of (clock rt (rp_ticks s))"

text \<open>A sequence of calls: the events of the accepted ones, and the repository at the end.\<close>

fun perform_all :: "runtime \<Rightarrow> claim_call list \<Rightarrow> repo \<Rightarrow> lease_event list \<times> repo" where
  "perform_all rt [] s = ([], s)"
| "perform_all rt (c # cs) s =
     (let (accepted, s1) = perform rt c s; (evs, s2) = perform_all rt cs s1
      in (if accepted then call_event rt s c # evs else evs, s2))"

text \<open>States are created pending and unclaimed.\<close>

fun legal_call :: "claim_call \<Rightarrow> bool" where
  "legal_call (CreateState st) = fresh_state st"
| "legal_call _ = True"

definition claim_scoped :: "repo \<Rightarrow> claim \<Rightarrow> bool" where
  "claim_scoped s cl = (case dget (rp_operation_states s) (cl_key cl) of
     None \<Rightarrow> True | Some st \<Rightarrow> os_product_id st = cl_product_id cl)"

text \<open>The call names what is stored: the version of the operation, or the product of the claim.\<close>

fun current_call :: "repo \<Rightarrow> claim_call \<Rightarrow> bool" where
  "current_call s (CreateState st) = (case dget (rp_operation_states s) (os_key st) of None \<Rightarrow> True | Some x \<Rightarrow> x = st)"
| "current_call s (ClaimOperation k w now until seq pt) =
     (case dget (rp_operation_states s) k of None \<Rightarrow> True | Some st \<Rightarrow> os_seq_no st = seq \<and> os_primary_term st = pt)"
| "current_call s (RenewClaim cl _) = claim_scoped s cl"
| "current_call s (AssertClaim cl) = claim_scoped s cl"
| "current_call s (Checkpoint cl _) = claim_scoped s cl"
| "current_call s (Complete cl _) = claim_scoped s cl"
| "current_call s (Supersede cl _) = claim_scoped s cl"
| "current_call s (Fail cl _) = claim_scoped s cl"
| "current_call s (ScheduleRetry cl _ _ _) = claim_scoped s cl"
| "current_call s (Release cl) = claim_scoped s cl"

section \<open>The table a repository represents\<close>

definition lease_of :: "op_state \<Rightarrow> lease" where
  "lease_of st = (case os_status st of
       OsPending \<Rightarrow> Waiting (os_claim_generation st)
     | OsClaimed \<Rightarrow> Held (the (os_claim_owner st)) (os_claim_generation st) (the (os_claim_expires_at st))
     | x \<Rightarrow> Closed (os_claim_generation st) x)"

definition leases :: "repo \<Rightarrow> lease_table" where
  "leases s = map_option lease_of \<circ> dget (rp_operation_states s)"

lemma leases_ticks [simp]: "leases (s\<lparr>rp_ticks := n\<rparr>) = leases s"
  by (simp add: leases_def)

lemma leases_put [simp]:
  "leases (s\<lparr>rp_operation_states := dput k st (rp_operation_states s)\<rparr>) = (leases s)(k \<mapsto> lease_of st)"
  "leases (s\<lparr>rp_ticks := n, rp_operation_states := dput k st (rp_operation_states s)\<rparr>) = (leases s)(k \<mapsto> lease_of st)"
  by (rule ext, simp add: leases_def)+

lemma leases_retry:
  "leases (s\<lparr>rp_ticks := m\<rparr>\<lparr>rp_ticks := n, rp_operation_states := dput k st (rp_operation_states (s\<lparr>rp_ticks := m\<rparr>))\<rparr>) =
     (leases s)(k \<mapsto> lease_of st)"
  by simp

lemma owns_held:
  "state_inv k st \<Longrightarrow> owns cl now st \<Longrightarrow>
   \<exists>t. lease_of st = Held (cl_owner cl) (cl_generation cl) t \<and> os_claim_expires_at st = Some t \<and> now < t"
  by (auto simp: owns_def lease_of_def state_inv_def split: option.splits op_status.splits)

text \<open>A claim that owns the stored state holds the lease; one for its product that holds the lease owns it.\<close>

lemma holds_leases:
  "holds (leases s) k w g now \<longleftrightarrow>
     (\<exists>st t. dget (rp_operation_states s) k = Some st \<and> lease_of st = Held w g t \<and> now < t)"
  by (auto simp: holds_def leases_def split: option.splits lease.splits)

lemma owns_iff_held:
  assumes "state_inv (cl_key cl) st"
  shows "owns cl now st \<longleftrightarrow> (cl_tenant_id cl = [] \<or> os_product_id st = cl_product_id cl) \<and>
    (\<exists>t. lease_of st = Held (cl_owner cl) (cl_generation cl) t \<and> now < t)"
  using assms by (auto simp: owns_def lease_of_def state_inv_def os_key_def cl_key_def split: option.splits op_status.splits)

lemma lease_of_Held: "state_inv k st \<Longrightarrow> lease_of st = Held w g t \<Longrightarrow>
   os_status st = OsClaimed \<and> os_claim_owner st = Some w \<and> os_claim_generation st = g \<and> os_claim_expires_at st = Some t"
  by (auto simp: lease_of_def state_inv_def split: op_status.splits)

lemma leases_same: "dget (rp_operation_states s) k = Some st \<Longrightarrow> (leases s)(k \<mapsto> lease_of st) = leases s"
  by (auto simp: leases_def fun_eq_iff)

section \<open>Every call of the protocol\<close>

text \<open>What it means that a computation implements an event.\<close>

definition implements :: "lease_event \<Rightarrow> bool \<Rightarrow> bool \<times> repo \<Rightarrow> repo \<Rightarrow> bool" where
  "implements ev current r s \<longleftrightarrow>
     (if fst r then lease_next ev (leases s) = Some (leases (snd r)) else leases (snd r) = leases s) \<and>
     (current \<longrightarrow> fst r = (lease_next ev (leases s) \<noteq> None))"

text \<open>The pattern of every call under a claim: the check of the claim, then one write of the state.\<close>

lemma owner_implements:
  fixes rt cl s
  defines "now \<equiv> clock rt (rp_ticks s)"
  assumes inv: "ops_inv s"
    and held: "holds (leases s) (cl_key cl) (cl_owner cl) (cl_generation cl) now \<Longrightarrow>
      lease_next ev (leases s) = Some (L' (leases s))"
    and free: "\<not> holds (leases s) (cl_key cl) (cl_owner cl) (cl_generation cl) now \<Longrightarrow> lease_next ev (leases s) = None"
    and body: "\<And>st t. dget (rp_operation_states s) (cl_key cl) = Some st \<Longrightarrow>
      lease_of st = Held (cl_owner cl) (cl_generation cl) t \<Longrightarrow> os_status st = OsClaimed \<Longrightarrow>
      \<exists>s'. outcome (f st) (s\<lparr>rp_ticks := Suc (rp_ticks s)\<rparr>) = (True, s') \<and> leases s' = L' (leases s)"
  shows "implements ev (claim_scoped s cl) (outcome (bindp (owned_state rt cl) f) s) s"
proof (cases "owned_state rt cl s")
  case (Pair r s1)
  let ?held = "holds (leases s) (cl_key cl) (cl_owner cl) (cl_generation cl) now"
  show ?thesis
  proof (cases r)
    case (Inl x)
    with Pair have s1: "s1 = s \<or> s1 = s\<lparr>rp_ticks := Suc (rp_ticks s)\<rparr>" by (simp add: owned_state_Inl)
    have "\<not> ?held" if "claim_scoped s cl"
    proof
      assume ?held
      then obtain st t where st: "dget (rp_operation_states s) (cl_key cl) = Some st"
        and h: "lease_of st = Held (cl_owner cl) (cl_generation cl) t" "now < t"
        by (auto simp: holds_leases)
      with that ops_invD [OF inv st] have "owns cl now st" by (auto simp: owns_iff_held claim_scoped_def)
      with st have "fst (owned_state rt cl s) = Inr st"
        using owned_state_Inr [of rt cl s st "s\<lparr>rp_ticks := Suc (rp_ticks s)\<rparr>"] by (simp add: now_def)
      with Pair Inl show False by simp
    qed
    with free s1 Pair Inl show ?thesis by (auto simp: implements_def outcome_def bindp_apply)
  next
    case (Inr st)
    with Pair have st: "dget (rp_operation_states s) (cl_key cl) = Some st" and own: "owns cl now st"
      and s1: "s1 = s\<lparr>rp_ticks := Suc (rp_ticks s)\<rparr>" by (auto simp: owned_state_Inr now_def)
    note si = ops_invD [OF inv st]
    with own obtain t where h: "lease_of st = Held (cl_owner cl) (cl_generation cl) t" "now < t"
      by (auto simp: owns_iff_held)
    with st have ?held by (auto simp: holds_leases)
    moreover obtain s' where "outcome (f st) s1 = (True, s')" "leases s' = L' (leases s)"
      using body [OF st h(1)] lease_of_Held [OF si h(1)] s1 by auto
    ultimately show ?thesis using held Pair Inr
      by (auto simp: implements_def outcome_def bindp_apply split: prod.splits sum.splits)
  qed
qed

lemmas body_defs = outcome_def py_simps put_operation_state_def utc_now_def lease_of_def terminal_status_def

lemma renew_implements:
  "ops_inv s \<Longrightarrow> implements (call_event rt s (RenewClaim cl until)) (claim_scoped s cl) (perform rt (RenewClaim cl until) s) s"
  unfolding perform.simps renew_operation_claim_def
  by (rule owner_implements [where L' = "\<lambda>L. L(cl_key cl \<mapsto> Held (cl_owner cl) (cl_generation cl) until)"])
     (auto simp: body_defs split: op_status.splits)

lemma assert_implements:
  "ops_inv s \<Longrightarrow> implements (call_event rt s (AssertClaim cl)) (claim_scoped s cl) (perform rt (AssertClaim cl) s) s"
  unfolding perform.simps assert_operation_claim_def
  by (rule owner_implements [where L' = "\<lambda>L. L"]) (auto simp: body_defs)

lemma checkpoint_implements:
  "ops_inv s \<Longrightarrow> implements (call_event rt s (Checkpoint cl cp)) (claim_scoped s cl) (perform rt (Checkpoint cl cp) s) s"
  unfolding perform.simps checkpoint_operation_def
proof (rule owner_implements [where L' = "\<lambda>L. L"])
  fix st t
  assume st: "dget (rp_operation_states s) (cl_key cl) = Some st" and c: "os_status st = OsClaimed"
  then have "lease_of (st\<lparr>os_last_checkpoint := Some cp, os_updated_at := cp_occurred_at cp, os_seq_no := os_seq_no st + 1\<rparr>) = lease_of st"
    by (simp add: lease_of_def)
  then show "\<exists>s'. outcome (put_operation_state (cl_key cl)
      (st\<lparr>os_last_checkpoint := Some cp, os_updated_at := cp_occurred_at cp, os_seq_no := os_seq_no st + 1\<rparr>))
      (s\<lparr>rp_ticks := Suc (rp_ticks s)\<rparr>) = (True, s') \<and> leases s' = leases s"
    using leases_same [OF st] by (simp add: outcome_def put_operation_state_def writes_def)
qed simp_all

lemma finalize_implements:
  assumes "ops_inv s" and "terminal_status x"
  shows "implements (ClosedBy (cl_key cl) (cl_owner cl) (cl_generation cl) (clock rt (rp_ticks s)) x) (claim_scoped s cl)
    (outcome (finalize_state rt cl x res err) s) s"
  unfolding finalize_state_def
  by (rule owner_implements [where L' = "\<lambda>L. L(cl_key cl \<mapsto> Closed (cl_generation cl) x)"])
     (use assms in \<open>auto simp: body_defs split: op_status.splits\<close>)

lemma retry_implements:
  "ops_inv s \<Longrightarrow> implements (call_event rt s (ScheduleRetry cl err nxt secs)) (claim_scoped s cl)
     (perform rt (ScheduleRetry cl err nxt secs) s) s"
  unfolding perform.simps schedule_operation_retry_def
  by (rule owner_implements [where L' = "\<lambda>L. L(cl_key cl \<mapsto> Waiting (cl_generation cl))"])
     (auto simp: body_defs split: op_status.splits)

lemma release_implements:
  "ops_inv s \<Longrightarrow> implements (call_event rt s (Release cl)) (claim_scoped s cl) (perform rt (Release cl) s) s"
  unfolding perform.simps release_operation_claim_def
  by (rule owner_implements [where L' = "\<lambda>L. L(cl_key cl \<mapsto> Waiting (cl_generation cl))"])
     (auto simp: body_defs split: op_status.splits)

lemma create_implements:
  assumes "fresh_state st"
  shows "implements (call_event rt s (CreateState st)) (current_call s (CreateState st)) (perform rt (CreateState st) s) s"
proof (cases "dget (rp_operation_states s) (os_key st)")
  case None
  with assms show ?thesis
    by (simp add: implements_def outcome_def create_operation_state_def py_simps put_operation_state_def leases_def
        fresh_state_def lease_of_def comp_def fun_eq_iff)
next
  case (Some x)
  then have "leases s (os_key st) = Some (lease_of x)" by (simp add: leases_def)
  with Some assms show ?thesis
    by (cases "x = st")
       (auto simp: implements_def outcome_def create_operation_state_def py_simps put_operation_state_def dput_same
          fresh_state_def lease_of_def)
qed

lemma claim_implements:
  assumes inv: "ops_inv s"
  shows "implements (Granted (t, e, i) w asof until) (current_call s (ClaimOperation (t, e, i) w asof until seq pt))
    (outcome (claim_operation t e i w asof until seq pt) s) s"
proof (cases "dget (rp_operation_states s) (t, e, i)")
  case None
  then have "leases s (t, e, i) = None" by (simp add: leases_def)
  with None inv show ?thesis by (simp add: implements_def outcome_def claim_operation_missing)
next
  case (Some st)
  have cur: "leases s (t, e, i) = Some (lease_of st)" using Some by (simp add: leases_def)
  have si: "state_inv (t, e, i) st" using inv Some by (rule ops_invD)
  let ?next = "lease_next (Granted (t, e, i) w asof until) (leases s)"
  have step: "?next = (if claimable w asof (os_seq_no st) (os_primary_term st) st
      then Some ((leases s)((t, e, i) \<mapsto> Held w (os_claim_generation st + 1) until)) else None)"
    using si cur by (auto simp: claimable_def lease_of_def state_inv_def split: option.splits op_status.splits)
  have "claimable w asof seq pt st \<Longrightarrow> claimable w asof (os_seq_no st) (os_primary_term st) st"
    by (simp add: claimable_def)
  with inv Some step show ?thesis
    by (auto simp: implements_def outcome_def claim_operation_found claimed_def claim_of_def lease_of_def)
qed

lemma call_implements:
  assumes "ops_inv s" and "legal_call c"
  shows "implements (call_event rt s c) (current_call s c) (perform rt c s) s"
proof (cases c)
  case (ClaimOperation k w asof until seq pt)
  obtain t e i where "k = (t, e, i)" by (cases k)
  with assms ClaimOperation show ?thesis
    using claim_implements [of s t e i w asof until seq pt] by simp
qed (insert assms renew_implements [of s] assert_implements [of s] checkpoint_implements [of s] retry_implements [of s]
   release_implements [of s] create_implements [of _ rt s],
  auto simp: complete_operation_def supersede_operation_def fail_operation_def finalize_implements terminal_status_def)

lemma snd_outcome [simp]: "snd (outcome m s) = snd (m s)"
  by (simp add: outcome_def split: prod.split sum.split)

lemma perform_step: "legal_call c \<Longrightarrow> claim_step rt s (snd (perform rt c s))"
proof (cases c)
  case (ClaimOperation k w asof until seq pt)
  obtain t e i where "k = (t, e, i)" by (cases k)
  with ClaimOperation show ?thesis by (simp add: claim_step.claim)
qed (simp_all add: claim_step.intros)

lemma leases_empty [simp]: "leases empty_repo = Map.empty"
  by (rule ext) (simp add: leases_def empty_repo_def)

lemma perform_all_refines:
  assumes "ops_inv s" and "\<forall>c \<in> set cs. legal_call c"
  shows "ops_inv (snd (perform_all rt cs s)) \<and>
    lease_run (fst (perform_all rt cs s)) (leases s) = Some (leases (snd (perform_all rt cs s)))"
  using assms
proof (induction cs arbitrary: s)
  case (Cons c cs)
  obtain ok s1 where p: "perform rt c s = (ok, s1)" by (cases "perform rt c s")
  have "ops_inv s1"
    using claim_step_evolves [OF perform_step [of c rt s]] Cons.prems p by (auto intro: ops_evolve_inv)
  with Cons.IH [of s1] Cons.prems call_implements [of s c rt] p show ?case
    by (auto simp: implements_def split: prod.split)
qed simp

text \<open>
  C4. The claim protocol refines the lease table. For every sequence of calls from the empty repository,
  by any workers with any claims, arguments and clock readings, the accepted calls, read as lease events of
  the worker, generation and instant they were made with, form a run of the lease table from the empty
  table, which ends in exactly the table the repository represents; so no call is accepted that the table
  forbids (a grant of a lease that has not run out, or a renewal, hand-back or closing by anybody but its
  holder in time), and a refused call leaves the table alone. Conversely a further call that names the
  stored version of the operation and its product is refused only when the table forbids its event.
\<close>

theorem claim_protocol_refines_leases:
  assumes "\<forall>c \<in> set cs. legal_call c" and "perform_all rt cs empty_repo = (evs, s)"
  shows "lease_run evs Map.empty = Some (leases s) \<and>
    (\<forall>c. legal_call c \<and> current_call s c \<longrightarrow>
       fst (perform rt c s) = (lease_next (call_event rt s c) (leases s) \<noteq> None))"
proof (intro conjI allI impI)
  have all: "ops_inv s" "lease_run evs Map.empty = Some (leases s)"
    using perform_all_refines [OF empty_repo_inv assms(1), of rt] by (simp_all add: assms(2))
  show "lease_run evs Map.empty = Some (leases s)" by (rule all)
  show "fst (perform rt c s) = (lease_next (call_event rt s c) (leases s) \<noteq> None)"
    if "legal_call c \<and> current_call s c" for c
    using call_implements [OF all(1), of c rt] that by (simp add: implements_def)
qed

text \<open>
  A worker claims the operation, another is refused while the lease runs and takes the operation over
  afterwards, and the first worker's completion is refused.
\<close>

definition sample_calls :: "claim_call list" where
  "sample_calls = [CreateState pending_sample, ClaimOperation (''t'', ''e'', ''op'') ''w1'' 0 5 0 1,
     ClaimOperation (''t'', ''e'', ''op'') ''w2'' 4 60 1 1, ClaimOperation (''t'', ''e'', ''op'') ''w2'' 6 60 1 1,
     Fail first_claim ''late'']"

theorem claim_protocol_refines_leases_witness:
  "fst (perform_all sample_rt sample_calls empty_repo) =
     [Opened (''t'', ''e'', ''op''), Granted (''t'', ''e'', ''op'') ''w1'' 0 5, Granted (''t'', ''e'', ''op'') ''w2'' 6 60] \<and>
   lease_run (fst (perform_all sample_rt sample_calls empty_repo)) Map.empty =
     Some (leases (snd (perform_all sample_rt sample_calls empty_repo)))"
proof
  show "fst (perform_all sample_rt sample_calls empty_repo) =
     [Opened (''t'', ''e'', ''op''), Granted (''t'', ''e'', ''op'') ''w1'' 0 5, Granted (''t'', ''e'', ''op'') ''w2'' 6 60]"
    by code_simp
  have "\<forall>c \<in> set sample_calls. legal_call c" by (simp add: sample_calls_def fresh_state_def pending_sample_def)
  from claim_protocol_refines_leases [OF this, of sample_rt] show
    "lease_run (fst (perform_all sample_rt sample_calls empty_repo)) Map.empty =
     Some (leases (snd (perform_all sample_rt sample_calls empty_repo)))"
    by (metis prod.collapse)
qed

end
