(* ===== verification/DependencyValidation.thy ===== *)
theory DependencyValidation
  imports ProductService
begin

text \<open>
  What \<open>validate_dependencies\<close> decides. The scoped graph of a product has the candidate's own
  dependencies at its identifier and the stored products elsewhere (\<open>scope_graph\<close>).

  \<^item> Accepting means: every product reachable from the candidate exists in its tenant and
    environment, none of them is on a cycle, and there are at most \<open>max_nodes\<close> of them.
  \<^item> Every rejection names a real cause.
\<close>

section \<open>The scoped graph\<close>

definition scope_graph :: "string \<Rightarrow> string list \<Rightarrow> (string \<Rightarrow> product option) \<Rightarrow> string \<Rightarrow> string list option" where
  "scope_graph start ups lookup node = (if node = start then Some ups else map_option upstreams (lookup node))"

definition graph_rel :: "('a \<Rightarrow> 'a list option) \<Rightarrow> ('a \<times> 'a) set" where
  "graph_rel G = {(u, v). \<exists>ns. G u = Some ns \<and> v \<in> set ns}"

text \<open>A set of known nodes that is closed under dependency and touches no cycle.\<close>

definition settled :: "('a \<Rightarrow> 'a list option) \<Rightarrow> 'a set \<Rightarrow> bool" where
  "settled G D \<longleftrightarrow> (\<forall>u \<in> D. G u \<noteq> None \<and> graph_rel G `` {u} \<subseteq> D \<and> (u, u) \<notin> (graph_rel G)\<^sup>+)"

lemma settled_reach: "settled G D \<Longrightarrow> (u, v) \<in> (graph_rel G)\<^sup>* \<Longrightarrow> u \<in> D \<Longrightarrow> v \<in> D"
  by (rotate_tac, induction rule: rtrancl_induct) (auto simp: settled_def)

lemma settled_insert:
  assumes "settled G D" and "G n = Some ns" and "set ns \<subseteq> D" and "n \<notin> D"
  shows "settled G (insert n D)"
proof -
  have step: "graph_rel G `` {n} \<subseteq> D"
    using assms(2,3) by (auto simp: graph_rel_def)
  have "(n, n) \<notin> (graph_rel G)\<^sup>+"
  proof
    assume "(n, n) \<in> (graph_rel G)\<^sup>+"
    then obtain c where "(n, c) \<in> graph_rel G" and "(c, n) \<in> (graph_rel G)\<^sup>*"
      by (blast dest: tranclD)
    with step settled_reach [OF assms(1)] have "n \<in> D" by blast
    with assms(4) show False ..
  qed
  with assms(1,2) step show ?thesis by (auto simp: settled_def)
qed

section \<open>The state of the search\<close>

definition vs_inv :: "string \<Rightarrow> (string \<Rightarrow> string list option) \<Rightarrow> int \<Rightarrow> vsearch \<Rightarrow> bool" where
  "vs_inv start G m v \<longleftrightarrow>
     dget (vs_graph v) start \<noteq> None \<and> (\<forall>n ns. dget (vs_graph v) n = Some ns \<longrightarrow> G n = Some ns) \<and>
     distinct (vs_visiting v @ vs_visited v) \<and> settled G (set (vs_visited v)) \<and>
     (\<forall>u \<in> set (vs_visiting v) \<union> set (vs_visited v). (start, u) \<in> (graph_rel G)\<^sup>*) \<and>
     (vs_visited v @ vs_visiting v \<noteq> [] \<longrightarrow> int (length (vs_visited v) + length (vs_visiting v)) \<le> m)"

text \<open>The path from the start to a node about to be visited at some depth.\<close>

definition on_path :: "string \<Rightarrow> (string \<Rightarrow> string list option) \<Rightarrow> vsearch \<Rightarrow> string \<Rightarrow> int \<Rightarrow> bool" where
  "on_path start G v node depth \<longleftrightarrow>
     rel_path (graph_rel G) (rev (node # vs_visiting v)) \<and> last (node # vs_visiting v) = start \<and>
     depth = int (length (vs_visiting v))"

text \<open>The cause named by a rejection.\<close>

definition rejection :: "string \<Rightarrow> (string \<Rightarrow> string list option) \<Rightarrow> int \<Rightarrow> int \<Rightarrow> py_error \<Rightarrow> bool" where
  "rejection start G d m e \<longleftrightarrow>
     e = ValueError ''data product dependency cycle'' \<and>
       (\<exists>n. (start, n) \<in> (graph_rel G)\<^sup>* \<and> (n, n) \<in> (graph_rel G)\<^sup>+) \<or>
     (\<exists>n. e = ValueError (''unknown or cross-tenant dependency: '' @ n) \<and> (start, n) \<in> (graph_rel G)\<^sup>* \<and> G n = None) \<or>
     e = ValueError ''data product dependency depth limit exceeded'' \<and>
       (\<exists>p. rel_path (graph_rel G) p \<and> p \<noteq> [] \<and> hd p = start \<and> d + 1 < int (length p)) \<or>
     e = ValueError ''data product dependency node limit exceeded'' \<and>
       (\<exists>A. finite A \<and> m < int (card A) \<and> (\<forall>n \<in> A. (start, n) \<in> (graph_rel G)\<^sup>*))"

lemma on_path_reach:
  assumes "on_path start G v node depth"
  shows "(start, node) \<in> (graph_rel G)\<^sup>*"
proof -
  let ?p = "rev (node # vs_visiting v)"
  have "rel_path (graph_rel G) ?p" "hd ?p = start" "last ?p = node"
    using assms by (simp_all add: on_path_def hd_rev del: rev.simps) simp
  then show ?thesis using rel_path_rtrancl [of "graph_rel G" ?p] by simp
qed

lemma on_path_cycle:
  assumes "on_path start G v node depth" and "node \<in> set (vs_visiting v)"
  shows "(node, node) \<in> (graph_rel G)\<^sup>+"
proof -
  have "rel_path (graph_rel G) (rev (vs_visiting v) @ [node])"
    using assms(1) by (simp add: on_path_def)
  then have c: "closed_path (graph_rel G) (closed_from (rev (vs_visiting v)) node)"
    using assms(2) by (intro closed_from_path) simp_all
  then have "(hd (closed_from (rev (vs_visiting v)) node), hd (closed_from (rev (vs_visiting v)) node)) \<in> (graph_rel G)\<^sup>+"
    using closed_path_trancl [OF c, of node] by (simp add: closed_from_def)
  moreover have "hd (closed_from (rev (vs_visiting v)) node) = node"
    using c by (auto simp: closed_path_def closed_from_def)
  ultimately show ?thesis by simp
qed

lemma on_path_child:
  assumes "on_path start G v node depth" and "G node = Some ns" and "n \<in> set ns"
    and "vs_visiting v' = node # vs_visiting v"
  shows "on_path start G v' n (depth + 1)"
proof -
  have "(node, n) \<in> graph_rel G" using assms(2,3) by (auto simp: graph_rel_def)
  moreover have "rel_path (graph_rel G) (rev (vs_visiting v) @ [node])" using assms(1) by (simp add: on_path_def)
  ultimately have "rel_path (graph_rel G) ((rev (vs_visiting v) @ [node]) @ [n])"
    by (subst rel_path_snoc) simp
  then show ?thesis using assms(1,4) by (simp add: on_path_def)
qed

lemma load_node_cases:
  assumes "vs_inv start G m v0" and "G = scope_graph start ups lookup" and "vs_graph v = vs_graph v0"
  obtains (known) ns g where "load_node lookup node v = (Inr ns, v\<lparr>vs_graph := g\<rparr>)" and "G node = Some ns"
      and "dget g start \<noteq> None" and "\<forall>k ks. dget g k = Some ks \<longrightarrow> G k = Some ks"
    | (unknown) "load_node lookup node v = (Inl (ValueError (''unknown or cross-tenant dependency: '' @ node)), v)"
      and "G node = None"
proof (cases "dget (vs_graph v) node")
  case (Some ns)
  then show ?thesis
    using assms by (intro known [of ns "vs_graph v"]) (auto simp: load_node_def vs_inv_def)
next
  case None
  then have "node \<noteq> start" using assms by (auto simp: vs_inv_def)
  then have G: "G node = map_option upstreams (lookup node)" by (simp add: assms(2) scope_graph_def)
  show ?thesis
  proof (cases "lookup node")
    case None
    with \<open>dget (vs_graph v) node = None\<close> G show ?thesis by (intro unknown) (simp_all add: load_node_def)
  next
    case (Some p)
    with \<open>dget (vs_graph v) node = None\<close> G assms(1,3) show ?thesis
      by (intro known [of "upstreams p" "dput node (upstreams p) (vs_graph v)"])
         (auto simp: load_node_def vs_inv_def)
  qed
qed

section \<open>The search\<close>

text \<open>What a visit leaves behind: all of \<open>nodes\<close> settled and the path as before, or a justified rejection.\<close>

definition visit_post ::
  "string \<Rightarrow> (string \<Rightarrow> string list option) \<Rightarrow> int \<Rightarrow> int \<Rightarrow> string set \<Rightarrow> vsearch \<Rightarrow> (py_error + unit) \<times> vsearch \<Rightarrow> bool" where
  "visit_post start G d m nodes v r \<longleftrightarrow> (case r of
      (Inl e, _) \<Rightarrow> rejection start G d m e
    | (Inr _, v') \<Rightarrow> vs_inv start G m v' \<and> vs_visiting v' = vs_visiting v \<and>
        set (vs_visited v) \<subseteq> set (vs_visited v') \<and> nodes \<subseteq> set (vs_visited v'))"

lemma visit_too_deep:
  assumes "on_path start G v node depth" and "d < depth"
  shows "rejection start G d m (ValueError ''data product dependency depth limit exceeded'')"
proof -
  let ?p = "rev (node # vs_visiting v)"
  have "rel_path (graph_rel G) ?p" "?p \<noteq> []" "hd ?p = start" "d + 1 < int (length ?p)"
    using assms by (simp_all add: on_path_def hd_rev del: rev.simps)
  then show ?thesis unfolding rejection_def by blast
qed

lemma visit_too_many:
  assumes "vs_inv start G m v" and "on_path start G v node depth" and "node \<notin> set (vs_visiting v) \<union> set (vs_visited v)"
    and "m \<le> int (length (vs_visited v)) + int (length (vs_visiting v))"
  shows "rejection start G d m (ValueError ''data product dependency node limit exceeded'')"
proof -
  let ?A = "insert node (set (vs_visiting v @ vs_visited v))"
  have "card (set (vs_visiting v @ vs_visited v)) = length (vs_visiting v @ vs_visited v)"
    using assms(1) by (intro distinct_card) (simp add: vs_inv_def)
  then have "m < int (card ?A)" using assms(3,4) by simp
  moreover have "\<forall>n \<in> ?A. (start, n) \<in> (graph_rel G)\<^sup>*"
    using assms(1) on_path_reach [OF assms(2)] by (auto simp: vs_inv_def)
  ultimately show ?thesis unfolding rejection_def by blast
qed

lemma visit_enter:
  assumes "vs_inv start G m v" and "on_path start G v node depth" and "node \<notin> set (vs_visiting v) \<union> set (vs_visited v)"
    and "\<not> m \<le> int (length (vs_visited v)) + int (length (vs_visiting v))"
    and "dget g start \<noteq> None" and "\<forall>k ks. dget g k = Some ks \<longrightarrow> G k = Some ks"
  shows "vs_inv start G m (v\<lparr>vs_visiting := node # vs_visiting v, vs_graph := g\<rparr>)"
  using assms on_path_reach [OF assms(2)] by (auto simp: vs_inv_def)

lemma visit_leave:
  assumes "vs_inv start G m v" and "vs_visiting v = node # stack" and "set ns \<subseteq> set (vs_visited v)" and "G node = Some ns"
  shows "vs_inv start G m (v\<lparr>vs_visiting := remove1 node (vs_visiting v), vs_visited := node # vs_visited v\<rparr>)"
  using assms settled_insert [of G "set (vs_visited v)" node ns] by (auto simp: vs_inv_def)

lemma vvisit_correct:
  assumes "G = scope_graph start ups lookup"
  shows "vs_inv start G m v \<Longrightarrow> on_path start G v node depth \<Longrightarrow>
           visit_post start G d m {node} v (vvisit lookup d m node depth v)"
    and "vs_inv start G m v \<Longrightarrow> \<forall>n \<in> set ns. on_path start G v n depth \<Longrightarrow>
           visit_post start G d m (set ns) v (vvisit_all lookup d m ns depth v)"
  using assms
proof (induction lookup d m node depth v and lookup d m ns depth v rule: vvisit_vvisit_all.induct)
  case (1 lookup d m node depth v)
  note inv = "1.prems"(1) and path = "1.prems"(2)
  show ?case
  proof (cases "d < depth \<or> node \<in> set (vs_visiting v) \<or> node \<in> set (vs_visited v) \<or>
      m \<le> int (length (vs_visited v)) + int (length (vs_visiting v))")
    case True
    have "node \<in> set (vs_visiting v) \<Longrightarrow> rejection start G d m (ValueError ''data product dependency cycle'')"
      using on_path_cycle [OF path] on_path_reach [OF path] unfolding rejection_def by blast
    with True inv visit_too_deep [OF path] visit_too_many [OF inv path] show ?thesis
      by (subst vvisit.simps) (auto simp: visit_post_def)
  next
    case False
    let ?v1 = "v\<lparr>vs_visiting := node # vs_visiting v\<rparr>"
    from inv "1.prems"(3) have "vs_graph ?v1 = vs_graph v" by simp
    from inv "1.prems"(3) this show ?thesis
    proof (cases rule: load_node_cases [where node = node])
      case unknown
      then have "rejection start G d m (ValueError (''unknown or cross-tenant dependency: '' @ node))"
        using on_path_reach [OF path] unfolding rejection_def by blast
      with False unknown show ?thesis by (subst vvisit.simps) (simp add: visit_post_def)
    next
      case (known ns g)
      let ?v2 = "v\<lparr>vs_visiting := node # vs_visiting v, vs_graph := g\<rparr>"
      have inv2: "vs_inv start G m ?v2"
        using False known by (intro visit_enter [OF inv path]) auto
      have "\<forall>n \<in> set ns. on_path start G ?v2 n (depth + 1)"
        using on_path_child [OF path known(2)] by simp
      with inv2 have "visit_post start G d m (set ns) ?v2 (vvisit_all lookup d m ns (depth + 1) ?v2)"
        using False known(1) "1.prems"(3) by (intro "1.IH") simp_all
      moreover have "vs_inv start G m (w\<lparr>vs_visiting := remove1 node (vs_visiting w), vs_visited := node # vs_visited w\<rparr>)"
        if "vs_inv start G m w" "vs_visiting w = node # vs_visiting v" "set ns \<subseteq> set (vs_visited w)" for w
        using that known(2) by (rule visit_leave [where stack = "vs_visiting v" and ns = ns])
      ultimately show ?thesis
        using False known(1) by (subst vvisit.simps) (auto simp: visit_post_def split: prod.splits sum.splits)
    qed
  qed
next
  case (2 lookup d m depth v)
  then show ?case by (simp add: visit_post_def)
next
  case (3 lookup d m n ns depth v)
  have hd: "visit_post start G d m {n} v (vvisit lookup d m n depth v)"
    using 3 by (intro "3.IH"(1)) auto
  show ?case
  proof (cases "vvisit lookup d m n depth v")
    case (Pair r v1)
    show ?thesis
    proof (cases r)
      case (Inl e)
      with Pair hd show ?thesis by (simp add: visit_post_def)
    next
      case (Inr u)
      with Pair hd have v1: "vs_inv start G m v1" "vs_visiting v1 = vs_visiting v"
        "set (vs_visited v) \<subseteq> set (vs_visited v1)" "n \<in> set (vs_visited v1)"
        by (auto simp: visit_post_def)
      have "visit_post start G d m (set ns) v1 (vvisit_all lookup d m ns depth v1)"
        using v1 "3.prems" Pair Inr by (intro "3.IH"(2)) (auto simp: on_path_def)
      with Pair Inr v1 show ?thesis by (auto simp: visit_post_def split: prod.splits sum.splits)
    qed
  qed
qed

section \<open>Properties\<close>

definition scope_of :: "product \<Rightarrow> repo \<Rightarrow> string \<Rightarrow> string list option" where
  "scope_of p s = scope_graph (pr_id p) (upstreams p) (scoped_lookup p s)"

lemma validate_post:
  "visit_post (pr_id p) (scope_of p s) d m {pr_id p} (vsearch_start p)
     (vvisit (scoped_lookup p s) d m (pr_id p) 0 (vsearch_start p))"
proof (rule vvisit_correct(1))
  show "scope_of p s = scope_graph (pr_id p) (upstreams p) (scoped_lookup p s)" by (rule scope_of_def)
  show "vs_inv (pr_id p) (scope_of p s) m (vsearch_start p)"
    by (simp add: vs_inv_def vsearch_start_def scope_of_def scope_graph_def settled_def)
  show "on_path (pr_id p) (scope_of p s) (vsearch_start p) (pr_id p) 0"
    by (simp add: on_path_def vsearch_start_def)
qed

lemma validate_settled:
  assumes "validate_dependencies p d m s = (Inr (), s')"
  obtains D where "finite D" and "int (card D) \<le> m" and "settled (scope_of p s) D" and "pr_id p \<in> D"
    and "\<forall>n \<in> D. (pr_id p, n) \<in> (graph_rel (scope_of p s))\<^sup>*"
proof -
  obtain r v where v: "vvisit (scoped_lookup p s) d m (pr_id p) 0 (vsearch_start p) = (r, v)" by fastforce
  with assms have r: "r = Inr ()" by (simp add: validate_dependencies_def)
  have inv: "vs_inv (pr_id p) (scope_of p s) m v" "vs_visiting v = []" "pr_id p \<in> set (vs_visited v)"
    using validate_post [of p s d m] unfolding v r by (simp_all add: visit_post_def vsearch_start_def)
  then have "int (card (set (vs_visited v))) \<le> m"
    by (auto simp: vs_inv_def distinct_card)
  with inv show thesis by (intro that [of "set (vs_visited v)"]) (auto simp: vs_inv_def)
qed

lemma validate_rejection:
  assumes "validate_dependencies p d m s = (Inl e, s')"
  shows "s' = s" and "rejection (pr_id p) (scope_of p s) d m e"
proof -
  obtain r v where v: "vvisit (scoped_lookup p s) d m (pr_id p) 0 (vsearch_start p) = (r, v)" by fastforce
  with assms have "r = Inl e" "s' = s" by (simp_all add: validate_dependencies_def)
  with validate_post [of p s d m] v show "s' = s" "rejection (pr_id p) (scope_of p s) d m e"
    by (simp_all add: visit_post_def)
qed

text \<open>A chain of three products, and two products that depend on each other.\<close>

definition chain_repo :: repo where
  "chain_repo = products_repo [(''b'', [''c'']), (''c'', [])]"

definition loop_repo :: repo where
  "loop_repo = products_repo [(''b'', [''a''])]"

lemma validate_run: "fst (validate_dependencies p d m s) = r \<Longrightarrow> validate_dependencies p d m s = (r, s)"
  by (auto simp: validate_dependencies_def)

lemma chain_accepted: "validate_dependencies (sample_product ''a'' [''b'']) 32 1000 chain_repo = (Inr (), chain_repo)"
  by (rule validate_run) code_simp

lemma loop_rejected:
  "validate_dependencies (sample_product ''a'' [''b'']) 32 1000 loop_repo =
     (Inl (ValueError ''data product dependency cycle''), loop_repo)"
  by (rule validate_run) code_simp

text \<open>
  C14. When \<open>validate_dependencies\<close> accepts a product, the repository is untouched, every product reachable from it
  by declared dependencies exists in its tenant and environment, none of them lies on a dependency
  cycle, and there are at most \<open>max_nodes\<close> of them.
\<close>

theorem validation_accepts_only_sound_graphs:
  assumes "validate_dependencies p max_depth max_nodes s = (Inr (), s')"
  shows "s' = s \<and>
    (\<forall>n. (pr_id p, n) \<in> (graph_rel (scope_of p s))\<^sup>* \<longrightarrow>
       scope_of p s n \<noteq> None \<and> (n, n) \<notin> (graph_rel (scope_of p s))\<^sup>+) \<and>
    finite {n. (pr_id p, n) \<in> (graph_rel (scope_of p s))\<^sup>*} \<and>
    int (card {n. (pr_id p, n) \<in> (graph_rel (scope_of p s))\<^sup>*}) \<le> max_nodes"
proof -
  obtain D where D: "finite D" "int (card D) \<le> max_nodes" "settled (scope_of p s) D" "pr_id p \<in> D"
      "\<forall>n \<in> D. (pr_id p, n) \<in> (graph_rel (scope_of p s))\<^sup>*"
    using validate_settled [OF assms] by blast
  have "{n. (pr_id p, n) \<in> (graph_rel (scope_of p s))\<^sup>*} = D"
    using D(4,5) settled_reach [OF D(3)] by blast
  moreover have "s' = s" using assms by (simp add: validate_dependencies_def)
  ultimately show ?thesis using D by (auto simp: settled_def)
qed

theorem validation_accepts_only_sound_graphs_witness:
  "validate_dependencies (sample_product ''a'' [''b'']) 32 1000 chain_repo = (Inr (), chain_repo) \<and>
   (''a'', ''a'') \<notin> (graph_rel (scope_of (sample_product ''a'' [''b'']) chain_repo))\<^sup>+"
  using validation_accepts_only_sound_graphs [OF chain_accepted] chain_accepted by (auto simp: sample_product_def)

text \<open>
  C30. A rejection by \<open>validate_dependencies\<close> names a real cause in the scoped graph: a cycle
  reachable from the product, a reachable product that does not exist in the scope, a dependency path
  longer than the depth limit, or more reachable products than the node limit.
\<close>

theorem validation_rejects_with_cause:
  assumes "validate_dependencies p max_depth max_nodes s = (Inl e, s')"
  shows "s' = s \<and> rejection (pr_id p) (scope_of p s) max_depth max_nodes e"
  using validate_rejection [OF assms] by simp

theorem validation_rejects_with_cause_witness:
  "rejection ''a'' (scope_of (sample_product ''a'' [''b'']) loop_repo) 32 1000
     (ValueError ''data product dependency cycle'')"
  using validation_rejects_with_cause [OF loop_rejected] by (simp add: sample_product_def)

section \<open>The two cycle searches agree\<close>

lemma rel_path_prefix: "rel_path r (p @ q) \<Longrightarrow> rel_path r p"
  by (induction r p rule: rel_path.induct) auto

lemma repeated_node_cycle:
  assumes "rel_path r p" and "\<not> distinct p"
  obtains n where "n \<in> set p" and "(n, n) \<in> r\<^sup>+"
proof -
  obtain xs y ys zs where p: "p = xs @ (y # ys @ [y]) @ zs"
    using not_distinct_decomp [OF assms(2)] by auto
  have "rel_path r ((y # ys @ [y]) @ zs)" using assms(1) unfolding p by (rule rel_path_appendD)
  then have "rel_path r (y # ys @ [y])" by (rule rel_path_prefix)
  then have "closed_path r (y # ys @ [y])" by (simp add: closed_path_def)
  then have "(y, y) \<in> r\<^sup>+" using closed_path_trancl [of r "y # ys @ [y]" y] by simp
  then show thesis using p by (intro that) auto
qed

lemma rel_path_reached: "rel_path r p \<Longrightarrow> p \<noteq> [] \<Longrightarrow> x \<in> set p \<Longrightarrow> (hd p, x) \<in> r\<^sup>*"
  by (induction r p rule: rel_path.induct) (auto intro: converse_rtrancl_into_rtrancl)

lemma reached_part_cyclic:
  assumes "(n, n) \<in> r\<^sup>+" and "(start, n) \<in> r\<^sup>*"
  shows "\<not> acyclic {(u, v). (u, v) \<in> r \<and> (start, u) \<in> r\<^sup>*}"
proof -
  let ?q = "{(u, v). (u, v) \<in> r \<and> (start, u) \<in> r\<^sup>*}"
  have "(n, x) \<in> ?q\<^sup>+" if "(n, x) \<in> r\<^sup>+" for x
    using that
  proof (induction rule: trancl_induct)
    case (base y)
    with assms(2) show ?case by blast
  next
    case (step y z)
    then have "(start, y) \<in> r\<^sup>*" using assms(2) by (meson rtrancl_trans trancl_into_rtrancl)
    with step.hyps(2) have "(y, z) \<in> ?q" by blast
    with step.IH show ?case by (rule trancl_into_trancl)
  qed
  with assms(1) show ?thesis by (auto simp: acyclic_def)
qed

lemma reached_part_acyclic:
  assumes "\<forall>n. (start, n) \<in> r\<^sup>* \<longrightarrow> (n, n) \<notin> r\<^sup>+"
  shows "acyclic {(u, v). (u, v) \<in> r \<and> (start, u) \<in> r\<^sup>*}"
proof (rule acyclicI, intro allI notI)
  let ?q = "{(u, v). (u, v) \<in> r \<and> (start, u) \<in> r\<^sup>*}"
  fix x assume x: "(x, x) \<in> ?q\<^sup>+"
  then have "(start, x) \<in> r\<^sup>*" by (auto dest: tranclD)
  moreover have "(x, x) \<in> r\<^sup>+" using x by (rule trancl_mono) auto
  ultimately show False using assms by blast
qed

text \<open>A rejection inside the limits, where every reachable product exists, is a cycle.\<close>

lemma bounded_rejection_cycle:
  assumes "rejection start G d m e" and "\<forall>n. (start, n) \<in> (graph_rel G)\<^sup>* \<longrightarrow> G n \<noteq> None"
    and "finite R" and "R = {n. (start, n) \<in> (graph_rel G)\<^sup>*}" and "int (card R) \<le> m" and "int (card R) \<le> d + 1"
  obtains n where "(start, n) \<in> (graph_rel G)\<^sup>*" and "(n, n) \<in> (graph_rel G)\<^sup>+"
proof -
  consider (cycle) n where "(start, n) \<in> (graph_rel G)\<^sup>*" "(n, n) \<in> (graph_rel G)\<^sup>+"
    | (missing) n where "(start, n) \<in> (graph_rel G)\<^sup>*" "G n = None"
    | (deep) p where "rel_path (graph_rel G) p" "p \<noteq> []" "hd p = start" "d + 1 < int (length p)"
    | (many) A where "finite A" "m < int (card A)" "\<forall>n \<in> A. (start, n) \<in> (graph_rel G)\<^sup>*"
    using assms(1) unfolding rejection_def by blast
  then show thesis
  proof cases
    case deep
    have "set p \<subseteq> R" using rel_path_reached [OF deep(1,2)] deep(3) assms(4) by auto
    then have "card (set p) \<le> card R" using assms(3) by (intro card_mono)
    with deep(4) assms(6) have "\<not> distinct p" by (auto dest: distinct_card)
    with deep(1) obtain n where "n \<in> set p" "(n, n) \<in> (graph_rel G)\<^sup>+" by (rule repeated_node_cycle)
    with \<open>set p \<subseteq> R\<close> assms(4) show thesis by (intro that) auto
  next
    case many
    then have "card A \<le> card R" using assms(3,4) by (intro card_mono) auto
    with many(2) assms(5) show thesis by simp
  qed (use assms(2) that in blast)+
qed

text \<open>
  C16. The two cycle searches of the code agree. Over the declared dependencies of the products
  reachable from a product, all of which exist and which are no more than the node limit and the depth
  limit plus one, the recursive validation of the product service accepts the product exactly when the
  cycle search of the dependency service finds no cycle path in the list of those arcs.
\<close>

theorem validation_agrees_with_cycle_search:
  assumes "set es = {(u, v). (u, v) \<in> graph_rel (scope_of p s) \<and> (pr_id p, u) \<in> (graph_rel (scope_of p s))\<^sup>*}"
    and "finite R" and "R = {n. (pr_id p, n) \<in> (graph_rel (scope_of p s))\<^sup>*}"
    and "\<forall>n \<in> R. scope_of p s n \<noteq> None" and "int (card R) \<le> max_nodes" and "int (card R) \<le> max_depth + 1"
  shows "fst (validate_dependencies p max_depth max_nodes s) = Inr () \<longleftrightarrow> find_cycle_path (build_adjacency es) = []"
proof -
  have acyc: "find_cycle_path (build_adjacency es) = [] \<longleftrightarrow> acyclic (set es)"
    by (simp add: find_cycle_path_iff)
  obtain r s' where run: "validate_dependencies p max_depth max_nodes s = (r, s')" by fastforce
  show ?thesis
  proof (cases r)
    case (Inl e)
    then have "rejection (pr_id p) (scope_of p s) max_depth max_nodes e"
      using validate_rejection run by blast
    then obtain n where "(pr_id p, n) \<in> (graph_rel (scope_of p s))\<^sup>*" "(n, n) \<in> (graph_rel (scope_of p s))\<^sup>+"
      using assms(2-6) by (elim bounded_rejection_cycle [where R = R]) auto
    then have "\<not> acyclic (set es)" unfolding assms(1) by (intro reached_part_cyclic)
    with Inl run acyc show ?thesis by simp
  next
    case (Inr u)
    with run obtain D where D: "settled (scope_of p s) D" "pr_id p \<in> D"
      using validate_settled [of p max_depth max_nodes s s'] by auto
    then have "\<forall>n. (pr_id p, n) \<in> (graph_rel (scope_of p s))\<^sup>* \<longrightarrow> (n, n) \<notin> (graph_rel (scope_of p s))\<^sup>+"
      using settled_reach [OF D(1) _ D(2)] D(1) unfolding settled_def by blast
    then have "acyclic (set es)" unfolding assms(1) by (rule reached_part_acyclic)
    with Inr run acyc show ?thesis by simp
  qed
qed

lemma chain_scope:
  "scope_of (sample_product ''a'' [''b'']) chain_repo n =
     (if n = ''a'' then Some [''b''] else if n = ''b'' then Some [''c''] else if n = ''c'' then Some [] else None)"
proof -
  have ups: "upstreams (sample_product ''a'' [''b'']) = [''b'']" "upstreams (sample_product ''b'' [''c'']) = [''c'']"
    "upstreams (sample_product ''c'' []) = []" by code_simp+
  have scope: "pr_id (sample_product ''a'' [''b'']) = ''a''" "pr_tenant_id (sample_product ''a'' [''b'']) = ''t''"
    "pr_environment (sample_product ''a'' [''b'']) = ''e''" by (simp_all add: sample_product_def)
  show ?thesis
    by (simp add: scope_of_def scope_graph_def scoped_lookup_def chain_repo_def products_repo_def ups scope)
qed

theorem validation_agrees_with_cycle_search_witness:
  "(fst (validate_dependencies (sample_product ''a'' [''b'']) 32 1000 chain_repo) = Inr ()) =
   (find_cycle_path (build_adjacency [(''a'', ''b''), (''b'', ''c'')]) = [])"
proof (rule validation_agrees_with_cycle_search [where R = "{''a'', ''b'', ''c''}"])
  let ?r = "graph_rel (scope_of (sample_product ''a'' [''b'']) chain_repo)"
  have id: "pr_id (sample_product ''a'' [''b'']) = ''a''" by (simp add: sample_product_def)
  have r: "?r = {(''a'', ''b''), (''b'', ''c'')}" by (auto simp: graph_rel_def chain_scope split: if_splits)
  have "n \<in> {''a'', ''b'', ''c''}" if "(''a'', n) \<in> ?r\<^sup>*" for n
    using that by (induction rule: rtrancl_induct) (auto simp: r)
  moreover have "(''a'', ''b'') \<in> ?r\<^sup>*" "(''a'', ''c'') \<in> ?r\<^sup>*"
    by (auto simp: r intro: r_into_rtrancl rtrancl_into_rtrancl)
  ultimately show reach: "{''a'', ''b'', ''c''} = {n. (pr_id (sample_product ''a'' [''b'']), n) \<in> ?r\<^sup>*}"
    by (auto simp: id)
  show "set [(''a'', ''b''), (''b'', ''c'')] = {(u, v). (u, v) \<in> ?r \<and> (pr_id (sample_product ''a'' [''b'']), u) \<in> ?r\<^sup>*}"
    using reach by (auto simp: r id)
qed (simp_all add: chain_scope)

end
