(* ===== verification/ProductProperties.thy ===== *)
theory ProductProperties
  imports DependencyValidation
begin

text \<open>
  Properties of \<open>DataProductService\<close>: updates are atomic and optimistic, a completed transition is
  replayed from its own revision before any current state is read.
\<close>

section \<open>Steps of an update\<close>

lemma begin_operation_post:
  assumes "begin_operation ev p s = (r, s')"
  shows "rp_items s' = rp_items s \<and>
    (\<forall>x. r = Inr x \<longrightarrow> (\<exists>q. operation_of s' (ev_operation_id ev) = Some (x, q) \<and>
       ev_definition_checksum x = ev_definition_checksum ev \<and> (operation_of s (ev_operation_id ev) = None \<longrightarrow> q = p)))"
  using assms by (auto simp: begin_operation_def py_simps split: option.splits if_splits)

lemma finish_applied_event_post:
  assumes "operation_of s (ev_operation_id ev) = Some (x, q)" and "ev_definition_checksum x = ev_definition_checksum ev"
  obtains s' where "finish_applied_event rt ev s = (Inr (), s')" and "rp_items s' = rp_items s"
    and "dget (rp_revisions s') (ev_revision_key ev) = Some (q, ev_actor ev, ev_reason ev)"
proof -
  let ?ev = "ev\<lparr>ev_outcome := OcApplied, ev_applied_at := Some (clock rt (rp_ticks s))\<rparr>"
  let ?s' = "s\<lparr>rp_ticks := Suc (rp_ticks s), rp_operations := dput (ev_operation_id ev) (?ev, q) (rp_operations s),
    rp_revisions := dput (ev_revision_key ev) (q, ev_actor ev, ev_reason ev) (rp_revisions s)\<rparr>"
  have "finish_applied_event rt ev s = (Inr (), ?s')"
    using assms by (simp add: finish_applied_event_def finish_operation_def py_simps utc_now_def ev_revision_key_def)
  then show thesis by (rule that) simp_all
qed

lemma pending_event_cases:
  obtains (error) x where "pending_event rt p actor reason action key s = (Inl x, s)"
  | (event) ev where "pending_event rt p actor reason action key s = (Inr ev, s\<lparr>rp_ticks := Suc (rp_ticks s)\<rparr>)"
    and "ev_definition_checksum ev = definition_checksum rt p" and "ev_revision_key ev = (pr_tenant_id p, pr_environment p, pr_id p, pr_revision p)"
    and "ev_actor ev = actor" and "ev_reason ev = reason"
proof (cases "event_operation_id rt (pr_tenant_id p) (pr_environment p) (pr_id p) (pr_revision p)
    (por_else key (definition_checksum rt p))")
  case (Inl x)
  then show thesis by (intro error) (simp add: pending_event_def lift_result_def py_simps)
next
  case (Inr oid)
  define ev where "ev = \<lparr>ev_operation_id = oid, ev_product_id = pr_id p, ev_tenant_id = pr_tenant_id p,
    ev_environment = pr_environment p, ev_revision = pr_revision p, ev_etag = pr_etag p,
    ev_definition_checksum = definition_checksum rt p, ev_actor = actor, ev_reason = reason, ev_action = action,
    ev_outcome = OcPending, ev_occurred_at = clock rt (rp_ticks s), ev_applied_at = None, ev_error_code = None\<rparr>"
  have "pending_event rt p actor reason action key s = (Inr ev, s\<lparr>rp_ticks := Suc (rp_ticks s)\<rparr>)"
    by (simp add: pending_event_def lift_result_def py_simps utc_now_def Inr ev_def Let_def)
  then show thesis by (rule event) (simp_all add: ev_def ev_revision_key_def)
qed

text \<open>The write that closes an update, once its operation is recorded.\<close>

lemma update_tail:
  assumes "operation_of s (ev_operation_id ev) = Some (x, q)" and "ev_definition_checksum x = ev_definition_checksum ev"
    and "dget (rp_items s) (pr_key p) = Some cur" and "pr_etag cur = etag"
  obtains s' where "bindp (update_product p etag) (\<lambda>saved. seqp (finish_applied_event rt ev) (ret saved)) s = (Inr p, s')"
    and "rp_items s' = dput (pr_key p) p (rp_items s)"
    and "dget (rp_revisions s') (ev_revision_key ev) = Some (q, ev_actor ev, ev_reason ev)"
proof -
  let ?s1 = "s\<lparr>rp_items := dput (pr_key p) p (rp_items s)\<rparr>"
  have "operation_of ?s1 (ev_operation_id ev) = Some (x, q)" using assms(1) by simp
  then obtain s' where "finish_applied_event rt ev ?s1 = (Inr (), s')" "rp_items s' = rp_items ?s1"
      "dget (rp_revisions s') (ev_revision_key ev) = Some (q, ev_actor ev, ev_reason ev)"
    using assms(2) by (rule finish_applied_event_post)
  with assms(3,4) show thesis by (intro that) (simp_all add: update_product_def py_simps)
qed

text \<open>
  C17. An update is optimistic and atomic: it succeeds only against the tag of the stored product, then
  stores a product with the next revision and its own tag and a record of that revision, and changes no
  other product; when it raises, no product has changed.
\<close>

theorem update_is_optimistic_and_atomic:
  "case product_update rt p0 if_match actor reason key action s of
     (Inl _, s') \<Rightarrow> rp_items s' = rp_items s
   | (Inr p, s') \<Rightarrow> \<exists>cur. dget (rp_items s) (pr_key p0) = Some cur \<and> if_match = Some (pr_etag cur) \<and>
       pr_key p = pr_key p0 \<and> pr_revision p = pr_revision cur + 1 \<and> pr_etag p = product_etag rt p \<and>
       rp_items s' = dput (pr_key p0) p (rp_items s) \<and>
       dget (rp_revisions s') (pr_tenant_id p0, pr_environment p0, pr_id p0, pr_revision cur + 1) \<noteq> None"
proof (cases "dget (rp_items s) (pr_key p0)")
  case None
  then show ?thesis by (simp add: product_update_def get_product_def py_simps pr_key_def)
next
  case (Some cur)
  show ?thesis
  proof (cases "if_match = Some (pr_etag cur) \<and> pr_etag cur \<noteq> []")
    case False
    with Some show ?thesis by (auto simp: product_update_def get_product_def py_simps pr_key_def)
  next
    case True
    let ?p1 = "p0\<lparr>pr_revision := pr_revision cur + 1\<rparr>"
    show ?thesis
    proof (cases "fst (validate_dependencies ?p1 32 1000 s)")
      case (Inl x)
      with Some True show ?thesis
        by (simp add: product_update_def get_product_def py_simps pr_key_def Let_def validate_dependencies_def)
    next
      case (Inr u)
      let ?s1 = "s\<lparr>rp_ticks := Suc (rp_ticks s)\<rparr>"
      let ?p2 = "?p1\<lparr>pr_updated_at := clock rt (rp_ticks s)\<rparr>"
      let ?p = "?p2\<lparr>pr_etag := product_etag rt ?p2\<rparr>"
      let ?k = "\<lambda>ev. bindp (begin_operation ev ?p) (\<lambda>existing.
            bindp (if ev_outcome existing = OcApplied
                   then bindp (get_product (pr_tenant_id ?p) (pr_environment ?p) (pr_id ?p)) (\<lambda>replay.
                     ret (case replay of None \<Rightarrow> None
                          | Some r \<Rightarrow> if pr_revision ?p \<le> pr_revision r then Some r else None))
                   else ret None) (\<lambda>replay.
            case replay of
              Some r \<Rightarrow> ret r
            | None \<Rightarrow>
                bindp (update_product ?p (pr_etag cur)) (\<lambda>saved.
                seqp (finish_applied_event rt ev) (ret saved))))"
      have eq: "product_update rt p0 if_match actor reason key action s =
          bindp (pending_event rt ?p actor reason action key) ?k ?s1"
        using Some True Inr
        by (simp add: product_update_def get_product_def bindp_apply seqp_apply pr_key_def Let_def
            validate_dependencies_def utc_now_def)
      have tag: "pr_etag ?p = product_etag rt ?p" by (simp add: product_etag_def masked_def)
      show ?thesis
      proof (cases rule: pending_event_cases [of rt ?p actor reason action key ?s1])
        case (error x)
        then show ?thesis unfolding eq by (simp add: bindp_apply)
      next
        case (event ev)
        let ?s2 = "?s1\<lparr>rp_ticks := Suc (rp_ticks ?s1)\<rparr>"
        obtain r s3 where b: "begin_operation ev ?p ?s2 = (r, s3)" by fastforce
        note post = begin_operation_post [OF b]
        show ?thesis
        proof (cases r)
          case (Inl x)
          with event(1) b post show ?thesis unfolding eq by (simp add: bindp_apply)
        next
          case (Inr x)
          have items: "rp_items s3 = rp_items s" using post by simp
          obtain q where q: "operation_of s3 (ev_operation_id ev) = Some (x, q)" "ev_definition_checksum x = ev_definition_checksum ev"
            using post Inr by blast
          have cur: "dget (rp_items s3) (pr_key ?p) = Some cur" using Some items by (simp add: pr_key_def)
          obtain s' where tail: "bindp (update_product ?p (pr_etag cur)) (\<lambda>saved. seqp (finish_applied_event rt ev) (ret saved)) s3 = (Inr ?p, s')"
              "rp_items s' = dput (pr_key ?p) ?p (rp_items s3)"
              "dget (rp_revisions s') (ev_revision_key ev) = Some (q, ev_actor ev, ev_reason ev)"
            using update_tail [OF q cur] by blast
          have "product_update rt p0 if_match actor reason key action s = (Inr ?p, s')"
            unfolding eq using event(1) b Inr cur tail(1)
            by (simp add: bindp_apply get_product_def pr_key_def)
          with tail(2,3) items Some True tag event(3) show ?thesis by (simp add: pr_key_def)
        qed
      qed
    qed
  qed
qed

end
