(* ===== verification/DependencyTraversal.thy ===== *)
theory DependencyTraversal
  imports DependencyGraph
begin

text \<open>
  What the bounded traversal of \<open>dependencies.py\<close> guarantees. A loader serves a relation \<open>r\<close> of
  arcs (source to target, in the direction of travel): it returns no arc outside \<open>r\<close> for the nodes
  asked, and all of them when it reports that every page was read (\<open>serves\<close>).

  \<^item> \<open>bfs_inv\<close>: the invariant of the loops; \<open>explored\<close>: every node seen is still to be expanded or
    has all its successors among the nodes seen.
  \<^item> The properties: budgets are respected, every reported node is reachable, an untruncated result
    is the whole reachable part, a reported cycle is one, and the validation of a replacement.
\<close>

section \<open>Loaders\<close>

definition loader_sound :: "frontier_loader \<Rightarrow> direction \<Rightarrow> (string \<times> string) set \<Rightarrow> bool" where
  "loader_sound loader dir r \<longleftrightarrow>
     (\<forall>chunk. \<forall>e \<in> set (fst (loader chunk dir)). fst (orient dir e) \<in> set chunk \<longrightarrow> orient dir e \<in> r)"

definition loader_full :: "frontier_loader \<Rightarrow> direction \<Rightarrow> (string \<times> string) set \<Rightarrow> bool" where
  "loader_full loader dir r \<longleftrightarrow>
     (\<forall>chunk. snd (loader chunk dir) \<longrightarrow>
        (\<forall>(u, v) \<in> r. u \<in> set chunk \<longrightarrow> (u, v) \<in> orient dir ` set (fst (loader chunk dir))))"

definition serves :: "frontier_loader \<Rightarrow> direction \<Rightarrow> (string \<times> string) set \<Rightarrow> bool" where
  "serves loader dir r \<longleftrightarrow> loader_sound loader dir r \<and> loader_full loader dir r"

lemma servesD1:
  "loader_sound loader dir r \<Longrightarrow> e \<in> set (fst (loader chunk dir)) \<Longrightarrow> fst (orient dir e) \<in> set chunk \<Longrightarrow>
   orient dir e \<in> r"
  unfolding loader_sound_def by blast

lemma servesD2:
  "loader_full loader dir r \<Longrightarrow> snd (loader chunk dir) \<Longrightarrow> (u, v) \<in> r \<Longrightarrow> u \<in> set chunk \<Longrightarrow>
   (u, v) \<in> orient dir ` set (fst (loader chunk dir))"
  unfolding loader_full_def by blast

lemma loader_sound_UNIV: "loader_sound loader dir UNIV"
  by (simp add: loader_sound_def)

lemma adjacency_loader_serves: "serves (adjacency_loader g) Upstream (dep_rel g)"
  by (auto simp: serves_def loader_sound_def loader_full_def adjacency_loader_def dep_rel_def orient_def)

section \<open>The invariant of the loops\<close>

definition bfs_inv :: "string \<Rightarrow> direction \<Rightarrow> budget \<Rightarrow> (string \<times> string) set \<Rightarrow> bfs \<Rightarrow> bool" where
  "bfs_inv start dir b r st \<longleftrightarrow>
     bf_seen st = start # bf_nodes st \<and> distinct (bf_seen st) \<and> distinct (bf_selected st) \<and>
     int (length (bf_seen st)) \<le> max 1 (bu_max_nodes b) \<and>
     int (length (bf_selected st)) \<le> max 0 (bu_max_edges b) \<and>
     0 \<le> bf_queries st \<and> bf_queries st \<le> max 0 (bu_max_queries b) \<and>
     orient dir ` set (bf_selected st) \<subseteq> r \<and>
     (\<forall>e \<in> set (bf_selected st). fst (orient dir e) \<in> set (bf_seen st)) \<and>
     set (bf_seen st) \<subseteq> (orient dir ` set (bf_selected st))\<^sup>* `` {start} \<and>
     set (bf_frontier st) \<subseteq> set (bf_seen st) \<and> set (bf_next st) \<subseteq> set (bf_seen st) \<and>
     (\<forall>t s. dget (bf_parents st) t = Some s \<longrightarrow> (s, t) \<in> orient dir ` set (bf_selected st)) \<and>
     (bf_cycle st = [] \<or> closed_path (orient dir ` set (bf_selected st)) (bf_cycle st))"

lemma bfs_inv_fields [simp]:
  "bfs_inv start dir b r (st\<lparr>bf_reason := x\<rparr>) = bfs_inv start dir b r st"
  "bfs_inv start dir b r (st\<lparr>bf_ticks := n\<rparr>) = bfs_inv start dir b r st"
  "bfs_inv start dir b r (st\<lparr>bf_depth := d\<rparr>) = bfs_inv start dir b r st"
  by (simp_all add: bfs_inv_def)

lemma closed_path_mono: "closed_path r p \<Longrightarrow> r \<subseteq> r' \<Longrightarrow> closed_path r' p"
  by (auto simp: closed_path_def intro: rel_path_mono)

lemma chain_search_closed:
  assumes "\<forall>t s. dget parents t = Some s \<longrightarrow> (s, t) \<in> r"
    and "rchain \<noteq> []" and "rel_path r rchain" and "(last rchain, target) \<in> r"
    and "chain_search parents target n rchain = Some c"
  shows "closed_path r c"
  using assms
proof (induction parents target n rchain rule: chain_search.induct)
  case (1 parents target n rchain)
  obtain x xs where rc: "rchain = x # xs" using "1.prems"(2) by (cases rchain) auto
  obtain p where n: "length rchain \<le> n" and p: "dget parents x = Some p"
    using "1.prems"(5) rc by (subst (asm) chain_search.simps) (auto split: if_splits option.splits)
  have path: "rel_path r (p # rchain)"
    using p "1.prems"(1,3) rc by simp
  show ?case
  proof (cases "p = target")
    case True
    then have "c = (p # rchain) @ [target]"
      using "1.prems"(5) rc n p by (subst (asm) chain_search.simps) simp
    with path True "1.prems"(4) rc show ?thesis
      using rel_path_snoc [of r "p # x # xs" target] by (simp add: closed_path_def)
  next
    case False
    have "chain_search parents target n (p # rchain) = Some c"
      using "1.prems"(5) rc n p False by (subst (asm) chain_search.simps) simp
    with "1.IH" [OF n rc p False] "1.prems"(1,4) path rc show ?thesis by simp
  qed
qed

lemma bfs_inv_select:
  assumes inv: "bfs_inv start dir b r st" and e: "orient dir e \<in> r" and src: "fst (orient dir e) \<in> set (bf_seen st)"
    and room: "int (length (bf_selected st)) < bu_max_edges b"
  shows "bfs_inv start dir b r (st\<lparr>bf_selected := List.insert e (bf_selected st)\<rparr>)"
proof -
  let ?A = "orient dir ` set (bf_selected st)"
  have mono: "?A\<^sup>* \<subseteq> (insert (orient dir e) ?A)\<^sup>*" by (rule rtrancl_mono) auto
  have "closed_path (insert (orient dir e) ?A) p" if "closed_path ?A p" for p
    using that by (rule closed_path_mono) auto
  moreover have "set (bf_seen st) \<subseteq> (insert (orient dir e) ?A)\<^sup>* `` {start}"
    using inv mono by (auto simp: bfs_inv_def)
  ultimately show ?thesis
    using inv e src room unfolding bfs_inv_def by (auto simp: List.insert_def)
qed

lemma bfs_inv_cycle:
  assumes inv: "bfs_inv start dir b r st" and e: "(source, target) \<in> orient dir ` set (bf_selected st)"
    and c: "chain_search (bf_parents st) target n [source] = Some c"
  shows "bfs_inv start dir b r (st\<lparr>bf_cycle := c\<rparr>)"
proof -
  have "closed_path (orient dir ` set (bf_selected st)) c"
    using inv e by (intro chain_search_closed [OF _ _ _ _ c]) (auto simp: bfs_inv_def)
  with inv show ?thesis unfolding bfs_inv_def by auto
qed

lemma bfs_inv_discover:
  assumes inv: "bfs_inv start dir b r st" and e: "(source, target) \<in> orient dir ` set (bf_selected st)"
    and src: "source \<in> set (bf_seen st)" and new: "target \<notin> set (bf_seen st)"
    and room: "int (length (bf_seen st)) < bu_max_nodes b"
  shows "bfs_inv start dir b r
     (st\<lparr>bf_seen := bf_seen st @ [target], bf_parents := dput target source (bf_parents st),
         bf_nodes := bf_nodes st @ [target], bf_next := List.insert target (bf_next st)\<rparr>)"
proof -
  have "(start, source) \<in> (orient dir ` set (bf_selected st))\<^sup>*"
    using inv src by (auto simp: bfs_inv_def)
  then have "(start, target) \<in> (orient dir ` set (bf_selected st))\<^sup>*"
    using e by (rule rtrancl_into_rtrancl)
  with inv e new room show ?thesis unfolding bfs_inv_def by auto
qed

lemma edge_loop_inv:
  assumes "bfs_inv start dir b r st" and "set chunk \<subseteq> set (bf_seen st)"
    and "\<forall>e \<in> set es. fst (orient dir e) \<in> set chunk \<longrightarrow> orient dir e \<in> r"
  shows "bfs_inv start dir b r (edge_loop dir b chunk es st) \<and>
         set (bf_seen st) \<subseteq> set (bf_seen (edge_loop dir b chunk es st))"
  using assms
proof (induction es arbitrary: st)
  case (Cons e es)
  obtain u v where o: "orient dir e = (u, v)" by fastforce
  let ?st1 = "st\<lparr>bf_selected := List.insert e (bf_selected st)\<rparr>"
  show ?case
  proof (cases "u \<in> set chunk \<and> int (length (bf_selected st)) < bu_max_edges b")
    case False
    then consider "u \<notin> set chunk" | "u \<in> set chunk" "bu_max_edges b \<le> int (length (bf_selected st))"
      by linarith
    then show ?thesis
    proof cases
      case 1
      with o Cons show ?thesis by auto
    next
      case 2
      with o Cons.prems(1) show ?thesis by (auto simp: bfs_inv_def)
    qed
  next
    case True
    then have inv1: "bfs_inv start dir b r ?st1"
      using o Cons.prems by (intro bfs_inv_select) auto
    have edge: "(u, v) \<in> orient dir ` set (bf_selected ?st1)"
      using o by (auto simp: image_iff)
    have src: "u \<in> set (bf_seen ?st1)" using True Cons.prems(2) by auto
    show ?thesis
    proof (cases "v \<in> set (bf_seen st)")
      case seen: True
      show ?thesis
      proof (cases "chain_search (bf_parents ?st1) v (length (bf_seen ?st1)) [u]")
        case None
        with True o seen Cons.IH [OF inv1] Cons.prems show ?thesis by simp
      next
        case (Some c)
        with True o seen Cons.IH [OF bfs_inv_cycle [OF inv1 edge Some]] Cons.prems show ?thesis by simp
      qed
    next
      case new: False
      show ?thesis
      proof (cases "bu_max_nodes b \<le> int (length (bf_seen st))")
        case True
        with \<open>u \<in> set chunk \<and> _\<close> o new inv1 show ?thesis by simp
      next
        case False
        then have room: "int (length (bf_seen ?st1)) < bu_max_nodes b" by simp
        have new1: "v \<notin> set (bf_seen ?st1)" using new by simp
        from Cons.IH [OF bfs_inv_discover [OF inv1 edge src new1 room]] True o new False Cons.prems
        show ?thesis by (simp add: Let_def subset_insertI2)
      qed
    qed
  qed
qed simp

lemma edge_loop_frame:
  "bf_frontier (edge_loop dir b chunk es st) = bf_frontier st \<and> bf_queries (edge_loop dir b chunk es st) = bf_queries st \<and>
   set (bf_next st) \<subseteq> set (bf_next (edge_loop dir b chunk es st)) \<and>
   set (bf_seen st) \<subseteq> set (bf_seen (edge_loop dir b chunk es st)) \<and>
   set (bf_seen (edge_loop dir b chunk es st)) \<subseteq> set (bf_seen st) \<union> set (bf_next (edge_loop dir b chunk es st)) \<and>
   (bf_reason st \<noteq> None \<longrightarrow> bf_reason (edge_loop dir b chunk es st) \<noteq> None)"
proof (induction es arbitrary: st)
  case (Cons e es)
  obtain u v where o: "orient dir e = (u, v)" by fastforce
  let ?st1 = "st\<lparr>bf_selected := List.insert e (bf_selected st)\<rparr>"
  let ?st2 = "case chain_search (bf_parents ?st1) v (length (bf_seen ?st1)) [u] of
                  None \<Rightarrow> ?st1 | Some c \<Rightarrow> ?st1\<lparr>bf_cycle := c\<rparr>"
  let ?st3 = "?st1\<lparr>bf_seen := bf_seen ?st1 @ [v], bf_parents := dput v u (bf_parents ?st1),
                  bf_nodes := bf_nodes ?st1 @ [v], bf_next := List.insert v (bf_next ?st1)\<rparr>"
  have "bf_frontier ?st2 = bf_frontier st" "bf_queries ?st2 = bf_queries st" "bf_next ?st2 = bf_next st"
    "bf_seen ?st2 = bf_seen st" "bf_reason ?st2 = bf_reason st"
    by (auto split: option.split)
  with o Cons.IH [of st] Cons.IH [of ?st2] Cons.IH [of ?st3] show ?case
    by (auto simp: Let_def)
qed simp

lemma edge_loop_seen: "x \<in> set (bf_seen st) \<Longrightarrow> x \<in> set (bf_seen (edge_loop dir b chunk es st))"
  using edge_loop_frame [of dir b chunk es st] by blast

lemma edge_loop_selected:
  "e \<in> set (bf_selected st) \<Longrightarrow> e \<in> set (bf_selected (edge_loop dir b chunk es st))"
  by (induction es arbitrary: st) (auto simp: Let_def split: prod.split option.split)

lemma edge_loop_covers:
  assumes "bf_reason (edge_loop dir b chunk es st) = None" and "e \<in> set es"
    and "orient dir e = (u, v)" and "u \<in> set chunk"
  shows "v \<in> set (bf_seen (edge_loop dir b chunk es st)) \<and> e \<in> set (bf_selected (edge_loop dir b chunk es st))"
  using assms
proof (induction es arbitrary: st)
  case (Cons x es)
  obtain x1 x2 where x: "orient dir x = (x1, x2)" by fastforce
  show ?case
  proof (cases "x = e")
    case True
    with Cons.prems x show ?thesis
      by (auto simp: Let_def split: if_splits option.split intro!: edge_loop_seen edge_loop_selected)
  next
    case False
    with Cons x show ?thesis by (auto simp: Let_def split: if_splits)
  qed
qed simp

lemma set_chunk_list: "0 < n \<Longrightarrow> set (concat (chunk_list n xs)) = set xs"
proof (induction n xs rule: chunk_list.induct)
  case (1 n xs)
  show ?case
  proof (cases "xs = []")
    case False
    with 1 have "set (concat (chunk_list n xs)) = set (take n xs) \<union> set (drop n xs)"
      by (subst chunk_list.simps) simp
    also have "\<dots> = set xs" by (metis append_take_drop_id set_append)
    finally show ?thesis .
  qed (simp add: chunk_list.simps)
qed

lemma bfs_inv_query:
  assumes "bfs_inv start dir b r st" and "bf_queries st < bu_max_queries b"
  shows "bfs_inv start dir b r (st\<lparr>bf_ticks := n, bf_queries := bf_queries st + 1\<rparr>)"
  using assms unfolding bfs_inv_def by auto

text \<open>The arc is recorded and its target seen.\<close>

definition has_arc :: "direction \<Rightarrow> string \<Rightarrow> string \<Rightarrow> bfs \<Rightarrow> bool" where
  "has_arc dir u v st \<longleftrightarrow> v \<in> set (bf_seen st) \<and> (u, v) \<in> orient dir ` set (bf_selected st)"

lemma has_arc_mono:
  "has_arc dir u v st \<Longrightarrow> set (bf_seen st) \<subseteq> set (bf_seen st') \<Longrightarrow>
   set (bf_selected st) \<subseteq> set (bf_selected st') \<Longrightarrow> has_arc dir u v st'"
  unfolding has_arc_def by blast

lemma chunk_loop_inv:
  assumes "loader_sound loader dir r" and "bfs_inv start dir b r st" and "set (concat cs) \<subseteq> set (bf_seen st)"
  shows "bfs_inv start dir b r (chunk_loop readings t0 dir b loader cs st) \<and>
    bf_frontier (chunk_loop readings t0 dir b loader cs st) = bf_frontier st \<and>
    set (bf_next st) \<subseteq> set (bf_next (chunk_loop readings t0 dir b loader cs st)) \<and>
    set (bf_seen st) \<subseteq> set (bf_seen (chunk_loop readings t0 dir b loader cs st)) \<and>
    set (bf_seen (chunk_loop readings t0 dir b loader cs st)) \<subseteq>
      set (bf_seen st) \<union> set (bf_next (chunk_loop readings t0 dir b loader cs st)) \<and>
    set (bf_selected st) \<subseteq> set (bf_selected (chunk_loop readings t0 dir b loader cs st)) \<and>
    (loader_full loader dir r \<longrightarrow> bf_reason (chunk_loop readings t0 dir b loader cs st) = None \<longrightarrow>
       (\<forall>(u, v) \<in> r. u \<in> set (concat cs) \<longrightarrow> has_arc dir u v (chunk_loop readings t0 dir b loader cs st)))"
  using assms(2,3)
proof (induction cs arbitrary: st)
  case (Cons c cs)
  obtain es ok where l: "loader c dir = (es, ok)" by fastforce
  let ?st2 = "st\<lparr>bf_ticks := Suc (bf_ticks st), bf_queries := bf_queries st + 1\<rparr>"
  let ?st3 = "edge_loop dir b c (sorted_set es) ?st2"
  show ?case
  proof (cases "bf_queries st < bu_max_queries b \<and>
      (readings (bf_ticks st) - t0) * 1000 < rat_of_int (bu_timeout_ms b) \<and> ok")
    case False
    with l Cons.prems bfs_inv_query [OF Cons.prems(1)] show ?thesis
      by (auto simp: Let_def not_less)
  next
    case True
    then have inv2: "bfs_inv start dir b r ?st2"
      using Cons.prems(1) by (intro bfs_inv_query) auto
    have arcs: "\<forall>e \<in> set (sorted_set es). fst (orient dir e) \<in> set c \<longrightarrow> orient dir e \<in> r"
      using servesD1 [OF assms(1), of _ c] l by simp
    have sub: "set c \<subseteq> set (bf_seen ?st2)" using Cons.prems(2) by auto
    have inv3: "bfs_inv start dir b r ?st3" using edge_loop_inv [OF inv2 sub arcs] by simp
    note frame = edge_loop_frame [of dir b c "sorted_set es" ?st2]
    have sel: "set (bf_selected st) \<subseteq> set (bf_selected ?st3)"
      by (auto intro: edge_loop_selected)
    have covers: "has_arc dir u v ?st3" if none: "loader_full loader dir r" "bf_reason ?st3 = None" and arc: "(u, v) \<in> r" "u \<in> set c" for u v
    proof -
      obtain e where "e \<in> set es" "orient dir e = (u, v)"
        using servesD2 [OF none(1) _ arc] l True by auto
      then show ?thesis
        using edge_loop_covers [OF none(2), of e u v] arc(2) by (force simp: has_arc_def)
    qed
    show ?thesis
    proof (cases "bf_reason ?st3")
      case None
      have "set (concat cs) \<subseteq> set (bf_seen ?st3)"
        using Cons.prems(2) frame by auto
      note IH = Cons.IH [OF inv3 this]
      have eq: "chunk_loop readings t0 dir b loader (c # cs) st = chunk_loop readings t0 dir b loader cs ?st3"
        using True l None by (simp add: Let_def not_le)
      have "has_arc dir u v (chunk_loop readings t0 dir b loader cs ?st3)" if "loader_full loader dir r" "(u, v) \<in> r" "u \<in> set c" for u v
        using covers [OF that(1) None that(2,3)] IH by (blast intro: has_arc_mono)
      then show ?thesis
        unfolding eq using IH frame sel by auto
    next
      case (Some x)
      then have eq: "chunk_loop readings t0 dir b loader (c # cs) st = ?st3"
        using True l by (simp add: Let_def not_le)
      show ?thesis
        unfolding eq using inv3 frame Some sel by simp
    qed
  qed
qed simp

section \<open>The whole traversal\<close>

definition explored :: "direction \<Rightarrow> (string \<times> string) set \<Rightarrow> bfs \<Rightarrow> bool" where
  "explored dir r st \<longleftrightarrow>
     (\<forall>u v. (u, v) \<in> r \<longrightarrow> u \<in> set (bf_seen st) \<longrightarrow> u \<in> set (bf_frontier st) \<or> has_arc dir u v st)"

lemma bfs_inv_frontier:
  "bfs_inv start dir b r st \<Longrightarrow> set xs \<subseteq> set (bf_seen st) \<Longrightarrow> bfs_inv start dir b r (st\<lparr>bf_frontier := xs\<rparr>)"
  "bfs_inv start dir b r st \<Longrightarrow> set xs \<subseteq> set (bf_seen st) \<Longrightarrow> bfs_inv start dir b r (st\<lparr>bf_next := xs\<rparr>)"
  unfolding bfs_inv_def by auto

lemma bfs_loop_inv:
  assumes "loader_sound loader dir r" and "0 < bu_max_terms_per_query b"
    and "bfs_inv start dir b r st" and "loader_full loader dir r \<longrightarrow> explored dir r st" and "bf_reason st = None"
    and "bf_depth st \<le> max 0 (bu_max_depth b)"
  shows "bfs_inv start dir b r (bfs_loop readings t0 dir b loader st) \<and>
    bf_depth (bfs_loop readings t0 dir b loader st) \<le> max 0 (bu_max_depth b) \<and>
    (bf_reason (bfs_loop readings t0 dir b loader st) = None \<longrightarrow>
       (loader_full loader dir r \<longrightarrow> explored dir r (bfs_loop readings t0 dir b loader st)) \<and>
       (bf_frontier (bfs_loop readings t0 dir b loader st) = [] \<or>
        bu_max_depth b \<le> bf_depth (bfs_loop readings t0 dir b loader st)))"
  using assms
proof (induction readings t0 dir b loader st rule: bfs_loop.induct)
  case (1 readings t0 dir b loader st)
  show ?case
  proof (cases "bf_frontier st \<noteq> [] \<and> bf_depth st < bu_max_depth b")
    case False
    then show ?thesis
      using "1.prems" by (subst (1 2 3 4 5 6) bfs_loop.simps) auto
  next
    case True
    let ?cs = "chunk_list (nat (bu_max_terms_per_query b)) (bf_frontier st)"
    let ?st1 = "chunk_loop readings t0 dir b loader ?cs (st\<lparr>bf_next := []\<rparr>)"
    let ?st2 = "?st1\<lparr>bf_depth := bf_depth ?st1 + 1\<rparr>"
    let ?st3 = "?st2\<lparr>bf_frontier := sort (bf_next ?st2)\<rparr>"
    have cs: "set (concat ?cs) = set (bf_frontier st)"
      using "1.prems"(2) by (simp add: set_chunk_list del: set_concat)
    have inv0: "bfs_inv start dir b r (st\<lparr>bf_next := []\<rparr>)"
      using "1.prems"(3) by (rule bfs_inv_frontier) simp
    have sub: "set (concat ?cs) \<subseteq> set (bf_seen (st\<lparr>bf_next := []\<rparr>))"
      unfolding cs using "1.prems"(3) by (auto simp: bfs_inv_def)
    note ch = chunk_loop_inv [OF "1.prems"(1) inv0 sub, of readings t0]
    have eq: "bfs_loop readings t0 dir b loader st =
        (if bf_reason ?st2 \<noteq> None then ?st2 else bfs_loop readings t0 dir b loader ?st3)"
      using True by (subst bfs_loop.simps) (simp add: Let_def)
    show ?thesis
    proof (cases "bf_reason ?st1")
      case (Some x)
      with eq ch True show ?thesis by auto
    next
      case None
      have inv1: "bfs_inv start dir b r ?st1" using ch by simp
      then have "set (bf_next ?st1) \<subseteq> set (bf_seen ?st1)" unfolding bfs_inv_def by blast
      with inv1 have inv3: "bfs_inv start dir b r ?st3"
        by (intro bfs_inv_frontier(1)) simp_all
      have ex3: "loader_full loader dir r \<longrightarrow> explored dir r ?st3"
        unfolding explored_def
      proof (intro allI impI)
        fix u v assume full: "loader_full loader dir r" and uv: "(u, v) \<in> r" and "u \<in> set (bf_seen ?st3)"
        then consider "u \<in> set (bf_next ?st1)" | "u \<in> set (bf_frontier st)"
          | "u \<in> set (bf_seen st)" "u \<notin> set (bf_frontier st)"
          using ch by auto
        then show "u \<in> set (bf_frontier ?st3) \<or> has_arc dir u v ?st3"
        proof cases
          case 2
          then have "u \<in> set (concat ?cs)" unfolding cs .
          then show ?thesis using ch full None uv by (auto simp: has_arc_def)
        next
          case 3
          then have "has_arc dir u v st" using "1.prems"(4) full uv by (auto simp: explored_def)
          then have "has_arc dir u v ?st1" using ch by (auto intro: has_arc_mono)
          then show ?thesis by (simp add: has_arc_def)
        qed simp
      qed
      have "bf_reason ?st3 = None" "bf_depth ?st3 \<le> max 0 (bu_max_depth b)"
        using None True by auto
      with "1.IH" [OF True refl refl] None "1.prems"(1,2) inv3 ex3 show ?thesis
        unfolding eq by simp
    qed
  qed
qed

lemma explored_reach:
  assumes "explored dir r st" and "bf_frontier st = []" and "x \<in> set (bf_seen st)" and "(x, y) \<in> r\<^sup>*"
  shows "y \<in> set (bf_seen st)"
  using assms(4,1-3) by (induction rule: rtrancl_induct) (auto simp: explored_def has_arc_def)

text \<open>The state at the end of the traversal, and what the result takes from it.\<close>

definition final_bfs :: "(nat \<Rightarrow> rat) \<Rightarrow> nat \<Rightarrow> string \<Rightarrow> direction \<Rightarrow> budget \<Rightarrow> frontier_loader \<Rightarrow> bfs" where
  "final_bfs readings tick start dir b loader =
     bfs_finish b (bfs_loop readings (readings tick) dir b loader (bfs_start start (Suc tick)))"

lemma final_bfs_inv:
  fixes readings :: "nat \<Rightarrow> rat" and tick start dir b loader
  defines "st \<equiv> final_bfs readings tick start dir b loader"
  assumes "loader_sound loader dir r" and "0 < bu_max_terms_per_query b"
  shows "bfs_inv start dir b r st"
    and "bf_depth st \<le> max 0 (bu_max_depth b)"
    and "loader_full loader dir r \<Longrightarrow> bf_reason st = None \<Longrightarrow> explored dir r st \<and> bf_frontier st = []"
proof -
  let ?l = "bfs_loop readings (readings tick) dir b loader (bfs_start start (Suc tick))"
  have "bfs_inv start dir b r (bfs_start start (Suc tick))"
    "loader_full loader dir r \<longrightarrow> explored dir r (bfs_start start (Suc tick))"
    by (auto simp: bfs_inv_def explored_def bfs_start_def)
  note l = bfs_loop_inv [OF assms(2,3) this, of readings "readings tick"]
  have l2: "bfs_inv start dir b r ?l" "bf_depth ?l \<le> max 0 (bu_max_depth b)"
    "bf_reason ?l = None \<Longrightarrow> (loader_full loader dir r \<longrightarrow> explored dir r ?l) \<and>
       (bf_frontier ?l = [] \<or> bu_max_depth b \<le> bf_depth ?l)"
    using l by (auto simp: bfs_start_def)
  show "bfs_inv start dir b r st" "bf_depth st \<le> max 0 (bu_max_depth b)"
    using l2 by (simp_all add: st_def final_bfs_def bfs_finish_def)
  show "explored dir r st \<and> bf_frontier st = []" if "loader_full loader dir r" "bf_reason st = None"
    using l2 that by (auto simp: st_def final_bfs_def bfs_finish_def split: if_splits)
qed

lemma traverse_frontiers_fields:
  fixes readings :: "nat \<Rightarrow> rat" and tick start dir b loader
  defines "st \<equiv> final_bfs readings tick start dir b loader"
    and "g \<equiv> fst (traverse_frontiers readings tick start dir b loader)"
  shows "dg_nodes g = bf_nodes st" and "dg_truncated g = (bf_reason st \<noteq> None)"
    and "set (dg_edges g) = set (bf_selected st)" and "length (dg_edges g) = length (bf_selected st)"
    and "dg_cycle_path g = bf_cycle st"
    and "\<exists>t. dg_stats g = Some \<lparr>ts_depth_reached = bf_depth st, ts_visited_count = int (length (bf_seen st)),
           ts_edge_count = int (length (bf_selected st)), ts_query_count = bf_queries st,
           ts_page_count = bf_queries st, ts_elapsed_ms = t, ts_truncated = (bf_reason st \<noteq> None),
           ts_truncation_reason = bf_reason st\<rparr>"
  by (simp_all add: g_def st_def final_bfs_def traverse_frontiers_def Let_def)

lemma budget_positive:
  assumes "budget_post_init b = Inr b"
  shows "0 < bu_max_terms_per_query b" "0 < bu_max_nodes b" "0 < bu_max_edges b" "0 < bu_max_queries b"
    "0 < bu_max_depth b"
  using assms by (auto simp: budget_post_init_def budget_values_def split: if_splits)

lemma traversal_reaches:
  assumes r: "serves loader dir r" and b: "budget_post_init b = Inr b"
    and g: "fst (traverse_frontiers readings tick start dir b loader) = g"
  shows "set (dg_nodes g) \<subseteq> r\<^sup>* `` {start} \<and> distinct (start # dg_nodes g) \<and>
         orient dir ` set (dg_edges g) \<subseteq> r \<and>
         (\<not> dg_truncated g \<longrightarrow>
            insert start (set (dg_nodes g)) = r\<^sup>* `` {start} \<and>
            orient dir ` set (dg_edges g) = {(u, v) \<in> r. (start, u) \<in> r\<^sup>*})"
proof -
  let ?st = "final_bfs readings tick start dir b loader"
  let ?A = "orient dir ` set (bf_selected ?st)"
  have sound: "loader_sound loader dir r" and full: "loader_full loader dir r"
    using r by (simp_all add: serves_def)
  note inv = final_bfs_inv [OF sound budget_positive(1) [OF b], where readings = readings and tick = tick and start = start]
  note f = traverse_frontiers_fields [of readings tick start dir b loader, unfolded g]
  have seen: "bf_seen ?st = start # bf_nodes ?st" "distinct (bf_seen ?st)" and arcs: "?A \<subseteq> r"
    and reach: "set (bf_seen ?st) \<subseteq> ?A\<^sup>* `` {start}"
    and src: "\<forall>e \<in> set (bf_selected ?st). fst (orient dir e) \<in> set (bf_seen ?st)"
    using inv(1) unfolding bfs_inv_def by blast+
  have sub: "set (bf_seen ?st) \<subseteq> r\<^sup>* `` {start}"
    using reach rtrancl_mono [OF arcs] by blast
  have "set (bf_seen ?st) = r\<^sup>* `` {start} \<and> ?A = {(u, v) \<in> r. (start, u) \<in> r\<^sup>*}" if "\<not> dg_truncated g"
  proof -
    have e: "explored dir r ?st" "bf_frontier ?st = []" using inv(3) [OF full] f(2) that by auto
    have start: "start \<in> set (bf_seen ?st)" using seen(1) by simp
    have all: "y \<in> set (bf_seen ?st)" if "(start, y) \<in> r\<^sup>*" for y
      using explored_reach [OF e start that] .
    have "(u, v) \<in> ?A" if "(u, v) \<in> r" "(start, u) \<in> r\<^sup>*" for u v
      using e all [OF that(2)] that(1) by (auto simp: explored_def has_arc_def)
    moreover have "(u, v) \<in> r \<and> (start, u) \<in> r\<^sup>*" if "(u, v) \<in> ?A" for u v
    proof -
      obtain e where "e \<in> set (bf_selected ?st)" "orient dir e = (u, v)" using \<open>(u, v) \<in> ?A\<close> by auto
      then have "u \<in> set (bf_seen ?st)" using src by force
      then show ?thesis using that arcs sub by blast
    qed
    ultimately show ?thesis using all sub by blast
  qed
  moreover have "set (bf_seen ?st) = insert start (set (dg_nodes g))" "distinct (start # dg_nodes g)"
    using seen f(1) by simp_all
  ultimately show ?thesis using sub arcs f(3) by auto
qed

section \<open>Validation of a replacement\<close>

text \<open>The dependency relation once the product's outgoing arcs are replaced.\<close>

definition replaced_rel :: "string \<Rightarrow> string list \<Rightarrow> (string \<times> string) set \<Rightarrow> (string \<times> string) set" where
  "replaced_rel p ups r = {(p, u) | u. u \<in> set ups} \<union> {(u, v) \<in> r. u \<noteq> p}"

lemma orient_Upstream [simp]: "orient Upstream ` A = A"
  by (simp add: orient_def)

lemma validation_loop_edges:
  assumes "serves loader Upstream r" and "budget_post_init b = Inr b"
    and "validation_loop readings tick b loader ups edges visited q = Inr (edges', visited', q')"
  shows "set edges' = set edges \<union> {(x, y) \<in> r. \<exists>u \<in> set ups. (u, x) \<in> r\<^sup>*}"
  using assms(3)
proof (induction ups arbitrary: tick edges visited q)
  case (Cons u ups)
  obtain g t1 where g: "traverse_frontiers readings tick u Upstream b loader = (g, t1)" by fastforce
  have "\<not> dg_truncated g"
    using Cons.prems g by (auto simp: Let_def split: if_splits)
  then have "set (dg_edges g) = {(x, y) \<in> r. (u, x) \<in> r\<^sup>*}"
    using traversal_reaches [OF assms(1,2), of readings tick u g] g by simp
  with Cons.IH [of t1] Cons.prems g \<open>\<not> dg_truncated g\<close> show ?case
    by (auto simp: Let_def)
qed simp

lemma closed_path_into:
  assumes "closed_path r path" and "x \<in> set path"
  shows "\<exists>w. (w, x) \<in> r"
proof -
  have into: "rel_path r (a # p) \<Longrightarrow> x \<in> set p \<Longrightarrow> \<exists>w. (w, x) \<in> r" for a p
    by (induction p arbitrary: a) auto
  obtain a p where p: "path = a # p" "p \<noteq> []" "a = last p" "rel_path r (a # p)"
    using assms(1) by (cases path) (auto simp: closed_path_def split: if_splits)
  with assms(2) have "x \<in> set p" by auto
  with p(4) show ?thesis by (rule into)
qed

lemma rel_path_restrict: "rel_path r p \<Longrightarrow> rel_path {(u, v) \<in> r. u \<in> set p \<and> v \<in> set p} p"
proof (induction r p rule: rel_path.induct)
  case (3 r x y zs)
  then have "rel_path {(u, v) \<in> r. u \<in> set (y # zs) \<and> v \<in> set (y # zs)} (y # zs)" by simp
  then have "rel_path {(u, v) \<in> r. u \<in> set (x # y # zs) \<and> v \<in> set (x # y # zs)} (y # zs)"
    by (rule rel_path_mono) auto
  with 3 show ?case by simp
qed auto

lemma replaced_reach:
  assumes "(x, p) \<in> (replaced_rel p ups r)\<^sup>*" and "\<exists>u \<in> set ups. (u, x) \<in> r\<^sup>*"
  shows "(x, p) \<in> ({(p, u) | u. u \<in> set ups} \<union> {(x, y) \<in> r. \<exists>u \<in> set ups. (u, x) \<in> r\<^sup>*})\<^sup>*"
  using assms
proof (induction rule: converse_rtrancl_induct)
  case (step x y)
  let ?C = "{(p, u) | u. u \<in> set ups} \<union> {(x, y) \<in> r. \<exists>u \<in> set ups. (u, x) \<in> r\<^sup>*}"
  show ?case
  proof (cases "x = p")
    case False
    then have "(x, y) \<in> r" using step.hyps(1) by (auto simp: replaced_rel_def)
    with step.prems have "(x, y) \<in> ?C" "\<exists>u \<in> set ups. (u, y) \<in> r\<^sup>*"
      by (auto intro: rtrancl_into_rtrancl)
    with step.IH show ?thesis by (blast intro: converse_rtrancl_into_rtrancl)
  qed simp
qed simp

lemma reach_replaced: "(x, p) \<in> r\<^sup>* \<Longrightarrow> (x, p) \<in> (replaced_rel p ups r)\<^sup>*"
proof (induction rule: converse_rtrancl_induct)
  case (step x y)
  show ?case
  proof (cases "x = p")
    case False
    with step have "(x, y) \<in> replaced_rel p ups r" by (simp add: replaced_rel_def)
    then show ?thesis using step.IH by (rule converse_rtrancl_into_rtrancl)
  qed simp
qed simp

lemma replacement_cycle_iff:
  fixes p :: string and ups r
  defines "C \<equiv> {(p, u) | u. u \<in> set ups} \<union> {(x, y) \<in> r. \<exists>u \<in> set ups. (u, x) \<in> r\<^sup>*}"
  assumes own: "acyclic {(u, v) \<in> r. u \<noteq> p \<and> v \<noteq> p}" and es: "set es = C"
  shows "p \<in> set (find_cycle_path (build_adjacency es)) \<longleftrightarrow> (p, p) \<in> (replaced_rel p ups r)\<^sup>+"
proof
  let ?path = "find_cycle_path (build_adjacency es)"
  assume p: "p \<in> set ?path"
  then have "closed_path C ?path"
    using find_cycle_path_sound [of "build_adjacency es"] es by (cases ?path) auto
  then obtain w where "(w, p) \<in> C" using p by (meson closed_path_into)
  then have "\<exists>u \<in> set ups. (u, p) \<in> r\<^sup>*"
    unfolding C_def by (auto intro: rtrancl_into_rtrancl)
  then obtain u where "u \<in> set ups" "(u, p) \<in> (replaced_rel p ups r)\<^sup>*" by (blast intro: reach_replaced)
  moreover from this have "(p, u) \<in> replaced_rel p ups r" by (simp add: replaced_rel_def)
  ultimately show "(p, p) \<in> (replaced_rel p ups r)\<^sup>+" by (blast intro: rtrancl_into_trancl2)
next
  let ?path = "find_cycle_path (build_adjacency es)"
  assume "(p, p) \<in> (replaced_rel p ups r)\<^sup>+"
  then obtain u where u: "(p, u) \<in> replaced_rel p ups r" "(u, p) \<in> (replaced_rel p ups r)\<^sup>*"
    by (meson tranclD)
  then have up: "u \<in> set ups" by (auto simp: replaced_rel_def)
  then have "(u, p) \<in> C\<^sup>*" using replaced_reach [OF u(2)] unfolding C_def by blast
  moreover have "(p, u) \<in> C" using up by (simp add: C_def)
  ultimately have "(p, p) \<in> C\<^sup>+" by (blast intro: rtrancl_into_trancl2)
  then have "?path \<noteq> []"
    using find_cycle_path_acyclic [of "build_adjacency es"] es by (auto simp: acyclic_def)
  then have cl: "closed_path C ?path"
    using find_cycle_path_sound [of "build_adjacency es"] es by simp
  show "p \<in> set ?path"
  proof (rule ccontr)
    assume np: "p \<notin> set ?path"
    have "{(x, y) \<in> C. x \<in> set ?path \<and> y \<in> set ?path} \<subseteq> {(u, v) \<in> r. u \<noteq> p \<and> v \<noteq> p}"
      using np by (auto simp: C_def)
    then have "closed_path {(u, v) \<in> r. u \<noteq> p \<and> v \<noteq> p} ?path"
      using cl rel_path_mono [OF rel_path_restrict [of C ?path]] by (simp add: closed_path_def)
    from closed_path_trancl [OF this hd_in_set [OF \<open>?path \<noteq> []\<close>]] own show False
      unfolding acyclic_def by blast
  qed
qed

section \<open>Properties\<close>

text \<open>
  C32. The cycle search decides: on the adjacency of any edges it returns no path exactly when the
  edges are acyclic, and a path it returns starts and ends at one node and follows the edges. (The
  search is total: every recursive call adds a node to the active path.)
\<close>

theorem cycle_search_decides:
  "case find_cycle_path (build_adjacency es) of
     [] \<Rightarrow> acyclic (set es)
   | x # p \<Rightarrow> closed_path (set es) (x # p)"
  using find_cycle_path_acyclic [of "build_adjacency es"] find_cycle_path_sound [of "build_adjacency es"]
  by (cases "find_cycle_path (build_adjacency es)") simp_all

text \<open>
  The result does not depend on the order, or the repetition, in which the edges are handed
  over: a set of edges always gives the same cycle path, whatever order Python iterates the set in.
\<close>

theorem cycle_path_deterministic:
  assumes "set es = set es'"
  shows "find_cycle_path (build_adjacency es) = find_cycle_path (build_adjacency es')"
  using assms by (rule find_cycle_path_order)

theorem cycle_path_deterministic_witness:
  "find_cycle_path (build_adjacency [(''b'', ''c''), (''a'', ''b''), (''c'', ''a'')]) = [''a'', ''b'', ''c'', ''a'']"
  using cycle_path_deterministic [of "[(''b'', ''c''), (''a'', ''b''), (''c'', ''a'')]"
      "[(''a'', ''b''), (''b'', ''c''), (''c'', ''a'')]"] by code_simp

text \<open>
  The traversal respects every budget: nodes (the start included), edges, queries and depth
  stay within their maxima, whatever the loader answers, and the reported counts are the real ones.
\<close>

theorem traversal_within_budget:
  assumes b: "budget_post_init b = Inr b" and g: "fst (traverse_frontiers readings tick start dir b loader) = g"
  shows "\<exists>x. dg_stats g = Some x \<and>
     ts_visited_count x = int (length (dg_nodes g)) + 1 \<and> ts_visited_count x \<le> bu_max_nodes b \<and>
     ts_edge_count x = int (length (dg_edges g)) \<and> ts_edge_count x \<le> bu_max_edges b \<and>
     0 \<le> ts_query_count x \<and> ts_query_count x \<le> bu_max_queries b \<and>
     ts_depth_reached x \<le> bu_max_depth b \<and> (dg_truncated g \<longleftrightarrow> ts_truncation_reason x \<noteq> None)"
proof -
  let ?st = "final_bfs readings tick start dir b loader"
  note inv = final_bfs_inv [OF loader_sound_UNIV budget_positive(1) [OF b], where readings = readings and tick = tick and start = start and dir = dir and loader = loader]
  have "bf_seen ?st = start # bf_nodes ?st" "int (length (bf_seen ?st)) \<le> max 1 (bu_max_nodes b)"
    "int (length (bf_selected ?st)) \<le> max 0 (bu_max_edges b)" "0 \<le> bf_queries ?st"
    "bf_queries ?st \<le> max 0 (bu_max_queries b)"
    using inv(1) unfolding bfs_inv_def by blast+
  with inv(2) budget_positive [OF b] traverse_frontiers_fields [of readings tick start dir b loader]
  show ?thesis unfolding g [symmetric] by auto
qed

theorem traversal_within_budget_witness:
  "\<exists>x. dg_stats (fst (traverse_frontiers (\<lambda>_. 0) 0 ''a'' Upstream (default_budget\<lparr>bu_max_nodes := 2\<rparr>)
       (adjacency_loader [(''a'', [''b'', ''c'']), (''b'', []), (''c'', [])]))) = Some x \<and> ts_visited_count x \<le> 2"
  using traversal_within_budget [of "default_budget\<lparr>bu_max_nodes := 2\<rparr>" "\<lambda>_. 0" 0 "''a''" Upstream
      "adjacency_loader [(''a'', [''b'', ''c'']), (''b'', []), (''c'', [])]"]
  by (auto simp: budget_post_init_def budget_values_def default_budget_def)

text \<open>
  C33. The traversal is exact: over a loader that serves the relation \<open>r\<close>, every node it reports is
  reachable from the start, no node is reported twice, every edge it reports is an arc of \<open>r\<close>, and
  when the result is not marked truncated the nodes are all the nodes reachable from the start and
  the edges are all the arcs leaving them.
\<close>

theorem traversal_exact:
  assumes "serves loader dir r" and "budget_post_init b = Inr b"
    and "fst (traverse_frontiers readings tick start dir b loader) = g"
  shows "set (dg_nodes g) \<subseteq> r\<^sup>* `` {start} \<and> distinct (start # dg_nodes g) \<and>
         orient dir ` set (dg_edges g) \<subseteq> r \<and>
         (\<not> dg_truncated g \<longrightarrow>
            insert start (set (dg_nodes g)) = r\<^sup>* `` {start} \<and>
            orient dir ` set (dg_edges g) = {(u, v) \<in> r. (start, u) \<in> r\<^sup>*})"
  using assms by (rule traversal_reaches)

theorem traversal_exact_witness:
  "insert ''a'' (set (dg_nodes (fst (traverse_frontiers (\<lambda>_. 0) 0 ''a'' Upstream default_budget
       (adjacency_loader [(''a'', [''b'']), (''b'', [''a'', ''c'']), (''d'', [])])))))
   = (dep_rel [(''a'', [''b'']), (''b'', [''a'', ''c'']), (''d'', [])])\<^sup>* `` {''a''}"
proof -
  have "\<not> dg_truncated (fst (traverse_frontiers (\<lambda>_. 0) 0 ''a'' Upstream default_budget
       (adjacency_loader [(''a'', [''b'']), (''b'', [''a'', ''c'']), (''d'', [])])))"
    by code_simp
  then show ?thesis
    using traversal_exact [OF adjacency_loader_serves [of "[(''a'', [''b'']), (''b'', [''a'', ''c'']), (''d'', [])]"],
        of default_budget "\<lambda>_. 0" 0 "''a''"]
    by (simp add: budget_post_init_def budget_values_def default_budget_def)
qed

text \<open>
  A cycle the traversal reports is one: the path starts and ends at the same node and each of
  its steps is an edge the traversal reports.
\<close>

theorem traversal_cycle_is_closed:
  assumes "budget_post_init b = Inr b" and g: "fst (traverse_frontiers readings tick start dir b loader) = g"
    and "dg_cycle_path g \<noteq> []"
  shows "closed_path (orient dir ` set (dg_edges g)) (dg_cycle_path g)"
proof -
  have "bfs_inv start dir b UNIV (final_bfs readings tick start dir b loader)"
    using final_bfs_inv(1) [OF loader_sound_UNIV budget_positive(1) [OF assms(1)]] .
  then show ?thesis
    using traverse_frontiers_fields(3,5) [of readings tick start dir b loader] assms(3)
    unfolding g [symmetric] bfs_inv_def by auto
qed

theorem traversal_cycle_is_closed_witness:
  "closed_path (orient Upstream ` set (dg_edges (fst (traverse_frontiers (\<lambda>_. 0) 0 ''a'' Upstream default_budget
       (adjacency_loader [(''a'', [''b'']), (''b'', [''a''])]))))) [''a'', ''b'', ''a'']"
proof -
  have "dg_cycle_path (fst (traverse_frontiers (\<lambda>_. 0) 0 ''a'' Upstream default_budget
       (adjacency_loader [(''a'', [''b'']), (''b'', [''a''])]))) = [''a'', ''b'', ''a'']"
    by code_simp
  then show ?thesis
    using traversal_cycle_is_closed [of default_budget "\<lambda>_. 0" 0 "''a''" Upstream
        "adjacency_loader [(''a'', [''b'']), (''b'', [''a''])]"]
    by (simp add: budget_post_init_def budget_values_def default_budget_def)
qed

text \<open>
  C34. The validation of a dependency replacement is exact where the rest of the graph has no cycle
  of its own: over a loader that serves the stored dependencies, a result that is not truncated says
  "cycle" exactly when the product lies on a cycle once its outgoing dependencies are replaced by
  the proposed ones; a truncated result never says "cycle".
\<close>

theorem replacement_validation_exact:
  assumes "serves loader Upstream r" and "budget_post_init b = Inr b"
    and "acyclic {(u, v) \<in> r. u \<noteq> p \<and> v \<noteq> p}"
    and v: "validate_dependency_replacement_cycle readings tick p ups b loader = v"
  shows "(if cv_truncated v then \<not> cv_cycle_detected v
          else cv_cycle_detected v \<longleftrightarrow> (p, p) \<in> (replaced_rel p ups r)\<^sup>+) \<and>
         (cv_cycle_detected v \<longleftrightarrow> p \<in> set (cv_cycle_path v))"
proof (cases "validation_loop readings tick b loader (sorted_set ups) (remdups (map (\<lambda>up. (p, up)) ups)) [p] 0")
  case (Inl w)
  have "validation_loop readings tick b loader us edges visited q = Inl w \<Longrightarrow>
      cv_truncated w \<and> \<not> cv_cycle_detected w \<and> cv_cycle_path w = []" for us edges visited q tick
    by (induction us arbitrary: tick edges visited q) (auto simp: Let_def split: prod.splits if_splits)
  with Inl v show ?thesis by (auto simp: validate_dependency_replacement_cycle_def)
next
  case (Inr z)
  obtain es vis q where z: "z = (es, vis, q)" by (cases z)
  have "set es = {(p, u) | u. u \<in> set ups} \<union> {(x, y) \<in> r. \<exists>u \<in> set ups. (u, x) \<in> r\<^sup>*}"
    using validation_loop_edges [OF assms(1,2) Inr [unfolded z]] by auto
  note iff = replacement_cycle_iff [OF assms(3) this]
  show ?thesis
    using v Inr iff by (auto simp: validate_dependency_replacement_cycle_def z Let_def)
qed

theorem replacement_validation_exact_witness:
  "(''p'', ''p'') \<in> (replaced_rel ''p'' [''a''] (dep_rel [(''a'', [''b'']), (''b'', [''p''])]))\<^sup>+"
proof -
  let ?g = "[(''a'', [''b'']), (''b'', [''p''])]"
  let ?v = "validate_dependency_replacement_cycle (\<lambda>_. 0) 0 ''p'' [''a''] default_budget (adjacency_loader ?g)"
  have "{(u, v) \<in> dep_rel ?g. u \<noteq> ''p'' \<and> v \<noteq> ''p''} = {(''a'', ''b'')}"
    by (auto simp: dep_rel_def children_def sorted_set_def split: if_splits)
  then have "acyclic {(u, v) \<in> dep_rel ?g. u \<noteq> ''p'' \<and> v \<noteq> ''p''}"
    by (auto simp: acyclic_def dest: tranclD tranclD2)
  moreover have "\<not> cv_truncated ?v" "cv_cycle_detected ?v" by code_simp+
  moreover have "budget_post_init default_budget = Inr default_budget" by code_simp
  ultimately show ?thesis
    using replacement_validation_exact [OF adjacency_loader_serves [of ?g], of default_budget "''p''" "\<lambda>_. 0" 0 "[''a'']"]
    by simp
qed

text \<open>
  Without that assumption the validation is not fail-closed: a cycle elsewhere hides the
  product's own. With stored dependencies \<open>a \<rightarrow> b\<close>, \<open>a \<rightarrow> z\<close> and \<open>b \<rightarrow> a\<close>, proposing \<open>a\<close> as an
  upstream of \<open>z\<close> closes the cycle \<open>z, a, z\<close>, and the validation reports no cycle and no truncation.
\<close>

theorem replacement_validation_misses_cycle:
  "let v = validate_dependency_replacement_cycle (\<lambda>_. 0) 0 ''z'' [''a''] default_budget
             (adjacency_loader [(''a'', [''b'', ''z'']), (''b'', [''a''])])
   in \<not> cv_cycle_detected v \<and> \<not> cv_truncated v \<and>
      closed_path (replaced_rel ''z'' [''a''] (dep_rel [(''a'', [''b'', ''z'']), (''b'', [''a''])])) [''z'', ''a'', ''z'']"
proof -
  let ?v = "validate_dependency_replacement_cycle (\<lambda>_. 0) 0 ''z'' [''a''] default_budget
             (adjacency_loader [(''a'', [''b'', ''z'']), (''b'', [''a''])])"
  have "\<not> cv_cycle_detected ?v" "\<not> cv_truncated ?v" by code_simp+
  moreover have "''z'' \<in> set (children [(''a'', [''b'', ''z'']), (''b'', [''a''])] ''a'')" by code_simp
  ultimately show ?thesis by (simp add: closed_path_def replaced_rel_def dep_rel_def)
qed

end
