(* ===== verification/ServiceLimits.thy ===== *)
theory ServiceLimits
  imports ServiceEvolution
begin

text \<open>
  Behaviour of the services at their limits, on concrete repositories: what they accept or refuse
  although the surrounding documentation suggests otherwise.
\<close>

definition half_loop_repo :: repo where
  "half_loop_repo = products_repo [(''a'', [''b'']), (''b'', [])]"

text \<open>
  The cycle check of \<open>replace_declared_dependencies\<close> reads the edges of the product itself only and then
  leaves them out, so products may come to depend on each other: with \<open>a\<close> depending on \<open>b\<close>, the
  replacement of the dependencies of \<open>b\<close> by \<open>a\<close> is accepted and stored.
\<close>

theorem mutual_dependencies_accepted:
  "case replace_declared_dependencies sample_rt ''t'' ''e'' ''b'' [''a''] ''tag'' ''x'' ''r'' ''k'' half_loop_repo of
     (Inr r, s) \<Rightarrow> map ed_upstream_product_id (dm_dependencies r) = [''a''] \<and>
       map_option upstreams (dget (rp_items s) (''t'', ''e'', ''a'')) = Some [''b''] \<and>
       map_option upstreams (dget (rp_items s) (''t'', ''e'', ''b'')) = Some [''a'']
   | _ \<Rightarrow> False"
  by code_simp

text \<open>
  An exclusion that failed because its membership is missing cannot be retried under its key: the
  pending decision it left behind carries the instant of the first attempt.
\<close>

theorem failed_exclusion_is_not_retryable:
  "fst (exclude_member sample_rt ''t'' ''e'' ''p'' ''m'' ''actor'' ''reason'' ''k1'' ''tag'' empty_repo) = Inl (KeyError ''m'') \<and>
   fst (exclude_member sample_rt ''t'' ''e'' ''p'' ''m'' ''actor'' ''reason'' ''k1'' ''tag'' attempted_repo) =
     Inl (ProductConsistencyError ''divergent decision replay'')"
  by code_simp

end
