(* ===== verification/Base64.thy ===== *)
theory Base64
  imports Prelude
begin

text \<open>
  The base64 functions the cursors use, over byte strings (a \<open>char\<close> is a byte):
  \<open>base64.urlsafe_b64encode\<close> and \<open>base64.urlsafe_b64decode\<close>. The decoder is the lenient one of Python:
  it skips characters outside the alphabet, stops at a complete padding, and fails where the
  characters read do not make whole bytes.

  \<open>unpadded_roundtrip\<close>: a byte string survives encoding, dropping the padding, adding it again from the
  length, and decoding.
\<close>

section \<open>Encoding\<close>

definition b64_char :: "nat \<Rightarrow> char" where
  "b64_char n =
     (if n < 26 then char_of (65 + n)
      else if n < 52 then char_of (97 + (n - 26))
      else if n < 62 then char_of (48 + (n - 52))
      else if n = 62 then CHR ''-'' else CHR ''_'')"

fun urlsafe_b64encode :: "string \<Rightarrow> string" where
  "urlsafe_b64encode [] = []"
| "urlsafe_b64encode [a] =
     (let x = of_char a in [b64_char (x div 4), b64_char (x mod 4 * 16), CHR ''='', CHR ''=''])"
| "urlsafe_b64encode [a, b] =
     (let x = of_char a; y = of_char b in
      [b64_char (x div 4), b64_char (x mod 4 * 16 + y div 16), b64_char (y mod 16 * 4), CHR ''=''])"
| "urlsafe_b64encode (a # b # c # bs) =
     (let x = of_char a; y = of_char b; z = of_char c in
      b64_char (x div 4) # b64_char (x mod 4 * 16 + y div 16) # b64_char (y mod 16 * 4 + z div 64) #
      b64_char (z mod 64) # urlsafe_b64encode bs)"

section \<open>Decoding\<close>

text \<open>The table of \<open>binascii\<close> behind the translation of \<open>-\<close> and \<open>_\<close> to \<open>+\<close> and \<open>/\<close>.\<close>

definition b64_value :: "char \<Rightarrow> nat option" where
  "b64_value c =
     (let n = of_char c in
      if 65 \<le> n \<and> n \<le> 90 then Some (n - 65)
      else if 97 \<le> n \<and> n \<le> 122 then Some (n - 97 + 26)
      else if 48 \<le> n \<and> n \<le> 57 then Some (n - 48 + 52)
      else if c = CHR ''-'' \<or> c = CHR ''+'' then Some 62
      else if c = CHR ''_'' \<or> c = CHR ''/'' then Some 63
      else None)"

text \<open>
  The loop of \<open>a2b_base64\<close>: the position in the group of four, the bits left over, the padding
  characters seen. \<open>None\<close> is \<open>binascii.Error\<close>.
\<close>

fun a2b :: "nat \<Rightarrow> nat \<Rightarrow> nat \<Rightarrow> string \<Rightarrow> string option" where
  "a2b quad left pads [] = (if quad = 0 then Some [] else None)"
| "a2b quad left pads (c # cs) =
     (if c = CHR ''='' then
        (if 2 \<le> quad \<and> 4 \<le> quad + (pads + 1) then Some []
         else a2b quad left (if 2 \<le> quad then pads + 1 else pads) cs)
      else (case b64_value c of
          None \<Rightarrow> a2b quad left pads cs
        | Some v \<Rightarrow>
            if quad = 0 then a2b 1 v 0 cs
            else if quad = 1 then map_option ((#) (char_of (left * 4 + v div 16))) (a2b 2 (v mod 16) 0 cs)
            else if quad = 2 then map_option ((#) (char_of (left * 16 + v div 4))) (a2b 3 (v mod 4) 0 cs)
            else map_option ((#) (char_of (left * 64 + v))) (a2b 0 0 0 cs)))"

text \<open>A string argument must be ASCII.\<close>

definition urlsafe_b64decode :: "string \<Rightarrow> string option" where
  "urlsafe_b64decode s = (if list_all (\<lambda>c. of_char c < (128 :: nat)) s then a2b 0 0 0 s else None)"

text \<open>\<open>encoded.rstrip("=")\<close> and \<open>encoded + "=" * (-len(encoded) % 4)\<close>.\<close>

definition rstrip_pad :: "string \<Rightarrow> string" where
  "rstrip_pad s = rev (dropWhile (\<lambda>c. c = CHR ''='') (rev s))"

definition add_pad :: "string \<Rightarrow> string" where
  "add_pad s = s @ replicate (nat (- int (length s) mod 4)) (CHR ''='')"

section \<open>Round trip\<close>

lemma char_of_pad: "(n :: nat) < 128 \<Longrightarrow> char_of n = CHR ''='' \<longleftrightarrow> n = 61"
proof
  assume "n < 128" "char_of n = CHR ''=''"
  then have "(of_char (char_of n :: char) :: nat) = of_char (CHR ''='')" by simp
  with \<open>n < 128\<close> show "n = 61" by simp
qed (simp add: char_of_def bit_0)

lemma b64_char_table:
  assumes "n < 64"
  shows "b64_value (b64_char n) = Some n \<and> b64_char n \<noteq> CHR ''='' \<and> of_char (b64_char n) < (128 :: nat)"
  using assms by (auto simp: b64_char_def b64_value_def Let_def char_of_pad)

lemma byte_parts:
  fixes x :: nat
  assumes "x < 256"
  shows "x div 4 < 64" and "x div 16 < 16" and "x div 64 < 4"
  using assms by simp_all

lemma sextets [simp]:
  "(of_char a :: nat) div 4 < 64" "(of_char a :: nat) mod 4 * 16 < 64" "(of_char a :: nat) mod 16 * 4 < 64"
  "(of_char a :: nat) mod 4 * 16 + of_char b div 16 < 64" "(of_char a :: nat) mod 16 * 4 + of_char b div 64 < 64"
proof -
  have m: "(of_char a :: nat) mod 4 < 4" "(of_char a :: nat) mod 16 < 16" by simp_all
  note p = byte_parts [OF byte_bound, of a] byte_parts [OF byte_bound, of b]
  show "(of_char a :: nat) div 4 < 64" by (rule p(1))
  show "(of_char a :: nat) mod 4 * 16 < 64" "(of_char a :: nat) mod 16 * 4 < 64" using m by linarith+
  show "(of_char a :: nat) mod 4 * 16 + of_char b div 16 < 64" using m(1) p(5) by linarith
  show "(of_char a :: nat) mod 16 * 4 + of_char b div 64 < 64" using m(2) p(6) by linarith
qed

lemma byte_quotients [simp]:
  "(of_char a :: nat) div 16 div 16 = 0" "(of_char a :: nat) div 64 div 4 = 0"
  "(of_char a :: nat) div 16 mod 16 = of_char a div 16" "(of_char a :: nat) div 64 mod 4 = of_char a div 64"
  using byte_parts [OF byte_bound, of a] by simp_all

lemma b64_char_simps [simp]:
  "n < 64 \<Longrightarrow> b64_value (b64_char n) = Some n" "n < 64 \<Longrightarrow> b64_char n \<noteq> CHR ''=''"
  "n < 64 \<Longrightarrow> of_char (b64_char n) < (128 :: nat)"
  by (simp_all add: b64_char_table)

lemma a2b_group:
  "a2b 0 0 0 (b64_char (of_char a div 4) # b64_char (of_char a mod 4 * 16 + of_char b div 16) #
     b64_char (of_char b mod 16 * 4 + of_char c div 64) # b64_char (of_char c mod 64) # cs) =
   map_option (\<lambda>bs. a # b # c # bs) (a2b 0 0 0 cs)"
  by (simp add: option.map_comp comp_def)

lemma a2b_encode: "a2b 0 0 0 (urlsafe_b64encode bs) = Some bs"
proof (induction bs rule: urlsafe_b64encode.induct)
  case (4 a b c bs)
  then show ?case by (simp add: Let_def a2b_group del: a2b.simps)
qed (simp_all add: Let_def)

lemma encode_ascii: "list_all (\<lambda>c. of_char c < (128 :: nat)) (urlsafe_b64encode bs)"
  by (induction bs rule: urlsafe_b64encode.induct) (simp_all add: Let_def)

lemma rstrip_pad_id: "s \<noteq> [] \<Longrightarrow> last s \<noteq> CHR ''='' \<Longrightarrow> rstrip_pad s = s"
  by (cases s rule: rev_cases) (simp_all add: rstrip_pad_def)

lemma rstrip_pad_append: "rstrip_pad t \<noteq> [] \<Longrightarrow> rstrip_pad (s @ t) = s @ rstrip_pad t"
  by (auto simp: rstrip_pad_def dropWhile_append dest: set_dropWhileD)

lemma rstrip_encode:
  "length (rstrip_pad (urlsafe_b64encode bs)) mod 4 = (4 - (3 - length bs mod 3) mod 3) mod 4 \<and>
   rstrip_pad (urlsafe_b64encode bs) @ replicate ((3 - length bs mod 3) mod 3) (CHR ''='') = urlsafe_b64encode bs"
proof (induction bs rule: urlsafe_b64encode.induct)
  case (4 a b c bs)
  let ?q = "[b64_char (of_char a div 4), b64_char (of_char a mod 4 * 16 + of_char b div 16),
    b64_char (of_char b mod 16 * 4 + of_char c div 64), b64_char (of_char c mod 64)]"
  have enc: "urlsafe_b64encode (a # b # c # bs) = ?q @ urlsafe_b64encode bs" by (simp add: Let_def)
  have strip: "rstrip_pad (urlsafe_b64encode (a # b # c # bs)) = ?q @ rstrip_pad (urlsafe_b64encode bs)"
  proof (cases "rstrip_pad (urlsafe_b64encode bs) = []")
    case True
    with 4 have "urlsafe_b64encode bs = replicate ((3 - length bs mod 3) mod 3) (CHR ''='')" by simp
    then have "bs = []" by (cases bs rule: urlsafe_b64encode.cases) (auto simp: Let_def Cons_replicate_eq)
    then show ?thesis by (simp add: Let_def rstrip_pad_def)
  next
    case False
    then show ?thesis unfolding enc by (rule rstrip_pad_append)
  qed
  have len: "length (a # b # c # bs) mod 3 = length bs mod 3" by simp
  have "length (?q @ rstrip_pad (urlsafe_b64encode bs)) mod 4 = length (rstrip_pad (urlsafe_b64encode bs)) mod 4" by simp
  with 4 show ?case unfolding strip len by (simp only: append_assoc enc)
qed (simp_all add: Let_def rstrip_pad_def numeral_2_eq_2)

lemma pad_count:
  "n mod 4 = 0 \<Longrightarrow> - int n mod 4 = 0" "n mod 4 = 3 \<Longrightarrow> - int n mod 4 = 1" "n mod 4 = 2 \<Longrightarrow> - int n mod 4 = 2"
  by presburger+

lemma unpadded_roundtrip: "urlsafe_b64decode (add_pad (rstrip_pad (urlsafe_b64encode bs))) = Some bs"
proof -
  let ?s = "rstrip_pad (urlsafe_b64encode bs)" and ?k = "(3 - length bs mod 3) mod 3"
  have len: "length ?s mod 4 = (4 - ?k) mod 4" using rstrip_encode [of bs] by blast
  have "?k < 3" by simp
  then have k: "?k = 0 \<or> ?k = 1 \<or> ?k = 2" by linarith
  have "nat (- int (length ?s) mod 4) = ?k"
    using k len by (elim disjE) (simp_all add: pad_count)
  then have "add_pad ?s = urlsafe_b64encode bs" using rstrip_encode [of bs] by (simp add: add_pad_def)
  then show ?thesis by (simp add: urlsafe_b64decode_def a2b_encode encode_ascii)
qed

lemma rstrip_encode_nonempty: "bs \<noteq> [] \<Longrightarrow> rstrip_pad (urlsafe_b64encode bs) \<noteq> []"
proof
  assume "bs \<noteq> []" "rstrip_pad (urlsafe_b64encode bs) = []"
  then have "urlsafe_b64decode [] = Some bs" using unpadded_roundtrip [of bs] by (simp add: add_pad_def)
  with \<open>bs \<noteq> []\<close> show False by (simp add: urlsafe_b64decode_def)
qed

end
