(* ===== verification/Cursors.thy ===== *)
theory Cursors
  imports Base64 Json
begin

text \<open>
  \<open>services/data_products/cursors.py\<close>: signed pagination cursors. A cursor is the base64 text of a JSON
  payload, a dot and its signature; decoding checks the length, the signature, the scope, the lifetime
  and the sort values.

  The keyed digest and the digest of the filters (\<open>hmac\<close> and \<open>hashlib\<close> with SHA-256) are the fields of
  \<open>crypto\<close>; the only fact used of them is that a keyed digest has 32 bytes. Times are whole seconds.
\<close>

datatype cursor_error =
    InvalidCursor string
  | CursorValueError string
  | CursorAttributeError
  | CursorTypeError

record cursor_context =
  cc_resource_type :: string
  cc_tenant_id :: string
  cc_environment :: string
  cc_filters :: "(string \<times> json) list"

record crypto =
  cr_hmac :: "string \<Rightarrow> string \<Rightarrow> string"
  cr_sha256 :: "string \<Rightarrow> string"

record codec =
  cd_secret :: string
  cd_ttl :: int
  cd_maximum :: int

definition codec_init :: "string \<Rightarrow> int \<Rightarrow> int \<Rightarrow> cursor_error + codec" where
  "codec_init secret ttl_seconds max_encoded_length =
     (if length secret < 32 then Inl (CursorValueError ''cursor signing secret must contain at least 32 bytes'')
      else Inr \<lparr>cd_secret = secret, cd_ttl = ttl_seconds, cd_maximum = max_encoded_length\<rparr>)"

definition filter_fingerprint :: "crypto \<Rightarrow> (string \<times> json) list \<Rightarrow> string" where
  "filter_fingerprint cr filters = cr_sha256 cr (dumps (JDict filters))"

section \<open>Encoding\<close>

definition cursor_payload :: "crypto \<Rightarrow> codec \<Rightarrow> cursor_context \<Rightarrow> json list \<Rightarrow> int \<Rightarrow> (string \<times> json) list" where
  "cursor_payload cr cd ctx sort_values issued =
     [(''environment'', JStr (cc_environment ctx)),
      (''expires_at'', JInt (issued + cd_ttl cd)),
      (''filter_fingerprint'', JStr (filter_fingerprint cr (cc_filters ctx))),
      (''issued_at'', JInt issued),
      (''resource_type'', JStr (cc_resource_type ctx)),
      (''sort_values'', JList sort_values),
      (''tenant_id'', JStr (cc_tenant_id ctx)),
      (''version'', JInt 1)]"

definition cursor_encode :: "crypto \<Rightarrow> codec \<Rightarrow> cursor_context \<Rightarrow> json list \<Rightarrow> int \<Rightarrow> cursor_error + string" where
  "cursor_encode cr cd ctx sort_values issued =
     (let body = dumps (JDict (cursor_payload cr cd ctx sort_values issued));
          signature = cr_hmac cr (cd_secret cd) body;
          encoded = rstrip_pad (urlsafe_b64encode (body @ ''.'' @ signature))
      in if cd_maximum cd < int (length encoded) then Inl (InvalidCursor ''cursor exceeds maximum length'')
         else Inr encoded)"

section \<open>Decoding\<close>

text \<open>
  \<open>json.loads\<close> of bytes, for ASCII text; the encoder writes no other.
\<close>

definition loads_bytes :: "string \<Rightarrow> json option" where
  "loads_bytes b = (if list_all (\<lambda>c. of_char c < (128 :: nat)) b then loads b else None)"

definition signed_payload :: "crypto \<Rightarrow> codec \<Rightarrow> string \<Rightarrow> cursor_error + json" where
  "signed_payload cr cd encoded =
     (case urlsafe_b64decode (add_pad encoded) of
        None \<Rightarrow> Inl (InvalidCursor ''malformed cursor'')
      | Some raw \<Rightarrow>
          if length raw < 34 \<or> raw ! (length raw - 33) \<noteq> CHR ''.'' then Inl (InvalidCursor ''malformed cursor'')
          else
            let body = take (length raw - 33) raw; signature = drop (length raw - 32) raw in
            if signature \<noteq> cr_hmac cr (cd_secret cd) body then Inl (InvalidCursor ''invalid cursor signature'')
            else (case loads_bytes body of
                None \<Rightarrow> Inl (InvalidCursor ''malformed cursor'') | Some v \<Rightarrow> Inr v))"

text \<open>Python's \<open>==\<close> of a payload entry with an expected number or string: a boolean is a number.\<close>

definition equals_expected :: "json option \<Rightarrow> json \<Rightarrow> bool" where
  "equals_expected found expected = (case (found, expected) of
      (Some (JBool b), JInt i) \<Rightarrow> i = (if b then 1 else 0)
    | (Some v, w) \<Rightarrow> v = w
    | (None, w) \<Rightarrow> w = JNull)"

definition expected_scope :: "crypto \<Rightarrow> cursor_context \<Rightarrow> (string \<times> json) list" where
  "expected_scope cr ctx =
     [(''version'', JInt 1),
      (''resource_type'', JStr (cc_resource_type ctx)),
      (''tenant_id'', JStr (cc_tenant_id ctx)),
      (''environment'', JStr (cc_environment ctx)),
      (''filter_fingerprint'', JStr (filter_fingerprint cr (cc_filters ctx)))]"

text \<open>A payload entry compared with a number; anything but a number raises \<open>TypeError\<close>.\<close>

definition number_entry :: "json option \<Rightarrow> int \<Rightarrow> cursor_error + int" where
  "number_entry found otherwise = (case found of
      None \<Rightarrow> Inr otherwise
    | Some (JInt i) \<Rightarrow> Inr i
    | Some (JBool b) \<Rightarrow> Inr (if b then 1 else 0)
    | Some _ \<Rightarrow> Inl CursorTypeError)"

definition out_of_lifetime :: "(string \<times> json) list \<Rightarrow> int \<Rightarrow> cursor_error + bool" where
  "out_of_lifetime p timestamp =
     (case number_entry (dget p ''issued_at'') (timestamp + 1) of
        Inl e \<Rightarrow> Inl e
      | Inr issued \<Rightarrow>
          if timestamp < issued then Inr True
          else (case number_entry (dget p ''expires_at'') 0 of
              Inl e \<Rightarrow> Inl e | Inr expires \<Rightarrow> Inr (expires < timestamp)))"

definition checked_values :: "crypto \<Rightarrow> cursor_context \<Rightarrow> int \<Rightarrow> (string \<times> json) list \<Rightarrow> cursor_error + json list" where
  "checked_values cr ctx timestamp p =
     (if list_ex (\<lambda>(k, v). \<not> equals_expected (dget p k) v) (expected_scope cr ctx)
      then Inl (InvalidCursor ''cursor does not belong to this scope, route, or filter'')
      else (case out_of_lifetime p timestamp of
          Inl e \<Rightarrow> Inl e
        | Inr True \<Rightarrow> Inl (InvalidCursor ''cursor has expired or is not yet valid'')
        | Inr False \<Rightarrow> (case dget p ''sort_values'' of
              Some (JList vs) \<Rightarrow>
                if 4 < length vs then Inl (InvalidCursor ''cursor sort values are invalid'') else Inr vs
            | _ \<Rightarrow> Inl (InvalidCursor ''cursor sort values are invalid''))))"

definition cursor_decode :: "crypto \<Rightarrow> codec \<Rightarrow> string \<Rightarrow> cursor_context \<Rightarrow> int \<Rightarrow> cursor_error + json list" where
  "cursor_decode cr cd encoded ctx timestamp =
     (if encoded = [] \<or> cd_maximum cd < int (length encoded) then Inl (InvalidCursor ''invalid cursor length'')
      else (case signed_payload cr cd encoded of
          Inl e \<Rightarrow> Inl e
        | Inr (JDict p) \<Rightarrow> checked_values cr ctx timestamp p
        | Inr _ \<Rightarrow> Inl CursorAttributeError))"

section \<open>Written text is ASCII\<close>

abbreviation ascii :: "string \<Rightarrow> bool" where
  "ascii \<equiv> list_all (\<lambda>c. of_char c < (128 :: nat))"

lemma hex_digit_ascii: "n < 16 \<Longrightarrow> of_char (hex_digit n) < (128 :: nat)"
  by (auto simp: hex_digit_def)

lemma escape_ascii: "ascii (escape_char c)"
proof -
  have "(of_char c :: nat) div 16 < 16" using byte_bound [of c] by (simp add: less_mult_imp_div_less)
  then show ?thesis by (auto simp: escape_char_def Let_def hex_digit_ascii)
qed

lemma quote_ascii: "ascii (quote s)"
  by (induction s) (auto simp: quote_def escape_ascii)

lemma int_str_ascii: "ascii (int_str i)"
proof -
  have "is_digit c \<Longrightarrow> of_char c < (128 :: nat)" for c
    by (auto simp: is_digit_def digit_value_def Let_def split: if_splits)
  then show ?thesis by (auto simp: int_str_def list_all_iff dest!: nat_str_digits)
qed

lemma join_ascii: "list_all ascii xs \<Longrightarrow> ascii (join xs)"
  by (induction xs rule: join.induct) auto

lemma print_ascii: "ascii (print_json v)"
proof (induction v rule: print_json.induct)
  case (5 vs)
  then have "ascii (join (map print_json vs))" by (intro join_ascii) (auto simp: list_all_iff)
  then show ?case by simp
next
  case (6 kvs)
  then have "ascii (join (map print_member kvs))" by (intro join_ascii) (auto simp: list_all_iff quote_ascii [unfolded list_all_iff])
  then show ?case by simp
qed (simp_all add: int_str_ascii quote_ascii)

section \<open>What decoding makes of an encoded cursor\<close>

lemma dget_sort_keys:
  assumes "distinct (map fst kvs)"
  shows "dget (sort_key fst kvs) k = dget kvs k"
proof -
  have "distinct (map fst (sort_key fst kvs))"
    using assms by (simp add: distinct_map_sort)
  then have "dget (sort_key fst kvs) k = Some v \<longleftrightarrow> dget kvs k = Some v" for v
    using assms by (simp flip: distinct_dget)
  then show ?thesis by (metis option.exhaust)
qed

lemma signed_payload_encode:
  assumes "length (cr_hmac cr (cd_secret cd) (dumps v)) = 32" and "json_ok v"
    and "enc = rstrip_pad (urlsafe_b64encode (dumps v @ ''.'' @ cr_hmac cr (cd_secret cd) (dumps v)))"
  shows "signed_payload cr cd enc = Inr (sort_keys v)"
proof -
  let ?raw = "dumps v @ ''.'' @ cr_hmac cr (cd_secret cd) (dumps v)"
  have raw: "urlsafe_b64decode (add_pad enc) = Some ?raw" unfolding assms(3) by (rule unpadded_roundtrip)
  have len: "length ?raw = length (dumps v) + 33" using assms(1) by simp
  have "dumps v \<noteq> []" using print_starts [of "sort_keys v" "[]"] by (simp add: dumps_def starts_value_def)
  then have long: "\<not> length ?raw < 34" using len by (cases "dumps v") simp_all
  have dot: "?raw ! (length ?raw - 33) = CHR ''.''" unfolding len by (simp add: nth_append)
  have body: "take (length ?raw - 33) ?raw = dumps v" and tag: "drop (length ?raw - 32) ?raw = cr_hmac cr (cd_secret cd) (dumps v)"
    unfolding len by simp_all
  have "loads_bytes (dumps v) = Some (sort_keys v)"
    using loads_dumps [OF assms(2)] by (simp add: loads_bytes_def dumps_def print_ascii)
  then show ?thesis
    unfolding signed_payload_def raw option.case Let_def body tag using long dot by simp
qed

lemma payload_distinct [simp]: "distinct (map fst (cursor_payload cr cd ctx vs issued))"
  by (simp add: cursor_payload_def)

lemma payload_ok: "list_all json_ok vs \<Longrightarrow> json_ok (JDict (cursor_payload cr cd ctx vs issued))"
  using payload_distinct [of cr cd ctx vs issued] by (simp add: cursor_payload_def)

lemma checked_values_payload:
  "checked_values cr ctx' now (sort_key fst (map (\<lambda>(k, v). (k, sort_keys v)) (cursor_payload cr cd ctx vs issued))) =
     (if (cc_resource_type ctx, cc_tenant_id ctx, cc_environment ctx, filter_fingerprint cr (cc_filters ctx)) \<noteq>
         (cc_resource_type ctx', cc_tenant_id ctx', cc_environment ctx', filter_fingerprint cr (cc_filters ctx'))
      then Inl (InvalidCursor ''cursor does not belong to this scope, route, or filter'')
      else if now < issued \<or> issued + cd_ttl cd < now
      then Inl (InvalidCursor ''cursor has expired or is not yet valid'')
      else if 4 < length vs then Inl (InvalidCursor ''cursor sort values are invalid'')
      else Inr (map sort_keys vs))"
proof -
  let ?p = "map (\<lambda>(k, v). (k, sort_keys v)) (cursor_payload cr cd ctx vs issued)"
  have dist: "distinct (map fst ?p)" by (simp add: cursor_payload_def)
  show ?thesis
    unfolding checked_values_def out_of_lifetime_def dget_sort_keys [OF dist]
    by (auto simp: cursor_payload_def expected_scope_def equals_expected_def number_entry_def)
qed

lemma accepted_cursor:
  assumes "cursor_encode cr cd ctx vs issued = Inr enc" and "\<forall>k b. length (cr_hmac cr k b) = 32"
    and "list_all json_ok vs"
  shows "cursor_decode cr cd enc ctx' now =
      checked_values cr ctx' now (sort_key fst (map (\<lambda>(k, v). (k, sort_keys v)) (cursor_payload cr cd ctx vs issued)))"
proof -
  let ?v = "JDict (cursor_payload cr cd ctx vs issued)"
  have enc: "enc = rstrip_pad (urlsafe_b64encode (dumps ?v @ ''.'' @ cr_hmac cr (cd_secret cd) (dumps ?v)))"
    and max: "\<not> cd_maximum cd < int (length enc)"
    using assms(1) by (auto simp: cursor_encode_def Let_def split: if_splits)
  have "enc \<noteq> []" unfolding enc by (rule rstrip_encode_nonempty) simp
  moreover have "signed_payload cr cd enc = Inr (sort_keys ?v)"
    using assms(2) payload_ok [OF assms(3)] enc by (intro signed_payload_encode) auto
  ultimately show ?thesis using max by (simp add: cursor_decode_def)
qed

text \<open>
  C18. Round trip and isolation of cursors. Decoding a cursor that the same codec encoded returns its
  sort values, with dictionaries in key order, exactly when the resource type, tenant, environment and
  filter fingerprint are those it was encoded for, the time lies between its issue and its expiry, and
  there are at most four sort values; otherwise it is an \<open>InvalidCursor\<close>.
\<close>

theorem cursor_accepted_iff:
  assumes "cursor_encode cr cd ctx vs issued = Inr enc" and "\<forall>k b. length (cr_hmac cr k b) = 32"
    and "list_all json_ok vs"
  shows "if (cc_resource_type ctx, cc_tenant_id ctx, cc_environment ctx, filter_fingerprint cr (cc_filters ctx)) =
            (cc_resource_type ctx', cc_tenant_id ctx', cc_environment ctx', filter_fingerprint cr (cc_filters ctx')) \<and>
            issued \<le> now \<and> now \<le> issued + cd_ttl cd \<and> length vs \<le> 4
    then cursor_decode cr cd enc ctx' now = Inr (map sort_keys vs)
    else \<exists>m. cursor_decode cr cd enc ctx' now = Inl (InvalidCursor m)"
  using accepted_cursor [OF assms] unfolding checked_values_payload by auto

text \<open>
  Only signed text is read: a cursor whose bytes are not some body, a dot and the keyed digest of
  that body is refused with \<open>InvalidCursor\<close> whatever it contains.
\<close>

theorem unsigned_cursor_refused:
  assumes "\<forall>body. urlsafe_b64decode (add_pad enc) \<noteq> Some (body @ ''.'' @ cr_hmac cr (cd_secret cd) body)"
  shows "\<exists>m. cursor_decode cr cd enc ctx now = Inl (InvalidCursor m)"
proof (cases "urlsafe_b64decode (add_pad enc)")
  case None
  then show ?thesis by (simp add: cursor_decode_def signed_payload_def)
next
  case (Some raw)
  let ?body = "take (length raw - 33) raw"
  have "drop (length raw - 32) raw \<noteq> cr_hmac cr (cd_secret cd) ?body"
    if long: "34 \<le> length raw" and dot: "raw ! (length raw - 33) = CHR ''.''"
  proof
    assume tag: "drop (length raw - 32) raw = cr_hmac cr (cd_secret cd) ?body"
    have "drop (length raw - 33) raw = raw ! (length raw - 33) # drop (Suc (length raw - 33)) raw"
      using long by (intro Cons_nth_drop_Suc [symmetric]) simp
    moreover have "Suc (length raw - 33) = length raw - 32" using long by simp
    ultimately have "raw = ?body @ ''.'' @ cr_hmac cr (cd_secret cd) ?body"
      using append_take_drop_id [of "length raw - 33" raw] dot tag by simp
    with assms Some show False by metis
  qed
  with Some show ?thesis by (auto simp: cursor_decode_def signed_payload_def Let_def not_less)
qed

text \<open>A toy keyed digest of 32 bytes: the first letters of the body, filled up.\<close>

definition toy_crypto :: crypto where
  "toy_crypto = \<lparr>cr_hmac = (\<lambda>k b. take 32 (b @ replicate 32 (CHR ''x''))), cr_sha256 = (\<lambda>s. s)\<rparr>"

definition toy_codec :: codec where
  "toy_codec = \<lparr>cd_secret = replicate 32 (CHR ''k''), cd_ttl = 900, cd_maximum = 2048\<rparr>"

definition toy_context :: cursor_context where
  "toy_context = \<lparr>cc_resource_type = ''products'', cc_tenant_id = ''t'', cc_environment = ''e'', cc_filters = []\<rparr>"

theorem cursor_accepted_iff_witness:
  "case cursor_encode toy_crypto toy_codec toy_context [JStr ''p1'', JInt 3] 100 of
     Inl _ \<Rightarrow> False
   | Inr enc \<Rightarrow> cursor_decode toy_crypto toy_codec enc toy_context 500 = Inr [JStr ''p1'', JInt 3] \<and>
       (\<exists>m. cursor_decode toy_crypto toy_codec enc (toy_context\<lparr>cc_tenant_id := ''u''\<rparr>) 500 = Inl (InvalidCursor m))"
proof -
  have hm: "\<forall>k b. length (cr_hmac toy_crypto k b) = 32" by (auto simp: toy_crypto_def)
  have ttl: "cd_ttl toy_codec = 900" and tenant: "cc_tenant_id toy_context = ''t''"
    by (simp_all add: toy_codec_def toy_context_def)
  have "\<not> isl (cursor_encode toy_crypto toy_codec toy_context [JStr ''p1'', JInt 3] 100)" by code_simp
  then obtain enc where enc: "cursor_encode toy_crypto toy_codec toy_context [JStr ''p1'', JInt 3] 100 = Inr enc"
    by (cases "cursor_encode toy_crypto toy_codec toy_context [JStr ''p1'', JInt 3] 100") auto
  show ?thesis
    using cursor_accepted_iff [OF enc hm, of toy_context 500]
      cursor_accepted_iff [OF enc hm, of "toy_context\<lparr>cc_tenant_id := ''u''\<rparr>" 500]
    by (simp add: enc ttl tenant)
qed

theorem unsigned_cursor_refused_witness:
  "\<exists>m. cursor_decode toy_crypto toy_codec ''QUJD'' toy_context 500 = Inl (InvalidCursor m)"
proof (rule unsigned_cursor_refused, intro allI notI)
  fix body assume "urlsafe_b64decode (add_pad ''QUJD'') = Some (body @ ''.'' @ cr_hmac toy_crypto (cd_secret toy_codec) body)"
  moreover have "map_option length (urlsafe_b64decode (add_pad ''QUJD'')) = Some 3" by code_simp
  ultimately show False by (simp add: toy_crypto_def)
qed

end
