(* ===== verification/ProductPages.thy ===== *)
theory ProductPages
  imports Samples Cursors
begin

text \<open>
  The product listing of \<open>src/api/data_product_routes.py\<close>: a page asks the repository for one product
  more than its limit, and where there is one hands out a signed cursor holding the identifier of the
  last product of the page.

  \<open>collect\<close> follows the cursors from page to page. Following them lists every product of the scope once,
  in the order of the identifiers.
\<close>

datatype page_error =
    HttpError int string
  | CodecFailure cursor_error
  | Raised py_error

text \<open>
  \<open>str\<close> of a sort value; \<open>compound\<close> stands for the text of lists and dictionaries, which the route never signs.
\<close>

definition sort_text :: "(json \<Rightarrow> string) \<Rightarrow> json \<Rightarrow> string" where
  "sort_text compound v = (case v of
      JStr s \<Rightarrow> s | JInt i \<Rightarrow> int_str i | JBool b \<Rightarrow> (if b then ''True'' else ''False'') | JNull \<Rightarrow> ''None''
    | _ \<Rightarrow> compound v)"

definition listing_filters :: "string option \<Rightarrow> string option \<Rightarrow> string option \<Rightarrow> string option \<Rightarrow> bool \<Rightarrow> (string \<times> json) list" where
  "listing_filters domain lifecycle owner search include_archived =
     (let opt = (\<lambda>x. case x of None \<Rightarrow> JNull | Some s \<Rightarrow> JStr s) in
      [(''domain'', opt domain), (''lifecycle'', opt lifecycle), (''owner'', opt owner), (''search'', opt search),
       (''include_archived'', JBool include_archived)])"

definition listing_context :: "string \<Rightarrow> string \<Rightarrow> (string \<times> json) list \<Rightarrow> cursor_context" where
  "listing_context tenant_id environment filters =
     \<lparr>cc_resource_type = ''products'', cc_tenant_id = tenant_id, cc_environment = environment, cc_filters = filters\<rparr>"

definition product_sort_values :: "string \<Rightarrow> string \<Rightarrow> product \<Rightarrow> json list" where
  "product_sort_values tenant_id environment p =
     [JStr (pr_id p), JStr (tenant_id @ '':'' @ environment @ '':'' @ pr_id p)]"

definition route_list_products ::
  "crypto \<Rightarrow> codec \<Rightarrow> (json \<Rightarrow> string) \<Rightarrow> string \<Rightarrow> string \<Rightarrow> (string \<times> json) list \<Rightarrow> int \<Rightarrow> string option \<Rightarrow> int \<Rightarrow> int \<Rightarrow>
   repo \<Rightarrow> page_error + product list \<times> string option" where
  "route_list_products cr cd compound tenant_id environment filters limit cursor now issued s =
     (let context = listing_context tenant_id environment filters in
      case (case cursor of None \<Rightarrow> Inr [] | Some [] \<Rightarrow> Inr [] | Some c \<Rightarrow> cursor_decode cr cd c context now) of
        Inl (InvalidCursor m) \<Rightarrow> Inl (HttpError 422 m)
      | Inl e \<Rightarrow> Inl (CodecFailure e)
      | Inr search_after \<Rightarrow>
          (case fst (list_products tenant_id environment (limit + 1) (map (sort_text compound) search_after) s) of
             Inl e \<Rightarrow> Inl (Raised e)
           | Inr found \<Rightarrow>
               let products = slice_to limit found in
               if limit < int (length found) \<and> products \<noteq> []
               then (case cursor_encode cr cd context (product_sort_values tenant_id environment (last products)) issued of
                   Inl e \<Rightarrow> Inl (CodecFailure e) | Inr c \<Rightarrow> Inr (products, Some c))
               else Inr (products, None)))"

text \<open>A client that follows the cursors; the page numbered \<open>k\<close> is served at the second \<open>time k\<close>.\<close>

fun collect ::
  "nat \<Rightarrow> (nat \<Rightarrow> string option \<Rightarrow> page_error + product list \<times> string option) \<Rightarrow> nat \<Rightarrow> string option \<Rightarrow>
   (page_error + product list) option" where
  "collect 0 page k cursor = None"
| "collect (Suc n) page k cursor = (case page k cursor of
      Inl e \<Rightarrow> Some (Inl e)
    | Inr (items, None) \<Rightarrow> Some (Inr items)
    | Inr (items, Some c) \<Rightarrow> map_option (map_sum id ((@) items)) (collect n page (Suc k) (Some c)))"

section \<open>The products of a scope\<close>

definition scope_products :: "string \<Rightarrow> string \<Rightarrow> repo \<Rightarrow> product list" where
  "scope_products t e s =
     sort_key pr_id (map snd (filter (\<lambda>kv. (fst (fst kv), fst (snd (fst kv))) = (t, e)) (rp_items s)))"

text \<open>Products are stored under their own identifier.\<close>

definition items_ok :: "repo \<Rightarrow> bool" where
  "items_ok s \<longleftrightarrow> distinct (map fst (rp_items s)) \<and> (\<forall>(k, p) \<in> set (rp_items s). snd (snd k) = pr_id p)"

lemma scope_products_strict:
  assumes "items_ok s"
  shows "sorted_wrt (\<lambda>a b. pr_id a < pr_id b) (scope_products t e s)"
proof -
  let ?f = "filter (\<lambda>kv. (fst (fst kv), fst (snd (fst kv))) = (t, e)) (rp_items s)"
  have "distinct (map fst (rp_items s))" using assms by (simp add: items_ok_def)
  then have "distinct (map fst ?f)" by (rule distinct_map_filter)
  moreover have "inj_on (\<lambda>k. snd (snd k)) (fst ` set ?f)" by (auto simp: inj_on_def)
  ultimately have "distinct (map ((\<lambda>k. snd (snd k)) \<circ> fst) ?f)" by (simp add: distinct_map comp_inj_on)
  moreover have "map ((\<lambda>k. snd (snd k)) \<circ> fst) ?f = map pr_id (map snd ?f)"
    unfolding map_map using assms by (intro map_cong) (auto simp: items_ok_def)
  ultimately have "distinct (map pr_id (map snd ?f))" by (simp only:)
  then have "distinct (map pr_id (scope_products t e s))"
    unfolding scope_products_def distinct_map_sort .
  moreover have "sorted (map pr_id (scope_products t e s))" by (simp add: scope_products_def)
  ultimately have "sorted_wrt (<) (map pr_id (scope_products t e s))" by (simp add: strict_sorted_iff)
  then show ?thesis by (simp add: sorted_wrt_map)
qed

lemma after_last:
  assumes "sorted_wrt (\<lambda>a b. f a < (f b :: 'k::linorder)) (xs @ x # ys)"
  shows "filter (\<lambda>p. f x < f p) (xs @ x # ys) = ys"
proof -
  have "filter (\<lambda>p. f x < f p) xs = []"
    using assms by (auto simp: filter_empty_conv sorted_wrt_append dest: less_asym)
  moreover have "filter (\<lambda>p. f x < f p) ys = ys"
    using assms by (auto simp: filter_id_conv sorted_wrt_append)
  ultimately show ?thesis by simp
qed

lemma list_products_first:
  "1 \<le> n \<Longrightarrow> n \<le> 200 \<Longrightarrow> fst (list_products t e n [] s) = Inr (take (nat n) (scope_products t e s))"
  by (simp add: list_products_def py_simps scope_products_def slice_to_def Let_def)

lemma list_products_after:
  assumes "1 \<le> n" and "n \<le> 200" and "items_ok s" and "scope_products t e s = xs @ x # ys"
  shows "fst (list_products t e n (pr_id x # r) s) = Inr (take (nat n) ys)"
proof -
  have "filter (\<lambda>p. pr_id x < pr_id p) (scope_products t e s) = ys"
    unfolding assms(4) using scope_products_strict [OF assms(3), of t e] assms(4) by (intro after_last) simp
  then show ?thesis using assms(1,2)
    by (simp add: list_products_def py_simps scope_products_def slice_to_def Let_def)
qed

section \<open>Following the cursors\<close>

text \<open>What the listing relies on: a keyed digest of 32 bytes, cursors that fit, pages served in time.\<close>

definition listing_ok ::
  "crypto \<Rightarrow> codec \<Rightarrow> string \<Rightarrow> string \<Rightarrow> (string \<times> json) list \<Rightarrow> (nat \<Rightarrow> int) \<Rightarrow> product list \<Rightarrow> bool" where
  "listing_ok cr cd t e filters time ps \<longleftrightarrow>
     (\<forall>k b. length (cr_hmac cr k b) = 32) \<and>
     (\<forall>k. time k \<le> time (Suc k) \<and> time (Suc k) \<le> time k + cd_ttl cd) \<and>
     (\<forall>p \<in> set ps. \<forall>k. \<exists>c. cursor_encode cr cd (listing_context t e filters) (product_sort_values t e p) (time k) = Inr c)"

lemma cursor_decodes:
  assumes "listing_ok cr cd t e filters time ps"
    and "cursor_encode cr cd (listing_context t e filters) (product_sort_values t e p) (time k) = Inr c"
  shows "cursor_decode cr cd c (listing_context t e filters) (time (Suc k)) = Inr (product_sort_values t e p)"
    and "c \<noteq> []"
proof -
  show d: "cursor_decode cr cd c (listing_context t e filters) (time (Suc k)) = Inr (product_sort_values t e p)"
    using accepted_cursor [OF assms(2), of "listing_context t e filters" "time (Suc k)"] assms(1)
    by (simp add: listing_ok_def product_sort_values_def checked_values_payload not_less)
  then show "c \<noteq> []" by (auto simp: cursor_decode_def)
qed

lemma first_page:
  assumes "items_ok s" and "1 \<le> limit" and "limit < 200" and "listing_ok cr cd t e filters time (scope_products t e s)"
    and "rest = (if cursor = None then scope_products t e s else ys)"
    and "\<And>c. cursor = Some c \<Longrightarrow> c \<noteq> [] \<and> scope_products t e s = xs @ x # ys \<and>
      cursor_decode cr cd c (listing_context t e filters) now = Inr (product_sort_values t e x)"
  shows "route_list_products cr cd compound t e filters limit cursor now (time k) s =
    (if limit < int (length rest)
     then (case cursor_encode cr cd (listing_context t e filters) (product_sort_values t e (last (take (nat limit) rest))) (time k) of
         Inl err \<Rightarrow> Inl (CodecFailure err) | Inr c \<Rightarrow> Inr (take (nat limit) rest, Some c))
     else Inr (rest, None))"
proof -
  have n: "1 \<le> limit + 1" "limit + 1 \<le> 200" using assms(2,3) by simp_all
  obtain after where after: "(case cursor of None \<Rightarrow> Inr [] | Some [] \<Rightarrow> Inr []
        | Some c \<Rightarrow> cursor_decode cr cd c (listing_context t e filters) now) = Inr after"
      and found: "fst (list_products t e (limit + 1) (map (sort_text compound) after) s) = Inr (take (nat (limit + 1)) rest)"
  proof (cases cursor)
    case None
    then show thesis using that [of "[]"] list_products_first [OF n] assms(5) by simp
  next
    case (Some c)
    note after = assms(6) [OF Some]
    have "map (sort_text compound) (product_sort_values t e x) = pr_id x # [t @ '':'' @ e @ '':'' @ pr_id x]"
      by (simp add: product_sort_values_def sort_text_def)
    with list_products_after [OF n assms(1), of t e xs x ys] after Some assms(5) show thesis
      using that [of "product_sort_values t e x"] by (cases c) simp_all
  qed
  have "slice_to limit (take (nat (limit + 1)) rest) = take (nat limit) rest"
    using assms(2) by (simp add: slice_to_def nat_add_distrib min_def)
  moreover have "limit < int (length (take (nat (limit + 1)) rest)) \<longleftrightarrow> limit < int (length rest)"
    using assms(2) by (auto simp: min_def)
  moreover have "take (nat limit) rest = rest" if "\<not> limit < int (length rest)" using that by simp
  ultimately show ?thesis
    using assms(2) by (auto simp: route_list_products_def Let_def after found)
qed

text \<open>The page numbered \<open>k\<close> of a listing.\<close>

definition page_at ::
  "crypto \<Rightarrow> codec \<Rightarrow> (json \<Rightarrow> string) \<Rightarrow> string \<Rightarrow> string \<Rightarrow> (string \<times> json) list \<Rightarrow> int \<Rightarrow> (nat \<Rightarrow> int) \<Rightarrow> repo \<Rightarrow>
   nat \<Rightarrow> string option \<Rightarrow> page_error + product list \<times> string option" where
  "page_at cr cd compound t e filters limit time s k cursor =
     route_list_products cr cd compound t e filters limit cursor (time k) (time k) s"

lemma next_cursor:
  assumes "listing_ok cr cd t e filters time (scope_products t e s)" and "scope_products t e s = xs @ ys"
    and "1 \<le> limit" and "limit < int (length ys)"
  obtains c where "cursor_encode cr cd (listing_context t e filters)
      (product_sort_values t e (last (take (nat limit) ys))) (time k) = Inr c"
    and "c \<noteq> []" and "cursor_decode cr cd c (listing_context t e filters) (time (Suc k)) =
      Inr (product_sort_values t e (last (take (nat limit) ys)))"
    and "scope_products t e s = (xs @ butlast (take (nat limit) ys)) @ last (take (nat limit) ys) # drop (nat limit) ys"
proof -
  let ?p = "take (nat limit) ys"
  have ne: "?p \<noteq> []" using assms(3,4) by auto
  have "ys = ?p @ drop (nat limit) ys" by simp
  also have "?p = butlast ?p @ [last ?p]" using ne by simp
  finally have "ys = (butlast ?p @ [last ?p]) @ drop (nat limit) ys" .
  then have split: "scope_products t e s = (xs @ butlast ?p) @ last ?p # drop (nat limit) ys"
    using assms(2) by (metis append.assoc append_Cons append_Nil)
  then have "last ?p \<in> set (scope_products t e s)" by simp
  then obtain c where c: "cursor_encode cr cd (listing_context t e filters) (product_sort_values t e (last ?p)) (time k) = Inr c"
    using assms(1) unfolding listing_ok_def by blast
  show thesis using cursor_decodes [OF assms(1) c] c split by (intro that) auto
qed

lemma collect_after:
  assumes "items_ok s" and "1 \<le> limit" and "limit < 200" and "listing_ok cr cd t e filters time (scope_products t e s)"
    and "scope_products t e s = xs @ x # ys" and "c \<noteq> []"
    and "cursor_decode cr cd c (listing_context t e filters) (time k) = Inr (product_sort_values t e x)"
    and "length ys < n"
  shows "collect n (page_at cr cd compound t e filters limit time s) k (Some c) = Some (Inr ys)"
  using assms(5-)
proof (induction n arbitrary: xs x ys c k)
  case (Suc n)
  have page: "page_at cr cd compound t e filters limit time s k (Some c) =
    (if limit < int (length ys)
     then (case cursor_encode cr cd (listing_context t e filters) (product_sort_values t e (last (take (nat limit) ys))) (time k) of
         Inl err \<Rightarrow> Inl (CodecFailure err) | Inr c \<Rightarrow> Inr (take (nat limit) ys, Some c))
     else Inr (ys, None))"
    unfolding page_at_def by (rule first_page [OF assms(1-4)]) (use Suc.prems in auto)
  show ?case
  proof (cases "limit < int (length ys)")
    case True
    obtain d where d: "cursor_encode cr cd (listing_context t e filters) (product_sort_values t e (last (take (nat limit) ys))) (time k) = Inr d"
        "d \<noteq> []" "cursor_decode cr cd d (listing_context t e filters) (time (Suc k)) = Inr (product_sort_values t e (last (take (nat limit) ys)))"
        "scope_products t e s = ((xs @ [x]) @ butlast (take (nat limit) ys)) @ last (take (nat limit) ys) # drop (nat limit) ys"
      using next_cursor [OF assms(4) _ assms(2) True, of "xs @ [x]" k] Suc.prems(1) by auto
    have "collect n (page_at cr cd compound t e filters limit time s) (Suc k) (Some d) = Some (Inr (drop (nat limit) ys))"
      using d(4,2,3) by (rule Suc.IH) (use Suc.prems(4) assms(2) True in auto)
    then show ?thesis using True d(1) page by simp
  qed (simp add: page)
qed simp

text \<open>
  C19. Following the cursors of the product listing lists every product of the tenant and environment
  exactly once, in the order of the identifiers, for every page size below two hundred, when the
  repository does not change in between and every page is asked for within the lifetime of its cursor.
\<close>

theorem pages_cover_all_products:
  assumes "items_ok s" and "1 \<le> limit" and "limit < 200"
    and "listing_ok cr cd t e filters time (scope_products t e s)" and "length (scope_products t e s) < n"
  shows "collect n (page_at cr cd compound t e filters limit time s) 0 None = Some (Inr (scope_products t e s)) \<and>
    sorted_wrt (\<lambda>a b. pr_id a < pr_id b) (scope_products t e s) \<and>
    set (scope_products t e s) = {p. \<exists>i. ((t, e, i), p) \<in> set (rp_items s)}"
proof (intro conjI)
  let ?ps = "scope_products t e s"
  obtain m where m: "n = Suc m" using assms(5) by (cases n) auto
  have page: "page_at cr cd compound t e filters limit time s 0 None =
    (if limit < int (length ?ps)
     then (case cursor_encode cr cd (listing_context t e filters) (product_sort_values t e (last (take (nat limit) ?ps))) (time 0) of
         Inl err \<Rightarrow> Inl (CodecFailure err) | Inr c \<Rightarrow> Inr (take (nat limit) ?ps, Some c))
     else Inr (?ps, None))"
    unfolding page_at_def by (rule first_page [OF assms(1-4)]) auto
  show "collect n (page_at cr cd compound t e filters limit time s) 0 None = Some (Inr ?ps)"
  proof (cases "limit < int (length ?ps)")
    case True
    obtain d where d: "cursor_encode cr cd (listing_context t e filters) (product_sort_values t e (last (take (nat limit) ?ps))) (time 0) = Inr d"
        "d \<noteq> []" "cursor_decode cr cd d (listing_context t e filters) (time (Suc 0)) = Inr (product_sort_values t e (last (take (nat limit) ?ps)))"
        "?ps = ([] @ butlast (take (nat limit) ?ps)) @ last (take (nat limit) ?ps) # drop (nat limit) ?ps"
      using next_cursor [OF assms(4) _ assms(2) True, of "[]" 0] by auto
    have "collect m (page_at cr cd compound t e filters limit time s) (Suc 0) (Some d) = Some (Inr (drop (nat limit) ?ps))"
      using assms(1-4) d(4,2,3) by (rule collect_after) (use assms(2,5) True m in auto)
    then show ?thesis using True d(1) page by (simp add: m)
  qed (simp add: page m)
  show "sorted_wrt (\<lambda>a b. pr_id a < pr_id b) ?ps" using assms(1) by (rule scope_products_strict)
  show "set ?ps = {p. \<exists>i. ((t, e, i), p) \<in> set (rp_items s)}" by (force simp: scope_products_def)
qed

text \<open>
  The largest page size the route admits always fails: the route asks the repository for 201 products.
\<close>

lemma largest_page_fails:
  "route_list_products cr cd compound t e filters 200 None now issued s = Inl (Raised (ValueError ''limit outside bounds''))"
  by (simp add: route_list_products_def list_products_def py_simps)

definition shelf_repo :: repo where
  "shelf_repo = products_repo [(''b'', []), (''a'', [])]"

lemma shelf_cursor_fits:
  "\<not> isl (cursor_encode toy_crypto toy_codec (listing_context ''t'' ''e'' []) (product_sort_values ''t'' ''e'' (sample_product ''a'' [])) 100)"
  "\<not> isl (cursor_encode toy_crypto toy_codec (listing_context ''t'' ''e'' []) (product_sort_values ''t'' ''e'' (sample_product ''b'' [])) 100)"
  by code_simp+

lemma shelf_products: "scope_products ''t'' ''e'' shelf_repo = [sample_product ''a'' [], sample_product ''b'' []]"
  by code_simp

theorem pages_cover_all_products_witness:
  "collect 3 (page_at toy_crypto toy_codec print_json ''t'' ''e'' [] 1 (\<lambda>_. 100) shelf_repo) 0 None =
     Some (Inr [sample_product ''a'' [], sample_product ''b'' []])"
proof -
  have "items_ok shelf_repo" by (simp add: items_ok_def shelf_repo_def products_repo_def sample_product_def)
  moreover have "listing_ok toy_crypto toy_codec ''t'' ''e'' [] (\<lambda>_. 100) (scope_products ''t'' ''e'' shelf_repo)"
  proof -
    have hm: "length (cr_hmac toy_crypto k b) = 32" and ttl: "cd_ttl toy_codec = 900" for k b
      by (auto simp: toy_crypto_def toy_codec_def)
    have inr: "\<not> isl x \<Longrightarrow> \<exists>c. x = Inr c" for x :: "cursor_error + string" by (cases x) auto
    show ?thesis unfolding listing_ok_def shelf_products by (simp add: hm ttl inr [OF shelf_cursor_fits(1)] inr [OF shelf_cursor_fits(2)])
  qed
  moreover have "length (scope_products ''t'' ''e'' shelf_repo) < 3" by (simp add: shelf_products)
  ultimately show ?thesis
    using pages_cover_all_products [of shelf_repo 1 toy_crypto toy_codec "''t''" "''e''" "[]" "\<lambda>_. 100" 3 print_json]
    by (simp add: shelf_products)
qed

end
