(* ===== verification/ActionModel.thy ===== *)
theory ActionModel
  imports Json
begin

text \<open>
  Governed remediation actions, \<open>services/incident_manager/automation\<close>: the records of \<open>contracts.py\<close>, the
  catalogue, the policy, the preview and the repository in memory (\<open>repository.py\<close>).

  \<open>auto_env\<close> holds what the code takes from outside: the canonical digest of a value, the clock, the
  digest constants of catalogue and policy, the secret patterns of \<open>safe_text.py\<close> and the catalogue in
  force. Instants are integers in microseconds; in an event document an instant stands for its text.
\<close>

type_synonym instant = int

type_synonym digest_hex = string

type_synonym document = "(string \<times> json) list"

definition minutes :: "int \<Rightarrow> int" where
  "minutes n = n * 60 * 1000000"

definition secs :: "int \<Rightarrow> int" where
  "secs n = n * 1000000"

section \<open>Contracts\<close>

datatype risk = RkReadOnly | RkLow | RkMedium | RkHigh | RkProhibited

datatype approval_state = ApRequested | ApApproved | ApReserved | ApRejected | ApExpired | ApCancelled | ApConsumed

datatype execution_state =
    ExQueued | ExClaimed | ExRunning | ExReconciliationRequired | ExVerificationPending | ExVerified
  | ExVerificationFailed | ExFailed | ExTimedOut | ExCancelled | ExRollbackRecommended

fun execution_state_str :: "execution_state \<Rightarrow> string" where
  "execution_state_str ExQueued = ''queued''"
| "execution_state_str ExClaimed = ''claimed''"
| "execution_state_str ExRunning = ''running''"
| "execution_state_str ExReconciliationRequired = ''reconciliation_required''"
| "execution_state_str ExVerificationPending = ''verification_pending''"
| "execution_state_str ExVerified = ''verified''"
| "execution_state_str ExVerificationFailed = ''verification_failed''"
| "execution_state_str ExFailed = ''failed''"
| "execution_state_str ExTimedOut = ''timed_out''"
| "execution_state_str ExCancelled = ''cancelled''"
| "execution_state_str ExRollbackRecommended = ''rollback_recommended''"

record action_definition =
  ad_action_type :: string
  ad_action_version :: string
  ad_risk :: risk
  ad_target_type :: string
  ad_required_incident_states :: "string list"
  ad_disallowed_incident_states :: "string list"
  ad_approval_required :: bool
  ad_timeout_seconds :: int
  ad_max_attempts :: int
  ad_verification_strategy :: string
  ad_execution_enabled :: bool

record preview =
  pv_preview_id :: string
  pv_preview_generation :: int
  pv_action_type :: string
  pv_action_version :: string
  pv_catalogue_hash :: string
  pv_policy_hash :: string
  pv_target :: "(string \<times> string) list"
  pv_risk :: risk
  pv_allowed :: bool
  pv_policy_decision :: string
  pv_denial_reason :: "string option"
  pv_approval_required :: bool
  pv_timeout_seconds :: int
  pv_max_attempts :: int
  pv_provider_state :: string
  pv_tenant_id :: string
  pv_environment :: string
  pv_incident_id :: string
  pv_incident_revision :: string
  pv_actor :: string
  pv_previewed_at :: instant
  pv_expires_at :: instant
  pv_payload_fingerprint :: string
  pv_action_fingerprint :: string
  pv_request_id :: string

record approval =
  ap_approval_id :: string
  ap_tenant_id :: string
  ap_environment :: string
  ap_incident_id :: string
  ap_incident_revision :: string
  ap_preview_id :: string
  ap_action_fingerprint :: string
  ap_action_type :: string
  ap_action_version :: string
  ap_catalogue_hash :: string
  ap_policy_hash :: string
  ap_risk :: risk
  ap_target :: "(string \<times> string) list"
  ap_payload_fingerprint :: string
  ap_requester :: string
  ap_required_permission :: string
  ap_requested_at :: instant
  ap_expires_at :: instant
  ap_reason :: string
  ap_impact :: string
  ap_request_id :: string
  ap_state :: approval_state
  ap_revision :: int
  ap_decided_by :: "string option"
  ap_decision_comment :: "string option"
  ap_decision_request_id :: "string option"
  ap_decision_event_id :: "string option"
  ap_decision_event_type :: "string option"
  ap_decision_event_pending :: bool
  ap_reserved_execution_id :: "string option"
  ap_reserved_by :: "string option"
  ap_reserved_at :: "instant option"
  ap_reservation_expires_at :: "instant option"
  ap_reservation_request_id :: "string option"
  ap_expired_at :: "instant option"

record execution =
  ex_execution_id :: string
  ex_tenant_id :: string
  ex_environment :: string
  ex_incident_id :: string
  ex_incident_revision :: string
  ex_preview_id :: string
  ex_approval_id :: "string option"
  ex_action_type :: string
  ex_action_fingerprint :: string
  ex_payload_fingerprint :: string
  ex_catalogue_hash :: string
  ex_policy_hash :: string
  ex_target :: "(string \<times> string) list"
  ex_actor :: string
  ex_request_id :: string
  ex_state :: execution_state
  ex_created_at :: instant
  ex_queued_at :: "instant option"
  ex_claimed_at :: "instant option"
  ex_execution_started_at :: "instant option"
  ex_provider_accepted_at :: "instant option"
  ex_verification_started_at :: "instant option"
  ex_updated_at :: instant
  ex_timeout_seconds :: int
  ex_max_attempts :: int
  ex_attempt :: int
  ex_lease_owner :: "string option"
  ex_lease_token :: int
  ex_lease_expires_at :: "instant option"
  ex_operation_reference :: "string option"
  ex_error_code :: "string option"
  ex_transition_event_id :: "string option"
  ex_transition_event_pending :: bool

record execution_result =
  er_accepted :: bool
  er_terminal :: bool
  er_operation_reference :: string
  er_retryable :: bool

record auto_env =
  ae_hash :: "json \<Rightarrow> string"
  ae_clock :: "nat \<Rightarrow> instant"
  ae_catalogue :: "action_definition list"
  ae_catalogue_hash :: string
  ae_policy_hash :: string
  ae_secret :: "string \<Rightarrow> bool"

section \<open>Catalogue and policy\<close>

definition catalogue_entry :: "string \<Rightarrow> string \<Rightarrow> string \<Rightarrow> action_definition" where
  "catalogue_entry action_type target strategy =
     \<lparr>ad_action_type = action_type, ad_action_version = ''1.0.0'', ad_risk = RkLow, ad_target_type = target,
      ad_required_incident_states = [''open'', ''acknowledged'', ''investigating'', ''monitoring''],
      ad_disallowed_incident_states = [''resolved'', ''closed''], ad_approval_required = False,
      ad_timeout_seconds = 300, ad_max_attempts = 2, ad_verification_strategy = strategy, ad_execution_enabled = False\<rparr>"

definition shipped_catalogue :: "action_definition list" where
  "shipped_catalogue =
     [catalogue_entry ''rerun_scan'' ''scanner'' ''scan_task_v1'',
      catalogue_entry ''freshness_recheck'' ''monitor'' ''freshness_measurement_v1'',
      catalogue_entry ''connection_test'' ''integration'' ''connection_test_v1'',
      \<lparr>ad_action_type = ''suppress_notifications'', ad_action_version = ''1.0.0'', ad_risk = RkMedium,
       ad_target_type = ''incident'', ad_required_incident_states = [''open'', ''acknowledged'', ''investigating''],
       ad_disallowed_incident_states = [''resolved'', ''closed''], ad_approval_required = True,
       ad_timeout_seconds = 60, ad_max_attempts = 1, ad_verification_strategy = ''notification_intent_v1'',
       ad_execution_enabled = False\<rparr>]"

definition catalogue_require :: "auto_env \<Rightarrow> string \<Rightarrow> py_error + action_definition" where
  "catalogue_require env action_type =
     (case find (\<lambda>d. ad_action_type d = action_type) (ae_catalogue env) of
        None \<Rightarrow> Inl (ValueError ''action type is not allowlisted'') | Some d \<Rightarrow> Inr d)"

record policy_decision =
  pd_risk :: risk
  pd_allowed :: bool
  pd_reason_code :: string
  pd_approval_required :: bool

definition evaluate_policy ::
  "action_definition \<Rightarrow> string \<Rightarrow> string \<Rightarrow> string \<Rightarrow> int \<Rightarrow> bool \<Rightarrow> policy_decision" where
  "evaluate_policy d environment severity incident_state affected_asset_count provider_ready =
     (let r = (if map lower_char environment \<in> {''prod'', ''production''} \<and> (severity = ''critical'' \<or> 25 < affected_asset_count)
               then (if ad_risk d \<in> {RkReadOnly, RkLow} then RkMedium else ad_risk d) else ad_risk d);
          decide = (\<lambda>risk allowed code approval. \<lparr>pd_risk = risk, pd_allowed = allowed, pd_reason_code = code, pd_approval_required = approval\<rparr>)
      in if severity = ''critical'' \<and> ad_action_type d = ''suppress_notifications''
           then decide RkHigh False ''critical_suppression_denied'' True
         else if r \<in> {RkHigh, RkProhibited} then decide r False ''risk_not_permitted_v1'' True
         else if incident_state \<in> set (ad_disallowed_incident_states d)
           then decide r False ''incident_state_disallowed'' (r = RkMedium)
         else if ad_required_incident_states d \<noteq> [] \<and> incident_state \<notin> set (ad_required_incident_states d)
           then decide r False ''incident_state_not_allowed'' (r = RkMedium)
         else if \<not> provider_ready \<or> \<not> ad_execution_enabled d
           then decide r False ''executor_not_configured'' (ad_approval_required d \<or> r = RkMedium)
         else decide r True ''allowed'' (ad_approval_required d \<or> r = RkMedium))"

section \<open>Previews\<close>

text \<open>
  The payload model: two identifiers, stripped, of bounded length, without secret-like parts; a missing or
  extra field is refused.
\<close>

fun contains :: "string \<Rightarrow> string \<Rightarrow> bool" where
  "contains part [] \<longleftrightarrow> part = []"
| "contains part (c # cs) \<longleftrightarrow> take (length part) (c # cs) = part \<or> contains part cs"

definition safe_identifier :: "string \<Rightarrow> bool" where
  "safe_identifier v \<longleftrightarrow> (let lowered = map lower_char v in
     \<not> list_ex (\<lambda>part. contains part lowered) [''password'', ''secret'', ''token'', ''connection_string'', ''://''])"

definition payload_field :: "document \<Rightarrow> string \<Rightarrow> nat \<Rightarrow> string option" where
  "payload_field payload key maximum =
     (case dget payload key of
        Some (JStr v) \<Rightarrow> let w = strip v in if w \<noteq> [] \<and> length w \<le> maximum \<and> safe_identifier w then Some w else None
      | _ \<Rightarrow> None)"

definition action_payload :: "document \<Rightarrow> py_error + string \<times> string" where
  "action_payload payload =
     (case (payload_field payload ''target_id'' 200, payload_field payload ''target_revision'' 120) of
        (Some target_id, Some target_revision) \<Rightarrow>
          if list_all (\<lambda>(k, v). k \<in> {''target_id'', ''target_revision''}) payload then Inr (target_id, target_revision)
          else Inl ValidationError
      | _ \<Rightarrow> Inl ValidationError)"

definition preview_create ::
  "auto_env \<Rightarrow> string \<Rightarrow> string \<Rightarrow> string \<Rightarrow> string \<Rightarrow> string \<Rightarrow> string \<Rightarrow> int \<Rightarrow> string \<Rightarrow> document \<Rightarrow>
   string \<Rightarrow> string \<Rightarrow> instant \<Rightarrow> bool \<Rightarrow> py_error + preview" where
  "preview_create env tenant_id environment incident_id incident_revision incident_state severity affected_asset_count
       action_type payload actor request_id checked_at provider_ready =
     (case catalogue_require env action_type of
        Inl e \<Rightarrow> Inl e
      | Inr d \<Rightarrow> (case action_payload payload of
        Inl e \<Rightarrow> Inl e
      | Inr (target_id, target_revision) \<Rightarrow>
          let normalized = JDict [(''target_id'', JStr target_id), (''target_revision'', JStr target_revision)];
              identity = [(''tenant'', JStr tenant_id), (''environment'', JStr environment), (''incident'', JStr incident_id),
                (''incident_revision'', JStr incident_revision), (''action_type'', JStr action_type),
                (''action_version'', JStr (ad_action_version d)), (''catalogue_hash'', JStr (ae_catalogue_hash env)),
                (''payload'', normalized), (''actor'', JStr actor), (''target_revision'', JStr target_revision)];
              fingerprint = ae_hash env (JDict (identity @ [(''policy_hash'', JStr (ae_policy_hash env))]));
              dec = evaluate_policy d environment severity incident_state affected_asset_count provider_ready
          in Inr \<lparr>pv_preview_id = ''prv_'' @ ae_hash env (JList [JStr fingerprint, JInt 1]), pv_preview_generation = 1,
              pv_action_type = action_type, pv_action_version = ad_action_version d, pv_catalogue_hash = ae_catalogue_hash env,
              pv_policy_hash = ae_policy_hash env,
              pv_target = [(''type'', ad_target_type d), (''id'', target_id), (''revision'', target_revision)],
              pv_risk = pd_risk dec, pv_allowed = pd_allowed dec, pv_policy_decision = pd_reason_code dec,
              pv_denial_reason = (if pd_allowed dec then None else Some (pd_reason_code dec)),
              pv_approval_required = pd_approval_required dec, pv_timeout_seconds = ad_timeout_seconds d,
              pv_max_attempts = ad_max_attempts d,
              pv_provider_state = (if provider_ready \<and> ad_execution_enabled d then ''ready'' else ''not_configured''),
              pv_tenant_id = tenant_id, pv_environment = environment, pv_incident_id = incident_id,
              pv_incident_revision = incident_revision, pv_actor = actor, pv_previewed_at = checked_at,
              pv_expires_at = checked_at + minutes 15, pv_payload_fingerprint = ae_hash env normalized,
              pv_action_fingerprint = fingerprint, pv_request_id = request_id\<rparr>))"

section \<open>The repository in memory\<close>

record auto_repo =
  au_previews :: "(string \<times> preview) list"
  au_approvals :: "(string \<times> approval) list"
  au_executions :: "(string \<times> execution) list"
  au_idempotency :: "(string \<times> string) list"
  au_events :: "(string \<times> document) list"
  au_ticks :: nat

type_synonym 'a au = "(auto_repo, 'a) py"

definition empty_auto :: auto_repo where
  "empty_auto = \<lparr>au_previews = [], au_approvals = [], au_executions = [], au_idempotency = [], au_events = [], au_ticks = 0\<rparr>"

definition clock_now :: "auto_env \<Rightarrow> instant au" where
  "clock_now env = (\<lambda>s. (Inr (ae_clock env (au_ticks s)), s\<lparr>au_ticks := Suc (au_ticks s)\<rparr>))"

definition save_preview_repo :: "auto_env \<Rightarrow> preview \<Rightarrow> preview au" where
  "save_preview_repo env p =
     bindp (reads (\<lambda>s. filter (\<lambda>q. pv_action_fingerprint q = pv_action_fingerprint p \<and>
         (pv_tenant_id q, pv_environment q) = (pv_tenant_id p, pv_environment p)) (dvals (au_previews s)))) (\<lambda>instances.
     case filter (\<lambda>q. pv_previewed_at p < pv_expires_at q) instances of
       q # qs \<Rightarrow> ret (max_by pv_preview_generation q qs)
     | [] \<Rightarrow>
         let generation = fold max (map pv_preview_generation instances) 0 + 1;
             candidate = p\<lparr>pv_preview_generation := generation,
               pv_preview_id := ''prv_'' @ ae_hash env (JList [JStr (pv_action_fingerprint p), JInt generation])\<rparr>
         in bindp (reads (\<lambda>s. dget (au_previews s) (pv_preview_id candidate))) (\<lambda>found.
            case found of
              Some q \<Rightarrow> ret q
            | None \<Rightarrow> seqp (writes (\<lambda>s. s\<lparr>au_previews := dput (pv_preview_id candidate) candidate (au_previews s)\<rparr>)) (ret candidate)))"

definition get_preview :: "string \<Rightarrow> string \<Rightarrow> string \<Rightarrow> preview option au" where
  "get_preview tenant_id environment preview_id = reads (\<lambda>s.
     case dget (au_previews s) preview_id of
       None \<Rightarrow> None
     | Some p \<Rightarrow> if (pv_tenant_id p, pv_environment p) = (tenant_id, environment) then Some p else None)"

definition create_approval :: "approval \<Rightarrow> approval au" where
  "create_approval a =
     bindp (reads (\<lambda>s. dget (au_approvals s) (ap_approval_id a))) (\<lambda>found.
     case found of
       Some current \<Rightarrow>
         seqp (raise_if (ap_action_fingerprint current \<noteq> ap_action_fingerprint a) (Conflict ''approval idempotency conflict''))
         (ret current)
     | None \<Rightarrow> seqp (writes (\<lambda>s. s\<lparr>au_approvals := dput (ap_approval_id a) a (au_approvals s)\<rparr>)) (ret a))"

definition get_approval :: "string \<Rightarrow> string \<Rightarrow> string \<Rightarrow> approval option au" where
  "get_approval tenant_id environment approval_id = reads (\<lambda>s.
     case dget (au_approvals s) approval_id of
       None \<Rightarrow> None
     | Some a \<Rightarrow> if (ap_tenant_id a, ap_environment a) = (tenant_id, environment) then Some a else None)"

definition update_approval :: "approval \<Rightarrow> int \<Rightarrow> approval au" where
  "update_approval a expected_revision =
     bindp (reads (\<lambda>s. dget (au_approvals s) (ap_approval_id a))) (\<lambda>found.
     seqp (raise_if (case found of None \<Rightarrow> True | Some current \<Rightarrow> ap_revision current \<noteq> expected_revision)
             (Conflict ''approval revision conflict''))
     (let saved = a\<lparr>ap_revision := expected_revision + 1\<rparr> in
      seqp (writes (\<lambda>s. s\<lparr>au_approvals := dput (ap_approval_id a) saved (au_approvals s)\<rparr>))
      (ret saved)))"

definition create_execution :: "execution \<Rightarrow> string \<Rightarrow> execution au" where
  "create_execution x idempotency_fingerprint =
     bindp (reads (\<lambda>s. dget (au_idempotency s) (ex_execution_id x))) (\<lambda>existing_hash.
     seqp (raise_if (case existing_hash of None \<Rightarrow> False | Some h \<Rightarrow> h \<noteq> [] \<and> h \<noteq> idempotency_fingerprint)
             (Conflict ''idempotency key was already used for another action''))
     (seqp (writes (\<lambda>s. s\<lparr>au_idempotency := dput (ex_execution_id x) idempotency_fingerprint (au_idempotency s)\<rparr>))
     (bindp (reads (\<lambda>s. dget (au_executions s) (ex_execution_id x))) (\<lambda>found.
      case found of
        Some current \<Rightarrow> ret current
      | None \<Rightarrow> seqp (writes (\<lambda>s. s\<lparr>au_executions := dput (ex_execution_id x) x (au_executions s)\<rparr>)) (ret x)))))"

definition get_execution :: "string \<Rightarrow> string \<Rightarrow> string \<Rightarrow> execution option au" where
  "get_execution tenant_id environment execution_id = reads (\<lambda>s.
     case dget (au_executions s) execution_id of
       None \<Rightarrow> None
     | Some x \<Rightarrow> if (ex_tenant_id x, ex_environment x) = (tenant_id, environment) then Some x else None)"

definition update_execution :: "execution \<Rightarrow> int option \<Rightarrow> execution au" where
  "update_execution x expected_lease_token =
     bindp (reads (\<lambda>s. dget (au_executions s) (ex_execution_id x))) (\<lambda>found.
     seqp (raise_if (case found of
              None \<Rightarrow> True
            | Some current \<Rightarrow> expected_lease_token \<noteq> None \<and> Some (ex_lease_token current) \<noteq> expected_lease_token)
             (Conflict ''execution fence conflict''))
     (seqp (writes (\<lambda>s. s\<lparr>au_executions := dput (ex_execution_id x) x (au_executions s)\<rparr>))
     (ret x)))"

definition renew_execution_lease :: "auto_env \<Rightarrow> string \<Rightarrow> string \<Rightarrow> string \<Rightarrow> string \<Rightarrow> int \<Rightarrow> instant \<Rightarrow> execution au" where
  "renew_execution_lease env tenant_id environment execution_id owner lease_token expires_at =
     bindp (reads (\<lambda>s. dget (au_executions s) execution_id)) (\<lambda>found.
     case found of
       None \<Rightarrow> raise (Conflict ''execution heartbeat fence conflict'')
     | Some current \<Rightarrow>
         seqp (raise_if ((ex_tenant_id current, ex_environment current) \<noteq> (tenant_id, environment) \<or>
                  ex_lease_owner current \<noteq> Some owner \<or> ex_lease_token current \<noteq> lease_token \<or>
                  ex_state current \<notin> {ExClaimed, ExRunning})
                 (Conflict ''execution heartbeat fence conflict''))
         (bindp (clock_now env) (\<lambda>now.
          let renewed = current\<lparr>ex_lease_expires_at := Some expires_at, ex_updated_at := now\<rparr> in
          seqp (writes (\<lambda>s. s\<lparr>au_executions := dput execution_id renewed (au_executions s)\<rparr>))
          (ret renewed))))"

definition queued_executions :: "int \<Rightarrow> execution list au" where
  "queued_executions limit = reads (\<lambda>s.
     slice_to limit (sort_key (\<lambda>x. (ex_created_at x, ex_execution_id x))
       (filter (\<lambda>x. ex_state x = ExQueued) (dvals (au_executions s)))))"

definition incomplete_executions :: "int \<Rightarrow> instant \<Rightarrow> execution list au" where
  "incomplete_executions limit now = reads (\<lambda>s.
     slice_to limit (sort_key ex_updated_at
       (filter (\<lambda>x. ex_state x \<in> {ExClaimed, ExRunning, ExReconciliationRequired} \<and>
          (case ex_lease_expires_at x of None \<Rightarrow> False | Some t \<Rightarrow> t \<le> now)) (dvals (au_executions s)))))"

definition executions_with_pending_evidence :: "int \<Rightarrow> execution list au" where
  "executions_with_pending_evidence limit = reads (\<lambda>s.
     slice_to (min (max limit 1) 25) (sort_key (\<lambda>x. (ex_updated_at x, ex_execution_id x))
       (filter ex_transition_event_pending (dvals (au_executions s)))))"

definition approvals_requiring_reconciliation :: "int \<Rightarrow> instant \<Rightarrow> approval list au" where
  "approvals_requiring_reconciliation limit now = reads (\<lambda>s.
     slice_to limit (sort_key ap_requested_at
       (filter (\<lambda>a. ap_decision_event_pending a \<or> ap_state a = ApReserved \<or>
          (ap_state a = ApApproved \<and> ap_expires_at a \<le> now)) (dvals (au_approvals s)))))"

definition append_event :: "string \<Rightarrow> string \<Rightarrow> document \<Rightarrow> unit au" where
  "append_event stream event_id document = writes (\<lambda>s.
     let key = stream @ '':'' @ event_id in
     case dget (au_events s) key of
       None \<Rightarrow> s\<lparr>au_events := dput key document (au_events s)\<rparr>
     | Some _ \<Rightarrow> s)"

end
