(* ===== verification/ActionCoordinator.thy ===== *)
theory ActionCoordinator
  imports ActionModel
begin

text \<open>
  \<open>coordinator.py\<close>, \<open>reconciliation.py\<close> and \<open>verification.py\<close> of the governed actions: previews, approvals by a
  second person, the reservation of an approval for one execution, the repair of partial writes, and the
  verification of an executed action.
\<close>

definition safe_text :: "auto_env \<Rightarrow> string \<Rightarrow> string \<Rightarrow> int \<Rightarrow> bool \<Rightarrow> unit au" where
  "safe_text env value field maximum allow_empty =
     seqp (raise_if (\<not> allow_empty \<and> blank value) (ValueError (field @ '' is required'')))
     (seqp (raise_if (maximum < int (length value)) (ValueError (field @ '' exceeds server limit'')))
     (seqp (raise_if (list_ex (\<lambda>c. of_char c < (32 :: nat) \<and> of_char c \<notin> {10 :: nat, 13, 9}) value)
              (ValueError (field @ '' contains control characters'')))
     (raise_if (ae_secret env value) (ValueError (field @ '' appears to contain a credential'')))))"

definition action_event ::
  "string \<Rightarrow> instant \<Rightarrow> string \<Rightarrow> string \<Rightarrow> string \<Rightarrow> string \<Rightarrow>
   digest_hex \<Rightarrow> digest_hex \<Rightarrow> digest_hex \<Rightarrow> string \<Rightarrow> string \<Rightarrow> document" where
  "action_event kind now tenant_id environment incident_id action_type fingerprint catalogue_hash policy_hash actor request_id =
     [(''@timestamp'', JInt now), (''tenant_id'', JStr tenant_id), (''environment'', JStr environment),
      (''incident_id'', JStr incident_id), (''event_type'', JStr kind), (''action_type'', JStr action_type),
      (''request_id'', JStr request_id), (''correlation_id'', JStr fingerprint),
      (''metadata'', JDict [(''actor'', JStr actor), (''catalogue_hash'', JStr catalogue_hash), (''policy_hash'', JStr policy_hash)])]"

definition approval_event :: "auto_env \<Rightarrow> string \<Rightarrow> approval \<Rightarrow> string \<Rightarrow> string \<Rightarrow> document au" where
  "approval_event env kind a actor request_id =
     bindp (clock_now env) (\<lambda>now. ret (action_event kind now (ap_tenant_id a) (ap_environment a) (ap_incident_id a)
       (ap_action_type a) (ap_action_fingerprint a) (ap_catalogue_hash a) (ap_policy_hash a) actor request_id))"

definition execution_event :: "auto_env \<Rightarrow> string \<Rightarrow> execution \<Rightarrow> string \<Rightarrow> string \<Rightarrow> document au" where
  "execution_event env kind x actor request_id =
     bindp (clock_now env) (\<lambda>now. ret (action_event kind now (ex_tenant_id x) (ex_environment x) (ex_incident_id x)
       (ex_action_type x) (ex_action_fingerprint x) (ex_catalogue_hash x) (ex_policy_hash x) actor request_id))"

fun risk_str :: "risk \<Rightarrow> string" where
  "risk_str RkReadOnly = ''read_only''"
| "risk_str RkLow = ''low''"
| "risk_str RkMedium = ''medium''"
| "risk_str RkHigh = ''high''"
| "risk_str RkProhibited = ''prohibited''"

section \<open>The coordinator\<close>

definition save_preview :: "auto_env \<Rightarrow> preview \<Rightarrow> preview au" where
  "save_preview env p =
     bindp (save_preview_repo env p) (\<lambda>saved.
     seqp (append_event ''remediation_action'' (ae_hash env (JList [JStr (pv_preview_id saved), JStr ''previewed'']))
       [(''@timestamp'', JInt (pv_previewed_at saved)), (''tenant_id'', JStr (pv_tenant_id saved)),
        (''environment'', JStr (pv_environment saved)), (''incident_id'', JStr (pv_incident_id saved)),
        (''event_type'', JStr ''action_previewed''), (''action_type'', JStr (pv_action_type saved)),
        (''risk_level'', JStr (risk_str (pv_risk saved))), (''request_id'', JStr (pv_request_id saved)),
        (''correlation_id'', JStr (pv_action_fingerprint saved)),
        (''metadata'', JDict [(''catalogue_hash'', JStr (pv_catalogue_hash saved)), (''policy_hash'', JStr (pv_policy_hash saved))])])
     (ret saved))"

definition new_approval :: "auto_env \<Rightarrow> preview \<Rightarrow> string \<Rightarrow> string \<Rightarrow> string \<Rightarrow> string \<Rightarrow> instant \<Rightarrow> approval" where
  "new_approval env p requester idempotency_key reason impact checked =
     \<lparr>ap_approval_id = ''apr_'' @ ae_hash env (JDict [(''tenant'', JStr (pv_tenant_id p)), (''environment'', JStr (pv_environment p)),
        (''preview'', JStr (pv_preview_id p)), (''key'', JStr idempotency_key)]),
      ap_tenant_id = pv_tenant_id p, ap_environment = pv_environment p, ap_incident_id = pv_incident_id p,
      ap_incident_revision = pv_incident_revision p, ap_preview_id = pv_preview_id p,
      ap_action_fingerprint = pv_action_fingerprint p, ap_action_type = pv_action_type p,
      ap_action_version = pv_action_version p, ap_catalogue_hash = pv_catalogue_hash p, ap_policy_hash = pv_policy_hash p,
      ap_risk = pv_risk p, ap_target = pv_target p, ap_payload_fingerprint = pv_payload_fingerprint p,
      ap_requester = requester, ap_required_permission = ''workflows:approve'', ap_requested_at = checked,
      ap_expires_at = min (pv_expires_at p) (checked + minutes 30), ap_reason = reason, ap_impact = impact,
      ap_request_id = pv_request_id p, ap_state = ApRequested, ap_revision = 0, ap_decided_by = None,
      ap_decision_comment = None, ap_decision_request_id = None, ap_decision_event_id = None,
      ap_decision_event_type = None, ap_decision_event_pending = False, ap_reserved_execution_id = None,
      ap_reserved_by = None, ap_reserved_at = None, ap_reservation_expires_at = None,
      ap_reservation_request_id = None, ap_expired_at = None\<rparr>"

definition request_approval ::
  "auto_env \<Rightarrow> preview \<Rightarrow> string \<Rightarrow> string \<Rightarrow> string \<Rightarrow> string \<Rightarrow> instant \<Rightarrow> approval au" where
  "request_approval env p requester idempotency_key reason impact checked =
     seqp (raise_if (pv_expires_at p \<le> checked) (Expired ''preview expired''))
     (seqp (raise_if (\<not> pv_approval_required p) (ValueError ''this action does not require approval''))
     (seqp (safe_text env reason ''approval reason'' 500 False)
     (seqp (safe_text env impact ''approval impact'' 1000 False)
     (let a = new_approval env p requester idempotency_key reason impact checked in
      bindp (create_approval a) (\<lambda>saved.
      bindp (approval_event env ''approval_requested'' saved requester (pv_request_id p)) (\<lambda>doc.
      seqp (append_event ''approval_event'' (ae_hash env (JList [JStr (ap_approval_id a), JStr ''requested''])) doc)
      (ret saved)))))))"

definition deliver_decision_event :: "auto_env \<Rightarrow> approval \<Rightarrow> unit au" where
  "deliver_decision_event env a =
     (case (ap_decision_event_id a, ap_decision_event_type a) of
        (Some (c # cs), Some (d # ds)) \<Rightarrow>
          if \<not> ap_decision_event_pending a then ret ()
          else
            bindp (approval_event env (d # ds) a (por_else (ap_decided_by a) ''unknown'')
              (por_else (ap_decision_request_id a) (ap_request_id a))) (\<lambda>doc.
            seqp (append_event ''approval_event'' (c # cs) doc)
            (seqp (update_approval (a\<lparr>ap_decision_event_pending := False\<rparr>) (ap_revision a))
            (ret ())))
      | _ \<Rightarrow> ret ())"

definition reread_approval :: "string \<Rightarrow> string \<Rightarrow> string \<Rightarrow> approval \<Rightarrow> approval au" where
  "reread_approval tenant_id environment approval_id a =
     bindp (get_approval tenant_id environment approval_id) (\<lambda>found. ret (case found of None \<Rightarrow> a | Some b \<Rightarrow> b))"

definition decide_approval ::
  "auto_env \<Rightarrow> string \<Rightarrow> string \<Rightarrow> string \<Rightarrow> string \<Rightarrow> string list \<Rightarrow> bool \<Rightarrow> string \<Rightarrow> string \<Rightarrow> instant \<Rightarrow> approval au" where
  "decide_approval env tenant_id environment approval_id actor permissions approve comment request_id checked =
     bindp (get_approval tenant_id environment approval_id) (\<lambda>found.
     case found of
       None \<Rightarrow> raise (KeyError approval_id)
     | Some a \<Rightarrow>
         let kind = (if approve then ''approval_approved'' else ''approval_rejected'');
             event_id = ae_hash env (JList [JStr approval_id, JStr kind, JStr request_id]);
             desired = (if approve then ApApproved else ApRejected)
         in
           if ap_state a \<noteq> ApRequested then
             (if ap_state a = desired \<and> ap_decided_by a = Some actor \<and> ap_decision_request_id a = Some request_id
              then seqp (deliver_decision_event env a) (reread_approval tenant_id environment approval_id a)
              else raise (Conflict ''approval is no longer pending''))
           else if ap_expires_at a \<le> checked then
             bindp (update_approval (a\<lparr>ap_state := ApExpired\<rparr>) (ap_revision a)) (\<lambda>saved.
             bindp (approval_event env ''approval_expired'' saved actor request_id) (\<lambda>doc.
             seqp (append_event ''approval_event'' (ae_hash env (JList [JStr approval_id, JStr ''expired''])) doc)
             (raise (Expired ''approval expired''))))
           else
             seqp (raise_if (actor = ap_requester a) (PermissionError ''requester cannot approve their own governed action''))
             (seqp (raise_if (ap_required_permission a \<notin> set permissions) (PermissionError ''approval decision permission required''))
             (seqp (safe_text env comment ''approval comment'' 1000 True)
             (bindp (update_approval (a\<lparr>ap_state := desired, ap_decided_by := Some actor, ap_decision_comment := Some comment,
                 ap_decision_request_id := Some request_id, ap_decision_event_id := Some event_id,
                 ap_decision_event_type := Some kind, ap_decision_event_pending := True\<rparr>) (ap_revision a)) (\<lambda>saved.
             seqp (deliver_decision_event env saved)
             (reread_approval tenant_id environment approval_id saved))))))"

definition expire_approval :: "auto_env \<Rightarrow> approval \<Rightarrow> string \<Rightarrow> string \<Rightarrow> instant \<Rightarrow> approval au" where
  "expire_approval env a actor request_id now =
     (if ap_state a \<noteq> ApApproved then ret a
      else
        bindp (update_approval (a\<lparr>ap_state := ApExpired, ap_expired_at := Some now\<rparr>) (ap_revision a)) (\<lambda>saved.
        bindp (approval_event env ''approval_expired'' saved actor request_id) (\<lambda>doc.
        seqp (append_event ''approval_event'' (ae_hash env (JList [JStr (ap_approval_id a), JStr ''expired''])) doc)
        (ret saved))))"

definition consume_reservation :: "approval \<Rightarrow> approval au" where
  "consume_reservation a =
     (if ap_state a = ApConsumed then ret a
      else (case ap_reserved_execution_id a of
          Some (c # cs) \<Rightarrow>
            seqp (raise_if (ap_state a \<noteq> ApReserved) (Conflict ''approval reservation is invalid''))
            (bindp (get_execution (ap_tenant_id a) (ap_environment a) (c # cs)) (\<lambda>found.
             seqp (raise_if (found = None) (Conflict ''reserved execution has not been published''))
             (update_approval (a\<lparr>ap_state := ApConsumed\<rparr>) (ap_revision a))))
        | _ \<Rightarrow> raise (Conflict ''approval reservation is invalid'')))"

text \<open>
  The approval an execution may use: \<open>Inl\<close> is an execution that already exists for it, \<open>Inr\<close> the approval
  of an action that needs one.
\<close>

definition usable_approval ::
  "auto_env \<Rightarrow> preview \<Rightarrow> string \<Rightarrow> string option \<Rightarrow> string \<Rightarrow> instant \<Rightarrow> (execution + approval option) au" where
  "usable_approval env p actor approval_id request_id checked =
     (if \<not> pv_approval_required p then ret (Inr None)
      else (case approval_id of
          Some (c # cs) \<Rightarrow>
            bindp (get_approval (pv_tenant_id p) (pv_environment p) (c # cs)) (\<lambda>found.
            case found of
              None \<Rightarrow> raise (PolicyDenied ''valid approval required'')
            | Some a \<Rightarrow>
                if ap_state a = ApConsumed \<and> ap_reserved_execution_id a \<notin> {None, Some []} then
                  bindp (get_execution (pv_tenant_id p) (pv_environment p) (the (ap_reserved_execution_id a))) (\<lambda>existing.
                  case existing of
                    Some x \<Rightarrow> if ex_actor x = actor \<and> ex_preview_id x = pv_preview_id p then ret (Inl x)
                              else raise (PolicyDenied ''valid approval required'')
                  | None \<Rightarrow> raise (PolicyDenied ''valid approval required''))
                else if ap_state a \<notin> {ApApproved, ApReserved} then raise (PolicyDenied ''valid approval required'')
                else if ap_expires_at a \<le> checked then
                  seqp (if ap_state a = ApApproved then seqp (expire_approval env a actor request_id checked) (ret ()) else ret ())
                  (raise (Expired ''approval expired''))
                else
                  seqp (raise_if (ap_action_fingerprint a \<noteq> pv_action_fingerprint p \<or> ap_preview_id a \<noteq> pv_preview_id p)
                          (Conflict ''approval does not bind to this exact action''))
                  (seqp (raise_if (ap_decided_by a = Some actor)
                          (PermissionError ''approver cannot execute their own governed request''))
                  (ret (Inr (Some a)))))
        | _ \<Rightarrow> raise (PolicyDenied ''approval required'')))"

definition operation_identity :: "preview \<Rightarrow> string \<Rightarrow> approval option \<Rightarrow> document" where
  "operation_identity p idempotency_key a =
     [(''tenant'', JStr (pv_tenant_id p)), (''environment'', JStr (pv_environment p)), (''incident'', JStr (pv_incident_id p)),
      (''action'', JStr (pv_action_fingerprint p)),
      (''idempotency_key'', JStr (case a of None \<Rightarrow> idempotency_key | Some b \<Rightarrow> ap_approval_id b))]"

definition json_opt :: "string option \<Rightarrow> json" where
  "json_opt x = (case x of None \<Rightarrow> JNull | Some s \<Rightarrow> JStr s)"

definition new_execution ::
  "action_definition \<Rightarrow> preview \<Rightarrow> string \<Rightarrow> string \<Rightarrow> string option \<Rightarrow> string \<Rightarrow> instant \<Rightarrow> execution" where
  "new_execution d p execution_id actor approval_id request_id checked =
     \<lparr>ex_execution_id = execution_id, ex_tenant_id = pv_tenant_id p, ex_environment = pv_environment p,
      ex_incident_id = pv_incident_id p, ex_incident_revision = pv_incident_revision p, ex_preview_id = pv_preview_id p,
      ex_approval_id = approval_id, ex_action_type = pv_action_type p, ex_action_fingerprint = pv_action_fingerprint p,
      ex_payload_fingerprint = pv_payload_fingerprint p, ex_catalogue_hash = pv_catalogue_hash p,
      ex_policy_hash = pv_policy_hash p, ex_target = pv_target p, ex_actor = actor, ex_request_id = request_id,
      ex_state = ExQueued, ex_created_at = checked, ex_queued_at = Some checked, ex_claimed_at = None,
      ex_execution_started_at = None, ex_provider_accepted_at = None, ex_verification_started_at = None,
      ex_updated_at = checked, ex_timeout_seconds = ad_timeout_seconds d, ex_max_attempts = ad_max_attempts d,
      ex_attempt = 0, ex_lease_owner = None, ex_lease_token = 0, ex_lease_expires_at = None,
      ex_operation_reference = None, ex_error_code = None, ex_transition_event_id = None,
      ex_transition_event_pending = False\<rparr>"

text \<open>
  Reserving an approval for an execution: \<open>Inl\<close> is the execution already published for a reservation.
\<close>

definition reserve_approval ::
  "preview \<Rightarrow> approval option \<Rightarrow> string \<Rightarrow> string \<Rightarrow> string \<Rightarrow> instant \<Rightarrow> (execution + approval option) au" where
  "reserve_approval p approval execution_id actor request_id checked =
     (case approval of
        None \<Rightarrow> ret (Inr None)
      | Some a \<Rightarrow>
          if ap_state a = ApReserved then
            seqp (raise_if (ap_reserved_execution_id a \<noteq> Some execution_id \<or> ap_reserved_by a \<noteq> Some actor)
                    (Conflict ''approval is reserved for another execution''))
            (bindp (get_execution (pv_tenant_id p) (pv_environment p) execution_id) (\<lambda>existing.
             case existing of
               Some x \<Rightarrow> seqp (consume_reservation a) (ret (Inl x))
             | None \<Rightarrow> ret (Inr (Some a))))
          else
            bindp (update_approval (a\<lparr>ap_state := ApReserved, ap_reserved_execution_id := Some execution_id,
                ap_reserved_by := Some actor, ap_reserved_at := Some checked,
                ap_reservation_expires_at := Some (checked + minutes 5), ap_reservation_request_id := Some request_id\<rparr>)
              (ap_revision a)) (\<lambda>saved. ret (Inr (Some saved))))"

definition publish_execution ::
  "auto_env \<Rightarrow> preview \<Rightarrow> string \<Rightarrow> string \<Rightarrow> string option \<Rightarrow> string \<Rightarrow> string \<Rightarrow> instant \<Rightarrow> approval option \<Rightarrow> execution au" where
  "publish_execution env p execution_id fingerprint approval_id actor request_id checked approval =
     (case catalogue_require env (pv_action_type p) of
        Inl e \<Rightarrow> raise e
      | Inr d \<Rightarrow>
          bindp (create_execution (new_execution d p execution_id actor approval_id request_id checked) fingerprint) (\<lambda>saved.
          seqp (case approval of None \<Rightarrow> ret () | Some a \<Rightarrow> seqp (consume_reservation a) (ret ()))
          (bindp (execution_event env ''execution_queued'' saved actor request_id) (\<lambda>doc.
          seqp (append_event ''remediation_action'' (ae_hash env (JList [JStr execution_id, JStr ''queued''])) doc)
          (ret saved)))))"

definition queue_guards :: "auto_env \<Rightarrow> preview \<Rightarrow> string \<Rightarrow> string \<Rightarrow> string \<Rightarrow> instant \<Rightarrow> unit au" where
  "queue_guards env p actor current_incident_revision current_target_revision checked =
     seqp (raise_if (pv_expires_at p \<le> checked) (Expired ''preview expired''))
     (seqp (raise_if (\<not> pv_allowed p)
             (PolicyDenied (if pv_provider_state p = ''not_configured'' then ''executor not configured''
                            else por_else (pv_denial_reason p) ''action denied'')))
     (seqp (raise_if (actor \<noteq> pv_actor p) (Conflict ''preview actor changed; create a new preview''))
     (seqp (raise_if (pv_catalogue_hash p \<noteq> ae_catalogue_hash env \<or> pv_policy_hash p \<noteq> ae_policy_hash env)
             (Conflict ''catalogue or policy changed; create a new preview''))
     (if pv_incident_revision p \<noteq> current_incident_revision then raise (Conflict ''incident or target revision changed'')
      else (case dget (pv_target p) ''revision'' of
          None \<Rightarrow> raise (KeyError ''revision'')
        | Some v \<Rightarrow> raise_if (v \<noteq> current_target_revision) (Conflict ''incident or target revision changed''))))))"

definition queue_with ::
  "auto_env \<Rightarrow> preview \<Rightarrow> string \<Rightarrow> string \<Rightarrow> string option \<Rightarrow> string \<Rightarrow> instant \<Rightarrow> approval option \<Rightarrow> execution au" where
  "queue_with env p actor idempotency_key approval_id request_id checked approval =
     (let identity = operation_identity p idempotency_key approval;
          execution_id = ''exe_'' @ ae_hash env (JDict identity);
          fingerprint = ae_hash env (JDict (identity @ [(''preview'', JStr (pv_preview_id p)),
            (''approval'', json_opt approval_id), (''payload'', JStr (pv_payload_fingerprint p)),
            (''target'', JDict (map (\<lambda>(k, v). (k, JStr v)) (pv_target p)))]))
      in bindp (reserve_approval p approval execution_id actor request_id checked) (\<lambda>reserved.
         case reserved of
           Inl x \<Rightarrow> ret x
         | Inr a \<Rightarrow> publish_execution env p execution_id fingerprint approval_id actor request_id checked a))"

definition queue_execution ::
  "auto_env \<Rightarrow> preview \<Rightarrow> string \<Rightarrow> string \<Rightarrow> string \<Rightarrow> string \<Rightarrow> string option \<Rightarrow> string \<Rightarrow> instant \<Rightarrow> execution au" where
  "queue_execution env p actor idempotency_key current_incident_revision current_target_revision approval_id request_id checked =
     seqp (queue_guards env p actor current_incident_revision current_target_revision checked)
     (bindp (usable_approval env p actor approval_id request_id checked) (\<lambda>usable.
      case usable of
        Inl x \<Rightarrow> ret x
      | Inr approval \<Rightarrow> queue_with env p actor idempotency_key approval_id request_id checked approval))"

section \<open>Reconciliation of partial writes\<close>

text \<open>\<open>except Conflict:\<close> with what follows it; a \<open>continue\<close> there counts nothing.\<close>

definition on_conflict :: "'a au \<Rightarrow> 'a au \<Rightarrow> 'a au" where
  "on_conflict m h = trycatch m (\<lambda>e. case e of Conflict _ \<Rightarrow> h | _ \<Rightarrow> raise e)"

definition skip_conflict :: "int au \<Rightarrow> int au" where
  "skip_conflict m = on_conflict m (ret 0)"

definition transition_document :: "execution \<Rightarrow> document" where
  "transition_document x =
     [(''@timestamp'', JInt (ex_updated_at x)), (''tenant_id'', JStr (ex_tenant_id x)),
      (''environment'', JStr (ex_environment x)), (''incident_id'', JStr (ex_incident_id x)),
      (''workflow_execution_id'', JStr (ex_execution_id x)),
      (''event_type'', JStr (''execution_'' @ execution_state_str (ex_state x))), (''action_type'', JStr (ex_action_type x)),
      (''retry_count'', JInt (max (ex_attempt x - 1) 0)),
      (''terminal_state'', JBool (ex_state x \<in> {ExVerified, ExVerificationFailed, ExFailed, ExCancelled, ExTimedOut})),
      (''request_id'', JStr (ex_request_id x)), (''correlation_id'', JStr (ex_action_fingerprint x)),
      (''metadata'', JDict [(''attempt'', JInt (ex_attempt x)), (''error_code'', json_opt (ex_error_code x)),
         (''catalogue_hash'', JStr (ex_catalogue_hash x)), (''policy_hash'', JStr (ex_policy_hash x))])]"

definition transition_id :: "auto_env \<Rightarrow> execution \<Rightarrow> string" where
  "transition_id env x = ae_hash env (JList [JStr (ex_execution_id x), JStr (execution_state_str (ex_state x)), JInt (ex_attempt x)])"

definition repair_evidence :: "auto_env \<Rightarrow> execution \<Rightarrow> int au" where
  "repair_evidence env x = skip_conflict (
     seqp (append_event ''remediation_action'' (por_else (ex_transition_event_id x) (transition_id env x)) (transition_document x))
     (seqp (update_execution (x\<lparr>ex_transition_event_pending := False\<rparr>) (Some (ex_lease_token x)))
     (ret 1)))"

definition repair_approval :: "auto_env \<Rightarrow> instant \<Rightarrow> approval \<Rightarrow> int au" where
  "repair_approval env checked a = skip_conflict (
     if ap_decision_event_pending a then seqp (deliver_decision_event env a) (ret 1)
     else if ap_state a = ApApproved \<and> ap_expires_at a \<le> checked then
       seqp (expire_approval env a ''automation-reconciler'' (ap_request_id a) checked) (ret 1)
     else if ap_state a \<noteq> ApReserved \<or> ap_reserved_execution_id a \<in> {None, Some []} then ret 0
     else
       bindp (get_execution (ap_tenant_id a) (ap_environment a) (the (ap_reserved_execution_id a))) (\<lambda>reserved.
       if reserved \<noteq> None then seqp (consume_reservation a) (ret 1)
       else if (case ap_reservation_expires_at a of None \<Rightarrow> False | Some t \<Rightarrow> t \<le> checked) then
         seqp (update_approval (a\<lparr>ap_state := ApApproved, ap_reserved_execution_id := None, ap_reserved_by := None,
                 ap_reserved_at := None, ap_reservation_expires_at := None, ap_reservation_request_id := None\<rparr>) (ap_revision a))
         (ret 1)
       else ret 0))"

fun count_repairs :: "('a \<Rightarrow> int au) \<Rightarrow> 'a list \<Rightarrow> int au" where
  "count_repairs f [] = ret 0"
| "count_repairs f (x # xs) = bindp (f x) (\<lambda>n. bindp (count_repairs f xs) (\<lambda>m. ret (n + m)))"

definition reconciler_run_once :: "auto_env \<Rightarrow> int \<Rightarrow> instant \<Rightarrow> int au" where
  "reconciler_run_once env limit checked =
     bindp (executions_with_pending_evidence limit) (\<lambda>xs.
     bindp (count_repairs (repair_evidence env) xs) (\<lambda>n.
     bindp (approvals_requiring_reconciliation limit checked) (\<lambda>as.
     bindp (count_repairs (repair_approval env checked) as) (\<lambda>m. ret (n + m)))))"

section \<open>Verification\<close>

record evidence =
  ve_reference :: string
  ve_target_id :: string
  ve_tenant_id :: "string option"
  ve_environment :: "string option"
  ve_action_type :: "string option"
  ve_operation_reference :: "string option"
  ve_execution_attempt :: "int option"
  ve_observed_at :: instant
  ve_successful :: bool
  ve_recovery_observed :: "bool option"

definition evidence_fits :: "execution \<Rightarrow> evidence \<Rightarrow> bool" where
  "evidence_fits x v \<longleftrightarrow>
     (case ex_execution_started_at x of None \<Rightarrow> False | Some t \<Rightarrow> t \<le> ve_observed_at v) \<and>
     Some (ve_target_id v) = dget (ex_target x) ''id'' \<and>
     ve_tenant_id v \<in> {None, Some (ex_tenant_id x)} \<and> ve_environment v \<in> {None, Some (ex_environment x)} \<and>
     ve_action_type v \<in> {None, Some (ex_action_type x)} \<and>
     ve_operation_reference v \<in> {None, ex_operation_reference x} \<and>
     ve_execution_attempt v \<in> {None, Some (ex_attempt x)}"

definition verification_document :: "auto_env \<Rightarrow> execution \<Rightarrow> evidence \<Rightarrow> action_definition \<Rightarrow> document" where
  "verification_document env x v d =
     [(''@timestamp'', JInt (ex_updated_at x)), (''tenant_id'', JStr (ex_tenant_id x)),
      (''environment'', JStr (ex_environment x)), (''incident_id'', JStr (ex_incident_id x)),
      (''workflow_execution_id'', JStr (ex_execution_id x)), (''event_type'', JStr (execution_state_str (ex_state x))),
      (''action_type'', JStr (ex_action_type x)), (''terminal_state'', JBool True), (''request_id'', JStr (ex_request_id x)),
      (''correlation_id'', JStr (ex_action_fingerprint x)),
      (''metadata'', JDict [(''verification_strategy'', JStr (ad_verification_strategy d)), (''evidence_reference'', JStr (ve_reference v)),
         (''verified_execution'', JBool (ex_state x = ExVerified)),
         (''recovery_observed'', (case ve_recovery_observed v of None \<Rightarrow> JNull | Some b \<Rightarrow> JBool b)),
         (''catalogue_name'', JStr ''dataobs-safe-remediation''), (''catalogue_version'', JStr ''1.0.0''),
         (''catalogue_hash'', JStr (ex_catalogue_hash x)), (''policy_hash'', JStr (ex_policy_hash x))])]"

text \<open>
  The document is built inside the \<open>try\<close>: an action outside the catalogue returns the saved execution
  with its evidence still pending. A target without an identifier raises \<open>KeyError\<close>.
\<close>

definition verified_execution :: "auto_env \<Rightarrow> execution \<Rightarrow> evidence \<Rightarrow> instant \<Rightarrow> execution" where
  "verified_execution env x v now =
     (let y = (if \<not> evidence_fits x v
               then x\<lparr>ex_state := ExVerificationFailed, ex_error_code := Some ''stale_or_wrong_target_evidence''\<rparr>
               else if ve_successful v then x\<lparr>ex_state := ExVerified\<rparr>
               else x\<lparr>ex_state := ExVerificationFailed, ex_error_code := Some ''operation_not_verified''\<rparr>)
      in y\<lparr>ex_updated_at := now,
           ex_transition_event_id := Some (ae_hash env (JList [JStr (ex_execution_id x), JStr ''verification'', JStr (ve_reference v)])),
           ex_transition_event_pending := True\<rparr>)"

definition verify_execution :: "auto_env \<Rightarrow> execution \<Rightarrow> evidence \<Rightarrow> execution au" where
  "verify_execution env x v =
     (if ex_state x \<noteq> ExVerificationPending then ret x
      else
        seqp (raise_if (ex_execution_started_at x \<noteq> None \<and> the (ex_execution_started_at x) \<le> ve_observed_at v \<and>
                dget (ex_target x) ''id'' = None) (KeyError ''id''))
        (bindp (clock_now env) (\<lambda>now.
         let y = verified_execution env x v now in
         bindp (update_execution y (Some (ex_lease_token y))) (\<lambda>saved.
         case catalogue_require env (ex_action_type y) of
           Inl _ \<Rightarrow> ret saved
         | Inr d \<Rightarrow>
             seqp (append_event ''verification_event'' (the (ex_transition_event_id y)) (verification_document env y v d))
             (update_execution (y\<lparr>ex_transition_event_pending := False\<rparr>) (Some (ex_lease_token y)))))))"

end
