(* ===== verification/ActionWorker.thy ===== *)
theory ActionWorker
  imports ActionCoordinator
begin

text \<open>
  \<open>execution.py\<close>: the worker that claims queued executions, calls the provider and records the outcome. The
  provider runs while a heartbeat thread renews the lease, so the treatment of one execution is split where
  others may intervene: \<open>worker_start\<close> up to the call, \<open>heartbeat_tick\<close> for one renewal during it, and
  \<open>worker_finish\<close> from its outcome on; \<open>worker_run_once\<close> composes them around an arbitrary call.

  The provider itself is a parameter: what it returns or raises is the datatype \<open>provider_outcome\<close>. The clock is
  read where the code reads it without an instant given by the caller.
\<close>

datatype provider_outcome =
    Returned execution_result
  | RetryableBeforeSubmission
  | ProviderOutcomeUnknown
  | NonRetryableExecutorFailure
  | OtherFailure

record worker =
  wk_id :: string
  wk_lease_seconds :: int
  wk_registered :: "string \<Rightarrow> bool"

definition worker_init :: "string \<Rightarrow> int \<Rightarrow> rat \<Rightarrow> (string \<Rightarrow> bool) \<Rightarrow> py_error + worker" where
  "worker_init worker_id lease_seconds heartbeat_seconds registered =
     (if lease_seconds < 3 \<or> heartbeat_seconds \<le> 0 \<or> of_int lease_seconds / 3 < heartbeat_seconds
      then Inl (ValueError ''heartbeat_seconds must be positive and no greater than lease_seconds / 3'')
      else Inr \<lparr>wk_id = worker_id, wk_lease_seconds = lease_seconds, wk_registered = registered\<rparr>)"

section \<open>Claiming and starting\<close>

definition claim_execution :: "worker \<Rightarrow> execution \<Rightarrow> instant \<Rightarrow> execution au" where
  "claim_execution w x checked =
     seqp (raise_if (ex_state x \<noteq> ExQueued) (Conflict ''execution is not claimable''))
     (update_execution (x\<lparr>ex_state := ExClaimed, ex_lease_owner := Some (wk_id w), ex_lease_token := ex_lease_token x + 1,
         ex_lease_expires_at := Some (checked + secs (wk_lease_seconds w)), ex_claimed_at := Some checked,
         ex_updated_at := checked\<rparr>) (Some (ex_lease_token x)))"

text \<open>
  A claimed execution becomes a running one: the execution to hand to the provider, if any, and what the
  batch counts so far.
\<close>

definition start_claimed :: "auto_env \<Rightarrow> worker \<Rightarrow> execution \<Rightarrow> (execution option \<times> int) au" where
  "start_claimed env w x =
     (if \<not> wk_registered w (ex_action_type x) then
        seqp (update_execution (x\<lparr>ex_state := ExFailed, ex_error_code := Some ''executor_not_configured''\<rparr>) (Some (ex_lease_token x)))
        (ret (None, 1))
      else
        bindp (clock_now env) (\<lambda>started.
        let item = x\<lparr>ex_state := ExRunning, ex_attempt := ex_attempt x + 1, ex_updated_at := started,
              ex_execution_started_at := Some started\<rparr>
        in on_conflict (seqp (update_execution item (Some (ex_lease_token item))) (ret (Some item, 0))) (ret (None, 1))))"

definition worker_start :: "auto_env \<Rightarrow> worker \<Rightarrow> execution \<Rightarrow> (execution option \<times> int) au" where
  "worker_start env w queued =
     bindp (clock_now env) (\<lambda>item_now.
     bindp (on_conflict (bindp (claim_execution w queued item_now) (\<lambda>x. ret (Some x))) (ret None)) (\<lambda>claimed.
     case claimed of
       None \<Rightarrow> ret (None, 0)
     | Some x \<Rightarrow> start_claimed env w x))"

text \<open>One turn of the heartbeat loop: \<open>None\<close> sets the lost flag and ends the thread.\<close>

definition execution_deadline :: "execution \<Rightarrow> instant" where
  "execution_deadline x = the (ex_execution_started_at x) + secs (ex_timeout_seconds x)"

definition heartbeat_tick :: "auto_env \<Rightarrow> worker \<Rightarrow> execution \<Rightarrow> execution option au" where
  "heartbeat_tick env w item =
     (if ex_execution_started_at item = None then ret None
      else
        bindp (clock_now env) (\<lambda>now.
        if execution_deadline item < now then ret None
        else trycatch
          (bindp (renew_execution_lease env (ex_tenant_id item) (ex_environment item) (ex_execution_id item) (wk_id w)
              (ex_lease_token item) (min (now + secs (wk_lease_seconds w)) (execution_deadline item))) (\<lambda>renewed.
           ret (Some (item\<lparr>ex_lease_expires_at := ex_lease_expires_at renewed\<rparr>))))
          (\<lambda>_. ret None)))"

section \<open>Recording the outcome\<close>

definition failure_document :: "execution \<Rightarrow> string \<Rightarrow> execution_state \<Rightarrow> bool \<Rightarrow> bool \<Rightarrow> document" where
  "failure_document x code old_state retry_safe uncertain =
     [(''@timestamp'', JInt (ex_updated_at x)), (''tenant_id'', JStr (ex_tenant_id x)),
      (''environment'', JStr (ex_environment x)), (''incident_id'', JStr (ex_incident_id x)),
      (''workflow_execution_id'', JStr (ex_execution_id x)),
      (''event_type'', JStr (''execution_'' @ execution_state_str (ex_state x))), (''action_type'', JStr (ex_action_type x)),
      (''retry_count'', JInt (max (ex_attempt x - 1) 0)),
      (''terminal_state'', JBool (ex_state x \<in> {ExFailed, ExCancelled, ExTimedOut})),
      (''request_id'', JStr (ex_request_id x)), (''correlation_id'', JStr (ex_action_fingerprint x)),
      (''metadata'', JDict [(''old_state'', JStr (execution_state_str old_state)),
         (''new_state'', JStr (execution_state_str (ex_state x))), (''attempt'', JInt (ex_attempt x)), (''error_code'', JStr code),
         (''retryable'', JBool retry_safe), (''outcome_known'', JBool (\<not> uncertain)),
         (''provider_outcome'', (if code = ''execution_deadline_exceeded'' then JStr ''unknown_or_late'' else JNull)),
         (''execution_started_at'', (case ex_execution_started_at x of None \<Rightarrow> JNull | Some t \<Rightarrow> JInt t)),
         (''deadline'', (case ex_execution_started_at x of None \<Rightarrow> JNull | Some t \<Rightarrow> JInt (t + secs (ex_timeout_seconds x)))),
         (''observed_completion_at'', (if code = ''execution_deadline_exceeded'' then JInt (ex_updated_at x) else JNull)),
         (''catalogue_hash'', JStr (ex_catalogue_hash x)), (''policy_hash'', JStr (ex_policy_hash x))])]"

definition failed_item :: "auto_env \<Rightarrow> execution \<Rightarrow> string \<Rightarrow> bool \<Rightarrow> bool \<Rightarrow> instant \<Rightarrow> execution" where
  "failed_item env item code retry_safe uncertain now =
     (let x = item\<lparr>ex_error_code := Some code, ex_updated_at := now\<rparr>;
          y = (if retry_safe \<and> ex_attempt x < ex_max_attempts x
               then x\<lparr>ex_state := ExQueued, ex_lease_owner := None, ex_lease_expires_at := None\<rparr>
               else if uncertain then x\<lparr>ex_state := ExReconciliationRequired\<rparr>
               else x\<lparr>ex_state := ExFailed\<rparr>)
      in y\<lparr>ex_transition_event_id := Some (transition_id env y), ex_transition_event_pending := True\<rparr>)"

definition record_failure :: "auto_env \<Rightarrow> execution \<Rightarrow> string \<Rightarrow> bool \<Rightarrow> bool \<Rightarrow> instant option \<Rightarrow> unit au" where
  "record_failure env item code retry_safe uncertain observed_at =
     bindp (case observed_at of None \<Rightarrow> clock_now env | Some t \<Rightarrow> ret t) (\<lambda>now.
     let x = failed_item env item code retry_safe uncertain now in
     seqp (update_execution x (Some (ex_lease_token x)))
     (seqp (append_event ''remediation_action'' (the (ex_transition_event_id x))
              (failure_document x code (ex_state item) retry_safe uncertain))
     (on_conflict (seqp (update_execution (x\<lparr>ex_transition_event_pending := False\<rparr>) (Some (ex_lease_token x))) (ret ())) (ret ()))))"

definition finished_item :: "auto_env \<Rightarrow> execution \<Rightarrow> execution_result \<Rightarrow> instant \<Rightarrow> execution" where
  "finished_item env item result finished_at =
     (let x = item\<lparr>ex_operation_reference := Some (take 200 (er_operation_reference result)), ex_updated_at := finished_at\<rparr>;
          y = (if er_accepted result
               then x\<lparr>ex_state := ExVerificationPending, ex_provider_accepted_at := Some finished_at,
                      ex_verification_started_at := Some finished_at\<rparr>
               else if er_retryable result \<and> ex_attempt x < ex_max_attempts x
               then x\<lparr>ex_state := ExQueued, ex_lease_owner := None, ex_lease_expires_at := None\<rparr>
               else x\<lparr>ex_state := ExFailed, ex_error_code := Some ''provider_operation_failed''\<rparr>)
      in y\<lparr>ex_transition_event_id := Some (transition_id env y), ex_transition_event_pending := True\<rparr>)"

definition outcome_document :: "execution \<Rightarrow> document" where
  "outcome_document x =
     [(''@timestamp'', JInt (ex_updated_at x)), (''tenant_id'', JStr (ex_tenant_id x)),
      (''environment'', JStr (ex_environment x)), (''incident_id'', JStr (ex_incident_id x)),
      (''workflow_execution_id'', JStr (ex_execution_id x)),
      (''event_type'', JStr (''execution_'' @ execution_state_str (ex_state x))), (''action_type'', JStr (ex_action_type x)),
      (''retry_count'', JInt (ex_attempt x - 1)), (''terminal_state'', JBool (ex_state x \<in> {ExFailed, ExCancelled})),
      (''request_id'', JStr (ex_request_id x)), (''correlation_id'', JStr (ex_action_fingerprint x)),
      (''metadata'', JDict [(''catalogue_hash'', JStr (ex_catalogue_hash x)), (''policy_hash'', JStr (ex_policy_hash x))])]"

definition record_outcome :: "auto_env \<Rightarrow> execution \<Rightarrow> unit au" where
  "record_outcome env x =
     bindp (on_conflict (seqp (update_execution x (Some (ex_lease_token x))) (ret True)) (ret False)) (\<lambda>stored.
     if \<not> stored then ret ()
     else seqp (append_event ''remediation_action'' (the (ex_transition_event_id x)) (outcome_document x))
       (seqp (update_execution (x\<lparr>ex_transition_event_pending := False\<rparr>) (Some (ex_lease_token x))) (ret ())))"

text \<open>From the outcome of the provider on; \<open>lost\<close> is the flag the heartbeat sets.\<close>

definition worker_finish :: "auto_env \<Rightarrow> execution \<Rightarrow> provider_outcome \<Rightarrow> bool \<Rightarrow> unit au" where
  "worker_finish env item outcome lost =
     (case outcome of
        RetryableBeforeSubmission \<Rightarrow>
          if lost then ret () else record_failure env item ''executor_retryable_before_submission'' True False None
      | ProviderOutcomeUnknown \<Rightarrow>
          if lost then ret () else record_failure env item ''provider_outcome_unknown'' False True None
      | NonRetryableExecutorFailure \<Rightarrow>
          if lost then ret () else record_failure env item ''executor_non_retryable'' False False None
      | OtherFailure \<Rightarrow>
          if lost then ret () else record_failure env item ''unexpected_executor_failure'' False True None
      | Returned result \<Rightarrow>
          bindp (clock_now env) (\<lambda>finished_at.
          if lost then ret ()
          else if execution_deadline item < finished_at then
            on_conflict (record_failure env item ''execution_deadline_exceeded'' False True (Some finished_at)) (ret ())
          else record_outcome env (finished_item env item result finished_at)))"

section \<open>Batches\<close>

type_synonym provider_call = "execution \<Rightarrow> (execution \<times> provider_outcome \<times> bool) au"

fun worker_batch :: "auto_env \<Rightarrow> worker \<Rightarrow> provider_call \<Rightarrow> execution list \<Rightarrow> int au" where
  "worker_batch env w call [] = ret 0"
| "worker_batch env w call (x # xs) =
     bindp (worker_start env w x) (\<lambda>(started, n).
     bindp (case started of
         None \<Rightarrow> ret n
       | Some item \<Rightarrow> bindp (call item) (\<lambda>(item', outcome, lost). seqp (worker_finish env item' outcome lost) (ret 1))) (\<lambda>k.
     bindp (worker_batch env w call xs) (\<lambda>m. ret (k + m))))"

definition worker_run_once :: "auto_env \<Rightarrow> worker \<Rightarrow> provider_call \<Rightarrow> int \<Rightarrow> int au" where
  "worker_run_once env w call limit =
     bindp (clock_now env) (\<lambda>checked.
     bindp (queued_executions (min (max limit 1) 25)) (\<lambda>xs.
     worker_batch env w call xs))"

section \<open>Recovery of expired leases\<close>

text \<open>\<open>lookup\<close> is \<open>None\<close> where the registry or the provider raises.\<close>

definition taken_over :: "worker \<Rightarrow> execution \<Rightarrow> instant \<Rightarrow> execution" where
  "taken_over w x checked = x\<lparr>ex_lease_token := ex_lease_token x + 1, ex_lease_owner := Some (wk_id w),
     ex_lease_expires_at := Some (checked + secs (wk_lease_seconds w)), ex_updated_at := checked\<rparr>"

definition looked_up :: "execution \<Rightarrow> execution_result option \<Rightarrow> instant \<Rightarrow> execution" where
  "looked_up x lookup checked =
     (if ex_state x = ExClaimed then x\<lparr>ex_state := ExQueued, ex_lease_owner := None, ex_lease_expires_at := None\<rparr>
      else
        let y = x\<lparr>ex_state := ExReconciliationRequired\<rparr> in
        case lookup of
          None \<Rightarrow> y\<lparr>ex_error_code := Some ''provider_lookup_unavailable''\<rparr>
        | Some result \<Rightarrow>
            let z = y\<lparr>ex_operation_reference := Some (take 200 (er_operation_reference result))\<rparr> in
            if er_accepted result
            then z\<lparr>ex_state := ExVerificationPending, ex_provider_accepted_at := Some checked, ex_verification_started_at := Some checked\<rparr>
            else if er_terminal result then z\<lparr>ex_state := ExFailed, ex_error_code := Some ''provider_operation_failed''\<rparr>
            else z)"

definition recover_item :: "auto_env \<Rightarrow> worker \<Rightarrow> (execution \<Rightarrow> execution_result option) \<Rightarrow> instant \<Rightarrow> execution \<Rightarrow> int au" where
  "recover_item env w lookup checked stale =
     bindp (on_conflict (bindp (update_execution (taken_over w stale checked) (Some (ex_lease_token stale))) (\<lambda>x. ret (Some x))) (ret None)) (\<lambda>owned.
     case owned of
       None \<Rightarrow> ret 0
     | Some x \<Rightarrow> seqp (update_execution (looked_up x (lookup (x\<lparr>ex_state := ExReconciliationRequired\<rparr>)) checked) (Some (ex_lease_token x))) (ret 1))"

definition recover_expired :: "auto_env \<Rightarrow> worker \<Rightarrow> (execution \<Rightarrow> execution_result option) \<Rightarrow> int \<Rightarrow> instant \<Rightarrow> int au" where
  "recover_expired env w lookup limit checked =
     bindp (incomplete_executions limit checked) (\<lambda>xs. count_repairs (recover_item env w lookup checked) xs)"

end
