(* ===== verification/ApprovalEvolution.thy ===== *)
theory ApprovalEvolution
  imports ActionWorker
begin

text \<open>
  How approvals and previews change. \<open>appr_evolve\<close>: an approval keeps what it was asked for, its revision
  names its version, and once it is no longer requested its decision stands. \<open>appr_ok\<close>: an approval that was
  granted was granted by somebody other than its requester. \<open>auto_evolve\<close> carries both through every call.
\<close>

definition ap_ident :: "approval \<Rightarrow> string \<times> string \<times> string \<times> string \<times> string \<times> string \<times> instant" where
  "ap_ident a = (ap_approval_id a, ap_tenant_id a, ap_environment a, ap_preview_id a, ap_action_fingerprint a,
     ap_requester a, ap_expires_at a)"

definition granted :: "approval \<Rightarrow> bool" where
  "granted a \<longleftrightarrow> ap_state a \<in> {ApApproved, ApReserved, ApConsumed}"

definition appr_ok :: "approval \<Rightarrow> bool" where
  "appr_ok a \<longleftrightarrow> (granted a \<longrightarrow> (\<exists>d. ap_decided_by a = Some d \<and> d \<noteq> ap_requester a) \<and>
     ap_decision_event_type a = Some ''approval_approved'')"

definition appr_evolve :: "approval \<Rightarrow> approval \<Rightarrow> bool" where
  "appr_evolve a b \<longleftrightarrow> ap_ident a = ap_ident b \<and> ap_revision a \<le> ap_revision b \<and> (ap_revision a = ap_revision b \<longrightarrow> a = b) \<and>
     (ap_state a \<noteq> ApRequested \<longrightarrow> ap_state b \<noteq> ApRequested \<and> ap_decided_by b = ap_decided_by a \<and>
        ap_decision_event_type b = ap_decision_event_type a) \<and>
     (ap_state a \<notin> {ApRequested, ApRejected} \<longrightarrow> ap_state b \<noteq> ApRejected) \<and> (appr_ok a \<longrightarrow> appr_ok b)"

abbreviation approval_at :: "auto_repo \<Rightarrow> string \<Rightarrow> approval option" where
  "approval_at s \<equiv> dget (au_approvals s)"

abbreviation preview_at :: "auto_repo \<Rightarrow> string \<Rightarrow> preview option" where
  "preview_at s \<equiv> dget (au_previews s)"

abbreviation execution_at :: "auto_repo \<Rightarrow> string \<Rightarrow> execution option" where
  "execution_at s \<equiv> dget (au_executions s)"

interpretation apprs: store_order approval_at appr_evolve
  by unfold_locales (auto simp: appr_evolve_def)

interpretation prevs: store_order preview_at "(=)"
  by unfold_locales auto

text \<open>New entries are well-formed and stored under their own identifier.\<close>

definition approvals_fine :: "auto_repo \<Rightarrow> bool" where
  "approvals_fine s \<longleftrightarrow> distinct (map fst (au_approvals s)) \<and>
     (\<forall>k a. approval_at s k = Some a \<longrightarrow> ap_approval_id a = k \<and> appr_ok a)"

definition previews_fine :: "auto_repo \<Rightarrow> bool" where
  "previews_fine s \<longleftrightarrow> (\<forall>k p. preview_at s k = Some p \<longrightarrow> pv_preview_id p = k)"

definition auto_evolve :: "auto_repo \<Rightarrow> auto_repo \<Rightarrow> bool" where
  "auto_evolve s s' \<longleftrightarrow> store_evolve approval_at appr_evolve s s' \<and> store_evolve preview_at (=) s s' \<and>
     (approvals_fine s \<longrightarrow> approvals_fine s') \<and> (previews_fine s \<longrightarrow> previews_fine s')"

interpretation auto: step_order auto_evolve
proof
  show "auto_evolve s s" for s by (simp add: auto_evolve_def apprs.step_refl prevs.step_refl)
  show "auto_evolve s u" if "auto_evolve s t" "auto_evolve t u" for s t u
    using that unfolding auto_evolve_def by (blast intro: apprs.step_trans prevs.step_trans)
qed

lemma auto_frame:
  "au_approvals s' = au_approvals s \<Longrightarrow> au_previews s' = au_previews s \<Longrightarrow> auto_evolve s s'"
  by (simp add: auto_evolve_def apprs.frame prevs.frame approvals_fine_def previews_fine_def)

lemma auto_approval_put:
  assumes "ap_approval_id b = k" and "\<And>a. approval_at s k = Some a \<Longrightarrow> appr_evolve a b" and "approval_at s k = None \<Longrightarrow> appr_ok b"
  shows "auto_evolve s (s\<lparr>au_approvals := dput k b (au_approvals s)\<rparr>)"
proof -
  have "appr_ok b" if "approvals_fine s"
    using that assms(2,3) by (cases "approval_at s k") (auto simp: approvals_fine_def appr_evolve_def)
  moreover have "store_evolve approval_at appr_evolve s (s\<lparr>au_approvals := dput k b (au_approvals s)\<rparr>)"
    by (rule apprs.put [where k = k and v' = b]) (auto simp: fun_eq_iff assms(2))
  ultimately show ?thesis
    using assms(1) by (auto simp: auto_evolve_def prevs.frame approvals_fine_def previews_fine_def distinct_dput)
qed

lemma auto_preview_put:
  assumes "pv_preview_id q = k" and "preview_at s k = None"
  shows "auto_evolve s (s\<lparr>au_previews := dput k q (au_previews s)\<rparr>)"
proof -
  have "store_evolve preview_at (=) s (s\<lparr>au_previews := dput k q (au_previews s)\<rparr>)"
    by (rule prevs.put [where k = k and v' = q]) (auto simp: fun_eq_iff assms(2))
  then show ?thesis using assms(1) by (auto simp: auto_evolve_def apprs.frame approvals_fine_def previews_fine_def)
qed

section \<open>Operations that leave approvals alone\<close>

lemma auto_clock [evolve_rules]: "evolves auto_evolve (clock_now env)"
  by (rule evolvesI) (simp add: clock_now_def auto_frame)

lemma auto_append [evolve_rules]: "evolves auto_evolve (append_event stream i doc)"
  by (rule evolvesI) (auto simp: append_event_def Let_def intro: auto_frame split: option.split)

lemma auto_update_execution [evolve_rules]: "evolves auto_evolve (update_execution x tok)"
  unfolding update_execution_def by (intro evolve_rules evolves_writes auto_frame) simp_all

lemma auto_create_execution [evolve_rules]: "evolves auto_evolve (create_execution x h)"
  unfolding create_execution_def by (intro evolve_rules evolves_writes auto_frame) simp_all

lemma auto_reads [evolve_rules]:
  "evolves auto_evolve (get_execution t e i)" "evolves auto_evolve (get_approval t e i)" "evolves auto_evolve (get_preview t e i)"
  "evolves auto_evolve (queued_executions n)" "evolves auto_evolve (incomplete_executions n now)"
  "evolves auto_evolve (executions_with_pending_evidence n)" "evolves auto_evolve (approvals_requiring_reconciliation n now)"
  unfolding get_execution_def get_approval_def get_preview_def queued_executions_def incomplete_executions_def
    executions_with_pending_evidence_def approvals_requiring_reconciliation_def
  by (intro evolve_rules)+

lemma auto_events [evolve_rules]:
  "evolves auto_evolve (approval_event env kind a actor r)" "evolves auto_evolve (execution_event env kind x actor r)"
  unfolding approval_event_def execution_event_def by (intro evolve_rules)+

lemma auto_safe_text [evolve_rules]: "evolves auto_evolve (safe_text env v f m b)"
  unfolding safe_text_def by (intro evolve_rules)

lemma at_on_conflict:
  fixes Q :: "auto_repo \<Rightarrow> auto_repo \<Rightarrow> bool"
  assumes "step_order Q" and "Q s (snd (m s))" and "\<And>s'. Q s s' \<Longrightarrow> Q s' (snd (h s'))"
  shows "Q s (snd (on_conflict m h s))"
  unfolding on_conflict_def
proof (rule step_order.at_trycatch [where R = Q and s = s and m = m], rule assms(1), rule assms(2))
  show "Q s' (snd ((case e of Conflict _ \<Rightarrow> h | _ \<Rightarrow> raise e) s'))" if "Q s s'" for e s'
    using assms(3) [OF that] step_order.step_refl [OF assms(1)] by (cases e) simp_all
qed

lemma evolves_on_conflict:
  "step_order Q \<Longrightarrow> evolves Q m \<Longrightarrow> evolves Q h \<Longrightarrow> evolves Q (on_conflict m h)"
  by (rule evolvesI, rule at_on_conflict) (auto simp: evolves_def)

lemmas auto_on_conflict [evolve_rules] = evolves_on_conflict [OF auto.step_order_axioms]

lemma auto_renew [evolve_rules]: "evolves auto_evolve (renew_execution_lease env t e i w tok u)"
  unfolding renew_execution_lease_def by (intro evolve_rules evolves_writes auto_frame) simp_all

lemma auto_worker [evolve_rules]:
  "evolves auto_evolve (claim_execution w x now)" "evolves auto_evolve (start_claimed env w x)"
  "evolves auto_evolve (heartbeat_tick env w x)" "evolves auto_evolve (record_failure env x c b u obs)"
  "evolves auto_evolve (record_outcome env x)" "evolves auto_evolve (recover_item env w lookup now x)"
  unfolding claim_execution_def start_claimed_def heartbeat_tick_def record_failure_def record_outcome_def recover_item_def
  by (intro evolve_rules)+

lemma auto_finish [evolve_rules]: "evolves auto_evolve (worker_finish env x out lost)"
  unfolding worker_finish_def by (cases out; simp only: provider_outcome.case) (intro evolve_rules)+

lemma auto_verify [evolve_rules]: "evolves auto_evolve (verify_execution env x v)"
  unfolding verify_execution_def by (intro evolve_rules)

lemma auto_save_preview [evolve_rules]: "evolves auto_evolve (save_preview env p)"
proof -
  have "evolves auto_evolve (save_preview_repo env p)"
  proof (rule evolvesI)
    fix s
    show "auto_evolve s (snd (save_preview_repo env p s))"
      by (auto simp: save_preview_repo_def py_simps Let_def auto.step_refl split: list.split option.split
          intro!: auto_preview_put)
  qed
  then show ?thesis unfolding save_preview_def by (intro evolve_rules)
qed

section \<open>Operations on approvals\<close>

lemma auto_request [evolve_rules]: "evolves auto_evolve (request_approval env p r k reason impact now)"
proof -
  have "evolves auto_evolve (create_approval (new_approval env p r k reason impact now))"
  proof (rule evolvesI)
    fix s
    let ?a = "new_approval env p r k reason impact now"
    have "appr_ok ?a" by (simp add: appr_ok_def granted_def new_approval_def)
    then show "auto_evolve s (snd (create_approval ?a s))"
      by (cases "approval_at s (ap_approval_id ?a)")
         (auto simp: create_approval_def py_simps auto.step_refl intro!: auto_approval_put)
  qed
  then show ?thesis unfolding request_approval_def Let_def by (intro evolve_rules)
qed

text \<open>A copy of an approval that may be out of date; an update from it succeeds only when it is current.\<close>

definition copy_of :: "approval \<Rightarrow> auto_repo \<Rightarrow> bool" where
  "copy_of a s \<longleftrightarrow> (\<exists>cur. approval_at s (ap_approval_id a) = Some cur \<and> appr_evolve a cur)"

lemma copy_of_stays: "copy_of a s \<Longrightarrow> auto_evolve s s' \<Longrightarrow> copy_of a s'"
  unfolding copy_of_def auto_evolve_def by (meson apprs.entry_trans store_evolveD)

lemma update_from_copy:
  assumes "copy_of a s" and "ap_ident b = ap_ident a" and "appr_evolve a (b\<lparr>ap_revision := ap_revision a + 1\<rparr>)"
  shows "auto_evolve s (snd (update_approval b (ap_revision a) s))"
    and "update_approval b (ap_revision a) s = (Inr x, s') \<Longrightarrow> x = b\<lparr>ap_revision := ap_revision a + 1\<rparr> \<and> copy_of x s'"
proof -
  obtain cur where cur: "approval_at s (ap_approval_id a) = Some cur" "appr_evolve a cur"
    using assms(1) by (auto simp: copy_of_def)
  have id: "ap_approval_id b = ap_approval_id a" using assms(2) by (simp add: ap_ident_def)
  have eq: "cur = a" if "ap_revision cur = ap_revision a" using cur(2) that by (auto simp: appr_evolve_def)
  show "auto_evolve s (snd (update_approval b (ap_revision a) s))"
    using cur(1) id eq assms(3)
    by (auto simp: update_approval_def py_simps Let_def auto.step_refl intro!: auto_approval_put)
  show "x = b\<lparr>ap_revision := ap_revision a + 1\<rparr> \<and> copy_of x s'"
    if "update_approval b (ap_revision a) s = (Inr x, s')"
    using that cur(1) id by (auto simp: update_approval_def py_simps Let_def copy_of_def apprs.entry_refl split: if_splits)
qed

section \<open>Decisions, reservations and their repair\<close>

text \<open>An approval changed by a copy's holder: what it was asked for stays, and so does a decision already taken.\<close>

definition fair_change :: "approval \<Rightarrow> approval \<Rightarrow> bool" where
  "fair_change a b \<longleftrightarrow> ap_ident b = ap_ident a \<and>
     (ap_state a \<noteq> ApRequested \<longrightarrow> ap_state b \<noteq> ApRequested \<and> ap_decided_by b = ap_decided_by a \<and>
        ap_decision_event_type b = ap_decision_event_type a \<and> (granted b \<longrightarrow> granted a)) \<and>
     (ap_state a \<notin> {ApRequested, ApRejected} \<longrightarrow> ap_state b \<noteq> ApRejected) \<and>
     (ap_state a = ApRequested \<longrightarrow> appr_ok b)"

lemma revised [simp]:
  "ap_ident (b\<lparr>ap_revision := n\<rparr>) = ap_ident b" "granted (b\<lparr>ap_revision := n\<rparr>) = granted b" "appr_ok (b\<lparr>ap_revision := n\<rparr>) = appr_ok b"
  by (simp_all add: ap_ident_def granted_def appr_ok_def)

lemma fair_change_evolve:
  assumes "fair_change a b"
  shows "appr_evolve a (b\<lparr>ap_revision := ap_revision a + 1\<rparr>)"
proof -
  have "appr_ok b" if "appr_ok a"
  proof (cases "ap_state a = ApRequested")
    case True
    then show ?thesis using assms by (simp add: fair_change_def)
  next
    case False
    then have "ap_decided_by b = ap_decided_by a" "granted b \<longrightarrow> granted a" "ap_requester b = ap_requester a"
        "ap_decision_event_type b = ap_decision_event_type a"
      using assms by (simp_all add: fair_change_def ap_ident_def)
    with that show ?thesis by (simp add: appr_ok_def)
  qed
  with assms show ?thesis by (simp add: appr_evolve_def fair_change_def)
qed

lemma update_at:
  assumes "copy_of a s" and "fair_change a b"
  shows "auto_evolve s (snd (update_approval b (ap_revision a) s))"
proof -
  have "ap_ident b = ap_ident a" using assms(2) by (simp add: fair_change_def)
  then show ?thesis by (rule update_from_copy(1) [OF assms(1) _ fair_change_evolve [OF assms(2)]])
qed

lemma updated_at:
  assumes "copy_of a s" and "fair_change a b" and "update_approval b (ap_revision a) s = (Inr x, s')"
  shows "x = b\<lparr>ap_revision := ap_revision a + 1\<rparr> \<and> copy_of x s'"
proof -
  have "ap_ident b = ap_ident a" using assms(2) by (simp add: fair_change_def)
  then show ?thesis by (rule update_from_copy(2) [OF assms(1) _ fair_change_evolve [OF assms(2)] assms(3)])
qed

text \<open>An approval read from the repository is a copy.\<close>

lemma read_copy: "approvals_fine s \<Longrightarrow> approval_at s k = Some a \<Longrightarrow> copy_of a s"
  by (auto simp: copy_of_def approvals_fine_def apprs.entry_refl)

text \<open>\<open>keeps A m\<close>: \<open>m\<close> evolves every well-formed state of which all of \<open>A\<close> are copies.\<close>

definition copies :: "approval set \<Rightarrow> auto_repo \<Rightarrow> bool" where
  "copies A s \<longleftrightarrow> approvals_fine s \<and> (\<forall>a\<in>A. copy_of a s)"

definition keeps :: "approval set \<Rightarrow> 'a au \<Rightarrow> bool" where
  "keeps A m \<longleftrightarrow> (\<forall>s. copies A s \<longrightarrow> auto_evolve s (snd (m s)))"

lemma keepsD: "keeps A m \<Longrightarrow> copies A s \<Longrightarrow> auto_evolve s (snd (m s))"
  by (simp add: keeps_def)

lemma copies_stay: "copies A s \<Longrightarrow> auto_evolve s s' \<Longrightarrow> copies A s'"
  unfolding copies_def by (auto simp: auto_evolve_def intro: copy_of_stays)

lemma keeps_evolves: "evolves auto_evolve m \<Longrightarrow> keeps A m"
  by (simp add: keeps_def evolves_snd)

lemma keeps_bindp: "keeps A m \<Longrightarrow> (\<And>x. keeps A (f x)) \<Longrightarrow> keeps A (bindp m f)"
  unfolding keeps_def by (blast intro: auto.at_bindp copies_stay)

lemma keeps_seqp: "keeps A m \<Longrightarrow> keeps A k \<Longrightarrow> keeps A (seqp m k)"
  unfolding seqp_def by (rule keeps_bindp)

lemma keeps_if: "(b \<Longrightarrow> keeps A m) \<Longrightarrow> (\<not> b \<Longrightarrow> keeps A k) \<Longrightarrow> keeps A (if b then m else k)"
  by simp

lemma keeps_option:
  "(x = None \<Longrightarrow> keeps A m) \<Longrightarrow> (\<And>y. x = Some y \<Longrightarrow> keeps A (f y)) \<Longrightarrow> keeps A (case x of None \<Rightarrow> m | Some y \<Rightarrow> f y)"
  by (cases x) simp_all

lemma keeps_list: "keeps A m \<Longrightarrow> (\<And>y ys. keeps A (f y ys)) \<Longrightarrow> keeps A (case xs of [] \<Rightarrow> m | y # ys \<Rightarrow> f y ys)"
  by (cases xs) simp_all

lemma keeps_guard: "(\<not> b \<Longrightarrow> keeps A m) \<Longrightarrow> keeps A (seqp (raise_if b e) m)"
  by (cases b) (simp_all add: raise_if_def seqp_def keeps_evolves auto.evolves_raise)

lemma keeps_skip_conflict:
  assumes "keeps A m"
  shows "keeps A (skip_conflict m)"
  unfolding keeps_def skip_conflict_def
proof (intro allI impI)
  fix s assume "copies A s"
  with assms have "auto_evolve s (snd (m s))" by (rule keepsD)
  with auto.step_order_axioms show "auto_evolve s (snd (on_conflict m (ret 0) s))"
    by (rule at_on_conflict) (simp add: auto.step_refl)
qed

lemma keeps_update: "a \<in> A \<Longrightarrow> fair_change a b \<Longrightarrow> keeps A (update_approval b (ap_revision a))"
  by (simp add: keeps_def copies_def update_at)

text \<open>After an update the saved approval is a copy again.\<close>

lemma keeps_saved:
  assumes "a \<in> A" and "fair_change a b" and "\<And>x. x = b\<lparr>ap_revision := ap_revision a + 1\<rparr> \<Longrightarrow> keeps (insert x A) (f x)"
  shows "keeps A (bindp (update_approval b (ap_revision a)) f)"
  unfolding keeps_def
proof (intro allI impI auto.at_bindp)
  fix s assume A: "copies A s"
  then have copy: "copy_of a s" using assms(1) by (simp add: copies_def)
  show "auto_evolve s (snd (update_approval b (ap_revision a) s))" using copy assms(2) by (rule update_at)
  fix x s' assume upd: "update_approval b (ap_revision a) s = (Inr x, s')" and "auto_evolve s s'"
  then have "copies A s'" using A by (blast intro: copies_stay)
  with updated_at [OF copy assms(2) upd] assms(3) [of x]
  show "auto_evolve s' (snd (f x s'))" by (auto simp: keeps_def copies_def)
qed

lemma keeps_read:
  assumes "keeps A (f None)" and "\<And>a. keeps (insert a A) (f (Some a))"
  shows "keeps A (bindp (get_approval t e i) f)"
  unfolding keeps_def
proof (intro allI impI)
  fix s assume A: "copies A s"
  show "auto_evolve s (snd (bindp (get_approval t e i) f s))"
  proof (cases "fst (get_approval t e i s)")
    case (Inr found)
    have eq: "bindp (get_approval t e i) f s = f found s" using Inr by (auto simp: get_approval_def py_simps)
    show ?thesis
    proof (cases found)
      case None
      then show ?thesis using assms(1) A eq by (auto dest: keepsD)
    next
      case (Some a)
      then have "approval_at s i = Some a" using Inr by (auto simp: get_approval_def split: option.splits if_splits)
      with A have "copies (insert a A) s" by (auto simp: copies_def read_copy)
      with assms(2) eq Some show ?thesis by (auto dest: keepsD)
    qed
  qed (simp add: get_approval_def)
qed

lemma keeps_calls:
  "keeps A (append_event stream i doc)" "keeps A (approval_event env kind b actor r)" "keeps A (safe_text env v f m b')"
  "keeps A (get_execution t e i)" "keeps A (get_approval t e i)" "keeps A (raise_if c err)" "keeps A (raise err)"
  "keeps A (ret x)" "keeps A (create_execution y h)" "keeps A (execution_event env kind y actor r)"
  by (rule keeps_evolves, rule evolve_rules)+

lemmas keep_rules = keeps_guard keeps_seqp keeps_bindp keeps_if keeps_option keeps_list keeps_skip_conflict keeps_update keeps_calls

lemma keeps_deliver: "a \<in> A \<Longrightarrow> keeps A (deliver_decision_event env a)"
  unfolding deliver_decision_event_def prod.case
  by (intro keep_rules) (simp_all add: fair_change_def ap_ident_def granted_def appr_ok_def)

lemma keeps_expire: "a \<in> A \<Longrightarrow> keeps A (expire_approval env a actor r now)"
  unfolding expire_approval_def by (intro keep_rules) (simp_all add: fair_change_def ap_ident_def granted_def)

lemma keeps_consume: "a \<in> A \<Longrightarrow> keeps A (consume_reservation a)"
  unfolding consume_reservation_def by (intro keep_rules) (simp_all add: fair_change_def ap_ident_def granted_def)

lemma keeps_repair: "a \<in> A \<Longrightarrow> keeps A (repair_approval env now a)"
  unfolding repair_approval_def
  by (intro keep_rules keeps_deliver keeps_expire keeps_consume) (auto simp: fair_change_def ap_ident_def granted_def)

lemma keeps_reread: "keeps A (reread_approval t e i a)"
  unfolding reread_approval_def by (intro keep_rules)

lemma keeps_decide: "keeps A (decide_approval env t e i actor perms approve comment r now)"
proof -
  have expired: "fair_change a (a\<lparr>ap_state := ApExpired\<rparr>)" if "ap_state a = ApRequested" for a
    using that by (simp add: fair_change_def ap_ident_def granted_def appr_ok_def)
  have decided: "fair_change a (a\<lparr>ap_state := if approve then ApApproved else ApRejected, ap_decided_by := Some actor,
      ap_decision_comment := c, ap_decision_request_id := q, ap_decision_event_id := ei,
      ap_decision_event_type := Some (if approve then ''approval_approved'' else ''approval_rejected''),
      ap_decision_event_pending := b\<rparr>)"
    if "ap_state a = ApRequested" "actor \<noteq> ap_requester a" for a c q ei b
    using that by (simp add: fair_change_def ap_ident_def appr_ok_def granted_def)
  show ?thesis
    unfolding decide_approval_def Let_def
    by (intro keeps_read keeps_guard keeps_seqp [OF keeps_deliver] keeps_seqp [OF keeps_calls(3)] keeps_if keeps_saved
        keeps_option keeps_bindp keeps_seqp keeps_calls keeps_reread; simp add: expired decided)
qed

section \<open>Queueing an execution\<close>

text \<open>What the approval of a new execution satisfies when it is picked.\<close>

definition usable_for :: "preview \<Rightarrow> string \<Rightarrow> string option \<Rightarrow> instant \<Rightarrow> approval \<Rightarrow> bool" where
  "usable_for p actor approval_id now a \<longleftrightarrow> pv_approval_required p \<and> approval_id = Some (ap_approval_id a) \<and> granted a \<and>
     now < ap_expires_at a \<and> ap_action_fingerprint a = pv_action_fingerprint p \<and> ap_preview_id a = pv_preview_id p \<and>
     ap_decided_by a \<noteq> Some actor"

lemma usable_some:
  assumes "usable_approval env p actor i r now s = (Inr (Inr (Some a)), s')" and "approvals_fine s"
  shows "s' = s \<and> copy_of a s \<and> appr_ok a \<and> usable_for p actor i now a"
proof (cases i)
  case (Some k)
  have at: "approval_at s k = Some a" "s' = s"
    using assms(1) Some
    by (auto simp: usable_approval_def get_approval_def get_execution_def py_simps split: if_splits list.splits option.splits prod.splits sum.splits)
  then have id: "ap_approval_id a = k" "appr_ok a" using assms(2) by (auto simp: approvals_fine_def)
  have "usable_for p actor i now a"
    using assms(1) Some id at
    by (auto simp: usable_approval_def get_approval_def get_execution_def py_simps usable_for_def granted_def
        split: if_splits list.splits option.splits prod.splits sum.splits)
  with at id assms(2) show ?thesis by (auto intro: read_copy)
qed (use assms(1) in \<open>auto simp: usable_approval_def py_simps split: if_splits\<close>)

lemma usable_none:
  assumes "usable_approval env p actor i r now s = (Inr (Inr None), s')"
  shows "s' = s \<and> \<not> pv_approval_required p"
  using assms
  by (auto simp: usable_approval_def get_approval_def get_execution_def py_simps split: if_splits list.splits option.splits prod.splits sum.splits)

lemma usable_existing:
  assumes "usable_approval env p actor i r now s = (Inr (Inl x), s')"
  shows "s' = s"
  using assms
  by (auto simp: usable_approval_def get_approval_def get_execution_def py_simps split: if_splits list.splits option.splits prod.splits sum.splits)

lemma keeps_usable: "keeps A (usable_approval env p actor i r now)"
  unfolding usable_approval_def
  by (intro keeps_read keep_rules keeps_expire; simp)

lemma reserve_fair:
  "granted a \<Longrightarrow> fair_change a (a\<lparr>ap_state := ApReserved, ap_reserved_execution_id := i, ap_reserved_by := w,
     ap_reserved_at := t, ap_reservation_expires_at := u, ap_reservation_request_id := q\<rparr>)"
  by (auto simp: fair_change_def ap_ident_def granted_def)

lemma reserve_some:
  assumes "reserve_approval p (Some a) eid actor r now s = (Inr (Inr (Some b)), s')" and "copy_of a s"
    and "usable_for p actor i now a"
  shows "copy_of b s' \<and> usable_for p actor i now b"
proof (cases "ap_state a = ApReserved")
  case True
  then have "b = a \<and> s' = s"
    using assms(1) by (auto simp: reserve_approval_def get_execution_def py_simps split: if_splits option.splits prod.splits sum.splits)
  with assms show ?thesis by simp
next
  case False
  let ?c = "a\<lparr>ap_state := ApReserved, ap_reserved_execution_id := Some eid, ap_reserved_by := Some actor,
    ap_reserved_at := Some now, ap_reservation_expires_at := Some (now + minutes 5), ap_reservation_request_id := Some r\<rparr>"
  have ga: "granted a" using assms(3) by (simp add: usable_for_def)
  from False assms(1) have "update_approval ?c (ap_revision a) s = (Inr b, s')"
    by (auto simp: reserve_approval_def elim!: bindp_InrE)
  from updated_at [OF assms(2) reserve_fair [OF ga] this] assms(3)
  show ?thesis by (auto simp: usable_for_def granted_def)
qed

lemma reserve_none: "reserve_approval p (Some a) eid actor r now s \<noteq> (Inr (Inr None), s')"
  by (auto simp: reserve_approval_def get_execution_def update_approval_def Let_def py_simps
      split: if_splits option.splits prod.splits sum.splits)

lemma keeps_reserve: "a \<in> A \<Longrightarrow> granted a \<Longrightarrow> keeps A (reserve_approval p (Some a) eid actor r now)"
  unfolding reserve_approval_def option.case
  by (intro keep_rules keeps_consume reserve_fair)

lemma keeps_publish: "(\<And>a. x = Some a \<Longrightarrow> a \<in> A) \<Longrightarrow> keeps A (publish_execution env p eid fp i actor r now x)"
  unfolding publish_execution_def
  by (cases "catalogue_require env (pv_action_type p)"; simp only: sum.case)
     (intro keep_rules keeps_consume; simp)+

lemma queue_guards_run:
  assumes "queue_guards env p actor v t now s = (r, s')"
  shows "s' = s" and "r = Inr u \<Longrightarrow> pv_allowed p \<and> actor = pv_actor p \<and> now < pv_expires_at p"
  using assms by (auto simp: queue_guards_def py_simps split: if_splits option.splits)

lemma keeps_queue_with:
  assumes "\<And>a. x = Some a \<Longrightarrow> a \<in> A \<and> usable_for p actor i now a"
  shows "keeps A (queue_with env p actor key i r now x)"
proof (cases x)
  case None
  then show ?thesis
    unfolding queue_with_def reserve_approval_def Let_def None option.case bindp_ret sum.case by (intro keeps_publish) simp
next
  case (Some a)
  have a: "a \<in> A" "usable_for p actor i now a" "granted a" using assms [OF Some] by (simp_all add: usable_for_def)
  show ?thesis
    unfolding queue_with_def Let_def keeps_def Some
  proof (intro allI impI auto.at_bindp)
    fix s assume A: "copies A s"
    let ?e = "''exe_'' @ ae_hash env (JDict (operation_identity p key (Some a)))"
    show "auto_evolve s (snd (reserve_approval p (Some a) ?e actor r now s))"
      using keeps_reserve [OF a(1,3)] A by (rule keepsD)
    fix v s' assume run: "reserve_approval p (Some a) ?e actor r now s = (Inr v, s')" and step: "auto_evolve s s'"
    have "keeps (insert b A) (publish_execution env p ?e fp i actor r now (Some b))" for b fp by (rule keeps_publish) simp
    moreover have "copies (insert b A) s'" if "v = Inr (Some b)" for b
      using reserve_some run that A a copies_stay [OF A step] by (auto simp: copies_def)
    ultimately show "auto_evolve s' (snd ((case v of Inl y \<Rightarrow> ret y | Inr b \<Rightarrow> publish_execution env p ?e
        (ae_hash env (JDict (operation_identity p key (Some a) @ [(''preview'', JStr (pv_preview_id p)), (''approval'', json_opt i),
          (''payload'', JStr (pv_payload_fingerprint p)), (''target'', JDict (map (\<lambda>(k, v). (k, JStr v)) (pv_target p)))])))
        i actor r now b) s'))"
      using reserve_none [of p a ?e actor r now s s'] run
      by (cases v; cases "projr v") (auto simp: auto.step_refl dest: keepsD)
  qed
qed

lemma queue_evolves:
  assumes "approvals_fine s"
  shows "auto_evolve s (snd (queue_execution env p actor key v t i r now s))"
  unfolding queue_execution_def
proof (intro auto.at_seqp auto.at_bindp)
  have "s' = s" if "queue_guards env p actor v t now s = (x, s')" for x s' using that by (rule queue_guards_run)
  then show "auto_evolve s (snd (queue_guards env p actor v t now s))"
    by (metis auto.step_refl prod.collapse)
  fix u s1 assume "queue_guards env p actor v t now s = (Inr u, s1)"
  then have s1: "s1 = s" by (rule queue_guards_run)
  have fine: "copies {} s" using assms by (simp add: copies_def)
  then show "auto_evolve s1 (snd (usable_approval env p actor i r now s1))" unfolding s1 by (rule keepsD [OF keeps_usable])
  fix x s2 assume run: "usable_approval env p actor i r now s1 = (Inr x, s2)"
  show "auto_evolve s2 (snd ((case x of Inl y \<Rightarrow> ret y | Inr a \<Rightarrow> queue_with env p actor key i r now a) s2))"
  proof (cases x)
    case (Inr a)
    have s2: "s2 = s" and a: "copy_of b s \<and> usable_for p actor i now b" if "a = Some b" for b
      using usable_some run assms that unfolding s1 Inr by blast+
    have "s2 = s" using s2 usable_none run unfolding s1 Inr by (cases a) blast+
    moreover have "copies (set_option a) s" using assms a by (auto simp: copies_def)
    moreover have "keeps (set_option a) (queue_with env p actor key i r now a)" by (rule keeps_queue_with) (use a in auto)
    ultimately show ?thesis unfolding Inr by (auto dest: keepsD)
  qed (simp add: auto.step_refl)
qed

text \<open>The reconciler works on the approvals it read.\<close>

lemma keeps_repairs: "set as \<subseteq> A \<Longrightarrow> keeps A (count_repairs (repair_approval env now) as)"
  by (induction as) (auto intro!: keeps_bindp keeps_repair keeps_calls)

lemma read_copies:
  assumes "approvals_requiring_reconciliation limit now s = (Inr as, s')" and "approvals_fine s"
  shows "s' = s \<and> copies (set as) s"
proof -
  have "set as \<subseteq> set (dvals (au_approvals s))" and eq: "s' = s"
    using assms(1) set_slice_to_subset by (fastforce simp: approvals_requiring_reconciliation_def)+
  moreover have "\<exists>k. approval_at s k = Some a" if "a \<in> set (dvals (au_approvals s))" for a
    using that assms(2) by (auto simp: approvals_fine_def)
  ultimately show ?thesis using assms(2) read_copy by (fastforce simp: copies_def)
qed

lemma auto_evidence [evolve_rules]: "evolves auto_evolve (repair_evidence env x)"
  unfolding repair_evidence_def skip_conflict_def by (intro evolve_rules)

end
