(* ===== verification/ActionSafety.thy ===== *)
theory ActionSafety
  imports ApprovalEvolution
begin

text \<open>
  Four eyes and single use. Any number of callers, workers and reconcilers act on one repository; a worker,
  a verifier or a heartbeat may act on any copy of an execution that was ever stored, however old.
  \<open>touches X\<close>: a stored execution keeps its identity, or takes that of one of the copies \<open>X\<close> of it.
\<close>

definition ex_ident :: "execution \<Rightarrow> string \<times> string \<times> string \<times> string \<times> string \<times> string option \<times> string \<times> string \<times> instant" where
  "ex_ident x = (ex_execution_id x, ex_tenant_id x, ex_environment x, ex_incident_id x, ex_preview_id x, ex_approval_id x,
     ex_action_fingerprint x, ex_actor x, ex_created_at x)"

definition touches :: "execution set \<Rightarrow> auto_repo \<Rightarrow> auto_repo \<Rightarrow> bool" where
  "touches X s s' \<longleftrightarrow> (\<forall>k. execution_at s k = None \<longleftrightarrow> execution_at s' k = None) \<and>
     (\<forall>k y'. execution_at s' k = Some y' \<longrightarrow> (\<exists>y. execution_at s k = Some y \<and>
        (ex_ident y' = ex_ident y \<or> (\<exists>x\<in>X. k = ex_execution_id x \<and> ex_ident y' = ex_ident x))))"

interpretation touch: step_order "touches X" for X
proof
  show "touches X s s" for s by (simp add: touches_def)
  show "touches X s u" if st: "touches X s t" and tu: "touches X t u" for s t u
    unfolding touches_def
  proof (intro conjI allI impI)
    show "execution_at s k = None \<longleftrightarrow> execution_at u k = None" for k
      using st tu by (simp add: touches_def)
    fix k z assume "execution_at u k = Some z"
    then obtain y where y: "execution_at t k = Some y"
        "ex_ident z = ex_ident y \<or> (\<exists>x\<in>X. k = ex_execution_id x \<and> ex_ident z = ex_ident x)"
      using tu unfolding touches_def by blast
    obtain w where "execution_at s k = Some w" "ex_ident y = ex_ident w \<or> (\<exists>x\<in>X. k = ex_execution_id x \<and> ex_ident y = ex_ident x)"
      using st y(1) unfolding touches_def by blast
    with y(2) show "\<exists>w. execution_at s k = Some w \<and>
        (ex_ident z = ex_ident w \<or> (\<exists>x\<in>X. k = ex_execution_id x \<and> ex_ident z = ex_ident x))" by auto
  qed
qed

lemma touch_frame: "au_executions s' = au_executions s \<Longrightarrow> touches X s s'"
  by (simp add: touches_def)

lemma ex_ident_id: "ex_ident y = ex_ident x \<Longrightarrow> ex_execution_id y = ex_execution_id x"
  by (simp add: ex_ident_def)

lemma touch_put:
  assumes "execution_at s (ex_execution_id y) = Some z" and "x \<in> X" and "ex_ident y = ex_ident x"
  shows "touches X s (s\<lparr>au_executions := dput (ex_execution_id y) y (au_executions s)\<rparr>)"
  using assms ex_ident_id [OF assms(3)] by (auto simp: touches_def)

section \<open>Calls that leave executions alone\<close>

definition same_execs :: "auto_repo \<Rightarrow> auto_repo \<Rightarrow> bool" where
  "same_execs s s' \<longleftrightarrow> au_executions s' = au_executions s"

interpretation same: step_order same_execs
  by unfold_locales (simp_all add: same_execs_def)

lemma frame_calls [evolve_rules]:
  "evolves same_execs (clock_now env)" "evolves same_execs (append_event stream i doc)"
  "evolves same_execs (get_execution t e i)" "evolves same_execs (get_approval t e i)" "evolves same_execs (get_preview t e i)"
  "evolves same_execs (update_approval a n)" "evolves same_execs (create_approval a)"
  "evolves same_execs (save_preview_repo env p)"
  unfolding clock_now_def append_event_def get_execution_def get_approval_def get_preview_def update_approval_def
    create_approval_def save_preview_repo_def Let_def
  by (auto intro!: evolvesI simp: py_simps same_execs_def split: option.split list.split)

lemmas frame_on_conflict [evolve_rules] = evolves_on_conflict [OF same.step_order_axioms]

lemma frame_events [evolve_rules]:
  "evolves same_execs (approval_event env kind a actor r)" "evolves same_execs (execution_event env kind x actor r)"
  "evolves same_execs (safe_text env v f m b)"
  unfolding approval_event_def execution_event_def safe_text_def by (intro evolve_rules)+

lemma frame_approvals [evolve_rules]:
  "evolves same_execs (deliver_decision_event env a)" "evolves same_execs (expire_approval env a actor r now)"
  "evolves same_execs (consume_reservation a)" "evolves same_execs (reread_approval t e i a)"
  unfolding deliver_decision_event_def expire_approval_def consume_reservation_def reread_approval_def prod.case
  by (intro evolve_rules)+

lemma frame_coordinator [evolve_rules]:
  "evolves same_execs (save_preview env p)" "evolves same_execs (request_approval env p q key reason impact now)"
  "evolves same_execs (decide_approval env t e i actor perms approve comment r now)"
  "evolves same_execs (usable_approval env p actor j r now)" "evolves same_execs (reserve_approval p a eid actor r now)"
  "evolves same_execs (repair_approval env now b)"
  unfolding save_preview_def request_approval_def decide_approval_def usable_approval_def reserve_approval_def
    repair_approval_def skip_conflict_def Let_def
  by (intro evolve_rules)+

lemma frame_repairs: "evolves same_execs (count_repairs (repair_approval env now) as)"
  by (induction as) (simp_all only: count_repairs.simps, (intro evolve_rules)+)

section \<open>What a worker does to executions\<close>

lemma frame_touches: "evolves same_execs m \<Longrightarrow> evolves (touches X) m"
  by (auto simp: evolves_def same_execs_def intro: touch_frame)

lemmas touch_calls [evolve_rules] = frame_calls [THEN frame_touches] frame_events [THEN frame_touches]

lemmas touch_coordinator = frame_coordinator [THEN frame_touches]

lemmas touch_on_conflict [evolve_rules] = evolves_on_conflict [OF touch.step_order_axioms]

lemma touch_update:
  assumes "x \<in> X" and "ex_ident y = ex_ident x"
  shows "evolves (touches X) (update_execution y tok)"
proof (rule evolvesI)
  fix s
  show "touches X s (snd (update_execution y tok s))"
    using touch_put [OF _ assms]
    by (cases "execution_at s (ex_execution_id y)") (auto simp: update_execution_def py_simps touch.step_refl)
qed

lemma touch_evidence: "x \<in> X \<Longrightarrow> evolves (touches X) (repair_evidence env x)"
  unfolding repair_evidence_def skip_conflict_def
  by (intro evolve_rules touch_update [of x]) (simp_all add: ex_ident_def)

lemma touch_mono: "touches X s s' \<Longrightarrow> X \<subseteq> Y \<Longrightarrow> touches Y s s'"
  unfolding touches_def by (meson subsetD)

text \<open>A worker writes variants of the copy it works on.\<close>

lemma ident_changes [simp]:
  "ex_ident (failed_item env x code retry unsure now) = ex_ident x" "ex_ident (finished_item env x res now) = ex_ident x"
  "ex_ident (taken_over w x now) = ex_ident x" "ex_ident (looked_up x look now) = ex_ident x"
  "ex_ident (verified_execution env x v now) = ex_ident x"
  by (simp_all add: ex_ident_def failed_item_def finished_item_def taken_over_def looked_up_def verified_execution_def Let_def
      split: option.split)

lemma ident_pending [simp]: "ex_ident (x\<lparr>ex_transition_event_pending := b\<rparr>) = ex_ident x"
  by (simp add: ex_ident_def)

lemma yields_update: "yields (\<lambda>y. y = x) (update_execution x tok)"
  by (auto simp: yields_def update_execution_def py_simps split: if_splits option.splits)

lemma touch_claim: "x \<in> X \<Longrightarrow> evolves (touches X) (claim_execution w x now)"
  unfolding claim_execution_def by (intro evolve_rules touch_update [of x]) (simp_all add: ex_ident_def)

lemma touch_start: "x \<in> X \<Longrightarrow> evolves (touches X) (start_claimed env w x)"
  unfolding start_claimed_def Let_def by (intro evolve_rules touch_update [of x]) (simp_all add: ex_ident_def)

lemma touch_renew: "evolves (touches X) (renew_execution_lease env t e i w tok u)"
proof (rule evolvesI)
  fix s :: auto_repo
  let ?g = "\<lambda>c n. s\<lparr>au_ticks := n, au_executions := dput i (c\<lparr>ex_lease_expires_at := Some u, ex_updated_at := ae_clock env (au_ticks s)\<rparr>) (au_executions s)\<rparr>"
  have "touches X s (?g c n)" if "execution_at s i = Some c" for c n using that by (auto simp: touches_def ex_ident_def)
  then show "touches X s (snd (renew_execution_lease env t e i w tok u s))"
    by (cases "execution_at s i")
       (auto simp: renew_execution_lease_def clock_now_def py_simps Let_def touch.step_refl)
qed

lemma touch_heartbeat: "evolves (touches X) (heartbeat_tick env w x)"
  unfolding heartbeat_tick_def by (intro evolve_rules touch_renew)

lemma touch_record:
  assumes "x \<in> X" and "ex_ident y = ex_ident x"
  shows "evolves (touches X) (record_failure env y c b u obs)" and "evolves (touches X) (record_outcome env y)"
  unfolding record_failure_def record_outcome_def Let_def
  by (intro evolve_rules touch_update [OF assms(1)]; simp add: assms(2))+

lemma touch_finish: "x \<in> X \<Longrightarrow> ex_ident y = ex_ident x \<Longrightarrow> evolves (touches X) (worker_finish env y out lost)"
  unfolding worker_finish_def
  by (cases out; simp only: provider_outcome.case) (intro evolve_rules touch_record [of x]; simp)+

lemma touch_recover:
  assumes "x \<in> X"
  shows "evolves (touches X) (recover_item env w look now x)"
proof -
  have "evolves (touches X) (case ow of None \<Rightarrow> ret 0 | Some y \<Rightarrow>
      seqp (update_execution (looked_up y (look (y\<lparr>ex_state := ExReconciliationRequired\<rparr>)) now) (Some (ex_lease_token y))) (ret 1))"
    if "ow = None \<or> ow = Some (taken_over w x now)" for ow
    using that by (auto intro!: evolve_rules touch_update [OF assms])
  moreover have "yields (\<lambda>ow. ow = None \<or> ow = Some (taken_over w x now))
      (on_conflict (bindp (update_execution (taken_over w x now) tok) (\<lambda>x. ret (Some x))) (ret None))" for tok
    by (auto simp: yields_def on_conflict_def trycatch_def update_execution_def py_simps
        split: if_splits option.splits py_error.splits prod.splits sum.splits)
  ultimately show ?thesis
    unfolding recover_item_def
    by (intro touch.evolves_bindp_yields [where P = "\<lambda>ow. ow = None \<or> ow = Some (taken_over w x now)"])
       (auto intro!: evolve_rules touch_update [OF assms])
qed

lemma touch_verify: "x \<in> X \<Longrightarrow> evolves (touches X) (verify_execution env x v)"
  unfolding verify_execution_def Let_def by (intro evolve_rules touch_update [of x]) simp_all

section \<open>New executions\<close>

text \<open>\<open>extends P\<close>: stored executions stay as they are, new ones satisfy \<open>P\<close>.\<close>

definition extends :: "(execution \<Rightarrow> bool) \<Rightarrow> auto_repo \<Rightarrow> auto_repo \<Rightarrow> bool" where
  "extends P s s' \<longleftrightarrow> (\<forall>k. execution_at s' k = execution_at s k \<or>
     execution_at s k = None \<and> (\<exists>y. execution_at s' k = Some y \<and> ex_execution_id y = k \<and> P y))"

lemma extendsD:
  assumes "extends P s s'"
  shows "execution_at s k = Some y \<Longrightarrow> execution_at s' k = Some y"
    and "execution_at s' k = Some z \<Longrightarrow> execution_at s k = Some z \<or> execution_at s k = None \<and> ex_execution_id z = k \<and> P z"
  using assms [unfolded extends_def, rule_format, of k] by auto

interpretation ext: step_order "extends P" for P
proof
  show "extends P s s" for s by (simp add: extends_def)
  show "extends P s u" if st: "extends P s t" and tu: "extends P t u" for s t u
    unfolding extends_def
  proof
    fix k
    show "execution_at u k = execution_at s k \<or>
        execution_at s k = None \<and> (\<exists>y. execution_at u k = Some y \<and> ex_execution_id y = k \<and> P y)"
      using st [unfolded extends_def, rule_format, of k] tu [unfolded extends_def, rule_format, of k] by auto
  qed
qed

lemma frame_extends: "evolves same_execs m \<Longrightarrow> evolves (extends P) m"
  by (simp add: evolves_def same_execs_def extends_def)

definition operation_id :: "auto_env \<Rightarrow> preview \<Rightarrow> string \<Rightarrow> approval option \<Rightarrow> string" where
  "operation_id env p idempotency_key a = ''exe_'' @ ae_hash env (JDict (operation_identity p idempotency_key a))"

abbreviation new_ident :: "preview \<Rightarrow> string \<Rightarrow> string \<Rightarrow> string option \<Rightarrow> instant \<Rightarrow>
    string \<times> string \<times> string \<times> string \<times> string \<times> string option \<times> string \<times> string \<times> instant" where
  "new_ident p eid actor i now \<equiv> (eid, pv_tenant_id p, pv_environment p, pv_incident_id p, pv_preview_id p, i,
     pv_action_fingerprint p, actor, now)"

lemma new_execution_ident: "ex_ident (new_execution d p eid actor i r now) = new_ident p eid actor i now"
  by (simp add: new_execution_def ex_ident_def)

lemma create_extends: "P x \<Longrightarrow> evolves (extends P) (create_execution x h)"
  by (rule evolvesI) (auto simp: create_execution_def py_simps extends_def split: option.split)

definition is_new :: "auto_env \<Rightarrow> preview \<Rightarrow> string \<Rightarrow> string \<Rightarrow> string option \<Rightarrow> string \<Rightarrow> instant \<Rightarrow> execution \<Rightarrow> bool" where
  "is_new env p eid actor i r now x \<longleftrightarrow>
     (\<exists>d. catalogue_require env (pv_action_type p) = Inr d \<and> x = new_execution d p eid actor i r now)"

lemma publish_extends: "evolves (extends (is_new env p eid actor i r now)) (publish_execution env p eid fp i actor r now x)"
proof (cases "catalogue_require env (pv_action_type p)")
  case (Inl e)
  then show ?thesis by (simp add: publish_execution_def ext.evolves_raise)
next
  case (Inr d)
  have created: "evolves (extends (is_new env p eid actor i r now)) (create_execution (new_execution d p eid actor i r now) fp)"
    by (rule create_extends) (simp add: is_new_def Inr)
  have "evolves same_execs (seqp (case x of None \<Rightarrow> ret () | Some a \<Rightarrow> seqp (consume_reservation a) (ret ()))
      (bindp (execution_event env k y actor r) (\<lambda>doc. seqp (append_event st ei doc) (ret y))))" for k y st ei
    by (intro evolve_rules)
  then show ?thesis
    unfolding publish_execution_def Inr sum.case by (intro ext.evolves_bindp [OF created] frame_extends)
qed

lemma queue_with_extends:
  "evolves (extends (is_new env p (operation_id env p key x) actor i r now)) (queue_with env p actor key i r now x)"
  unfolding queue_with_def Let_def operation_id_def [symmetric]
  by (intro ext.evolves_bindp ext.evolves_sum ext.evolves_ret publish_extends frame_extends frame_coordinator)

lemma queue_extends:
  assumes "approvals_fine s"
  shows "same_execs s (snd (queue_execution env p actor key v t i r now s)) \<or>
    (\<exists>x. pv_allowed p \<and> actor = pv_actor p \<and> now < pv_expires_at p \<and>
       (case x of None \<Rightarrow> \<not> pv_approval_required p | Some a \<Rightarrow> copy_of a s \<and> appr_ok a \<and> usable_for p actor i now a) \<and>
       extends (is_new env p (operation_id env p key x) actor i r now) s (snd (queue_execution env p actor key v t i r now s)))"
proof (cases "queue_guards env p actor v t now s")
  case (Pair g s0)
  then have s0: "s0 = s" by (rule queue_guards_run)
  show ?thesis
  proof (cases g)
    case (Inl e)
    then show ?thesis using Pair s0 by (simp add: queue_execution_def py_simps same.step_refl)
  next
    case (Inr u)
    from queue_guards_run(2) [OF Pair this] have ok: "pv_allowed p" "actor = pv_actor p" "now < pv_expires_at p" by auto
    obtain w s1 where use: "usable_approval env p actor i r now s = (w, s1)" by fastforce
    have step: "same_execs s s1" using evolvesD [OF frame_coordinator(4) use] .
    show ?thesis
    proof (cases "\<exists>x. w = Inr (Inr x)")
      case True
      then obtain x where x: "w = Inr (Inr x)" by blast
      have "s1 = s \<and> (case x of None \<Rightarrow> \<not> pv_approval_required p | Some a \<Rightarrow> copy_of a s \<and> appr_ok a \<and> usable_for p actor i now a)"
        using usable_none usable_some [OF _ assms] use x by (cases x) auto
      moreover have "queue_execution env p actor key v t i r now s = queue_with env p actor key i r now x s1"
        using Pair Inr s0 use x by (simp add: queue_execution_def py_simps)
      ultimately show ?thesis using ok evolves_snd [OF queue_with_extends] by auto
    next
      case False
      then have "snd (queue_execution env p actor key v t i r now s) = s1"
        using Pair Inr s0 use by (cases w) (auto simp: queue_execution_def py_simps split: sum.split)
      with step show ?thesis by simp
    qed
  qed
qed

section \<open>Runs\<close>

text \<open>
  \<open>actions env s H\<close>: the repository \<open>s\<close> is reached by calls of the coordinator, the workers, the verifier and the
  reconciler, and \<open>H\<close> are the executions stored at any time. Callers hold previews the repository stores; the
  workers' calls use any copy in \<open>H\<close>, with the lease times a heartbeat may have put into it.
\<close>

definition stored :: "auto_repo \<Rightarrow> execution set" where
  "stored s = {x. \<exists>k. execution_at s k = Some x}"

inductive action_call :: "auto_env \<Rightarrow> execution set \<Rightarrow> auto_repo \<Rightarrow> auto_repo \<Rightarrow> bool" for env H where
  save: "save_preview env p s = (r, s') \<Longrightarrow> action_call env H s s'"
| request: "preview_at s (pv_preview_id p) = Some p \<Longrightarrow> request_approval env p requester key reason impact now s = (r, s') \<Longrightarrow>
    action_call env H s s'"
| decide: "decide_approval env t e i actor perms approve comment req now s = (r, s') \<Longrightarrow> action_call env H s s'"
| queue: "preview_at s (pv_preview_id p) = Some p \<Longrightarrow> queue_execution env p actor key v tv i req now s = (q, s') \<Longrightarrow>
    action_call env H s s'"
| claim: "x \<in> H \<Longrightarrow> claim_execution w x now s = (q, s') \<Longrightarrow> action_call env H s s'"
| start: "x \<in> H \<Longrightarrow> start_claimed env w x s = (k, s') \<Longrightarrow> action_call env H s s'"
| heartbeat: "heartbeat_tick env w x s = (b, s') \<Longrightarrow> action_call env H s s'"
| finish: "x \<in> H \<Longrightarrow> worker_finish env (x\<lparr>ex_lease_expires_at := le\<rparr>) outcome lost s = (u, s') \<Longrightarrow> action_call env H s s'"
| recover: "x \<in> H \<Longrightarrow> recover_item env w look now x s = (n, s') \<Longrightarrow> action_call env H s s'"
| verify: "x \<in> H \<Longrightarrow> verify_execution env x v s = (q, s') \<Longrightarrow> action_call env H s s'"
| evidence: "x \<in> H \<Longrightarrow> repair_evidence env x s = (n, s') \<Longrightarrow> action_call env H s s'"
| approvals: "approvals_requiring_reconciliation limit now s = (Inr as, s) \<Longrightarrow>
    count_repairs (repair_approval env now) as s = (n, s') \<Longrightarrow> action_call env H s s'"

inductive actions :: "auto_env \<Rightarrow> auto_repo \<Rightarrow> execution set \<Rightarrow> bool" for env where
  init: "actions env empty_auto {}"
| step: "actions env s H \<Longrightarrow> action_call env H s s' \<Longrightarrow> actions env s' (H \<union> stored s')"

text \<open>An execution under an approval: somebody else than the requester and the actor granted it, for this action.\<close>

definition granted_by_other :: "auto_repo \<Rightarrow> preview \<Rightarrow> execution \<Rightarrow> bool" where
  "granted_by_other s p x \<longleftrightarrow> (\<exists>a d. ex_approval_id x = Some (ap_approval_id a) \<and> approval_at s (ap_approval_id a) = Some a \<and>
     ap_preview_id a = pv_preview_id p \<and> ap_action_fingerprint a = pv_action_fingerprint p \<and>
     ap_state a \<notin> {ApRequested, ApRejected} \<and> ap_decision_event_type a = Some ''approval_approved'' \<and>
     ap_decided_by a = Some d \<and> d \<noteq> ap_requester a \<and> d \<noteq> ex_actor x \<and> ex_created_at x < ap_expires_at a)"

definition exec_ok :: "auto_env \<Rightarrow> auto_repo \<Rightarrow> execution \<Rightarrow> bool" where
  "exec_ok env s x \<longleftrightarrow> (\<exists>p. preview_at s (ex_preview_id x) = Some p \<and> pv_preview_id p = ex_preview_id x \<and>
     pv_allowed p \<and> ex_actor x = pv_actor p \<and> ex_action_fingerprint x = pv_action_fingerprint p \<and> ex_created_at x < pv_expires_at p \<and>
     (pv_approval_required p \<longrightarrow> granted_by_other s p x \<and>
        (\<forall>a key. ex_approval_id x = Some (ap_approval_id a) \<longrightarrow> ex_execution_id x = operation_id env p key (Some a))))"

definition action_inv :: "auto_env \<Rightarrow> auto_repo \<Rightarrow> execution set \<Rightarrow> bool" where
  "action_inv env s H \<longleftrightarrow> approvals_fine s \<and> previews_fine s \<and>
     (\<forall>k x. execution_at s k = Some x \<longrightarrow> ex_execution_id x = k \<and> exec_ok env s x) \<and>
     (\<forall>x\<in>H. \<exists>y. execution_at s (ex_execution_id x) = Some y \<and> ex_ident y = ex_ident x)"

lemma granted_stays:
  assumes "granted_by_other s p x" and "auto_evolve s s'" and "ex_ident y = ex_ident x"
  shows "granted_by_other s' p y"
proof -
  obtain a d where a: "ex_approval_id x = Some (ap_approval_id a)" "approval_at s (ap_approval_id a) = Some a"
      "ap_preview_id a = pv_preview_id p" "ap_action_fingerprint a = pv_action_fingerprint p" "ap_state a \<notin> {ApRequested, ApRejected}"
      "ap_decision_event_type a = Some ''approval_approved''"
      "ap_decided_by a = Some d" "d \<noteq> ap_requester a" "d \<noteq> ex_actor x" "ex_created_at x < ap_expires_at a"
    using assms(1) unfolding granted_by_other_def by blast
  obtain b where b: "approval_at s' (ap_approval_id a) = Some b" "appr_evolve a b"
    using assms(2) a(2) unfolding auto_evolve_def by (blast dest: store_evolveD)
  have "ap_ident b = ap_ident a" "ap_state b \<notin> {ApRequested, ApRejected}" "ap_decided_by b = Some d"
    "ap_decision_event_type b = Some ''approval_approved''"
    using b(2) a(5-7) by (simp_all add: appr_evolve_def)
  with a b(1) assms(3) show ?thesis
    unfolding granted_by_other_def ap_ident_def ex_ident_def by (intro exI [of _ b] exI [of _ d]) simp
qed

lemma preview_stays: "auto_evolve s s' \<Longrightarrow> preview_at s k = Some p \<Longrightarrow> preview_at s' k = Some p"
  by (auto simp: auto_evolve_def store_evolve_def)

lemma exec_ok_stays:
  assumes "exec_ok env s x" and "auto_evolve s s'" and "ex_ident y = ex_ident x"
  shows "exec_ok env s' y"
proof -
  obtain p where p: "preview_at s (ex_preview_id x) = Some p" "pv_preview_id p = ex_preview_id x" "pv_allowed p"
      "ex_actor x = pv_actor p" "ex_action_fingerprint x = pv_action_fingerprint p" "ex_created_at x < pv_expires_at p"
      "pv_approval_required p \<Longrightarrow> granted_by_other s p x"
      "\<And>a key. pv_approval_required p \<Longrightarrow> ex_approval_id x = Some (ap_approval_id a) \<Longrightarrow> ex_execution_id x = operation_id env p key (Some a)"
    using assms(1) unfolding exec_ok_def by blast
  have "preview_at s' (ex_preview_id x) = Some p"
    using assms(2) p(1) by (rule preview_stays)
  moreover have "granted_by_other s' p y" if "pv_approval_required p"
    using granted_stays [OF p(7) [OF that] assms(2,3)] .
  ultimately show ?thesis
    using p assms(3) unfolding exec_ok_def ex_ident_def by (intro exI [of _ p]) auto
qed

lemma fine_stays:
  "auto_evolve s s' \<Longrightarrow> approvals_fine s \<Longrightarrow> previews_fine s \<Longrightarrow> approvals_fine s' \<and> previews_fine s'"
  by (simp add: auto_evolve_def)

lemma action_inv_touches:
  assumes "action_inv env s H" and "auto_evolve s s'" and "touches H s s'"
  shows "action_inv env s' (H \<union> stored s')"
proof -
  have entry: "\<exists>y. execution_at s k = Some y \<and> ex_ident z = ex_ident y" if "execution_at s' k = Some z" for k z
    using assms(1,3) that unfolding touches_def action_inv_def by fastforce
  have ok: "ex_execution_id z = k \<and> exec_ok env s' z" if z: "execution_at s' k = Some z" for k z
  proof -
    obtain y where y: "execution_at s k = Some y" "ex_ident z = ex_ident y" using entry [OF z] by blast
    then have "ex_execution_id y = k" "exec_ok env s y" using assms(1) by (auto simp: action_inv_def)
    with exec_ok_stays [OF _ assms(2) y(2)] ex_ident_id [OF y(2)] show ?thesis by simp
  qed
  have held: "\<exists>y. execution_at s' (ex_execution_id x) = Some y \<and> ex_ident y = ex_ident x" if x: "x \<in> H" for x
  proof -
    obtain y where y: "execution_at s (ex_execution_id x) = Some y" "ex_ident y = ex_ident x"
      using assms(1) x unfolding action_inv_def by blast
    then obtain z where z: "execution_at s' (ex_execution_id x) = Some z"
      using assms(3) unfolding touches_def by (metis not_None_eq)
    then show ?thesis using entry [OF z] y by auto
  qed
  show ?thesis
    unfolding action_inv_def
    using ok held fine_stays [OF assms(2)] assms(1) by (auto simp: action_inv_def stored_def)
qed

lemma action_inv_call:
  assumes "action_inv env s H" and "evolves auto_evolve m" and "evolves (touches H) n" and "m s = (r, s')" and "n s = (q, s')"
  shows "action_inv env s' (H \<union> stored s')"
  using assms(1) evolvesD [OF assms(2,4)] evolvesD [OF assms(3,5)] by (rule action_inv_touches)

lemma action_inv_extends:
  assumes inv: "action_inv env s H" and step: "auto_evolve s s'" and add: "extends P s s'"
    and new: "\<And>z. P z \<Longrightarrow> exec_ok env s' z"
  shows "action_inv env s' (H \<union> stored s')"
proof -
  have ok: "ex_execution_id z = k \<and> exec_ok env s' z" if z: "execution_at s' k = Some z" for k z
  proof (cases "execution_at s k = Some z")
    case True
    then have "ex_execution_id z = k" "exec_ok env s z" using inv by (auto simp: action_inv_def)
    with exec_ok_stays [OF _ step refl] show ?thesis by simp
  next
    case False
    then have "ex_execution_id z = k" "P z" using extendsD(2) [OF add z] by simp_all
    with new show ?thesis by blast
  qed
  have held: "\<exists>y. execution_at s' (ex_execution_id x) = Some y \<and> ex_ident y = ex_ident x" if x: "x \<in> H" for x
  proof -
    obtain y where "execution_at s (ex_execution_id x) = Some y" "ex_ident y = ex_ident x"
      using inv x unfolding action_inv_def by blast
    then show ?thesis using extendsD(1) [OF add] by blast
  qed
  show ?thesis
    unfolding action_inv_def
    using ok held fine_stays [OF step] inv by (auto simp: action_inv_def stored_def)
qed

text \<open>The execution a successful queueing publishes.\<close>

lemma new_exec_ok:
  assumes p: "preview_at s (pv_preview_id p) = Some p" and step: "auto_evolve s s'"
    and ok: "pv_allowed p" "actor = pv_actor p" "now < pv_expires_at p"
    and x: "case x of None \<Rightarrow> \<not> pv_approval_required p | Some a \<Rightarrow> copy_of a s \<and> appr_ok a \<and> usable_for p actor i now a"
    and z: "ex_ident z = new_ident p (operation_id env p key x) actor i now"
  shows "exec_ok env s' z"
proof -
  have id: "ex_execution_id z = operation_id env p key x" "ex_preview_id z = pv_preview_id p" "ex_approval_id z = i"
      "ex_action_fingerprint z = pv_action_fingerprint p" "ex_actor z = actor" "ex_created_at z = now"
    using z by (simp_all add: ex_ident_def)
  have "granted_by_other s' p z \<and> (\<forall>b k. i = Some (ap_approval_id b) \<longrightarrow> ex_execution_id z = operation_id env p k (Some b))"
    if req: "pv_approval_required p"
  proof -
    obtain a where a: "x = Some a" "copy_of a s" "appr_ok a" "usable_for p actor i now a" using x req by (cases x) auto
    obtain cur where cur: "approval_at s' (ap_approval_id a) = Some cur" "appr_evolve a cur"
      using copy_of_stays [OF a(2) step] by (auto simp: copy_of_def)
    have u: "i = Some (ap_approval_id a)" "granted a" "now < ap_expires_at a" "ap_action_fingerprint a = pv_action_fingerprint p"
        "ap_preview_id a = pv_preview_id p" "ap_decided_by a \<noteq> Some actor"
      using a(4) by (simp_all add: usable_for_def)
    obtain d where d: "ap_decided_by a = Some d" "d \<noteq> ap_requester a" "ap_decision_event_type a = Some ''approval_approved''" using a(3) u(2) by (auto simp: appr_ok_def)
    have "ap_ident cur = ap_ident a" "ap_state cur \<notin> {ApRequested, ApRejected}" "ap_decided_by cur = Some d"
        "ap_decision_event_type cur = Some ''approval_approved''"
      using cur(2) u(2) d(1,3) by (auto simp: appr_evolve_def granted_def)
    then have "granted_by_other s' p z"
      unfolding granted_by_other_def
      by (intro exI [of _ cur] exI [of _ d]) (use u d cur(1) id in \<open>auto simp: ap_ident_def\<close>)
    moreover have "operation_id env p k (Some b) = ex_execution_id z" if "i = Some (ap_approval_id b)" for b k
      using that u(1) id(1) a(1) by (simp add: operation_id_def operation_identity_def)
    ultimately show ?thesis by simp
  qed
  with id ok preview_stays [OF step p] show ?thesis
    unfolding exec_ok_def by (intro exI [of _ p]) auto
qed

lemma action_call_inv:
  assumes "action_call env H s s'" and inv: "action_inv env s H"
  shows "action_inv env s' (H \<union> stored s')"
proof -
  have fine: "approvals_fine s" "copies {} s" using inv by (simp_all add: action_inv_def copies_def)
  from assms(1) show ?thesis
  proof cases
    case (queue p actor key v tv i req now q)
    have step: "auto_evolve s s'" using queue_evolves [OF fine(1), of env p actor key v tv i req now] queue(2) by simp
    from queue_extends [OF fine(1), of env p actor key v tv i req now] queue(2) show ?thesis
    proof (elim disjE exE conjE)
      assume "same_execs s (snd (queue_execution env p actor key v tv i req now s))"
      then have "touches H s s'" using queue(2) by (simp add: same_execs_def touch_frame)
      then show ?thesis by (rule action_inv_touches [OF inv step])
    next
      fix x
      assume "pv_allowed p" "actor = pv_actor p" "now < pv_expires_at p"
        "case x of None \<Rightarrow> \<not> pv_approval_required p | Some a \<Rightarrow> copy_of a s \<and> appr_ok a \<and> usable_for p actor i now a"
        "extends (is_new env p (operation_id env p key x) actor i req now) s (snd (queue_execution env p actor key v tv i req now s))"
      then show ?thesis
        using queue(2) new_exec_ok [OF queue(1) step]
        by (intro action_inv_extends [OF inv step, where P = "is_new env p (operation_id env p key x) actor i req now"])
           (auto simp: is_new_def new_execution_ident)
    qed
  next
    case (decide t e i actor perms approve comment req now r)
    have "auto_evolve s s'" using keepsD [OF keeps_decide fine(2)] decide by (metis snd_conv)
    then show ?thesis using evolvesD [OF touch_coordinator(3) decide] by (rule action_inv_touches [OF inv])
  next
    case (approvals limit now as n)
    have "copies (set as) s" using read_copies [OF approvals(1) fine(1)] by simp
    then have "auto_evolve s s'" using keepsD [OF keeps_repairs [OF subset_refl]] approvals(2) by (metis snd_conv)
    then show ?thesis using evolvesD [OF frame_repairs [THEN frame_touches] approvals(2)] by (rule action_inv_touches [OF inv])
  next
    case (finish x le outcome lost u)
    have "ex_ident (x\<lparr>ex_lease_expires_at := le\<rparr>) = ex_ident x" by (simp add: ex_ident_def)
    note t = touch_finish [OF finish(1) this, of env outcome lost]
    show ?thesis by (rule action_inv_call [OF inv auto_finish t finish(2) finish(2)])
  next
    case (save p r)
    show ?thesis by (rule action_inv_call [OF inv auto_save_preview touch_coordinator(1) save save])
  next
    case (request p requester key reason impact now r)
    show ?thesis by (rule action_inv_call [OF inv auto_request touch_coordinator(2) request(2) request(2)])
  next
    case (claim x w now q)
    show ?thesis by (rule action_inv_call [OF inv auto_worker(1) touch_claim [OF claim(1)] claim(2) claim(2)])
  next
    case (start x w k)
    show ?thesis by (rule action_inv_call [OF inv auto_worker(2) touch_start [OF start(1)] start(2) start(2)])
  next
    case (heartbeat w x b)
    show ?thesis by (rule action_inv_call [OF inv auto_worker(3) touch_heartbeat heartbeat heartbeat])
  next
    case (recover x w look now n)
    show ?thesis by (rule action_inv_call [OF inv auto_worker(6) touch_recover [OF recover(1)] recover(2) recover(2)])
  next
    case (verify x v q)
    show ?thesis by (rule action_inv_call [OF inv auto_verify touch_verify [OF verify(1)] verify(2) verify(2)])
  next
    case (evidence x n)
    show ?thesis by (rule action_inv_call [OF inv auto_evidence touch_evidence [OF evidence(1)] evidence(2) evidence(2)])
  qed
qed

lemma actions_inv: "actions env s H \<Longrightarrow> action_inv env s H"
proof (induction rule: actions.induct)
  case init
  show ?case by (simp add: action_inv_def empty_auto_def approvals_fine_def previews_fine_def)
next
  case (step s H s')
  then show ?case by (blast intro: action_call_inv)
qed

end
