(* ===== verification/ActionProperties.thy ===== *)
theory ActionProperties
  imports ActionSafety
begin

text \<open>
  Properties of the governed actions: four eyes, single use of an approval, and the shipped catalogue, which
  lets nothing run.
\<close>

section \<open>A sample run\<close>

text \<open>An enabled action that needs an approval: previewed by an operator, requested, approved by a lead, queued.\<close>

definition restart_entry :: action_definition where
  "restart_entry = (catalogue_entry ''restart'' ''service'' ''probe'')\<lparr>ad_approval_required := True, ad_execution_enabled := True\<rparr>"

definition sample_actions :: auto_env where
  "sample_actions = \<lparr>ae_hash = (\<lambda>_. ''h''), ae_clock = int, ae_catalogue = [restart_entry], ae_catalogue_hash = ''c'',
     ae_policy_hash = ''q'', ae_secret = (\<lambda>_. False)\<rparr>"

definition sample_payload :: document where
  "sample_payload = [(''target_id'', JStr ''svc''), (''target_revision'', JStr ''v1'')]"

definition sample_preview :: preview where
  "sample_preview = projr (preview_create sample_actions ''t'' ''dev'' ''i1'' ''r1'' ''open'' ''minor'' 1 ''restart''
     sample_payload ''operator'' ''req'' 0 True)"

definition previewed :: auto_repo where
  "previewed = snd (save_preview sample_actions sample_preview empty_auto)"

definition requested :: auto_repo where
  "requested = snd (request_approval sample_actions sample_preview ''operator'' ''key'' ''stuck'' ''short outage'' 1 previewed)"

definition approved :: auto_repo where
  "approved = snd (decide_approval sample_actions ''t'' ''dev'' ''apr_h'' ''lead'' [''workflows:approve''] True ''ok'' ''req2'' 2 requested)"

definition queued :: auto_repo where
  "queued = snd (queue_execution sample_actions sample_preview ''operator'' ''key2'' ''r1'' ''v1'' (Some ''apr_h'') ''req3'' 3 approved)"

definition sample_execution :: execution where
  "sample_execution = new_execution restart_entry sample_preview ''exe_h'' ''operator'' (Some ''apr_h'') ''req3'' 3"

lemma action_payload_sample: "action_payload sample_payload = Inr (''svc'', ''v1'')"
  by code_simp

lemma sample_preview_simps:
  "preview_at previewed ''prv_h'' = Some sample_preview" "pv_preview_id sample_preview = ''prv_h''" 
  "pv_approval_required sample_preview"
  by code_simp+

lemma queued_holds:
  "execution_at queued ''exe_h'' = Some sample_execution" "preview_at queued ''prv_h'' = Some sample_preview"
  by code_simp+

lemma preview_kept:
  "preview_at requested ''prv_h'' = Some sample_preview" "preview_at approved ''prv_h'' = Some sample_preview"
  by code_simp+

lemma action_step: "\<exists>H. actions env s H \<Longrightarrow> (\<And>H. action_call env H s s') \<Longrightarrow> \<exists>H. actions env s' H"
  by (blast intro: actions.step)

lemma queued_reached: "\<exists>H. actions sample_actions queued H"
proof -
  have "\<exists>H. actions sample_actions previewed H"
    by (rule action_step [of _ empty_auto], rule exI, rule actions.init)
       (auto intro: action_call.save [where p = sample_preview] simp: previewed_def prod_eq_iff)
  then have "\<exists>H. actions sample_actions requested H"
    by (rule action_step)
       (rule action_call.request [where p = sample_preview], auto simp: sample_preview_simps requested_def prod_eq_iff)
  then have "\<exists>H. actions sample_actions approved H"
    by (rule action_step) (rule action_call.decide, auto simp: approved_def prod_eq_iff)
  then show ?thesis
    by (rule action_step)
       (rule action_call.queue [where p = sample_preview], auto simp: sample_preview_simps preview_kept queued_def prod_eq_iff)
qed

section \<open>Four eyes\<close>

lemma exec_ok_required:
  assumes "exec_ok env s x" and "preview_at s (ex_preview_id x) = Some p" and "pv_approval_required p"
  shows "granted_by_other s p x" and "pv_preview_id p = ex_preview_id x" and "ex_action_fingerprint x = pv_action_fingerprint p"
    and "ex_created_at x < pv_expires_at p"
    and "ex_approval_id x = Some (ap_approval_id a) \<Longrightarrow> ex_execution_id x = operation_id env p key (Some a)"
  using assms unfolding exec_ok_def by auto

text \<open>
  C5. Four eyes. In every reachable state, an execution of an action that needs an approval has one: it was
  asked for this very preview and action, and it was granted - its recorded decision is
  \<open>approval_approved\<close> and it is neither pending nor rejected - by somebody who is neither its requester nor
  the actor who runs the action; and the execution was created before it expired. Workers, verifiers and
  reconcilers may act on outdated copies without breaking this.
\<close>

theorem four_eyes:
  assumes "actions env s H" and "dget (au_executions s) k = Some x" and "dget (au_previews s) (ex_preview_id x) = Some p"
    and "pv_approval_required p"
  shows "\<exists>a d. ex_approval_id x = Some (ap_approval_id a) \<and> dget (au_approvals s) (ap_approval_id a) = Some a \<and>
    ap_preview_id a = ex_preview_id x \<and> ap_action_fingerprint a = ex_action_fingerprint x \<and>
    ap_decision_event_type a = Some ''approval_approved'' \<and> ap_state a \<notin> {ApRequested, ApRejected} \<and>
    ap_decided_by a = Some d \<and> d \<noteq> ap_requester a \<and> d \<noteq> ex_actor x \<and>
    ex_created_at x < ap_expires_at a \<and> ex_created_at x < pv_expires_at p"
proof -
  have "exec_ok env s x" using actions_inv [OF assms(1)] assms(2) by (auto simp: action_inv_def)
  from exec_ok_required(1-4) [OF this assms(3,4)] show ?thesis unfolding granted_by_other_def by auto
qed

theorem four_eyes_witness:
  "\<exists>a d. ex_approval_id sample_execution = Some (ap_approval_id a) \<and> dget (au_approvals queued) (ap_approval_id a) = Some a \<and>
    ap_decision_event_type a = Some ''approval_approved'' \<and> ap_decided_by a = Some d \<and> d \<noteq> ap_requester a \<and> d \<noteq> ''operator''"
proof -
  obtain H where "actions sample_actions queued H" using queued_reached by blast
  moreover have "ex_preview_id sample_execution = ''prv_h''" "ex_actor sample_execution = ''operator''" by code_simp+
  ultimately show ?thesis
    using four_eyes [of sample_actions queued H "''exe_h''" sample_execution sample_preview] queued_holds sample_preview_simps(3)
    by auto
qed

text \<open>
  C15. Single use. In every reachable state two executions of actions that need an approval and that name the
  same approval are one execution, stored under one identifier.
\<close>

theorem approval_single_use:
  assumes "actions env s H" and "dget (au_executions s) k = Some x" and "dget (au_executions s) l = Some y"
    and "dget (au_previews s) (ex_preview_id x) = Some p" and "pv_approval_required p"
    and "dget (au_previews s) (ex_preview_id y) = Some q" and "pv_approval_required q"
    and "ex_approval_id x = ex_approval_id y"
  shows "k = l \<and> x = y"
proof -
  have inv: "action_inv env s H" using assms(1) by (rule actions_inv)
  have ok: "exec_ok env s x" "exec_ok env s y" and id: "ex_execution_id x = k" "ex_execution_id y = l"
    using inv assms(2,3) by (auto simp: action_inv_def)
  note rx = exec_ok_required [OF ok(1) assms(4,5)] and ry = exec_ok_required [OF ok(2) assms(6,7)]
  obtain a where a: "ex_approval_id x = Some (ap_approval_id a)" "approval_at s (ap_approval_id a) = Some a" "ap_preview_id a = pv_preview_id p"
    using rx(1) unfolding granted_by_other_def by blast
  obtain b where b: "ex_approval_id y = Some (ap_approval_id b)" "approval_at s (ap_approval_id b) = Some b" "ap_preview_id b = pv_preview_id q"
    using ry(1) unfolding granted_by_other_def by blast
  have "ap_approval_id b = ap_approval_id a" using a(1) b(1) assms(8) by simp
  with a(2) b(2) have "b = a" by (metis option.inject)
  with a(3) b(3) rx(2) ry(2) have "ex_preview_id x = ex_preview_id y" by metis
  with assms(4,6) have "p = q" by simp
  with rx(5) [OF a(1), of "[]"] ry(5) [OF b(1), of "[]"] \<open>b = a\<close> have "ex_execution_id x = ex_execution_id y" by metis
  then show ?thesis using id assms(2,3) by simp
qed

theorem approval_single_use_witness:
  "ex_approval_id sample_execution = Some ''apr_h'' \<and> the (dget (au_executions queued) ''exe_h'') = sample_execution"
proof -
  obtain H where "actions sample_actions queued H" using queued_reached by blast
  moreover have "ex_preview_id sample_execution = ''prv_h''" "ex_approval_id sample_execution = Some ''apr_h''" by code_simp+
  ultimately show ?thesis
    using approval_single_use [of sample_actions queued H "''exe_h''" "the (dget (au_executions queued) ''exe_h'')" "''exe_h''"
        sample_execution sample_preview sample_preview] queued_holds sample_preview_simps(3)
    by simp
qed

section \<open>The shipped catalogue\<close>

lemma policy_disabled:
  "\<not> ad_execution_enabled d \<Longrightarrow> \<not> pd_allowed (evaluate_policy d environment severity state assets ready)"
  unfolding evaluate_policy_def Let_def by (simp only: if_distrib [of pd_allowed] policy_decision.simps) auto

text \<open>
  Nothing runs as shipped. Whatever preview the shipped catalogue yields, also after it was saved under
  another generation, queueing an execution for it raises an error and leaves the repository as it was: the
  preview expired, or no executor is configured or the policy denies the action.
\<close>

theorem shipped_catalogue_runs_nothing:
  assumes "ae_catalogue env = shipped_catalogue"
    and "preview_create env tenant_id environment incident_id incident_revision incident_state severity assets action_type
      payload actor request_id checked_at provider_ready = Inr p"
  shows "\<exists>e. queue_execution env (p\<lparr>pv_preview_id := i, pv_preview_generation := n\<rparr>) caller key v t a r now s = (Inl e, s) \<and>
    (e = Expired ''preview expired'' \<or> e = PolicyDenied ''executor not configured'')"
proof -
  obtain d where d: "catalogue_require env action_type = Inr d"
    using assms(2) by (cases "catalogue_require env action_type") (auto simp: preview_create_def)
  then have "find (\<lambda>d. ad_action_type d = action_type) shipped_catalogue = Some d"
    using assms(1) by (auto simp: catalogue_require_def split: option.splits)
  then have "d \<in> set shipped_catalogue" by (metis find_Some_iff nth_mem)
  then have off: "\<not> ad_execution_enabled d" by (auto simp: shipped_catalogue_def catalogue_entry_def)
  then have "\<not> pv_allowed p \<and> pv_provider_state p = ''not_configured''"
    using assms(2) d policy_disabled [OF off, of environment severity incident_state assets provider_ready]
    by (auto simp: preview_create_def Let_def split: sum.splits)
  then show ?thesis by (simp add: queue_execution_def queue_guards_def py_simps)
qed

theorem shipped_catalogue_runs_nothing_witness:
  "\<exists>e. queue_execution (sample_actions\<lparr>ae_catalogue := shipped_catalogue\<rparr>)
      ((projr (preview_create (sample_actions\<lparr>ae_catalogue := shipped_catalogue\<rparr>) ''t'' ''dev'' ''i1'' ''r1'' ''open'' ''minor'' 1
         ''rerun_scan'' sample_payload ''operator'' ''req'' 0 True))\<lparr>pv_preview_id := ''prv_x'', pv_preview_generation := 2\<rparr>)
      ''operator'' ''key'' ''r1'' ''v1'' None ''req2'' 1 empty_auto = (Inl e, empty_auto)"
proof -
  let ?env = "sample_actions\<lparr>ae_catalogue := shipped_catalogue\<rparr>"
  obtain p where p: "preview_create ?env ''t'' ''dev'' ''i1'' ''r1'' ''open'' ''minor'' 1 ''rerun_scan'' sample_payload ''operator'' ''req'' 0 True = Inr p"
    using action_payload_sample by (simp add: preview_create_def catalogue_require_def shipped_catalogue_def catalogue_entry_def Let_def)
  have "ae_catalogue ?env = shipped_catalogue" by simp
  from shipped_catalogue_runs_nothing [OF this p, where i = "''prv_x''" and n = 2 and caller = "''operator''" and key = "''key''"
      and v = "''r1''" and t = "''v1''" and a = None and r = "''req2''" and now = 1 and s = empty_auto]
  show ?thesis unfolding p by auto
qed

end
