(* ===== verification/ActionAttempts.thy ===== *)
theory ActionAttempts
  imports ActionProperties
begin

text \<open>
  How often an execution reaches the provider. Where a takeover works on the stored execution, the attempts
  count every submission and stay within their limit; where it works on a copy read before the owner moved on,
  a submission is lost from the count.
\<close>

section \<open>The abstract account\<close>

text \<open>
  Of an execution only its state, its attempts, its lease token and its limit matter here. An account has the
  stored executions \<open>M\<close>, the copies \<open>H\<close> read at any time, the executions \<open>C\<close> claimed and \<open>R\<close> handed to the provider by
  workers that hold them, and the log \<open>L\<close> of submissions.
\<close>

datatype core = Core (core_state: execution_state) (core_attempt: int) (core_token: int) (core_limit: int)

definition core_of :: "execution \<Rightarrow> core" where
  "core_of x = Core (ex_state x) (ex_attempt x) (ex_lease_token x) (ex_max_attempts x)"

text \<open>Attempts within the limit, and one left for an execution that will still be submitted.\<close>

definition limits_ok :: "nat \<Rightarrow> core \<Rightarrow> bool" where
  "limits_ok n d \<longleftrightarrow> core_attempt d = int n \<and> core_attempt d \<le> core_limit d \<and>
     (core_state d \<in> {ExQueued, ExClaimed} \<longrightarrow> core_attempt d < core_limit d)"

text \<open>A copy read earlier, and an execution a worker holds, against the stored one.\<close>

definition seen :: "core \<Rightarrow> core \<Rightarrow> bool" where
  "seen c d \<longleftrightarrow> core_token c \<le> core_token d \<and> (core_token c = core_token d \<longrightarrow> core_limit c = core_limit d \<and>
     (core_state c = ExQueued \<longrightarrow> core_state d = ExQueued \<and> core_attempt d = core_attempt c) \<and>
     (core_state c = ExVerificationPending \<longrightarrow>
        core_attempt d = core_attempt c \<and> core_state d \<notin> {ExQueued, ExClaimed, ExRunning}))"

definition held :: "core \<Rightarrow> core \<Rightarrow> bool" where
  "held c d \<longleftrightarrow> core_token c \<le> core_token d \<and> (core_token c = core_token d \<longrightarrow> c = d)"

definition handles :: "execution_state \<Rightarrow> (string \<rightharpoonup> core) \<Rightarrow> (string \<times> core) list \<Rightarrow> bool" where
  "handles st M C \<longleftrightarrow> distinct (map (\<lambda>(k, c). (k, core_token c)) C) \<and>
     (\<forall>(k, c) \<in> set C. core_state c = st \<and> (\<exists>d. M k = Some d \<and> held c d))"

definition counted :: "(string \<rightharpoonup> core) \<Rightarrow> string list \<Rightarrow> bool" where
  "counted M L \<longleftrightarrow> (\<forall>k. M k = None \<longrightarrow> count_list L k = 0) \<and> (\<forall>k d. M k = Some d \<longrightarrow> limits_ok (count_list L k) d)"

definition account :: "(string \<rightharpoonup> core) \<Rightarrow> (string \<times> core) set \<Rightarrow> (string \<times> core) list \<Rightarrow> (string \<times> core) list \<Rightarrow> string list \<Rightarrow> bool" where
  "account M H C R L \<longleftrightarrow>
     counted M L \<and> (\<forall>(k, c) \<in> H. \<exists>d. M k = Some d \<and> seen c d) \<and> handles ExClaimed M C \<and> handles ExRunning M R"

lemma seen_refl: "seen c c"
  by (simp add: seen_def)

lemma seen_token: "seen c d \<Longrightarrow> core_token c \<le> core_token d"
  by (simp add: seen_def)

lemma seen_later: "core_token c < core_token d \<Longrightarrow> seen c d"
  by (simp add: seen_def)

lemma account_seen: "account M H C R L \<Longrightarrow> account M (H \<union> {(k, d). M k = Some d}) C R L"
  by (auto simp: account_def seen_refl)

text \<open>One stored execution changes, to a larger token or under the same one.\<close>

lemma handles_put:
  assumes "handles st M C" and "set C' \<subseteq> set C" and "distinct (map (\<lambda>(k, c). (k, core_token c)) C')"
    and "\<And>c. (k, c) \<in> set C' \<Longrightarrow> core_token c < core_token e"
  shows "handles st (M(k \<mapsto> e)) C'"
proof -
  have "core_state c = st \<and> (\<exists>f. (M(k \<mapsto> e)) j = Some f \<and> held c f)" if "(j, c) \<in> set C'" for j c
    using that assms(1,2) assms(4) [of c] by (cases "j = k") (fastforce simp: handles_def held_def)+
  with assms(3) show ?thesis by (auto simp: handles_def)
qed

lemma handles_token:
  assumes "handles st M C" and "M k = Some d" and "(k, c) \<in> set C"
  shows "core_token c \<le> core_token d" and "core_state d \<noteq> st \<Longrightarrow> core_token c < core_token d"
proof -
  have h: "held c d" "core_state c = st" using assms by (auto simp: handles_def)
  then show "core_token c \<le> core_token d" by (simp add: held_def)
  show "core_token c < core_token d" if "core_state d \<noteq> st" using h that by (auto simp: held_def)
qed

lemma handles_later:
  assumes "handles st M C" and "M k = Some d" and "core_token d < core_token e"
  shows "handles st (M(k \<mapsto> e)) C"
  using handles_token(1) [OF assms(1,2)] assms(1,3) by (intro handles_put) (fastforce simp: handles_def)+

lemma handles_other:
  assumes "handles st M C" and "M k = Some d" and "core_token e = core_token d" and "core_state d \<noteq> st"
  shows "handles st (M(k \<mapsto> e)) C"
  using handles_token(2) [OF assms(1,2)] assms(1,3,4) by (intro handles_put) (fastforce simp: handles_def)+

lemma handles_drop:
  assumes "handles st M C" and "M k = Some d" and "(k, d) \<in> set C" and "core_token e = core_token d"
  shows "handles st (M(k \<mapsto> e)) (remove1 (k, d) C)"
proof (rule handles_put [OF assms(1)])
  have dist: "distinct (map (\<lambda>(k, c). (k, core_token c)) C)" using assms(1) by (simp add: handles_def)
  then show "distinct (map (\<lambda>(k, c). (k, core_token c)) (remove1 (k, d) C))"
    unfolding distinct_map by (meson distinct_remove1 inj_on_subset set_remove1_subset)
  fix c assume c: "(k, c) \<in> set (remove1 (k, d) C)"
  have "distinct C" using dist by (simp add: distinct_map)
  then have "c \<noteq> d" "(k, c) \<in> set C" using c by auto
  then have "core_token c \<noteq> core_token d" using dist assms(3) by (auto simp: distinct_map inj_on_def)
  with handles_token(1) [OF assms(1,2) \<open>(k, c) \<in> set C\<close>] assms(4) show "core_token c < core_token e" by simp
qed (rule set_remove1_subset)

lemma handles_add:
  assumes "handles st M C" and "M k = Some e" and "core_state e = st" and "\<And>c. (k, c) \<in> set C \<Longrightarrow> core_token c < core_token e"
  shows "handles st M ((k, e) # C)"
proof -
  have "(k, core_token e) \<notin> set (map (\<lambda>(k, c). (k, core_token c)) C)" using assms(4) by fastforce
  moreover have "held e e" by (simp add: held_def)
  ultimately show ?thesis using assms(1-3) by (auto simp: handles_def)
qed

lemma account_put:
  assumes acc: "account M H C R L" and "limits_ok (count_list L' k) e" and "\<And>j. j \<noteq> k \<Longrightarrow> count_list L' j = count_list L j"
    and "\<And>c. (k, c) \<in> H \<Longrightarrow> seen c e" and "handles ExClaimed (M(k \<mapsto> e)) C'" and "handles ExRunning (M(k \<mapsto> e)) R'"
  shows "account (M(k \<mapsto> e)) H C' R' L'"
proof -
  have "\<exists>f. (M(k \<mapsto> e)) j = Some f \<and> seen c f" if "(j, c) \<in> H" for j c
    using acc assms(4) that by (cases "j = k") (auto simp: account_def)
  moreover have "counted (M(k \<mapsto> e)) L'"
    using acc assms(2,3) by (auto simp: account_def counted_def)
  ultimately show ?thesis using assms(5,6) unfolding account_def by blast
qed

lemma account_claimed: "account M H C R L \<Longrightarrow> handles ExClaimed M C"
  by (simp add: account_def)

lemma account_submitted: "account M H C R L \<Longrightarrow> handles ExRunning M R"
  by (simp add: account_def)

lemma account_copy: "account M H C R L \<Longrightarrow> M k = Some d \<Longrightarrow> (k, c) \<in> H \<Longrightarrow> seen c d"
  by (auto simp: account_def)

lemma account_limits: "account M H C R L \<Longrightarrow> M k = Some d \<Longrightarrow> limits_ok (count_list L k) d"
  by (simp add: account_def counted_def)

lemma account_handle:
  assumes "account M H C R L" and "(k, c) \<in> set C" and "M k = Some d" and "core_token d = core_token c"
  shows "d = c \<and> core_state c = ExClaimed"
  using assms by (auto simp: account_def handles_def held_def)

lemma account_running:
  assumes "account M H C R L" and "(k, c) \<in> set R" and "M k = Some d" and "core_token d = core_token c"
  shows "d = c \<and> core_state c = ExRunning"
  using assms by (auto simp: account_def handles_def held_def)

section \<open>The steps of the account\<close>

lemma handles_extend: "handles st M C \<Longrightarrow> (\<And>k d. M k = Some d \<Longrightarrow> M' k = Some d) \<Longrightarrow> handles st M' C"
  by (fastforce simp: handles_def)

lemma account_extend:
  assumes acc: "account M H C R L" and old: "\<And>k d. M k = Some d \<Longrightarrow> M' k = Some d"
    and new: "\<And>k d. M' k = Some d \<Longrightarrow> M k = None \<Longrightarrow> core_attempt d = 0 \<and> 0 < core_limit d"
  shows "account M' H C R L"
proof -
  have "limits_ok (count_list L k) d" if d: "M' k = Some d" for k d
  proof (cases "M k")
    case None
    then have "count_list L k = 0" using acc by (simp add: account_def counted_def)
    then show ?thesis using new [OF d None] by (simp add: limits_ok_def)
  next
    case (Some f)
    then show ?thesis using old [OF Some] d account_limits [OF acc Some] by simp
  qed
  moreover have "count_list L k = 0" if "M' k = None" for k
    using acc old that by (cases "M k") (auto simp: account_def counted_def)
  ultimately have "counted M' L" by (simp add: counted_def)
  moreover have "\<exists>d. M' k = Some d \<and> seen c d" if "(k, c) \<in> H" for k c
    using acc old that by (fastforce simp: account_def)
  moreover have "handles ExClaimed M' C" using account_claimed [OF acc] by (rule handles_extend) (rule old)
  moreover have "handles ExRunning M' R" using account_submitted [OF acc] by (rule handles_extend) (rule old)
  ultimately show ?thesis unfolding account_def by blast
qed

lemma account_mono: "account M H C R L \<Longrightarrow> H' \<subseteq> H \<Longrightarrow> account M H' C R L"
  unfolding account_def by blast

lemma account_later:
  assumes acc: "account M H C R L" and k: "M k = Some d" and tok: "core_token d < core_token e" and "limits_ok (count_list L k) e"
  shows "account (M(k \<mapsto> e)) H C R L"
proof (rule account_put [OF acc])
  show "seen c e" if "(k, c) \<in> H" for c
    using seen_token [OF account_copy [OF acc k that]] tok by (simp add: seen_later)
  show "handles ExClaimed (M(k \<mapsto> e)) C" "handles ExRunning (M(k \<mapsto> e)) R"
    using handles_later [OF account_claimed [OF acc] k tok] handles_later [OF account_submitted [OF acc] k tok] by auto
qed (use assms(4) in simp_all)

text \<open>A claim from a copy of the queued execution: the claimed execution has one holder.\<close>

lemma account_claim:
  assumes acc: "account M H C R L" and k: "M k = Some d" and copy: "(k, c) \<in> H" "core_state c = ExQueued" "core_token d = core_token c"
    and e: "e = Core ExClaimed (core_attempt c) (core_token c + 1) (core_limit c)"
  shows "account (M(k \<mapsto> e)) H ((k, e) # C) R L"
proof -
  have "core_state d = ExQueued" "core_attempt d = core_attempt c" "core_limit d = core_limit c"
    using account_copy [OF acc k copy(1)] copy(2,3) by (auto simp: seen_def)
  then have "limits_ok (count_list L k) e" using account_limits [OF acc k] e by (auto simp: limits_ok_def)
  moreover have tok: "core_token d < core_token e" using e copy(3) by simp
  ultimately have new: "account (M(k \<mapsto> e)) H C R L" by (intro account_later [OF acc k])
  have "core_token f < core_token e" if "(k, f) \<in> set C" for f
    using handles_token(1) [OF account_claimed [OF acc] k that] tok by simp
  then have "handles ExClaimed (M(k \<mapsto> e)) ((k, e) # C)"
    using new e by (intro handles_add) (auto simp: account_def)
  with new show ?thesis by (auto simp: account_def)
qed

text \<open>No copy of a claimed or running execution under its token was queued or awaits verification.\<close>

lemma seen_busy: "seen c d \<Longrightarrow> core_state d \<in> {ExClaimed, ExRunning} \<Longrightarrow> core_token e = core_token d \<Longrightarrow> core_limit e = core_limit d \<Longrightarrow> seen c e"
  by (auto simp: seen_def)

lemma account_start:
  assumes acc: "account M H C R L" and c: "(k, c) \<in> set C" and k: "M k = Some c"
    and e: "e = Core ExRunning (core_attempt c + 1) (core_token c) (core_limit c)"
  shows "account (M(k \<mapsto> e)) H (remove1 (k, c) C) ((k, e) # R) (k # L)"
proof (rule account_put [OF acc])
  have st: "core_state c = ExClaimed" using account_handle [OF acc c k] by simp
  show "limits_ok (count_list (k # L) k) e" using account_limits [OF acc k] st e by (auto simp: limits_ok_def)
  show "seen f e" if "(k, f) \<in> H" for f using seen_busy [OF account_copy [OF acc k that]] st e by simp
  show "handles ExClaimed (M(k \<mapsto> e)) (remove1 (k, c) C)"
    using e by (intro handles_drop [OF account_claimed [OF acc] k c]) simp
  note R = account_submitted [OF acc]
  have "core_token f < core_token c" if "(k, f) \<in> set R" for f using handles_token(2) [OF R k that] st by simp
  moreover have "handles ExRunning (M(k \<mapsto> e)) R" using handles_other [OF R k] st e by simp
  ultimately show "handles ExRunning (M(k \<mapsto> e)) ((k, e) # R)" using e by (intro handles_add) auto
qed simp

text \<open>A claimed execution that fails before it is submitted, and a running one that ends.\<close>

lemma account_give_up:
  assumes acc: "account M H C R L" and c: "(k, c) \<in> set C" and k: "M k = Some c"
    and e: "e = Core ExFailed (core_attempt c) (core_token c) (core_limit c)"
  shows "account (M(k \<mapsto> e)) H (remove1 (k, c) C) R L"
proof (rule account_put [OF acc])
  have st: "core_state c = ExClaimed" using account_handle [OF acc c k] by simp
  show "limits_ok (count_list L k) e" using account_limits [OF acc k] e by (auto simp: limits_ok_def)
  show "seen f e" if "(k, f) \<in> H" for f using seen_busy [OF account_copy [OF acc k that]] st e by simp
  show "handles ExClaimed (M(k \<mapsto> e)) (remove1 (k, c) C)"
    using e by (intro handles_drop [OF account_claimed [OF acc] k c]) simp
  show "handles ExRunning (M(k \<mapsto> e)) R"
    using st e by (intro handles_other [OF account_submitted [OF acc] k]) simp_all
qed simp

lemma account_finish:
  assumes acc: "account M H C R L" and r: "(k, r) \<in> set R" and k: "M k = Some r"
    and e: "e = Core st (core_attempt r) (core_token r) (core_limit r)" and st: "st = ExClaimed \<or> st = ExQueued \<Longrightarrow> core_attempt r < core_limit r"
  shows "account (M(k \<mapsto> e)) H C (remove1 (k, r) R) L"
proof (rule account_put [OF acc])
  have run: "core_state r = ExRunning" using account_running [OF acc r k] by simp
  show "limits_ok (count_list L k) e" using account_limits [OF acc k] st e by (auto simp: limits_ok_def)
  show "seen f e" if "(k, f) \<in> H" for f using seen_busy [OF account_copy [OF acc k that]] run e by simp
  show "handles ExRunning (M(k \<mapsto> e)) (remove1 (k, r) R)"
    using e by (intro handles_drop [OF account_submitted [OF acc] k r]) simp
  show "handles ExClaimed (M(k \<mapsto> e)) C"
    using run e by (intro handles_other [OF account_claimed [OF acc] k]) simp_all
qed simp

lemma account_verify:
  assumes acc: "account M H C R L" and k: "M k = Some d" and copy: "(k, c) \<in> H" "core_state c = ExVerificationPending" "core_token d = core_token c"
    and e: "e = Core st (core_attempt c) (core_token c) (core_limit c)" and st: "st \<notin> {ExQueued, ExClaimed, ExRunning}"
  shows "account (M(k \<mapsto> e)) H C R L"
proof (rule account_put [OF acc])
  have d: "core_attempt d = core_attempt c" "core_limit d = core_limit c" "core_state d \<notin> {ExQueued, ExClaimed, ExRunning}"
    using account_copy [OF acc k copy(1)] copy(2,3) by (auto simp: seen_def)
  show "limits_ok (count_list L k) e" using account_limits [OF acc k] st e d by (auto simp: limits_ok_def)
  show "seen f e" if "(k, f) \<in> H" for f using account_copy [OF acc k that] e d st copy(3) by (auto simp: seen_def)
  show "handles ExClaimed (M(k \<mapsto> e)) C" "handles ExRunning (M(k \<mapsto> e)) R"
    using d e copy(3) by (auto intro!: handles_other [OF account_claimed [OF acc] k] handles_other [OF account_submitted [OF acc] k])
qed simp

section \<open>What the calls do to the account\<close>

definition cores :: "auto_repo \<Rightarrow> string \<rightharpoonup> core" where
  "cores s k = map_option core_of (execution_at s k)"

definition keyed :: "auto_repo \<Rightarrow> bool" where
  "keyed s \<longleftrightarrow> (\<forall>k y. execution_at s k = Some y \<longrightarrow> ex_execution_id y = k)"

text \<open>\<open>moves k e\<close>: nothing changes, or the execution under \<open>k\<close> becomes \<open>e\<close> and keeps its token.\<close>

definition moves :: "string \<Rightarrow> core \<Rightarrow> auto_repo \<Rightarrow> auto_repo \<Rightarrow> bool" where
  "moves k e s s' \<longleftrightarrow> (keyed s \<longrightarrow> keyed s') \<and>
     (cores s' = cores s \<or> (\<exists>d. cores s k = Some d \<and> core_token d = core_token e \<and> cores s' = (cores s)(k \<mapsto> e)))"

interpretation mv: step_order "moves k e" for k e
  by unfold_locales (auto simp: moves_def)

lemma frame_moves: "evolves same_execs m \<Longrightarrow> evolves (moves k e) m"
  by (auto simp: evolves_def same_execs_def moves_def cores_def keyed_def fun_eq_iff)

lemmas moves_calls [evolve_rules] = frame_calls [THEN frame_moves] frame_events [THEN frame_moves]

lemmas moves_on_conflict [evolve_rules] = evolves_on_conflict [OF mv.step_order_axioms]

lemma cores_put: "cores (s\<lparr>au_executions := dput k y (au_executions s)\<rparr>) = (cores s)(k \<mapsto> core_of y)"
  by (simp add: cores_def fun_eq_iff)

lemma keyed_put: "keyed s \<Longrightarrow> ex_execution_id y = k \<Longrightarrow> keyed (s\<lparr>au_executions := dput k y (au_executions s)\<rparr>)"
  by (simp add: keyed_def)

lemma update_run:
  assumes "update_execution y (Some t) s = (r, s')"
  shows "s' = s \<and> (\<exists>m. r = Inl (Conflict m)) \<or>
    r = Inr y \<and> s' = s\<lparr>au_executions := dput (ex_execution_id y) y (au_executions s)\<rparr> \<and>
      (\<exists>d. cores s (ex_execution_id y) = Some d \<and> core_token d = t)"
  using assms
  by (cases "execution_at s (ex_execution_id y)") (auto simp: update_execution_def py_simps cores_def core_of_def split: if_splits)

lemma moves_update:
  assumes "ex_execution_id y = k" and "core_of y = e" and "t = core_token e"
  shows "evolves (moves k e) (update_execution y (Some t))"
proof (rule evolvesI)
  fix s
  obtain r s' where run: "update_execution y (Some t) s = (r, s')" by fastforce
  from update_run [OF run] have "moves k e s s'"
    using assms by (auto simp: moves_def cores_put keyed_put)
  then show "moves k e s (snd (update_execution y (Some t) s))" using run by simp
qed

lemma core_simps [simp]:
  "core_state (core_of x) = ex_state x" "core_attempt (core_of x) = ex_attempt x" "core_token (core_of x) = ex_lease_token x"
  "core_limit (core_of x) = ex_max_attempts x" "core_of (x\<lparr>ex_transition_event_pending := b\<rparr>) = core_of x"
  "core_of (x\<lparr>ex_lease_expires_at := le\<rparr>) = core_of x"
  by (simp_all add: core_of_def)

lemma core_failed:
  "core_of (failed_item env x code retry unsure now) =
     Core (if retry \<and> ex_attempt x < ex_max_attempts x then ExQueued else if unsure then ExReconciliationRequired else ExFailed)
       (ex_attempt x) (ex_lease_token x) (ex_max_attempts x)"
  by (simp add: failed_item_def Let_def core_of_def)

lemma core_finished:
  "core_of (finished_item env x res now) =
     Core (if er_accepted res then ExVerificationPending
           else if er_retryable res \<and> ex_attempt x < ex_max_attempts x then ExQueued else ExFailed)
       (ex_attempt x) (ex_lease_token x) (ex_max_attempts x)"
  by (simp add: finished_item_def Let_def core_of_def)

lemma failed_id [simp]:
  "ex_execution_id (failed_item env x code retry unsure now) = ex_execution_id x"
  "ex_lease_token (failed_item env x code retry unsure now) = ex_lease_token x"
  "ex_execution_id (finished_item env x res now) = ex_execution_id x"
  "ex_lease_token (finished_item env x res now) = ex_lease_token x"
  by (simp_all add: failed_item_def finished_item_def Let_def)

lemma moves_failure:
  "evolves (moves (ex_execution_id x) (core_of (failed_item env x code retry unsure 0))) (record_failure env x code retry unsure obs)"
  unfolding record_failure_def Let_def
  by (intro evolve_rules moves_update) (simp_all add: core_failed)

lemma moves_outcome: "evolves (moves (ex_execution_id x) (core_of x)) (record_outcome env x)"
  unfolding record_outcome_def by (intro evolve_rules moves_update) simp_all

text \<open>The end of a submission: the attempt stays, and only an attempt below the limit is queued again.\<close>

definition ended :: "core \<Rightarrow> core \<Rightarrow> bool" where
  "ended r e \<longleftrightarrow> (\<exists>st. e = Core st (core_attempt r) (core_token r) (core_limit r) \<and> st \<notin> {ExClaimed, ExRunning} \<and>
     (st = ExQueued \<longrightarrow> core_attempt r < core_limit r))"

lemma finish_core_moves:
  assumes "worker_finish env x out lost s = (u, s')"
  shows "\<exists>e. ended (core_of x) e \<and> moves (ex_execution_id x) e s s'"
proof -
  have fail: "ended (core_of x) (core_of (failed_item env x code retry unsure 0))" for code retry unsure
    by (simp add: ended_def core_failed)
  have idle: "\<exists>e. ended (core_of x) e \<and> moves (ex_execution_id x) e t t" for t
    using fail mv.step_refl by blast
  have failure: "\<exists>e. ended (core_of x) e \<and> moves (ex_execution_id x) e t t'"
    if "record_failure env x code retry unsure obs t = (u, t')" for code retry unsure obs t t'
    using fail evolvesD [OF moves_failure that] by blast
  show ?thesis
  proof (cases out)
    case (Returned res)
    let ?t = "s\<lparr>au_ticks := Suc (au_ticks s)\<rparr>" and ?now = "ae_clock env (au_ticks s)" and ?k = "ex_execution_id x"
    have tick: "moves k e s ?t" for k e by (auto simp: moves_def cores_def keyed_def fun_eq_iff)
    consider (lost) lost "s' = ?t"
      | (late) "on_conflict (record_failure env x ''execution_deadline_exceeded'' False True (Some ?now)) (ret ()) ?t = (u, s')"
      | (over) "record_outcome env (finished_item env x res ?now) ?t = (u, s')"
      using assms Returned by (auto simp: worker_finish_def clock_now_def py_simps split: if_splits)
    then show ?thesis
    proof cases
      case lost
      then show ?thesis using fail tick by blast
    next
      case late
      have "evolves (moves ?k (core_of (failed_item env x c False True 0)))
          (on_conflict (record_failure env x c False True obs) (ret ()))" for c obs
        by (intro evolve_rules moves_failure)
      from mv.step_trans [OF tick evolvesD [OF this late]] show ?thesis using fail by blast
    next
      case over
      have "ended (core_of x) (core_of (finished_item env x res ?now))" by (simp add: ended_def core_finished)
      moreover have "moves ?k (core_of (finished_item env x res ?now)) ?t s'" using evolvesD [OF moves_outcome over] by simp
      ultimately show ?thesis using mv.step_trans [OF tick] by blast
    qed
  qed (use assms failure idle in \<open>auto simp: worker_finish_def split: if_splits\<close>)
qed

lemma claim_run:
  assumes "claim_execution w x now s = (Inr c, s')"
  shows "ex_state x = ExQueued \<and> ex_execution_id c = ex_execution_id x \<and>
    core_of c = Core ExClaimed (ex_attempt x) (ex_lease_token x + 1) (ex_max_attempts x) \<and>
    s' = s\<lparr>au_executions := dput (ex_execution_id x) c (au_executions s)\<rparr> \<and>
    (\<exists>d. cores s (ex_execution_id x) = Some d \<and> core_token d = ex_lease_token x)"
proof -
  let ?c = "x\<lparr>ex_state := ExClaimed, ex_lease_owner := Some (wk_id w), ex_lease_token := ex_lease_token x + 1,
    ex_lease_expires_at := Some (now + secs (wk_lease_seconds w)), ex_claimed_at := Some now, ex_updated_at := now\<rparr>"
  have "ex_state x = ExQueued" "update_execution ?c (Some (ex_lease_token x)) s = (Inr c, s')"
    using assms by (auto simp: claim_execution_def py_simps split: if_splits)
  with update_run [OF this(2)] show ?thesis by (auto simp: core_of_def)
qed

text \<open>Starting a claimed execution: nothing, a failure, or a submission.\<close>

definition start_effect :: "execution \<Rightarrow> py_error + execution option \<times> int \<Rightarrow> auto_repo \<Rightarrow> auto_repo \<Rightarrow> bool" where
  "start_effect c r s s' \<longleftrightarrow> (keyed s \<longrightarrow> keyed s') \<and> (
     (\<forall>x n. r \<noteq> Inr (Some x, n)) \<and> moves (ex_execution_id c) (Core ExFailed (ex_attempt c) (ex_lease_token c) (ex_max_attempts c)) s s' \<or>
     (\<exists>d x n. r = Inr (Some x, n) \<and> cores s (ex_execution_id c) = Some d \<and> core_token d = ex_lease_token c \<and>
        ex_execution_id x = ex_execution_id c \<and> core_of x = Core ExRunning (ex_attempt c + 1) (ex_lease_token c) (ex_max_attempts c) \<and>
        cores s' = (cores s)(ex_execution_id c \<mapsto> core_of x)))"

lemma start_run:
  assumes "start_claimed env w c s = (r, s')"
  shows "start_effect c r s s'"
proof (cases "wk_registered w (ex_action_type c)")
  case False
  let ?f = "c\<lparr>ex_state := ExFailed, ex_error_code := Some ''executor_not_configured''\<rparr>"
  have "evolves (moves (ex_execution_id c) (Core ExFailed (ex_attempt c) (ex_lease_token c) (ex_max_attempts c)))
      (seqp (update_execution ?f (Some (ex_lease_token c))) (ret (None, 1)))"
    by (intro evolve_rules moves_update) (simp_all add: core_of_def)
  moreover have run: "seqp (update_execution ?f (Some (ex_lease_token c))) (ret (None, 1)) s = (r, s')"
    using assms False by (simp add: start_claimed_def)
  ultimately have m: "moves (ex_execution_id c) (Core ExFailed (ex_attempt c) (ex_lease_token c) (ex_max_attempts c)) s s'"
    by (rule evolvesD)
  moreover have "r \<noteq> Inr (Some x, n)" for x n using run by (auto elim!: seqp_InrE)
  ultimately show ?thesis by (simp add: start_effect_def moves_def)
next
  case True
  let ?t = "s\<lparr>au_ticks := Suc (au_ticks s)\<rparr>" and ?now = "ae_clock env (au_ticks s)"
  let ?x = "c\<lparr>ex_state := ExRunning, ex_attempt := ex_attempt c + 1, ex_updated_at := ?now, ex_execution_started_at := Some ?now\<rparr>"
  have tick: "cores ?t = cores s" "keyed ?t = keyed s" by (auto simp: cores_def keyed_def fun_eq_iff)
  obtain q u where run: "update_execution ?x (Some (ex_lease_token c)) ?t = (q, u)" by fastforce
  from update_run [OF run] show ?thesis
  proof (elim disjE conjE exE)
    fix m assume "u = ?t" "q = Inl (Conflict m)"
    then have "r = Inr (None, 1)" "s' = ?t"
      using assms True run by (auto simp: start_claimed_def py_simps Let_def clock_now_def on_conflict_def)
    then show ?thesis using tick by (simp add: start_effect_def moves_def)
  next
    fix d assume q: "q = Inr ?x" and u: "u = ?t\<lparr>au_executions := dput (ex_execution_id ?x) ?x (au_executions ?t)\<rparr>"
      and d: "cores ?t (ex_execution_id ?x) = Some d" "core_token d = ex_lease_token c"
    have r: "r = Inr (Some ?x, 0)" "s' = u"
      using assms True run q by (auto simp: start_claimed_def py_simps Let_def clock_now_def on_conflict_def)
    have "cores u = (cores s)(ex_execution_id c \<mapsto> core_of ?x)" "keyed s \<longrightarrow> keyed u"
      unfolding u cores_put tick(1) using keyed_put [of ?t ?x] tick(2) by simp_all
    then show ?thesis
      unfolding start_effect_def r using d tick by (intro conjI disjI2 exI [of _ d] exI [of _ ?x] exI [of _ 0]) (simp_all add: core_of_def)
  qed
qed

lemma recover_run:
  assumes "recover_item env w look now x s = (n, s')" and "execution_at s (ex_execution_id x) = Some x"
  shows "\<exists>st. cores s' = (cores s)(ex_execution_id x \<mapsto> Core st (ex_attempt x) (ex_lease_token x + 1) (ex_max_attempts x)) \<and>
    (keyed s \<longrightarrow> keyed s') \<and> (if ex_state x = ExClaimed then st = ExQueued else st \<notin> {ExQueued, ExClaimed, ExRunning})"
proof -
  let ?y = "taken_over w x now" and ?k = "ex_execution_id x"
  let ?z = "looked_up ?y (look (?y\<lparr>ex_state := ExReconciliationRequired\<rparr>)) now"
  have ids: "ex_execution_id ?y = ?k" "ex_execution_id ?z = ?k" "ex_lease_token ?y = ex_lease_token x + 1"
    using ident_changes(3,4) by (simp_all add: ex_ident_def taken_over_def)
  have "s' = s\<lparr>au_executions := dput ?k ?z (dput ?k ?y (au_executions s))\<rparr>"
    using assms ids by (simp add: recover_item_def on_conflict_def update_execution_def py_simps)
  then have "cores s' = (cores s)(?k \<mapsto> core_of ?z)" "keyed s \<longrightarrow> keyed s'"
    using ids by (auto simp: cores_def fun_eq_iff keyed_def)
  moreover have "\<exists>st. core_of ?z = Core st (ex_attempt x) (ex_lease_token x + 1) (ex_max_attempts x) \<and>
      (if ex_state x = ExClaimed then st = ExQueued else st \<notin> {ExQueued, ExClaimed, ExRunning})"
    by (simp add: core_of_def looked_up_def taken_over_def Let_def split: option.split)
  ultimately show ?thesis by auto
qed

lemma verify_run:
  assumes "verify_execution env x v s = (q, s')"
  shows "\<exists>st. st \<notin> {ExQueued, ExClaimed, ExRunning} \<and>
    moves (ex_execution_id x) (Core st (ex_attempt x) (ex_lease_token x) (ex_max_attempts x)) s s'"
    and "ex_state x \<noteq> ExVerificationPending \<Longrightarrow> s' = s"
proof -
  let ?st = "if evidence_fits x v \<and> ve_successful v then ExVerified else ExVerificationFailed"
  have id: "ex_execution_id (verified_execution env x v now) = ex_execution_id x"
      "ex_lease_token (verified_execution env x v now) = ex_lease_token x"
      "core_of (verified_execution env x v now) = Core ?st (ex_attempt x) (ex_lease_token x) (ex_max_attempts x)" for now
    by (simp_all add: verified_execution_def Let_def core_of_def)
  have "evolves (moves (ex_execution_id x) (Core ?st (ex_attempt x) (ex_lease_token x) (ex_max_attempts x))) (verify_execution env x v)"
    unfolding verify_execution_def Let_def by (intro evolve_rules moves_update) (simp_all add: id)
  from evolvesD [OF this assms] show "\<exists>st. st \<notin> {ExQueued, ExClaimed, ExRunning} \<and>
      moves (ex_execution_id x) (Core st (ex_attempt x) (ex_lease_token x) (ex_max_attempts x)) s s'"
    by (intro exI [of _ ?st]) simp
  show "s' = s" if "ex_state x \<noteq> ExVerificationPending" using assms that by (simp add: verify_execution_def)
qed

lemma evidence_run:
  assumes "repair_evidence env x s = (n, s')" and "execution_at s (ex_execution_id x) = Some x"
  shows "cores s' = cores s \<and> (keyed s \<longrightarrow> keyed s')"
proof -
  have "evolves (moves (ex_execution_id x) (core_of x)) (repair_evidence env x)"
    unfolding repair_evidence_def skip_conflict_def by (intro evolve_rules moves_update) simp_all
  from evolvesD [OF this assms(1)] assms(2) show ?thesis
    by (auto simp: moves_def cores_def fun_eq_iff)
qed

definition core_frame :: "auto_repo \<Rightarrow> auto_repo \<Rightarrow> bool" where
  "core_frame s s' \<longleftrightarrow> cores s' = cores s \<and> (keyed s \<longrightarrow> keyed s')"

interpretation cf: step_order core_frame
  by unfold_locales (auto simp: core_frame_def)

lemma heartbeat_run: "evolves core_frame (heartbeat_tick env w x)"
proof -
  have "evolves core_frame (renew_execution_lease env t e i ow tok u)" for t e i ow tok u
  proof (rule evolvesI)
    fix s :: auto_repo
    show "core_frame s (snd (renew_execution_lease env t e i ow tok u s))"
      by (cases "execution_at s i")
         (auto simp: renew_execution_lease_def clock_now_def py_simps Let_def core_frame_def cores_def keyed_def core_of_def fun_eq_iff)
  qed
  moreover have "evolves core_frame (clock_now env)"
    by (rule evolvesI) (auto simp: clock_now_def core_frame_def cores_def keyed_def fun_eq_iff)
  ultimately show ?thesis unfolding heartbeat_tick_def by (intro evolve_rules)
qed

text \<open>Queueing adds fresh executions only.\<close>

lemma queue_grows:
  "evolves (extends (\<lambda>z. \<exists>eid. is_new env p eid actor i r now z)) (queue_execution env p actor key v t i r now)"
proof -
  have "evolves (extends (\<lambda>z. \<exists>eid. is_new env p eid actor i r now z)) (queue_with env p actor key i r now x)" for x
    using queue_with_extends [of env p key x actor i r now] by (fastforce simp: evolves_def extends_def)
  moreover have "evolves same_execs (queue_guards env p actor v t now)"
    unfolding queue_guards_def by (intro evolve_rules)
  ultimately show ?thesis
    unfolding queue_execution_def
    by (intro ext.evolves_seqp ext.evolves_bindp ext.evolves_sum ext.evolves_ret) (simp_all add: frame_extends frame_coordinator)
qed

section \<open>Runs\<close>

text \<open>
  Workers claim, start, keep alive and finish executions, crash and lose what they hold, take over what is
  stored, and evidence is verified or repaired, in any order. A claim and a verification may use any copy read
  before; a takeover and a repair of evidence read and write without anybody in between. Every other call of the
  coordinator leaves executions alone. \<open>C\<close> are the claimed executions, \<open>R\<close> the submitted ones that workers hold, \<open>L\<close> is
  the log of submissions, latest first.
\<close>

inductive attempts :: "auto_env \<Rightarrow> auto_repo \<Rightarrow> execution set \<Rightarrow> execution list \<Rightarrow> execution list \<Rightarrow> string list \<Rightarrow> bool" for env where
  init: "attempts env empty_auto {} [] [] []"
| coordinate: "attempts env s H C R L \<Longrightarrow> same_execs s s' \<Longrightarrow> attempts env s' H C R L"
| queue: "attempts env s H C R L \<Longrightarrow> queue_execution env p actor key v t i req now s = (q, s') \<Longrightarrow>
    attempts env s' (H \<union> stored s') C R L"
| claim: "attempts env s H C R L \<Longrightarrow> x \<in> H \<Longrightarrow> claim_execution w x now s = (Inr c, s') \<Longrightarrow>
    attempts env s' (H \<union> stored s') (c # C) R L"
| submit: "attempts env s H C R L \<Longrightarrow> c \<in> set C \<Longrightarrow> start_claimed env w c s = (Inr (Some x, n), s') \<Longrightarrow>
    attempts env s' (H \<union> stored s') (remove1 c C) (x # R) (ex_execution_id x # L)"
| refuse: "attempts env s H C R L \<Longrightarrow> c \<in> set C \<Longrightarrow> start_claimed env w c s = (r, s') \<Longrightarrow> (\<And>x n. r \<noteq> Inr (Some x, n)) \<Longrightarrow>
    attempts env s' (H \<union> stored s') (remove1 c C) R L"
| heartbeat: "attempts env s H C R L \<Longrightarrow> heartbeat_tick env w x s = (b, s') \<Longrightarrow> attempts env s' (H \<union> stored s') C R L"
| finish: "attempts env s H C R L \<Longrightarrow> x \<in> set R \<Longrightarrow> worker_finish env (x\<lparr>ex_lease_expires_at := le\<rparr>) outcome lost s = (u, s') \<Longrightarrow>
    attempts env s' (H \<union> stored s') C (remove1 x R) L"
| crash: "attempts env s H C R L \<Longrightarrow> attempts env s H (remove1 c C) (remove1 x R) L"
| recover: "attempts env s H C R L \<Longrightarrow> dget (au_executions s) (ex_execution_id x) = Some x \<Longrightarrow>
    recover_item env w look now x s = (m, s') \<Longrightarrow> ex_state x \<in> {ExClaimed, ExRunning, ExReconciliationRequired} \<Longrightarrow>
    attempts env s' (H \<union> stored s') C R L"
| verify: "attempts env s H C R L \<Longrightarrow> x \<in> H \<Longrightarrow> verify_execution env x e s = (q, s') \<Longrightarrow> attempts env s' (H \<union> stored s') C R L"
| evidence: "attempts env s H C R L \<Longrightarrow> dget (au_executions s) (ex_execution_id x) = Some x \<Longrightarrow>
    repair_evidence env x s = (m, s') \<Longrightarrow> attempts env s' (H \<union> stored s') C R L"

definition entry :: "execution \<Rightarrow> string \<times> core" where
  "entry x = (ex_execution_id x, core_of x)"

definition attempts_inv :: "auto_repo \<Rightarrow> execution set \<Rightarrow> execution list \<Rightarrow> execution list \<Rightarrow> string list \<Rightarrow> bool" where
  "attempts_inv s H C R L \<longleftrightarrow> keyed s \<and> account (cores s) (entry ` H) (map entry C) (map entry R) L"

definition catalogue_ok :: "auto_env \<Rightarrow> bool" where
  "catalogue_ok env \<longleftrightarrow> list_all (\<lambda>d. 1 \<le> ad_max_attempts d) (ae_catalogue env)"

text \<open>The copies of the new state are added for free.\<close>

lemma attempts_close:
  assumes "keyed s" and "account (cores s) (entry ` H) C R L"
  shows "account (cores s) (entry ` (H \<union> stored s)) C R L"
proof -
  have "entry ` (H \<union> stored s) \<subseteq> entry ` H \<union> {(k, d). cores s k = Some d}"
    using assms(1) by (auto simp: entry_def stored_def cores_def keyed_def)
  then show ?thesis by (rule account_mono [OF account_seen [OF assms(2)]])
qed

lemma handles_subset:
  assumes "handles st M C"
  shows "handles st M (remove1 x C)"
proof -
  have "distinct (map (\<lambda>(k, c). (k, core_token c)) (remove1 x C))"
    using assms unfolding handles_def distinct_map by (meson distinct_remove1 inj_on_subset set_remove1_subset)
  then show ?thesis using assms set_remove1_subset [of x C] unfolding handles_def by blast
qed

text \<open>Two held executions with the same entry: dropping one drops one entry.\<close>

lemma map_remove1_entry:
  assumes "handles st M (map entry C)" and "x \<in> set C"
  shows "map entry (remove1 x C) = remove1 (entry x) (map entry C)"
proof -
  have "distinct (map ((\<lambda>(k, c). (k, core_token c)) \<circ> entry) C)" using assms(1) by (simp add: handles_def)
  then have "inj_on entry (set C)" unfolding distinct_map by (blast intro: inj_on_imageI2)
  then show ?thesis using assms(2)
  proof (induction C)
    case (Cons y C)
    then show ?case by (cases "x = y") (auto simp: inj_on_def)
  qed simp
qed

section \<open>The account is kept\<close>

lemma inv_frame:
  assumes "attempts_inv s H C R L" and "core_frame s s'"
  shows "attempts_inv s' (H \<union> stored s') C R L"
  using assms attempts_close [of s' H] by (simp add: attempts_inv_def core_frame_def)

lemma inv_queue:
  assumes inv: "attempts_inv s H C R L" and ext: "extends P s s'"
    and new: "\<And>z. P z \<Longrightarrow> ex_attempt z = 0 \<and> 0 < ex_max_attempts z"
  shows "attempts_inv s' (H \<union> stored s') C R L"
proof -
  have "cores s' k = Some d" if "cores s k = Some d" for k d
    using that extendsD(1) [OF ext] by (auto simp: cores_def)
  moreover have "core_attempt d = 0 \<and> 0 < core_limit d" if d: "cores s' k = Some d" "cores s k = None" for k d
  proof -
    obtain z where z: "execution_at s' k = Some z" "d = core_of z" using d(1) by (auto simp: cores_def)
    then have "P z" using extendsD(2) [OF ext z(1)] d(2) by (auto simp: cores_def)
    with new z(2) show ?thesis by simp
  qed
  moreover have "keyed s'" using inv extendsD(2) [OF ext] unfolding keyed_def attempts_inv_def by blast
  ultimately show ?thesis
    using inv attempts_close [of s' H] account_extend [of "cores s" "entry ` H"] by (simp add: attempts_inv_def)
qed

lemma inv_claim:
  assumes inv: "attempts_inv s H C R L" and x: "x \<in> H" and run: "claim_execution w x now s = (Inr c, s')"
  shows "attempts_inv s' (H \<union> stored s') (c # C) R L"
proof -
  note r = claim_run [OF run]
  then obtain d where d: "cores s (ex_execution_id x) = Some d" "core_token d = ex_lease_token x" by blast
  have "account ((cores s)(ex_execution_id x \<mapsto> core_of c)) (entry ` H) ((ex_execution_id x, core_of c) # map entry C) (map entry R) L"
    using inv x r d by (intro account_claim [where d = d and c = "core_of x"]) (auto simp: attempts_inv_def entry_def)
  moreover have "cores s' = (cores s)(ex_execution_id x \<mapsto> core_of c)" "keyed s'"
    using r inv by (auto simp: cores_put attempts_inv_def intro!: keyed_put)
  ultimately show ?thesis using attempts_close [of s' H] r by (simp add: attempts_inv_def entry_def)
qed

lemma inv_account: "attempts_inv s H C R L \<Longrightarrow> account (cores s) (entry ` H) (map entry C) (map entry R) L"
  by (simp add: attempts_inv_def)

lemma inv_intro:
  assumes "attempts_inv s H C R L" and "keyed s \<longrightarrow> keyed s'" and "account (cores s') (entry ` H) (map entry C') (map entry R') L'"
  shows "attempts_inv s' (H \<union> stored s') C' R' L'"
  using assms attempts_close [of s' H] by (simp add: attempts_inv_def)

lemma handles_remove: "handles st M (map entry C) \<Longrightarrow> handles st M (map entry (remove1 x C))"
  using handles_subset [of st M "map entry C" "entry x"] map_remove1_entry [of st M C x]
  by (cases "x \<in> set C") (simp_all add: remove1_idem)

lemma account_drop:
  "account M H (map entry C) R L \<Longrightarrow> account M H (map entry (remove1 x C)) R L"
  "account M H C' (map entry R') L \<Longrightarrow> account M H C' (map entry (remove1 x R')) L"
  by (simp_all add: account_def handles_remove)

lemma inv_start:
  assumes inv: "attempts_inv s H C R L" and c: "c \<in> set C" and run: "start_claimed env w c s = (r, s')"
  shows "attempts_inv s' (H \<union> stored s') (remove1 c C) (case r of Inr (Some x, n) \<Rightarrow> x # R | _ \<Rightarrow> R)
    (case r of Inr (Some x, n) \<Rightarrow> ex_execution_id x # L | _ \<Rightarrow> L)"
proof -
  note acc = inv_account [OF inv]
  let ?k = "ex_execution_id c" and ?c = "core_of c"
  have mem: "(?k, ?c) \<in> set (map entry C)" using c by (auto simp: entry_def)
  have rem: "map entry (remove1 c C) = remove1 (?k, ?c) (map entry C)"
    using map_remove1_entry [OF account_claimed [OF acc] c] by (simp add: entry_def)
  have hit: "cores s ?k = Some ?c" if "cores s ?k = Some d" "core_token d = ex_lease_token c" for d
    using account_handle [OF acc mem that(1)] that by simp
  from start_run [OF run] consider
      (none) "\<And>x n. r \<noteq> Inr (Some x, n)" "cores s' = cores s" "keyed s \<longrightarrow> keyed s'"
    | (failed) d where "\<And>x n. r \<noteq> Inr (Some x, n)" "cores s ?k = Some d" "core_token d = ex_lease_token c" "keyed s \<longrightarrow> keyed s'"
        "cores s' = (cores s)(?k \<mapsto> Core ExFailed (ex_attempt c) (ex_lease_token c) (ex_max_attempts c))"
    | (started) d x n where "r = Inr (Some x, n)" "cores s ?k = Some d" "core_token d = ex_lease_token c" "ex_execution_id x = ?k"
        "core_of x = Core ExRunning (ex_attempt c + 1) (ex_lease_token c) (ex_max_attempts c)"
        "cores s' = (cores s)(?k \<mapsto> core_of x)" "keyed s \<longrightarrow> keyed s'"
    unfolding start_effect_def moves_def by auto
  then show ?thesis
  proof cases
    case none
    then have "account (cores s') (entry ` H) (map entry (remove1 c C)) (map entry R) L"
      using account_drop(1) [OF acc] by simp
    then show ?thesis using none inv_intro [OF inv none(3)] by (auto split: sum.split option.split prod.split)
  next
    case failed
    then have "account (cores s') (entry ` H) (map entry (remove1 c C)) (map entry R) L"
      unfolding failed(5) rem by (intro account_give_up [OF acc mem hit [OF failed(2,3)]]) simp
    then show ?thesis using failed(1) inv_intro [OF inv failed(4)] by (auto split: sum.split option.split prod.split)
  next
    case started
    have "account (cores s') (entry ` H) (remove1 (?k, ?c) (map entry C)) ((?k, core_of x) # map entry R) (?k # L)"
      unfolding started(6) by (intro account_start [OF acc mem hit [OF started(2,3)]]) (simp add: started)
    then show ?thesis
      unfolding started(1) using inv_intro [OF inv started(7), of "remove1 c C" "x # R" "?k # L"] started(4) by (simp add: rem entry_def)
  qed
qed

lemma inv_finish:
  assumes inv: "attempts_inv s H C R L" and x: "x \<in> set R"
    and run: "worker_finish env (x\<lparr>ex_lease_expires_at := le\<rparr>) out lost s = (u, s')"
  shows "attempts_inv s' (H \<union> stored s') C (remove1 x R) L"
proof -
  note acc = inv_account [OF inv]
  let ?k = "ex_execution_id x" and ?x = "core_of x"
  have mem: "(?k, ?x) \<in> set (map entry R)" using x by (auto simp: entry_def)
  have rem: "map entry (remove1 x R) = remove1 (?k, ?x) (map entry R)"
    using map_remove1_entry [OF account_submitted [OF acc] x] by (simp add: entry_def)
  obtain e where e: "ended ?x e" "moves ?k e s s'" using finish_core_moves [OF run] by auto
  obtain st where st: "e = Core st (ex_attempt x) (ex_lease_token x) (ex_max_attempts x)" "st \<notin> {ExClaimed, ExRunning}"
      "st = ExQueued \<Longrightarrow> ex_attempt x < ex_max_attempts x"
    using e(1) by (auto simp: ended_def)
  have keyed: "keyed s \<longrightarrow> keyed s'" using e(2) by (simp add: moves_def)
  from e(2) consider (same) "cores s' = cores s"
    | (hit) d where "cores s ?k = Some d" "core_token d = core_token e" "cores s' = (cores s)(?k \<mapsto> e)"
    unfolding moves_def by blast
  then have "account (cores s') (entry ` H) (map entry C) (map entry (remove1 x R)) L"
  proof cases
    case same
    then show ?thesis using account_drop(2) [OF acc] by simp
  next
    case hit
    then have "cores s ?k = Some ?x" using account_running [OF acc mem hit(1)] st(1) by simp
    then show ?thesis unfolding hit(3) rem using st by (intro account_finish [OF acc mem, where st = st]) auto
  qed
  then show ?thesis by (rule inv_intro [OF inv keyed])
qed

lemma inv_recover:
  assumes inv: "attempts_inv s H C R L" and x: "execution_at s (ex_execution_id x) = Some x"
    and run: "recover_item env w look now x s = (n, s')"
    and st: "ex_state x \<in> {ExClaimed, ExRunning, ExReconciliationRequired}"
  shows "attempts_inv s' (H \<union> stored s') C R L"
proof -
  note acc = inv_account [OF inv]
  let ?k = "ex_execution_id x"
  obtain st' where r: "cores s' = (cores s)(?k \<mapsto> Core st' (ex_attempt x) (ex_lease_token x + 1) (ex_max_attempts x))"
      "keyed s \<longrightarrow> keyed s'" "if ex_state x = ExClaimed then st' = ExQueued else st' \<notin> {ExQueued, ExClaimed, ExRunning}"
    using recover_run [OF run x] by blast
  have k: "cores s ?k = Some (core_of x)" using x by (simp add: cores_def)
  have "limits_ok (count_list L ?k) (Core st' (ex_attempt x) (ex_lease_token x + 1) (ex_max_attempts x))"
    using account_limits [OF acc k] r(3) by (auto simp: limits_ok_def split: if_splits)
  then have "account (cores s') (entry ` H) (map entry C) (map entry R) L"
    unfolding r(1) by (intro account_later [OF acc k]) simp_all
  then show ?thesis by (rule inv_intro [OF inv r(2)])
qed

lemma inv_verify:
  assumes inv: "attempts_inv s H C R L" and x: "x \<in> H" and run: "verify_execution env x v s = (q, s')"
  shows "attempts_inv s' (H \<union> stored s') C R L"
proof (cases "ex_state x = ExVerificationPending")
  case False
  then have "s' = s" using verify_run(2) [OF run] by simp
  then show ?thesis using inv_intro [OF inv _ inv_account [OF inv]] by simp
next
  case True
  note acc = inv_account [OF inv]
  let ?k = "ex_execution_id x"
  obtain st where st: "st \<notin> {ExQueued, ExClaimed, ExRunning}"
      "moves ?k (Core st (ex_attempt x) (ex_lease_token x) (ex_max_attempts x)) s s'"
    using verify_run(1) [OF run] by blast
  have mem: "(?k, core_of x) \<in> entry ` H" using x by (auto simp: entry_def)
  have keyed: "keyed s \<longrightarrow> keyed s'" using st(2) by (simp add: moves_def)
  from st(2) consider (same) "cores s' = cores s"
    | (hit) d where "cores s ?k = Some d" "core_token d = ex_lease_token x"
        "cores s' = (cores s)(?k \<mapsto> Core st (ex_attempt x) (ex_lease_token x) (ex_max_attempts x))"
    unfolding moves_def by auto
  then have "account (cores s') (entry ` H) (map entry C) (map entry R) L"
  proof cases
    case hit
    then show ?thesis unfolding hit(3) using st(1) True by (intro account_verify [OF acc hit(1) mem]) auto
  qed (use acc in simp)
  then show ?thesis by (rule inv_intro [OF inv keyed])
qed

lemma new_within:
  assumes "catalogue_ok env" and "is_new env p eid actor i r now z"
  shows "ex_attempt z = 0 \<and> 0 < ex_max_attempts z"
proof -
  obtain d where d: "catalogue_require env (pv_action_type p) = Inr d" "z = new_execution d p eid actor i r now"
    using assms(2) by (auto simp: is_new_def)
  then have "d \<in> set (ae_catalogue env)"
    by (auto simp: catalogue_require_def find_Some_iff split: option.splits)
  then show ?thesis using assms(1) d(2) by (auto simp: catalogue_ok_def list_all_iff new_execution_def)
qed

lemma attempts_account:
  assumes "attempts env s H C R L" and "catalogue_ok env"
  shows "attempts_inv s H C R L"
  using assms(1)
proof (induction rule: attempts.induct)
  case init
  show ?case by (simp add: attempts_inv_def keyed_def cores_def empty_auto_def account_def counted_def handles_def)
next
  case (coordinate s H C R L s')
  then show ?case by (simp add: attempts_inv_def same_execs_def keyed_def cores_def [abs_def])
next
  case (queue s H C R L p actor key v t i req now q s')
  show ?case
    by (rule inv_queue [OF queue(3) evolvesD [OF queue_grows queue(2)]]) (auto dest: new_within [OF assms(2)])
next
  case (submit s H C R L c w x n s')
  then show ?case using inv_start [of s H C R L c env w] by fastforce
next
  case (refuse s H C R L c w r s')
  then show ?case using inv_start [of s H C R L c env w r s'] by (auto split: sum.splits option.splits prod.splits)
next
  case (heartbeat s H C R L w x b s')
  then show ?case using inv_frame [OF _ evolvesD [OF heartbeat_run]] by blast
next
  case (crash s H C R L c x)
  then show ?case by (simp add: attempts_inv_def account_drop)
next
  case (evidence s H C R L x m s')
  then show ?case using evidence_run [of env x s m s'] inv_frame by (simp add: core_frame_def)
qed (simp_all add: inv_claim inv_finish inv_recover inv_verify)

section \<open>A sample of takeover and submission\<close>

text \<open>
  Worker a claims and stalls, worker b takes over, claims and submits; worker a still holds its claim.
\<close>

definition worker_a :: worker where
  "worker_a = \<lparr>wk_id = ''a'', wk_lease_seconds = 60, wk_registered = (\<lambda>_. True)\<rparr>"

definition worker_b :: worker where
  "worker_b = worker_a\<lparr>wk_id := ''b''\<rparr>"

definition claimed_by :: "worker \<Rightarrow> instant \<Rightarrow> execution \<Rightarrow> execution" where
  "claimed_by w now x = x\<lparr>ex_state := ExClaimed, ex_lease_owner := Some (wk_id w), ex_lease_token := ex_lease_token x + 1,
     ex_lease_expires_at := Some (now + secs (wk_lease_seconds w)), ex_claimed_at := Some now, ex_updated_at := now\<rparr>"

definition stalled :: execution where "stalled = claimed_by worker_a 4 sample_execution"
definition requeued :: execution where "requeued = looked_up (taken_over worker_b stalled (secs 100)) None (secs 100)"
definition reclaimed :: execution where "reclaimed = claimed_by worker_b (secs 101) requeued"
definition submitted :: execution where
  "submitted = reclaimed\<lparr>ex_state := ExRunning, ex_attempt := ex_attempt reclaimed + 1,
     ex_updated_at := ae_clock sample_actions (au_ticks queued), ex_execution_started_at := Some (ae_clock sample_actions (au_ticks queued))\<rparr>"

definition store_h :: "execution \<Rightarrow> auto_repo" where
  "store_h x = queued\<lparr>au_executions := dput ''exe_h'' x (au_executions queued)\<rparr>"

definition submitted_b :: auto_repo where
  "submitted_b = snd (start_claimed sample_actions worker_b reclaimed (store_h reclaimed))"

lemma sample_fields:
  "ex_execution_id sample_execution = ''exe_h''" "ex_state sample_execution = ExQueued" "ex_lease_token sample_execution = 0"
  "ex_attempt sample_execution = 0"
  by code_simp+

lemma run_fields [simp]:
  "ex_execution_id stalled = ''exe_h''" "ex_state stalled = ExClaimed" "ex_lease_token stalled = 1"
  "ex_execution_id requeued = ''exe_h''" "ex_state requeued = ExQueued" "ex_lease_token requeued = 2"
  "ex_execution_id reclaimed = ''exe_h''" "ex_state reclaimed = ExClaimed" "ex_lease_token reclaimed = 3"
  "ex_execution_id submitted = ''exe_h''" "ex_state submitted = ExRunning" "ex_lease_token submitted = 3"
  by (simp_all add: sample_fields stalled_def requeued_def reclaimed_def submitted_def claimed_by_def looked_up_def taken_over_def)

lemma store_h_get [simp]: "dget (au_executions (store_h x)) ''exe_h'' = Some x"
  by (simp add: store_h_def)

lemma store_h_put: "(store_h x)\<lparr>au_executions := dput ''exe_h'' y (au_executions (store_h x))\<rparr> = store_h y"
  by (simp add: store_h_def)

lemma claim_a: "claim_execution worker_a sample_execution 4 queued = (Inr stalled, store_h stalled)"
  using queued_holds(1)
  by (simp add: claim_execution_def update_execution_def py_simps sample_fields stalled_def claimed_by_def store_h_def)

lemma take_b: "recover_item sample_actions worker_b (\<lambda>_. None) (secs 100) stalled (store_h stalled) = (Inr 1, store_h requeued)"
proof -
  have "looked_up (taken_over worker_b stalled (secs 100)) None (secs 100) = requeued" by (simp add: requeued_def)
  moreover have "ex_execution_id (taken_over worker_b stalled (secs 100)) = ''exe_h''" by (simp add: taken_over_def)
  ultimately show ?thesis
    by (simp add: recover_item_def on_conflict_def update_execution_def py_simps store_h_put)
qed

lemma claim_b: "claim_execution worker_b requeued (secs 101) (store_h requeued) = (Inr reclaimed, store_h reclaimed)"
  by (simp add: claim_execution_def update_execution_def py_simps reclaimed_def claimed_by_def store_h_put)

lemma submit_b:
  "start_claimed sample_actions worker_b reclaimed (store_h reclaimed) = (Inr (Some submitted, 0), submitted_b)"
  "dget (au_executions submitted_b) ''exe_h'' = Some submitted"
proof -
  have "start_claimed sample_actions worker_b reclaimed (store_h reclaimed) =
      (Inr (Some submitted, 0), (store_h submitted)\<lparr>au_ticks := Suc (au_ticks queued)\<rparr>)"
    by (simp add: start_claimed_def worker_b_def worker_a_def on_conflict_def update_execution_def clock_now_def py_simps
        Let_def submitted_def store_h_def)
  then show "start_claimed sample_actions worker_b reclaimed (store_h reclaimed) = (Inr (Some submitted, 0), submitted_b)"
      "dget (au_executions submitted_b) ''exe_h'' = Some submitted"
    by (simp_all add: submitted_b_def)
qed

lemma submitted_reached:
  "\<exists>H. attempts sample_actions submitted_b H [stalled] [submitted] [''exe_h''] \<and> sample_execution \<in> H"
proof -
  have "same_execs empty_auto approved" unfolding same_execs_def by code_simp
  then have "attempts sample_actions approved {} [] [] []" by (rule attempts.coordinate [OF attempts.init])
  from attempts.queue [OF this] have "attempts sample_actions queued ({} \<union> stored queued) [] [] []"
    unfolding queued_def by (metis prod.collapse)
  moreover have x: "sample_execution \<in> {} \<union> stored queued" using queued_holds(1) by (auto simp: stored_def)
  ultimately have "attempts sample_actions (store_h stalled) ({} \<union> stored queued \<union> stored (store_h stalled)) [stalled] [] []"
    using claim_a by (rule attempts.claim)
  then have "attempts sample_actions (store_h requeued) ({} \<union> stored queued \<union> stored (store_h stalled) \<union> stored (store_h requeued)) [stalled] [] []"
    by (rule attempts.recover [OF _ _ take_b]) simp_all
  moreover have "requeued \<in> {} \<union> stored queued \<union> stored (store_h stalled) \<union> stored (store_h requeued)"
    unfolding stored_def using store_h_get [of requeued] by blast
  ultimately have "attempts sample_actions (store_h reclaimed)
      ({} \<union> stored queued \<union> stored (store_h stalled) \<union> stored (store_h requeued) \<union> stored (store_h reclaimed)) [reclaimed, stalled] [] []"
    using claim_b by (rule attempts.claim)
  from attempts.submit [OF this _ submit_b(1)] x show ?thesis by auto
qed

lemma sample_catalogue_ok: "catalogue_ok sample_actions"
  by code_simp

section \<open>Submissions\<close>

text \<open>
  C6. Submissions stay within the limit. In every reachable state, and with a catalogue that allows at least one
  attempt, the attempts of a stored execution are the number of times it was handed to the provider, and they
  do not exceed its limit: claims from outdated copies, late finishes, crashes and takeovers included.
\<close>

theorem submissions_within_limit:
  assumes "catalogue_ok env" and "attempts env s H C R L" and "dget (au_executions s) k = Some x"
  shows "ex_attempt x = int (count_list L k) \<and> ex_attempt x \<le> ex_max_attempts x"
proof -
  have "cores s k = Some (core_of x)" using assms(3) by (simp add: cores_def)
  from account_limits [OF inv_account [OF attempts_account [OF assms(2,1)]] this] show ?thesis
    by (simp add: limits_ok_def)
qed

theorem submissions_within_limit_witness:
  "ex_attempt submitted = 1 \<and> 1 \<le> ex_max_attempts submitted"
proof -
  obtain H where "attempts sample_actions submitted_b H [stalled] [submitted] [''exe_h'']"
    using submitted_reached by blast
  from submissions_within_limit [OF sample_catalogue_ok this submit_b(2)] show ?thesis by simp
qed



section \<open>A takeover from an outdated copy\<close>

text \<open>
  Two workers and an action that may be tried once. The first claims the execution and stalls until its lease
  is over; the second lists it as incomplete; the first resumes and submits; the second takes over what it
  listed, a claimed execution, and queues it; the next claim submits it again.
\<close>

definition once_entry :: action_definition where
  "once_entry = restart_entry\<lparr>ad_max_attempts := 1\<rparr>"

definition once_actions :: auto_env where
  "once_actions = sample_actions\<lparr>ae_catalogue := [once_entry]\<rparr>"

definition once_queued :: auto_repo where
  "once_queued = snd (queue_execution once_actions sample_preview ''operator'' ''key2'' ''r1'' ''v1'' (Some ''apr_h'') ''req3'' 3 approved)"

definition execution_h :: "auto_repo \<Rightarrow> execution" where
  "execution_h s = the (dget (au_executions s) ''exe_h'')"

text \<open>What the second worker listed, and what each worker handed to the provider.\<close>

definition takeover_race :: "execution list \<times> execution option \<times> execution option" where
  "takeover_race =
     (let s0 = once_queued;
          s1 = snd (claim_execution worker_a (execution_h s0) 4 s0);
          listed = projr (fst (incomplete_executions 25 (secs 100) s1));
          (first, s2) = start_claimed once_actions worker_a (execution_h s1) s1;
          s3 = snd (count_repairs (recover_item once_actions worker_b (\<lambda>_. None) (secs 100)) listed s2);
          (second, s4) = worker_start once_actions worker_b (execution_h s3) s3
      in (listed, fst (projr first), fst (projr second)))"

definition submission :: "execution option \<Rightarrow> (string \<times> int \<times> int) option" where
  "submission = map_option (\<lambda>x. (ex_execution_id x, ex_attempt x, ex_max_attempts x))"

text \<open>
  In this run both workers hand the same execution to the provider, each as attempt 1 of 1, although the outcome of
  the first submission is unknown.
\<close>

lemma race_runs:
  "(case takeover_race of (listed, first, second) \<Rightarrow> (map ex_state listed, submission first, submission second)) =
     ([ExClaimed], Some (''exe_h'', 1, 1), Some (''exe_h'', 1, 1))"
  by code_simp

text \<open>
  C36. A takeover can submit again. Whenever the owner of a claimed execution has handed it to the provider as some attempt,
  a takeover from the copy that was listed before, while it was claimed, succeeds, queues the execution again with the attempt
  uncounted, and any worker that then takes it from the queue hands it to the provider a second time under the same
  attempt number: the takeover checks the lease token alone, which the step from claimed to running does not change.
\<close>

theorem takeover_can_resubmit:
  assumes "ex_state c = ExClaimed" and "start_claimed env w c s = (Inr (Some y, n), s1)"
    and "wk_registered w3 (ex_action_type c)"
  shows "\<exists>q z s2 s3. recover_item env w2 look now c s1 = (Inr 1, s2) \<and>
    dget (au_executions s2) (ex_execution_id y) = Some q \<and> ex_state q = ExQueued \<and> ex_attempt q < ex_attempt y \<and>
    worker_start env w3 q s2 = (Inr (Some z, 0), s3) \<and>
    ex_execution_id z = ex_execution_id y \<and> ex_attempt z = ex_attempt y \<and> ex_state y = ExRunning \<and> ex_state z = ExRunning"
proof -
  let ?i = "ex_execution_id c"
  from start_run [OF assms(2)] have y: "ex_execution_id y = ?i" "core_of y = Core ExRunning (ex_attempt c + 1) (ex_lease_token c) (ex_max_attempts c)"
    and "cores s1 ?i = Some (core_of y)" by (auto simp: start_effect_def)
  then obtain cur where at: "dget (au_executions s1) ?i = Some cur" and token: "ex_lease_token cur = ex_lease_token c"
    by (auto simp: cores_def core_of_def)
  have running: "ex_state y = ExRunning" "ex_attempt y = ex_attempt c + 1" using y(2) by (simp_all add: core_of_def)
  define q where "q = looked_up (taken_over w2 c now) (look ((taken_over w2 c now)\<lparr>ex_state := ExReconciliationRequired\<rparr>)) now"
  have q: "ex_state q = ExQueued" "ex_execution_id q = ?i" "ex_attempt q = ex_attempt c" "ex_action_type q = ex_action_type c"
    using assms(1) by (simp_all add: q_def looked_up_def taken_over_def)
  let ?t = "taken_over w2 c now"
  have t: "ex_execution_id ?t = ?i" by (simp add: taken_over_def)
  obtain s2 where taken: "recover_item env w2 look now c s1 = (Inr 1, s2)" and stored: "dget (au_executions s2) ?i = Some q"
  proof
    let ?s2 = "s1\<lparr>au_executions := dput ?i q (dput ?i ?t (au_executions s1))\<rparr>"
    show "recover_item env w2 look now c s1 = (Inr 1, ?s2)"
      using at token t q(2)
      by (simp add: recover_item_def on_conflict_def trycatch_apply update_execution_def py_simps q_def [symmetric])
    show "dget (au_executions ?s2) ?i = Some q" by simp
  qed
  have "\<exists>z s3. worker_start env w3 q s2 = (Inr (Some z, 0), s3) \<and> ex_execution_id z = ?i \<and> ex_attempt z = ex_attempt c + 1 \<and>
      ex_state z = ExRunning"
    using stored q assms(3)
    by (simp add: worker_start_def claim_execution_def start_claimed_def clock_now_def on_conflict_def trycatch_apply
        update_execution_def py_simps Let_def)
  then obtain z s3 where "worker_start env w3 q s2 = (Inr (Some z, 0), s3)" "ex_execution_id z = ?i" "ex_attempt z = ex_attempt c + 1"
      "ex_state z = ExRunning" by blast
  with taken stored q y(1) running show ?thesis
    by (intro exI [of _ q] exI [of _ z] exI [of _ s2] exI [of _ s3]) simp
qed

text \<open>The second worker submits what it claimed; the first takes it over from the claimed copy and submits it again.\<close>

theorem takeover_can_resubmit_witness:
  "\<exists>q z s2 s3. recover_item sample_actions worker_a (\<lambda>_. None) (secs 300) reclaimed submitted_b = (Inr 1, s2) \<and>
     ex_state q = ExQueued \<and> worker_start sample_actions worker_a q s2 = (Inr (Some z, 0), s3) \<and>
     ex_execution_id z = ''exe_h'' \<and> ex_attempt z = ex_attempt submitted"
proof -
  have "ex_state reclaimed = ExClaimed" and "wk_registered worker_a (ex_action_type reclaimed)"
    by (simp_all add: worker_a_def)
  from takeover_can_resubmit [OF this(1) submit_b(1) this(2), where ?w2.0 = worker_a and look = "\<lambda>_. None" and now = "secs 300"]
  show ?thesis unfolding run_fields by blast
qed

end
