(* ===== verification/Lineage.thy ===== *)
theory Lineage
  imports Json
begin

text \<open>
  Lineage of assets: \<open>models.py\<close>, \<open>repository.py\<close> and \<open>traversal.py\<close> of \<open>services/lineage_intelligence\<close>. The digest
  is the field \<open>li_digest\<close> of the environment, \<open>li_now\<close> the text of the clock. The repository in memory is the
  record \<open>lin_repo\<close>.
\<close>

section \<open>Models\<close>

record lin_env =
  li_digest :: "string \<Rightarrow> string"
  li_now :: string

definition stable_id :: "lin_env \<Rightarrow> string \<Rightarrow> json list \<Rightarrow> string" where
  "stable_id env prefix parts = prefix @ ''_'' @ take 32 (li_digest env (dumps (JList parts)))"

record schema_column =
  sc_name :: string
  sc_data_type :: string
  sc_nullable :: "bool option"
  sc_constraints :: "string list"
  sc_ordinal :: "int option"

record schema_version =
  sv_asset_id :: string
  sv_observed_at :: string
  sv_provider :: string
  sv_columns :: "schema_column list"
  sv_partition_fields :: "string list"
  sv_evidence_refs :: "string list"
  sv_confidence :: rat
  sv_data_status :: string

definition json_strs :: "string list \<Rightarrow> json" where
  "json_strs xs = JList (map JStr xs)"

definition json_maybe :: "('a \<Rightarrow> json) \<Rightarrow> 'a option \<Rightarrow> json" where
  "json_maybe f x = (case x of None \<Rightarrow> JNull | Some y \<Rightarrow> f y)"

definition column_dict :: "schema_column \<Rightarrow> json" where
  "column_dict c = JDict [(''name'', JStr (sc_name c)), (''data_type'', JStr (sc_data_type c)),
     (''nullable'', json_maybe JBool (sc_nullable c)), (''constraints'', json_strs (sc_constraints c)),
     (''ordinal'', json_maybe JInt (sc_ordinal c))]"

definition schema_fingerprint :: "lin_env \<Rightarrow> schema_version \<Rightarrow> string" where
  "schema_fingerprint env v = li_digest env (dumps (JDict
     [(''columns'', JList (map column_dict (sv_columns v))), (''partition_fields'', json_strs (sv_partition_fields v))]))"

definition schema_version_id :: "lin_env \<Rightarrow> schema_version \<Rightarrow> string" where
  "schema_version_id env v =
     stable_id env ''schema'' [JStr (sv_asset_id v), JStr (sv_provider v), JStr (schema_fingerprint env v)]"

record lin_edge =
  le_edge_id :: string
  le_source :: string
  le_target :: string
  le_level :: string
  le_source_column :: "string option"
  le_target_column :: "string option"
  le_relationship_type :: string
  le_job_id :: "string option"
  le_run_id :: "string option"
  le_observed_at :: string
  le_first_seen :: string
  le_active :: bool
  le_stale :: bool
  le_confidence :: rat
  le_evidence_refs :: "string list"
  le_source_provider :: string
  le_schema_version :: string

text \<open>\<open>LineageEdge.create\<close>: the edge gets its identifier from its level, ends and job.\<close>

definition identified_edge :: "lin_env \<Rightarrow> lin_edge \<Rightarrow> lin_edge" where
  "identified_edge env e = e\<lparr>le_edge_id := stable_id env ''edge''
     [JStr (le_level e), JStr (le_source e), json_maybe JStr (le_source_column e), JStr (le_target e),
      json_maybe JStr (le_target_column e), json_maybe JStr (le_job_id e)]\<rparr>"

record impact_request =
  iq_root :: string
  iq_root_column :: "string option"
  iq_schema_change_id :: "string option"
  iq_direction :: string
  iq_max_depth :: int
  iq_max_nodes :: int
  iq_max_edges :: int
  iq_max_paths :: int
  iq_include_stale :: bool
  iq_as_of :: "string option"
  iq_overlays :: bool

definition validate_request :: "impact_request \<Rightarrow> py_error + unit" where
  "validate_request q =
     (if \<not> (1 \<le> iq_max_depth q \<and> iq_max_depth q \<le> 10 \<and> 1 \<le> iq_max_nodes q \<and> iq_max_nodes q \<le> 1000 \<and>
            1 \<le> iq_max_edges q \<and> iq_max_edges q \<le> 2500)
      then Inl (ValueError ''analysis bounds exceed the supported range'')
      else if \<not> (1 \<le> iq_max_paths q \<and> iq_max_paths q \<le> 50)
      then Inl (ValueError ''max_paths exceeds the supported range'')
      else Inr ())"

definition request_dict :: "impact_request \<Rightarrow> json" where
  "request_dict q = JDict [(''root_asset_id'', JStr (iq_root q)), (''root_column'', json_maybe JStr (iq_root_column q)),
     (''schema_change_id'', json_maybe JStr (iq_schema_change_id q)), (''direction'', JStr (iq_direction q)),
     (''max_depth'', JInt (iq_max_depth q)), (''max_nodes'', JInt (iq_max_nodes q)),
     (''max_edges'', JInt (iq_max_edges q)), (''max_paths'', JInt (iq_max_paths q)),
     (''include_stale_edges'', JBool (iq_include_stale q)), (''as_of'', json_maybe JStr (iq_as_of q)),
     (''include_contextual_overlays'', JBool (iq_overlays q))]"

definition analysis_id :: "lin_env \<Rightarrow> impact_request \<Rightarrow> string \<Rightarrow> string \<Rightarrow> string" where
  "analysis_id env q tenant environment = stable_id env ''impact'' [JStr tenant, JStr environment, request_dict q]"

section \<open>Repository\<close>

text \<open>The stored documents: a schema change and an evaluation, as far as the repository looks at them.\<close>

record ('c, 'd) lin_repo =
  lr_nodes :: "((string \<times> string \<times> string) \<times> (string \<times> string) list) list"
  lr_edges :: "((string \<times> string \<times> string) \<times> lin_edge) list"
  lr_schemas :: "((string \<times> string \<times> string) \<times> schema_version list) list"
  lr_changes :: "((string \<times> string \<times> string) \<times> 'c) list"
  lr_impacts :: "((string \<times> string \<times> string) \<times> 'd) list"

definition add_edge :: "string \<Rightarrow> string \<Rightarrow> lin_edge \<Rightarrow> (('c, 'd) lin_repo, unit) py" where
  "add_edge tenant environment e =
     writes (\<lambda>s. s\<lparr>lr_edges := dput (tenant, environment, le_edge_id e) e (lr_edges s)\<rparr>)"

definition get_asset_node ::
  "string \<Rightarrow> string \<Rightarrow> string \<Rightarrow> (('c, 'd) lin_repo, (string \<times> string) list option) py" where
  "get_asset_node tenant environment aid = reads (\<lambda>s. case dget (lr_nodes s) (tenant, environment, aid) of
       None \<Rightarrow> None | Some v \<Rightarrow> if v = [] then None else Some v)"

definition get_edge :: "string \<Rightarrow> string \<Rightarrow> string \<Rightarrow> (('c, 'd) lin_repo, lin_edge option) py" where
  "get_edge tenant environment eid = reads (\<lambda>s. dget (lr_edges s) (tenant, environment, eid))"

text \<open>The edges a listing considers, and those of them that touch a node in the direction.\<close>

definition scoped_edges :: "('c, 'd) lin_repo \<Rightarrow> string \<Rightarrow> string \<Rightarrow> lin_edge list" where
  "scoped_edges s tenant environment =
     map snd (filter (\<lambda>((t, v, _), _). t = tenant \<and> v = environment) (lr_edges s))"

definition visible_edge :: "bool \<Rightarrow> bool \<Rightarrow> string option \<Rightarrow> lin_edge \<Rightarrow> bool" where
  "visible_edge column include_stale as_of e \<longleftrightarrow>
     le_level e = (if column then ''column'' else ''dataset'') \<and> le_active e \<and> (le_stale e \<longrightarrow> include_stale) \<and>
     \<not> (case as_of of None \<Rightarrow> False | Some t \<Rightarrow> t \<noteq> [] \<and> t < le_observed_at e)"

definition edge_touches :: "string \<Rightarrow> string list \<Rightarrow> lin_edge \<Rightarrow> bool" where
  "edge_touches direction ids e \<longleftrightarrow>
     direction \<in> {''downstream'', ''both''} \<and> le_source e \<in> set ids \<or>
     direction \<in> {''upstream'', ''both''} \<and> le_target e \<in> set ids"

definition adjacent_edges ::
  "('c, 'd) lin_repo \<Rightarrow> string \<Rightarrow> string \<Rightarrow> string list \<Rightarrow> string \<Rightarrow> bool \<Rightarrow> bool \<Rightarrow> string option \<Rightarrow> int \<Rightarrow> lin_edge list" where
  "adjacent_edges s tenant environment ids direction column include_stale as_of limit =
     slice_to limit (sort_key (\<lambda>e. (le_source e, le_target e, le_edge_id e))
       (filter (\<lambda>e. visible_edge column include_stale as_of e \<and> edge_touches direction ids e)
         (scoped_edges s tenant environment)))"

definition list_adjacent_edges where
  "list_adjacent_edges tenant environment ids direction column include_stale as_of limit =
     reads (\<lambda>s. adjacent_edges s tenant environment ids direction column include_stale as_of limit)"

definition edges_by :: "(lin_edge \<Rightarrow> string option) \<Rightarrow> string \<Rightarrow> string \<Rightarrow> string \<Rightarrow> int \<Rightarrow> (('c, 'd) lin_repo, lin_edge list) py" where
  "edges_by field tenant environment value limit = reads (\<lambda>s. slice_to limit (sort_key le_edge_id
     (filter (\<lambda>e. field e = Some value) (scoped_edges s tenant environment))))"

definition list_edges_by_job where
  "list_edges_by_job = edges_by le_job_id"

definition list_edges_by_run where
  "list_edges_by_run = edges_by le_run_id"

section \<open>Traversal\<close>

record lin_search =
  lv_queue :: "(string \<times> nat \<times> string list) list"
  lv_visited :: "string set"
  lv_nodes :: "(string \<times> nat) list"
  lv_edges :: "(string \<times> lin_edge) list"
  lv_paths :: "string list list"
  lv_cycles :: "(string \<times> string) list"
  lv_truncated :: bool

text \<open>The inner loop, over the assets an edge leads to.\<close>

fun follow_targets :: "impact_request \<Rightarrow> string \<Rightarrow> nat \<Rightarrow> string list \<Rightarrow> string list \<Rightarrow> lin_search \<Rightarrow> lin_search" where
  "follow_targets q current depth path [] st = st"
| "follow_targets q current depth path (t # ts) st =
     (if t \<in> set path
      then follow_targets q current depth path ts (st\<lparr>lv_cycles := lv_cycles st @ [(current, t)]\<rparr>)
      else
        let st = (if int (length (lv_paths st)) < iq_max_paths q
                  then st\<lparr>lv_paths := lv_paths st @ [path @ [t]]\<rparr>
                  else if t \<notin> lv_visited st then st\<lparr>lv_truncated := True\<rparr> else st)
        in if t \<in> lv_visited st then follow_targets q current depth path ts st
           else if iq_max_nodes q \<le> int (length (lv_nodes st)) then st\<lparr>lv_truncated := True\<rparr>
           else follow_targets q current depth path ts (st\<lparr>lv_visited := insert t (lv_visited st),
                  lv_nodes := lv_nodes st @ [(t, depth + 1)],
                  lv_queue := lv_queue st @ [(t, depth + 1, path @ [t])]\<rparr>))"

definition edge_targets :: "impact_request \<Rightarrow> string \<Rightarrow> lin_edge \<Rightarrow> string list" where
  "edge_targets q current e =
     (if iq_direction q \<in> {''downstream'', ''both''} \<and> le_source e = current then [le_target e] else []) @
     (if iq_direction q \<in> {''upstream'', ''both''} \<and> le_target e = current then [le_source e] else [])"

fun follow_edges :: "impact_request \<Rightarrow> string \<Rightarrow> nat \<Rightarrow> string list \<Rightarrow> lin_edge list \<Rightarrow> lin_search \<Rightarrow> lin_search" where
  "follow_edges q current depth path [] st = st"
| "follow_edges q current depth path (e # es) st =
     (if iq_max_edges q \<le> int (length (lv_edges st)) then st\<lparr>lv_truncated := True\<rparr>
      else follow_edges q current depth path es (follow_targets q current depth path (edge_targets q current e)
             (st\<lparr>lv_edges := (if dget (lv_edges st) (le_edge_id e) = None
                              then dput (le_edge_id e) e (lv_edges st) else lv_edges st)\<rparr>)))"

text \<open>Every asset enters the queue once, when it becomes a node, and there are at most \<open>iq_max_nodes\<close> of them.\<close>

definition room :: "impact_request \<Rightarrow> lin_search \<Rightarrow> nat" where
  "room q st = nat (iq_max_nodes q) - length (lv_nodes st)"

lemma follow_targets_room:
  "2 * room q (follow_targets q c d p ts st) + length (lv_queue (follow_targets q c d p ts st))
     \<le> 2 * room q st + length (lv_queue st)"
proof (induction q c d p ts st rule: follow_targets.induct)
  case (2 q c d p t ts st)
  then show ?case
    by (auto simp: Let_def room_def intro: order_trans)
qed simp

lemma follow_edges_room:
  "2 * room q (follow_edges q c d p es st) + length (lv_queue (follow_edges q c d p es st))
     \<le> 2 * room q st + length (lv_queue st)"
proof (induction q c d p es st rule: follow_edges.induct)
  case (2 q c d p e es st)
  show ?case
  proof (cases "iq_max_edges q \<le> int (length (lv_edges st))")
    case False
    let ?st = "st\<lparr>lv_edges := if dget (lv_edges st) (le_edge_id e) = None
                              then dput (le_edge_id e) e (lv_edges st) else lv_edges st\<rparr>"
    have "2 * room q (follow_targets q c d p (edge_targets q c e) ?st) + length (lv_queue (follow_targets q c d p (edge_targets q c e) ?st))
        \<le> 2 * room q st + length (lv_queue st)"
      using follow_targets_room [of q c d p "edge_targets q c e" ?st] by (simp add: room_def)
    with 2 False show ?thesis by (simp del: follow_targets.simps)
  qed (simp add: room_def)
qed simp

function explore :: "(string \<Rightarrow> int \<Rightarrow> lin_edge list) \<Rightarrow> impact_request \<Rightarrow> lin_search \<Rightarrow> lin_search" where
  "explore adjacent q st =
     (case lv_queue st of
        [] \<Rightarrow> st
      | (current, depth, path) # rest \<Rightarrow>
          if lv_truncated st then st
          else if iq_max_depth q \<le> int depth then explore adjacent q (st\<lparr>lv_queue := rest\<rparr>)
          else explore adjacent q (follow_edges q current depth path
                 (adjacent current (min (iq_max_edges q - int (length (lv_edges st)) + 1) 500))
                 (st\<lparr>lv_queue := rest\<rparr>)))"
  by pat_completeness auto

termination
proof (relation "measure (\<lambda>(_, q, st). 2 * room q st + length (lv_queue st))", goal_cases)
  case 1
  show ?case by simp
next
  case 2
  then show ?case by (simp add: room_def)
next
  case (3 adjacent q st x xs current y depth path)
  let ?es = "adjacent current (min (iq_max_edges q - int (length (lv_edges st)) + 1) 500)"
  have "2 * room q (follow_edges q current depth path ?es (st\<lparr>lv_queue := xs\<rparr>)) +
        length (lv_queue (follow_edges q current depth path ?es (st\<lparr>lv_queue := xs\<rparr>)))
      \<le> 2 * room q st + length xs"
    using follow_edges_room [of q current depth path ?es "st\<lparr>lv_queue := xs\<rparr>"] by (simp add: room_def)
  with 3 show ?case by simp
qed

declare explore.simps [simp del]

record traversal_result =
  tr_nodes :: "(string \<times> nat) list"
  tr_edges :: "lin_edge list"
  tr_paths :: "string list list"
  tr_cycles :: "(string \<times> string) list"
  tr_truncated :: bool
  tr_warnings :: "string list"

definition first_search :: "impact_request \<Rightarrow> lin_search" where
  "first_search q = \<lparr>lv_queue = [(iq_root q, 0, [iq_root q])], lv_visited = {iq_root q}, lv_nodes = [(iq_root q, 0)],
     lv_edges = [], lv_paths = [], lv_cycles = [], lv_truncated = False\<rparr>"

definition search_result :: "lin_search \<Rightarrow> traversal_result" where
  "search_result st = \<lparr>tr_nodes = lv_nodes st, tr_edges = sort_key le_edge_id (dvals (lv_edges st)), tr_paths = lv_paths st,
     tr_cycles = sorted_set (lv_cycles st), tr_truncated = lv_truncated st,
     tr_warnings = (if lv_truncated st
       then [''bounded graph is partial; do not interpret it as a complete blast radius''] else [])\<rparr>"

definition lin_adjacent ::
  "('c, 'd) lin_repo \<Rightarrow> string \<Rightarrow> string \<Rightarrow> impact_request \<Rightarrow> string \<Rightarrow> int \<Rightarrow> lin_edge list" where
  "lin_adjacent s tenant environment q current limit = adjacent_edges s tenant environment [current] (iq_direction q)
     (iq_root_column q \<noteq> None) (iq_include_stale q) (iq_as_of q) limit"

definition lin_traverse ::
  "string \<Rightarrow> string \<Rightarrow> impact_request \<Rightarrow> (('c, 'd) lin_repo, traversal_result) py" where
  "lin_traverse tenant environment q = (case validate_request q of
       Inl e \<Rightarrow> raise e
     | Inr _ \<Rightarrow> reads (\<lambda>s. search_result (explore (lin_adjacent s tenant environment q) q (first_search q))))"

end
