(* ===== verification/LineageTraversal.thy ===== *)
theory LineageTraversal
  imports Lineage
begin

text \<open>
  What the bounded traversal of the lineage reports. \<open>lin_arc E q a b\<close>: an edge of \<open>E\<close> leads from \<open>a\<close> to \<open>b\<close> in the
  direction of the request. \<open>sound_search\<close> holds of every state of the search, whatever the listing answers within
  \<open>E\<close>; \<open>exact_search\<close> in addition while nothing was cut, for one direction and complete listings.
\<close>

section \<open>Sound answers\<close>

definition lin_arc :: "lin_edge set \<Rightarrow> impact_request \<Rightarrow> string \<Rightarrow> string \<Rightarrow> bool" where
  "lin_arc E q a b \<longleftrightarrow> (\<exists>e \<in> E. b \<in> set (edge_targets q a e))"

definition route :: "lin_edge set \<Rightarrow> impact_request \<Rightarrow> string list \<Rightarrow> bool" where
  "route E q p \<longleftrightarrow> p \<noteq> [] \<and> hd p = iq_root q \<and> distinct p \<and> successively (lin_arc E q) p"

definition sound_search :: "lin_edge set \<Rightarrow> impact_request \<Rightarrow> lin_search \<Rightarrow> bool" where
  "sound_search E q st \<longleftrightarrow>
     (\<forall>x d. (x, d) \<in> set (lv_nodes st) \<longrightarrow> (lin_arc E q ^^ d) (iq_root q) x \<and> int d \<le> iq_max_depth q) \<and>
     (\<forall>x d p. (x, d, p) \<in> set (lv_queue st) \<longrightarrow>
        (x, d) \<in> set (lv_nodes st) \<and> route E q p \<and> last p = x \<and> length p = d + 1) \<and>
     (lv_visited st = fst ` set (lv_nodes st) \<and> distinct (map fst (lv_nodes st))) \<and>
     (\<forall>p \<in> set (lv_paths st). route E q p \<and> 1 < length p \<and> int (length p) \<le> iq_max_depth q + 1) \<and>
     (\<forall>a b. (a, b) \<in> set (lv_cycles st) \<longrightarrow> lin_arc E q a b \<and> (lin_arc E q)\<^sup>*\<^sup>* b a) \<and>
     set (dvals (lv_edges st)) \<subseteq> E"

lemma sound_searchD:
  assumes "sound_search E q st"
  shows "(x, d) \<in> set (lv_nodes st) \<Longrightarrow> (lin_arc E q ^^ d) (iq_root q) x"
    and "(x, d) \<in> set (lv_nodes st) \<Longrightarrow> int d \<le> iq_max_depth q"
    and "(x, d, p) \<in> set (lv_queue st) \<Longrightarrow> (x, d) \<in> set (lv_nodes st) \<and> route E q p \<and> last p = x \<and> length p = d + 1"
    and "lv_visited st = fst ` set (lv_nodes st)" and "distinct (map fst (lv_nodes st))"
    and "p' \<in> set (lv_paths st) \<Longrightarrow> route E q p' \<and> 1 < length p' \<and> int (length p') \<le> iq_max_depth q + 1"
    and "(a, b) \<in> set (lv_cycles st) \<Longrightarrow> lin_arc E q a b \<and> (lin_arc E q)\<^sup>*\<^sup>* b a"
    and "set (dvals (lv_edges st)) \<subseteq> E"
  using assms unfolding sound_search_def by blast+

lemma successively_reach: "successively R p \<Longrightarrow> x \<in> set p \<Longrightarrow> R\<^sup>*\<^sup>* x (last p)"
proof (induction p arbitrary: x)
  case (Cons y ys)
  show ?case
  proof (cases ys)
    case (Cons z zs)
    with Cons.prems have first: "R y z" and tail: "successively R ys" by (auto simp: successively_Cons)
    have "z \<in> set ys" using Cons by simp
    with first have "R\<^sup>*\<^sup>* y (last ys)" using Cons.IH [OF tail] by (meson converse_rtranclp_into_rtranclp)
    then show ?thesis using Cons.prems(2) Cons.IH [OF tail] Cons by auto
  qed (use Cons.prems in simp)
qed simp

lemma route_extend: "route E q p \<Longrightarrow> lin_arc E q (last p) t \<Longrightarrow> t \<notin> set p \<Longrightarrow> route E q (p @ [t])"
  by (simp add: route_def successively_append_iff hd_append)

text \<open>The updates of a search.\<close>

lemma sound_pop: "sound_search E q st \<Longrightarrow> lv_queue st = x # xs \<Longrightarrow> sound_search E q (st\<lparr>lv_queue := xs\<rparr>)"
  by (simp add: sound_search_def)

lemma sound_truncate: "sound_search E q (st\<lparr>lv_truncated := b\<rparr>) = sound_search E q st"
  by (simp add: sound_search_def)

lemma sound_edge:
  assumes "sound_search E q st" and "e \<in> E"
  shows "sound_search E q (st\<lparr>lv_edges :=
     (if dget (lv_edges st) k = None then dput k e (lv_edges st) else lv_edges st)\<rparr>)"
proof -
  have "snd ` set (dput k e (lv_edges st)) \<subseteq> insert e (snd ` set (lv_edges st))"
    using image_mono [OF set_dput_subset, of snd k e "lv_edges st"] by simp
  moreover have "snd ` set (lv_edges st) \<subseteq> E" using sound_searchD(8) [OF assms(1)] by simp
  ultimately have "snd ` set (dput k e (lv_edges st)) \<subseteq> E" using assms(2) by blast
  with assms(1) show ?thesis by (simp add: sound_search_def)
qed

lemma sound_cycle:
  "sound_search E q st \<Longrightarrow> lin_arc E q c t \<Longrightarrow> (lin_arc E q)\<^sup>*\<^sup>* t c \<Longrightarrow>
   sound_search E q (st\<lparr>lv_cycles := lv_cycles st @ [(c, t)]\<rparr>)"
  by (auto simp: sound_search_def)

lemma sound_path:
  "sound_search E q st \<Longrightarrow> route E q p \<Longrightarrow> 1 < length p \<Longrightarrow> int (length p) \<le> iq_max_depth q + 1 \<Longrightarrow>
   sound_search E q (st\<lparr>lv_paths := lv_paths st @ [p]\<rparr>)"
  by (auto simp: sound_search_def)

lemma sound_node:
  assumes "sound_search E q st" and "t \<notin> lv_visited st" and "route E q p" and "last p = t" and "length p = d + 1"
    and "(lin_arc E q ^^ d) (iq_root q) t" and "int d \<le> iq_max_depth q"
  shows "sound_search E q (st\<lparr>lv_visited := insert t (lv_visited st), lv_nodes := lv_nodes st @ [(t, d)],
    lv_queue := lv_queue st @ [(t, d, p)]\<rparr>)"
  using assms unfolding sound_search_def by (auto simp: image_iff)

text \<open>A target that is not on the path is noted, and enters the search when it is new.\<close>

definition noted :: "impact_request \<Rightarrow> string list \<Rightarrow> string \<Rightarrow> lin_search \<Rightarrow> lin_search" where
  "noted q path t st =
     (if int (length (lv_paths st)) < iq_max_paths q then st\<lparr>lv_paths := lv_paths st @ [path @ [t]]\<rparr>
      else if t \<notin> lv_visited st then st\<lparr>lv_truncated := True\<rparr> else st)"

definition entered :: "nat \<Rightarrow> string list \<Rightarrow> string \<Rightarrow> lin_search \<Rightarrow> lin_search" where
  "entered d path t st = st\<lparr>lv_visited := insert t (lv_visited st), lv_nodes := lv_nodes st @ [(t, d + 1)],
     lv_queue := lv_queue st @ [(t, d + 1, path @ [t])]\<rparr>"

lemma noted_simps [simp]:
  "lv_visited (noted q path t st) = lv_visited st" "lv_nodes (noted q path t st) = lv_nodes st"
  "lv_queue (noted q path t st) = lv_queue st" "lv_edges (noted q path t st) = lv_edges st"
  "lv_cycles (noted q path t st) = lv_cycles st"
  by (simp_all add: noted_def)

lemma entered_simps [simp]:
  "lv_visited (entered d path t st) = insert t (lv_visited st)" "lv_nodes (entered d path t st) = lv_nodes st @ [(t, d + 1)]"
  "lv_queue (entered d path t st) = lv_queue st @ [(t, d + 1, path @ [t])]" "lv_edges (entered d path t st) = lv_edges st"
  "lv_paths (entered d path t st) = lv_paths st" "lv_cycles (entered d path t st) = lv_cycles st"
  "lv_truncated (entered d path t st) = lv_truncated st"
  by (simp_all add: entered_def)

lemma follow_targets_step:
  "follow_targets q c d path (t # ts) st =
     (if t \<in> set path then follow_targets q c d path ts (st\<lparr>lv_cycles := lv_cycles st @ [(c, t)]\<rparr>)
      else if t \<in> lv_visited st then follow_targets q c d path ts (noted q path t st)
      else if iq_max_nodes q \<le> int (length (lv_nodes st)) then (noted q path t st)\<lparr>lv_truncated := True\<rparr>
      else follow_targets q c d path ts (entered d path t (noted q path t st)))"
  unfolding follow_targets.simps(2) noted_def [symmetric] entered_def Let_def noted_simps ..

lemma targets_induct:
  assumes "P st" and "set ts \<subseteq> T"
    and "\<And>st t. t \<in> T \<Longrightarrow> t \<in> set path \<Longrightarrow> P st \<Longrightarrow> P (st\<lparr>lv_cycles := lv_cycles st @ [(c, t)]\<rparr>)"
    and "\<And>st t. t \<in> T \<Longrightarrow> t \<notin> set path \<Longrightarrow> t \<in> lv_visited st \<Longrightarrow> P st \<Longrightarrow> P (noted q path t st)"
    and "\<And>st t. t \<in> T \<Longrightarrow> t \<notin> set path \<Longrightarrow> t \<notin> lv_visited st \<Longrightarrow> P st \<Longrightarrow> P ((noted q path t st)\<lparr>lv_truncated := True\<rparr>)"
    and "\<And>st t. t \<in> T \<Longrightarrow> t \<notin> set path \<Longrightarrow> t \<notin> lv_visited st \<Longrightarrow> int (length (lv_nodes st)) < iq_max_nodes q \<Longrightarrow> P st \<Longrightarrow>
      P (entered d path t (noted q path t st))"
  shows "P (follow_targets q c d path ts st)"
  using assms(1,2)
proof (induction ts arbitrary: st)
  case (Cons t ts)
  then have t: "t \<in> T" and ts: "set ts \<subseteq> T" by simp_all
  consider "t \<in> set path" | "t \<notin> set path" "t \<in> lv_visited st"
    | "t \<notin> set path" "t \<notin> lv_visited st" "iq_max_nodes q \<le> int (length (lv_nodes st))"
    | "t \<notin> set path" "t \<notin> lv_visited st" "int (length (lv_nodes st)) < iq_max_nodes q" by linarith
  then show ?case
  proof cases
    case 1
    from Cons.IH [OF assms(3) [OF t 1 Cons.prems(1)] ts] 1 show ?thesis by (simp only: follow_targets_step if_True)
  next
    case 2
    from Cons.IH [OF assms(4) [OF t 2 Cons.prems(1)] ts] 2 show ?thesis by (simp only: follow_targets_step if_True if_False)
  next
    case 3
    from assms(5) [OF t 3(1,2) Cons.prems(1)] 3 show ?thesis by (simp only: follow_targets_step if_True if_False)
  next
    case 4
    from Cons.IH [OF assms(6) [OF t 4 Cons.prems(1)] ts] 4 show ?thesis
      by (simp only: follow_targets_step if_False not_le [symmetric])
  qed
qed simp

lemma sound_noted:
  assumes "sound_search E q st" and "route E q (path @ [t])" and "length path = d + 1" and "int d < iq_max_depth q"
  shows "sound_search E q (noted q path t st)"
proof -
  have "sound_search E q (st\<lparr>lv_paths := lv_paths st @ [path @ [t]]\<rparr>)"
    using sound_path [OF assms(1,2)] assms(3,4) by simp
  with assms(1) show ?thesis unfolding noted_def by (simp only: sound_truncate split: if_split) simp
qed

lemma sound_targets:
  assumes "sound_search E q st" and "route E q path" and "last path = c" and "length path = d + 1"
    and "(lin_arc E q ^^ d) (iq_root q) c" and "int d < iq_max_depth q" and "\<And>t. t \<in> set ts \<Longrightarrow> lin_arc E q c t"
  shows "sound_search E q (follow_targets q c d path ts st)"
proof (rule targets_induct [where P = "sound_search E q" and T = "{t. lin_arc E q c t}", OF assms(1)])
  show "set ts \<subseteq> {t. lin_arc E q c t}" using assms(7) by blast
next
  fix st t assume "t \<in> {t. lin_arc E q c t}" and t: "t \<in> set path" and st: "sound_search E q st"
  moreover have "(lin_arc E q)\<^sup>*\<^sup>* t c" using successively_reach [OF _ t] assms(2,3) by (metis route_def)
  ultimately show "sound_search E q (st\<lparr>lv_cycles := lv_cycles st @ [(c, t)]\<rparr>)" by (simp add: sound_cycle)
next
  fix st t assume arc: "t \<in> {t. lin_arc E q c t}" and t: "t \<notin> set path" and st: "sound_search E q st"
  have longer: "route E q (path @ [t])" using route_extend [OF assms(2) _ t] arc assms(3) by simp
  show noted: "sound_search E q (noted q path t st)" by (rule sound_noted [OF st longer assms(4,6)])
  then show "sound_search E q ((noted q path t st)\<lparr>lv_truncated := True\<rparr>)" by (simp only: sound_truncate)
  assume "t \<notin> lv_visited st"
  moreover have "(lin_arc E q ^^ (d + 1)) (iq_root q) t" using relpowp_Suc_I [OF assms(5), of t] arc by simp
  ultimately show "sound_search E q (entered d path t (noted q path t st))"
    unfolding entered_def using assms(4,6) by (intro sound_node [OF noted _ longer]) simp_all
qed

lemma sound_edges:
  assumes "sound_search E q st" and "route E q path" and "last path = c" and "length path = d + 1"
    and "(lin_arc E q ^^ d) (iq_root q) c" and "int d < iq_max_depth q" and "set es \<subseteq> E"
  shows "sound_search E q (follow_edges q c d path es st)"
  using assms
proof (induction q c d path es st rule: follow_edges.induct)
  case (2 q c d path e es st)
  note prems = "2.prems"
  let ?st = "st\<lparr>lv_edges := if dget (lv_edges st) (le_edge_id e) = None
    then dput (le_edge_id e) e (lv_edges st) else lv_edges st\<rparr>"
  have e: "e \<in> E" and es: "set es \<subseteq> E" using prems(7) by simp_all
  have arcs: "lin_arc E q c t" if "t \<in> set (edge_targets q c e)" for t using that e by (auto simp: lin_arc_def)
  show ?case
  proof (cases "iq_max_edges q \<le> int (length (lv_edges st))")
    case True
    then show ?thesis using prems(1) by (simp only: follow_edges.simps(2) if_True sound_truncate)
  next
    case False
    from "2.IH" [OF False sound_targets [OF sound_edge [OF prems(1) e] prems(2-6) arcs] prems(2-6) es]
    show ?thesis using False by (simp only: follow_edges.simps(2) if_False)
  qed
qed simp

lemma sound_explore:
  assumes "sound_search E q st" and "\<And>c n. set (adjacent c n) \<subseteq> E"
  shows "sound_search E q (explore adjacent q st)"
  using assms
proof (induction adjacent q st rule: explore.induct)
  case (1 adjacent q st)
  show ?case
  proof (cases "lv_queue st")
    case Nil
    then show ?thesis using 1(3) by (simp add: explore.simps)
  next
    case (Cons y rest)
    obtain c d path where y: "y = (c, d, path)" by (cases y)
    note queue = Cons [unfolded y]
    have popped: "sound_search E q (st\<lparr>lv_queue := rest\<rparr>)" by (rule sound_pop [OF 1(3) Cons])
    have mem: "(c, d, path) \<in> set (lv_queue st)" using queue by simp
    note here = sound_searchD(3) [OF 1(3) mem]
    consider "lv_truncated st" | "\<not> lv_truncated st" "iq_max_depth q \<le> int d" | "\<not> lv_truncated st" "int d < iq_max_depth q"
      by linarith
    then show ?thesis
    proof cases
      case 1
      then show ?thesis using queue "1.prems"(1) by (simp add: explore.simps)
    next
      case 2
      from "1.IH"(1) [OF queue refl refl 2 popped "1.prems"(2)] 2 show ?thesis
        by (subst explore.simps) (simp add: queue)
    next
      case 3
      let ?es = "adjacent c (min (iq_max_edges q - int (length (lv_edges st)) + 1) 500)"
      have "sound_search E q (follow_edges q c d path ?es (st\<lparr>lv_queue := rest\<rparr>))"
        using here sound_searchD(1) [OF "1.prems"(1)] 3(2) "1.prems"(2) by (intro sound_edges [OF popped]) auto
      from "1.IH"(2) [OF queue refl refl 3(1) _ this "1.prems"(2)] 3 show ?thesis
        by (subst explore.simps) (simp add: queue)
    qed
  qed
qed

lemma sound_first: "0 \<le> iq_max_depth q \<Longrightarrow> sound_search E q (first_search q)"
  by (simp add: sound_search_def first_search_def route_def)

section \<open>Bounds\<close>

definition sized :: "impact_request \<Rightarrow> lin_search \<Rightarrow> bool" where
  "sized q st \<longleftrightarrow> int (length (lv_nodes st)) \<le> iq_max_nodes q \<and> int (length (lv_edges st)) \<le> iq_max_edges q \<and>
     int (length (lv_paths st)) \<le> iq_max_paths q \<and>
     (lv_truncated st \<or> length (lv_nodes st) \<le> length (lv_paths st) + 1)"

lemma targets_edges [simp]: "lv_edges (follow_targets q c d path ts st) = lv_edges st"
  by (rule targets_induct [where P = "\<lambda>st'. lv_edges st' = lv_edges st" and T = UNIV]) simp_all

lemma targets_truncated: "lv_truncated st \<Longrightarrow> lv_truncated (follow_targets q c d path ts st)"
  by (rule targets_induct [where P = lv_truncated and T = UNIV]) (simp_all add: noted_def)

lemma sized_targets: "sized q st \<Longrightarrow> sized q (follow_targets q c d path ts st)"
  by (rule targets_induct [where P = "sized q" and T = UNIV]) (auto simp: sized_def noted_def)

lemma edges_truncated: "lv_truncated st \<Longrightarrow> lv_truncated (follow_edges q c d path es st)"
proof (induction q c d path es st rule: follow_edges.induct)
  case (2 q c d path e es st)
  then show ?case by (simp add: targets_truncated)
qed simp

lemma length_dput_fresh: "dget d k = None \<Longrightarrow> length (dput k v d) = length d + 1"
  by (induction d) auto

lemma sized_edges: "sized q st \<Longrightarrow> sized q (follow_edges q c d path es st)"
proof (induction q c d path es st rule: follow_edges.induct)
  case (2 q c d path e es st)
  show ?case
  proof (cases "iq_max_edges q \<le> int (length (lv_edges st))")
    case True
    with 2(2) show ?thesis by (simp add: sized_def)
  next
    case False
    with 2(2) have "sized q (st\<lparr>lv_edges := if dget (lv_edges st) (le_edge_id e) = None
        then dput (le_edge_id e) e (lv_edges st) else lv_edges st\<rparr>)"
      by (simp add: sized_def length_dput_fresh)
    from 2(1) [OF False sized_targets [OF this]] False show ?thesis by (simp only: follow_edges.simps(2) if_False)
  qed
qed simp

lemma sized_explore: "sized q st \<Longrightarrow> sized q (explore adjacent q st)"
proof (induction adjacent q st rule: explore.induct)
  case (1 adjacent q st)
  show ?case
  proof (cases "lv_queue st")
    case Nil
    then show ?thesis using 1(3) by (simp add: explore.simps)
  next
    case (Cons y rest)
    obtain c d path where y: "y = (c, d, path)" by (cases y)
    have popped: "sized q (st\<lparr>lv_queue := rest\<rparr>)" using 1(3) by (simp add: sized_def)
    show ?thesis
      using 1(1) [OF Cons y [symmetric] refl] 1(2) [OF Cons y [symmetric] refl] popped sized_edges [OF popped] 1(3)
      by (subst explore.simps) (simp add: Cons y)
  qed
qed

section \<open>Exact answers\<close>

text \<open>
  The listing of a repository that answers in full: the first \<open>n\<close> of the edges of \<open>E\<close> that lead away from an asset, of
  which there are at most 500, in one direction.
\<close>

definition complete_listing :: "lin_edge set \<Rightarrow> impact_request \<Rightarrow> (string \<Rightarrow> int \<Rightarrow> lin_edge list) \<Rightarrow> bool" where
  "complete_listing E q adjacent \<longleftrightarrow> inj_on le_edge_id E \<and> iq_direction q \<noteq> ''both'' \<and>
     (\<forall>c. \<exists>L. (\<forall>n. 0 \<le> n \<longrightarrow> adjacent c n = take (nat n) L) \<and> distinct L \<and> length L \<le> 500 \<and>
        set L = {e \<in> E. edge_targets q c e \<noteq> []})"

text \<open>What following edges adds: nodes one level deeper, in the order they enter the queue.\<close>

definition grows :: "nat \<Rightarrow> string list \<Rightarrow> lin_search \<Rightarrow> lin_search \<Rightarrow> bool" where
  "grows d path st st' \<longleftrightarrow> (\<exists>new. lv_nodes st' = lv_nodes st @ map (\<lambda>(x, p). (x, d + 1)) new \<and>
     lv_queue st' = lv_queue st @ map (\<lambda>(x, p). (x, d + 1, p)) new \<and>
     lv_visited st' = lv_visited st \<union> fst ` set new \<and> distinct (map fst new) \<and>
     fst ` set new \<inter> lv_visited st = {} \<and> (\<forall>(x, p) \<in> set new. set p \<subseteq> insert x (set path)))"

lemma growsI:
  assumes "lv_nodes st' = lv_nodes st @ map (\<lambda>(x, p). (x, d + 1)) new"
    and "lv_queue st' = lv_queue st @ map (\<lambda>(x, p). (x, d + 1, p)) new"
    and "lv_visited st' = lv_visited st \<union> fst ` set new" and "distinct (map fst new)"
    and "fst ` set new \<inter> lv_visited st = {}" and "\<forall>(x, p) \<in> set new. set p \<subseteq> insert x (set path)"
  shows "grows d path st st'"
  using assms unfolding grows_def by blast

lemma grows_same: "lv_nodes st' = lv_nodes st \<Longrightarrow> lv_queue st' = lv_queue st \<Longrightarrow> lv_visited st' = lv_visited st \<Longrightarrow> grows d path st st'"
  by (rule growsI [where new = "[]"]) simp_all

lemma grows_trans:
  assumes "grows d path st st1" and "grows d path st1 st2"
  shows "grows d path st st2"
proof -
  from assms(1) obtain a where a: "lv_nodes st1 = lv_nodes st @ map (\<lambda>(x, p). (x, d + 1)) a"
    "lv_queue st1 = lv_queue st @ map (\<lambda>(x, p). (x, d + 1, p)) a" "lv_visited st1 = lv_visited st \<union> fst ` set a"
    "distinct (map fst a)" "fst ` set a \<inter> lv_visited st = {}" "\<forall>(x, p) \<in> set a. set p \<subseteq> insert x (set path)"
    unfolding grows_def by blast
  from assms(2) obtain b where b: "lv_nodes st2 = lv_nodes st1 @ map (\<lambda>(x, p). (x, d + 1)) b"
    "lv_queue st2 = lv_queue st1 @ map (\<lambda>(x, p). (x, d + 1, p)) b" "lv_visited st2 = lv_visited st1 \<union> fst ` set b"
    "distinct (map fst b)" "fst ` set b \<inter> lv_visited st1 = {}" "\<forall>(x, p) \<in> set b. set p \<subseteq> insert x (set path)"
    unfolding grows_def by blast
  show ?thesis
  proof (rule growsI [where new = "a @ b"])
    show "distinct (map fst (a @ b))" using a(3,4) b(4,5) by (auto simp: disjoint_iff)
    show "fst ` set (a @ b) \<inter> lv_visited st = {}" using a(3,5) b(5) by auto
  qed (use a b in auto)
qed

lemma grows_then:
  "grows d path st a \<Longrightarrow> lv_nodes b = lv_nodes a \<Longrightarrow> lv_queue b = lv_queue a \<Longrightarrow> lv_visited b = lv_visited a \<Longrightarrow>
   grows d path st b"
  by (rule grows_trans, assumption, rule grows_same)

lemma grows_targets: "grows d path st (follow_targets q c d path ts st)"
proof (rule targets_induct [where P = "grows d path st" and T = UNIV])
  fix st' t assume "t \<notin> lv_visited st'" and st': "grows d path st st'"
  then have "grows d path st' (entered d path t (noted q path t st'))"
    by (intro growsI [where new = "[(t, path @ [t])]"]) auto
  with st' show "grows d path st (entered d path t (noted q path t st'))" by (rule grows_trans)
qed (auto intro: grows_then grows_same)

lemma grows_edges: "grows d path st (follow_edges q c d path es st)"
proof (induction q c d path es st rule: follow_edges.induct)
  case (2 q c d path e es st)
  show ?case
  proof (cases "iq_max_edges q \<le> int (length (lv_edges st))")
    case True
    then show ?thesis by (simp add: grows_same)
  next
    case False
    let ?st = "st\<lparr>lv_edges := if dget (lv_edges st) (le_edge_id e) = None
      then dput (le_edge_id e) e (lv_edges st) else lv_edges st\<rparr>"
    have "grows d path st ?st" by (rule grows_same) simp_all
    from grows_trans [OF grows_trans [OF this grows_targets] "2.IH" [OF False]] show ?thesis
      using False by (simp only: follow_edges.simps(2) if_False)
  qed
qed (simp add: grows_same)

lemma grows_visited: "grows d path st st' \<Longrightarrow> lv_visited st \<subseteq> lv_visited st'"
  by (auto simp: grows_def)

lemma targets_reached:
  assumes "set path \<subseteq> lv_visited st" and "\<not> lv_truncated (follow_targets q c d path ts st)" and "t \<in> set ts"
  shows "t \<in> lv_visited (follow_targets q c d path ts st)"
  using assms
proof (induction ts arbitrary: st)
  case (Cons u ts)
  have keep: "x \<in> lv_visited st' \<Longrightarrow> x \<in> lv_visited (follow_targets q c d path ts st')" for x st'
    using grows_visited [OF grows_targets] by blast
  consider "u \<in> set path" | "u \<notin> set path" "u \<in> lv_visited st"
    | "u \<notin> set path" "u \<notin> lv_visited st" "iq_max_nodes q \<le> int (length (lv_nodes st))"
    | "u \<notin> set path" "u \<notin> lv_visited st" "\<not> iq_max_nodes q \<le> int (length (lv_nodes st))" by blast
  then show ?case
  proof cases
    case 1
    with Cons.prems Cons.IH [of "st\<lparr>lv_cycles := lv_cycles st @ [(c, u)]\<rparr>"]
      keep [of u "st\<lparr>lv_cycles := lv_cycles st @ [(c, u)]\<rparr>"]
    show ?thesis unfolding follow_targets_step by auto
  next
    case 2
    with Cons.prems Cons.IH [of "noted q path u st"] keep [of u "noted q path u st"]
    show ?thesis unfolding follow_targets_step by auto
  next
    case 3
    with Cons.prems show ?thesis unfolding follow_targets_step by simp
  next
    case 4
    with Cons.prems Cons.IH [of "entered d path u (noted q path u st)"] keep [of u "entered d path u (noted q path u st)"]
    show ?thesis unfolding follow_targets_step by auto
  qed
qed simp

text \<open>One step of the loop over the edges.\<close>

definition with_edge :: "lin_edge \<Rightarrow> lin_search \<Rightarrow> lin_search" where
  "with_edge e st = st\<lparr>lv_edges := if dget (lv_edges st) (le_edge_id e) = None
     then dput (le_edge_id e) e (lv_edges st) else lv_edges st\<rparr>"

lemma with_edge_simps [simp]:
  "lv_visited (with_edge e st) = lv_visited st" "lv_nodes (with_edge e st) = lv_nodes st"
  "lv_queue (with_edge e st) = lv_queue st" "lv_truncated (with_edge e st) = lv_truncated st"
  by (simp_all add: with_edge_def)

lemma with_edge_set: "set (lv_edges (with_edge e st)) \<subseteq> insert (le_edge_id e, e) (set (lv_edges st))"
  using set_dput_subset [of "le_edge_id e" e "lv_edges st"] by (auto simp: with_edge_def)

lemma follow_edges_step:
  "follow_edges q c d path (e # es) st = (if iq_max_edges q \<le> int (length (lv_edges st)) then st\<lparr>lv_truncated := True\<rparr>
     else follow_edges q c d path es (follow_targets q c d path (edge_targets q c e) (with_edge e st)))"
  by (simp only: follow_edges.simps(2) with_edge_def)

lemma edges_step_open:
  assumes "\<not> lv_truncated (follow_edges q c d path (e # es) st)"
  shows "int (length (lv_edges st)) < iq_max_edges q"
    and "follow_edges q c d path (e # es) st =
      follow_edges q c d path es (follow_targets q c d path (edge_targets q c e) (with_edge e st))"
    and "\<not> lv_truncated (follow_targets q c d path (edge_targets q c e) (with_edge e st))"
    and "\<not> lv_truncated (follow_edges q c d path es (follow_targets q c d path (edge_targets q c e) (with_edge e st)))"
  using assms edges_truncated [of "follow_targets q c d path (edge_targets q c e) (with_edge e st)" q c d path es]
  unfolding follow_edges_step by (auto split: if_splits)

lemma edges_reached:
  assumes "set path \<subseteq> lv_visited st" and "\<not> lv_truncated (follow_edges q c d path es st)" and "e \<in> set es"
    and "t \<in> set (edge_targets q c e)"
  shows "t \<in> lv_visited (follow_edges q c d path es st)"
  using assms(1-3)
proof (induction es arbitrary: st)
  case (Cons f es)
  note step = edges_step_open [OF Cons.prems(2)]
  let ?st = "follow_targets q c d path (edge_targets q c f) (with_edge f st)"
  have "lv_visited st \<subseteq> lv_visited ?st"
    using grows_visited [OF grows_targets, of "with_edge f st" q c d path "edge_targets q c f"] by simp
  with Cons.prems(1) have on: "set path \<subseteq> lv_visited ?st" by blast
  show ?case
  proof (cases "e = f")
    case True
    have "t \<in> lv_visited ?st"
      using targets_reached [OF _ step(3)] Cons.prems(1) assms(4) True by simp
    then show ?thesis unfolding step(2) by (rule subsetD [OF grows_visited [OF grows_edges]])
  next
    case False
    with Cons.prems(3) have "e \<in> set es" by simp
    from Cons.IH [OF on step(4) this] show ?thesis by (simp only: step(2))
  qed
qed simp

lemma edges_added: "set (lv_edges (follow_edges q c d path es st)) \<subseteq> (\<lambda>e. (le_edge_id e, e)) ` set es \<union> set (lv_edges st)"
proof (induction es arbitrary: st)
  case (Cons e es)
  have "set (lv_edges (follow_targets q c d path (edge_targets q c e) (with_edge e st))) \<subseteq> insert (le_edge_id e, e) (set (lv_edges st))"
    using with_edge_set by simp
  with Cons [of "follow_targets q c d path (edge_targets q c e) (with_edge e st)"] show ?case
    unfolding follow_edges_step by auto
qed simp

lemma edges_counted:
  assumes "\<not> lv_truncated (follow_edges q c d path es st)" and "distinct (map le_edge_id es)"
    and "\<And>e. e \<in> set es \<Longrightarrow> dget (lv_edges st) (le_edge_id e) = None" and "es \<noteq> []"
  shows "int (length (lv_edges st) + length es) \<le> iq_max_edges q"
  using assms
proof (induction es arbitrary: st)
  case (Cons e es)
  note step = edges_step_open [OF Cons.prems(1)]
  let ?st = "follow_targets q c d path (edge_targets q c e) (with_edge e st)"
  have len: "length (lv_edges ?st) = length (lv_edges st) + 1"
    using Cons.prems(3) [of e] by (simp add: with_edge_def length_dput_fresh)
  have fresh: "dget (lv_edges ?st) (le_edge_id f) = None" if "f \<in> set es" for f
  proof -
    have "le_edge_id f \<noteq> le_edge_id e" using Cons.prems(2) that by (auto simp: image_iff)
    with Cons.prems(3) [of f] that show ?thesis by (simp add: with_edge_def)
  qed
  show ?case
  proof (cases "es = []")
    case True
    with step(1) show ?thesis by simp
  next
    case False
    have "distinct (map le_edge_id es)" using Cons.prems(2) by simp
    from Cons.IH [OF step(4) this fresh False] len show ?thesis by simp
  qed
qed simp

definition exact_search :: "lin_edge set \<Rightarrow> impact_request \<Rightarrow> lin_search \<Rightarrow> bool" where
  "exact_search E q st \<longleftrightarrow>
     sorted (map (fst \<circ> snd) (lv_queue st)) \<and>
     (\<forall>c d p rest. lv_queue st = (c, d, p) # rest \<longrightarrow> (\<forall>x k. (x, k) \<in> set (lv_nodes st) \<longrightarrow> k \<le> d + 1)) \<and>
     distinct (map fst (lv_queue st)) \<and>
     (\<forall>x k p. (x, k, p) \<in> set (lv_queue st) \<longrightarrow> set p \<subseteq> lv_visited st) \<and>
     (\<forall>k e. (k, e) \<in> set (lv_edges st) \<longrightarrow> k = le_edge_id e \<and>
        (\<forall>c. edge_targets q c e \<noteq> [] \<longrightarrow> c \<in> lv_visited st \<and> c \<notin> fst ` set (lv_queue st))) \<and>
     (\<forall>x k y. (x, k) \<in> set (lv_nodes st) \<longrightarrow> x \<notin> fst ` set (lv_queue st) \<longrightarrow> int k < iq_max_depth q \<longrightarrow>
        lin_arc E q x y \<longrightarrow> (\<exists>m \<le> k + 1. (y, m) \<in> set (lv_nodes st)))"

lemma exact_searchD:
  assumes "exact_search E q st"
  shows "sorted (map (fst \<circ> snd) (lv_queue st))"
    and "lv_queue st = (c, d, p) # rest \<Longrightarrow> (x, k) \<in> set (lv_nodes st) \<Longrightarrow> k \<le> d + 1"
    and "distinct (map fst (lv_queue st))"
    and "(x, k, p) \<in> set (lv_queue st) \<Longrightarrow> set p \<subseteq> lv_visited st"
    and "(i, e) \<in> set (lv_edges st) \<Longrightarrow> i = le_edge_id e"
    and "(i, e) \<in> set (lv_edges st) \<Longrightarrow> edge_targets q c e \<noteq> [] \<Longrightarrow> c \<in> lv_visited st \<and> c \<notin> fst ` set (lv_queue st)"
    and "(x, k) \<in> set (lv_nodes st) \<Longrightarrow> x \<notin> fst ` set (lv_queue st) \<Longrightarrow> int k < iq_max_depth q \<Longrightarrow> lin_arc E q x y \<Longrightarrow>
      \<exists>m \<le> k + 1. (y, m) \<in> set (lv_nodes st)"
  using assms unfolding exact_search_def by blast+

lemma exact_first: "exact_search E q (first_search q)"
  by (simp add: exact_search_def first_search_def)

lemma same_depth:
  assumes "sound_search E q st" and "(x, k) \<in> set (lv_nodes st)" and "(x, m) \<in> set (lv_nodes st)"
  shows "k = m"
  using sound_searchD(5) [OF assms(1)] assms(2,3) by (rule eq_key_imp_eq_value)

lemma exact_pop:
  assumes "sound_search E q st" and "exact_search E q st" and queue: "lv_queue st = (c, d, p) # rest"
    and "iq_max_depth q \<le> int d"
  shows "exact_search E q (st\<lparr>lv_queue := rest\<rparr>)"
proof -
  have sorted: "sorted (map (fst \<circ> snd) rest)" and least: "\<And>x k p. (x, k, p) \<in> set rest \<Longrightarrow> d \<le> k"
    using exact_searchD(1) [OF assms(2)] by (force simp: queue)+
  have next_depth: "k \<le> m + 1" if "rest = (c', m, p') # more" and "(x, k) \<in> set (lv_nodes st)" for c' m p' more x k
    using exact_searchD(2) [OF assms(2) queue that(2)] least [of c' m p'] that(1) by simp
  have cd: "(c, d) \<in> set (lv_nodes st)" using sound_searchD(3) [OF assms(1), of c d p] queue by simp
  have closed: "\<exists>m \<le> k + 1. (y, m) \<in> set (lv_nodes st)"
    if "(x, k) \<in> set (lv_nodes st)" and "x \<notin> fst ` set rest" and "int k < iq_max_depth q" and "lin_arc E q x y" for x k y
  proof -
    have "x \<noteq> c" using same_depth [OF assms(1) that(1), of d] cd that(3) assms(4) by auto
    with that show ?thesis using exact_searchD(7) [OF assms(2) that(1) _ that(3,4)] by (simp add: queue)
  qed
  have edge: "c' \<in> lv_visited st \<and> c' \<notin> fst ` set rest" if "(i, e) \<in> set (lv_edges st)" and "edge_targets q c' e \<noteq> []" for i e c'
    using exact_searchD(6) [OF assms(2) that] by (simp add: queue)
  have paths: "set p' \<subseteq> lv_visited st" if "(x, k, p') \<in> set rest" for x k p'
    using exact_searchD(4) [OF assms(2), of x k p'] that by (simp add: queue)
  show ?thesis
    unfolding exact_search_def
    using sorted next_depth exact_searchD(3,5) [OF assms(2)] paths edge closed by (simp add: queue)
qed

lemma complete_listingD:
  "complete_listing E q adjacent \<Longrightarrow> \<exists>L. (\<forall>n. 0 \<le> n \<longrightarrow> adjacent c n = take (nat n) L) \<and> distinct L \<and> length L \<le> 500 \<and>
     set L = {e \<in> E. edge_targets q c e \<noteq> []}"
  unfolding complete_listing_def by blast

lemma one_origin:
  assumes "iq_direction q \<noteq> ''both''" and "edge_targets q c e \<noteq> []" and "edge_targets q c' e \<noteq> []"
  shows "c' = c"
  using assms by (auto simp: edge_targets_def split: if_splits)

text \<open>
  When nothing was cut, every edge that leads away from the asset was followed: a shorter listing would have
  been one of new edges only, as many as the bound admits and one more.
\<close>

lemma all_followed:
  assumes "sound_search E q st" and "exact_search E q st" and "sized q st" and listing: "complete_listing E q adjacent"
    and queue: "lv_queue st = (c, d, path) # rest"
    and open_: "\<not> lv_truncated (follow_edges q c d path
      (adjacent c (min (iq_max_edges q - int (length (lv_edges st)) + 1) 500)) (st\<lparr>lv_queue := rest\<rparr>))"
    and e: "e \<in> E" "edge_targets q c e \<noteq> []"
  shows "e \<in> set (adjacent c (min (iq_max_edges q - int (length (lv_edges st)) + 1) 500))"
proof -
  let ?n = "min (iq_max_edges q - int (length (lv_edges st)) + 1) 500"
  obtain L where L: "\<forall>n. 0 \<le> n \<longrightarrow> adjacent c n = take (nat n) L" and dist: "distinct L" and short: "length L \<le> 500"
    and set_L: "set L = {e \<in> E. edge_targets q c e \<noteq> []}" using complete_listingD [OF listing, of c] by blast
  have len: "int (length (lv_edges st)) \<le> iq_max_edges q" using assms(3) by (simp add: sized_def)
  then have es: "adjacent c ?n = take (nat ?n) L" by (intro L [rule_format]) simp
  have inj: "inj_on le_edge_id E" using listing by (simp add: complete_listing_def)
  show ?thesis
  proof (cases "length L \<le> nat ?n")
    case True
    with e set_L show ?thesis by (simp add: es)
  next
    case False
    have n: "int (nat ?n) = iq_max_edges q - int (length (lv_edges st)) + 1" using False short len by (simp add: min_def split: if_splits)
    have fresh: "dget (lv_edges st) (le_edge_id f) = None" if "f \<in> set L" for f
    proof (cases "dget (lv_edges st) (le_edge_id f)")
      case (Some g)
      then have mem: "(le_edge_id f, g) \<in> set (lv_edges st)" by (rule map_of_SomeD)
      from exact_searchD(5) [OF assms(2) this] have "le_edge_id f = le_edge_id g" .
      moreover have "g \<in> E" using sound_searchD(8) [OF assms(1)] mem by force
      moreover have f: "f \<in> E" "edge_targets q c f \<noteq> []" using that set_L by auto
      ultimately have "g = f" using inj by (metis inj_onD)
      with exact_searchD(6) [OF assms(2) mem, of c] f queue show ?thesis by simp
    qed simp
    have ids: "distinct (map le_edge_id (take (nat ?n) L))"
    proof -
      have "set (take (nat ?n) L) \<subseteq> E" using set_take_subset [of "nat ?n" L] set_L by blast
      from inj_on_subset [OF inj this] dist show ?thesis by (simp only: distinct_map distinct_take simp_thms)
    qed
    have "take (nat ?n) L \<noteq> []" using n len False by (auto simp: take_eq_Nil)
    moreover have "dget (lv_edges (st\<lparr>lv_queue := rest\<rparr>)) (le_edge_id f) = None" if "f \<in> set (take (nat ?n) L)" for f
      using fresh [OF in_set_takeD [OF that]] by simp
    ultimately have "int (length (lv_edges (st\<lparr>lv_queue := rest\<rparr>)) + length (take (nat ?n) L)) \<le> iq_max_edges q"
      by (intro edges_counted [OF open_ [unfolded es] ids])
    with n False show ?thesis by simp
  qed
qed

lemma exact_step:
  assumes sound: "sound_search E q st" and exact: "exact_search E q st" and "sized q st"
    and listing: "complete_listing E q adjacent" and queue: "lv_queue st = (c, d, path) # rest"
    and deep: "int d < iq_max_depth q"
    and st': "st' = follow_edges q c d path (adjacent c (min (iq_max_edges q - int (length (lv_edges st)) + 1) 500))
      (st\<lparr>lv_queue := rest\<rparr>)"
    and open_: "\<not> lv_truncated st'"
  shows "exact_search E q st'"
proof -
  let ?es = "adjacent c (min (iq_max_edges q - int (length (lv_edges st)) + 1) 500)"
  have "grows d path (st\<lparr>lv_queue := rest\<rparr>) st'" unfolding st' by (rule grows_edges)
  then obtain new where nodes: "lv_nodes st' = lv_nodes st @ map (\<lambda>(x, p). (x, d + 1)) new"
    and queue': "lv_queue st' = rest @ map (\<lambda>(x, p). (x, d + 1, p)) new"
    and visited: "lv_visited st' = lv_visited st \<union> fst ` set new" and dist: "distinct (map fst new)"
    and fresh: "fst ` set new \<inter> lv_visited st = {}" and paths: "\<forall>(x, p) \<in> set new. set p \<subseteq> insert x (set path)"
    unfolding grows_def by auto
  have cd: "(c, d) \<in> set (lv_nodes st)" and in_visited: "\<And>x k. (x, k) \<in> set (lv_nodes st) \<Longrightarrow> x \<in> lv_visited st"
    using sound_searchD(3) [OF sound, of c d path] sound_searchD(4) [OF sound] queue by force+
  have rest_nodes: "(x, k) \<in> set (lv_nodes st)" if "(x, k, p) \<in> set rest" for x k p
    using sound_searchD(3) [OF sound, of x k p] that queue by simp
  have names: "fst ` set (lv_queue st') = fst ` set rest \<union> fst ` set new" by (force simp: queue')
  have rest_names: "fst ` set rest \<subseteq> lv_visited st" using rest_nodes in_visited by fastforce
  have c: "c \<in> lv_visited st" "c \<notin> fst ` set rest" using exact_searchD(3) [OF exact] in_visited [OF cd] by (simp_all add: queue)
  have low: "k \<le> d + 1" if "(x, k) \<in> set (lv_nodes st')" for x k
    using that exact_searchD(2) [OF exact queue] by (auto simp: nodes)
  have least: "d \<le> k" if "(x, k, p) \<in> set rest" for x k p
    using exact_searchD(1) [OF exact] that by (force simp: queue)
  have sorted: "sorted (map (fst \<circ> snd) (lv_queue st'))"
  proof -
    have "sorted (map (fst \<circ> snd) rest)" using exact_searchD(1) [OF exact] by (simp add: queue)
    moreover have "k \<le> d + 1" if "(x, k, p) \<in> set rest" for x k p
      using exact_searchD(2) [OF exact queue rest_nodes [OF that]] .
    moreover have "map ((fst \<circ> snd) \<circ> (\<lambda>(x, p). (x, d + 1, p))) new = replicate (length new) (d + 1)"
      by (induction new) auto
    ultimately show ?thesis by (fastforce simp: queue' sorted_append)
  qed
  have heads: "k \<le> m + 1" if "lv_queue st' = (c', m, p) # more" and "(x, k) \<in> set (lv_nodes st')" for c' m p more x k
  proof -
    have "(c', m, p) \<in> set (lv_queue st')" using that(1) by simp
    then have "d \<le> m" using least by (auto simp: queue')
    with low [OF that(2)] show ?thesis by simp
  qed
  have distinct: "distinct (map fst (lv_queue st'))"
  proof -
    have "map fst (lv_queue st') = map fst rest @ map fst new" by (simp add: queue' comp_def case_prod_beta)
    moreover have "distinct (map fst rest)" using exact_searchD(3) [OF exact] by (simp add: queue)
    moreover have "set (map fst rest) \<inter> set (map fst new) = {}" using fresh rest_names by auto
    ultimately show ?thesis using dist by (simp only: distinct_append)
  qed
  have path: "set path \<subseteq> lv_visited st" using exact_searchD(4) [OF exact, of c d path] queue by simp
  have in_paths: "set p \<subseteq> lv_visited st'" if "(x, k, p) \<in> set (lv_queue st')" for x k p
  proof -
    from that consider "(x, k, p) \<in> set rest" | "(x, p) \<in> set new" by (auto simp: queue')
    then show ?thesis
    proof cases
      case 1
      then show ?thesis using exact_searchD(4) [OF exact, of x k p] by (auto simp: queue visited)
    next
      case 2
      then have "set p \<subseteq> insert x (set path)" and "x \<in> lv_visited st'" using paths by (auto simp: visited intro: rev_image_eqI)
      with path show ?thesis by (auto simp: visited)
    qed
  qed
  have L: "set ?es \<subseteq> {e \<in> E. edge_targets q c e \<noteq> []}"
  proof -
    obtain L where "\<forall>n. 0 \<le> n \<longrightarrow> adjacent c n = take (nat n) L" and "set L = {e \<in> E. edge_targets q c e \<noteq> []}"
      using complete_listingD [OF listing, of c] by blast
    moreover have "0 \<le> min (iq_max_edges q - int (length (lv_edges st)) + 1) 500" using assms(3) by (simp add: sized_def)
    ultimately show ?thesis using set_take_subset by metis
  qed
  have edge: "i = le_edge_id e \<and> (\<forall>c'. edge_targets q c' e \<noteq> [] \<longrightarrow> c' \<in> lv_visited st' \<and> c' \<notin> fst ` set (lv_queue st'))"
    if "(i, e) \<in> set (lv_edges st')" for i e
  proof -
    from that edges_added [of q c d path ?es "st\<lparr>lv_queue := rest\<rparr>"]
    consider "e \<in> set ?es" "i = le_edge_id e" | "(i, e) \<in> set (lv_edges st)" unfolding st' by auto
    then show ?thesis
    proof cases
      case 1
      then have "edge_targets q c e \<noteq> []" using L by blast
      then have "c' = c" if "edge_targets q c' e \<noteq> []" for c'
        using one_origin that listing by (auto simp: complete_listing_def)
      with 1 c fresh show ?thesis unfolding names visited by blast
    next
      case 2
      have "c' \<in> lv_visited st \<and> c' \<notin> fst ` set rest" if "edge_targets q c' e \<noteq> []" for c'
        using exact_searchD(6) [OF exact 2 that] by (simp add: queue)
      with exact_searchD(5) [OF exact 2] fresh show ?thesis unfolding names visited by blast
    qed
  qed
  have closed: "\<exists>m \<le> k + 1. (y, m) \<in> set (lv_nodes st')"
    if x: "(x, k) \<in> set (lv_nodes st')" "x \<notin> fst ` set (lv_queue st')" and k: "int k < iq_max_depth q" and arc: "lin_arc E q x y" for x k y
  proof -
    have old: "(x, k) \<in> set (lv_nodes st)" using x by (force simp: nodes names)
    show ?thesis
    proof (cases "x = c")
      case True
      with old same_depth [OF sound _ cd] have "k = d" by blast
      from arc True obtain e where e: "e \<in> E" "y \<in> set (edge_targets q c e)" by (auto simp: lin_arc_def)
      then have "edge_targets q c e \<noteq> []" by auto
      with e(1) have "e \<in> set ?es" using open_ unfolding st' by (intro all_followed [OF sound exact assms(3) listing queue])
      then have "y \<in> lv_visited st'"
        using edges_reached [of path "st\<lparr>lv_queue := rest\<rparr>" q c d ?es e y] path e(2) open_ unfolding st' by simp
      then have "y \<in> fst ` set (lv_nodes st')"
        using sound_searchD(4) [OF sound] by (force simp: visited nodes)
      then obtain m where "(y, m) \<in> set (lv_nodes st')" by auto
      with low [OF this] \<open>k = d\<close> show ?thesis by auto
    next
      case False
      then have "x \<notin> fst ` set (lv_queue st)" using x(2) by (simp add: queue names)
      from exact_searchD(7) [OF exact old this k arc] show ?thesis by (auto simp: nodes)
    qed
  qed
  show ?thesis
    unfolding exact_search_def using sorted heads distinct in_paths edge closed by blast
qed

lemma exact_explore:
  assumes "sound_search E q st" and "exact_search E q st" and "sized q st" and "complete_listing E q adjacent"
    and "\<not> lv_truncated (explore adjacent q st)"
  shows "exact_search E q (explore adjacent q st) \<and> lv_queue (explore adjacent q st) = []"
  using assms
proof (induction adjacent q st rule: explore.induct)
  case (1 adjacent q st)
  note sound = "1.prems"(1) and exact = "1.prems"(2) and sized = "1.prems"(3) and listing = "1.prems"(4) and open_ = "1.prems"(5)
  show ?case
  proof (cases "lv_queue st")
    case Nil
    then show ?thesis using exact by (simp add: explore.simps)
  next
    case (Cons y rest)
    obtain c d path where y: "y = (c, d, path)" by (cases y)
    note queue = Cons [unfolded y]
    have popped: "sound_search E q (st\<lparr>lv_queue := rest\<rparr>)" by (rule sound_pop [OF sound Cons])
    have small: "sized q (st\<lparr>lv_queue := rest\<rparr>)" using sized by (simp add: sized_def)
    have here: "route E q path \<and> last path = c \<and> length path = d + 1 \<and> (lin_arc E q ^^ d) (iq_root q) c"
      using sound_searchD(1,3) [OF sound] queue by (metis list.set_intros(1))
    consider "lv_truncated st" | "\<not> lv_truncated st" "iq_max_depth q \<le> int d" | "\<not> lv_truncated st" "int d < iq_max_depth q"
      by linarith
    then show ?thesis
    proof cases
      case 1
      then show ?thesis using open_ by (simp add: explore.simps queue)
    next
      case 2
      then have run: "explore adjacent q st = explore adjacent q (st\<lparr>lv_queue := rest\<rparr>)"
        by (subst explore.simps) (simp add: queue)
      from "1.IH"(1) [OF queue refl refl 2 popped exact_pop [OF sound exact queue 2(2)] small listing] open_
      show ?thesis by (simp only: run simp_thms)
    next
      case 3
      let ?es = "adjacent c (min (iq_max_edges q - int (length (lv_edges st)) + 1) 500)"
      let ?st = "follow_edges q c d path ?es (st\<lparr>lv_queue := rest\<rparr>)"
      have run: "explore adjacent q st = explore adjacent q ?st" using 3 by (subst explore.simps) (simp add: queue)
      have "\<not> lv_truncated ?st"
      proof
        assume "lv_truncated ?st"
        then have "explore adjacent q ?st = ?st" by (subst explore.simps) (simp split: list.split)
        with \<open>lv_truncated ?st\<close> open_ show False by (simp add: run)
      qed
      note next_exact = exact_step [OF sound exact sized listing queue 3(2) refl this]
      have "set ?es \<subseteq> E"
      proof -
        obtain L where "\<forall>n. 0 \<le> n \<longrightarrow> adjacent c n = take (nat n) L" and "set L = {e \<in> E. edge_targets q c e \<noteq> []}"
          using complete_listingD [OF listing, of c] by blast
        moreover have "0 \<le> min (iq_max_edges q - int (length (lv_edges st)) + 1) 500" using sized by (simp add: sized_def)
        ultimately show ?thesis using set_take_subset by fastforce
      qed
      then have "sound_search E q ?st" using here 3(2) by (intro sound_edges [OF popped]) auto
      from "1.IH"(2) [OF queue refl refl 3(1) _ this next_exact sized_edges [OF small] listing] 3(2) open_
      show ?thesis by (simp only: run not_le simp_thms)
    qed
  qed
qed

text \<open>An exact search with an empty queue holds every asset within the depth, at its distance.\<close>

lemma exact_nodes:
  assumes "sound_search E q st" and "exact_search E q st" and "lv_queue st = []" and "(iq_root q, 0) \<in> set (lv_nodes st)"
  shows "set (lv_nodes st) = {(x, d). (lin_arc E q ^^ d) (iq_root q) x \<and> int d \<le> iq_max_depth q \<and>
    (\<forall>m < d. \<not> (lin_arc E q ^^ m) (iq_root q) x)}"
proof -
  have near: "\<exists>m \<le> n. (x, m) \<in> set (lv_nodes st)" if "(lin_arc E q ^^ n) (iq_root q) x" and "int n \<le> iq_max_depth q" for n x
    using that
  proof (induction n arbitrary: x)
    case 0
    with assms(4) show ?case by auto
  next
    case (Suc n)
    from Suc.prems(1) obtain w where w: "(lin_arc E q ^^ n) (iq_root q) w" "lin_arc E q w x" by (rule relpowp_Suc_E)
    with Suc.IH [of w] Suc.prems(2) obtain m where m: "m \<le> n" "(w, m) \<in> set (lv_nodes st)" by auto
    have "int m < iq_max_depth q" using m(1) Suc.prems(2) by simp
    from exact_searchD(7) [OF assms(2) m(2) _ this w(2)] assms(3) obtain k where "k \<le> m + 1" "(x, k) \<in> set (lv_nodes st)" by auto
    with m(1) show ?case by (intro exI [of _ k]) auto
  qed
  have "(lin_arc E q ^^ d) (iq_root q) x \<and> int d \<le> iq_max_depth q \<and> (\<forall>m < d. \<not> (lin_arc E q ^^ m) (iq_root q) x)"
    if node: "(x, d) \<in> set (lv_nodes st)" for x d
  proof -
    have "\<not> (lin_arc E q ^^ m) (iq_root q) x" if "m < d" for m
    proof
      assume "(lin_arc E q ^^ m) (iq_root q) x"
      moreover have "int m \<le> iq_max_depth q" using that sound_searchD(2) [OF assms(1) node] by simp
      ultimately obtain k where "k \<le> m" "(x, k) \<in> set (lv_nodes st)" using near [of m x] by blast
      with same_depth [OF assms(1) node] that show False by fastforce
    qed
    with sound_searchD(1,2) [OF assms(1) node] show ?thesis by blast
  qed
  moreover have "(x, d) \<in> set (lv_nodes st)" if "(lin_arc E q ^^ d) (iq_root q) x" and "int d \<le> iq_max_depth q"
    and "\<forall>m < d. \<not> (lin_arc E q ^^ m) (iq_root q) x" for x d
  proof -
    from near [OF that(1,2)] obtain k where "k \<le> d" "(x, k) \<in> set (lv_nodes st)" by blast
    moreover have "\<not> k < d" using sound_searchD(1) [OF assms(1) \<open>(x, k) \<in> set (lv_nodes st)\<close>] that(3) by blast
    ultimately have "k = d" by simp
    with \<open>(x, k) \<in> set (lv_nodes st)\<close> show ?thesis by simp
  qed
  ultimately have "(x, d) \<in> set (lv_nodes st) \<longleftrightarrow> (lin_arc E q ^^ d) (iq_root q) x \<and> int d \<le> iq_max_depth q \<and>
      (\<forall>m < d. \<not> (lin_arc E q ^^ m) (iq_root q) x)" for x d by blast
  then show ?thesis by (simp add: set_eq_iff)
qed

section \<open>The repository\<close>

text \<open>An edge is stored under its identifier in the scope of its tenant and environment.\<close>

definition edges_filed :: "('c, 'd) lin_repo \<Rightarrow> bool" where
  "edges_filed s \<longleftrightarrow> distinct (map fst (lr_edges s)) \<and> (\<forall>t v i e. ((t, v, i), e) \<in> set (lr_edges s) \<longrightarrow> i = le_edge_id e)"

lemma add_edge_filed: "edges_filed s \<Longrightarrow> edges_filed (snd (add_edge t v e s))"
  using set_dput_subset [of "(t, v, le_edge_id e)" e "lr_edges s"]
  by (auto simp: edges_filed_def add_edge_def distinct_dput)

text \<open>The edges a request may follow.\<close>

definition lin_edges :: "('c, 'd) lin_repo \<Rightarrow> string \<Rightarrow> string \<Rightarrow> impact_request \<Rightarrow> lin_edge set" where
  "lin_edges s tenant environment q = {e \<in> set (scoped_edges s tenant environment).
     visible_edge (iq_root_column q \<noteq> None) (iq_include_stale q) (iq_as_of q) e}"

lemma scoped_filed:
  assumes "edges_filed s"
  shows "distinct (scoped_edges s t v)" and "inj_on le_edge_id (set (scoped_edges s t v))"
proof -
  let ?l = "filter (\<lambda>((t', v', _), _). t' = t \<and> v' = v) (lr_edges s)"
  have keys: "distinct (map fst ?l)" using assms by (simp add: edges_filed_def distinct_map_filter)
  have key: "fst x = (t, v, le_edge_id (snd x))" if "x \<in> set ?l" for x
  proof -
    obtain t' v' i e where x: "x = ((t', v', i), e)" by (metis surj_pair)
    with that have "t' = t" "v' = v" "((t', v', i), e) \<in> set (lr_edges s)" by auto
    moreover from this(3) have "i = le_edge_id e" using assms unfolding edges_filed_def by blast
    ultimately show ?thesis by (simp add: x)
  qed
  have "inj_on (le_edge_id \<circ> snd) (set ?l)"
  proof (rule inj_onI)
    fix x y assume "x \<in> set ?l" "y \<in> set ?l" "(le_edge_id \<circ> snd) x = (le_edge_id \<circ> snd) y"
    then have "fst x = fst y" using key by simp
    with keys \<open>x \<in> set ?l\<close> \<open>y \<in> set ?l\<close> show "x = y" by (meson distinct_map inj_onD)
  qed
  then have inj: "inj_on snd (set ?l)" and "inj_on le_edge_id (snd ` set ?l)"
    by (auto intro: inj_on_imageI2 inj_on_imageI dest: inj_onD)
  then show "inj_on le_edge_id (set (scoped_edges s t v))" by (simp add: scoped_edges_def)
  show "distinct (scoped_edges s t v)" using keys inj by (simp add: scoped_edges_def distinct_map)
qed

lemma touches_targets: "edge_touches (iq_direction q) [c] e \<longleftrightarrow> edge_targets q c e \<noteq> []"
  by (auto simp: edge_touches_def edge_targets_def)

lemma lin_adjacent_sound: "set (lin_adjacent s t v q c n) \<subseteq> lin_edges s t v q"
  using set_slice_to_subset by (fastforce simp: lin_adjacent_def adjacent_edges_def lin_edges_def)

lemma lin_adjacent_complete:
  assumes "edges_filed s" and "iq_direction q \<noteq> ''both''"
    and "\<And>c. card {e \<in> lin_edges s t v q. edge_targets q c e \<noteq> []} \<le> 500"
  shows "complete_listing (lin_edges s t v q) q (lin_adjacent s t v q)"
proof -
  have "inj_on le_edge_id (lin_edges s t v q)"
    by (rule inj_on_subset [OF scoped_filed(2) [OF assms(1)]]) (auto simp: lin_edges_def)
  moreover have "\<exists>L. (\<forall>n. 0 \<le> n \<longrightarrow> lin_adjacent s t v q c n = take (nat n) L) \<and> distinct L \<and> length L \<le> 500 \<and>
      set L = {e \<in> lin_edges s t v q. edge_targets q c e \<noteq> []}" for c
  proof -
    let ?L = "sort_key (\<lambda>e. (le_source e, le_target e, le_edge_id e))
      (filter (\<lambda>e. visible_edge (iq_root_column q \<noteq> None) (iq_include_stale q) (iq_as_of q) e \<and> edge_touches (iq_direction q) [c] e)
        (scoped_edges s t v))"
    have set_L: "set ?L = {e \<in> lin_edges s t v q. edge_targets q c e \<noteq> []}"
      by (auto simp: lin_edges_def touches_targets)
    have dist: "distinct ?L" using scoped_filed(1) [OF assms(1)] by simp
    have "length ?L \<le> 500" using distinct_card [OF dist] assms(3) [of c] set_L by simp
    moreover have "\<forall>n. 0 \<le> n \<longrightarrow> lin_adjacent s t v q c n = take (nat n) ?L"
      by (simp add: lin_adjacent_def adjacent_edges_def slice_to_def)
    ultimately show ?thesis using set_L dist by blast
  qed
  ultimately show ?thesis using assms(2) by (simp add: complete_listing_def)
qed

section \<open>The traversal\<close>

lemma first_sized: "validate_request q = Inr u \<Longrightarrow> sized q (first_search q)"
  by (auto simp: validate_request_def sized_def first_search_def split: if_splits)

lemma nodes_stay: "(x, k) \<in> set (lv_nodes st) \<Longrightarrow> (x, k) \<in> set (lv_nodes (explore adjacent q st))"
proof (induction adjacent q st rule: explore.induct)
  case (1 adjacent q st)
  show ?case
  proof (cases "lv_queue st")
    case Nil
    then show ?thesis using "1.prems" by (simp add: explore.simps)
  next
    case (Cons y rest)
    obtain c d path where y: "y = (c, d, path)" by (cases y)
    have "(x, k) \<in> set (lv_nodes (follow_edges q c d path es (st\<lparr>lv_queue := rest\<rparr>)))" for es
      using grows_edges [of d path "st\<lparr>lv_queue := rest\<rparr>" q c es] "1.prems" by (auto simp: grows_def)
    then show ?thesis
      using "1.IH"(1) [OF Cons y [symmetric] refl] "1.IH"(2) [OF Cons y [symmetric] refl] "1.prems"
      by (subst explore.simps) (simp add: Cons y)
  qed
qed

lemma traverse_run:
  assumes "lin_traverse t v q s = (Inr r, s')"
  obtains u where "validate_request q = Inr u" and "s' = s"
    and "r = search_result (explore (lin_adjacent s t v q) q (first_search q))"
  using assms by (auto simp: lin_traverse_def split: sum.splits)

lemma explored:
  fixes s :: "('c, 'd) lin_repo" and t v :: string and q :: impact_request
  assumes "validate_request q = Inr u"
  defines "st \<equiv> explore (lin_adjacent s t v q) q (first_search q)"
  shows "sound_search (lin_edges s t v q) q st" and "sized q st" and "(iq_root q, 0) \<in> set (lv_nodes st)"
proof -
  have "0 \<le> iq_max_depth q" using assms(1) by (auto simp: validate_request_def split: if_splits)
  then show "sound_search (lin_edges s t v q) q st"
    unfolding st_def by (intro sound_explore sound_first lin_adjacent_sound)
  show "sized q st" unfolding st_def by (intro sized_explore first_sized [OF assms(1)])
  show "(iq_root q, 0) \<in> set (lv_nodes st)" unfolding st_def by (rule nodes_stay) (simp add: first_search_def)
qed

section \<open>Properties\<close>

text \<open>
  C26. Whatever is stored, a traversal that answers reports at most \<open>max_nodes\<close> assets, \<open>max_edges\<close> edges and
  \<open>max_paths\<close> paths; the assets are distinct and each is reached from the root in as many arcs as its depth says,
  at most \<open>max_depth\<close>; the paths are simple paths from the root; the edges are edges of the request's scope.
\<close>

theorem lineage_answers_are_sound:
  assumes "lin_traverse t v q s = (Inr r, s')"
  shows "let E = lin_edges s t v q in s' = s \<and> int (length (tr_nodes r)) \<le> iq_max_nodes q \<and> int (length (tr_edges r)) \<le> iq_max_edges q \<and>
    int (length (tr_paths r)) \<le> iq_max_paths q \<and> distinct (map fst (tr_nodes r)) \<and>
    (\<forall>(x, d) \<in> set (tr_nodes r). (lin_arc E q ^^ d) (iq_root q) x \<and> int d \<le> iq_max_depth q) \<and>
    (\<forall>p \<in> set (tr_paths r). route E q p \<and> int (length p) \<le> iq_max_depth q + 1) \<and>
    (\<forall>(a, b) \<in> set (tr_cycles r). lin_arc E q a b \<and> (lin_arc E q)\<^sup>*\<^sup>* b a) \<and> set (tr_edges r) \<subseteq> E"
proof -
  obtain u where valid: "validate_request q = Inr u" and "s' = s"
    and r: "r = search_result (explore (lin_adjacent s t v q) q (first_search q))" by (rule traverse_run [OF assms(1)])
  note sound = explored(1) [OF valid, of s t v] and size = explored(2) [OF valid, of s t v]
  show ?thesis
    using \<open>s' = s\<close> size sound_searchD(5,8) [OF sound] sound_searchD(1,2,6,7) [OF sound]
    by (auto simp: r search_result_def sized_def Let_def)
qed

text \<open>
  C20. In one direction an answer that is not marked truncated is exact: its assets are those within \<open>max_depth\<close> arcs
  of the root, each with its distance, as long as no asset has more than 500 edges to follow, the size of a page.
\<close>

theorem untruncated_lineage_is_exact:
  assumes "edges_filed s" and "iq_direction q \<noteq> ''both''"
    and "\<And>c. card {e \<in> lin_edges s t v q. edge_targets q c e \<noteq> []} \<le> 500"
    and "lin_traverse t v q s = (Inr r, s')" and "\<not> tr_truncated r"
  shows "set (tr_nodes r) = {(x, d). (lin_arc (lin_edges s t v q) q ^^ d) (iq_root q) x \<and> int d \<le> iq_max_depth q \<and>
    (\<forall>m < d. \<not> (lin_arc (lin_edges s t v q) q ^^ m) (iq_root q) x)}"
proof -
  obtain u where valid: "validate_request q = Inr u" and "s' = s"
    and r: "r = search_result (explore (lin_adjacent s t v q) q (first_search q))" by (rule traverse_run [OF assms(4)])
  let ?st = "explore (lin_adjacent s t v q) q (first_search q)"
  have "0 \<le> iq_max_depth q" using valid by (auto simp: validate_request_def split: if_splits)
  then have "exact_search (lin_edges s t v q) q ?st \<and> lv_queue ?st = []"
    using assms(5) by (intro exact_explore sound_first exact_first first_sized [OF valid] lin_adjacent_complete assms(1-3))
      (simp_all add: r search_result_def)
  then have "set (lv_nodes ?st) = {(x, d). (lin_arc (lin_edges s t v q) q ^^ d) (iq_root q) x \<and> int d \<le> iq_max_depth q \<and>
      (\<forall>m < d. \<not> (lin_arc (lin_edges s t v q) q ^^ m) (iq_root q) x)}"
    using explored [OF valid, of s t v] by (intro exact_nodes) auto
  then show ?thesis by (simp add: r search_result_def)
qed

section \<open>A small lineage\<close>

definition sample_edge :: "string \<Rightarrow> string \<Rightarrow> string \<Rightarrow> lin_edge" where
  "sample_edge i a b = \<lparr>le_edge_id = i, le_source = a, le_target = b, le_level = ''dataset'', le_source_column = None,
     le_target_column = None, le_relationship_type = ''direct'', le_job_id = None, le_run_id = None,
     le_observed_at = ''2026'', le_first_seen = ''2026'', le_active = True, le_stale = False, le_confidence = 1,
     le_evidence_refs = [], le_source_provider = ''dbt'', le_schema_version = ''v1''\<rparr>"

definition sample_request :: "string \<Rightarrow> int \<Rightarrow> impact_request" where
  "sample_request direction max_edges = \<lparr>iq_root = ''a'', iq_root_column = None, iq_schema_change_id = None,
     iq_direction = direction, iq_max_depth = 5, iq_max_nodes = 200, iq_max_edges = max_edges, iq_max_paths = 20,
     iq_include_stale = False, iq_as_of = None, iq_overlays = False\<rparr>"

text \<open>Three jobs lead from \<open>a\<close> to \<open>b\<close> and one from \<open>b\<close> to \<open>c\<close>.\<close>

definition sample_lineage :: "(unit, unit) lin_repo" where
  "sample_lineage = \<lparr>lr_nodes = [], lr_edges = map (\<lambda>e. ((''t'', ''dev'', le_edge_id e), e))
     [sample_edge ''1'' ''a'' ''b'', sample_edge ''2'' ''a'' ''b'', sample_edge ''3'' ''a'' ''b'', sample_edge ''4'' ''b'' ''c''],
     lr_schemas = [], lr_changes = [], lr_impacts = []\<rparr>"

lemmas sample_lineage_run = explore.simps sample_lineage_def sample_edge_def sample_request_def lin_adjacent_def
  adjacent_edges_def scoped_edges_def visible_edge_def edge_touches_def slice_to_def first_search_def search_result_def
  edge_targets_def Let_def lin_traverse_def validate_request_def

text \<open>
  In both directions an answer may leave an asset out although it is not marked truncated: the limit of the listing
  counts edges that were already seen from their other end. Here \<open>c\<close> is two arcs away, four edges are admitted and
  four exist, and the answer is \<open>a\<close> and \<open>b\<close> alone; besides it reports a cycle where there is none.
\<close>

theorem both_directions_lose_assets:
  "\<exists>r. lin_traverse ''t'' ''dev'' (sample_request ''both'' 4) sample_lineage = (Inr r, sample_lineage) \<and>
     \<not> tr_truncated r \<and> tr_nodes r = [(''a'', 0), (''b'', 1)] \<and> tr_cycles r = [(''b'', ''a'')] \<and>
     sample_edge ''4'' ''b'' ''c'' \<in> lin_edges sample_lineage ''t'' ''dev'' (sample_request ''both'' 4)"
  by (simp add: sample_lineage_run lin_edges_def sorted_set_def)

lemma sample_filed: "edges_filed sample_lineage"
  by (simp add: edges_filed_def sample_lineage_def sample_edge_def)

lemma sample_down: "\<exists>r. lin_traverse ''t'' ''dev'' (sample_request ''downstream'' 100) sample_lineage = (Inr r, sample_lineage) \<and>
    \<not> tr_truncated r \<and> tr_nodes r = [(''a'', 0), (''b'', 1), (''c'', 2)]"
  by (simp add: sample_lineage_run)

lemma sample_cards: "card {e \<in> lin_edges sample_lineage ''t'' ''dev'' q. P e} \<le> 500"
proof -
  have "lin_edges sample_lineage ''t'' ''dev'' q \<subseteq> set (scoped_edges sample_lineage ''t'' ''dev'')" by (auto simp: lin_edges_def)
  then have "card {e \<in> lin_edges sample_lineage ''t'' ''dev'' q. P e} \<le> card (set (scoped_edges sample_lineage ''t'' ''dev''))"
    by (intro card_mono) auto
  also have "\<dots> \<le> length (scoped_edges sample_lineage ''t'' ''dev'')" by (rule card_length)
  also have "\<dots> \<le> 500" by (simp add: scoped_edges_def sample_lineage_def)
  finally show ?thesis .
qed

theorem untruncated_lineage_is_exact_witness:
  "(lin_arc (lin_edges sample_lineage ''t'' ''dev'' (sample_request ''downstream'' 100)) (sample_request ''downstream'' 100) ^^ 2) ''a'' ''c''"
proof -
  let ?q = "sample_request ''downstream'' 100"
  obtain r where "lin_traverse ''t'' ''dev'' ?q sample_lineage = (Inr r, sample_lineage)" "\<not> tr_truncated r"
    and nodes: "tr_nodes r = [(''a'', 0), (''b'', 1), (''c'', 2)]" using sample_down by blast
  then have "set (tr_nodes r) = {(x, d). (lin_arc (lin_edges sample_lineage ''t'' ''dev'' ?q) ?q ^^ d) (iq_root ?q) x \<and>
      int d \<le> iq_max_depth ?q \<and> (\<forall>m < d. \<not> (lin_arc (lin_edges sample_lineage ''t'' ''dev'' ?q) ?q ^^ m) (iq_root ?q) x)}"
    by (intro untruncated_lineage_is_exact [OF sample_filed _ sample_cards]) (simp_all add: sample_request_def)
  moreover have "(''c'', 2) \<in> set (tr_nodes r)" by (simp add: nodes)
  moreover have "iq_root ?q = ''a''" by (simp add: sample_request_def)
  ultimately show ?thesis by (simp del: One_nat_def)
qed

theorem lineage_answers_are_sound_witness:
  "\<exists>r. lin_traverse ''t'' ''dev'' (sample_request ''downstream'' 100) sample_lineage = (Inr r, sample_lineage) \<and>
     distinct (map fst (tr_nodes r)) \<and> length (tr_nodes r) = 3"
proof -
  obtain r where run: "lin_traverse ''t'' ''dev'' (sample_request ''downstream'' 100) sample_lineage = (Inr r, sample_lineage)"
    and nodes: "tr_nodes r = [(''a'', 0), (''b'', 1), (''c'', 2)]" using sample_down by blast
  from lineage_answers_are_sound [OF run] run nodes show ?thesis by (auto simp: Let_def)
qed

text \<open>
  The bound on paths bounds the assets as well: an answer that is not marked truncated has at most one asset more
  than paths, so at most 51, whatever \<open>max_nodes\<close> admits.
\<close>

theorem untruncated_lineage_is_small:
  assumes "lin_traverse t v q s = (Inr r, s')" and "\<not> tr_truncated r"
  shows "length (tr_nodes r) \<le> length (tr_paths r) + 1 \<and> length (tr_nodes r) \<le> 51"
proof -
  obtain u where valid: "validate_request q = Inr u"
    and r: "r = search_result (explore (lin_adjacent s t v q) q (first_search q))" by (rule traverse_run [OF assms(1)])
  have "iq_max_paths q \<le> 50" using valid by (auto simp: validate_request_def split: if_splits)
  with explored(2) [OF valid, of s t v] assms(2) show ?thesis by (simp add: r search_result_def sized_def)
qed

theorem untruncated_lineage_is_small_witness:
  "\<exists>r. lin_traverse ''t'' ''dev'' (sample_request ''downstream'' 100) sample_lineage = (Inr r, sample_lineage) \<and>
     length (tr_nodes r) \<le> 51"
  using sample_down untruncated_lineage_is_small [of "''t''" "''dev''" "sample_request ''downstream'' 100" sample_lineage] by blast

end
