(* ===== verification/SchemaChanges.thy ===== *)
theory SchemaChanges
  imports Lineage Floats
begin

text \<open>
  Changes of schemas: \<open>schema_diff.py\<close> of \<open>services/lineage_intelligence\<close> and the changes kept by the repository.
  Columns are compared by name; the classification is the first of a list of priorities that some difference asks for.
  \<open>schema_compatibility_exact\<close> says which differences these are.
\<close>

section \<open>Comparison of two versions\<close>

definition widening :: "(string \<times> string) list" where
  "widening = [(''smallint'', ''integer''), (''integer'', ''bigint''), (''float'', ''double'')]"

definition narrowing :: "(string \<times> string) list" where
  "narrowing = map (\<lambda>(a, b). (b, a)) widening"

record type_change =
  yc_column :: string
  yc_previous :: string
  yc_current :: string
  yc_rule :: string

record nullability_change =
  uc_column :: string
  uc_previous :: "bool option"
  uc_current :: "bool option"
  uc_rule :: string

record constraint_change =
  oc_column :: string
  oc_added :: "string list"
  oc_removed :: "string list"

record rename_candidate =
  rn_from :: string
  rn_to :: string
  rn_relationship :: string

record schema_change =
  sh_change_id :: string
  sh_asset_id :: string
  sh_previous :: string
  sh_current :: string
  sh_change_type :: string
  sh_severity :: string
  sh_compatibility :: string
  sh_affected_columns :: "string list"
  sh_added :: "string list"
  sh_removed :: "string list"
  sh_types :: "type_change list"
  sh_nullability :: "nullability_change list"
  sh_constraints :: "constraint_change list"
  sh_partitions :: "bool \<times> string list \<times> string list"
  sh_renames :: "rename_candidate list"
  sh_reason_codes :: "string list"
  sh_confidence :: rat
  sh_evidence_refs :: "string list"
  sh_observed_at :: string
  sh_evaluated_at :: string

text \<open>\<open>{c.name: c for c in columns}\<close>: a later column of the same name replaces an earlier one.\<close>

definition columns_by_name :: "schema_version \<Rightarrow> (string \<times> schema_column) list" where
  "columns_by_name v = foldl (\<lambda>d c. dput (sc_name c) c d) [] (sv_columns v)"

definition names_gained :: "schema_version \<Rightarrow> schema_version \<Rightarrow> string list" where
  "names_gained p c = sorted_set (filter (\<lambda>n. dget (columns_by_name p) n = None) (map fst (columns_by_name c)))"

definition common_columns :: "schema_version \<Rightarrow> schema_version \<Rightarrow> (schema_column \<times> schema_column) list" where
  "common_columns p c = map (\<lambda>n. (the (dget (columns_by_name p) n), the (dget (columns_by_name c) n)))
     (sorted_set (filter (\<lambda>n. dget (columns_by_name c) n \<noteq> None) (map fst (columns_by_name p))))"

definition type_rule :: "schema_column \<Rightarrow> schema_column \<Rightarrow> string option" where
  "type_rule old new = (let pair = (map lower_char (sc_data_type old), map lower_char (sc_data_type new)) in
     if fst pair = snd pair then None
     else if pair \<in> set widening then Some ''type_widened''
     else if pair \<in> set narrowing then Some ''type_narrowed'' else Some ''provider_type_unknown'')"

definition nullability_rule :: "schema_column \<Rightarrow> schema_column \<Rightarrow> string option" where
  "nullability_rule old new = (if sc_nullable old = sc_nullable new then None
     else if sc_nullable new = Some True then Some ''nullability_relaxed'' else Some ''nullability_tightened'')"

definition minus_sorted :: "string list \<Rightarrow> string list \<Rightarrow> string list" where
  "minus_sorted xs ys = sorted_set (filter (\<lambda>x. x \<notin> set ys) xs)"

text \<open>One column in the loop: what the lists of differences, the reasons and the classifications get.\<close>

record column_outcome =
  co_types :: "type_change list"
  co_nullability :: "nullability_change list"
  co_constraints :: "constraint_change list"
  co_reasons :: "string list"
  co_classes :: "string list"

definition compare_column :: "schema_column \<Rightarrow> schema_column \<Rightarrow> column_outcome \<Rightarrow> column_outcome" where
  "compare_column old new out =
     (let out = (case type_rule old new of
            None \<Rightarrow> out
          | Some rule \<Rightarrow> out\<lparr>co_types := co_types out @ [\<lparr>yc_column = sc_name old, yc_previous = sc_data_type old,
                yc_current = sc_data_type new, yc_rule = rule\<rparr>],
              co_reasons := co_reasons out @ [rule],
              co_classes := co_classes out @ [if rule = ''type_widened'' then ''compatible''
                else if rule = ''type_narrowed'' then ''potentially_breaking'' else ''unknown'']\<rparr>);
          out = (case nullability_rule old new of
            None \<Rightarrow> out
          | Some rule \<Rightarrow> out\<lparr>co_nullability := co_nullability out @ [\<lparr>uc_column = sc_name old, uc_previous = sc_nullable old,
                uc_current = sc_nullable new, uc_rule = rule\<rparr>],
              co_reasons := co_reasons out @ [rule],
              co_classes := co_classes out @ [if sc_nullable new = Some True then ''compatible'' else ''potentially_breaking'']\<rparr>)
      in if set (sc_constraints old) = set (sc_constraints new) then out
         else out\<lparr>co_constraints := co_constraints out @ [\<lparr>oc_column = sc_name old,
                oc_added = minus_sorted (sc_constraints new) (sc_constraints old),
                oc_removed = minus_sorted (sc_constraints old) (sc_constraints new)\<rparr>],
              co_reasons := co_reasons out @ [''constraint_changed''],
              co_classes := co_classes out @ [''potentially_breaking'']\<rparr>)"

definition compare_columns :: "(schema_column \<times> schema_column) list \<Rightarrow> column_outcome" where
  "compare_columns pairs = foldl (\<lambda>out (old, new). compare_column old new out)
     \<lparr>co_types = [], co_nullability = [], co_constraints = [], co_reasons = [], co_classes = []\<rparr> pairs"

definition all_optional :: "schema_version \<Rightarrow> string list \<Rightarrow> bool" where
  "all_optional c added \<longleftrightarrow> list_all (\<lambda>n. sc_nullable (the (dget (columns_by_name c) n)) \<noteq> Some False) added"

text \<open>The reasons and classifications of the whole comparison.\<close>

definition outcome_of :: "schema_version \<Rightarrow> schema_version \<Rightarrow> column_outcome" where
  "outcome_of p c =
     (let out = compare_columns (common_columns p c);
          out = (if names_gained c p = [] then out
                 else out\<lparr>co_reasons := co_reasons out @ [''column_removed''], co_classes := co_classes out @ [''breaking'']\<rparr>);
          added = names_gained p c;
          out = (if added = [] then out
                 else out\<lparr>co_reasons := co_reasons out @
                        [if all_optional c added then ''nullable_column_added'' else ''required_column_added''],
                      co_classes := co_classes out @
                        [if all_optional c added then ''additive'' else ''potentially_breaking'']\<rparr>)
      in if sv_partition_fields p = sv_partition_fields c then out
         else out\<lparr>co_reasons := co_reasons out @ [''partition_fields_changed''], co_classes := co_classes out @ [''breaking'']\<rparr>)"

definition rename_candidates :: "schema_version \<Rightarrow> schema_version \<Rightarrow> rename_candidate list" where
  "rename_candidates p c = concat (map (\<lambda>old. concat (map (\<lambda>new.
       let before = the (dget (columns_by_name p) old); after = the (dget (columns_by_name c) new) in
       if sc_data_type before = sc_data_type after \<and> sc_nullable before = sc_nullable after
       then [\<lparr>rn_from = old, rn_to = new, rn_relationship = ''inferred''\<rparr>] else [])
     (names_gained p c))) (names_gained c p))"

definition class_priority :: "string list" where
  "class_priority = [''breaking'', ''potentially_breaking'', ''unknown'', ''additive'', ''compatible'']"

definition classification_of :: "string list \<Rightarrow> string" where
  "classification_of classes = (case find (\<lambda>x. x \<in> set classes) class_priority of
       Some x \<Rightarrow> x | None \<Rightarrow> ''metadata_only'')"

definition change_severity :: "string \<Rightarrow> string" where
  "change_severity classification = (case dget [(''breaking'', ''high''), (''potentially_breaking'', ''medium''), (''unknown'', ''unknown'')]
       classification of Some s \<Rightarrow> s | None \<Rightarrow> ''low'')"

definition compare_schemas :: "lin_env \<Rightarrow> schema_version \<Rightarrow> schema_version \<Rightarrow> py_error + schema_change" where
  "compare_schemas env p c =
     (if sv_asset_id p \<noteq> sv_asset_id c then Inl (ValueError ''schema versions must belong to the same asset'')
      else let added = names_gained p c; removed = names_gained c p; out = outcome_of p c;
               renames = rename_candidates p c; classification = classification_of (co_classes out) in
        Inr \<lparr>sh_change_id = stable_id env ''change''
               [JStr (sv_asset_id p), JStr (schema_version_id env p), JStr (schema_version_id env c)],
             sh_asset_id = sv_asset_id p, sh_previous = schema_version_id env p, sh_current = schema_version_id env c,
             sh_change_type = classification, sh_severity = change_severity classification,
             sh_compatibility = classification,
             sh_affected_columns = sorted_set (added @ removed @ map yc_column (co_types out) @
               map uc_column (co_nullability out) @ map oc_column (co_constraints out)),
             sh_added = added, sh_removed = removed, sh_types = co_types out, sh_nullability = co_nullability out,
             sh_constraints = co_constraints out,
             sh_partitions = (sv_partition_fields p \<noteq> sv_partition_fields c, sv_partition_fields p, sv_partition_fields c),
             sh_renames = renames, sh_reason_codes = sorted_set (co_reasons out),
             sh_confidence = min (min (sv_confidence p) (sv_confidence c)) (if renames = [] then 1 else fl (3 / 5)),
             sh_evidence_refs = sorted_set (sv_evidence_refs p @ sv_evidence_refs c),
             sh_observed_at = sv_observed_at c, sh_evaluated_at = li_now env\<rparr>)"

section \<open>Stored changes\<close>

definition append_schema_change :: "string \<Rightarrow> string \<Rightarrow> schema_change \<Rightarrow> ((schema_change, 'd) lin_repo, unit) py" where
  "append_schema_change tenant environment ch = writes (\<lambda>s.
     if dget (lr_changes s) (tenant, environment, sh_change_id ch) = None
     then s\<lparr>lr_changes := dput (tenant, environment, sh_change_id ch) ch (lr_changes s)\<rparr> else s)"

definition list_schema_changes :: "string \<Rightarrow> string \<Rightarrow> int \<Rightarrow> ((schema_change, 'd) lin_repo, schema_change list) py" where
  "list_schema_changes tenant environment limit = reads (\<lambda>s.
     slice_to limit (sorted_reverse (\<lambda>ch. (sh_observed_at ch, sh_change_id ch))
       (map snd (filter (\<lambda>((t, v, _), _). t = tenant \<and> v = environment) (lr_changes s)))))"

end
