(* ===== verification/LineageImpact.thy ===== *)
theory LineageImpact
  imports SchemaChanges
begin

text \<open>
  The impact of a change: \<open>impact.py\<close> of \<open>services/lineage_intelligence\<close>, the evaluations kept by the repository, and
  the routes of \<open>lineage_routes.py\<close> that analyse or answer from the graph. The argument \<open>change\<close> of \<open>analyse\<close> is the
  severity of the change, the only entry of it that is read. The payload of a route is a typed request.
\<close>

section \<open>Scores\<close>

definition impact_weights :: "(string \<times> rat) list" where
  "impact_weights = [(''change_severity'', fl (3 / 10)), (''relationship_strength'', fl (1 / 5)), (''distance'', fl (1 / 5)),
     (''path_confidence'', fl (1 / 5)), (''criticality'', fl (1 / 10))]"

definition impact_weight :: "string \<Rightarrow> rat" where
  "impact_weight k = the (dget impact_weights k)"

definition available_components :: "(string \<times> rat option) list \<Rightarrow> (string \<times> rat) list" where
  "available_components cs = List.map_filter (\<lambda>(k, v). case v of
       Some x \<Rightarrow> if dget impact_weights k = None then None else Some (k, max 0 (min 1 x))
     | None \<Rightarrow> None) cs"

definition normalized_weights :: "(string \<times> rat) list \<Rightarrow> (string \<times> rat) list" where
  "normalized_weights av = (let denominator = fsum (map (impact_weight \<circ> fst) av) in
     if denominator = 0 then [] else map (\<lambda>(k, _). (k, fl (impact_weight k / denominator))) av)"

definition impact_value :: "(string \<times> rat) list \<Rightarrow> rat option" where
  "impact_value av = (let normalized = normalized_weights av in
     if normalized = [] then None
     else Some (round_to (fl (100 * fsum (map (\<lambda>(k, x). fl (x * the (dget normalized k))) av))) 2))"

definition impact_severity :: "rat option \<Rightarrow> string" where
  "impact_severity value = (case value of
       None \<Rightarrow> ''unknown''
     | Some x \<Rightarrow> if 85 \<le> x then ''critical'' else if 70 \<le> x then ''high'' else if 45 \<le> x then ''medium''
         else if 20 \<le> x then ''low'' else ''informational'')"

record impact_score =
  is_value :: "rat option"
  is_severity :: string
  is_components :: "(string \<times> rat option) list"
  is_weights :: "(string \<times> rat) list"
  is_formula :: string

definition score :: "(string \<times> rat option) list \<Rightarrow> impact_score" where
  "score cs = (let av = available_components cs; x = impact_value av in
     \<lparr>is_value = x, is_severity = impact_severity x, is_components = cs, is_weights = normalized_weights av,
      is_formula = ''100 * weighted_mean(available bounded components); unavailable components excluded''\<rparr>)"

section \<open>Analysis\<close>

record affected_asset =
  af_id :: string
  af_depth :: nat
  af_relationship :: string
  af_confidence :: rat
  af_reason_codes :: "string list"
  af_scoring :: impact_score

record impact_evaluation =
  ie_analysis_id :: string
  ie_root :: "string \<times> string option"
  ie_triggering_change :: "string option"
  ie_evaluated_at :: string
  ie_affected :: "affected_asset list"
  ie_columns :: "string list"
  ie_jobs :: "string list"
  ie_data_products :: "string list"
  ie_monitors :: "string list"
  ie_owners :: "string list"
  ie_incidents :: "string list"
  ie_direct_count :: nat
  ie_transitive_count :: nat
  ie_paths :: "string list list"
  ie_cycles :: "(string \<times> string) list"
  ie_truncated :: bool
  ie_warnings :: "string list"
  ie_data_status :: string
  ie_confidence :: rat
  ie_missing_evidence :: "string list"
  ie_schema_version :: string

type_synonym lineage = "(schema_change, impact_evaluation) lin_repo"

definition edge_confidence :: "lin_edge list \<Rightarrow> (string \<times> rat) list" where
  "edge_confidence es = foldl (\<lambda>d e. dput (le_target e) (le_confidence e) d) [] es"

definition severity_value :: "string option \<Rightarrow> rat option" where
  "severity_value change = dget [(''critical'', 1), (''high'', fl (4 / 5)), (''medium'', fl (3 / 5)), (''low'', fl (3 / 10))]
     (case change of None \<Rightarrow> [] | Some s \<Rightarrow> s)"

definition asset_components :: "rat option \<Rightarrow> nat \<Rightarrow> rat \<Rightarrow> (string \<times> rat option) list" where
  "asset_components sev distance confidence =
     [(''change_severity'', sev), (''relationship_strength'', Some (if distance = 1 then 1 else fl (3 / 5))),
      (''distance'', Some (fl (1 / (of_nat distance + 1)))), (''path_confidence'', Some confidence), (''criticality'', None)]"

definition affected_of :: "(string \<times> rat) list \<Rightarrow> rat option \<Rightarrow> string \<times> nat \<Rightarrow> affected_asset" where
  "affected_of confidences sev node =
     (let distance = snd node;
          confidence = (case dget confidences (fst node) of Some x \<Rightarrow> x | None \<Rightarrow> fl (7 / 20))
      in \<lparr>af_id = fst node, af_depth = distance,
          af_relationship = (if distance = 1 then ''direct'' else ''transitive''), af_confidence = confidence,
          af_reason_codes = [''structurally_downstream'', ''no_direct_failure_evidence_observed''],
          af_scoring = score (asset_components sev distance confidence)\<rparr>)"

text \<open>\<open>min(xs, default=0.0)\<close>.\<close>

definition least_confidence :: "rat list \<Rightarrow> rat" where
  "least_confidence xs = (case xs of [] \<Rightarrow> 0 | x # ys \<Rightarrow> fold min ys x)"

definition evaluation_of ::
  "lin_env \<Rightarrow> string \<Rightarrow> string \<Rightarrow> impact_request \<Rightarrow> string option \<Rightarrow> traversal_result \<Rightarrow> impact_evaluation" where
  "evaluation_of env tenant environment q change graph =
     (let affected = map (affected_of (edge_confidence (tr_edges graph)) (severity_value change)) (tl (tr_nodes graph))
      in \<lparr>ie_analysis_id = analysis_id env q tenant environment, ie_root = (iq_root q, iq_root_column q),
          ie_triggering_change = iq_schema_change_id q, ie_evaluated_at = li_now env, ie_affected = affected,
          ie_columns = [], ie_jobs = [], ie_data_products = [], ie_monitors = [], ie_owners = [], ie_incidents = [],
          ie_direct_count = length (filter (\<lambda>x. af_relationship x = ''direct'') affected),
          ie_transitive_count = length (filter (\<lambda>x. af_relationship x = ''transitive'') affected),
          ie_paths = tr_paths graph, ie_cycles = tr_cycles graph, ie_truncated = tr_truncated graph,
          ie_warnings = tr_warnings graph, ie_data_status = (if tr_truncated graph then ''partial'' else ''available''),
          ie_confidence = least_confidence (map af_confidence affected),
          ie_missing_evidence = (if iq_overlays q then [''contextual overlays are unavailable''] else []),
          ie_schema_version = ''v1''\<rparr>)"

definition append_impact_evaluation :: "string \<Rightarrow> string \<Rightarrow> impact_evaluation \<Rightarrow> (lineage, unit) py" where
  "append_impact_evaluation tenant environment x = writes (\<lambda>s.
     if dget (lr_impacts s) (tenant, environment, ie_analysis_id x) = None
     then s\<lparr>lr_impacts := dput (tenant, environment, ie_analysis_id x) x (lr_impacts s)\<rparr> else s)"

definition get_impact_evaluation :: "string \<Rightarrow> string \<Rightarrow> string \<Rightarrow> (lineage, impact_evaluation option) py" where
  "get_impact_evaluation tenant environment aid = reads (\<lambda>s. dget (lr_impacts s) (tenant, environment, aid))"

definition analyse ::
  "lin_env \<Rightarrow> string \<Rightarrow> string \<Rightarrow> impact_request \<Rightarrow> string option \<Rightarrow> (lineage, impact_evaluation) py" where
  "analyse env tenant environment q change =
     bindp (lin_traverse tenant environment q) (\<lambda>graph.
       let x = evaluation_of env tenant environment q change graph
       in seqp (append_impact_evaluation tenant environment x) (ret x))"

section \<open>Routes\<close>

record graph_answer =
  ga_root :: "string \<times> string option"
  ga_direction :: string
  ga_nodes :: "(string \<times> nat) list"
  ga_edges :: "lin_edge list"
  ga_paths :: "string list list"
  ga_cycles :: "(string \<times> string) list"
  ga_truncated :: bool
  ga_limits :: "int \<times> int \<times> int"
  ga_data_status :: string
  ga_confidence :: rat
  ga_warnings :: "string list"
  ga_evidence :: "string list"
  ga_observed_at :: string

definition graph_request ::
  "string \<Rightarrow> string option \<Rightarrow> string \<Rightarrow> int \<Rightarrow> int \<Rightarrow> int \<Rightarrow> bool \<Rightarrow> string option \<Rightarrow> impact_request" where
  "graph_request asset column direction depth max_nodes max_edges include_stale as_of =
     \<lparr>iq_root = asset, iq_root_column = column, iq_schema_change_id = None, iq_direction = direction, iq_max_depth = depth,
      iq_max_nodes = max_nodes, iq_max_edges = max_edges, iq_max_paths = 20, iq_include_stale = include_stale,
      iq_as_of = as_of, iq_overlays = True\<rparr>"

definition lineage_graph ::
  "lin_env \<Rightarrow> string \<Rightarrow> string \<Rightarrow> impact_request \<Rightarrow> (lineage, graph_answer) py" where
  "lineage_graph env tenant environment q =
     (if iq_direction q \<notin> {''upstream'', ''downstream'', ''both''}
      then raise (HTTPException 400 ''direction must be upstream, downstream, or both'')
      else bindp (lin_traverse tenant environment q) (\<lambda>r. ret
        \<lparr>ga_root = (iq_root q, iq_root_column q), ga_direction = iq_direction q, ga_nodes = tr_nodes r, ga_edges = tr_edges r,
         ga_paths = tr_paths r, ga_cycles = tr_cycles r, ga_truncated = tr_truncated r,
         ga_limits = (iq_max_depth q, iq_max_nodes q, iq_max_edges q),
         ga_data_status = (if tr_truncated r then ''partial'' else if tr_edges r \<noteq> [] then ''available'' else ''missing''),
         ga_confidence = least_confidence (map le_confidence (tr_edges r)), ga_warnings = tr_warnings r,
         ga_evidence = sorted_set (concat (map le_evidence_refs (tr_edges r))), ga_observed_at = li_now env\<rparr>))"

definition asset_impact :: "lin_env \<Rightarrow> string \<Rightarrow> string \<Rightarrow> string \<Rightarrow> int \<Rightarrow> (lineage, graph_answer) py" where
  "asset_impact env tenant environment asset depth =
     lineage_graph env tenant environment (graph_request asset None ''downstream'' depth 200 500 False None)"

definition column_graph :: "lin_env \<Rightarrow> string \<Rightarrow> string \<Rightarrow> string \<Rightarrow> string \<Rightarrow> string \<Rightarrow> int \<Rightarrow> (lineage, graph_answer) py" where
  "column_graph env tenant environment asset column direction depth =
     lineage_graph env tenant environment (graph_request asset (Some column) direction depth 200 500 False None)"

definition lineage_path ::
  "lin_env \<Rightarrow> string \<Rightarrow> string \<Rightarrow> string \<Rightarrow> string \<Rightarrow> int \<Rightarrow> (lineage, graph_answer) py" where
  "lineage_path env tenant environment source target depth =
     bindp (lineage_graph env tenant environment (graph_request source None ''downstream'' depth 200 500 False None)) (\<lambda>r.
       let paths = filter (\<lambda>p. last p = target) (ga_paths r) in
       ret (r\<lparr>ga_paths := paths, ga_warnings := ga_warnings r @
         (if paths = [] then [''No observed bounded path connects the requested assets''] else [])\<rparr>))"

definition create_impact ::
  "lin_env \<Rightarrow> string \<Rightarrow> string \<Rightarrow> impact_request \<Rightarrow> string option \<Rightarrow> (lineage, impact_evaluation) py" where
  "create_impact env tenant environment q idempotency_key =
     (case idempotency_key of
        None \<Rightarrow> raise (HTTPException 400 ''a bounded Idempotency-Key is required'')
      | Some key \<Rightarrow>
          if key = [] \<or> 128 < length key then raise (HTTPException 400 ''a bounded Idempotency-Key is required'')
          else case validate_request q of
            Inl (ValueError m) \<Rightarrow> raise (HTTPException 422 m)
          | Inl e \<Rightarrow> raise e
          | Inr _ \<Rightarrow>
              bindp (get_impact_evaluation tenant environment (analysis_id env q tenant environment)) (\<lambda>existing.
                case existing of Some x \<Rightarrow> ret x | None \<Rightarrow> analyse env tenant environment q None))"

definition get_impact :: "string \<Rightarrow> string \<Rightarrow> string \<Rightarrow> (lineage, impact_evaluation) py" where
  "get_impact tenant environment aid =
     bindp (get_impact_evaluation tenant environment aid) (\<lambda>r. case r of
       None \<Rightarrow> raise (HTTPException 404 ''impact analysis not found'') | Some x \<Rightarrow> ret x)"

end
