(* ===== verification/ImpactProperties.thy ===== *)
theory ImpactProperties
  imports LineageTraversal LineageImpact
begin

text \<open>
  What impact analyses promise.

  \<^item> \<open>impact_value_close\<close>: a score is within a hundredth of the weighted mean of its components (\<open>weighted_mean\<close>), for
    every choice of available components and through all roundings.
  \<^item> \<open>affected_depth\<close>, \<open>asset_score_bound\<close>: what the score of an affected asset can be.
  \<^item> \<open>lineage_call\<close>: the calls that write; stored evaluations stay.
\<close>

section \<open>Scores\<close>

definition exact_weight :: "string \<Rightarrow> rat" where
  "exact_weight k = (if k = ''change_severity'' then 3 / 10 else if k = ''criticality'' then 1 / 10 else 1 / 5)"

lemma weight_close:
  assumes "dget impact_weights k \<noteq> None"
  shows "\<bar>impact_weight k - exact_weight k\<bar> \<le> 1 / 1000000000"
  using assms fl_close [of "3 / 10"] fl_close [of "1 / 5"] fl_close [of "1 / 10"]
  by (auto simp: impact_weight_def exact_weight_def impact_weights_def split: if_splits)

lemma exact_weight_range: "1 / 10 \<le> exact_weight k" "exact_weight k \<le> 3 / 10"
  by (simp_all add: exact_weight_def)

text \<open>What the score takes into account: at most five components with values between 0 and 1.\<close>

definition scored :: "(string \<times> rat) list \<Rightarrow> bool" where
  "scored av \<longleftrightarrow> distinct (map fst av) \<and> (\<forall>(k, x) \<in> set av. dget impact_weights k \<noteq> None \<and> 0 \<le> x \<and> x \<le> 1)"

lemma available_scored:
  assumes "distinct (map fst cs)"
  shows "scored (available_components cs)"
proof -
  have keys: "set (map fst (available_components cs)) \<subseteq> set (map fst cs)" for cs
    by (induction cs) (auto simp: available_components_def map_filter_simps split: option.splits if_splits)
  show ?thesis using assms
  proof (induction cs)
    case Nil
    then show ?case by (simp add: scored_def available_components_def map_filter_simps)
  next
    case (Cons c cs)
    obtain k v where c: "c = (k, v)" by (cases c)
    then have "k \<notin> set (map fst (available_components cs))" using Cons.prems keys [of cs] by auto
    with Cons c show ?case
      by (auto simp: scored_def available_components_def map_filter_simps split: option.splits)
  qed
qed

lemma scored_length:
  assumes "scored av"
  shows "length av \<le> 5"
proof -
  have "set (map fst av) \<subseteq> dom (dget impact_weights)" using assms by (auto simp: scored_def dom_def)
  moreover have "dom (dget impact_weights) \<subseteq> set (map fst impact_weights)" by (simp add: dom_map_of_conv_image_fst)
  ultimately have "set (map fst av) \<subseteq> set (map fst impact_weights)" by (rule order_trans)
  then have "card (set (map fst av)) \<le> card (set (map fst impact_weights))" by (intro card_mono) auto
  also have "\<dots> \<le> length (map fst impact_weights)" by (rule card_length)
  finally show ?thesis using assms by (simp add: scored_def distinct_card impact_weights_def del: set_map)
qed

definition total_weight :: "(string \<times> rat) list \<Rightarrow> rat" where
  "total_weight av = sum_list (map (exact_weight \<circ> fst) av)"

definition weighted_mean :: "(string \<times> rat) list \<Rightarrow> rat" where
  "weighted_mean av = 100 * sum_list (map (\<lambda>(k, x). exact_weight k * x) av) / total_weight av"

lemma total_weight_range:
  "of_nat (length av) / 10 \<le> total_weight av" "total_weight av \<le> of_nat (length av) * (3 / 10)"
proof -
  have "of_nat (length av) / 10 \<le> total_weight av \<and> total_weight av \<le> of_nat (length av) * (3 / 10)"
  proof (induction av)
    case (Cons c av)
    with exact_weight_range [of "fst c"] show ?case
      by (simp add: total_weight_def add_divide_distrib distrib_right)
  qed (simp add: total_weight_def)
  then show "of_nat (length av) / 10 \<le> total_weight av" "total_weight av \<le> of_nat (length av) * (3 / 10)" by simp_all
qed

lemma denominator_close:
  assumes "scored av"
  shows "\<bar>fsum (map (impact_weight \<circ> fst) av) - total_weight av\<bar> \<le> 1 / 100000000"
proof -
  let ?ws = "map (impact_weight \<circ> fst) av"
  have close: "\<bar>impact_weight (fst c) - exact_weight (fst c)\<bar> \<le> 1 / 1000000000" if "c \<in> set av" for c
    using assms that by (intro weight_close) (auto simp: scored_def)
  have len: "of_nat (length av) \<le> (5 :: rat)" using scored_length [OF assms] by simp
  have "\<forall>w \<in> set ?ws. \<bar>w\<bar> \<le> 2"
  proof
    fix w assume "w \<in> set ?ws"
    then obtain c where "c \<in> set av" and w: "w = impact_weight (fst c)" by auto
    with close [of c] exact_weight_range [of "fst c"] show "\<bar>w\<bar> \<le> 2" by linarith
  qed
  then have "\<bar>fsum ?ws - sum_list ?ws\<bar> \<le> of_nat (length ?ws) / 1000000000"
    using scored_length [OF assms] by (intro fsum_close) simp_all
  moreover have "\<bar>sum_list ?ws - total_weight av\<bar> \<le> of_nat (length av) * (1 / 1000000000)"
    unfolding total_weight_def using close by (intro sum_list_close) simp
  moreover note len
  ultimately show ?thesis unfolding length_map by linarith
qed

lemma quotient_close:
  fixes w W d S :: rat
  assumes "\<bar>w - W\<bar> \<le> 1 / 1000000000" and "\<bar>d - S\<bar> \<le> 1 / 100000000" and "1 / 10 \<le> S" and "1 / 10 \<le> W" and "W \<le> S"
  shows "\<bar>w / d - W / S\<bar> \<le> 1 / 1000000"
proof -
  have d: "9 / 100 \<le> d" using assms(2,3) by linarith
  have "\<bar>w / d - W / S\<bar> = \<bar>(w - W) / d + W / S * ((S - d) / d)\<bar>"
    using d assms(3) by (simp add: field_simps)
  also have "\<dots> \<le> \<bar>w - W\<bar> / d + \<bar>W / S\<bar> * (\<bar>S - d\<bar> / d)"
    using d by (intro order_trans [OF abs_triangle_ineq] add_mono) (simp_all add: abs_mult abs_divide)
  also have "\<dots> \<le> (1 / 1000000000) / (9 / 100) + 1 * ((1 / 100000000) / (9 / 100))"
    using assms d by (intro add_mono mult_mono frac_le) (simp_all add: abs_minus_commute)
  also have "\<dots> \<le> 1 / 1000000" by simp
  finally show ?thesis .
qed

lemma normalized_get:
  assumes "fsum (map (impact_weight \<circ> fst) av) \<noteq> 0" and "k \<in> fst ` set av"
  shows "dget (normalized_weights av) k = Some (fl (impact_weight k / fsum (map (impact_weight \<circ> fst) av)))"
proof -
  have "k \<in> fst ` set av \<Longrightarrow> dget (map (\<lambda>(k, _). (k, f k)) av) k = Some (f k)" for f :: "string \<Rightarrow> rat"
    by (induction av) auto
  with assms show ?thesis by (simp add: normalized_weights_def)
qed

lemma component_close:
  assumes "scored av" and "c \<in> set av"
  shows "\<bar>fl (snd c * fl (impact_weight (fst c) / fsum (map (impact_weight \<circ> fst) av)))
      - exact_weight (fst c) * snd c / total_weight av\<bar> \<le> 1002 / 1000000000"
    and "exact_weight (fst c) * snd c / total_weight av \<in> {0..1}"
proof -
  obtain k x where c: "c = (k, x)" by (cases c)
  let ?D = "fsum (map (impact_weight \<circ> fst) av)" and ?S = "total_weight av" and ?W = "exact_weight k"
  have x: "0 \<le> x" "x \<le> 1" and w: "\<bar>impact_weight k - ?W\<bar> \<le> 1 / 1000000000"
    using assms c weight_close by (auto simp: scored_def)
  have "\<forall>y \<in> set (map (exact_weight \<circ> fst) av). 0 \<le> y"
    using exact_weight_range(1) by (auto intro: order_trans [of 0 "1 / 10"])
  then have W: "?W \<le> ?S" unfolding total_weight_def using assms(2) c
    by (intro member_le_sum_list) (auto simp: image_iff intro!: bexI [of _ c])
  note r = exact_weight_range [of k]
  from W r have S: "1 / 10 \<le> ?S" by linarith
  let ?q = "impact_weight k / ?D" and ?p = "?W / ?S"
  have q: "\<bar>?q - ?p\<bar> \<le> 1 / 1000000" by (rule quotient_close [OF w denominator_close [OF assms(1)] S r(1) W])
  have p: "0 \<le> ?p" "?p \<le> 1" using W S r by simp_all
  have "\<bar>fl ?q - ?q\<bar> \<le> 1 / 1000000000" using q p by (intro fl_close) linarith
  with q have n: "\<bar>fl ?q - ?p\<bar> \<le> 1001 / 1000000000" by linarith
  have "\<bar>x * fl ?q - x * ?p\<bar> \<le> 1 * \<bar>fl ?q - ?p\<bar>"
    unfolding right_diff_distrib [symmetric] abs_mult using x by (intro mult_right_mono) simp_all
  then have m: "\<bar>x * fl ?q - x * ?p\<bar> \<le> 1001 / 1000000000" using n unfolding mult_1 by (rule order_trans)
  have xp: "0 \<le> x * ?p" "x * ?p \<le> 1" using x p by (simp_all add: mult_le_one del: times_divide_eq_right)
  have "\<bar>fl (x * fl ?q) - x * fl ?q\<bar> \<le> 1 / 1000000000" using m xp by (intro fl_close) linarith
  with m have "\<bar>fl (x * fl ?q) - x * ?p\<bar> \<le> 1002 / 1000000000" by linarith
  with xp show "\<bar>fl (snd c * fl (impact_weight (fst c) / ?D)) - exact_weight (fst c) * snd c / ?S\<bar> \<le> 1002 / 1000000000"
    and "exact_weight (fst c) * snd c / total_weight av \<in> {0..1}"
    by (simp_all add: c mult.commute)
qed

lemma weighted_mean_range:
  assumes "scored av" and "av \<noteq> []"
  shows "0 \<le> weighted_mean av" and "weighted_mean av \<le> 100"
proof -
  have "1 \<le> (of_nat (length av) :: rat)" using assms(2) by (cases av) simp_all
  then have S: "0 < total_weight av" using total_weight_range(1) [of av] by linarith
  have "exact_weight k * x \<le> exact_weight k" and "0 \<le> exact_weight k * x" if "(k, x) \<in> set av" for k x
    using assms(1) that exact_weight_range [of k] by (auto simp: scored_def intro!: mult_left_le)
  then have le: "(case c of (k, x) \<Rightarrow> exact_weight k * x) \<le> (exact_weight \<circ> fst) c" and nonneg: "0 \<le> (case c of (k, x) \<Rightarrow> exact_weight k * x)"
    if "c \<in> set av" for c
    using \<open>\<And>k x. (k, x) \<in> set av \<Longrightarrow> exact_weight k * x \<le> exact_weight k\<close> [of "fst c" "snd c"]
      \<open>\<And>k x. (k, x) \<in> set av \<Longrightarrow> 0 \<le> exact_weight k * x\<close> [of "fst c" "snd c"] that
    by (simp_all add: case_prod_unfold)
  have "sum_list (map (\<lambda>(k, x). exact_weight k * x) av) \<le> total_weight av"
    unfolding total_weight_def by (rule sum_list_mono) (rule le)
  moreover have "0 \<le> sum_list (map (\<lambda>(k, x). exact_weight k * x) av)"
    using nonneg by (intro sum_list_nonneg) (metis (no_types, lifting) imageE set_map)
  ultimately show "0 \<le> weighted_mean av" and "weighted_mean av \<le> 100" using S by (simp_all add: weighted_mean_def pos_divide_le_eq)
qed

lemma impact_value_close:
  assumes "scored av" and "av \<noteq> []"
  shows "\<exists>y. impact_value av = Some y \<and> \<bar>y - weighted_mean av\<bar> \<le> 1 / 100"
proof -
  let ?D = "fsum (map (impact_weight \<circ> fst) av)" and ?S = "total_weight av"
  let ?t = "\<lambda>c. fl (snd c * fl (impact_weight (fst c) / ?D))" and ?e = "\<lambda>c. exact_weight (fst c) * snd c / ?S"
  have len: "1 \<le> length av" "length av \<le> 5" using assms scored_length by (auto simp: Suc_le_eq)
  then have len': "1 \<le> (of_nat (length av) :: rat)" "of_nat (length av) \<le> (5 :: rat)" by simp_all
  have S: "1 / 10 \<le> ?S" using total_weight_range(1) [of av] len' by linarith
  have "?D \<noteq> 0" using denominator_close [OF assms(1)] S by linarith
  have norm: "normalized_weights av \<noteq> []" using \<open>?D \<noteq> 0\<close> assms(2) by (simp add: normalized_weights_def)
  have terms: "map (\<lambda>(k, x). fl (x * the (dget (normalized_weights av) k))) av = map ?t av"
    using normalized_get [OF \<open>?D \<noteq> 0\<close>] by (intro map_cong) (force simp: image_iff)+
  note close = component_close [OF assms(1)]
  have "\<forall>y \<in> set (map ?t av). \<bar>y\<bar> \<le> 2"
  proof
    fix y assume "y \<in> set (map ?t av)"
    then obtain c where c: "c \<in> set av" and y: "y = ?t c" by auto
    from close [OF c] show "\<bar>y\<bar> \<le> 2" unfolding y by (simp only: atLeastAtMost_iff) linarith
  qed
  then have sum: "\<bar>fsum (map ?t av) - sum_list (map ?t av)\<bar> \<le> of_nat (length (map ?t av)) / 1000000000"
    using len by (intro fsum_close) simp_all
  have exact: "\<bar>sum_list (map ?t av) - sum_list (map ?e av)\<bar> \<le> of_nat (length av) * (1002 / 1000000000)"
    using close by (intro sum_list_close) simp
  have mean: "100 * sum_list (map ?e av) = weighted_mean av"
  proof -
    have "sum_list (map (\<lambda>c. exact_weight (fst c) * snd c / d) xs) = sum_list (map (\<lambda>(k, x). exact_weight k * x) xs) / d" for d xs
      by (induction xs) (simp_all add: add_divide_distrib case_prod_unfold)
    then show ?thesis by (simp add: weighted_mean_def)
  qed
  note weighted_mean_range [OF assms]
  then have "\<bar>100 * fsum (map ?t av)\<bar> \<le> 101" using sum exact len' mean unfolding length_map by linarith
  then have "\<bar>fl (100 * fsum (map ?t av)) - 100 * fsum (map ?t av)\<bar> \<le> 1 / 1000000000" by (intro fl_close) linarith
  moreover from this \<open>\<bar>100 * fsum (map ?t av)\<bar> \<le> 101\<close>
  have "\<bar>round_to (fl (100 * fsum (map ?t av))) 2 - fl (100 * fsum (map ?t av))\<bar> \<le> 51 / 10000" by (intro round_to_close) linarith
  ultimately have "\<bar>round_to (fl (100 * fsum (map ?t av))) 2 - weighted_mean av\<bar> \<le> 1 / 100"
    using sum exact len' mean unfolding length_map by linarith
  moreover have "impact_value av = Some (round_to (fl (100 * fsum (map ?t av))) 2)"
    unfolding impact_value_def Let_def terms using norm by simp
  ultimately show ?thesis by blast
qed

section \<open>Assets of an analysis\<close>

lemma targets_extend: "\<exists>ys. lv_nodes (follow_targets q c d p ts st) = lv_nodes st @ ys"
proof (induction q c d p ts st rule: follow_targets.induct)
  case (2 q c d p t ts st)
  then show ?case by (auto simp: Let_def)
qed simp

lemma edges_extend: "\<exists>ys. lv_nodes (follow_edges q c d p es st) = lv_nodes st @ ys"
proof (induction q c d p es st rule: follow_edges.induct)
  case (2 q c d p e es st)
  let ?st = "st\<lparr>lv_edges := if dget (lv_edges st) (le_edge_id e) = None
                              then dput (le_edge_id e) e (lv_edges st) else lv_edges st\<rparr>"
  obtain ys where "lv_nodes (follow_targets q c d p (edge_targets q c e) ?st) = lv_nodes st @ ys"
    using targets_extend [of q c d p "edge_targets q c e" ?st] by auto
  with 2 show ?case by (auto simp del: follow_targets.simps)
qed simp

lemma explore_extend: "\<exists>ys. lv_nodes (explore adjacent q st) = lv_nodes st @ ys"
proof (induction adjacent q st rule: explore.induct)
  case (1 adjacent q st)
  show ?case
  proof (cases "lv_queue st")
    case (Cons y rest)
    obtain c d path where y: "y = (c, d, path)" by (cases y)
    show ?thesis
    proof (cases "lv_truncated st \<or> iq_max_depth q \<le> int d")
      case True
      with 1 Cons y show ?thesis by (auto simp: explore.simps [of adjacent q st])
    next
      case False
      let ?es = "adjacent c (min (iq_max_edges q - int (length (lv_edges st)) + 1) 500)"
      have "\<exists>ys. lv_nodes (explore adjacent q (follow_edges q c d path ?es (st\<lparr>lv_queue := rest\<rparr>))) =
          lv_nodes (follow_edges q c d path ?es (st\<lparr>lv_queue := rest\<rparr>)) @ ys"
        using False Cons y by (intro 1(2)) auto
      moreover obtain zs where "lv_nodes (follow_edges q c d path ?es (st\<lparr>lv_queue := rest\<rparr>)) = lv_nodes st @ zs"
        using edges_extend [of q c d path ?es "st\<lparr>lv_queue := rest\<rparr>"] by auto
      ultimately show ?thesis using False Cons y by (auto simp: explore.simps [of adjacent q st])
    qed
  qed (simp add: explore.simps)
qed

lemma affected_depth:
  assumes "lin_traverse t v q s = (Inr r, s')" and "(x, d) \<in> set (tl (tr_nodes r))"
  shows "0 < d"
proof (rule ccontr)
  assume "\<not> 0 < d"
  obtain u where valid: "validate_request q = Inr u"
    and r: "r = search_result (explore (lin_adjacent s t v q) q (first_search q))" by (rule traverse_run [OF assms(1)])
  let ?st = "explore (lin_adjacent s t v q) q (first_search q)"
  obtain ys where ys: "lv_nodes ?st = (iq_root q, 0) # ys"
    using explore_extend [of "lin_adjacent s t v q" q "first_search q"] by (auto simp: first_search_def)
  note sound = explored(1) [OF valid, of s t v]
  have "(x, d) \<in> set ys" using assms(2) by (simp add: r search_result_def ys)
  moreover from this have "(lin_arc (lin_edges s t v q) q ^^ d) (iq_root q) x"
    using sound_searchD(1) [OF sound] ys by auto
  with \<open>\<not> 0 < d\<close> have "x = iq_root q" by simp
  moreover have "distinct (map fst (lv_nodes ?st))" using sound_searchD(5) [OF sound] by simp
  ultimately show False by (force simp: ys)
qed

lemma score_close:
  assumes "distinct (map fst cs)"
  shows "is_value (score cs) = None \<longleftrightarrow> available_components cs = []"
    and "is_value (score cs) = Some y \<Longrightarrow> \<bar>y - weighted_mean (available_components cs)\<bar> \<le> 1 / 100"
    and "is_value (score cs) = Some y \<Longrightarrow> 0 \<le> weighted_mean (available_components cs) \<and> weighted_mean (available_components cs) \<le> 100"
proof -
  let ?av = "available_components cs"
  have "impact_value [] = None" by (simp add: impact_value_def normalized_weights_def Let_def)
  moreover note close = impact_value_close [OF available_scored [OF assms]]
  ultimately show "is_value (score cs) = None \<longleftrightarrow> ?av = []"
    by (cases "?av = []") (auto simp: score_def Let_def)
  with close show "is_value (score cs) = Some y \<Longrightarrow> \<bar>y - weighted_mean ?av\<bar> \<le> 1 / 100"
    by (cases "?av = []") (auto simp: score_def Let_def)
  show "is_value (score cs) = Some y \<Longrightarrow> 0 \<le> weighted_mean ?av \<and> weighted_mean ?av \<le> 100"
    using weighted_mean_range [OF available_scored [OF assms]] \<open>is_value (score cs) = None \<longleftrightarrow> ?av = []\<close> by (cases "?av = []") auto
qed

lemma distance_close: "0 < d \<Longrightarrow> fl (1 / (of_nat d + 1)) \<le> 1 / 2 + 1 / 1000000000 \<and>
    (d \<noteq> 1 \<longrightarrow> fl (1 / (of_nat d + 1)) \<le> 1 / 3 + 1 / 1000000000)"
proof -
  assume "0 < d"
  then have d: "1 \<le> (of_nat d :: rat)" by simp
  let ?x = "1 / (of_nat d + 1) :: rat"
  from d have x: "0 \<le> ?x" "?x \<le> 1 / 2" by (simp_all add: frac_le)
  then have "\<bar>fl ?x - ?x\<bar> \<le> 1 / 1000000000" by (intro fl_close) linarith
  then have fl: "fl ?x \<le> ?x + 1 / 1000000000" by linarith
  have third: "?x \<le> 1 / 3" if "d \<noteq> 1"
  proof -
    from that \<open>0 < d\<close> have "2 \<le> (of_nat d :: rat)" by (simp add: of_nat_le_iff [of 2, simplified])
    then show ?thesis by (intro frac_le) simp_all
  qed
  show ?thesis
  proof (intro conjI impI)
    show "fl ?x \<le> 1 / 2 + 1 / 1000000000" using fl x(2) by linarith
    show "fl ?x \<le> 1 / 3 + 1 / 1000000000" if "d \<noteq> 1" using fl third [OF that] by linarith
  qed
qed

lemma fl_upper: "0 \<le> x \<Longrightarrow> x \<le> 1 \<Longrightarrow> fl x \<le> x + 1 / 1000000000"
  using fl_close [of x] by linarith

lemma scaled_bound:
  fixes a b :: rat
  assumes "0 < b" and "85 \<le> 100 * a / b + 1 / 100"
  shows "8499 / 100 * b \<le> 100 * a"
proof -
  from assms(2) have "8499 / 100 \<le> 100 * a / b" by linarith
  then show ?thesis using assms(1) by (simp only: pos_le_divide_eq)
qed

lemma asset_score_bound:
  assumes "0 < d" and "85 \<le> weighted_mean (available_components (asset_components (severity_value change) d conf)) + 1 / 100"
  shows "change = Some ''critical'' \<and> d = 1"
proof -
  define r :: rat where "r = (if d = 1 then 1 else max 0 (min 1 (fl (3 / 5))))"
  define x where "x = max 0 (min 1 (fl (1 / (of_nat d + 1))))"
  define c where "c = max 0 (min 1 conf)"
  have r: "r \<le> 1" "d \<noteq> 1 \<longrightarrow> r \<le> 61 / 100"
    using fl_upper [of "3 / 5"] by (auto simp: r_def max_def min_def)
  have x: "x \<le> 51 / 100" "d \<noteq> 1 \<longrightarrow> x \<le> 34 / 100"
    using distance_close [OF assms(1)] by (auto simp: x_def)
  have c: "c \<le> 1" by (simp add: c_def)
  show ?thesis
  proof (cases "severity_value change")
    case None
    then have "available_components (asset_components (severity_value change) d conf) =
        [(''relationship_strength'', r), (''distance'', x), (''path_confidence'', c)]"
      by (simp add: available_components_def asset_components_def map_filter_simps impact_weights_def r_def x_def c_def)
    then have "85 \<le> 100 * (r / 5 + (x / 5 + c / 5)) / (3 / 5) + 1 / 100"
      using assms(2) by (simp add: weighted_mean_def total_weight_def exact_weight_def)
    then have "8499 / 100 * (3 / 5) \<le> 100 * (r / 5 + (x / 5 + c / 5))"
      by (rule scaled_bound [rotated]) simp
    then have "50 + 1 / 2 \<le> 20 * r + 20 * x + 20 * c" by simp
    with r(1) x(1) c have False by linarith
    then show ?thesis ..
  next
    case (Some v)
    then have "available_components (asset_components (severity_value change) d conf) =
        [(''change_severity'', max 0 (min 1 v)), (''relationship_strength'', r), (''distance'', x), (''path_confidence'', c)]"
      by (simp add: available_components_def asset_components_def map_filter_simps impact_weights_def r_def x_def c_def)
    then have "85 \<le> 100 * (3 / 10 * max 0 (min 1 v) + (r / 5 + (x / 5 + c / 5))) / (9 / 10) + 1 / 100"
      using assms(2) by (simp add: weighted_mean_def total_weight_def exact_weight_def)
    then have le: "8499 / 100 * (9 / 10) \<le> 100 * (3 / 10 * max 0 (min 1 v) + (r / 5 + (x / 5 + c / 5)))"
      by (rule scaled_bound [rotated]) simp
    have "v \<le> 81 / 100" if "change \<noteq> Some ''critical''"
      using Some that fl_upper [of "4 / 5"] fl_upper [of "3 / 5"] fl_upper [of "3 / 10"]
      by (auto simp: severity_value_def split: option.splits if_splits)
    then have "max 0 (min 1 v) \<le> 81 / 100" if "change \<noteq> Some ''critical''" using that by simp
    moreover have "max 0 (min 1 v) \<le> 1" by simp
    moreover from le have "76 \<le> 30 * max 0 (min 1 v) + 20 * r + 20 * x + 20 * c" by simp
    ultimately show ?thesis using r x c by linarith
  qed
qed

section \<open>Properties\<close>

lemma analysed:
  assumes "analyse env t v q change s = (Inr x, s')"
  obtains graph where "lin_traverse t v q s = (Inr graph, s)" and "x = evaluation_of env t v q change graph"
    and "s' = snd (append_impact_evaluation t v x s)"
proof -
  obtain graph s1 where graph: "lin_traverse t v q s = (Inr graph, s1)"
    and rest: "(let x = evaluation_of env t v q change graph in seqp (append_impact_evaluation t v x) (ret x)) s1 = (Inr x, s')"
    using assms unfolding analyse_def by (rule bindp_InrE)
  from graph have "s1 = s" by (rule traverse_run)
  with graph rest show ?thesis
    by (intro that) (auto simp: Let_def append_impact_evaluation_def seqp_apply)
qed

lemma schema_severities:
  assumes "compare_schemas env p c = Inr ch"
  shows "sh_severity ch \<noteq> ''critical''"
  using assms by (auto simp: compare_schemas_def Let_def change_severity_def split: if_splits)

text \<open>
  C27. In an analysis that answers, the score of every affected asset is within a hundredth of the documented formula,
  100 times the weighted mean of the available components, which lies between 0 and 100; an asset is critical only
  when it depends on the root directly and the change is critical, which no comparison of schemas is.
\<close>

theorem impact_scores_follow_formula:
  assumes "analyse env t v q change s = (Inr x, s')" and "a \<in> set (ie_affected x)"
  shows "(\<exists>y m. is_value (af_scoring a) = Some y \<and>
      m = weighted_mean (available_components (asset_components (severity_value change) (af_depth a) (af_confidence a))) \<and>
      \<bar>y - m\<bar> \<le> 1 / 100 \<and> 0 \<le> m \<and> m \<le> 100) \<and>
    (is_severity (af_scoring a) = ''critical'' \<longrightarrow> change = Some ''critical'' \<and> af_depth a = 1) \<and>
    (\<forall>env p c ch. compare_schemas env p c = Inr ch \<and> change = Some (sh_severity ch) \<longrightarrow> is_severity (af_scoring a) \<noteq> ''critical'')"
proof -
  obtain graph where graph: "lin_traverse t v q s = (Inr graph, s)" and x: "x = evaluation_of env t v q change graph"
    by (rule analysed [OF assms(1)])
  obtain node where node: "node \<in> set (tl (tr_nodes graph))"
    and a: "a = affected_of (edge_confidence (tr_edges graph)) (severity_value change) node"
    using assms(2) by (auto simp: x evaluation_of_def Let_def)
  let ?cs = "asset_components (severity_value change) (af_depth a) (af_confidence a)"
  have scoring: "af_scoring a = score ?cs" and depth: "af_depth a = snd node" by (simp_all add: a affected_of_def Let_def)
  have "(fst node, snd node) \<in> set (tl (tr_nodes graph))" using node by simp
  then have pos: "0 < af_depth a" using affected_depth [OF graph, of "fst node"] depth by simp
  have distinct: "distinct (map fst ?cs)" by (simp add: asset_components_def)
  have "available_components ?cs \<noteq> []"
    by (auto simp: available_components_def asset_components_def map_filter_simps impact_weights_def split: option.splits)
  with score_close(1) [OF distinct] obtain y where y: "is_value (score ?cs) = Some y" by auto
  note close = score_close(2,3) [OF distinct y]
  have critical: "change = Some ''critical'' \<and> af_depth a = 1" if "is_severity (af_scoring a) = ''critical''"
  proof -
    from that y have "85 \<le> y" by (auto simp: scoring score_def Let_def impact_severity_def split: if_splits)
    with close(1) have "85 \<le> weighted_mean (available_components ?cs) + 1 / 100" by linarith
    with pos show ?thesis by (rule asset_score_bound)
  qed
  then show ?thesis using y close schema_severities by (auto simp: scoring)
qed

text \<open>The calls that write to the lineage store, for any tenant, environment and clock; the digest is the same.\<close>

inductive lineage_call :: "(string \<Rightarrow> string) \<Rightarrow> lineage \<Rightarrow> lineage \<Rightarrow> bool" for digest where
  "lineage_call digest s (snd (add_edge t v e s))"
| "lineage_call digest s (snd (append_schema_change t v ch s))"
| "li_digest env = digest \<Longrightarrow> lineage_call digest s (snd (analyse env t v q change s))"
| "li_digest env = digest \<Longrightarrow> lineage_call digest s (snd (create_impact env t v q key s))"

definition stored_impact :: "lineage \<Rightarrow> string \<times> string \<times> string \<Rightarrow> impact_evaluation option" where
  "stored_impact s k = dget (lr_impacts s) k"

interpretation impacts: store_order stored_impact "(=)"
  by unfold_locales auto

lemma append_impact_keeps [evolve_rules]: "evolves (store_evolve stored_impact (=)) (append_impact_evaluation t v x)"
  unfolding append_impact_evaluation_def
  by (intro evolves_writes) (auto simp: store_evolve_def stored_impact_def)

lemma traverse_keeps [evolve_rules]: "evolves (store_evolve stored_impact (=)) (lin_traverse t v q)"
  unfolding lin_traverse_def by (auto intro!: evolve_rules split: sum.split)

lemma analyse_keeps [evolve_rules]: "evolves (store_evolve stored_impact (=)) (analyse env t v q change)"
  unfolding analyse_def Let_def by (intro evolve_rules)

lemma create_keeps: "evolves (store_evolve stored_impact (=)) (create_impact env t v q key)"
  unfolding create_impact_def get_impact_evaluation_def
  by (auto split: option.split sum.split py_error.split intro!: evolve_rules)

lemma lineage_call_keeps: "lineage_call digest s s' \<Longrightarrow> store_evolve stored_impact (=) s s'"
proof (induction rule: lineage_call.induct)
  case (1 s t v e)
  show ?case by (rule impacts.frame) (simp add: stored_impact_def fun_eq_iff add_edge_def)
next
  case (2 s t v ch)
  show ?case by (rule impacts.frame) (simp add: stored_impact_def fun_eq_iff append_schema_change_def)
next
  case (3 env s t v q change)
  show ?case by (rule evolves_snd [OF analyse_keeps])
next
  case (4 env s t v q key)
  show ?case by (rule evolves_snd [OF create_keeps])
qed

lemma lineage_calls_keep: "(lineage_call digest)\<^sup>*\<^sup>* s s' \<Longrightarrow> store_evolve stored_impact (=) s s'"
  by (induction rule: rtranclp_induct) (auto intro: impacts.chain impacts.frame lineage_call_keeps)

lemma created_is_stored:
  assumes "create_impact env t v q key s = (Inr x, s')"
  shows "stored_impact s' (t, v, analysis_id env q t v) = Some x" and "validate_request q = Inr ()"
proof -
  obtain k where key: "key = Some k" "\<not> (k = [] \<or> 128 < length k)"
    using assms by (auto simp: create_impact_def split: option.splits if_splits)
  obtain u where valid: "validate_request q = Inr u"
    using assms key by (auto simp: create_impact_def split: sum.splits py_error.splits)
  then show "validate_request q = Inr ()" by simp
  show "stored_impact s' (t, v, analysis_id env q t v) = Some x"
  proof (cases "dget (lr_impacts s) (t, v, analysis_id env q t v)")
    case None
    with assms key valid have "analyse env t v q None s = (Inr x, s')"
      by (simp add: create_impact_def get_impact_evaluation_def bindp_apply)
    then obtain graph where "x = evaluation_of env t v q None graph" and "s' = snd (append_impact_evaluation t v x s)"
      by (rule analysed)
    with None show ?thesis
      by (simp add: append_impact_evaluation_def stored_impact_def evaluation_of_def Let_def)
  next
    case (Some y)
    with assms key valid show ?thesis
      by (simp add: create_impact_def get_impact_evaluation_def bindp_apply stored_impact_def)
  qed
qed

text \<open>
  C21. Once a request to analyse an impact was answered, every later answer to the same request in the same scope is
  the same evaluation and changes nothing, whatever edges, changes and analyses were stored in between, at whatever
  times and under whatever idempotency keys; reading the analysis returns it as well.
\<close>

theorem impact_answers_are_kept:
  assumes "create_impact env t v q key s = (Inr x, s1)" and "(lineage_call (li_digest env))\<^sup>*\<^sup>* s1 s2"
    and "li_digest env' = li_digest env" and "key' \<noteq> []" and "length key' \<le> 128"
  shows "create_impact env' t v q (Some key') s2 = (Inr x, s2) \<and>
    get_impact t v (analysis_id env q t v) s2 = (Inr x, s2)"
proof -
  have "store_evolve stored_impact (=) s1 s2" by (rule lineage_calls_keep) (rule assms(2))
  then have "stored_impact s2 (t, v, analysis_id env q t v) = Some x"
    using created_is_stored(1) [OF assms(1)] by (rule store_evolve_eqD)
  moreover have "analysis_id env' q t v = analysis_id env q t v"
    using assms(3) by (simp add: analysis_id_def stable_id_def)
  ultimately show ?thesis using created_is_stored(2) [OF assms(1)] assms(4,5)
    by (simp add: create_impact_def get_impact_def get_impact_evaluation_def bindp_apply stored_impact_def)
qed

lemma edge_confidence_keys: "x \<notin> le_target ` set es \<Longrightarrow> dget (edge_confidence es) x = None"
proof -
  have "x \<notin> le_target ` set es \<Longrightarrow> dget d x = None \<Longrightarrow> dget (foldl (\<lambda>d e. dput (le_target e) (le_confidence e) d) d es) x = None" for d
    by (induction es arbitrary: d) auto
  then show "x \<notin> le_target ` set es \<Longrightarrow> dget (edge_confidence es) x = None" by (simp add: edge_confidence_def)
qed

text \<open>
  C39. In an analysis an asset that no edge leads into gets the confidence 0.35, whatever the edges that connect it with
  the root claim: confidences are looked up under the target of an edge, and the affected assets of an upstream
  analysis are sources.
\<close>

theorem sources_lose_their_confidence:
  assumes "analyse env t v q change s = (Inr x, s')" and "a \<in> set (ie_affected x)"
    and "\<forall>e \<in> lin_edges s t v q. le_target e \<noteq> af_id a"
  shows "af_confidence a = fl (7 / 20)"
proof -
  obtain graph where graph: "lin_traverse t v q s = (Inr graph, s)" and x: "x = evaluation_of env t v q change graph"
    by (rule analysed [OF assms(1)])
  obtain u where valid: "validate_request q = Inr u"
    and r: "graph = search_result (explore (lin_adjacent s t v q) q (first_search q))" by (rule traverse_run [OF graph])
  have "set (tr_edges graph) \<subseteq> lin_edges s t v q"
    using sound_searchD(8) [OF explored(1) [OF valid, of s t v]] by (simp add: r search_result_def)
  with assms(3) have "af_id a \<notin> le_target ` set (tr_edges graph)" by auto
  then have "dget (edge_confidence (tr_edges graph)) (af_id a) = None" by (rule edge_confidence_keys)
  with assms(2) show ?thesis by (auto simp: x evaluation_of_def Let_def affected_of_def)
qed

section \<open>A small analysis\<close>

definition sample_env :: lin_env where
  "sample_env = \<lparr>li_digest = (\<lambda>_. ''digest''), li_now = ''2026''\<rparr>"

definition sample_store :: lineage where
  "sample_store = \<lparr>lr_nodes = [], lr_edges = lr_edges sample_lineage, lr_schemas = [], lr_changes = [], lr_impacts = []\<rparr>"

definition upstream_request :: impact_request where
  "upstream_request = (sample_request ''upstream'' 100)\<lparr>iq_root := ''c''\<rparr>"

lemma sample_upstream: "\<exists>r. lin_traverse ''t'' ''dev'' upstream_request sample_store = (Inr r, sample_store) \<and>
    tr_nodes r = [(''c'', 0), (''b'', 1), (''a'', 2)]"
  by (simp add: sample_lineage_run sample_store_def upstream_request_def)

lemma sample_analysis: "\<exists>x s'. analyse sample_env ''t'' ''dev'' upstream_request change sample_store = (Inr x, s') \<and>
    (\<exists>a \<in> set (ie_affected x). af_id a = ''a'' \<and> af_depth a = 2)"
proof -
  obtain r where "lin_traverse ''t'' ''dev'' upstream_request sample_store = (Inr r, sample_store)"
    and "tr_nodes r = [(''c'', 0), (''b'', 1), (''a'', 2)]" using sample_upstream by blast
  then show ?thesis
    by (simp add: analyse_def bindp_apply seqp_apply Let_def append_impact_evaluation_def evaluation_of_def affected_of_def)
qed

theorem impact_scores_follow_formula_witness:
  "\<exists>x s'. analyse sample_env ''t'' ''dev'' upstream_request (Some ''high'') sample_store = (Inr x, s') \<and>
     (\<exists>a \<in> set (ie_affected x). is_severity (af_scoring a) \<noteq> ''critical'')"
proof -
  obtain x s' a where run: "analyse sample_env ''t'' ''dev'' upstream_request (Some ''high'') sample_store = (Inr x, s')"
    and a: "a \<in> set (ie_affected x)" using sample_analysis by blast
  from impact_scores_follow_formula [OF run a] have "is_severity (af_scoring a) \<noteq> ''critical''" by auto
  with run a show ?thesis by blast
qed

theorem sources_lose_their_confidence_witness:
  "\<exists>x s' a. analyse sample_env ''t'' ''dev'' upstream_request None sample_store = (Inr x, s') \<and> a \<in> set (ie_affected x) \<and>
     af_confidence a = fl (7 / 20) \<and> (\<forall>e \<in> lin_edges sample_store ''t'' ''dev'' upstream_request. le_confidence e = 1)"
proof -
  obtain x s' a where run: "analyse sample_env ''t'' ''dev'' upstream_request None sample_store = (Inr x, s')"
    and a: "a \<in> set (ie_affected x)" "af_id a = ''a''" using sample_analysis by blast
  have "\<forall>e \<in> lin_edges sample_store ''t'' ''dev'' upstream_request. le_target e \<noteq> ''a'' \<and> le_confidence e = 1"
    by (auto simp: lin_edges_def scoped_edges_def sample_store_def sample_lineage_def sample_edge_def)
  with sources_lose_their_confidence [OF run a(1)] run a show ?thesis by fastforce
qed

theorem impact_answers_are_kept_witness:
  "\<exists>x s1. create_impact sample_env ''t'' ''dev'' upstream_request (Some ''key'') sample_store = (Inr x, s1) \<and>
     get_impact ''t'' ''dev'' (analysis_id sample_env upstream_request ''t'' ''dev'')
       (snd (add_edge ''t'' ''dev'' (sample_edge ''5'' ''c'' ''d'') s1)) =
     (Inr x, snd (add_edge ''t'' ''dev'' (sample_edge ''5'' ''c'' ''d'') s1))"
proof -
  have "validate_request upstream_request = Inr ()" by (simp add: validate_request_def upstream_request_def sample_request_def)
  moreover obtain x s1 where "analyse sample_env ''t'' ''dev'' upstream_request None sample_store = (Inr x, s1)"
    using sample_analysis by blast
  ultimately have run: "create_impact sample_env ''t'' ''dev'' upstream_request (Some ''key'') sample_store = (Inr x, s1)"
    by (simp add: create_impact_def get_impact_evaluation_def bindp_apply sample_store_def)
  have "(lineage_call (li_digest sample_env))\<^sup>*\<^sup>* s1 (snd (add_edge ''t'' ''dev'' (sample_edge ''5'' ''c'' ''d'') s1))"
    by (intro r_into_rtranclp lineage_call.intros)
  from impact_answers_are_kept [OF run this, of sample_env "''later''"] run show ?thesis by auto
qed

end
