(* ===== verification/SchemaCompatibility.thy ===== *)
theory SchemaCompatibility
  imports SchemaChanges
begin

text \<open>
  What the classification of a schema change means. \<open>column_named\<close> is the column of a name, \<open>benign_change\<close> what a
  reader of the old version may rely on, \<open>drops\<close> what breaks one.
\<close>

definition column_named :: "schema_version \<Rightarrow> string \<Rightarrow> schema_column option" where
  "column_named v n = find (\<lambda>c. sc_name c = n) (rev (sv_columns v))"

lemma columns_by_name_get: "dget (columns_by_name v) n = column_named v n"
proof -
  have "dget (foldl (\<lambda>d c. dput (sc_name c) c d) [] cs) n = find (\<lambda>c. sc_name c = n) (rev cs)" for cs
    by (induction cs rule: rev_induct) auto
  then show ?thesis by (simp add: columns_by_name_def column_named_def)
qed

lemma name_listed: "n \<in> fst ` set (columns_by_name v) \<longleftrightarrow> column_named v n \<noteq> None"
  by (simp flip: columns_by_name_get add: dom_map_of_conv_image_fst [symmetric] domIff)

text \<open>What a reader of the old version may rely on.\<close>

definition readable :: "schema_column \<Rightarrow> schema_column \<Rightarrow> bool" where
  "readable old new \<longleftrightarrow>
     (let a = map lower_char (sc_data_type old); b = map lower_char (sc_data_type new) in a = b \<or> (a, b) \<in> set widening) \<and>
     (sc_nullable old = sc_nullable new \<or> sc_nullable new = Some True) \<and> set (sc_constraints old) = set (sc_constraints new)"

definition drops :: "schema_version \<Rightarrow> schema_version \<Rightarrow> bool" where
  "drops p c \<longleftrightarrow> sv_partition_fields p \<noteq> sv_partition_fields c \<or>
     (\<exists>n. column_named p n \<noteq> None \<and> column_named c n = None)"

definition benign_change :: "schema_version \<Rightarrow> schema_version \<Rightarrow> bool" where
  "benign_change p c \<longleftrightarrow> \<not> drops p c \<and>
     (\<forall>n old new. column_named p n = Some old \<and> column_named c n = Some new \<longrightarrow> readable old new) \<and>
     (\<forall>n new. column_named p n = None \<and> column_named c n = Some new \<longrightarrow> sc_nullable new \<noteq> Some False)"

definition grave :: "string set" where
  "grave = {''breaking'', ''potentially_breaking'', ''unknown''}"

definition same_class :: "column_outcome \<Rightarrow> column_outcome \<Rightarrow> bool \<Rightarrow> bool" where
  "same_class out out' fine \<longleftrightarrow> (\<exists>ds. co_classes out' = co_classes out @ ds \<and> ''breaking'' \<notin> set ds \<and> (set ds \<inter> grave = {} \<longleftrightarrow> fine))"

lemma compare_column_class: "same_class out (compare_column old new out) (readable old new)"
  by (auto simp: same_class_def compare_column_def Let_def readable_def type_rule_def nullability_rule_def narrowing_def widening_def grave_def)

lemma compare_columns_class:
  "''breaking'' \<notin> set (co_classes (compare_columns pairs)) \<and>
   (set (co_classes (compare_columns pairs)) \<inter> grave = {} \<longleftrightarrow> (\<forall>(old, new) \<in> set pairs. readable old new))"
proof (induction pairs rule: rev_induct)
  case Nil
  show ?case by (simp add: compare_columns_def)
next
  case (snoc pr pairs)
  obtain old new where pr: "pr = (old, new)" by (cases pr)
  have "compare_columns (pairs @ [pr]) = compare_column old new (compare_columns pairs)"
    by (simp add: compare_columns_def pr)
  with compare_column_class [of "compare_columns pairs" old new] snoc show ?case
    by (auto simp: same_class_def pr)
qed

lemma common_columns_mem:
  "(old, new) \<in> set (common_columns p c) \<longleftrightarrow> (\<exists>n. column_named p n = Some old \<and> column_named c n = Some new)"
proof -
  have "set (common_columns p c) = (\<lambda>n. (the (column_named p n), the (column_named c n))) `
      {n. column_named p n \<noteq> None \<and> column_named c n \<noteq> None}"
    unfolding common_columns_def columns_by_name_get by (simp add: name_listed conj_commute)
  then show ?thesis by (auto simp: image_iff)
qed

lemma names_gained_mem: "n \<in> set (names_gained p c) \<longleftrightarrow> column_named p n = None \<and> column_named c n \<noteq> None"
  using name_listed [of n c] by (auto simp: names_gained_def columns_by_name_get)

lemma outcome_classes:
  "set (co_classes (outcome_of p c)) = set (co_classes (compare_columns (common_columns p c))) \<union>
     (if drops p c then {''breaking''} else {}) \<union>
     (if names_gained p c = [] then {} else if all_optional c (names_gained p c) then {''additive''} else {''potentially_breaking''})"
proof -
  have "drops p c \<longleftrightarrow> sv_partition_fields p \<noteq> sv_partition_fields c \<or> names_gained c p \<noteq> []"
    using names_gained_mem [of _ c p] by (auto simp: drops_def ex_in_conv [symmetric] simp flip: set_empty)
  then show ?thesis by (auto simp: outcome_of_def Let_def)
qed

lemma classification_grave:
  "classification_of cs = ''breaking'' \<longleftrightarrow> ''breaking'' \<in> set cs"
  "classification_of cs \<in> {''additive'', ''compatible'', ''metadata_only''} \<longleftrightarrow> set cs \<inter> grave = {}"
  by (auto simp: classification_of_def class_priority_def grave_def)

lemma gained_optional:
  "all_optional c (names_gained p c) \<longleftrightarrow>
   (\<forall>n new. column_named p n = None \<and> column_named c n = Some new \<longrightarrow> sc_nullable new \<noteq> Some False)"
  unfolding all_optional_def list_all_iff Ball_def names_gained_mem columns_by_name_get by auto

text \<open>
  C22. A comparison of two versions calls a change additive, compatible or metadata only exactly when every column of
  the old version is still there with the same or a wider type, the same or a relaxed nullability and the same
  constraints, no new column is required and the partition fields are the same; it calls the change breaking, and of
  high severity, exactly when a column is gone or the partition fields differ.
\<close>

theorem schema_compatibility_exact:
  assumes "compare_schemas env p c = Inr ch"
  shows "(sh_compatibility ch \<in> {''additive'', ''compatible'', ''metadata_only''} \<longleftrightarrow> benign_change p c) \<and>
    (sh_compatibility ch = ''breaking'' \<longleftrightarrow> drops p c) \<and> (sh_severity ch = ''high'' \<longleftrightarrow> drops p c)"
proof -
  let ?cs = "co_classes (outcome_of p c)"
  have ch: "sh_compatibility ch = classification_of ?cs" "sh_severity ch = change_severity (classification_of ?cs)"
    using assms by (auto simp: compare_schemas_def Let_def split: if_splits)
  have br: "''breaking'' \<in> set ?cs \<longleftrightarrow> drops p c"
    using compare_columns_class [of "common_columns p c"] by (auto simp: outcome_classes)
  have fine: "set ?cs \<inter> grave = {} \<longleftrightarrow> benign_change p c"
    unfolding outcome_classes Int_Un_distrib2 Un_empty
    using compare_columns_class [of "common_columns p c"] gained_optional [of c p]
    by (auto simp: benign_change_def grave_def common_columns_mem all_optional_def)
  have "change_severity k = ''high'' \<longleftrightarrow> k = ''breaking''" for k by (simp add: change_severity_def)
  with br fine classification_grave [of ?cs] show ?thesis unfolding ch by simp
qed

theorem schema_compatibility_exact_witness:
  "\<exists>ch. compare_schemas \<lparr>li_digest = (\<lambda>_. ''d''), li_now = ''2026''\<rparr>
       \<lparr>sv_asset_id = ''a'', sv_observed_at = ''1'', sv_provider = ''dbt'', sv_columns =
          [\<lparr>sc_name = ''x'', sc_data_type = ''INTEGER'', sc_nullable = Some False, sc_constraints = [], sc_ordinal = None\<rparr>],
        sv_partition_fields = [], sv_evidence_refs = [], sv_confidence = 1, sv_data_status = ''available''\<rparr>
       \<lparr>sv_asset_id = ''a'', sv_observed_at = ''2'', sv_provider = ''dbt'', sv_columns =
          [\<lparr>sc_name = ''x'', sc_data_type = ''bigint'', sc_nullable = Some False, sc_constraints = [], sc_ordinal = None\<rparr>],
        sv_partition_fields = [''x''], sv_evidence_refs = [], sv_confidence = 1, sv_data_status = ''available''\<rparr> = Inr ch \<and>
     sh_severity ch = ''high''"
  (is "\<exists>ch. compare_schemas ?env ?p ?c = Inr ch \<and> _")
proof -
  obtain ch where run: "compare_schemas ?env ?p ?c = Inr ch" by (simp add: compare_schemas_def Let_def)
  moreover have "drops ?p ?c" by (simp add: drops_def)
  ultimately show ?thesis using schema_compatibility_exact [OF run] by blast
qed

end
