(* ===== verification/CollectionManager.thy ===== *)
theory CollectionManager
  imports PyValues
begin

text \<open>
  The collection manager: \<open>memory_repository.py\<close>, \<open>leases.py\<close>, \<open>service.py\<close> and \<open>idempotency.py\<close> of
  \<open>services/collection_manager\<close>, \<open>identity.py\<close> and the asset of the domain model, and the route that marks a task as
  failed. Documents are dictionaries of Python values; their identifiers are strings. The repository is the record
  \<open>coll_repo\<close>, whose buckets share one dictionary under the name of the bucket.
\<close>

section \<open>Environment\<close>

text \<open>What \<open>datetime.fromisoformat\<close> makes of a text.\<close>

datatype time_text = NotATime | Naive | Aware int

record cm_env =
  cm_digest :: "string \<Rightarrow> string"
  cm_floats :: py_floats
  cm_clock :: "nat \<Rightarrow> int"
  cm_isoformat :: "int \<Rightarrow> string"
  cm_json_time :: "int \<Rightarrow> string"
  cm_parse :: "string \<Rightarrow> time_text"

record coll_repo =
  cr_docs :: "((string \<times> string) \<times> vdict) list"
  cr_events :: "vdict list"
  cr_audit :: "vdict list"
  cr_ticks :: nat

type_synonym 'a cm = "(coll_repo, 'a) py"

definition cm_time :: "cm_env \<Rightarrow> int cm" where
  "cm_time env = (\<lambda>s. (Inr (cm_clock env (cr_ticks s)), s\<lparr>cr_ticks := Suc (cr_ticks s)\<rparr>))"

definition cm_now :: "cm_env \<Rightarrow> pvalue cm" where
  "cm_now env = bindp (cm_time env) (\<lambda>t. ret (VStr (cm_isoformat env t)))"

text \<open>\<open>{**d, **e}\<close>.\<close>

definition updated_with :: "vdict \<Rightarrow> vdict \<Rightarrow> vdict" where
  "updated_with d e = foldl (\<lambda>d (k, v). dput k v d) d e"

text \<open>\<open>d.get(k, default)\<close>.\<close>

definition vget_or :: "vdict \<Rightarrow> string \<Rightarrow> pvalue \<Rightarrow> pvalue" where
  "vget_or d k v = (case dget d k of None \<Rightarrow> v | Some w \<Rightarrow> w)"

section \<open>Identifiers\<close>

definition key_char :: "char \<Rightarrow> bool" where
  "key_char c \<longleftrightarrow> (let n = of_char c :: nat in 97 \<le> n \<and> n \<le> 122 \<or> 48 \<le> n \<and> n \<le> 57) \<or> c \<in> set ''._:-''"

text \<open>\<open>re.sub\<close>: every longest run of other characters becomes one dash.\<close>

fun dash_runs :: "bool \<Rightarrow> string \<Rightarrow> string" where
  "dash_runs gap [] = []"
| "dash_runs gap (c # cs) = (if key_char c then c # dash_runs False cs
     else if gap then dash_runs True cs else CHR ''-'' # dash_runs True cs)"

definition strip_dashes :: "string \<Rightarrow> string" where
  "strip_dashes s = rev (dropWhile (\<lambda>c. c = CHR ''-'') (rev (dropWhile (\<lambda>c. c = CHR ''-'') s)))"

definition normalize_key :: "string \<Rightarrow> string" where
  "normalize_key s = strip_dashes (dash_runs False (map lower_char (strip s)))"

fun bar_join :: "string list \<Rightarrow> string" where
  "bar_join [] = []"
| "bar_join [x] = x"
| "bar_join (x # y # ys) = x @ CHR ''|'' # bar_join (y # ys)"

definition identity_id :: "cm_env \<Rightarrow> string \<Rightarrow> pvalue list \<Rightarrow> string" where
  "identity_id env prefix parts = normalize_key prefix @ ''-'' @ take 24 (cm_digest env (bar_join
     (map (\<lambda>p. normalize_key (py_str (cm_floats env) p)) (filter (\<lambda>p. p \<noteq> VNone) parts))))"

definition task_id_for :: "cm_env \<Rightarrow> pvalue \<Rightarrow> string \<Rightarrow> string" where
  "task_id_for env policy scanner = identity_id env ''task'' [policy, VStr scanner]"

section \<open>Repository\<close>

definition bucket_names :: "string list" where
  "bucket_names = [''tenants'', ''sources'', ''integrations'', ''collectors'', ''scanners'', ''policies'', ''tasks'', ''leases'',
     ''idempotency'', ''assets'', ''schema_current'', ''freshness_current'', ''profile_current'', ''quality_current'', ''results'']"

definition empty_coll :: coll_repo where
  "empty_coll = \<lparr>cr_docs = [], cr_events = [], cr_audit = [], cr_ticks = 0\<rparr>"

definition check_bucket :: "string \<Rightarrow> unit cm" where
  "check_bucket bucket = raise_if (bucket \<notin> set bucket_names) (AttributeError bucket)"

definition doc_id :: "vdict \<Rightarrow> string cm" where
  "doc_id d = (case dget d ''id'' of
       None \<Rightarrow> raise (KeyError ''id'') | Some (VStr i) \<Rightarrow> ret i | Some _ \<Rightarrow> raise (TypeError ''identifier''))"

definition doc_version :: "vdict option \<Rightarrow> int" where
  "doc_version d = (case d of None \<Rightarrow> 0 | Some c \<Rightarrow> (case dget c ''_version'' of Some (VInt n) \<Rightarrow> n | _ \<Rightarrow> 0))"

definition cm_upsert :: "cm_env \<Rightarrow> string \<Rightarrow> vdict \<Rightarrow> pvalue \<Rightarrow> vdict cm" where
  "cm_upsert env bucket doc expected =
     seqp (check_bucket bucket)
     (bindp (doc_id doc) (\<lambda>i.
      bindp (reads (\<lambda>s. dget (cr_docs s) (bucket, i))) (\<lambda>current.
      seqp (raise_if (expected \<noteq> VNone \<and> (case current of None \<Rightarrow> True
                       | Some c \<Rightarrow> c = [] \<or> \<not> veq (vget c ''_version'') expected))
              (Conflict (''version conflict for '' @ bucket @ ''/'' @ i)))
      (bindp (cm_now env) (\<lambda>now.
       let stored = updated_with doc [(''_version'', VInt (doc_version current + 1)), (''updated_at'', now)] in
       seqp (writes (\<lambda>s. s\<lparr>cr_docs := dput (bucket, i) stored (cr_docs s)\<rparr>))
       (ret stored))))))"

text \<open>\<open>get\<close> without and with a tenant.\<close>

definition cm_get :: "string \<Rightarrow> string \<Rightarrow> string option \<Rightarrow> vdict option cm" where
  "cm_get bucket i tenant = seqp (check_bucket bucket) (reads (\<lambda>s. case dget (cr_docs s) (bucket, i) of
       None \<Rightarrow> None
     | Some d \<Rightarrow> if d \<noteq> [] \<and> (case tenant of None \<Rightarrow> True | Some t \<Rightarrow> vget d ''tenant_id'' = VStr t) then Some d else None))"

definition text_or_empty :: "pvalue \<Rightarrow> string" where
  "text_or_empty v = (case v of VStr s \<Rightarrow> s | _ \<Rightarrow> [])"

definition cm_list :: "string \<Rightarrow> string \<Rightarrow> vdict \<Rightarrow> vdict list cm" where
  "cm_list bucket tenant filters = seqp (check_bucket bucket) (reads (\<lambda>s.
     sort_key (\<lambda>d. (text_or_empty (vget d ''updated_at''), text_or_empty (vget d ''id'')))
       (filter (\<lambda>d. vget d ''tenant_id'' = VStr tenant \<and> list_all (\<lambda>(k, v). v = VNone \<or> veq (vget d k) v) filters)
         (map snd (filter (\<lambda>((b, _), _). b = bucket) (cr_docs s))))))"

definition cm_delete :: "string \<Rightarrow> string \<Rightarrow> string \<Rightarrow> pvalue \<Rightarrow> unit cm" where
  "cm_delete bucket i tenant expected =
     bindp (cm_get bucket i (Some tenant)) (\<lambda>found. case found of
       None \<Rightarrow> raise (NotFoundError (bucket @ ''/'' @ i @ '' not found''))
     | Some d \<Rightarrow>
         seqp (raise_if (expected \<noteq> VNone \<and> \<not> veq (vget d ''_version'') expected)
                 (Conflict (''version conflict for '' @ bucket @ ''/'' @ i)))
         (writes (\<lambda>s. s\<lparr>cr_docs := AList.delete (bucket, i) (cr_docs s)\<rparr>)))"

definition cm_event :: "cm_env \<Rightarrow> string \<Rightarrow> vdict \<Rightarrow> vdict cm" where
  "cm_event env event_type d = bindp (cm_now env) (\<lambda>now.
     let rec = updated_with [(''@timestamp'', now), (''event_type'', VStr event_type)] d in
     seqp (writes (\<lambda>s. s\<lparr>cr_events := cr_events s @ [rec]\<rparr>)) (ret rec))"

definition cm_audit :: "cm_env \<Rightarrow> string \<Rightarrow> string \<Rightarrow> pvalue \<Rightarrow> pvalue \<Rightarrow> vdict cm" where
  "cm_audit env action tenant correlation resource = bindp (cm_now env) (\<lambda>now.
     let rec = [(''@timestamp'', now), (''action'', VStr action), (''tenant_id'', VStr tenant),
                (''correlation_id'', correlation), (''resource_id'', resource)] in
     seqp (writes (\<lambda>s. s\<lparr>cr_audit := cr_audit s @ [rec]\<rparr>)) (ret rec))"

section \<open>Leases\<close>

definition replace_z :: "string \<Rightarrow> string" where
  "replace_z s = concat (map (\<lambda>c. if c = CHR ''Z'' then ''+00:00'' else [c]) s)"

definition lease_expired :: "cm_env \<Rightarrow> vdict \<Rightarrow> bool cm" where
  "lease_expired env task = (let exp = vget task ''lease_expires_at'' in
     if \<not> py_truthy exp then ret False
     else case exp of
       VStr s \<Rightarrow> (case cm_parse env (replace_z s) of
           NotATime \<Rightarrow> ret False
         | Naive \<Rightarrow> bindp (cm_time env) (\<lambda>_. raise (TypeError ''can't compare offset-naive and offset-aware datetimes''))
         | Aware t \<Rightarrow> bindp (cm_time env) (\<lambda>now. ret (t \<le> now)))
     | _ \<Rightarrow> raise (AttributeError ''replace''))"

definition not_claimable :: "string \<Rightarrow> py_error" where
  "not_claimable task_id = Conflict (''task '' @ task_id @ '' is not claimable'')"

definition claim_task :: "cm_env \<Rightarrow> string \<Rightarrow> string \<Rightarrow> string \<Rightarrow> int \<Rightarrow> vdict cm" where
  "claim_task env tenant scanner task_id ttl =
     bindp (cm_get ''tasks'' task_id (Some tenant)) (\<lambda>found. case found of
       None \<Rightarrow> raise (not_claimable task_id)
     | Some task \<Rightarrow>
         bindp (if vget task ''status'' \<in> {VStr ''available'', VStr ''retryable'', VStr ''expired''} then ret True
                else if vget task ''status'' \<in> {VStr ''leased'', VStr ''running''} then lease_expired env task
                else ret False) (\<lambda>claimable.
         seqp (raise_if (\<not> claimable) (not_claimable task_id))
         (bindp (cm_time env) (\<lambda>now.
          cm_upsert env ''tasks'' (updated_with task [(''scanner_id'', VStr scanner), (''status'', VStr ''leased''),
            (''lease_owner'', VStr scanner), (''lease_expires_at'', VStr (cm_isoformat env (now + ttl * 1000000)))])
            (vget task ''_version'')))))"

definition renew_task :: "cm_env \<Rightarrow> string \<Rightarrow> string \<Rightarrow> string \<Rightarrow> int \<Rightarrow> vdict cm" where
  "renew_task env tenant scanner task_id ttl =
     bindp (cm_get ''tasks'' task_id (Some tenant)) (\<lambda>found. case found of
       None \<Rightarrow> raise (Conflict (''task '' @ task_id @ '' lease is not owned by '' @ scanner))
     | Some task \<Rightarrow>
         bindp (if vget task ''lease_owner'' \<noteq> VStr scanner then ret True else lease_expired env task) (\<lambda>lost.
         seqp (raise_if lost (Conflict (''task '' @ task_id @ '' lease is not owned by '' @ scanner)))
         (bindp (cm_time env) (\<lambda>now.
          bindp (cm_now env) (\<lambda>updated.
          cm_upsert env ''tasks'' (updated_with task
            [(''lease_expires_at'', VStr (cm_isoformat env (now + ttl * 1000000))), (''updated_at'', updated)])
            (vget task ''_version''))))))"

section \<open>Service\<close>

definition secret_keys :: "string list" where
  "secret_keys = [''password'', ''secret'', ''token'', ''api_key'', ''private_key'']"

fun redact :: "vdict \<Rightarrow> vdict" where
  "redact [] = []"
| "redact ((k, v) # rest) =
     (if map lower_char k \<in> set secret_keys then redact rest
      else (k, case v of VDict d \<Rightarrow> VDict (redact d) | _ \<Rightarrow> v) # redact rest)"

definition register :: "cm_env \<Rightarrow> string \<Rightarrow> string \<Rightarrow> vdict \<Rightarrow> string \<Rightarrow> vdict cm" where
  "register env bucket tenant payload prefix =
     bindp (cm_now env) (\<lambda>updated.
     bindp (if py_truthy (vget payload ''created_at'') then ret (vget payload ''created_at'') else cm_now env) (\<lambda>created.
     let name = vor (vget payload ''name'') (vor (vget payload (prefix @ ''_identity''))
           (vor (vget payload (prefix @ ''_type'')) (vget payload ''source_id'')));
         i = vor (vget payload ''id'') (VStr (identity_id env prefix
           [VStr tenant, vget_or payload ''environment'' (VStr ''default''), name]));
         doc = updated_with (redact payload) [(''tenant_id'', VStr tenant), (''id'', i), (''updated_at'', updated),
           (''created_at'', created), (''schema_version'', VStr ''v1'')]
     in bindp (cm_upsert env bucket doc VNone) (\<lambda>_.
        bindp (cm_audit env (prefix @ ''.upsert'') tenant (vget doc ''correlation_id'') i) (\<lambda>_. ret doc))))"

definition heartbeat :: "cm_env \<Rightarrow> string \<Rightarrow> string \<Rightarrow> string \<Rightarrow> vdict \<Rightarrow> vdict cm" where
  "heartbeat env bucket tenant i payload =
     bindp (cm_get bucket i None) (\<lambda>found. case found of
       None \<Rightarrow> raise (KeyError i)
     | Some d \<Rightarrow>
         seqp (raise_if (vget d ''tenant_id'' \<noteq> VStr tenant) (KeyError i))
         (bindp (cm_now env) (\<lambda>beat.
          bindp (cm_now env) (\<lambda>updated.
          let doc = updated_with d [(''health'', vget_or payload ''health'' (VStr ''healthy'')), (''last_heartbeat'', beat),
                (''updated_at'', updated)]
          in bindp (cm_upsert env bucket doc VNone) (\<lambda>_.
             bindp (cm_event env (bucket @ ''.heartbeat'')
               (updated_with [(''tenant_id'', VStr tenant), (''id'', VStr i)] (redact payload))) (\<lambda>_. ret doc))))))"

definition create_policy :: "cm_env \<Rightarrow> string \<Rightarrow> vdict \<Rightarrow> vdict cm" where
  "create_policy env tenant payload = register env ''policies'' tenant payload ''scan_policy''"

text \<open>The task of a policy, created where there is none.\<close>

definition policy_task :: "cm_env \<Rightarrow> string \<Rightarrow> string \<Rightarrow> vdict \<Rightarrow> vdict cm" where
  "policy_task env tenant scanner p = (case dget p ''id'' of
       None \<Rightarrow> raise (KeyError ''id'')
     | Some pid \<Rightarrow> (let tid = task_id_for env pid scanner in
         bindp (cm_get ''tasks'' tid (Some tenant)) (\<lambda>found. case found of
           Some task \<Rightarrow> ret task
         | None \<Rightarrow> cm_upsert env ''tasks'' [(''id'', VStr tid), (''task_id'', VStr tid), (''tenant_id'', VStr tenant),
             (''scanner_id'', VStr scanner), (''policy_id'', pid), (''source_id'', vget p ''source_id''), (''lease_version'', VInt 1),
             (''status'', VStr ''available''), (''operation'', vget p ''operation'')] VNone)))"

fun policy_tasks :: "cm_env \<Rightarrow> string \<Rightarrow> string \<Rightarrow> vdict list \<Rightarrow> vdict list cm" where
  "policy_tasks env tenant scanner [] = ret []"
| "policy_tasks env tenant scanner (p # ps) =
     (if py_truthy (vget_or p ''enabled'' (VBool True))
      then bindp (policy_task env tenant scanner p) (\<lambda>task.
           bindp (policy_tasks env tenant scanner ps) (\<lambda>tasks. ret (task # tasks)))
      else policy_tasks env tenant scanner ps)"

definition tasks_for_scanner :: "cm_env \<Rightarrow> string \<Rightarrow> string \<Rightarrow> vdict list cm" where
  "tasks_for_scanner env tenant scanner =
     bindp (cm_get ''scanners'' scanner None) (\<lambda>found. case found of
       None \<Rightarrow> raise (KeyError scanner)
     | Some d \<Rightarrow>
         seqp (raise_if (vget d ''tenant_id'' \<noteq> VStr tenant) (KeyError scanner))
         (bindp (cm_list ''policies'' tenant []) (policy_tasks env tenant scanner)))"

text \<open>The task of a scanner, as \<open>ack_task\<close> and \<open>submit_result\<close> look it up.\<close>

definition held_task :: "string \<Rightarrow> string \<Rightarrow> string \<Rightarrow> vdict cm" where
  "held_task tenant scanner task_id =
     bindp (cm_get ''tasks'' task_id (Some tenant)) (\<lambda>found. case found of
       None \<Rightarrow> raise (KeyError task_id)
     | Some task \<Rightarrow> (case dget task ''scanner_id'' of
         None \<Rightarrow> raise (KeyError ''scanner_id'')
       | Some v \<Rightarrow> if v \<noteq> VStr scanner then raise (KeyError task_id) else ret task))"

definition ack_task :: "cm_env \<Rightarrow> string \<Rightarrow> string \<Rightarrow> string \<Rightarrow> vdict cm" where
  "ack_task env tenant scanner task_id =
     bindp (held_task tenant scanner task_id) (\<lambda>task.
     bindp (if py_truthy (vget task ''acked_at'') then ret (vget task ''acked_at'') else cm_now env) (\<lambda>acked.
     cm_upsert env ''tasks'' (updated_with task [(''status'', VStr ''acknowledged''), (''acked_at'', acked)])
       (vget task ''_version'')))"

text \<open>The route \<open>scanner_task_fail\<close>.\<close>

definition fail_task :: "cm_env \<Rightarrow> string \<Rightarrow> string \<Rightarrow> vdict \<Rightarrow> vdict cm" where
  "fail_task env tenant task_id payload =
     bindp (cm_get ''tasks'' task_id (Some tenant)) (\<lambda>found. case found of
       None \<Rightarrow> raise (HTTPException 404 (''Task '' @ CHR 0x27 # task_id @ CHR 0x27 # '' not found''))
     | Some task \<Rightarrow>
         cm_upsert env ''tasks'' (updated_with task [(''status'', VStr ''failed''), (''error'', VDict payload)]) VNone)"

section \<open>Results\<close>

text \<open>\<open>json.dumps(v, sort_keys=True)\<close> with the separators of the default.\<close>

fun spaced_join :: "string list \<Rightarrow> string" where
  "spaced_join [] = []"
| "spaced_join [x] = x"
| "spaced_join (x # y # ys) = x @ '', '' @ spaced_join (y # ys)"

fun json_text :: "py_floats \<Rightarrow> pvalue \<Rightarrow> string" where
  "json_text pf VNone = ''null''"
| "json_text pf (VBool b) = (if b then ''true'' else ''false'')"
| "json_text pf (VInt i) = int_str i"
| "json_text pf (VFloat r) = pf_repr pf r"
| "json_text pf (VStr s) = quote s"
| "json_text pf (VList vs) = CHR ''['' # spaced_join (map (json_text pf) vs) @ '']''"
| "json_text pf (VDict kvs) = CHR ''{'' # spaced_join (map (\<lambda>(k, t). quote k @ '': '' @ t)
     (sort_key fst (map (\<lambda>(k, v). (k, json_text pf v)) kvs))) @ ''}''"

text \<open>\<open>Asset.build(...).model_dump(mode='json')\<close>; the fields that have to be texts are checked.\<close>

definition asset_document :: "cm_env \<Rightarrow> vdict \<Rightarrow> int \<Rightarrow> int \<Rightarrow> int \<Rightarrow> (py_error + vdict)" where
  "asset_document env f created updated observed =
     (let get = vget f in
      if \<not> (list_all (\<lambda>k. string_field (get k) \<noteq> None) [''environment'', ''namespace'', ''fully_qualified_name'', ''asset_type''] \<and>
            list_all (\<lambda>k. opt_string_field (get k) \<noteq> None) [''source_id'', ''owner_team'', ''business_service''])
      then Inl ValidationError
      else Inr [(''id'', VStr (identity_id env ''asset'' [get ''tenant_id'', get ''environment'', get ''source_id'', get ''namespace'',
               get ''fully_qualified_name'', get ''asset_type''])),
            (''tenant_id'', get ''tenant_id''), (''environment'', get ''environment''), (''schema_version'', VStr ''v1''),
            (''created_at'', VStr (cm_json_time env created)), (''updated_at'', VStr (cm_json_time env updated)),
            (''source_id'', get ''source_id''), (''integration_id'', VNone), (''owner_team'', get ''owner_team''),
            (''business_service'', get ''business_service''), (''pillar'', VStr ''data''), (''status'', VStr ''active''),
            (''labels'', VDict []), (''annotations'', VDict []), (''correlation_id'', VNone),
            (''fully_qualified_name'', get ''fully_qualified_name''), (''namespace'', get ''namespace''),
            (''asset_type'', get ''asset_type''), (''owner'', VNone), (''classification'', VNone), (''tags'', VList []),
            (''schema_fingerprint'', get ''schema_fingerprint''), (''freshness_state'', VNone), (''quality_state'', VNone),
            (''lifecycle_state'', VStr ''active''), (''last_observed'', VStr (cm_json_time env observed))])"

definition qualified_name :: "vdict \<Rightarrow> pvalue cm" where
  "qualified_name payload =
     (if py_truthy (vget payload ''fully_qualified_name'') then ret (vget payload ''fully_qualified_name'')
      else case vget_or payload ''asset'' (VDict []) of
        VDict a \<Rightarrow> ret (vor (vget a ''fully_qualified_name'') (vget payload ''name''))
      | _ \<Rightarrow> raise (AttributeError ''get''))"

definition result_key :: "cm_env \<Rightarrow> string \<Rightarrow> string \<Rightarrow> string \<Rightarrow> vdict \<Rightarrow> string option \<Rightarrow> string" where
  "result_key env tenant scanner task_id payload idem = (case idem of
       Some k \<Rightarrow> if k \<noteq> [] then k else identity_id env ''result''
         [VStr tenant, VStr scanner, VStr task_id, VStr (json_text (cm_floats env) (VDict payload))]
     | None \<Rightarrow> identity_id env ''result''
         [VStr tenant, VStr scanner, VStr task_id, VStr (json_text (cm_floats env) (VDict payload))])"

definition new_asset :: "cm_env \<Rightarrow> string \<Rightarrow> vdict \<Rightarrow> vdict \<Rightarrow> vdict cm" where
  "new_asset env tenant task payload =
     bindp (qualified_name payload) (\<lambda>fqn.
     bindp (cm_time env) (\<lambda>observed. bindp (cm_time env) (\<lambda>created. bindp (cm_time env) (\<lambda>updated.
       case asset_document env
         [(''tenant_id'', VStr tenant), (''environment'', vget_or payload ''environment'' (VStr ''default'')),
          (''namespace'', vget_or payload ''namespace'' (VStr ''default'')), (''fully_qualified_name'', fqn),
          (''asset_type'', vget_or payload ''asset_type'' (VStr ''table'')),
          (''source_id'', vor (vget task ''source_id'') (vget payload ''source_id'')), (''owner_team'', vget payload ''owner_team''),
          (''business_service'', vget payload ''business_service''),
          (''schema_fingerprint'', VStr (cm_digest env (json_text (cm_floats env) (vget_or payload ''schema'' (VDict payload)))))]
         created updated observed of Inl e \<Rightarrow> raise e | Inr a \<Rightarrow> ret a))))"

text \<open>A result under a new key.\<close>

definition accept_result :: "cm_env \<Rightarrow> string \<Rightarrow> string \<Rightarrow> vdict \<Rightarrow> string \<Rightarrow> vdict \<Rightarrow> pvalue cm" where
  "accept_result env tenant task_id payload key task =
     bindp (new_asset env tenant task payload) (\<lambda>asset.
     bindp (cm_event env ''schema_snapshot'' [(''tenant_id'', VStr tenant), (''task_id'', VStr task_id),
         (''source_id'', vor (vget task ''source_id'') (vget payload ''source_id'')), (''asset_id'', vget asset ''id''),
         (''schema_fingerprint'', vget asset ''schema_fingerprint''), (''payload'', VDict (redact payload))]) (\<lambda>_.
     bindp (cm_upsert env ''assets'' asset VNone) (\<lambda>_.
     bindp (cm_audit env ''scanner.result'' tenant (vget payload ''correlation_id'') (vget asset ''id'')) (\<lambda>_.
     let response = VDict [(''status'', VStr ''accepted''), (''idempotency_key'', VStr key), (''asset_id'', vget asset ''id''),
           (''asset'', VDict asset)]
     in bindp (cm_upsert env ''idempotency'' [(''id'', VStr key), (''tenant_id'', VStr tenant), (''response'', response)] VNone)
          (\<lambda>_. ret response)))))"

definition submit_result ::
  "cm_env \<Rightarrow> string \<Rightarrow> string \<Rightarrow> string \<Rightarrow> vdict \<Rightarrow> string option \<Rightarrow> pvalue cm" where
  "submit_result env tenant scanner task_id payload idem =
     bindp (held_task tenant scanner task_id) (\<lambda>task.
     let key = result_key env tenant scanner task_id payload idem in
     bindp (cm_get ''idempotency'' key (Some tenant)) (\<lambda>existing. case existing of
       Some d \<Rightarrow> ret (vget d ''response'')
     | None \<Rightarrow> accept_result env tenant task_id payload key task))"

text \<open>\<open>record_once\<close>.\<close>

definition record_once :: "cm_env \<Rightarrow> string \<Rightarrow> string \<Rightarrow> pvalue \<Rightarrow> pvalue cm" where
  "record_once env tenant key response =
     bindp (cm_get ''idempotency'' key (Some tenant)) (\<lambda>existing. case existing of
       Some d \<Rightarrow> ret (vget d ''response'')
     | None \<Rightarrow> trycatch
         (bindp (cm_upsert env ''idempotency'' [(''id'', VStr key), (''tenant_id'', VStr tenant), (''response'', response)] VNone)
            (\<lambda>_. ret response))
         (\<lambda>e. case e of
            Conflict _ \<Rightarrow> bindp (cm_get ''idempotency'' key (Some tenant)) (\<lambda>d. case d of
                None \<Rightarrow> raise (AttributeError ''get'') | Some d \<Rightarrow> ret (vget d ''response''))
          | _ \<Rightarrow> raise e))"

end
