(* ===== verification/CollectionProperties.thy ===== *)
theory CollectionProperties
  imports CollectionManager
begin

text \<open>
  What the collection manager promises, and where it does not.

  \<^item> \<open>same_docs\<close>: the calls that only read documents. \<open>upsert_run\<close>: the one write there is.
  \<^item> \<open>keeps_lease\<close>, \<open>keeps_filed\<close>, \<open>keeps_answer\<close>: a leased task stays with its scanner, documents stay under their
    identifiers, responses stay, through whole calls by the rules of \<open>step_order\<close>.
  \<^item> \<open>collection_call\<close>: the calls of one tenant, in which a claim may be restricted to some scanners;
    \<open>shared_call\<close>: the calls of all tenants that leave a document with its tenant. Documents are stored by their
    identifier alone, so a call of another tenant can take one over: \<open>foreign_or_kept\<close> shows by which calls.
\<close>

section \<open>Documents\<close>

lemma updated_with_get: "dget (updated_with d e) k = (case dget (rev e) k of Some v \<Rightarrow> Some v | None \<Rightarrow> dget d k)"
proof (induction e arbitrary: d rule: rev_induct)
  case (snoc kv e)
  then show ?case by (cases kv) (auto simp: updated_with_def)
qed (simp add: updated_with_def)

lemma vget_updated: "vget (updated_with d e) k = (case dget (rev e) k of Some v \<Rightarrow> v | None \<Rightarrow> vget d k)"
  by (simp add: vget_def updated_with_get split: option.split)

lemma updated_nonempty [simp]: "updated_with d (kv # e) \<noteq> []"
proof
  assume "updated_with d (kv # e) = []"
  then have "dget (updated_with d (kv # e)) (fst kv) = None" by simp
  moreover have "fst kv \<in> fst ` set (rev (kv # e))" by simp
  then have "dget (rev (kv # e)) (fst kv) \<noteq> None" by (simp only: map_of_eq_None_iff) simp
  ultimately show False by (auto simp: updated_with_get split: option.splits)
qed

section \<open>Calls that only read documents\<close>

definition same_docs :: "coll_repo \<Rightarrow> coll_repo \<Rightarrow> bool" where
  "same_docs s s' \<longleftrightarrow> cr_docs s' = cr_docs s"

interpretation reading: step_order same_docs
  by unfold_locales (simp_all add: same_docs_def)

lemma time_reads [evolve_rules]: "evolves same_docs (cm_time env)"
  by (simp add: evolves_def cm_time_def same_docs_def)

lemma now_reads [evolve_rules]: "evolves same_docs (cm_now env)"
  unfolding cm_now_def by (intro evolve_rules)

lemma get_reads [evolve_rules]: "evolves same_docs (cm_get bucket i tenant)"
  unfolding cm_get_def check_bucket_def by (intro evolve_rules)

lemma list_reads [evolve_rules]: "evolves same_docs (cm_list bucket tenant filters)"
  unfolding cm_list_def check_bucket_def by (intro evolve_rules)

lemma event_reads [evolve_rules]: "evolves same_docs (cm_event env typ d)"
  unfolding cm_event_def Let_def by (intro evolve_rules evolves_writes) (simp add: same_docs_def)

lemma audit_reads [evolve_rules]: "evolves same_docs (cm_audit env action tenant c r)"
  unfolding cm_audit_def Let_def by (intro evolve_rules evolves_writes) (simp add: same_docs_def)

lemma expired_reads [evolve_rules]: "evolves same_docs (lease_expired env task)"
  unfolding lease_expired_def Let_def
  by (auto intro!: evolve_rules split: pvalue.split time_text.split)

lemma held_reads [evolve_rules]: "evolves same_docs (held_task tenant scanner task_id)"
  unfolding held_task_def by (intro evolve_rules)

lemma asset_reads [evolve_rules]: "evolves same_docs (new_asset env tenant task payload)"
  unfolding new_asset_def qualified_name_def by (auto intro!: evolve_rules split: pvalue.split)

section \<open>Writes\<close>

lemma get_run:
  assumes "cm_get bucket i tenant s = (Inr found, s')"
  shows "s' = s"
  using assms by (auto simp: cm_get_def check_bucket_def seqp_apply split: if_splits)

lemma get_some:
  assumes "cm_get bucket i tenant s = (Inr (Some d), s')"
  shows "dget (cr_docs s) (bucket, i) = Some d" and "tenant = Some t \<Longrightarrow> vget d ''tenant_id'' = VStr t"
  using assms by (auto simp: cm_get_def check_bucket_def seqp_apply split: option.splits if_splits)

lemma get_none:
  assumes "cm_get bucket i tenant s = (Inr None, s')" and "dget (cr_docs s) (bucket, i) = Some d" and "d \<noteq> []"
  shows "\<exists>t. tenant = Some t \<and> vget d ''tenant_id'' \<noteq> VStr t"
  using assms by (auto simp: cm_get_def check_bucket_def seqp_apply split: option.splits if_splits)

text \<open>What a document written under an identifier looks like.\<close>

lemma upsert_run:
  assumes "cm_upsert env bucket doc expected s = (r, s')"
  obtains (refused) e where "r = Inl e" "cr_docs s' = cr_docs s"
  | (stored) i n now where "dget doc ''id'' = Some (VStr i)" "cr_docs s' = dput (bucket, i)
        (updated_with doc [(''_version'', n), (''updated_at'', now)]) (cr_docs s)"
      "r = Inr (updated_with doc [(''_version'', n), (''updated_at'', now)])" "bucket \<in> set bucket_names"
  using assms unfolding cm_upsert_def doc_id_def
  by (auto simp: check_bucket_def seqp_apply bindp_apply cm_now_def cm_time_def Let_def
      split: option.splits pvalue.splits if_splits)

text \<open>Every document is stored under its identifier.\<close>

definition filed_docs :: "coll_repo \<Rightarrow> bool" where
  "filed_docs s \<longleftrightarrow> (\<forall>b i d. dget (cr_docs s) (b, i) = Some d \<longrightarrow> dget d ''id'' = Some (VStr i))"

lemma filed_nonempty: "filed_docs s \<Longrightarrow> dget (cr_docs s) (b, i) = Some d \<Longrightarrow> d \<noteq> []"
  by (force simp: filed_docs_def)

text \<open>The task \<open>i\<close> of tenant \<open>t\<close> is leased by the scanner \<open>b\<close>, and stays so.\<close>

definition leased_doc :: "string \<Rightarrow> string \<Rightarrow> vdict \<Rightarrow> bool" where
  "leased_doc t b d \<longleftrightarrow> vget d ''tenant_id'' = VStr t \<and> vget d ''scanner_id'' = VStr b \<and> vget d ''lease_owner'' = VStr b"

definition leased :: "string \<Rightarrow> string \<Rightarrow> string \<Rightarrow> coll_repo \<Rightarrow> bool" where
  "leased t i b s \<longleftrightarrow> (\<exists>d. dget (cr_docs s) (''tasks'', i) = Some d \<and> leased_doc t b d)"

definition keeps_lease :: "string \<Rightarrow> string \<Rightarrow> string \<Rightarrow> coll_repo \<Rightarrow> coll_repo \<Rightarrow> bool" where
  "keeps_lease t i b s s' \<longleftrightarrow> (filed_docs s \<longrightarrow> filed_docs s' \<and> (leased t i b s \<longrightarrow> leased t i b s'))"

interpretation lease: step_order "keeps_lease t i b" for t i b
  by unfold_locales (auto simp: keeps_lease_def)

lemma reading_keeps: "evolves same_docs m \<Longrightarrow> evolves (keeps_lease t i b) m"
  by (erule evolves_mono) (auto simp: keeps_lease_def same_docs_def filed_docs_def leased_def)

lemma reading_keeps_at: "evolves same_docs m \<Longrightarrow> keeps_lease t i b s (snd (m s))"
  by (rule evolves_snd [OF reading_keeps])

lemma upsert_keeps:
  assumes "filed_docs s \<Longrightarrow> leased t i b s \<Longrightarrow> bucket = ''tasks'' \<Longrightarrow> dget doc ''id'' = Some (VStr i) \<Longrightarrow> leased_doc t b doc"
  shows "keeps_lease t i b s (snd (cm_upsert env bucket doc expected s))"
proof -
  obtain r s' where run: "cm_upsert env bucket doc expected s = (r, s')" by fastforce
  then show ?thesis
  proof (cases rule: upsert_run)
    case (refused e)
    with run show ?thesis by (simp add: keeps_lease_def filed_docs_def leased_def)
  next
    case (stored j n now)
    with run assms show ?thesis
      by (auto simp: keeps_lease_def filed_docs_def leased_def updated_with_get leased_doc_def vget_updated)
  qed
qed

lemma upsert_other_keeps [evolve_rules]:
  "bucket \<noteq> ''tasks'' \<Longrightarrow> evolves (keeps_lease t i b) (cm_upsert env bucket doc expected)"
  by (rule evolvesI) (rule upsert_keeps, simp)

text \<open>A task that is written back after it was read, with changes in \<open>e\<close>.\<close>

lemma rewrite_keeps:
  assumes "dget (cr_docs s) (''tasks'', j) = Some task" and "dget (rev e) ''id'' = None" and "dget (rev e) ''tenant_id'' = None"
    and "j = i \<Longrightarrow> leased_doc t b task \<Longrightarrow> leased_doc t b (updated_with task e)"
  shows "keeps_lease t i b s (snd (cm_upsert env ''tasks'' (updated_with task e) expected s))"
proof (rule upsert_keeps)
  assume "filed_docs s" and "leased t i b s" and id: "dget (updated_with task e) ''id'' = Some (VStr i)"
  from \<open>filed_docs s\<close> assms(1) have "dget task ''id'' = Some (VStr j)" by (simp add: filed_docs_def)
  with id assms(2) have "j = i" by (simp add: updated_with_get)
  with \<open>leased t i b s\<close> assms(1,4) show "leased_doc t b (updated_with task e)" by (auto simp: leased_def)
qed

lemma read_then:
  assumes "evolves same_docs m" and "dget (cr_docs s) k = Some task"
    and "\<And>x s'. m s = (Inr x, s') \<Longrightarrow> dget (cr_docs s') k = Some task \<Longrightarrow> keeps_lease t i b s' (snd (f x s'))"
  shows "keeps_lease t i b s (snd (bindp m f s))"
proof (rule lease.at_bindp [OF reading_keeps_at [OF assms(1)]])
  fix x s'
  assume run: "m s = (Inr x, s')"
  with assms(1) have "cr_docs s' = cr_docs s" by (auto dest: evolvesD simp: same_docs_def)
  with assms(2) run show "keeps_lease t i b s' (snd (f x s'))" by (intro assms(3)) simp_all
qed

lemma get_then:
  assumes "\<And>s'. keeps_lease t i b s' (snd (f None s'))"
    and "\<And>task. dget (cr_docs s) (bucket, j) = Some task \<Longrightarrow> keeps_lease t i b s (snd (f (Some task) s))"
  shows "keeps_lease t i b s (snd (bindp (cm_get bucket j tenant) f s))"
proof (rule lease.at_bindp [OF reading_keeps_at [OF get_reads]])
  fix found s'
  assume run: "cm_get bucket j tenant s = (Inr found, s')"
  show "keeps_lease t i b s' (snd (f found s'))"
    using assms(1) assms(2) get_run [OF run] run get_some(1) by (cases found) auto
qed

lemma raise_keeps: "keeps_lease t i b s (snd (raise e s))"
  by (simp add: lease.step_refl)

lemma ack_keeps: "keeps_lease t i b s (snd (ack_task env t' c j s))"
  unfolding ack_task_def held_task_def bindp_assoc
proof (rule get_then)
  fix task
  assume task: "dget (cr_docs s) (''tasks'', j) = Some task"
  show "keeps_lease t i b s (snd (bindp (case Some task of None \<Rightarrow> raise (KeyError j)
      | Some task \<Rightarrow> (case dget task ''scanner_id'' of None \<Rightarrow> raise (KeyError ''scanner_id'')
         | Some v \<Rightarrow> if v \<noteq> VStr c then raise (KeyError j) else ret task))
      (\<lambda>task. bindp (if py_truthy (vget task ''acked_at'') then ret (vget task ''acked_at'') else cm_now env)
        (\<lambda>acked. cm_upsert env ''tasks'' (updated_with task [(''status'', VStr ''acknowledged''), (''acked_at'', acked)])
          (vget task ''_version''))) s))"
    using task by (auto simp: lease.step_refl leased_doc_def vget_updated split: option.split
      intro!: read_then [where k = "(''tasks'', j)"] evolve_rules rewrite_keeps)
qed (simp add: lease.step_refl)

lemma fail_keeps: "keeps_lease t i b s (snd (fail_task env t' j payload s))"
  unfolding fail_task_def
  by (rule get_then) (auto simp: lease.step_refl leased_doc_def vget_updated intro!: rewrite_keeps)

lemma seqp_raise_if: "seqp (raise_if p e) m = (if p then raise e else m)"
  by (rule ext) (simp add: seqp_apply)

lemma renew_keeps: "keeps_lease t i b s (snd (renew_task env t' c j ttl s))"
  unfolding renew_task_def seqp_raise_if
  by (rule get_then) (auto simp: lease.step_refl leased_doc_def vget_updated
      intro!: read_then [where k = "(''tasks'', j)"] evolve_rules rewrite_keeps)

text \<open>A call whose only write is its last step leaves the documents alone when it raises.\<close>

definition clean :: "'a cm \<Rightarrow> bool" where
  "clean m \<longleftrightarrow> (\<forall>s e s'. m s = (Inl e, s') \<longrightarrow> cr_docs s' = cr_docs s)"

lemma clean_reading: "evolves same_docs m \<Longrightarrow> clean m"
  by (auto simp: clean_def same_docs_def dest: evolvesD)

lemma clean_bindp:
  assumes "evolves same_docs m" and "\<And>x. clean (f x)"
  shows "clean (bindp m f)"
  unfolding clean_def
proof (intro allI impI)
  fix s e s'
  assume run: "bindp m f s = (Inl e, s')"
  obtain r s1 where m: "m s = (r, s1)" by fastforce
  with assms(1) have "cr_docs s1 = cr_docs s" by (auto simp: same_docs_def dest: evolvesD)
  with run m assms(2) show "cr_docs s' = cr_docs s" by (cases r) (auto simp: bindp_apply clean_def)
qed

lemma clean_upsert: "clean (cm_upsert env bucket doc expected)"
  unfolding clean_def by (auto elim: upsert_run)

lemma clean_raise: "clean (Pair (Inl e))"
  by (simp add: clean_def)

lemma clean_claim: "clean (claim_task env t c j ttl)"
  unfolding claim_task_def seqp_raise_if
  by (auto intro!: clean_bindp clean_upsert clean_raise clean_reading [OF reading.evolves_raise] evolve_rules split: option.split)

lemma claim_keeps:
  assumes "j = i \<Longrightarrow> c = b \<or> isl (fst (claim_task env t' c j ttl s))"
  shows "keeps_lease t i b s (snd (claim_task env t' c j ttl s))"
proof (cases "isl (fst (claim_task env t' c j ttl s))")
  case True
  then obtain e s' where "claim_task env t' c j ttl s = (Inl e, s')" by (cases "claim_task env t' c j ttl s") (auto simp: isl_def)
  then show ?thesis using clean_claim [of env t' c j ttl]
    by (simp add: clean_def keeps_lease_def filed_docs_def leased_def)
next
  case False
  with assms have "j = i \<Longrightarrow> c = b" by blast
  then show ?thesis
    unfolding claim_task_def seqp_raise_if
    by (intro get_then) (auto simp: lease.step_refl leased_doc_def vget_updated
        intro!: read_then [where k = "(''tasks'', j)"] evolve_rules rewrite_keeps)
qed

lemmas reading_lease [evolve_rules] = reading_keeps [OF time_reads] reading_keeps [OF now_reads] reading_keeps [OF get_reads]
  reading_keeps [OF list_reads] reading_keeps [OF event_reads] reading_keeps [OF audit_reads] reading_keeps [OF held_reads]
  reading_keeps [OF asset_reads]

lemma policy_task_keeps: "evolves (keeps_lease t i b) (policy_task env t c p)"
proof (cases "dget p ''id''")
  case (Some pid)
  let ?tid = "task_id_for env pid c"
  show ?thesis
  proof (rule evolvesI)
    fix s
    show "keeps_lease t i b s (snd (policy_task env t c p s))"
    proof (cases "cm_get ''tasks'' ?tid (Some t) s")
      case (Pair r s1)
      show ?thesis
      proof (cases r)
        case (Inl e)
        with Pair Some show ?thesis
          using reading_keeps_at [OF get_reads, of t i b s "''tasks''" ?tid "Some t"]
          by (simp add: policy_task_def Let_def bindp_apply)
      next
        case (Inr found)
        from Pair Inr have run: "cm_get ''tasks'' ?tid (Some t) s = (Inr found, s1)" by simp
        then have s1: "s1 = s" by (rule get_run)
        show ?thesis
        proof (cases found)
          case None
          have "\<not> (filed_docs s \<and> leased t i b s \<and> ?tid = i)"
            using get_none [OF run [unfolded None]] filed_nonempty by (fastforce simp: leased_def leased_doc_def)
          then show ?thesis using Some run None s1
            by (auto simp: policy_task_def Let_def bindp_apply intro!: upsert_keeps)
        next
          case (Some task)
          with \<open>dget p ''id'' = Some pid\<close> run s1 show ?thesis
            by (simp add: policy_task_def Let_def bindp_apply lease.step_refl)
        qed
      qed
    qed
  qed
qed (simp add: policy_task_def lease.evolves_raise)

lemma policy_tasks_keep: "evolves (keeps_lease t i b) (policy_tasks env t c ps)"
proof (induction ps)
  case Nil
  show ?case unfolding policy_tasks.simps by (rule lease.evolves_ret)
next
  case (Cons p ps)
  then show ?case unfolding policy_tasks.simps by (intro evolve_rules policy_task_keeps)
qed

lemma tasks_for_scanner_keeps: "evolves (keeps_lease t i b) (tasks_for_scanner env t c)"
  unfolding tasks_for_scanner_def by (auto intro!: evolve_rules policy_tasks_keep split: option.split)

lemma register_keeps: "bucket \<noteq> ''tasks'' \<Longrightarrow> evolves (keeps_lease t i b) (register env bucket t' payload prefix)"
  unfolding register_def Let_def by (auto intro!: evolve_rules)

lemma heartbeat_keeps: "bucket \<noteq> ''tasks'' \<Longrightarrow> evolves (keeps_lease t i b) (heartbeat env bucket t' j payload)"
  unfolding heartbeat_def Let_def by (auto intro!: evolve_rules split: option.split)

lemma submit_keeps: "evolves (keeps_lease t i b) (submit_result env t' c j payload idem)"
  unfolding submit_result_def accept_result_def Let_def by (auto intro!: evolve_rules split: option.split)


section \<open>Runs of one tenant\<close>

text \<open>
  A call of the API of tenant \<open>t\<close>, at any time and with any arguments. \<open>P j c\<close> says that the scanner \<open>c\<close> may claim the
  task \<open>j\<close>; a claim that is refused is always a call.
\<close>

inductive collection_call :: "string \<Rightarrow> (string \<Rightarrow> string \<Rightarrow> bool) \<Rightarrow> coll_repo \<Rightarrow> coll_repo \<Rightarrow> bool" for t P where
  registration: "bucket \<in> {''integrations'', ''collectors'', ''scanners'', ''policies''} \<Longrightarrow>
    collection_call t P s (snd (register env bucket t payload prefix s))"
| beat: "bucket \<in> {''collectors'', ''scanners''} \<Longrightarrow> collection_call t P s (snd (heartbeat env bucket t j payload s))"
| polling: "collection_call t P s (snd (tasks_for_scanner env t c s))"
| claiming: "P j c \<or> isl (fst (claim_task env t c j ttl s)) \<Longrightarrow> collection_call t P s (snd (claim_task env t c j ttl s))"
| renewal: "collection_call t P s (snd (renew_task env t c j ttl s))"
| acknowledgement: "collection_call t P s (snd (ack_task env t c j s))"
| failure: "collection_call t P s (snd (fail_task env t j payload s))"
| submission: "collection_call t P s (snd (submit_result env t c j payload idem s))"

lemma call_keeps_lease:
  assumes "collection_call t (\<lambda>j c. j = i \<longrightarrow> c = b) s s'"
  shows "keeps_lease t i b s s'"
  using assms
proof (induction rule: collection_call.induct)
  case (registration bucket s env payload prefix)
  then show ?case by (intro evolves_snd [OF register_keeps]) auto
next
  case (beat bucket s env j payload)
  then show ?case by (intro evolves_snd [OF heartbeat_keeps]) auto
next
  case (polling s env c)
  show ?case by (rule evolves_snd [OF tasks_for_scanner_keeps])
next
  case (claiming j c env ttl s)
  then show ?case by (intro claim_keeps) auto
next
  case (submission s env c j payload idem)
  show ?case by (rule evolves_snd [OF submit_keeps])
qed (rule renew_keeps ack_keeps fail_keeps)+

lemma lookup_leased:
  assumes "filed_docs s" and "leased t i b s"
  obtains task where "cm_get ''tasks'' i (Some t) s = (Inr (Some task), s)" and "leased_doc t b task"
proof -
  from assms(2) obtain d where d: "dget (cr_docs s) (''tasks'', i) = Some d" "leased_doc t b d" by (auto simp: leased_def)
  with assms(1) have "d \<noteq> []" by (intro filed_nonempty)
  with d show ?thesis
    by (intro that [of d]) (simp_all add: leased_doc_def cm_get_def check_bucket_def bucket_names_def seqp_apply)
qed

lemma fenced:
  assumes "filed_docs s" and "leased t i b s" and "a \<noteq> b"
  shows "\<exists>e. renew_task env t a i ttl s = (Inl e, s)" and "\<exists>e. ack_task env t a i s = (Inl e, s)"
    and "\<exists>e. submit_result env t a i payload idem s = (Inl e, s)"
proof -
  obtain task where get: "cm_get ''tasks'' i (Some t) s = (Inr (Some task), s)" and task: "leased_doc t b task"
    using assms(1,2) by (rule lookup_leased)
  show "\<exists>e. renew_task env t a i ttl s = (Inl e, s)"
    using get task assms(3) by (simp add: renew_task_def bindp_apply seqp_apply leased_doc_def)
  have held: "\<exists>e. held_task t a i s = (Inl e, s)"
    using get task assms(3) by (auto simp: held_task_def bindp_apply leased_doc_def vget_def split: option.splits)
  then show "\<exists>e. ack_task env t a i s = (Inl e, s)" and "\<exists>e. submit_result env t a i payload idem s = (Inl e, s)"
    by (auto simp: ack_task_def submit_result_def bindp_apply)
qed

lemma task_claimed:
  assumes "claim_task env t b i ttl s = (Inr d, s')" and "filed_docs s"
  shows "filed_docs s'" and "leased t i b s'"
proof -
  have "keeps_lease t i b s (snd (claim_task env t b i ttl s))" by (rule claim_keeps) simp
  with assms show "filed_docs s'" by (simp add: keeps_lease_def)
  obtain task s1 s2 x e where task: "cm_get ''tasks'' i (Some t) s = (Inr (Some task), s1)" "cr_docs s2 = cr_docs s"
    and up: "cm_upsert env ''tasks'' (updated_with task [(''scanner_id'', VStr b), (''status'', VStr ''leased''),
            (''lease_owner'', VStr b), (''lease_expires_at'', x)]) e s2 = (Inr d, s')"
  proof -
    let ?checking = "\<lambda>task. if vget task ''status'' \<in> {VStr ''available'', VStr ''retryable'', VStr ''expired''} then ret True
        else if vget task ''status'' \<in> {VStr ''leased'', VStr ''running''} then lease_expired env task else ret False"
    let ?storing = "\<lambda>task. bindp (cm_time env) (\<lambda>now. cm_upsert env ''tasks'' (updated_with task [(''scanner_id'', VStr b),
        (''status'', VStr ''leased''), (''lease_owner'', VStr b), (''lease_expires_at'', VStr (cm_isoformat env (now + ttl * 1000000)))])
        (vget task ''_version''))"
    obtain found s1 where get: "cm_get ''tasks'' i (Some t) s = (Inr found, s1)" and rest: "(case found of
         None \<Rightarrow> raise (not_claimable i)
       | Some task \<Rightarrow> bindp (?checking task) (\<lambda>claimable. if \<not> claimable then raise (not_claimable i) else ?storing task)) s1 = (Inr d, s')"
      using assms(1) unfolding claim_task_def seqp_raise_if by (rule bindp_InrE)
    from rest obtain task where found: "found = Some task"
      and run: "bindp (?checking task) (\<lambda>claimable. if \<not> claimable then raise (not_claimable i) else ?storing task) s1 = (Inr d, s')"
      by (cases found) auto
    from run obtain claimable s2 where m: "?checking task s1 = (Inr claimable, s2)" and "?storing task s2 = (Inr d, s')"
      by (rule bindp_InrE) (auto split: if_splits)
    then obtain now s3 where n: "cm_time env s2 = (Inr now, s3)" and up: "cm_upsert env ''tasks'' (updated_with task [(''scanner_id'', VStr b),
        (''status'', VStr ''leased''), (''lease_owner'', VStr b), (''lease_expires_at'', VStr (cm_isoformat env (now + ttl * 1000000)))])
        (vget task ''_version'') s3 = (Inr d, s')" by (auto elim!: bindp_InrE)
    have "evolves same_docs (?checking task)" by (intro evolve_rules)
    with m n get_run [OF get] have "cr_docs s3 = cr_docs s"
      using evolvesD [OF time_reads n] by (auto simp: same_docs_def dest: evolvesD)
    with get found up that show ?thesis by blast
  qed
  from get_some [OF task(1)] have "dget (cr_docs s) (''tasks'', i) = Some task" and t: "vget task ''tenant_id'' = VStr t" by auto
  with assms(2) have "dget task ''id'' = Some (VStr i)" by (simp add: filed_docs_def)
  from up show "leased t i b s'"
  proof (cases rule: upsert_run)
    case (stored j n now)
    with \<open>dget task ''id'' = Some (VStr i)\<close> t show ?thesis
      by (auto simp: leased_def leased_doc_def updated_with_get vget_updated)
  qed simp
qed

section \<open>Filing\<close>

definition keeps_filed :: "coll_repo \<Rightarrow> coll_repo \<Rightarrow> bool" where
  "keeps_filed s s' \<longleftrightarrow> (filed_docs s \<longrightarrow> filed_docs s')"

interpretation docfiling: step_order keeps_filed
  by unfold_locales (auto simp: keeps_filed_def)

lemma reading_filed: "evolves same_docs m \<Longrightarrow> evolves keeps_filed m"
  by (erule evolves_mono) (auto simp: keeps_filed_def same_docs_def filed_docs_def)

lemmas reading_files [evolve_rules] = reading_filed [OF time_reads] reading_filed [OF now_reads] reading_filed [OF get_reads]
  reading_filed [OF list_reads] reading_filed [OF event_reads] reading_filed [OF audit_reads] reading_filed [OF held_reads]
  reading_filed [OF asset_reads] reading_filed [OF expired_reads]

lemma upsert_files [evolve_rules]: "evolves keeps_filed (cm_upsert env bucket doc expected)"
proof (rule evolvesI)
  fix s
  obtain r s' where run: "cm_upsert env bucket doc expected s = (r, s')" by fastforce
  then have "keeps_filed s s'" by (cases rule: upsert_run) (auto simp: keeps_filed_def filed_docs_def updated_with_get)
  with run show "keeps_filed s (snd (cm_upsert env bucket doc expected s))" by simp
qed

lemma policy_tasks_file: "evolves keeps_filed (policy_tasks env t c ps)"
proof (induction ps)
  case Nil
  show ?case unfolding policy_tasks.simps by (rule docfiling.evolves_ret)
next
  case (Cons p ps)
  then show ?case unfolding policy_tasks.simps policy_task_def Let_def by (intro evolve_rules)
qed

lemma call_files: "collection_call t P s s' \<Longrightarrow> keeps_filed s s'"
proof (induction rule: collection_call.induct)
  case (registration bucket s env payload prefix)
  show ?case unfolding register_def Let_def by (rule evolves_snd) (intro evolve_rules)
next
  case (beat bucket s env j payload)
  show ?case unfolding heartbeat_def Let_def by (rule evolves_snd) (intro evolve_rules)
next
  case (polling s env c)
  show ?case unfolding tasks_for_scanner_def by (rule evolves_snd) (intro evolve_rules policy_tasks_file)
next
  case (claiming j c env ttl s)
  show ?case unfolding claim_task_def by (rule evolves_snd) (intro evolve_rules)
next
  case (renewal s env c j ttl)
  show ?case unfolding renew_task_def by (rule evolves_snd) (intro evolve_rules)
next
  case (acknowledgement s env c j)
  show ?case unfolding ack_task_def by (rule evolves_snd) (intro evolve_rules)
next
  case (failure s env j payload)
  show ?case unfolding fail_task_def by (rule evolves_snd) (intro evolve_rules)
next
  case (submission s env c j payload idem)
  show ?case unfolding submit_result_def accept_result_def Let_def by (rule evolves_snd) (intro evolve_rules)
qed

text \<open>The calls of all tenants.\<close>

definition any_call :: "coll_repo \<Rightarrow> coll_repo \<Rightarrow> bool" where
  "any_call s s' \<longleftrightarrow> (\<exists>t. collection_call t (\<lambda>_ _. True) s s')"

lemma reachable_filed: "any_call\<^sup>*\<^sup>* empty_coll s \<Longrightarrow> filed_docs s"
proof (induction rule: rtranclp_induct)
  case base
  show ?case by (simp add: filed_docs_def empty_coll_def)
next
  case (step s s')
  then show ?case using call_files by (force simp: any_call_def keeps_filed_def)
qed

section \<open>Calls of all tenants\<close>

text \<open>
  The calls of other tenants. They leave a lease alone, but for one: a scanner that polls creates the task of a policy
  where its own tenant has none, and overwrites the task of another tenant with that identifier.
\<close>

definition owned_by :: "string \<Rightarrow> string \<Rightarrow> string \<Rightarrow> coll_repo \<Rightarrow> bool" where
  "owned_by u bucket i s \<longleftrightarrow> (\<exists>d. dget (cr_docs s) (bucket, i) = Some d \<and> vget d ''tenant_id'' = VStr u)"

definition shared_call :: "string \<Rightarrow> (string \<Rightarrow> string \<Rightarrow> bool) \<Rightarrow> string \<Rightarrow> string \<Rightarrow> coll_repo \<Rightarrow> coll_repo \<Rightarrow> bool" where
  "shared_call t P bucket i s s' \<longleftrightarrow> (\<exists>u. collection_call u (\<lambda>j c. u = t \<longrightarrow> P j c) s s') \<and> owned_by t bucket i s'"

text \<open>Documents at a place keep what they satisfy, or come to belong to \<open>u\<close>.\<close>

definition doc_at :: "(vdict \<Rightarrow> bool) \<Rightarrow> string \<Rightarrow> string \<Rightarrow> coll_repo \<Rightarrow> bool" where
  "doc_at Q bucket i s \<longleftrightarrow> (\<exists>d. dget (cr_docs s) (bucket, i) = Some d \<and> Q d)"

definition keeps_or_gives :: "string \<Rightarrow> (vdict \<Rightarrow> bool) \<Rightarrow> string \<Rightarrow> string \<Rightarrow> coll_repo \<Rightarrow> coll_repo \<Rightarrow> bool" where
  "keeps_or_gives u Q bucket i s s' \<longleftrightarrow>
     (doc_at Q bucket i s \<or> owned_by u bucket i s \<longrightarrow> doc_at Q bucket i s' \<or> owned_by u bucket i s')"

interpretation giving: step_order "keeps_or_gives u Q bucket i" for u Q bucket i
  by unfold_locales (auto simp: keeps_or_gives_def)

lemma reading_gives: "evolves same_docs m \<Longrightarrow> evolves (keeps_or_gives u Q bucket i) m"
  by (erule evolves_mono) (simp add: same_docs_def keeps_or_gives_def doc_at_def owned_by_def)

lemmas reading_giving [evolve_rules] = reading_gives [OF time_reads] reading_gives [OF now_reads] reading_gives [OF get_reads]
  reading_gives [OF list_reads] reading_gives [OF event_reads] reading_gives [OF audit_reads] reading_gives [OF held_reads]
  reading_gives [OF asset_reads]

lemma upsert_gives [evolve_rules]:
  assumes "bucket' \<noteq> bucket \<or> vget doc ''tenant_id'' = VStr u"
  shows "evolves (keeps_or_gives u Q bucket i) (cm_upsert env bucket' doc expected)"
proof (rule evolvesI)
  fix s
  obtain r s' where run: "cm_upsert env bucket' doc expected s = (r, s')" by fastforce
  then have "keeps_or_gives u Q bucket i s s'"
  proof (cases rule: upsert_run)
    case (refused e)
    then show ?thesis by (simp add: keeps_or_gives_def doc_at_def owned_by_def)
  next
    case (stored j n now)
    with assms show ?thesis by (auto simp: keeps_or_gives_def doc_at_def owned_by_def vget_updated)
  qed
  with run show "keeps_or_gives u Q bucket i s (snd (cm_upsert env bucket' doc expected s))" by simp
qed

lemma policy_tasks_give: "evolves (keeps_or_gives u Q bucket i) (policy_tasks env u c ps)"
proof (induction ps)
  case Nil
  show ?case unfolding policy_tasks.simps by (rule giving.evolves_ret)
next
  case (Cons p ps)
  then show ?case unfolding policy_tasks.simps policy_task_def Let_def
    by (intro evolve_rules) (simp_all add: vget_def)
qed

lemma polling_gives: "evolves (keeps_or_gives u Q bucket i) (tasks_for_scanner env u c)"
  unfolding tasks_for_scanner_def by (intro evolve_rules policy_tasks_give)

lemma submitting_gives: "evolves (keeps_or_gives u Q ''idempotency'' k) (submit_result env u c j payload idem)"
  unfolding submit_result_def accept_result_def Let_def by (intro evolve_rules) (simp_all add: vget_def)

lemma foreign_claim_keeps:
  assumes "u \<noteq> t"
  shows "keeps_lease t i b s (snd (claim_task env u c j ttl s))"
proof (cases "j = i \<and> leased t i b s")
  case True
  then obtain d where d: "dget (cr_docs s) (''tasks'', i) = Some d" "leased_doc t b d" by (auto simp: leased_def)
  have "\<exists>e. claim_task env u c i ttl s = (Inl e, s)"
    using d assms by (simp add: claim_task_def bindp_apply cm_get_def check_bucket_def bucket_names_def seqp_apply leased_doc_def)
  then obtain e where "claim_task env u c i ttl s = (Inl e, s)" by blast
  with True show ?thesis by (simp add: lease.step_refl)
next
  case False
  show ?thesis
  proof (cases "j = i")
    case True
    have "keeps_filed s (snd (claim_task env u c j ttl s))"
      unfolding claim_task_def by (rule evolves_snd) (intro evolve_rules)
    with False True show ?thesis by (simp add: keeps_lease_def keeps_filed_def)
  qed (rule claim_keeps, simp)
qed

lemma foreign_or_kept:
  assumes "collection_call u P s s'" and "u \<noteq> t" and "filed_docs s" and "leased t i b s"
  shows "leased t i b s' \<or> owned_by u ''tasks'' i s'"
proof -
  have "keeps_lease t i b s s' \<or> keeps_or_gives u (leased_doc t b) ''tasks'' i s s'"
    using assms(1)
  proof cases
    case (registration bucket env payload prefix)
    then show ?thesis by (auto intro: evolves_snd [OF register_keeps])
  next
    case (beat bucket env j payload)
    then show ?thesis by (auto intro: evolves_snd [OF heartbeat_keeps])
  next
    case (polling env c)
    then show ?thesis by (auto intro: evolves_snd [OF polling_gives])
  next
    case (claiming j c env ttl)
    then show ?thesis using foreign_claim_keeps [OF assms(2)] by simp
  next
    case (submission env c j payload idem)
    then show ?thesis by (auto intro: evolves_snd [OF submit_keeps])
  qed (simp_all add: renew_keeps ack_keeps fail_keeps)
  with assms(3,4) show ?thesis by (auto simp: keeps_lease_def keeps_or_gives_def doc_at_def leased_def)
qed

lemma owned_once: "owned_by u bucket i s \<Longrightarrow> owned_by t bucket i s \<Longrightarrow> u = t"
  by (auto simp: owned_by_def)

lemma shared_keeps_lease:
  assumes "shared_call t (\<lambda>j c. j = i \<longrightarrow> c = b) ''tasks'' i s s'"
  shows "keeps_lease t i b s s'"
proof -
  obtain u where call: "collection_call u (\<lambda>j c. u = t \<longrightarrow> j = i \<longrightarrow> c = b) s s'" and own: "owned_by t ''tasks'' i s'"
    using assms by (auto simp: shared_call_def)
  show ?thesis
  proof (cases "u = t")
    case True
    with call show ?thesis by (intro call_keeps_lease) simp
  next
    case False
    have "filed_docs s'" if "filed_docs s" using call_files [OF call] that by (simp add: keeps_filed_def)
    with foreign_or_kept [OF call False] owned_once [OF _ own] False show ?thesis
      by (auto simp: keeps_lease_def)
  qed
qed

lemma shared_calls_keep_lease:
  "(shared_call t (\<lambda>j c. j = i \<longrightarrow> c = b) ''tasks'' i)\<^sup>*\<^sup>* s s' \<Longrightarrow> keeps_lease t i b s s'"
  by (induction rule: rtranclp_induct) (auto intro: lease.step_refl lease.step_trans shared_keeps_lease)

section \<open>Responses\<close>

definition answered :: "string \<Rightarrow> string \<Rightarrow> pvalue \<Rightarrow> coll_repo \<Rightarrow> bool" where
  "answered t k r s \<longleftrightarrow> (\<exists>d. dget (cr_docs s) (''idempotency'', k) = Some d \<and> d \<noteq> [] \<and> vget d ''tenant_id'' = VStr t \<and> vget d ''response'' = r)"

definition keeps_answer :: "string \<Rightarrow> string \<Rightarrow> pvalue \<Rightarrow> coll_repo \<Rightarrow> coll_repo \<Rightarrow> bool" where
  "keeps_answer t k r s s' \<longleftrightarrow> (answered t k r s \<longrightarrow> answered t k r s')"

interpretation answers: step_order "keeps_answer t k r" for t k r
  by unfold_locales (auto simp: keeps_answer_def)

lemma reading_answers: "evolves same_docs m \<Longrightarrow> evolves (keeps_answer t k r) m"
  by (erule evolves_mono) (auto simp: keeps_answer_def same_docs_def answered_def)

lemmas reading_answer [evolve_rules] = reading_answers [OF time_reads] reading_answers [OF now_reads] reading_answers [OF get_reads]
  reading_answers [OF list_reads] reading_answers [OF event_reads] reading_answers [OF audit_reads] reading_answers [OF held_reads]
  reading_answers [OF asset_reads] reading_answers [OF expired_reads]

lemma upsert_answers [evolve_rules]:
  assumes "bucket \<noteq> ''idempotency'' \<or> dget doc ''id'' \<noteq> Some (VStr k)"
  shows "evolves (keeps_answer t k r) (cm_upsert env bucket doc expected)"
proof (rule evolvesI)
  fix s
  obtain x s' where run: "cm_upsert env bucket doc expected s = (x, s')" by fastforce
  then have "keeps_answer t k r s s'" using assms by (cases rule: upsert_run) (auto simp: keeps_answer_def answered_def)
  with run show "keeps_answer t k r s (snd (cm_upsert env bucket doc expected s))" by simp
qed

lemma policy_tasks_answer: "evolves (keeps_answer t k r) (policy_tasks env t' c ps)"
proof (induction ps)
  case Nil
  show ?case unfolding policy_tasks.simps by (rule answers.evolves_ret)
next
  case (Cons p ps)
  then show ?case unfolding policy_tasks.simps policy_task_def Let_def by (intro evolve_rules) simp_all
qed

lemma submit_answers: "keeps_answer t k r s (snd (submit_result env t c j payload idem s))"
proof (cases "answered t k r s \<and> result_key env t c j payload idem = k")
  case True
  obtain h s1 where held: "held_task t c j s = (h, s1)" by fastforce
  have s1: "cr_docs s1 = cr_docs s" using evolvesD [OF held_reads held] by (simp add: same_docs_def)
  with True obtain d where "cm_get ''idempotency'' k (Some t) s1 = (Inr (Some d), s1)"
    by (auto simp: answered_def cm_get_def check_bucket_def bucket_names_def seqp_apply)
  with held True s1 show ?thesis
    by (cases h) (simp_all add: submit_result_def bindp_apply Let_def keeps_answer_def answered_def)
next
  case False
  show ?thesis
  proof (cases "answered t k r s")
    case True
    with False have "result_key env t c j payload idem \<noteq> k" by simp
    then have "evolves (keeps_answer t k r) (submit_result env t c j payload idem)"
      unfolding submit_result_def accept_result_def Let_def by (intro evolve_rules) simp_all
    then show ?thesis by (rule evolves_snd)
  qed (simp add: keeps_answer_def)
qed

lemma call_answers_or_submits:
  assumes "collection_call u P s s'"
  shows "keeps_answer t k r s s' \<or> (\<exists>env c j payload idem. s' = snd (submit_result env u c j payload idem s))"
  using assms
proof cases
  case (registration bucket env payload prefix)
  then show ?thesis unfolding register_def Let_def by (auto intro!: evolves_snd [where R = "keeps_answer t k r"] evolve_rules)
next
  case (beat bucket env j payload)
  then show ?thesis unfolding heartbeat_def Let_def by (auto intro!: evolves_snd [where R = "keeps_answer t k r"] evolve_rules)
next
  case (polling env c)
  have "evolves (keeps_answer t k r) (tasks_for_scanner env u c)"
    unfolding tasks_for_scanner_def by (intro evolve_rules policy_tasks_answer)
  with polling show ?thesis by (simp add: evolves_snd)
next
  case (claiming j c env ttl)
  have "evolves (keeps_answer t k r) (claim_task env u c j ttl)" unfolding claim_task_def by (intro evolve_rules) simp
  with claiming show ?thesis by (simp add: evolves_snd)
next
  case (renewal env c j ttl)
  have "evolves (keeps_answer t k r) (renew_task env u c j ttl)" unfolding renew_task_def by (intro evolve_rules) simp
  with renewal show ?thesis by (simp add: evolves_snd)
next
  case (acknowledgement env c j)
  have "evolves (keeps_answer t k r) (ack_task env u c j)" unfolding ack_task_def by (intro evolve_rules) simp
  with acknowledgement show ?thesis by (simp add: evolves_snd)
next
  case (failure env j payload)
  have "evolves (keeps_answer t k r) (fail_task env u j payload)" unfolding fail_task_def by (intro evolve_rules) simp
  with failure show ?thesis by (simp add: evolves_snd)
qed blast

lemma call_answers: "collection_call t P s s' \<Longrightarrow> keeps_answer t k r s s'"
  using call_answers_or_submits submit_answers by metis

text \<open>A call of another tenant keeps a response, or it is a submission that takes the key over.\<close>

lemma foreign_or_answered:
  assumes "collection_call u P s s'" and "answered t k r s"
  shows "answered t k r s' \<or> owned_by u ''idempotency'' k s'"
proof -
  let ?Q = "\<lambda>d. d \<noteq> [] \<and> vget d ''tenant_id'' = VStr t \<and> vget d ''response'' = r"
  from call_answers_or_submits [OF assms(1), of t k r]
  have "keeps_answer t k r s s' \<or> keeps_or_gives u ?Q ''idempotency'' k s s'"
    using submitting_gives [THEN evolves_snd] by blast
  with assms(2) show ?thesis by (auto simp: keeps_answer_def keeps_or_gives_def doc_at_def answered_def)
qed

lemma shared_answers:
  assumes "shared_call t P ''idempotency'' k s s'"
  shows "keeps_answer t k r s s'"
proof -
  obtain u where call: "collection_call u (\<lambda>j c. u = t \<longrightarrow> P j c) s s'" and own: "owned_by t ''idempotency'' k s'"
    using assms by (auto simp: shared_call_def)
  show ?thesis
  proof (cases "u = t")
    case True
    with call show ?thesis by (intro call_answers) simp
  next
    case False
    with foreign_or_answered [OF call] owned_once [OF _ own] show ?thesis by (auto simp: keeps_answer_def)
  qed
qed

lemma shared_calls_answer: "(shared_call t P ''idempotency'' k)\<^sup>*\<^sup>* s s' \<Longrightarrow> keeps_answer t k r s s'"
  by (induction rule: rtranclp_induct) (auto intro: answers.step_refl answers.step_trans shared_answers)

lemma accepted_answers:
  assumes "accept_result env t j payload k task s = (Inr r, s')"
  shows "answered t k r s'"
proof -
  from assms obtain x s1 where up: "cm_upsert env ''idempotency'' [(''id'', VStr k), (''tenant_id'', VStr t), (''response'', r)] VNone s1 = (Inr x, s')"
    unfolding accept_result_def Let_def by (elim bindp_InrE) auto
  then show ?thesis
  proof (cases rule: upsert_run)
    case (stored i n now)
    then show ?thesis by (auto simp: answered_def vget_updated vget_def updated_with_def)
  qed simp
qed

lemma submission_answers:
  assumes "submit_result env t c j payload (Some k) s = (Inr r, s')" and "k \<noteq> []"
  shows "answered t k r s'"
proof -
  have key: "result_key env t c j payload (Some k) = k" using assms(2) by (simp add: result_key_def)
  obtain task s1 existing s2 where get: "cm_get ''idempotency'' k (Some t) s1 = (Inr existing, s2)"
    and run: "(case existing of Some d \<Rightarrow> ret (vget d ''response'') | None \<Rightarrow> accept_result env t j payload k task) s2 = (Inr r, s')"
    using assms(1) unfolding submit_result_def Let_def key by (elim bindp_InrE)
  show ?thesis
  proof (cases existing)
    case None
    with run show ?thesis by (auto intro: accepted_answers)
  next
    case (Some d)
    with get have "d \<noteq> []" by (auto simp: cm_get_def check_bucket_def seqp_apply split: option.splits if_splits)
    with Some run get_run [OF get] get_some [OF get [unfolded Some]] show ?thesis by (auto simp: answered_def)
  qed
qed

section \<open>Properties\<close>


text \<open>
  C29. Once a result was accepted under an idempotency key, every later submission under that key by a scanner
  of the tenant, for a task it holds at that time, returns the same response and changes nothing, whatever calls of
  all tenants happen in between that leave the key with the tenant; the key is not tied to the task or the
  payload, so this includes submissions for other tasks. (Keys are stored for all tenants together: a
  submission of another tenant under the key takes it over.)
\<close>

theorem results_are_accepted_once:
  assumes "submit_result env t a i payload (Some k) s = (Inr r, s1)" and "k \<noteq> []"
    and "(shared_call t (\<lambda>_ _. True) ''idempotency'' k)\<^sup>*\<^sup>* s1 s2" and "held_task t c j s2 = (Inr task, s2)"
  shows "submit_result env' t c j payload' (Some k) s2 = (Inr r, s2)"
proof -
  have "answered t k r s2"
    using submission_answers [OF assms(1,2)] shared_calls_answer [OF assms(3)] by (simp add: keeps_answer_def)
  then obtain d where "cm_get ''idempotency'' k (Some t) s2 = (Inr (Some d), s2)" and "vget d ''response'' = r"
    by (auto simp: answered_def cm_get_def check_bucket_def bucket_names_def seqp_apply)
  with assms(2,4) show ?thesis by (simp add: submit_result_def bindp_apply Let_def result_key_def)
qed

text \<open>
  C40. A registration with an explicit identifier replaces the document of that identifier whoever it belongs to: after
  the registration of one tenant another tenant's integration, collector, scanner or policy is gone for it.
\<close>

theorem registration_replaces_foreign_documents:
  assumes "dget (cr_docs s) (bucket, i) = Some d" and "vget d ''tenant_id'' = VStr a" and "a \<noteq> t"
    and "vget payload ''id'' = VStr i" and "i \<noteq> []" and "register env bucket t payload prefix s = (Inr doc, s')"
  shows "cm_get bucket i (Some a) s' = (Inr None, s') \<and> (\<exists>d'. cm_get bucket i (Some t) s' = (Inr (Some d'), s'))"
proof -
  let ?upsert = "\<lambda>doc. cm_upsert env bucket doc VNone"
  have id: "vor (vget payload ''id'') x = VStr i" for x using assms(4,5) by (simp add: vor_def)
  obtain e x s1 s2 where up: "?upsert (updated_with (redact payload) ((''tenant_id'', VStr t) # (''id'', VStr i) # e)) s1 = (Inr x, s2)"
    and e: "dget (rev e) ''tenant_id'' = None" "dget (rev e) ''id'' = None" and audit: "same_docs s2 s'"
    using assms(6) unfolding register_def Let_def id
    by (elim bindp_InrE) (auto dest: evolvesD [OF audit_reads] simp: same_docs_def)
  from up show ?thesis
  proof (cases rule: upsert_run)
    case (stored j n now)
    with e have "j = i" by (simp add: updated_with_get map_add_def)
    with stored e audit assms(3) show ?thesis
      by (auto simp: same_docs_def cm_get_def check_bucket_def seqp_apply vget_updated map_add_def)
  qed simp
qed

section \<open>A small collection\<close>

definition sample_cm :: cm_env where
  "sample_cm = \<lparr>cm_digest = (\<lambda>_. ''d''), cm_floats = \<lparr>pf_repr = (\<lambda>_. ''0.0''), pf_parse = (\<lambda>_. None)\<rparr>,
     cm_clock = (\<lambda>n. int n * 1000000), cm_isoformat = (\<lambda>t. ''t'' @ int_str t), cm_json_time = (\<lambda>t. ''t'' @ int_str t),
     cm_parse = (\<lambda>_. Aware 1000000000)\<rparr>"

definition with_scanner :: coll_repo where
  "with_scanner = snd (register sample_cm ''scanners'' ''a'' [(''id'', VStr ''s'')] ''scanner'' empty_coll)"

definition with_policy :: coll_repo where
  "with_policy = snd (register sample_cm ''policies'' ''a'' [(''id'', VStr ''p'')] ''scan_policy'' with_scanner)"

definition with_task :: coll_repo where
  "with_task = snd (tasks_for_scanner sample_cm ''a'' ''s'' with_policy)"

definition sample_task_id :: string where
  "sample_task_id = task_id_for sample_cm (VStr ''p'') ''s''"

definition claimed_task :: coll_repo where
  "claimed_task = snd (claim_task sample_cm ''a'' ''s'' sample_task_id 60 with_task)"

lemma with_task_reachable: "any_call\<^sup>*\<^sup>* empty_coll with_task"
proof -
  have "any_call empty_coll with_scanner" "any_call with_scanner with_policy" "any_call with_policy with_task"
    unfolding any_call_def with_scanner_def with_policy_def with_task_def
    by (rule exI [of _ "''a''"], rule collection_call.intros, simp?)+
  then show ?thesis by (metis (no_types) rtranclp.rtrancl_into_rtrancl rtranclp.rtrancl_refl)
qed

lemma sample_cm_fields [simp]: "cm_digest sample_cm x = ''d''" "cm_clock sample_cm n = int n * 1000000"
  "cm_isoformat sample_cm u = ''t'' @ int_str u" "cm_json_time sample_cm u = ''t'' @ int_str u" "cm_parse sample_cm y = Aware 1000000000"
  by (simp_all add: sample_cm_def)

lemma sample_letters [simp]: "lower_char CHR ''i'' = CHR ''i''" "lower_char CHR ''d'' = CHR ''d''" "lower_char CHR ''n'' = CHR ''n''"
  "lower_char CHR ''a'' = CHR ''a''" "lower_char CHR ''m'' = CHR ''m''" "lower_char CHR ''e'' = CHR ''e''"
  by code_simp+

lemmas sample_runs = empty_coll_def register_def cm_upsert_def cm_now_def cm_time_def bindp_apply seqp_apply
   cm_audit_def doc_id_def check_bucket_def bucket_names_def Let_def vor_def vget_def vget_or_def doc_version_def updated_with_def
   cm_get_def cm_list_def tasks_for_scanner_def policy_task_def secret_keys_def

lemma with_scanner_docs: "map_option (\<lambda>d. vget d ''tenant_id'') (dget (cr_docs with_scanner) (''scanners'', ''s'')) = Some (VStr ''a'')"
  by (simp add: with_scanner_def sample_runs)

lemma registers: "\<not> isl (fst (register sample_cm ''scanners'' ''b'' [(''id'', VStr ''s'')] ''scanner'' with_scanner))"
  by (simp add: with_scanner_def sample_runs)

lemma veq_refl [simp]: "veq v v"
  by (simp add: veq_def)

lemma claim_runs: "\<exists>d. claim_task sample_cm ''a'' ''s'' sample_task_id 60 with_task = (Inr d, claimed_task)"
  unfolding claimed_task_def sample_task_id_def
  by (simp add: with_task_def with_policy_def with_scanner_def sample_runs claim_task_def)

definition one_task :: coll_repo where
  "one_task = \<lparr>cr_docs = [((''tasks'', ''x''), [(''id'', VStr ''x''), (''tenant_id'', VStr ''a''), (''scanner_id'', VStr ''s'')])],
     cr_events = [], cr_audit = [], cr_ticks = 0\<rparr>"

lemma result_runs: "\<exists>r s'. submit_result sample_cm ''a'' ''s'' ''x'' [(''name'', VStr ''orders'')] (Some ''k'') one_task = (Inr r, s') \<and>
    (\<exists>task. held_task ''a'' ''s'' ''x'' s' = (Inr task, s'))"
  unfolding one_task_def
  by (simp add: sample_runs submit_result_def held_task_def result_key_def
      accept_result_def new_asset_def qualified_name_def asset_document_def string_field_def opt_string_field_def cm_event_def)

lemma returned: "\<not> isl (fst p) \<Longrightarrow> \<exists>x. p = (Inr x, snd p)"
  by (cases p; cases "fst p") auto


theorem results_are_accepted_once_witness:
  "\<exists>r s'. submit_result sample_cm ''a'' ''s'' ''x'' [(''name'', VStr ''orders'')] (Some ''k'') one_task = (Inr r, s') \<and>
     submit_result sample_cm ''a'' ''s'' ''x'' [] (Some ''k'') s' = (Inr r, s')"
proof -
  obtain r s' task where run: "submit_result sample_cm ''a'' ''s'' ''x'' [(''name'', VStr ''orders'')] (Some ''k'') one_task = (Inr r, s')"
    and held: "held_task ''a'' ''s'' ''x'' s' = (Inr task, s')" using result_runs by blast
  from results_are_accepted_once [OF run _ rtranclp.rtrancl_refl held, of sample_cm "[]"] run show ?thesis by auto
qed

theorem registration_replaces_foreign_documents_witness:
  "\<exists>d s'. dget (cr_docs with_scanner) (''scanners'', ''s'') = Some d \<and> vget d ''tenant_id'' = VStr ''a'' \<and>
     s' = snd (register sample_cm ''scanners'' ''b'' [(''id'', VStr ''s'')] ''scanner'' with_scanner) \<and>
     cm_get ''scanners'' ''s'' (Some ''a'') s' = (Inr None, s')"
proof -
  obtain d where d: "dget (cr_docs with_scanner) (''scanners'', ''s'') = Some d" "vget d ''tenant_id'' = VStr ''a''"
    using with_scanner_docs by auto
  obtain doc where "register sample_cm ''scanners'' ''b'' [(''id'', VStr ''s'')] ''scanner'' with_scanner =
      (Inr doc, snd (register sample_cm ''scanners'' ''b'' [(''id'', VStr ''s'')] ''scanner'' with_scanner))"
    using returned [OF registers] by blast
  from registration_replaces_foreign_documents [OF d _ _ _ this] d show ?thesis by (simp add: vget_def)
qed

end
