(* ===== verification/Spec2Isabelle.thy ===== *)
theory Spec2Isabelle
  imports TenantCalls RecoveryProperties BoundedRecovery LeaseRefinement ProductProperties DependencyTraversal ServiceLimits
    ProductPages ActionAttempts ImpactProperties SchemaCompatibility
    CollectionProperties
begin

text \<open>
  Verification of five cores of DataObs: data products (\<open>src/services/data_products\<close>, the domain model under
  \<open>src/packages/domain_model\<close> and the product listing of \<open>src/src/api/data_product_routes.py\<close>), the governed
  actions of the incident manager (\<open>src/services/incident_manager/automation\<close>), its incidents, from the event
  that reports a finding to correlation groups and storms (\<open>src/services/incident_manager\<close>), the lineage of assets
  (\<open>src/services/lineage_intelligence\<close> and \<open>src/src/api/lineage_routes.py\<close>), and the collection manager
  (\<open>src/services/collection_manager\<close>).

  \<^bold>\<open>The program.\<close> A data product has outputs, members, declared dependencies and a lifecycle. Clients change
  it through three services: \<open>DataProductService\<close> (creation, updates, lifecycle), \<open>DataProductDependencyService\<close>
  (declared dependencies) and \<open>DataProductMembershipService\<close> (members, proposals, exclusions). Every change
  reserves its idempotency key, stores a plan and a pending operation, then writes; a worker of the
  reconciliation service takes over operations that a crash left behind: it claims them for a while, runs the
  handler of their kind, stores result and history, completes the reservation and closes the operation.
  The repository in memory is the reference implementation of the store all of them share.

  A governed action is previewed against a catalogue and a policy, approved by a second person where the
  policy asks for it, queued under that approval, executed by a worker that holds a lease, and verified with
  evidence; a reconciler repairs partial writes. It has a repository of its own.

  An event is normalised to a finding. Findings with the same deduplication key merge into one incident under
  optimistic versions; the incident moves along a lifecycle, by hand through the workbench. A coordinator
  attaches each revision of an incident to a correlation group and asks the flood evaluator whether its
  notification is sent, escalated or coalesced; what fails there is deferred and taken up by a worker.

  Lineage is a store of edges between assets. A traversal follows them from a root under bounds on depth, assets, edges
  and paths; an impact analysis scores the assets it finds and stores its evaluation, which a repeated request is
  answered with; two versions of a schema are compared and the change is classified.

  The collection manager registers scanners and policies, hands out a task for each policy, leases tasks to scanners
  and stores the assets of their results once per idempotency key.

  \<^bold>\<open>How it is modelled.\<close> A Python method is a computation \<open>('s, 'a) py\<close>: it takes the repository state and
  returns a value or a raised exception with the state reached, so that a raise keeps the writes before it
  (\<open>Prelude\<close>). Dictionaries are association lists in insertion order, integers are unbounded, times are
  whole microseconds, a clock reading takes the next value of a clock sequence; fractions are
  rationals, rounded to doubles where the code computes with floats. Strings are Latin-1. The digest, the clock and the text of compound values are the fields
  of \<open>runtime\<close>, an argument of every definition that uses them.

  \<^item> \<open>Prelude\<close>: exceptions, computations, dictionaries, sorting, strings; the locales \<open>step_order\<close> and
    \<open>store_order\<close>, which carry a reflexive and transitive relation on states, or on the entries of a store,
    through whole methods. Every store of the repository interprets them.
  \<^item> \<open>DomainModel\<close>: the records of \<open>data_product.py\<close>, \<open>operation_state.py\<close>, \<open>idempotency.py\<close> and
    \<open>dependency_events.py\<close>. \<open>Events\<close>: operation identifiers, payloads, dumps and validation.
  \<^item> \<open>MemoryRepository\<close>: every method of \<open>memory_repository.py\<close> over the record \<open>repo\<close>.
  \<^item> \<open>Idempotency\<close>: \<open>idempotency.py\<close>. \<open>DependencyGraph\<close>: \<open>dependencies.py\<close>.
  \<^item> \<open>Reconciliation\<close>: \<open>reconciliation.py\<close>, handlers, registry and service.
  \<^item> \<open>ProductService\<close>, \<open>DependencyService\<close>, \<open>MembershipService\<close>: the three services.
  \<^item> \<open>Base64\<close>, \<open>Json\<close>, \<open>Cursors\<close>: the signed cursors of \<open>cursors.py\<close> with the parts of the standard
    library they use. \<open>ProductPages\<close>: the listing route over repository and cursors.
  \<^item> \<open>ActionModel\<close>: \<open>contracts.py\<close>, \<open>catalogue.py\<close>, \<open>policy.py\<close>, \<open>preview.py\<close> and \<open>repository.py\<close> of the governed
    actions over the record \<open>auto_repo\<close>. \<open>ActionCoordinator\<close>: \<open>coordinator.py\<close>, \<open>reconciliation.py\<close>,
    \<open>verification.py\<close>. \<open>ActionWorker\<close>: \<open>execution.py\<close>, split where the provider call lets others intervene.
  \<^item> \<open>PyValues\<close>: the Python values of an event, their truth, text and conversions, the field validation.
    \<open>Floats\<close>: double precision as rationals rounded at every operation.
  \<^item> \<open>IncidentModel\<close>: \<open>incident.py\<close> of the domain model, \<open>normalizer.py\<close>, \<open>deduplication.py\<close>, \<open>correlator.py\<close>,
    \<open>severity.py\<close>, \<open>lifecycle.py\<close> and the merge decision of \<open>service.py\<close>. \<open>FloodControl\<close>: contracts, policy and
    evaluator of \<open>flood_control\<close>. \<open>IncidentStore\<close>: the three repositories in memory over the record \<open>im_state\<close>.
    \<open>Coordinator\<close>: the package \<open>correlation\<close>. \<open>IncidentService\<close>: \<open>service.py\<close> and \<open>workbench.py\<close>.
  \<^item> \<open>Lineage\<close>: \<open>models.py\<close>, \<open>repository.py\<close> and \<open>traversal.py\<close> of \<open>lineage_intelligence\<close> over the record \<open>lin_repo\<close>.
    \<open>SchemaChanges\<close>: \<open>schema_diff.py\<close>. \<open>LineageImpact\<close>: \<open>impact.py\<close> and the routes of \<open>lineage_routes.py\<close> over typed requests.
  \<^item> \<open>CollectionManager\<close>: \<open>memory_repository.py\<close>, \<open>leases.py\<close>, \<open>service.py\<close> and \<open>idempotency.py\<close> of
    \<open>collection_manager\<close>, \<open>identity.py\<close> of the domain model, over the record \<open>coll_repo\<close> of documents.
  \<^item> \<open>Samples\<close>: concrete values for the witnesses.

  \<^bold>\<open>What is shown.\<close>
  \<^item> Claims (\<open>OperationClaims\<close>, \<open>LeaseRefinement\<close>): older claims are fenced off, terminal states are final,
    claims are granted exactly when the operation is free or its lease ran out. \<open>lease_next\<close> is an abstract
    lease table whose events name the acting worker, the generation and the reading of the clock: the accepted calls
    of a run are a run of that table, and the code accepts every event the table allows.
  \<^item> Reservations (\<open>Idempotency\<close>): a retry never creates again, repair never diverges and is idempotent.
  \<^item> Evolution (\<open>RepositoryEvolution\<close>, \<open>Recovery\<close>, \<open>ServiceEvolution\<close>): the relation \<open>system_evolve\<close> holds along
    every run of the step relation \<open>system_step\<close>, whose steps are whole service calls with any arguments:
    stored evidence is permanent, outcomes are final; a completed reservation no longer changes, except that one
    naming no operation may be bound to its own, and a membership changes with its revision only.
  \<^item> Recovery (\<open>RecoveryEvidence\<close>, \<open>RecoveryProperties\<close>, \<open>BoundedRecovery\<close>): an applied recovery is durable,
    revisiting a terminal operation only repairs its reservation, handlers run a bounded number of times. Their runs
    are observed through the code: \<open>runs_handler\<close> gives the reconciliation a registry of probe handlers.
  \<^item> Graphs (\<open>DependencyGraph\<close>, \<open>DependencyTraversal\<close>, \<open>DependencyValidation\<close>): the cycle search decides,
    the traversal is exact and within its budget, validation accepts sound graphs and names real causes,
    the two cycle searches agree.
  \<^item> Updates (\<open>ProductProperties\<close>): optimistic and atomic.
  \<^item> Cursors and pages: the round trip, the isolation of scopes, the refusal of unsigned text, complete listings.
  \<^item> Governed actions (\<open>ApprovalEvolution\<close>, \<open>ActionSafety\<close>, \<open>ActionProperties\<close>): the relation \<open>auto_evolve\<close> on approvals
    and previews holds along every call; four eyes and single use of approvals are invariants of the runs
    \<open>actions\<close>, in which workers use copies of any age; the shipped catalogue runs nothing.
  \<^item> Submissions (\<open>ActionAttempts\<close>): an account of copies, holders and submissions is kept by the runs \<open>attempts\<close>, in
    which takeovers and repairs of evidence read and write without anybody in between: attempts count
    submissions and stay within the limit, an uncertain submission is not repeated. A takeover from an outdated copy
    breaks this, in every environment and state (\<open>takeover_can_resubmit\<close>).
  \<^item> Incidents (\<open>IncidentMerge\<close>, \<open>IncidentRuns\<close>, \<open>IncidentProperties\<close>): workers read and write at any times, from copies
    of any age, in the steps \<open>incident_step\<close>, and every call of the services is a schedule of such steps. Along
    all schedules incidents are filed under their key, keep and count every finding and move legally. A
    repeated event changes nothing; a stale one only enriches, except for the severity.
  \<^item> Storms (\<open>FloodControl\<close>): only routine events are coalesced; replays are counted once until the window is full.
  \<^item> Tenants (\<open>TenantIsolation\<close>, \<open>TenantCalls\<close>): the calls of one tenant leave the records of all others as they
    are, with no assumption about the digest that yields the identifiers.
  \<^item> Lineage (\<open>LineageTraversal\<close>): answers are sound and within their bounds; in one direction an answer not marked
    truncated is exact. Schemas (\<open>SchemaCompatibility\<close>): the classification says what a reader may rely on. Impact
    (\<open>ImpactProperties\<close>): scores follow the documented formula through rounding, evaluations are kept.
  \<^item> Collection (\<open>CollectionProperties\<close>): the claim of a task fences off other scanners, a result is accepted once per
    key, both along the calls of all tenants that leave the task or the key with its tenant; a registration or a poll
    of another tenant replaces documents.
  \<^item> \<open>ServiceLimits\<close> and parts of \<open>ProductPages\<close>, \<open>FloodControl\<close>, \<open>LineageTraversal\<close>, \<open>ImpactProperties\<close>,
    \<open>IncidentProperties\<close>, \<open>RecoveryProperties\<close>, \<open>DependencyTraversal\<close> and \<open>ActionAttempts\<close> show where the code does
    not do what it means to, on concrete inputs or for a class of them.

  \<^bold>\<open>Bounds and fuel.\<close> The recursive searches and loops are total functions with termination proofs (each
  call adds a node to the active path, uses up the budget, or takes an asset from a queue each enters once). The JSON reader has fuel, one more than the
  length of its input, which \<open>loads_dumps\<close> shows to be enough for every written text; the client that
  follows cursors has fuel, and more than the number of products is enough.

  \<^bold>\<open>Not modelled.\<close> The Elasticsearch repositories and store (requests to a service outside the repository);
  threads inside one repository call; the overflow of floats and their text, which is a parameter; naive
  time stamps; the parsing of route payloads and the lineage listings of jobs, runs and changes; identifiers that are
  not strings; the values pydantic converts to the type of a field of a membership (such as a numeric string), which
  \<open>membership_validate\<close> refuses, and the narrower source field of \<open>DataProductMember\<close>, whose record shares the one of
  memberships; the limit of Python on recursion; the creation of approvals of the legacy workflow,
  whose decision is modelled; the creation of tenants and sources in the collection manager; the inbox search, which folds the
  case of Unicode text, and the projections of the workbench for display; cases, similarity, reviews and reliability of
  the incident manager; the SLO arithmetic; the other services and integrations of the repository, most of which are
  requests to external services, statistics or HTTP wiring around them.
\<close>

end
